(* ===== verification/Prelude.thy ===== *)
theory Prelude
  imports Main "HOL-Library.Word" "HOL-Library.AList_Mapping" "HOL-Library.Char_ord"
    "HOL-Library.List_Lexorder" "HOL-Library.Monad_Syntax" "HOL-Library.Multiset"
begin

text \<open>
  Shared vocabulary of the development: the machine integers and byte strings of the Rust
  sources, little-endian encodings, panics as values, checked guards in the option monad, and
  the lemmas on lists, finite maps and option-valued loops that the component theories use.
  \<open>std::collections::HashMap\<close> is modelled by \<open>mapping\<close>, \<open>HashSet\<close> by \<open>set\<close>, \<open>Vec\<close> by \<open>list\<close>,
  \<open>String\<close> by \<open>string\<close> (its UTF-8 bytes as characters). Unsigned integers keep their width and
  \<open>+\<close>, \<open>-\<close>, \<open>*\<close> wrap, as they do in the release profile the node is built with.
\<close>

unbundle bit_operations_syntax

named_theorems map_simps \<open>lookups in updated, deleted and filtered finite maps\<close>
named_theorems guard_simps \<open>inversion of option-monad computations that succeed\<close>

type_synonym byte = "8 word"
type_synonym u16 = "16 word"
type_synonym u32 = "32 word"
type_synonym u64 = "64 word"
type_synonym hash32 = "byte list"

abbreviation zero_hash :: hash32 where
  "zero_hash \<equiv> replicate 32 0"


section \<open>Panics as values\<close>

text \<open>A computation that may panic (an \<open>expect\<close>, an \<open>unwrap\<close>, a slice out of bounds).\<close>

datatype 'a outcome = Panic | Ret 'a

fun bind_outcome :: "'a outcome \<Rightarrow> ('a \<Rightarrow> 'b outcome) \<Rightarrow> 'b outcome" where
  "bind_outcome Panic f = Panic"
| "bind_outcome (Ret x) f = f x"

fun expect :: "'a option \<Rightarrow> 'a outcome" where
  "expect None = Panic"
| "expect (Some x) = Ret x"

fun sequence_outcome :: "'a outcome list \<Rightarrow> 'a list outcome" where
  "sequence_outcome [] = Ret []"
| "sequence_outcome (x # xs) =
     bind_outcome x (\<lambda>y. bind_outcome (sequence_outcome xs) (\<lambda>ys. Ret (y # ys)))"

lemma bind_outcome_eq_Ret [guard_simps]:
  "bind_outcome x f = Ret z \<longleftrightarrow> (\<exists>y. x = Ret y \<and> f y = Ret z)"
  by (cases x) auto

lemma bind_outcome_assoc [simp]:
  "bind_outcome (bind_outcome m f) g = bind_outcome m (\<lambda>x. bind_outcome (f x) g)"
  by (cases m) simp_all

lemma sequence_outcome_Ret:
  "sequence_outcome (map f xs) = Ret ys \<longleftrightarrow> map f xs = map Ret ys"
  by (induction xs arbitrary: ys) (auto simp: bind_outcome_eq_Ret)

lemma sequence_outcome_map_Ret [simp]: "sequence_outcome (map Ret ys) = Ret ys"
  by (induction ys) auto


section \<open>Guards in the option monad\<close>

text \<open>\<open>check b\<close> is the early return \<open>if !b { return None; }\<close>.\<close>

definition check :: "bool \<Rightarrow> unit option" where
  "check b = (if b then Some () else None)"

lemma check_eq_Some [simp, guard_simps]: "check b = Some u \<longleftrightarrow> b"
  by (simp add: check_def)

lemma check_simps [simp]: "check True = Some ()" "check False = None"
  by (simp_all add: check_def)

lemma bind_check [simp]: "(check b \<bind> f) = (if b then f () else None)"
  by (simp add: check_def)

lemmas [guard_simps] = bind_eq_Some_conv

text \<open>A \<open>for\<close> loop that may return early: the accumulator of the first \<open>None\<close> is the result.\<close>

fun fold_option :: "('a \<Rightarrow> 'b \<Rightarrow> 'b option) \<Rightarrow> 'a list \<Rightarrow> 'b \<Rightarrow> 'b option" where
  "fold_option f [] acc = Some acc"
| "fold_option f (x # xs) acc = f x acc \<bind> fold_option f xs"

lemma fold_option_append:
  "fold_option f (xs @ ys) acc = fold_option f xs acc \<bind> fold_option f ys"
  by (induction xs arbitrary: acc) (simp_all cong: Option.bind_cong)

lemma fold_option_invariant:
  assumes "fold_option f xs acc = Some acc'" and "P acc"
    and "\<And>x a a'. x \<in> set xs \<Longrightarrow> P a \<Longrightarrow> f x a = Some a' \<Longrightarrow> P a'"
  shows "P acc'"
  using assms
proof (induction xs arbitrary: acc)
  case Nil
  then show ?case by simp
next
  case (Cons x xs)
  then obtain a where "f x acc = Some a" and "fold_option f xs a = Some acc'"
    by (auto simp: bind_eq_Some_conv)
  with Cons show ?case by (metis list.set_intros)
qed

text \<open>Whatever a loop establishes at one element and keeps afterwards holds at the end.\<close>

lemma fold_option_at:
  assumes "fold_option f xs acc = Some acc'" and "x \<in> set xs"
    and "\<And>a a'. f x a = Some a' \<Longrightarrow> Q a'"
    and "\<And>y a a'. Q a \<Longrightarrow> f y a = Some a' \<Longrightarrow> Q a'"
  shows "Q acc'"
proof -
  from assms(2) obtain ys zs where xs: "xs = ys @ x # zs"
    by (meson split_list)
  with assms(1) obtain a b where fx: "f x a = Some b" and rest: "fold_option f zs b = Some acc'"
    by (auto simp: fold_option_append bind_eq_Some_conv)
  show ?thesis
    using rest
    by (rule fold_option_invariant [where P = Q]) (use assms(3,4) fx in blast)+
qed

lemma fold_option_step:
  assumes "fold_option f xs acc = Some acc'" and "x \<in> set xs"
  obtains a a' where "f x a = Some a'"
  using assms
  by (metis bind_eq_Some_conv fold_option.simps(2) fold_option_append split_list)

text \<open>\<open>u64::saturating_sub\<close>\<close>

definition saturating_sub :: "u64 \<Rightarrow> u64 \<Rightarrow> u64" where
  "saturating_sub a b = (if a < b then 0 else a - b)"


section \<open>Finite maps\<close>

lemmas [map_simps] = lookup_update' lookup_delete_neq lookup_delete lookup_empty

lemma lookup_delete' [map_simps]:
  "Mapping.lookup (Mapping.delete k m) k' = (if k = k' then None else Mapping.lookup m k')"
  by (cases "k = k'") (simp_all add: lookup_delete lookup_delete_neq)

lemma lookup_update_fun: "Mapping.lookup (Mapping.update k v m) = (Mapping.lookup m)(k \<mapsto> v)"
  by (rule ext) (simp add: map_simps)

definition contains_key :: "('k, 'v) mapping \<Rightarrow> 'k \<Rightarrow> bool" where
  "contains_key m k \<longleftrightarrow> Mapping.lookup m k \<noteq> None"

lemma contains_key_keys: "contains_key m k \<longleftrightarrow> k \<in> Mapping.keys m"
  by (simp add: contains_key_def keys_dom_lookup domIff)

lemma contains_key_update [map_simps]:
  "contains_key (Mapping.update k v m) k' \<longleftrightarrow> k = k' \<or> contains_key m k'"
  by (simp add: contains_key_def lookup_update')

lemma delete_update_fresh:
  "Mapping.lookup m k = None \<Longrightarrow> Mapping.delete k (Mapping.update k v m) = m"
  by (rule mapping_eqI) (auto simp: map_simps)

lemma lookup_map_filter [map_simps]:
  "Mapping.lookup (Mapping.filter P m) k =
     (case Mapping.lookup m k of None \<Rightarrow> None | Some v \<Rightarrow> if P k v then Some v else None)"
  by (simp add: lookup_filter)

text \<open>Inserting a list of entries, in order, as a loop of \<open>HashMap::insert\<close> does.\<close>

definition insert_all :: "('k \<times> 'v) list \<Rightarrow> ('k, 'v) mapping \<Rightarrow> ('k, 'v) mapping" where
  "insert_all kvs m = fold (\<lambda>(k, v). Mapping.update k v) kvs m"

lemma insert_all_simps [simp]:
  "insert_all [] m = m"
  "insert_all ((k, v) # kvs) m = insert_all kvs (Mapping.update k v m)"
  by (simp_all add: insert_all_def)

lemma lookup_insert_all_other:
  "k \<notin> fst ` set kvs \<Longrightarrow> Mapping.lookup (insert_all kvs m) k = Mapping.lookup m k"
  by (induction kvs arbitrary: m) (auto simp: map_simps)

lemma lookup_insert_all:
  "distinct (map fst kvs) \<Longrightarrow>
     Mapping.lookup (insert_all kvs m) k =
       (case map_of kvs k of None \<Rightarrow> Mapping.lookup m k | Some v \<Rightarrow> Some v)"
proof (induction kvs arbitrary: m)
  case Nil
  then show ?case by simp
next
  case (Cons kv kvs)
  then show ?case
    by (cases kv) (auto simp: map_simps lookup_insert_all_other split: option.splits
        dest: map_of_SomeD intro: rev_image_eqI)
qed

definition delete_all :: "'k list \<Rightarrow> ('k, 'v) mapping \<Rightarrow> ('k, 'v) mapping" where
  "delete_all ks m = fold Mapping.delete ks m"

lemma delete_all_simps [simp]:
  "delete_all [] m = m"
  "delete_all (k # ks) m = delete_all ks (Mapping.delete k m)"
  by (simp_all add: delete_all_def)

lemma lookup_delete_all [map_simps]:
  "Mapping.lookup (delete_all ks m) k = (if k \<in> set ks then None else Mapping.lookup m k)"
  by (induction ks arbitrary: m) (auto simp: map_simps)


section \<open>Sets of commitments\<close>

text \<open>Loops of \<open>HashSet::insert\<close> and \<open>HashSet::remove\<close>.\<close>

definition add_all :: "'a list \<Rightarrow> 'a set \<Rightarrow> 'a set" where
  "add_all xs A = fold insert xs A"

definition remove_all :: "'a list \<Rightarrow> 'a set \<Rightarrow> 'a set" where
  "remove_all xs A = fold Set.remove xs A"

lemma add_all_eq [simp]: "add_all xs A = A \<union> set xs"
  unfolding add_all_def by (induction xs arbitrary: A) auto

lemma remove_all_eq [simp]: "remove_all xs A = A - set xs"
  unfolding remove_all_def by (induction xs arbitrary: A) auto

declare add_all_eq [code del] remove_all_eq [code del]


section \<open>Multisets\<close>

lemma image_set_mset: "f ` set xs = set_mset (mset (map f xs))"
  by simp

lemma diff_mset_disjoint: "set_mset (A - B) \<inter> set_mset (B - A) = {}"
  by (auto simp: in_diff_count)

lemma sum_mset_cancel:
  fixes f :: "'a \<Rightarrow> 'b::ab_group_add"
  shows "(\<Sum>x \<in># A - B. f x) - (\<Sum>x \<in># B - A. f x) = (\<Sum>x \<in># A. f x) - (\<Sum>x \<in># B. f x)"
proof -
  have split: "C = (C - D) + C \<inter># D" for C D :: "'a multiset"
    by (auto simp: multiset_eq_iff min_def)
  have "(\<Sum>x \<in># C. f x) = (\<Sum>x \<in># C - D. f x) + (\<Sum>x \<in># C \<inter># D. f x)" for C D
    by (subst split [of C D]) simp
  from this [of A B] this [of B A] show ?thesis
    by (simp add: subset_mset.inf.commute [of B A] algebra_simps)
qed


section \<open>Bytes and little-endian integers\<close>

definition bytes_of :: "string \<Rightarrow> byte list" where
  "bytes_of s = map of_char s"

definition le_bytes :: "nat \<Rightarrow> 'a::len word \<Rightarrow> byte list" where
  "le_bytes n w = map (\<lambda>i. ucast (drop_bit (8 * i) w)) [0..<n]"

fun from_le_bytes :: "byte list \<Rightarrow> 'a::len word" where
  "from_le_bytes [] = 0"
| "from_le_bytes (b # bs) = ucast b OR push_bit 8 (from_le_bytes bs)"

abbreviation u64_le :: "u64 \<Rightarrow> byte list" where "u64_le \<equiv> le_bytes 8"
abbreviation u32_le :: "u32 \<Rightarrow> byte list" where "u32_le \<equiv> le_bytes 4"
abbreviation u16_le :: "u16 \<Rightarrow> byte list" where "u16_le \<equiv> le_bytes 2"

lemma length_bytes_of [simp]: "length (bytes_of s) = length s"
  by (simp add: bytes_of_def)

lemma bytes_of_append [simp]: "bytes_of (s @ t) = bytes_of s @ bytes_of t"
  by (simp add: bytes_of_def)

lemma length_le_bytes [simp]: "length (le_bytes n w) = n"
  by (simp add: le_bytes_def)

lemma unat_byte_less: "unat (b :: byte) < 256"
  using unsigned_less [where ?'a = nat, of b] by simp

lemma unat_u64_less: "unat (w :: u64) < 2 ^ 64"
  using unsigned_less [where ?'a = nat, of w] by simp

lemma unat_of_nat_u64: "n < 2 ^ 64 \<Longrightarrow> unat (of_nat n :: u64) = n"
  by (simp add: unat_of_nat take_bit_eq_mod)

lemma unat_of_char [simp]: "unat (of_char c :: byte) = of_char c"
proof -
  have "(of_char c :: byte) = of_nat (of_char c)"
    by (simp add: of_nat_of_char)
  then show ?thesis
    by (simp add: unat_of_nat take_bit_eq_mod)
qed

lemma of_char_byte_inject [simp]: "(of_char c :: byte) = of_char d \<longleftrightarrow> c = d"
  by (metis unat_of_char of_char_eq_iff)

lemma bytes_of_inject [simp]: "bytes_of s = bytes_of t \<longleftrightarrow> s = t"
  by (auto simp: bytes_of_def inj_on_def dest!: map_injective)

lemma bit_from_le_bytes:
  "bit (from_le_bytes bs :: 'a::len word) i \<longleftrightarrow>
     i < LENGTH('a) \<and> i div 8 < length bs \<and> bit (bs ! (i div 8)) (i mod 8)"
proof (induction bs arbitrary: i)
  case Nil
  then show ?case by simp
next
  case (Cons b bs)
  show ?case
  proof (cases "i < 8")
    case True
    then show ?thesis
      by (auto simp: bit_or_iff bit_push_bit_iff bit_ucast_iff)
  next
    case False
    then have "i div 8 = Suc ((i - 8) div 8)" and "i mod 8 = (i - 8) mod 8"
      by (simp_all add: le_div_geq le_mod_geq)
    moreover have "\<not> bit b i"
      using False bit_imp_le_length [of b i] by auto
    ultimately show ?thesis
      using False by (auto simp: bit_or_iff bit_push_bit_iff bit_ucast_iff Cons.IH)
  qed
qed

text \<open>Decoding the little-endian bytes of a word gives the word back.\<close>

lemma from_le_bytes_le_bytes:
  assumes "LENGTH('a) \<le> 8 * n"
  shows "from_le_bytes (le_bytes n (w :: 'a::len word)) = w"
proof (rule bit_word_eqI)
  fix i assume i: "i < LENGTH('a)"
  with assms have "i div 8 < n" by auto
  then show "bit (from_le_bytes (le_bytes n w) :: 'a word) i = bit w i"
    using i by (simp add: bit_from_le_bytes le_bytes_def bit_ucast_iff bit_drop_bit_eq)
qed

lemma le_bytes_inject:
  fixes v w :: "'a::len word"
  assumes "LENGTH('a) \<le> 8 * n"
  shows "le_bytes n v = le_bytes n w \<longleftrightarrow> v = w"
  using from_le_bytes_le_bytes [OF assms, of v] from_le_bytes_le_bytes [OF assms, of w] by metis

lemma u64_le_inject [simp]: "u64_le v = u64_le w \<longleftrightarrow> v = w"
  by (rule le_bytes_inject) simp

lemma u32_le_inject [simp]: "u32_le v = u32_le w \<longleftrightarrow> v = w"
  by (rule le_bytes_inject) simp

lemma u16_le_inject [simp]: "u16_le v = u16_le w \<longleftrightarrow> v = w"
  by (rule le_bytes_inject) simp

end
