(* ===== verification/Crypto.thy ===== *)
theory Crypto
  imports Prelude
begin

text \<open>
  The crate \<open>crypto\<close> (\<open>crypto/src/pedersen.rs\<close>, \<open>schnorr.rs\<close>, \<open>range_proof.rs\<close>, \<open>note.rs\<close>):
  Pedersen commitments, Schnorr signatures (single party and two party), range proofs and
  recoverable notes. The third-party primitives these files call (curve25519-dalek's Ristretto
  group and scalars, merlin transcripts, bulletproofs, SHA-2, ChaCha20-Poly1305) are the fields of
  the parameter \<open>crypto\<close>: points range over a type of class \<open>ab_group_add\<close> and scalars over one of
  class \<open>comm_ring_1\<close>, and every law of the primitives a theorem needs is a named hypothesis below.
  Randomness (nonces drawn from \<open>OsRng\<close>) is an explicit argument.
\<close>

record ('p, 's) crypto =
  gen_B :: 'p
  gen_B_blinding :: 'p
  smul :: "'s \<Rightarrow> 'p \<Rightarrow> 'p"
  compress :: "'p \<Rightarrow> byte list"
  decompress :: "byte list \<Rightarrow> 'p option"
  scalar_bytes :: "'s \<Rightarrow> byte list"
  from_canonical_bytes :: "byte list \<Rightarrow> 's option"
  from_bits :: "byte list \<Rightarrow> 's"
  from_bytes_mod_order_wide :: "byte list \<Rightarrow> 's"
  merlin_challenge_bytes :: "string \<Rightarrow> (string \<times> byte list) list \<Rightarrow> string \<Rightarrow> nat \<Rightarrow> byte list"
  bp_from_bytes :: "byte list \<Rightarrow> byte list option"
  bp_prove_single :: "string \<Rightarrow> u64 \<Rightarrow> 's \<Rightarrow> nat \<Rightarrow> byte list"
  bp_verify_single :: "string \<Rightarrow> byte list \<Rightarrow> byte list \<Rightarrow> nat \<Rightarrow> bool"
  sha256 :: "byte list \<Rightarrow> hash32"
  sha512 :: "byte list \<Rightarrow> byte list"
  aead_encrypt :: "byte list \<Rightarrow> byte list \<Rightarrow> byte list \<Rightarrow> byte list"
  aead_decrypt :: "byte list \<Rightarrow> byte list \<Rightarrow> byte list \<Rightarrow> byte list option"


section \<open>Laws of the external primitives\<close>

text \<open>Scalar multiplication makes the points a module over the scalars.\<close>

definition module_laws :: "('p::ab_group_add, 's::comm_ring_1) crypto \<Rightarrow> bool" where
  "module_laws cr \<longleftrightarrow>
     (\<forall>a b P. smul cr (a + b) P = smul cr a P + smul cr b P) \<and>
     (\<forall>a P Q. smul cr a (P + Q) = smul cr a P + smul cr a Q) \<and>
     (\<forall>a b P. smul cr (a * b) P = smul cr a (smul cr b P))"

text \<open>Compression is a 32-byte encoding that decompression inverts.\<close>

definition compress_laws :: "('p, 's) crypto \<Rightarrow> bool" where
  "compress_laws cr \<longleftrightarrow>
     (\<forall>P. length (compress cr P) = 32 \<and> decompress cr (compress cr P) = Some P)"

text \<open>A scalar's 32 canonical bytes decode to that scalar.\<close>

definition scalar_laws :: "('p, 's) crypto \<Rightarrow> bool" where
  "scalar_laws cr \<longleftrightarrow>
     (\<forall>a. length (scalar_bytes cr a) = 32 \<and> from_canonical_bytes cr (scalar_bytes cr a) = Some a)"

text \<open>The AEAD decrypts what it encrypted under the same key and nonce.\<close>

definition aead_laws :: "('p, 's) crypto \<Rightarrow> bool" where
  "aead_laws cr \<longleftrightarrow> (\<forall>k n m. aead_decrypt cr k n (aead_encrypt cr k n m) = Some m)"

lemma smul_add: "module_laws cr \<Longrightarrow> smul cr (a + b) P = smul cr a P + smul cr b P"
  by (simp add: module_laws_def)

lemma smul_add_right: "module_laws cr \<Longrightarrow> smul cr a (P + Q) = smul cr a P + smul cr a Q"
  by (simp add: module_laws_def)

lemma smul_mult: "module_laws cr \<Longrightarrow> smul cr (a * b) P = smul cr a (smul cr b P)"
  by (simp add: module_laws_def)

lemma smul_zero: "module_laws cr \<Longrightarrow> smul cr 0 P = 0"
  by (metis add_0 add_cancel_right_left smul_add)

lemma smul_uminus: "module_laws cr \<Longrightarrow> smul cr (- a) P = - smul cr a P"
  by (metis ab_left_minus add_eq_0_iff2 smul_add smul_zero)

lemma smul_diff: "module_laws cr \<Longrightarrow> smul cr (a - b) P = smul cr a P - smul cr b P"
  by (metis diff_conv_add_uminus smul_add smul_uminus)

lemma smul_sum_list:
  "module_laws cr \<Longrightarrow> smul cr (sum_list as) P = (\<Sum>a \<leftarrow> as. smul cr a P)"
  by (induction as) (simp_all add: smul_zero smul_add)

lemmas module_simps = smul_add smul_diff smul_uminus smul_zero smul_mult smul_sum_list


section \<open>Pedersen commitments (\<open>pedersen.rs\<close>)\<close>

datatype 'p commitment = Commitment (as_point: 'p)

definition scalar_of_u64 :: "u64 \<Rightarrow> 's::comm_ring_1" where
  "scalar_of_u64 v = of_nat (unat v)"

lemma scalar_of_u64_0 [simp]: "scalar_of_u64 0 = 0"
  by (simp add: scalar_of_u64_def)

definition commitment_new ::
    "('p::ab_group_add, 's::comm_ring_1) crypto \<Rightarrow> u64 \<Rightarrow> 's \<Rightarrow> 'p commitment" where
  "commitment_new cr value blinding =
     Commitment (smul cr (scalar_of_u64 value) (gen_B cr) + smul cr blinding (gen_B_blinding cr))"

definition commitment_add :: "'p::ab_group_add commitment \<Rightarrow> 'p commitment \<Rightarrow> 'p commitment" where
  "commitment_add c d = Commitment (as_point c + as_point d)"

definition commitment_sub :: "'p::ab_group_add commitment \<Rightarrow> 'p commitment \<Rightarrow> 'p commitment" where
  "commitment_sub c d = Commitment (as_point c - as_point d)"

definition from_compressed_bytes :: "('p, 's) crypto \<Rightarrow> byte list \<Rightarrow> 'p commitment option" where
  "from_compressed_bytes cr bytes =
     (if length bytes \<noteq> 32 then None else map_option Commitment (decompress cr bytes))"

text \<open>\<open>compress().as_bytes()\<close> of the point of a commitment, used by every signed message.\<close>

definition commitment_bytes :: "('p, 's) crypto \<Rightarrow> 'p commitment \<Rightarrow> byte list" where
  "commitment_bytes cr c = compress cr (as_point c)"

lemma from_compressed_bytes_roundtrip:
  "compress_laws cr \<Longrightarrow> from_compressed_bytes cr (commitment_bytes cr c) = Some c"
  by (simp add: from_compressed_bytes_def commitment_bytes_def compress_laws_def)

lemma commitment_bytes_inject:
  "compress_laws cr \<Longrightarrow> commitment_bytes cr c = commitment_bytes cr d \<longleftrightarrow> c = d"
  by (metis from_compressed_bytes_roundtrip option.inject)

lemma length_commitment_bytes: "compress_laws cr \<Longrightarrow> length (commitment_bytes cr c) = 32"
  by (simp add: commitment_bytes_def compress_laws_def)


subsection \<open>Hexadecimal strings\<close>

definition hex_digit :: "nat \<Rightarrow> char" where
  "hex_digit n = (if n < 10 then char_of (48 + n) else char_of (87 + n))"

definition hex_byte :: "byte \<Rightarrow> string" where
  "hex_byte b = [hex_digit (unat b div 16), hex_digit (unat b mod 16)]"

definition to_hex :: "byte list \<Rightarrow> string" where
  "to_hex bytes = concat (map hex_byte bytes)"

definition hex_value :: "char \<Rightarrow> nat option" where
  "hex_value c =
     (let n = of_char c in
      if 48 \<le> n \<and> n \<le> 57 then Some (n - 48)
      else if 97 \<le> n \<and> n \<le> 102 then Some (n - 87)
      else if 65 \<le> n \<and> n \<le> 70 then Some (n - 55)
      else None)"

fun parse_hex_digits :: "string \<Rightarrow> nat \<Rightarrow> nat option" where
  "parse_hex_digits [] acc = Some acc"
| "parse_hex_digits (c # cs) acc =
     (case hex_value c of None \<Rightarrow> None
      | Some d \<Rightarrow> if 16 * acc + d < 256 then parse_hex_digits cs (16 * acc + d) else None)"

text \<open>\<open>u8::from_str_radix(s, 16).ok()\<close>: one leading plus sign is accepted, overflow is an error.\<close>

definition u8_from_str_radix16 :: "string \<Rightarrow> byte option" where
  "u8_from_str_radix16 s =
     map_option word_of_nat
       (case s of [] \<Rightarrow> None
        | c # cs \<Rightarrow> if c = CHR ''+'' then (if cs = [] then None else parse_hex_digits cs 0)
                    else parse_hex_digits s 0)"

text \<open>A slice of a \<open>str\<close> panics when an end is not on a character boundary.\<close>

definition is_char_boundary :: "string \<Rightarrow> nat \<Rightarrow> bool" where
  "is_char_boundary s i \<longleftrightarrow>
     i = 0 \<or> i = length s \<or>
     (i < length s \<and> \<not> (128 \<le> (of_char (s ! i) :: nat) \<and> (of_char (s ! i) :: nat) < 192))"

definition str_slice2 :: "string \<Rightarrow> nat \<Rightarrow> string outcome" where
  "str_slice2 s i =
     (if is_char_boundary s (2 * i) \<and> is_char_boundary s (2 * i + 2)
      then Ret (take 2 (drop (2 * i) s)) else Panic)"

text \<open>\<open>for i in 0..n { bytes[i] = u8::from_str_radix(&hex[i * 2..i * 2 + 2], 16).ok()?; }\<close>\<close>

fun hex_loop :: "string \<Rightarrow> nat list \<Rightarrow> byte list option outcome" where
  "hex_loop s [] = Ret (Some [])"
| "hex_loop s (i # is) =
     bind_outcome (str_slice2 s i) (\<lambda>t.
       case u8_from_str_radix16 t of None \<Rightarrow> Ret None
       | Some b \<Rightarrow> bind_outcome (hex_loop s is) (\<lambda>r. Ret (map_option ((#) b) r)))"

definition commitment_to_hex :: "('p, 's) crypto \<Rightarrow> 'p commitment \<Rightarrow> string" where
  "commitment_to_hex cr c = to_hex (commitment_bytes cr c)"

definition commitment_from_hex :: "('p, 's) crypto \<Rightarrow> string \<Rightarrow> 'p commitment option outcome" where
  "commitment_from_hex cr hex =
     (if length hex \<noteq> 64 then Ret None
      else bind_outcome (hex_loop hex [0..<32]) (\<lambda>r. Ret (r \<bind> from_compressed_bytes cr)))"


section \<open>Schnorr signatures (\<open>schnorr.rs\<close>)\<close>

record 's signature =
  sig_s :: 's
  sig_e :: 's

definition compute_challenge ::
    "('p, 's) crypto \<Rightarrow> byte list \<Rightarrow> 'p \<Rightarrow> 'p \<Rightarrow> 's" where
  "compute_challenge cr message public_key_point nonce_point =
     from_bytes_mod_order_wide cr
       (merlin_challenge_bytes cr ''Haze Schnorr Signature''
          [(''message'', message),
           (''public_key'', compress cr public_key_point),
           (''public_nonce'', compress cr nonce_point)] ''e'' 64)"

definition sign ::
    "('p::ab_group_add, 's::comm_ring_1) crypto \<Rightarrow> 's \<Rightarrow> byte list \<Rightarrow> 's \<Rightarrow> 's signature" where
  "sign cr k message secret_key =
     (let public_key = smul cr secret_key (gen_B_blinding cr);
          public_nonce = smul cr k (gen_B_blinding cr);
          e = compute_challenge cr message public_key public_nonce
      in \<lparr>sig_s = k + e * secret_key, sig_e = e\<rparr>)"

definition verify ::
    "('p::ab_group_add, 's::comm_ring_1) crypto \<Rightarrow> 's signature \<Rightarrow> byte list \<Rightarrow> 'p commitment \<Rightarrow> bool" where
  "verify cr sig message public_key =
     (let pk_point = as_point public_key;
          r_point = smul cr (sig_s sig) (gen_B_blinding cr) - smul cr (sig_e sig) pk_point
      in sig_e sig = compute_challenge cr message pk_point r_point)"

definition signature_bytes :: "('p, 's) crypto \<Rightarrow> 's signature \<Rightarrow> byte list" where
  "signature_bytes cr sig = scalar_bytes cr (sig_s sig) @ scalar_bytes cr (sig_e sig)"

definition signature_of_bytes :: "('p, 's) crypto \<Rightarrow> byte list \<Rightarrow> 's signature option" where
  "signature_of_bytes cr bytes =
     (if length bytes \<noteq> 64 then None
      else do {
        s \<leftarrow> from_canonical_bytes cr (take 32 bytes);
        e \<leftarrow> from_canonical_bytes cr (drop 32 bytes);
        Some \<lparr>sig_s = s, sig_e = e\<rparr>
      })"

definition signature_to_hex :: "('p, 's) crypto \<Rightarrow> 's signature \<Rightarrow> string" where
  "signature_to_hex cr sig = to_hex (signature_bytes cr sig)"

definition signature_from_hex :: "('p, 's) crypto \<Rightarrow> string \<Rightarrow> 's signature option outcome" where
  "signature_from_hex cr hex =
     (if length hex \<noteq> 128 then Ret None
      else bind_outcome (hex_loop hex [0..<64]) (\<lambda>r. Ret (r \<bind> signature_of_bytes cr)))"

text \<open>Two-party signing: nonces, partial signatures and their aggregation.\<close>

definition nonce_point :: "('p, 's) crypto \<Rightarrow> 's \<Rightarrow> 'p" where
  "nonce_point cr k = smul cr k (gen_B_blinding cr)"

definition partial_sign :: "'s::comm_ring_1 \<Rightarrow> 's \<Rightarrow> 's \<Rightarrow> 's" where
  "partial_sign nonce secret_key e = nonce + e * secret_key"

definition aggregate_sigs :: "'s::comm_ring_1 list \<Rightarrow> 's \<Rightarrow> 's signature" where
  "aggregate_sigs partial_sigs e = \<lparr>sig_s = sum_list partial_sigs, sig_e = e\<rparr>"


section \<open>Range proofs (\<open>range_proof.rs\<close>)\<close>

text \<open>A proof is kept as the bytes it serialises to.\<close>

datatype range_proof = RangeProof (proof_bytes: "byte list")

definition RANGE_BIT_LENGTH :: nat where
  "RANGE_BIT_LENGTH = 64"

definition range_prove :: "('p, 's) crypto \<Rightarrow> u64 \<Rightarrow> 's \<Rightarrow> range_proof" where
  "range_prove cr value blinding =
     RangeProof (bp_prove_single cr ''Haze Range Proof'' value blinding RANGE_BIT_LENGTH)"

definition range_verify :: "('p, 's) crypto \<Rightarrow> range_proof \<Rightarrow> 'p commitment \<Rightarrow> bool" where
  "range_verify cr proof c =
     bp_verify_single cr ''Haze Range Proof'' (proof_bytes proof) (commitment_bytes cr c)
       RANGE_BIT_LENGTH"

text \<open>Completeness of the range proof: an honest proof verifies against its commitment.\<close>

definition range_proof_complete :: "('p::ab_group_add, 's::comm_ring_1) crypto \<Rightarrow> bool" where
  "range_proof_complete cr \<longleftrightarrow>
     (\<forall>v r. bp_verify_single cr ''Haze Range Proof''
        (bp_prove_single cr ''Haze Range Proof'' v r 64)
        (compress cr (smul cr (of_nat (unat v)) (gen_B cr) + smul cr r (gen_B_blinding cr))) 64)"

lemma range_verify_prove:
  "range_proof_complete cr \<Longrightarrow> range_verify cr (range_prove cr v r) (commitment_new cr v r)"
  by (simp add: range_verify_def range_prove_def range_proof_complete_def commitment_bytes_def
      commitment_new_def scalar_of_u64_def RANGE_BIT_LENGTH_def)


section \<open>Recoverable notes (\<open>note.rs\<close>)\<close>

definition coinbase_blinding :: "('p, 's) crypto \<Rightarrow> 's \<Rightarrow> u64 \<Rightarrow> 's" where
  "coinbase_blinding cr stake_key height =
     from_bytes_mod_order_wide cr
       (sha512 cr (bytes_of ''Haze Coinbase Blinding'' @ scalar_bytes cr stake_key @ u64_le height))"

definition coinbase_note_key :: "('p, 's) crypto \<Rightarrow> 's \<Rightarrow> byte list" where
  "coinbase_note_key cr stake_key =
     take 32 (sha512 cr (bytes_of ''Haze Coinbase Note Key'' @ scalar_bytes cr stake_key))"

definition seal :: "('p, 's) crypto \<Rightarrow> byte list \<Rightarrow> byte list \<Rightarrow> u32 \<Rightarrow> u64 \<Rightarrow> byte list" where
  "seal cr nonce_bytes note_key index value =
     nonce_bytes @ aead_encrypt cr note_key nonce_bytes (u32_le index @ u64_le value)"

definition open_note :: "('p, 's) crypto \<Rightarrow> byte list \<Rightarrow> byte list \<Rightarrow> (u32 \<times> u64) option" where
  "open_note cr note_key note =
     (if length note < 12 then None
      else do {
        plaintext \<leftarrow> aead_decrypt cr note_key (take 12 note) (drop 12 note);
        if length plaintext \<noteq> 12 then None
        else Some (from_le_bytes (take 4 plaintext), from_le_bytes (drop 4 plaintext))
      })"


section \<open>Properties\<close>

lemma hex_value_hex_digit: "n < 16 \<Longrightarrow> hex_value (hex_digit n) = Some n"
  by (auto simp: hex_value_def hex_digit_def Let_def)

lemma hex_digit_ascii: "n < 16 \<Longrightarrow> (of_char (hex_digit n) :: nat) < 128 \<and> hex_digit n \<noteq> CHR ''+''"
  by (auto simp: hex_digit_def dest!: arg_cong [where f = "of_char :: char \<Rightarrow> nat"])

lemma u8_from_str_radix16_hex_byte: "u8_from_str_radix16 (hex_byte b) = Some b"
proof -
  have lt: "unat b < 256" using unat_byte_less [of b] .
  then have "unat b div 16 < 16" and "unat b mod 16 < 16"
    by (simp_all add: less_mult_imp_div_less)
  then show ?thesis
    using lt by (simp add: u8_from_str_radix16_def hex_byte_def hex_digit_ascii hex_value_hex_digit)
qed

lemma length_to_hex [simp]: "length (to_hex bs) = 2 * length bs"
  by (induction bs) (simp_all add: to_hex_def hex_byte_def)

lemma take_drop_to_hex:
  "i < length bs \<Longrightarrow> take 2 (drop (2 * i) (to_hex bs)) = hex_byte (bs ! i)"
proof (induction bs arbitrary: i)
  case (Cons b bs)
  then show ?case
    by (cases i) (simp_all add: to_hex_def hex_byte_def)
qed simp

lemma to_hex_ascii: "c \<in> set (to_hex bs) \<Longrightarrow> (of_char c :: nat) < 128"
proof -
  assume "c \<in> set (to_hex bs)"
  then obtain b where "c \<in> set (hex_byte b)" by (auto simp: to_hex_def)
  moreover have "unat b div 16 < 16" using unat_byte_less [of b] by (simp add: less_mult_imp_div_less)
  ultimately show ?thesis by (auto simp: hex_byte_def hex_digit_ascii)
qed

lemma is_char_boundary_to_hex: "i \<le> length (to_hex bs) \<Longrightarrow> is_char_boundary (to_hex bs) i"
  using to_hex_ascii [of "to_hex bs ! i" bs] nth_mem [of i "to_hex bs"]
  unfolding is_char_boundary_def by (cases "i = length (to_hex bs)") fastforce+

lemma hex_loop_to_hex:
  "\<forall>i \<in> set is. i < length bs \<Longrightarrow> hex_loop (to_hex bs) is = Ret (Some (map ((!) bs) is))"
  by (induction "is")
    (simp_all add: str_slice2_def is_char_boundary_to_hex take_drop_to_hex
      u8_from_str_radix16_hex_byte)

lemma hex_loop_all:
  "length bs = n \<Longrightarrow> hex_loop (to_hex bs) [0..<n] = Ret (Some bs)"
  using hex_loop_to_hex [of "[0..<n]" bs] by (auto simp: map_nth)

text \<open>A commitment parsed back from its hexadecimal string is the commitment that was printed:
  \<open>Commitment::from_hex\<close> neither panics nor fails on what \<open>to_hex\<close> produced.\<close>

theorem commitment_hex_roundtrip:
  assumes "compress_laws cr"
  shows "commitment_from_hex cr (commitment_to_hex cr c) = Ret (Some c)"
  using assms
  by (simp add: commitment_from_hex_def commitment_to_hex_def length_commitment_bytes
      hex_loop_all from_compressed_bytes_roundtrip)

lemma signature_of_bytes_roundtrip:
  assumes "scalar_laws cr"
  shows "length (signature_bytes cr sig) = 64"
    and "signature_of_bytes cr (signature_bytes cr sig) = Some sig"
  using assms by (simp_all add: signature_bytes_def signature_of_bytes_def scalar_laws_def)

text \<open>A signature parsed back from its hexadecimal string is the signature that was printed.\<close>

theorem signature_hex_roundtrip:
  assumes "scalar_laws cr"
  shows "signature_from_hex cr (signature_to_hex cr sig) = Ret (Some sig)"
  using assms
  by (simp add: signature_from_hex_def signature_to_hex_def signature_of_bytes_roundtrip
      hex_loop_all)

lemma hex_loop_panics: "\<not> is_char_boundary s 2 \<Longrightarrow> hex_loop s (0 # is) = Panic"
  by (simp add: str_slice2_def flip: numeral_2_eq_2)

text \<open>Parsing a public key from a caller's string can panic: on 64 bytes of two-byte UTF-8
  characters whose boundaries fall on odd offsets the slice \<open>&hex[0..2]\<close> is not on a character
  boundary. The length check alone does not make \<open>from_hex\<close> total.\<close>

theorem commitment_from_hex_may_panic:
  "commitment_from_hex cr
     (CHR ''a'' # concat (replicate 31 [CHR 0xC3, CHR 0xA9]) @ [CHR ''b'']) = Panic"
proof -
  let ?s = "CHR ''a'' # concat (replicate 31 [CHR 0xC3, CHR 0xA9]) @ [CHR ''b'']"
  have "\<not> is_char_boundary ?s 2"
    by (simp add: is_char_boundary_def numeral_eq_Suc)
  then have "hex_loop ?s (0 # [1..<32]) = Panic"
    by (rule hex_loop_panics)
  moreover have "(0 # [1..<32]) = [0..<32]" by (simp add: upt_conv_Cons)
  moreover have "length ?s = 64" by (simp add: numeral_eq_Suc)
  ultimately show ?thesis
    by (simp only: commitment_from_hex_def if_not_P not_not bind_outcome.simps simp_thms if_False)
qed

text \<open>A signature made with the secret key verifies under the public key derived from it,
  whatever nonce was drawn.\<close>

theorem sign_verify:
  assumes "module_laws cr"
  shows "verify cr (sign cr k message sk) message (Commitment (smul cr sk (gen_B_blinding cr)))"
  using assms by (simp add: verify_def sign_def Let_def module_simps)

text \<open>Kernel excesses and stake keys are written as commitments to zero.\<close>

lemma commitment_new_zero:
  "module_laws cr \<Longrightarrow> commitment_new cr 0 r = Commitment (smul cr r (gen_B_blinding cr))"
  by (simp add: commitment_new_def smul_zero)

lemma sign_verify_excess:
  "module_laws cr \<Longrightarrow> verify cr (sign cr k message sk) message (commitment_new cr 0 sk)"
  by (simp add: commitment_new_zero verify_def sign_def Let_def module_simps)

text \<open>Two-party signing: partial signatures of any number of parties over the common challenge
  add up to one signature that the unchanged \<open>verify\<close> accepts under the sum of the parties'
  public keys.\<close>

theorem aggregate_verify:
  assumes "module_laws cr" and "length nonces = length sks"
    and "e = compute_challenge cr message (\<Sum>sk \<leftarrow> sks. smul cr sk (gen_B_blinding cr))
               (\<Sum>k \<leftarrow> nonces. nonce_point cr k)"
  shows "verify cr (aggregate_sigs (map2 (\<lambda>k sk. partial_sign k sk e) nonces sks) e) message
           (Commitment (\<Sum>sk \<leftarrow> sks. smul cr sk (gen_B_blinding cr)))"
proof -
  let ?G = "gen_B_blinding cr"
  have "smul cr (\<Sum>(k, sk) \<leftarrow> zip nonces sks. k + e * sk) ?G =
      (\<Sum>k \<leftarrow> nonces. smul cr k ?G) + smul cr e (\<Sum>sk \<leftarrow> sks. smul cr sk ?G)"
    using assms(2)
  proof (induction nonces sks rule: list_induct2)
    case Nil
    then show ?case
      using assms(1) smul_add_right [OF assms(1), of e 0 0] by (simp add: smul_zero)
  next
    case (Cons k ks sk sks)
    then show ?case
      using assms(1) by (simp add: module_simps smul_add_right)
  qed
  then show ?thesis
    using assms(3)
    by (simp add: verify_def aggregate_sigs_def partial_sign_def nonce_point_def Let_def)
qed

text \<open>A note sealed with a 12-byte nonce opens, under the same key, to exactly the index and the
  value that were sealed.\<close>

theorem open_seal:
  assumes "aead_laws cr" and "length nonce_bytes = 12"
  shows "open_note cr key (seal cr nonce_bytes key index value) = Some (index, value)"
  using assms
  by (simp add: open_note_def seal_def aead_laws_def from_le_bytes_le_bytes)

text \<open>Commitments add homomorphically, as long as the sum of the values fits in 64 bits.\<close>

theorem commitment_new_add:
  assumes "module_laws cr" and "unat v + unat w < 2 ^ 64"
  shows "commitment_add (commitment_new cr v r) (commitment_new cr w q) =
           commitment_new cr (v + w) (r + q)"
proof -
  have "unat (v + w) = unat v + unat w"
    using assms(2) by (simp add: unat_word_ariths)
  then show ?thesis
    using assms(1)
    by (simp add: commitment_add_def commitment_new_def scalar_of_u64_def smul_add algebra_simps)
qed

end
