(* ===== verification/Word_Instance.thy ===== *)
theory Word_Instance
  imports Crypto
begin

text \<open>
  A concrete, executable instance of the external primitives, on which the hypotheses of the
  development's theorems are discharged: points are pairs of 64-bit words (the free module on the
  two Pedersen generators), scalars are 64-bit words. It is not secure and does not try to be (the
  Schnorr challenge is constant, so exactly the signatures with challenge 1 verify, and exactly the
  empty range proofs verify); it satisfies the algebraic laws the code relies on.
\<close>

datatype wpoint = WP u64 u64

instantiation wpoint :: ab_group_add
begin

definition zero_wpoint :: wpoint where
  "zero_wpoint = WP 0 0"

fun plus_wpoint :: "wpoint \<Rightarrow> wpoint \<Rightarrow> wpoint" where
  "plus_wpoint (WP a b) (WP c d) = WP (a + c) (b + d)"

fun uminus_wpoint :: "wpoint \<Rightarrow> wpoint" where
  "uminus_wpoint (WP a b) = WP (- a) (- b)"

definition minus_wpoint :: "wpoint \<Rightarrow> wpoint \<Rightarrow> wpoint" where
  "minus_wpoint P Q = P + (- Q)"

instance
proof
  fix a b c :: wpoint
  show "a + b + c = a + (b + c)" by (cases a; cases b; cases c) (simp add: algebra_simps)
  show "a + b = b + a" by (cases a; cases b) (simp add: algebra_simps)
  show "0 + a = a" by (cases a) (simp add: zero_wpoint_def)
  show "- a + a = 0" by (cases a) (simp add: zero_wpoint_def)
  show "a - b = a + - b" by (simp add: minus_wpoint_def)
qed

end

lemma minus_WP [simp]: "WP a b - WP c d = WP (a - c) (b - d)"
  by (simp add: minus_wpoint_def del: add_uminus_conv_diff)

fun w_smul :: "u64 \<Rightarrow> wpoint \<Rightarrow> wpoint" where
  "w_smul a (WP x y) = WP (a * x) (a * y)"

fun w_compress :: "wpoint \<Rightarrow> byte list" where
  "w_compress (WP x y) = u64_le x @ u64_le y @ replicate 16 0"

definition w_decompress :: "byte list \<Rightarrow> wpoint option" where
  "w_decompress bs = Some (WP (from_le_bytes (take 8 bs)) (from_le_bytes (take 8 (drop 8 bs))))"

definition w_hash :: "byte list \<Rightarrow> hash32" where
  "w_hash bs = u64_le (foldl (\<lambda>h b. 31 * h + ucast b + 7) 1 bs) @ replicate 24 1"

definition w_crypto :: "(wpoint, u64) crypto" where
  "w_crypto = \<lparr>
     gen_B = WP 1 0,
     gen_B_blinding = WP 0 1,
     smul = w_smul,
     compress = w_compress,
     decompress = w_decompress,
     scalar_bytes = (\<lambda>a. u64_le a @ replicate 24 0),
     from_canonical_bytes = (\<lambda>bs. Some (from_le_bytes (take 8 bs))),
     from_bits = (\<lambda>bs. from_le_bytes (take 8 bs)),
     from_bytes_mod_order_wide = (\<lambda>_. 1),
     merlin_challenge_bytes = (\<lambda>_ _ _ _. []),
     bp_from_bytes = Some,
     bp_prove_single = (\<lambda>_ _ _ _. []),
     bp_verify_single = (\<lambda>_ bs _ _. bs = []),
     sha256 = w_hash,
     sha512 = w_hash,
     aead_encrypt = (\<lambda>_ _ m. m),
     aead_decrypt = (\<lambda>_ _ c. Some c)\<rparr>"

lemma w_module_laws: "module_laws w_crypto"
proof -
  have "w_smul (a + b) P = w_smul a P + w_smul b P" for a b P
    by (cases P) (simp add: algebra_simps)
  moreover have "w_smul a (P + Q) = w_smul a P + w_smul a Q" for a P Q
    by (cases P; cases Q) (simp add: algebra_simps)
  moreover have "w_smul (a * b) P = w_smul a (w_smul b P)" for a b P
    by (cases P) (simp add: algebra_simps)
  ultimately show ?thesis
    by (simp add: module_laws_def w_crypto_def)
qed

lemma w_compress_laws: "compress_laws w_crypto"
proof -
  have "length (w_compress P) = 32 \<and> w_decompress (w_compress P) = Some P" for P
    by (cases P) (simp add: w_decompress_def from_le_bytes_le_bytes)
  then show ?thesis
    by (simp add: compress_laws_def w_crypto_def)
qed

lemma w_scalar_laws: "scalar_laws w_crypto"
  by (simp add: scalar_laws_def w_crypto_def from_le_bytes_le_bytes)

lemma w_aead_laws: "aead_laws w_crypto"
  by (simp add: aead_laws_def w_crypto_def)

lemma w_range_proof_complete: "range_proof_complete w_crypto"
  by (simp add: range_proof_complete_def w_crypto_def)


section \<open>The laws of \<open>Crypto\<close> at concrete inputs\<close>

theorem commitment_hex_roundtrip_witness:
  "commitment_from_hex w_crypto (commitment_to_hex w_crypto (commitment_new w_crypto 10 3)) =
     Ret (Some (commitment_new w_crypto 10 3))"
  by (rule commitment_hex_roundtrip [OF w_compress_laws])

theorem signature_hex_roundtrip_witness:
  "signature_from_hex w_crypto (signature_to_hex w_crypto \<lparr>sig_s = 77, sig_e = 1\<rparr>) =
     Ret (Some \<lparr>sig_s = 77, sig_e = 1\<rparr>)"
  by (rule signature_hex_roundtrip [OF w_scalar_laws])

theorem sign_verify_witness:
  "verify w_crypto (sign w_crypto 9 [1, 2] 5) [1, 2] (Commitment (WP 0 5))"
  using sign_verify [OF w_module_laws, of 9 "[1, 2]" 5] by (simp add: w_crypto_def)

theorem aggregate_verify_witness:
  "verify w_crypto (aggregate_sigs [partial_sign 3 5 1, partial_sign 4 6 1] 1) [8]
     (Commitment (WP 0 11))"
proof -
  have e: "1 = compute_challenge w_crypto [8]
      (\<Sum>sk \<leftarrow> [5, 6]. smul w_crypto sk (gen_B_blinding w_crypto))
      (\<Sum>k \<leftarrow> [3, 4]. nonce_point w_crypto k)"
    by (simp add: compute_challenge_def w_crypto_def)
  have "(\<Sum>sk \<leftarrow> [5, 6]. smul w_crypto sk (gen_B_blinding w_crypto)) = WP 0 11"
    by (simp add: w_crypto_def zero_wpoint_def)
  then show ?thesis
    using aggregate_verify [OF w_module_laws _ e] by simp
qed

theorem open_seal_witness:
  "open_note w_crypto [7] (seal w_crypto (replicate 12 0) [7] 42 123456) = Some (42, 123456)"
  by (rule open_seal [OF w_aead_laws]) simp

theorem commitment_new_add_witness:
  "commitment_add (commitment_new w_crypto 10 3) (commitment_new w_crypto 25 4) =
     commitment_new w_crypto 35 7"
  using commitment_new_add [OF w_module_laws, of 10 25 3 4] by simp

end
