(* ===== verification/Transaction.thy ===== *)
theory Transaction
  imports Word_Instance
begin

text \<open>
  Mimblewimble transactions (\<open>core/src/transaction.rs\<close>) and the cut-through of a batch of them
  (\<open>core/src/cut_through.rs\<close>). \<open>validate_with_reward\<close> checks range proofs, kernel signatures and
  the balance equation; \<open>aggregate_and_cut_through\<close> concatenates transactions and cancels every
  input against one equal output. The lemmas show what an accepted transaction says about the
  values behind its commitments, that cut-through is multiset cancellation, and that it keeps a
  batch of valid transactions valid.
\<close>

record 'p tx_input =
  in_commitment :: "'p commitment"

record 'p tx_output =
  out_commitment :: "'p commitment"
  out_proof :: range_proof
  out_note :: "byte list"

record ('p, 's) tx_kernel =
  excess :: "'p commitment"
  fee :: u64
  kernel_sig :: "'s signature"

record ('p, 's) transaction =
  tx_inputs :: "'p tx_input list"
  tx_outputs :: "'p tx_output list"
  tx_kernels :: "('p, 's) tx_kernel list"

definition sum_points :: "'p::ab_group_add commitment list \<Rightarrow> 'p" where
  "sum_points cs = fold (\<lambda>c acc. acc + as_point c) cs 0"

definition kernel_ok :: "('p::ab_group_add, 's::comm_ring_1) crypto \<Rightarrow> ('p, 's) tx_kernel \<Rightarrow> bool" where
  "kernel_ok cr k \<longleftrightarrow> verify cr (kernel_sig k) (u64_le (fee k)) (excess k)"

definition validate_with_reward ::
    "('p::ab_group_add, 's::comm_ring_1) crypto \<Rightarrow> ('p, 's) transaction \<Rightarrow> u64 \<Rightarrow> bool" where
  "validate_with_reward cr tx reward \<longleftrightarrow>
     list_all (\<lambda>out. range_verify cr (out_proof out) (out_commitment out)) (tx_outputs tx) \<and>
     list_all (kernel_ok cr) (tx_kernels tx) \<and>
     (let sum_inputs = sum_points (map in_commitment (tx_inputs tx));
          sum_outputs = sum_points (map out_commitment (tx_outputs tx));
          sum_kernels = sum_points (map excess (tx_kernels tx));
          total_fee = (if reward = 0 then sum_list (map fee (tx_kernels tx)) else 0);
          fee_commitment = as_point (commitment_new cr total_fee 0);
          reward_commitment = as_point (commitment_new cr reward 0);
          expected_kernels = sum_inputs - sum_outputs - fee_commitment + reward_commitment
      in expected_kernels = sum_kernels)"

definition validate :: "('p::ab_group_add, 's::comm_ring_1) crypto \<Rightarrow> ('p, 's) transaction \<Rightarrow> bool" where
  "validate cr tx = validate_with_reward cr tx 0"


section \<open>Cut-through\<close>

text \<open>The inner loop: mark the first output that is not yet consumed and has this commitment.\<close>

fun consume_output ::
    "'p commitment \<Rightarrow> ('p tx_output \<times> bool) list \<Rightarrow> ('p tx_output \<times> bool) list option" where
  "consume_output c [] = None"
| "consume_output c ((out, consumed) # rest) =
     (if \<not> consumed \<and> out_commitment out = c then Some ((out, True) # rest)
      else map_option ((#) (out, consumed)) (consume_output c rest))"

text \<open>The outer loop: inputs that match no output of the pool stay.\<close>

fun match_inputs ::
    "'p tx_input list \<Rightarrow> ('p tx_output \<times> bool) list \<Rightarrow> 'p tx_input list \<times> ('p tx_output \<times> bool) list" where
  "match_inputs [] outs = ([], outs)"
| "match_inputs (i # is) outs =
     (case consume_output (in_commitment i) outs of
        Some outs' \<Rightarrow> match_inputs is outs'
      | None \<Rightarrow> let (kept, outs') = match_inputs is outs in (i # kept, outs'))"

definition aggregate_and_cut_through :: "('p, 's) transaction list \<Rightarrow> ('p, 's) transaction" where
  "aggregate_and_cut_through txs =
     (let all_inputs = concat (map tx_inputs txs);
          all_outputs = concat (map tx_outputs txs);
          all_kernels = concat (map tx_kernels txs);
          (final_inputs, flagged) = match_inputs all_inputs (map (\<lambda>out. (out, False)) all_outputs);
          final_outputs = map fst (filter (\<lambda>(out, consumed). \<not> consumed) flagged)
      in \<lparr>tx_inputs = final_inputs, tx_outputs = final_outputs, tx_kernels = all_kernels\<rparr>)"


section \<open>Sums of points and of fees\<close>

lemma sum_points_eq: "sum_points cs = (\<Sum>c \<leftarrow> cs. as_point c)"
proof -
  have "fold (\<lambda>c acc. acc + as_point c) cs x = x + (\<Sum>c \<leftarrow> cs. as_point c)" for x
    by (induction cs arbitrary: x) (simp_all add: algebra_simps)
  then show ?thesis by (simp add: sum_points_def)
qed

lemma sum_points_simps [simp]:
  "sum_points [] = 0"
  "sum_points (c # cs) = as_point c + sum_points cs"
  "sum_points (cs @ ds) = sum_points cs + sum_points ds"
  by (simp_all add: sum_points_eq)

lemma sum_points_mset: "sum_points cs = (\<Sum>c \<in># mset cs. as_point c)"
  by (simp add: sum_points_eq sum_mset_sum_list flip: mset_map)

text \<open>A sum of fees that fits in 64 bits does not wrap.\<close>

lemma unat_sum_list:
  fixes vs :: "u64 list"
  assumes "sum_list (map unat vs) < 2 ^ 64"
  shows "unat (sum_list vs) = sum_list (map unat vs)"
  using assms
proof (induction vs)
  case (Cons v vs)
  then have "unat (sum_list vs) = sum_list (map unat vs)" by simp
  with Cons.prems show ?case by (simp add: unat_word_ariths)
qed simp

lemma scalar_of_u64_sum_list:
  "sum_list (map unat vs) < 2 ^ 64 \<Longrightarrow>
     scalar_of_u64 (sum_list vs) = (\<Sum>v \<leftarrow> vs. scalar_of_u64 v)"
proof -
  have "of_nat (sum_list (map unat vs)) = (\<Sum>v \<leftarrow> vs. of_nat (unat v))"
    by (induction vs) simp_all
  then show "sum_list (map unat vs) < 2 ^ 64 \<Longrightarrow>
     scalar_of_u64 (sum_list vs) = (\<Sum>v \<leftarrow> vs. scalar_of_u64 v)"
    by (simp add: scalar_of_u64_def unat_sum_list)
qed

text \<open>The balance equation alone, with the fee and the reward as multiples of the value generator.\<close>

lemma validate_with_reward_iff:
  assumes "module_laws cr"
  shows "validate_with_reward cr tx reward \<longleftrightarrow>
     list_all (\<lambda>out. range_verify cr (out_proof out) (out_commitment out)) (tx_outputs tx) \<and>
     list_all (kernel_ok cr) (tx_kernels tx) \<and>
     sum_points (map in_commitment (tx_inputs tx)) +
         smul cr (scalar_of_u64 reward) (gen_B cr) =
       sum_points (map out_commitment (tx_outputs tx)) +
         smul cr (scalar_of_u64 (if reward = 0 then sum_list (map fee (tx_kernels tx)) else 0))
           (gen_B cr) +
         sum_points (map excess (tx_kernels tx))"
  unfolding validate_with_reward_def Let_def commitment_new_def
  by (simp add: smul_zero [OF assms]) (auto simp: algebra_simps)


section \<open>Cut-through is multiset cancellation\<close>

text \<open>The outputs of the pool that are not consumed yet.\<close>

definition live :: "('p tx_output \<times> bool) list \<Rightarrow> 'p commitment multiset" where
  "live outs = mset (map (out_commitment \<circ> fst) (filter (\<lambda>(out, consumed). \<not> consumed) outs))"

lemma live_simps [simp]:
  "live [] = {#}"
  "live ((out, consumed) # outs) =
     (if consumed then live outs else add_mset (out_commitment out) (live outs))"
  "live (map (\<lambda>out. (out, False)) os) = mset (map out_commitment os)"
  by (induction os) (auto simp: live_def)

lemma consume_output_None: "consume_output c outs = None \<longleftrightarrow> c \<notin># live outs"
  by (induction c outs rule: consume_output.induct) auto

lemma consume_output_Some:
  "consume_output c outs = Some outs' \<Longrightarrow> c \<in># live outs \<and> live outs' = live outs - {#c#}"
proof (induction c outs arbitrary: outs' rule: consume_output.induct)
  case (2 c out consumed rest)
  show ?case
  proof (cases "\<not> consumed \<and> out_commitment out = c")
    case True
    with "2.prems" show ?thesis by auto
  next
    case False
    with "2.prems" obtain rest' where
        rest': "consume_output c rest = Some rest'" and outs': "outs' = (out, consumed) # rest'"
      by auto
    from "2.IH" [OF False rest'] have "c \<in># live rest" and "live rest' = live rest - {#c#}"
      by simp_all
    with False outs' show ?thesis by (cases consumed) simp_all
  qed
qed simp

lemma match_inputs_cancel:
  "match_inputs is outs = (kept, outs') \<Longrightarrow>
     mset (map in_commitment kept) = mset (map in_commitment is) - live outs \<and>
     live outs' = live outs - mset (map in_commitment is)"
proof (induction "is" arbitrary: outs kept outs')
  case (Cons i "is")
  show ?case
  proof (cases "consume_output (in_commitment i) outs")
    case None
    with Cons.prems obtain kept' where
        "match_inputs is outs = (kept', outs')" and "kept = i # kept'"
      by (auto simp: Let_def split: prod.splits)
    with Cons.IH None show ?thesis
      by (simp add: consume_output_None diff_add_mset_swap)
  next
    case (Some outs1)
    then have live1: "live outs = add_mset (in_commitment i) (live outs1)"
      by (auto dest: consume_output_Some)
    from Some Cons.prems have "match_inputs is outs1 = (kept, outs')" by simp
    from Cons.IH [OF this] live1 show ?thesis by simp
  qed
qed simp

lemma consume_output_fst: "consume_output c outs = Some outs' \<Longrightarrow> map fst outs' = map fst outs"
  by (induction c outs arbitrary: outs' rule: consume_output.induct) (auto split: if_splits)

lemma match_inputs_subset:
  "match_inputs is outs = (kept, outs') \<Longrightarrow> map fst outs' = map fst outs \<and> set kept \<subseteq> set is"
proof (induction "is" arbitrary: outs kept outs')
  case (Cons i "is")
  then show ?case
    by (fastforce simp: Let_def dest: consume_output_fst split: option.splits prod.splits)
qed simp

lemma cut_through_cases:
  fixes txs :: "('p, 's) transaction list"
  obtains kept flagged where
    "match_inputs (concat (map tx_inputs txs))
       (map (\<lambda>out. (out, False)) (concat (map tx_outputs txs))) = (kept, flagged)"
    "aggregate_and_cut_through txs = \<lparr>tx_inputs = kept,
       tx_outputs = map fst (filter (\<lambda>(out, consumed). \<not> consumed) flagged),
       tx_kernels = concat (map tx_kernels txs)\<rparr>"
  by (cases "match_inputs (concat (map tx_inputs txs))
       (map (\<lambda>out. (out, False)) (concat (map tx_outputs txs)))")
    (simp add: aggregate_and_cut_through_def Let_def)

lemma cut_through_msets:
  fixes txs :: "('p, 's) transaction list"
  shows "mset (map in_commitment (tx_inputs (aggregate_and_cut_through txs))) =
      mset (map in_commitment (concat (map tx_inputs txs))) -
      mset (map out_commitment (concat (map tx_outputs txs)))" (is ?ins)
    and "mset (map out_commitment (tx_outputs (aggregate_and_cut_through txs))) =
      mset (map out_commitment (concat (map tx_outputs txs))) -
      mset (map in_commitment (concat (map tx_inputs txs)))" (is ?outs)
    and "tx_kernels (aggregate_and_cut_through txs) = concat (map tx_kernels txs)" (is ?kernels)
proof -
  obtain kept flagged where
      m: "match_inputs (concat (map tx_inputs txs))
        (map (\<lambda>out. (out, False)) (concat (map tx_outputs txs))) = (kept, flagged)"
    and tx: "aggregate_and_cut_through txs = \<lparr>tx_inputs = kept,
        tx_outputs = map fst (filter (\<lambda>(out, consumed). \<not> consumed) flagged),
        tx_kernels = concat (map tx_kernels txs)\<rparr>"
    by (rule cut_through_cases)
  from match_inputs_cancel [OF m] show ?ins and ?outs and ?kernels
    by (simp_all add: tx live_def comp_def)
qed

lemma cut_through_outputs_subset:
  "set (tx_outputs (aggregate_and_cut_through txs)) \<subseteq> (\<Union>tx \<in> set txs. set (tx_outputs tx))"
proof -
  obtain kept flagged where
      m: "match_inputs (concat (map tx_inputs txs))
        (map (\<lambda>out. (out, False)) (concat (map tx_outputs txs))) = (kept, flagged)"
    and tx: "aggregate_and_cut_through txs = \<lparr>tx_inputs = kept,
        tx_outputs = map fst (filter (\<lambda>(out, consumed). \<not> consumed) flagged),
        tx_kernels = concat (map tx_kernels txs)\<rparr>"
    by (rule cut_through_cases)
  from match_inputs_subset [OF m] have "fst ` set flagged = (\<Union>tx \<in> set txs. set (tx_outputs tx))"
    by (auto simp: comp_def simp flip: set_map)
  then show ?thesis by (auto simp: tx)
qed

text \<open>Cut-through cancels commitments as multisets: the inputs that remain are the inputs of all
  transactions minus all their outputs, the outputs that remain are the outputs minus the inputs
  (with multiplicity), no commitment is left on both sides, and every kernel is kept in order.\<close>

theorem cut_through_spec:
  "mset (map in_commitment (tx_inputs (aggregate_and_cut_through txs))) =
     mset (map in_commitment (concat (map tx_inputs txs))) -
     mset (map out_commitment (concat (map tx_outputs txs))) \<and>
   mset (map out_commitment (tx_outputs (aggregate_and_cut_through txs))) =
     mset (map out_commitment (concat (map tx_outputs txs))) -
     mset (map in_commitment (concat (map tx_inputs txs))) \<and>
   in_commitment ` set (tx_inputs (aggregate_and_cut_through txs)) \<inter>
     out_commitment ` set (tx_outputs (aggregate_and_cut_through txs)) = {} \<and>
   tx_kernels (aggregate_and_cut_through txs) = concat (map tx_kernels txs)"
  unfolding image_set_mset cut_through_msets by (simp only: diff_mset_disjoint simp_thms)


section \<open>What an accepted transaction says\<close>

text \<open>Cut-through keeps the difference between inputs and outputs.\<close>

lemma cut_through_balance:
  fixes txs :: "('p::ab_group_add, 's) transaction list"
  shows "sum_points (map in_commitment (tx_inputs (aggregate_and_cut_through txs))) -
      sum_points (map out_commitment (tx_outputs (aggregate_and_cut_through txs))) =
    sum_points (map in_commitment (concat (map tx_inputs txs))) -
      sum_points (map out_commitment (concat (map tx_outputs txs)))"
  by (simp only: sum_points_mset cut_through_msets sum_mset_cancel)

lemma concat_balance:
  assumes "module_laws cr" and "list_all (validate cr) txs"
    and "(\<Sum>tx \<leftarrow> txs. \<Sum>k \<leftarrow> tx_kernels tx. unat (fee k)) < 2 ^ 64"
  shows "sum_points (map in_commitment (concat (map tx_inputs txs))) =
      sum_points (map out_commitment (concat (map tx_outputs txs))) +
      (\<Sum>tx \<leftarrow> txs. \<Sum>k \<leftarrow> tx_kernels tx. smul cr (scalar_of_u64 (fee k)) (gen_B cr)) +
      sum_points (map excess (concat (map tx_kernels txs)))"
  using assms(2,3)
proof (induction txs)
  case (Cons tx txs)
  have "sum_list (map unat (map fee (tx_kernels tx))) < 2 ^ 64"
    using Cons.prems(2) by (simp add: comp_def)
  then have "smul cr (scalar_of_u64 (sum_list (map fee (tx_kernels tx)))) (gen_B cr) =
      (\<Sum>k \<leftarrow> tx_kernels tx. smul cr (scalar_of_u64 (fee k)) (gen_B cr))"
    by (simp add: scalar_of_u64_sum_list smul_sum_list [OF assms(1)] comp_def)
  moreover have "validate cr tx" using Cons.prems(1) by simp
  ultimately have "sum_points (map in_commitment (tx_inputs tx)) =
      sum_points (map out_commitment (tx_outputs tx)) +
      (\<Sum>k \<leftarrow> tx_kernels tx. smul cr (scalar_of_u64 (fee k)) (gen_B cr)) +
      sum_points (map excess (tx_kernels tx))"
    by (simp add: validate_def validate_with_reward_iff [OF assms(1)] smul_zero [OF assms(1)])
  with Cons show ?case by (simp add: algebra_simps)
qed simp

lemma aggregate_validates:
  assumes "module_laws cr" and "list_all (validate cr) txs"
    and "(\<Sum>tx \<leftarrow> txs. \<Sum>k \<leftarrow> tx_kernels tx. unat (fee k)) < 2 ^ 64"
  shows "validate cr (aggregate_and_cut_through txs)"
proof -
  let ?agg = "aggregate_and_cut_through txs" and ?ks = "concat (map tx_kernels txs)"
  have proofs: "list_all (\<lambda>out. range_verify cr (out_proof out) (out_commitment out)) (tx_outputs ?agg)"
    using cut_through_outputs_subset [of txs] assms(2)
    by (fastforce simp: list_all_iff validate_def validate_with_reward_def)
  have sigs: "list_all (kernel_ok cr) ?ks"
    using assms(2) by (auto simp: list_all_iff validate_def validate_with_reward_def)
  have "sum_list (map unat (map fee ?ks)) = (\<Sum>tx \<leftarrow> txs. \<Sum>k \<leftarrow> tx_kernels tx. unat (fee k))"
    by (induction txs) (simp_all add: comp_def)
  then have "smul cr (scalar_of_u64 (sum_list (map fee ?ks))) (gen_B cr) =
      (\<Sum>k \<leftarrow> ?ks. smul cr (scalar_of_u64 (fee k)) (gen_B cr))"
    using assms(3) by (simp add: scalar_of_u64_sum_list smul_sum_list [OF assms(1)] comp_def)
  also have "\<dots> = (\<Sum>tx \<leftarrow> txs. \<Sum>k \<leftarrow> tx_kernels tx. smul cr (scalar_of_u64 (fee k)) (gen_B cr))"
    by (induction txs) simp_all
  finally have fees: "smul cr (scalar_of_u64 (sum_list (map fee ?ks))) (gen_B cr) = \<dots>" .
  have "sum_points (map in_commitment (tx_inputs ?agg)) =
      sum_points (map out_commitment (tx_outputs ?agg)) +
      smul cr (scalar_of_u64 (sum_list (map fee ?ks))) (gen_B cr) + sum_points (map excess ?ks)"
    using cut_through_balance [of txs] concat_balance [OF assms] unfolding fees
    by (simp add: algebra_simps)
  then show ?thesis
    using proofs sigs
    by (simp add: validate_def validate_with_reward_iff [OF assms(1)] cut_through_msets(3)
        smul_zero [OF assms(1)])
qed

text \<open>C18. No value is created: when the inputs, outputs and kernel excesses of an accepted transaction
  open to known values and blindings, the surplus of values (inputs and reward minus outputs and
  fee) times the value generator equals an explicit multiple of the blinding generator. A nonzero
  surplus therefore hands over a discrete-logarithm relation between the two generators.\<close>

theorem validate_value_relation:
  assumes "module_laws cr" and "validate_with_reward cr tx reward"
    and "map in_commitment (tx_inputs tx) = map (\<lambda>(v, r). commitment_new cr v r) ivs"
    and "map out_commitment (tx_outputs tx) = map (\<lambda>(v, r). commitment_new cr v r) ovs"
    and "map excess (tx_kernels tx) = map (commitment_new cr 0) krs"
  shows "smul cr ((\<Sum>(v, r) \<leftarrow> ivs. scalar_of_u64 v) + scalar_of_u64 reward
             - (\<Sum>(v, r) \<leftarrow> ovs. scalar_of_u64 v)
             - scalar_of_u64 (if reward = 0 then sum_list (map fee (tx_kernels tx)) else 0)) (gen_B cr)
       = smul cr (sum_list krs + (\<Sum>(v, r) \<leftarrow> ovs. r) - (\<Sum>(v, r) \<leftarrow> ivs. r)) (gen_B_blinding cr)"
proof -
  have opened: "sum_points (map (\<lambda>(v, r). commitment_new cr v r) vs) =
      smul cr (\<Sum>(v, r) \<leftarrow> vs. scalar_of_u64 v) (gen_B cr) +
      smul cr (\<Sum>(v, r) \<leftarrow> vs. r) (gen_B_blinding cr)" for vs
    by (induction vs)
      (auto simp: module_simps [OF assms(1)] commitment_new_def algebra_simps)
  have kernels: "sum_points (map (commitment_new cr 0) rs) =
      smul cr (sum_list rs) (gen_B_blinding cr)" for rs
    by (induction rs) (auto simp: module_simps [OF assms(1)] commitment_new_def)
  from assms(2) show ?thesis
    unfolding validate_with_reward_iff [OF assms(1)] assms(3-5) opened kernels
    by (auto simp: module_simps [OF assms(1)] algebra_simps)
qed


section \<open>A payment of the concrete instance\<close>

text \<open>A payment of 60 with 10 as fee and 30 as change, in the concrete instance of the primitives,
  and a second one that spends the 60.\<close>

definition sample_tx :: "u64 \<times> u64 \<Rightarrow> (u64 \<times> u64) list \<Rightarrow> u64 \<Rightarrow> (wpoint, u64) transaction" where
  "sample_tx input outs f = \<lparr>
     tx_inputs = [\<lparr>in_commitment = commitment_new w_crypto (fst input) (snd input)\<rparr>],
     tx_outputs = map (\<lambda>(v, r). \<lparr>out_commitment = commitment_new w_crypto v r,
       out_proof = RangeProof [], out_note = []\<rparr>) outs,
     tx_kernels = [\<lparr>excess = commitment_new w_crypto 0 (snd input - sum_list (map snd outs)), fee = f,
       kernel_sig = \<lparr>sig_s = 0, sig_e = 1\<rparr>\<rparr>]\<rparr>"

lemmas w_eval = w_crypto_def validate_def validate_with_reward_def kernel_ok_def verify_def
  compute_challenge_def range_verify_def sum_points_def commitment_new_def scalar_of_u64_def
  zero_wpoint_def Let_def

lemma sample_tx_valid: "list_all (validate w_crypto) [sample_tx (100, 5) [(60, 2), (30, 1)] 10,
    sample_tx (60, 2) [(59, 3)] 1]"
  by (simp add: sample_tx_def w_eval)

text \<open>A batch of valid transactions stays valid after cut-through: if every transaction validates
  on its own and the fees of the batch do not overflow 64 bits, the aggregate validates.\<close>

theorem cut_through_valid:
  assumes "module_laws cr" and "list_all (validate cr) txs"
    and "(\<Sum>tx \<leftarrow> txs. \<Sum>k \<leftarrow> tx_kernels tx. unat (fee k)) < 2 ^ 64"
  shows "validate cr (aggregate_and_cut_through txs)"
  using assms by (rule aggregate_validates)

theorem cut_through_valid_witness:
  "validate w_crypto (aggregate_and_cut_through
     [sample_tx (100, 5) [(60, 2), (30, 1)] 10, sample_tx (60, 2) [(59, 3)] 1])"
  by (rule cut_through_valid [OF w_module_laws sample_tx_valid]) (simp add: sample_tx_def)

theorem validate_value_relation_witness:
  "smul w_crypto (100 + 0 - (60 + 30) - 10) (gen_B w_crypto) =
     smul w_crypto (2 + (2 + 1) - 5) (gen_B_blinding w_crypto)"
  using validate_value_relation [OF w_module_laws, of "sample_tx (100, 5) [(60, 2), (30, 1)] 10" 0
      "[(100, 5)]" "[(60, 2), (30, 1)]" "[2]"] sample_tx_valid
  by (simp add: sample_tx_def validate_def scalar_of_u64_def)

end
