(* ===== verification/Registry.thy ===== *)
theory Registry
  imports Transaction
begin

text \<open>
  The naming registry of \<open>core/src/registry.rs\<close>: name rules, the registration and transfer
  operations with the messages they sign, and the registry root. The interface \<open>committed_registry\<close>
  collects what the three registry roots of the chain share (names here, assets and collections in
  their own theories) and is interpreted on each. \<open>bincode\<close> serialisation of a record is a
  parameter.
\<close>

section \<open>Roots of keyed registries\<close>

text \<open>The common shape of \<open>compute_registry_root\<close> and its two siblings: sort the keys, hash the
  serialised records in that order.\<close>

definition encode_sorted :: "('v \<Rightarrow> byte list) \<Rightarrow> (string, 'v) mapping \<Rightarrow> byte list" where
  "encode_sorted ser registry =
     concat (map (\<lambda>k. case Mapping.lookup registry k of None \<Rightarrow> [] | Some r \<Rightarrow> ser r)
       (Mapping.ordered_keys registry))"

text \<open>Every record is stored under its own key.\<close>

definition keyed :: "('v \<Rightarrow> string) \<Rightarrow> (string, 'v) mapping \<Rightarrow> bool" where
  "keyed key registry \<longleftrightarrow> (\<forall>k r. Mapping.lookup registry k = Some r \<longrightarrow> key r = k)"

text \<open>No serialised record is a proper prefix of another one, as bincode's length-prefixed encoding
  guarantees.\<close>

definition self_delimiting :: "('v \<Rightarrow> byte list) \<Rightarrow> bool" where
  "self_delimiting ser \<longleftrightarrow> (\<forall>a b x y. ser a @ x = ser b @ y \<longrightarrow> a = b)"

lemma self_delimiting_concat:
  assumes "self_delimiting ser" and "ser r0 \<noteq> []"
  shows "concat (map ser rs) = concat (map ser ss) \<longleftrightarrow> rs = ss"
proof
  have ne: "ser r \<noteq> []" for r
    using assms unfolding self_delimiting_def by (metis append_Nil)
  show "concat (map ser rs) = concat (map ser ss) \<Longrightarrow> rs = ss"
  proof (induction rs arbitrary: ss)
    case Nil
    then show ?case using ne by (cases ss) auto
  next
    case (Cons r rs)
    then obtain s ss' where ss: "ss = s # ss'" using ne by (cases ss) auto
    with Cons.prems have "ser r @ concat (map ser rs) = ser s @ concat (map ser ss')" by simp
    then have "r = s" using assms(1) unfolding self_delimiting_def by blast
    with Cons ss show ?case by simp
  qed
qed simp

lemma set_ordered_keys:
  "finite (Mapping.keys m) \<Longrightarrow> set (Mapping.ordered_keys m) = Mapping.keys m"
  by (simp add: ordered_keys_def)

lemma keyed_update: "keyed key m \<Longrightarrow> key r = k \<Longrightarrow> keyed key (Mapping.update k r m)"
  by (auto simp: keyed_def map_simps)

lemma keyed_delete: "keyed key m \<Longrightarrow> keyed key (Mapping.delete k m)"
  by (auto simp: keyed_def map_simps split: if_splits)

lemma keyed_insert_all:
  "keyed key m \<Longrightarrow> \<forall>(k, r) \<in> set kvs. key r = k \<Longrightarrow> keyed key (insert_all kvs m)"
  by (induction kvs arbitrary: m) (auto simp: keyed_update)

lemma keyed_eq_records:
  assumes fin: "finite (Mapping.keys m)" "finite (Mapping.keys n)"
    and keyed: "keyed key m" "keyed key n"
    and "map (Mapping.lookup m) (Mapping.ordered_keys m) =
         map (Mapping.lookup n) (Mapping.ordered_keys n)"
  shows "m = n"
proof -
  have own: "map (\<lambda>k. map_option key (Mapping.lookup q k)) (Mapping.ordered_keys q) =
      map Some (Mapping.ordered_keys q)" if "finite (Mapping.keys q)" "keyed key q" for q
    using that by (auto simp: set_ordered_keys keys_dom_lookup keyed_def)
  have "map Some (Mapping.ordered_keys m) = map Some (Mapping.ordered_keys n)"
    using arg_cong [OF assms(5), of "map (map_option key)"] own [OF fin(1) keyed(1)]
      own [OF fin(2) keyed(2)] by (simp add: comp_def)
  then have ks: "Mapping.ordered_keys m = Mapping.ordered_keys n"
    by (metis list.inj_map_strong option.inject)
  then have keys: "Mapping.keys m = Mapping.keys n"
    using set_ordered_keys [OF fin(1)] set_ordered_keys [OF fin(2)] by simp
  show ?thesis
  proof (rule mapping_eqI)
    fix k
    show "Mapping.lookup m k = Mapping.lookup n k"
    proof (cases "k \<in> Mapping.keys m")
      case True
      with assms(5) ks set_ordered_keys [OF fin(1)] show ?thesis by auto
    next
      case False
      with keys show ?thesis by (metis domIff keys_dom_lookup)
    qed
  qed
qed

text \<open>The interface: a root that hashes the sorted encoding commits to the whole registry.\<close>

locale committed_registry =
  fixes key :: "'v \<Rightarrow> string"
    and hash :: "byte list \<Rightarrow> hash32"
    and root :: "('v \<Rightarrow> byte list) \<Rightarrow> (string, 'v) mapping \<Rightarrow> hash32"
  assumes root_hash: "root ser m = hash (encode_sorted ser m)"
begin

lemma root_commits:
  assumes fin: "finite (Mapping.keys m)" "finite (Mapping.keys n)"
    and keyed: "keyed key m" "keyed key n"
    and ser: "self_delimiting ser" "\<And>r. ser r \<noteq> []"
    and inj: "inj_on hash {encode_sorted ser m, encode_sorted ser n}"
    and eq: "root ser m = root ser n"
  shows "m = n"
proof -
  have some: "map (Mapping.lookup q) (Mapping.ordered_keys q) =
      map Some (map (the \<circ> Mapping.lookup q) (Mapping.ordered_keys q))"
    if "finite (Mapping.keys q)" for q
    using that by (auto simp: set_ordered_keys keys_dom_lookup)
  have enc: "encode_sorted ser q =
      concat (map ser (map (the \<circ> Mapping.lookup q) (Mapping.ordered_keys q)))"
    if "finite (Mapping.keys q)" for q
    using that unfolding encode_sorted_def
    by (auto simp: set_ordered_keys keys_dom_lookup intro!: arg_cong [of _ _ concat])
  from inj eq have "encode_sorted ser m = encode_sorted ser n"
    by (auto simp: root_hash dest: inj_onD)
  then have "map (the \<circ> Mapping.lookup m) (Mapping.ordered_keys m) =
      map (the \<circ> Mapping.lookup n) (Mapping.ordered_keys n)"
    unfolding enc [OF fin(1)] enc [OF fin(2)] by (simp only: self_delimiting_concat [OF ser])
  then show ?thesis
    by (intro keyed_eq_records [OF fin keyed]) (simp only: some [OF fin(1)] some [OF fin(2)])
qed

end


section \<open>Names\<close>

definition NAME_REGISTRATION_FEE :: u64 where
  "NAME_REGISTRATION_FEE = 5"

definition MIN_NAME_LENGTH :: nat where
  "MIN_NAME_LENGTH = 3"

definition MAX_NAME_LENGTH :: nat where
  "MAX_NAME_LENGTH = 32"

definition RESERVED_NAMES :: "string list" where
  "RESERVED_NAMES =
     [''haze'', ''admin'', ''team'', ''validator'', ''validators'', ''system'', ''root'',
      ''genesis'', ''faucet'', ''null'', ''none'', ''node'', ''api'', ''explorer'', ''wallet'']"

record 'p name_record =
  nr_name :: string
  nr_owner_pubkey :: "'p commitment"
  nr_resolves_to :: "'p commitment"
  nr_registered_at_block :: u64

record ('p, 's) register_name_op =
  rn_name :: string
  rn_owner_pubkey :: "'p commitment"
  rn_resolves_to :: "'p commitment"
  rn_fee_payment :: "('p, 's) transaction"
  rn_signature :: "'s signature"

datatype name_error = NameTooShort | NameTooLong | NameInvalidCharacters | NameReserved
  | NameAlreadyRegistered | NameInvalidSignature | NameInvalidFeePayment

text \<open>The characters names and identifiers may use; a multi-byte character has a byte outside.\<close>

definition id_char :: "char \<Rightarrow> bool" where
  "id_char c \<longleftrightarrow>
     CHR ''a'' \<le> c \<and> c \<le> CHR ''z'' \<or> CHR ''0'' \<le> c \<and> c \<le> CHR ''9'' \<or>
     c = CHR ''-'' \<or> c = CHR ''_''"

definition validate_name :: "string \<Rightarrow> name_error + unit" where
  "validate_name name =
     (if length name < MIN_NAME_LENGTH then Inl NameTooShort
      else if MAX_NAME_LENGTH < length name then Inl NameTooLong
      else if \<not> list_all id_char name then Inl NameInvalidCharacters
      else if name \<in> set RESERVED_NAMES then Inl NameReserved
      else Inr ())"

definition register_name_message :: "string \<Rightarrow> byte list" where
  "register_name_message name = bytes_of name"

definition register_name_sign ::
    "('p::ab_group_add, 's::comm_ring_1) crypto \<Rightarrow> 's \<Rightarrow> string \<Rightarrow> 's \<Rightarrow> 's signature" where
  "register_name_sign cr k name owner_secret = sign cr k (register_name_message name) owner_secret"

text \<open>The fee rule that registrations and mints share: one kernel, at least the floor, valid.\<close>

definition fee_payment_ok ::
    "('p::ab_group_add, 's::comm_ring_1) crypto \<Rightarrow> u64 \<Rightarrow> ('p, 's) transaction \<Rightarrow> bool" where
  "fee_payment_ok cr floor tx \<longleftrightarrow>
     length (tx_kernels tx) = 1 \<and> floor \<le> fee (tx_kernels tx ! 0) \<and> validate cr tx"

definition register_name_validate_standalone ::
    "('p::ab_group_add, 's::comm_ring_1) crypto \<Rightarrow> ('p, 's) register_name_op \<Rightarrow> name_error + unit" where
  "register_name_validate_standalone cr op =
     (case validate_name (rn_name op) of Inl e \<Rightarrow> Inl e
      | Inr _ \<Rightarrow>
          if \<not> verify cr (rn_signature op) (register_name_message (rn_name op)) (rn_owner_pubkey op)
          then Inl NameInvalidSignature
          else if \<not> fee_payment_ok cr NAME_REGISTRATION_FEE (rn_fee_payment op)
          then Inl NameInvalidFeePayment
          else Inr ())"

record ('p, 's) transfer_name_op =
  tn_name :: string
  tn_new_owner_pubkey :: "'p commitment"
  tn_new_resolves_to :: "'p commitment"
  tn_signature :: "'s signature"

definition transfer_name_message ::
    "('p, 's) crypto \<Rightarrow> string \<Rightarrow> 'p commitment \<Rightarrow> 'p commitment \<Rightarrow> byte list" where
  "transfer_name_message cr name new_owner new_resolves_to =
     bytes_of ''HazeNameTransfer:'' @ bytes_of name @
     commitment_bytes cr new_owner @ commitment_bytes cr new_resolves_to"

definition transfer_name_sign ::
    "('p::ab_group_add, 's::comm_ring_1) crypto \<Rightarrow> 's \<Rightarrow> string \<Rightarrow> 'p commitment \<Rightarrow> 'p commitment \<Rightarrow>
       's \<Rightarrow> 's signature" where
  "transfer_name_sign cr k name new_owner new_resolves_to current_owner_secret =
     sign cr k (transfer_name_message cr name new_owner new_resolves_to) current_owner_secret"

definition compute_registry_root ::
    "('p, 's) crypto \<Rightarrow> ('p name_record \<Rightarrow> byte list) \<Rightarrow> (string, 'p name_record) mapping \<Rightarrow> hash32" where
  "compute_registry_root cr ser registry = sha256 cr (encode_sorted ser registry)"

interpretation name_root: committed_registry nr_name "sha256 cr" "compute_registry_root cr"
  for cr :: "('p, 's) crypto"
  by unfold_locales (simp add: compute_registry_root_def)


section \<open>Properties\<close>

text \<open>A success of the standalone check, spelled out.\<close>

lemma validate_name_Inr:
  "validate_name name = Inr u \<longleftrightarrow>
     3 \<le> length name \<and> length name \<le> 32 \<and> list_all id_char name \<and> name \<notin> set RESERVED_NAMES"
  by (auto simp: validate_name_def MIN_NAME_LENGTH_def MAX_NAME_LENGTH_def)

lemma register_name_standalone_Inr [guard_simps]:
  "register_name_validate_standalone cr op = Inr u \<longleftrightarrow>
     validate_name (rn_name op) = Inr () \<and>
     verify cr (rn_signature op) (register_name_message (rn_name op)) (rn_owner_pubkey op) \<and>
     fee_payment_ok cr NAME_REGISTRATION_FEE (rn_fee_payment op)"
  by (auto simp: register_name_validate_standalone_def split: sum.splits)

text \<open>A name transfer's signed message binds every field: two transfers with the same message name
  the same name, the same new owner and the same resolution target.\<close>

theorem transfer_name_message_binds:
  assumes "compress_laws cr"
  shows "transfer_name_message cr name owner target = transfer_name_message cr name' owner' target' \<longleftrightarrow>
     name = name' \<and> owner = owner' \<and> target = target'"
proof -
  have len: "length (commitment_bytes cr c) = 32" for c
    using assms by (rule length_commitment_bytes)
  show ?thesis
    by (auto simp: transfer_name_message_def append_eq_append_conv len commitment_bytes_inject [OF assms]
        simp flip: append_assoc)
qed

theorem transfer_name_message_binds_witness:
  "transfer_name_message w_crypto ''abc'' (Commitment (WP 1 2)) (Commitment (WP 3 4)) \<noteq>
   transfer_name_message w_crypto ''abc'' (Commitment (WP 1 2)) (Commitment (WP 3 5))"
  using transfer_name_message_binds [OF w_compress_laws] by simp

text \<open>A registration signature cannot be replayed as a transfer signature or the other way round: the
  message of a name that passes the name rules is never a transfer message.\<close>

theorem register_transfer_separated:
  assumes "validate_name name = Inr ()"
  shows "register_name_message name \<noteq> transfer_name_message cr name' owner target"
proof
  assume eq: "register_name_message name = transfer_name_message cr name' owner target"
  have "name \<noteq> []" using assms by (auto simp: validate_name_Inr)
  then have "hd (bytes_of name) = of_char (hd name)" and mem: "hd name \<in> set name"
    by (simp_all add: bytes_of_def hd_map)
  moreover have "hd (transfer_name_message cr name' owner target) = of_char (CHR ''H'')"
    by (simp add: transfer_name_message_def bytes_of_def)
  ultimately have "(of_char (hd name) :: byte) = of_char (CHR ''H'')"
    using eq by (simp only: register_name_message_def)
  then have "hd name = CHR ''H''" by (simp only: of_char_byte_inject)
  with mem assms show False
    by (auto simp: validate_name_Inr list_all_iff id_char_def less_eq_char_def)
qed

theorem register_transfer_separated_witness:
  "validate_name ''alice'' = Inr () \<and>
   register_name_message ''alice'' \<noteq>
     transfer_name_message w_crypto ''ice'' (Commitment (WP 0 1)) (Commitment (WP 0 2))"
proof -
  have "validate_name ''alice'' = Inr ()" by code_simp
  with register_transfer_separated [OF this] show ?thesis by blast
qed

end
