(* ===== verification/Assets.thy ===== *)
theory Assets
  imports Registry
begin

text \<open>
  The asset registry of \<open>core/src/assets.rs\<close>: identifier rules, mints (with the optional
  collection-drop fields) and transfers with the messages they sign, and the registry root. The
  lemmas show which fields the signed messages bind. A transfer's message binds every field once the
  asset is fixed; a mint's message does not separate the identifier from the metadata.
\<close>

definition ASSET_MINT_FEE :: u64 where
  "ASSET_MINT_FEE = 5"

definition MIN_ASSET_ID_LENGTH :: nat where
  "MIN_ASSET_ID_LENGTH = 3"

definition MAX_ASSET_ID_LENGTH :: nat where
  "MAX_ASSET_ID_LENGTH = 64"

definition MAX_METADATA_BYTES :: nat where
  "MAX_METADATA_BYTES = 2048"

definition MAX_ALLOWLIST_PROOF_LENGTH :: nat where
  "MAX_ALLOWLIST_PROOF_LENGTH = 64"

record 'p asset_record =
  ar_asset_id :: string
  ar_owner_pubkey :: "'p commitment"
  ar_metadata :: "byte list"
  ar_minted_at_block :: u64
  ar_collection_id :: "string option"

record ('p, 's) mint_asset_op =
  ma_asset_id :: string
  ma_owner_pubkey :: "'p commitment"
  ma_metadata :: "byte list"
  ma_fee_payment :: "('p, 's) transaction"
  ma_collection_id :: "string option"
  ma_phase_index :: "u32 option"
  ma_allowlist_proof :: "hash32 list option"
  ma_allowlist_leaf_index :: "u32 option"
  ma_required_kernel_excess :: "'p commitment option"
  ma_signature :: "'s signature"
  ma_creator_signature :: "'s signature option"

datatype asset_error = AssetTooShort | AssetTooLong | AssetInvalidCharacters | AssetAlreadyMinted
  | AssetInvalidSignature | AssetInvalidFeePayment | AssetMetadataTooLong
  | CollectionFieldsMismatched | MissingOrInvalidCreatorApproval | AllowlistProofTooLong

definition validate_asset_id :: "string \<Rightarrow> asset_error + unit" where
  "validate_asset_id asset_id =
     (if length asset_id < MIN_ASSET_ID_LENGTH then Inl AssetTooShort
      else if MAX_ASSET_ID_LENGTH < length asset_id then Inl AssetTooLong
      else if \<not> list_all id_char asset_id then Inl AssetInvalidCharacters
      else Inr ())"

text \<open>The encoding of an optional field: a tag byte, then the payload.\<close>

definition tagged :: "('a \<Rightarrow> byte list) \<Rightarrow> 'a option \<Rightarrow> byte list" where
  "tagged enc v = (case v of None \<Rightarrow> [0] | Some x \<Rightarrow> 1 # enc x)"

definition mint_asset_message ::
    "('p, 's) crypto \<Rightarrow> string \<Rightarrow> byte list \<Rightarrow> string option \<Rightarrow> u32 option \<Rightarrow> 'p commitment option \<Rightarrow>
       byte list" where
  "mint_asset_message cr asset_id metadata collection_id phase_index required_kernel_excess =
     bytes_of asset_id @ metadata @ tagged bytes_of collection_id @ tagged u32_le phase_index @
     tagged (commitment_bytes cr) required_kernel_excess"

definition mint_asset_sign ::
    "('p::ab_group_add, 's::comm_ring_1) crypto \<Rightarrow> 's \<Rightarrow> string \<Rightarrow> byte list \<Rightarrow> string option \<Rightarrow>
       u32 option \<Rightarrow> 'p commitment option \<Rightarrow> 's \<Rightarrow> 's signature" where
  "mint_asset_sign cr k asset_id metadata collection_id phase_index required_kernel_excess secret =
     sign cr k
       (mint_asset_message cr asset_id metadata collection_id phase_index required_kernel_excess) secret"

definition collection_approval_message ::
    "('p, 's) crypto \<Rightarrow> string \<Rightarrow> string \<Rightarrow> u32 \<Rightarrow> 'p commitment \<Rightarrow> 'p commitment \<Rightarrow> byte list" where
  "collection_approval_message cr asset_id collection_id phase_index required_kernel_excess owner =
     bytes_of ''HazeCollectionMintApproval:'' @ bytes_of asset_id @ bytes_of collection_id @
     u32_le phase_index @ commitment_bytes cr required_kernel_excess @ commitment_bytes cr owner"

definition sign_collection_approval ::
    "('p::ab_group_add, 's::comm_ring_1) crypto \<Rightarrow> 's \<Rightarrow> string \<Rightarrow> string \<Rightarrow> u32 \<Rightarrow> 'p commitment \<Rightarrow>
       'p commitment \<Rightarrow> 's \<Rightarrow> 's signature" where
  "sign_collection_approval cr k asset_id collection_id phase_index required owner creator_secret =
     sign cr k
       (collection_approval_message cr asset_id collection_id phase_index required owner)
       creator_secret"

definition mint_asset_validate_standalone ::
    "('p::ab_group_add, 's::comm_ring_1) crypto \<Rightarrow> ('p, 's) mint_asset_op \<Rightarrow> asset_error + unit" where
  "mint_asset_validate_standalone cr op =
     (case validate_asset_id (ma_asset_id op) of Inl e \<Rightarrow> Inl e
      | Inr _ \<Rightarrow>
          if MAX_METADATA_BYTES < length (ma_metadata op) then Inl AssetMetadataTooLong
          else if (ma_collection_id op \<noteq> None) \<noteq> (ma_phase_index op \<noteq> None)
          then Inl CollectionFieldsMismatched
          else if (case ma_allowlist_proof op of None \<Rightarrow> False
                   | Some proof \<Rightarrow> MAX_ALLOWLIST_PROOF_LENGTH < length proof)
          then Inl AllowlistProofTooLong
          else if \<not> verify cr (ma_signature op)
                 (mint_asset_message cr (ma_asset_id op) (ma_metadata op) (ma_collection_id op)
                    (ma_phase_index op) (ma_required_kernel_excess op)) (ma_owner_pubkey op)
          then Inl AssetInvalidSignature
          else if \<not> fee_payment_ok cr ASSET_MINT_FEE (ma_fee_payment op)
          then Inl AssetInvalidFeePayment
          else Inr ())"

record ('p, 's) transfer_asset_op =
  ta_asset_id :: string
  ta_new_owner_pubkey :: "'p commitment"
  ta_required_kernel_excess :: "'p commitment option"
  ta_required_royalty_kernel_excess :: "'p commitment option"
  ta_signature :: "'s signature"

definition transfer_asset_message ::
    "('p, 's) crypto \<Rightarrow> string \<Rightarrow> 'p commitment \<Rightarrow> 'p commitment option \<Rightarrow> 'p commitment option \<Rightarrow>
       byte list" where
  "transfer_asset_message cr asset_id new_owner required royalty =
     bytes_of ''HazeAssetTransfer:'' @ bytes_of asset_id @ commitment_bytes cr new_owner @
     tagged (commitment_bytes cr) required @ tagged (commitment_bytes cr) royalty"

definition transfer_asset_sign ::
    "('p::ab_group_add, 's::comm_ring_1) crypto \<Rightarrow> 's \<Rightarrow> string \<Rightarrow> 'p commitment \<Rightarrow>
       'p commitment option \<Rightarrow> 'p commitment option \<Rightarrow> 's \<Rightarrow> 's signature" where
  "transfer_asset_sign cr k asset_id new_owner required royalty current_owner_secret =
     sign cr k (transfer_asset_message cr asset_id new_owner required royalty) current_owner_secret"

definition compute_asset_registry_root ::
    "('p, 's) crypto \<Rightarrow> ('p asset_record \<Rightarrow> byte list) \<Rightarrow> (string, 'p asset_record) mapping \<Rightarrow> hash32" where
  "compute_asset_registry_root cr ser registry = sha256 cr (encode_sorted ser registry)"

interpretation asset_root: committed_registry ar_asset_id "sha256 cr" "compute_asset_registry_root cr"
  for cr :: "('p, 's) crypto"
  by unfold_locales (simp add: compute_asset_registry_root_def)


section \<open>Properties\<close>

lemma validate_asset_id_Inr:
  "validate_asset_id asset_id = Inr u \<longleftrightarrow>
     3 \<le> length asset_id \<and> length asset_id \<le> 64 \<and> list_all id_char asset_id"
  by (auto simp: validate_asset_id_def MIN_ASSET_ID_LENGTH_def MAX_ASSET_ID_LENGTH_def)

lemma mint_asset_standalone_Inr [guard_simps]:
  "mint_asset_validate_standalone cr op = Inr u \<longleftrightarrow>
     validate_asset_id (ma_asset_id op) = Inr () \<and>
     length (ma_metadata op) \<le> MAX_METADATA_BYTES \<and>
     (ma_collection_id op = None \<longleftrightarrow> ma_phase_index op = None) \<and>
     (\<forall>proof. ma_allowlist_proof op = Some proof \<longrightarrow> length proof \<le> MAX_ALLOWLIST_PROOF_LENGTH) \<and>
     verify cr (ma_signature op)
       (mint_asset_message cr (ma_asset_id op) (ma_metadata op) (ma_collection_id op)
          (ma_phase_index op) (ma_required_kernel_excess op)) (ma_owner_pubkey op) \<and>
     fee_payment_ok cr ASSET_MINT_FEE (ma_fee_payment op)"
  by (auto simp: mint_asset_validate_standalone_def not_less split: sum.splits option.splits)

lemma tagged_append_inject:
  assumes "\<And>x y. enc x = enc y \<longleftrightarrow> x = y" and "\<And>x. length (enc x) = n"
  shows "tagged enc v @ xs = tagged enc w @ ys \<longleftrightarrow> v = w \<and> xs = ys"
  using assms by (cases v; cases w) (auto simp: tagged_def)

text \<open>For one asset, a transfer's signed message binds the new owner and both payment conditions: no
  condition can be stripped, added or retargeted without changing the message. (The two
  identifiers have equal length; the message has no length prefix for the identifier.)\<close>

theorem transfer_asset_message_binds:
  assumes "compress_laws cr" and "length asset_id = length asset_id'"
  shows "transfer_asset_message cr asset_id owner required royalty =
       transfer_asset_message cr asset_id' owner' required' royalty' \<longleftrightarrow>
     asset_id = asset_id' \<and> owner = owner' \<and> required = required' \<and> royalty = royalty'"
proof -
  note bytes = commitment_bytes_inject [OF assms(1)] length_commitment_bytes [OF assms(1)]
  have last: "tagged (commitment_bytes cr) v = tagged (commitment_bytes cr) w \<longleftrightarrow> v = w" for v w
    using tagged_append_inject [OF bytes, of v "[]" w "[]"] by simp
  show ?thesis
    using assms(2)
    by (auto simp: transfer_asset_message_def append_eq_append_conv tagged_append_inject bytes last)
qed

theorem transfer_asset_message_binds_witness:
  "transfer_asset_message w_crypto ''art'' (Commitment (WP 0 1)) (Some (Commitment (WP 0 2))) None \<noteq>
   transfer_asset_message w_crypto ''art'' (Commitment (WP 0 1)) None None"
  using transfer_asset_message_binds [OF w_compress_laws, of "''art''" "''art''"] by simp

text \<open>A mint's signed message does not separate the identifier from the metadata: one signature by the
  owner covers two different mints, both with a valid identifier, because the identifier is
  written without its length.\<close>

theorem mint_asset_message_ambiguous:
  "validate_asset_id ''abc'' = Inr () \<and> validate_asset_id ''abcd'' = Inr () \<and>
   mint_asset_message cr ''abc'' (bytes_of ''d'') None None None =
     mint_asset_message cr ''abcd'' [] None None None"
proof -
  have "validate_asset_id ''abc'' = Inr () \<and> validate_asset_id ''abcd'' = Inr ()" by code_simp
  then show ?thesis by (simp add: mint_asset_message_def bytes_of_def)
qed

text \<open>The creator's approval of a drop mint has the same weakness: an approval for one
  asset and collection is an approval for another pair whose identifiers concatenate to the same
  string.\<close>

theorem collection_approval_message_ambiguous:
  "collection_approval_message cr ''abc'' ''def-drop'' p required owner =
     collection_approval_message cr ''abcdef'' ''-drop'' p required owner"
  by (simp add: collection_approval_message_def bytes_of_def)

end
