(* ===== verification/Marketplace.thy ===== *)
theory Marketplace
  imports Assets
begin

text \<open>
  The gossiped listings of \<open>core/src/marketplace.rs\<close>: signed advertisements keyed by asset, at most
  one per asset, cancelled by their seller and swept after every block. The state behind the mutex
  is a finite map.
\<close>

record ('p, 's) listing =
  li_asset_id :: string
  li_seller_pubkey :: "'p commitment"
  li_price :: u64
  li_listed_at :: u64
  li_signature :: "'s signature"

datatype listing_error = ListingInvalidSignature | NotCurrentOwner

definition cancel_message :: "('p, 's) crypto \<Rightarrow> string \<Rightarrow> 'p commitment \<Rightarrow> byte list" where
  "cancel_message cr asset_id seller =
     bytes_of ''HazeMarketplaceCancelListing:'' @ bytes_of asset_id @ commitment_bytes cr seller"

definition listing_message ::
    "('p, 's) crypto \<Rightarrow> string \<Rightarrow> 'p commitment \<Rightarrow> u64 \<Rightarrow> u64 \<Rightarrow> byte list" where
  "listing_message cr asset_id seller price listed_at =
     bytes_of ''HazeMarketplaceListing:'' @ bytes_of asset_id @ commitment_bytes cr seller @
     u64_le price @ u64_le listed_at"

definition listing_sign ::
    "('p::ab_group_add, 's::comm_ring_1) crypto \<Rightarrow> 's \<Rightarrow> string \<Rightarrow> 'p commitment \<Rightarrow> u64 \<Rightarrow> u64 \<Rightarrow> 's \<Rightarrow>
       's signature" where
  "listing_sign cr k asset_id seller price listed_at seller_secret =
     sign cr k (listing_message cr asset_id seller price listed_at) seller_secret"

definition listing_validate_standalone ::
    "('p::ab_group_add, 's::comm_ring_1) crypto \<Rightarrow> ('p, 's) listing \<Rightarrow> listing_error + unit" where
  "listing_validate_standalone cr l =
     (if \<not> verify cr (li_signature l)
          (listing_message cr (li_asset_id l) (li_seller_pubkey l) (li_price l) (li_listed_at l))
          (li_seller_pubkey l)
      then Inl ListingInvalidSignature else Inr ())"

definition listing_validate_against_registry ::
    "('p, 's) listing \<Rightarrow> (string, 'p asset_record) mapping \<Rightarrow> listing_error + unit" where
  "listing_validate_against_registry l registry =
     (case Mapping.lookup registry (li_asset_id l) of
        Some record \<Rightarrow> if ar_owner_pubkey record = li_seller_pubkey l then Inr () else Inl NotCurrentOwner
      | None \<Rightarrow> Inl NotCurrentOwner)"

type_synonym ('p, 's) marketplace_state = "(string, ('p, 's) listing) mapping"

definition add_or_replace ::
    "('p, 's) listing \<Rightarrow> ('p, 's) marketplace_state \<Rightarrow> ('p, 's) marketplace_state" where
  "add_or_replace l listings = Mapping.update (li_asset_id l) l listings"

definition cancel ::
    "string \<Rightarrow> 'p commitment \<Rightarrow> ('p, 's) marketplace_state \<Rightarrow> bool \<times> ('p, 's) marketplace_state" where
  "cancel asset_id requester listings =
     (case Mapping.lookup listings asset_id of
        Some existing \<Rightarrow>
          if li_seller_pubkey existing = requester then (True, Mapping.delete asset_id listings)
          else (False, listings)
      | None \<Rightarrow> (False, listings))"

definition clear_stale ::
    "string list \<Rightarrow> (string, 'p asset_record) mapping \<Rightarrow> ('p, 's) marketplace_state \<Rightarrow>
       ('p, 's) marketplace_state" where
  "clear_stale touched_assets registry listings =
     Mapping.filter
       (\<lambda>asset_id l. case Mapping.lookup registry asset_id of
          Some r \<Rightarrow> ar_owner_pubkey r = li_seller_pubkey l | None \<Rightarrow> False)
       (delete_all touched_assets listings)"

text \<open>After a block, exactly those listings survive whose asset the block did not touch and whose
  seller is the owner recorded in the live registry.\<close>

theorem clear_stale_survivors:
  "Mapping.lookup (clear_stale touched registry listings) asset_id = Some l \<longleftrightarrow>
     Mapping.lookup listings asset_id = Some l \<and> asset_id \<notin> set touched \<and>
     (\<exists>r. Mapping.lookup registry asset_id = Some r \<and> ar_owner_pubkey r = li_seller_pubkey l)"
  by (auto simp: clear_stale_def map_simps split: option.splits if_splits)

text \<open>A listing's signed message binds all its fields, and no listing message is a cancellation
  message.\<close>

theorem listing_message_binds:
  assumes "compress_laws cr"
  shows "(listing_message cr a s p t = listing_message cr a' s' p' t' \<longleftrightarrow>
      a = a' \<and> s = s' \<and> p = p' \<and> t = t') \<and>
    listing_message cr a s p t \<noteq> cancel_message cr a' s'"
proof -
  have len: "length (commitment_bytes cr c) = 32" for c
    using assms by (rule length_commitment_bytes)
  have "listing_message cr a s p t = listing_message cr a' s' p' t' \<longleftrightarrow>
      a = a' \<and> s = s' \<and> p = p' \<and> t = t'"
    by (auto simp: listing_message_def append_eq_append_conv len commitment_bytes_inject [OF assms]
        simp flip: append_assoc)
  moreover have "take 16 (drop 15 (listing_message cr a s p t)) \<noteq> take 16 (drop 15 (cancel_message cr a' s'))"
    by (simp add: listing_message_def cancel_message_def bytes_of_def)
  ultimately show ?thesis by auto
qed

theorem listing_message_binds_witness:
  "listing_message w_crypto ''art'' (Commitment (WP 0 1)) 10 5 \<noteq>
   listing_message w_crypto ''art'' (Commitment (WP 0 1)) 11 5"
  using listing_message_binds [OF w_compress_laws, of "''art''" "Commitment (WP 0 1)" 10 5 "''art''"
      "Commitment (WP 0 1)" 11 5] by simp

end
