(* ===== verification/Merkle.thy ===== *)
theory Merkle
  imports Word_Instance
begin

text \<open>
  The binary Merkle tree of \<open>core/src/merkle.rs\<close>: pairs are combined left to right, an odd node
  at the end of a level is paired with itself. The lemmas relate the three operations: a proof
  built for a leaf verifies against the root (completeness), and what verifies against a root is a
  node of that root's tree unless the hash function collides on the strings that were hashed.
\<close>

definition hash_pair :: "('p, 's) crypto \<Rightarrow> hash32 \<Rightarrow> hash32 \<Rightarrow> hash32" where
  "hash_pair cr left right = sha256 cr (left @ right)"

definition empty_root :: "('p, 's) crypto \<Rightarrow> hash32" where
  "empty_root cr = sha256 cr (bytes_of ''HazeMerkleEmpty'')"

text \<open>One pass of the inner \<open>while i < level.len()\<close> loop.\<close>

fun next_level :: "('p, 's) crypto \<Rightarrow> hash32 list \<Rightarrow> hash32 list" where
  "next_level cr [] = []"
| "next_level cr [x] = [hash_pair cr x x]"
| "next_level cr (x # y # xs) = hash_pair cr x y # next_level cr xs"

lemma length_next_level [simp]: "length (next_level cr level) = (length level + 1) div 2"
  by (induction cr level rule: next_level.induct) auto

function root_loop :: "('p, 's) crypto \<Rightarrow> hash32 list \<Rightarrow> hash32" where
  "root_loop cr level =
     (if 1 < length level then root_loop cr (next_level cr level) else level ! 0)"
  by pat_completeness auto
termination
  by (relation "measure (\<lambda>(cr, level). length level)") auto

declare root_loop.simps [simp del]

definition merkle_root :: "('p, 's) crypto \<Rightarrow> hash32 list \<Rightarrow> hash32" where
  "merkle_root cr leaves = (if leaves = [] then empty_root cr else root_loop cr leaves)"

text \<open>Indexing a slice panics out of range.\<close>

definition checked_nth :: "'a list \<Rightarrow> nat \<Rightarrow> 'a outcome" where
  "checked_nth xs i = (if i < length xs then Ret (xs ! i) else Panic)"

function proof_loop :: "('p, 's) crypto \<Rightarrow> hash32 list \<Rightarrow> nat \<Rightarrow> hash32 list outcome" where
  "proof_loop cr level index =
     (if 1 < length level then
        let pair_index = index XOR 1 in
        bind_outcome
          (if pair_index < length level then Ret (level ! pair_index) else checked_nth level index)
          (\<lambda>sibling. bind_outcome (proof_loop cr (next_level cr level) (index div 2))
             (\<lambda>rest. Ret (sibling # rest)))
      else Ret [])"
  by pat_completeness auto
termination
  by (relation "measure (\<lambda>(cr, level, index). length level)") auto

declare proof_loop.simps [simp del]

definition build_merkle_proof :: "('p, 's) crypto \<Rightarrow> hash32 list \<Rightarrow> nat \<Rightarrow> hash32 list outcome" where
  "build_merkle_proof cr leaves leaf_index = proof_loop cr leaves leaf_index"

fun verify_loop :: "('p, 's) crypto \<Rightarrow> hash32 \<Rightarrow> hash32 list \<Rightarrow> nat \<Rightarrow> hash32" where
  "verify_loop cr current [] index = current"
| "verify_loop cr current (sibling # proof) index =
     verify_loop cr
       (if index mod 2 = 0 then hash_pair cr current sibling else hash_pair cr sibling current)
       proof (index div 2)"

definition verify_merkle_proof ::
    "('p, 's) crypto \<Rightarrow> hash32 \<Rightarrow> hash32 list \<Rightarrow> nat \<Rightarrow> hash32 \<Rightarrow> bool" where
  "verify_merkle_proof cr leaf proof leaf_index root \<longleftrightarrow>
     verify_loop cr leaf proof leaf_index = root"


section \<open>Completeness\<close>

lemma xor_one_nat: "(i :: nat) XOR Suc 0 = (if even i then i + 1 else i - 1)"
  by (simp add: xor_Suc_0_eq)

text \<open>The parent of node \<open>i\<close> hashes it with its sibling, in the order of the index's parity.\<close>

lemma next_level_nth:
  assumes "i < length level"
  defines "sibling \<equiv> (if i XOR 1 < length level then level ! (i XOR 1) else level ! i)"
  shows "next_level cr level ! (i div 2) =
           (if i mod 2 = 0 then hash_pair cr (level ! i) sibling
            else hash_pair cr sibling (level ! i))"
  using assms(1) unfolding sibling_def
proof (induction cr level arbitrary: i rule: next_level.induct)
  case (3 cr x y xs)
  show ?case
  proof (cases "i < 2")
    case True
    then have "i = 0 \<or> i = 1" by auto
    then show ?thesis by (auto simp: xor_one_nat)
  next
    case False
    then obtain j where j: "i = Suc (Suc j)"
      by (metis add_2_eq_Suc le_Suc_ex not_less)
    have "Suc (Suc j) XOR Suc 0 = Suc (Suc (j XOR Suc 0))"
      by (auto simp: xor_one_nat)
    with "3.IH" [of j] "3.prems" j show ?thesis by simp
  qed
qed (auto simp: xor_one_nat)

lemma proof_loop_complete:
  "i < length level \<Longrightarrow>
     \<exists>proof. proof_loop cr level i = Ret proof \<and> verify_loop cr (level ! i) proof i = root_loop cr level"
proof (induction cr level arbitrary: i rule: root_loop.induct)
  case (1 cr level)
  show ?case
  proof (cases "1 < length level")
    case True
    let ?sib = "if i XOR 1 < length level then level ! (i XOR 1) else level ! i"
    from "1.prems" have "i div 2 < length (next_level cr level)" by auto
    from "1.IH" [OF True this] obtain path where
        p: "proof_loop cr (next_level cr level) (i div 2) = Ret path"
      and v: "verify_loop cr (next_level cr level ! (i div 2)) path (i div 2) =
                root_loop cr (next_level cr level)"
      by blast
    have "proof_loop cr level i = Ret (?sib # path)"
      using True p "1.prems" by (simp add: proof_loop.simps [of cr level] checked_nth_def)
    moreover have "verify_loop cr (level ! i) (?sib # path) i = root_loop cr level"
      using True v
      by (simp only: root_loop.simps [of cr level] verify_loop.simps if_True
          next_level_nth [OF "1.prems"])
    ultimately show ?thesis by blast
  next
    case False
    with "1.prems" have "i = 0" by linarith
    with False show ?thesis
      by (auto simp: proof_loop.simps [of cr level] root_loop.simps [of cr level])
  qed
qed

text \<open>For every leaf of a non-empty tree, building its proof does not panic and the proof
  verifies against the tree's root at that leaf's index.\<close>

theorem merkle_complete:
  assumes "i < length leaves"
  shows "\<exists>proof. build_merkle_proof cr leaves i = Ret proof \<and>
           verify_merkle_proof cr (leaves ! i) proof i (merkle_root cr leaves)"
proof -
  from assms have "leaves \<noteq> []" by auto
  with proof_loop_complete [OF assms, of cr] show ?thesis
    by (simp add: build_merkle_proof_def verify_merkle_proof_def merkle_root_def)
qed


section \<open>Soundness\<close>

text \<open>The nodes of a tree, and the strings hashed to build it or to check a proof.\<close>

function tree_nodes :: "('p, 's) crypto \<Rightarrow> hash32 list \<Rightarrow> hash32 set" where
  "tree_nodes cr level =
     set level \<union> (if 1 < length level then tree_nodes cr (next_level cr level) else {})"
  by pat_completeness auto
termination
  by (relation "measure (\<lambda>(cr, level). length level)") auto

fun level_pairs :: "hash32 list \<Rightarrow> byte list list" where
  "level_pairs [] = []"
| "level_pairs [x] = [x @ x]"
| "level_pairs (x # y # xs) = (x @ y) # level_pairs xs"

function tree_pairs :: "('p, 's) crypto \<Rightarrow> hash32 list \<Rightarrow> byte list set" where
  "tree_pairs cr level =
     (if 1 < length level
      then set (level_pairs level) \<union> tree_pairs cr (next_level cr level) else {})"
  by pat_completeness auto
termination
  by (relation "measure (\<lambda>(cr, level). length level)") auto

declare tree_nodes.simps [simp del] tree_pairs.simps [simp del]

fun path_pairs :: "('p, 's) crypto \<Rightarrow> hash32 \<Rightarrow> hash32 list \<Rightarrow> nat \<Rightarrow> byte list set" where
  "path_pairs cr current [] index = {}"
| "path_pairs cr current (sibling # proof) index =
     (let pair = (if index mod 2 = 0 then current @ sibling else sibling @ current)
      in insert pair (path_pairs cr (sha256 cr pair) proof (index div 2)))"

lemma next_level_map: "next_level cr level = map (sha256 cr) (level_pairs level)"
  by (induction cr level rule: next_level.induct) (simp_all add: hash_pair_def)

lemma level_pairs_parts:
  "pair \<in> set (level_pairs level) \<Longrightarrow> \<exists>l \<in> set level. \<exists>r \<in> set level. pair = l @ r"
  by (induction level rule: level_pairs.induct) auto

lemma root_in_tree_nodes: "level \<noteq> [] \<Longrightarrow> root_loop cr level \<in> tree_nodes cr level"
proof (induction cr level rule: root_loop.induct)
  case (1 cr level)
  then show ?case
    by (cases "1 < length level")
      (auto simp: root_loop.simps [of cr level] tree_nodes.simps [of cr level]
        simp flip: length_greater_0_conv)
qed

text \<open>A node above the leaves is the hash of two nodes of the tree.\<close>

lemma tree_nodes_cases:
  assumes "x \<in> tree_nodes cr level"
  obtains (leaf) "x \<in> set level"
  | (inner) l r where "x = sha256 cr (l @ r)" "l @ r \<in> tree_pairs cr level"
      "l \<in> tree_nodes cr level" "r \<in> tree_nodes cr level"
proof -
  have "x \<in> set level \<or> (\<exists>l r. x = sha256 cr (l @ r) \<and> l @ r \<in> tree_pairs cr level \<and>
      l \<in> tree_nodes cr level \<and> r \<in> tree_nodes cr level)"
    using assms
  proof (induction cr level rule: root_loop.induct)
    case (1 cr level)
    note unfold = tree_nodes.simps [of cr level] tree_pairs.simps [of cr level]
    show ?case
    proof (cases "x \<in> set level")
      case False
      with "1.prems" have len: "1 < length level" and x: "x \<in> tree_nodes cr (next_level cr level)"
        by (auto simp: unfold split: if_splits)
      from "1.IH" [OF len x] show ?thesis
      proof
        assume "x \<in> set (next_level cr level)"
        then obtain pair where pair: "x = sha256 cr pair" "pair \<in> set (level_pairs level)"
          by (auto simp: next_level_map)
        with level_pairs_parts [OF pair(2)] len show ?thesis by (auto simp: unfold)
      qed (use len in \<open>auto simp: unfold\<close>)
    qed simp
  qed
  with that show thesis by blast
qed

lemma tree_nodes_length:
  assumes "\<And>bs. length (sha256 cr bs) = 32" and "\<forall>x \<in> set level. length x = 32"
    and "x \<in> tree_nodes cr level"
  shows "length x = 32"
  using assms(3) by (cases rule: tree_nodes_cases) (use assms in auto)

text \<open>A proof that ends at a node of a tree starts at a node of that tree, when no two of the strings
  hashed on the way collide and no leaf is the hash of a pair.\<close>

lemma verify_loop_sound:
  assumes len: "\<And>bs. length (sha256 cr bs) = 32" "\<forall>x \<in> set level. length x = 32"
      "\<forall>x \<in> set path. length x = 32"
    and inj: "inj_on (sha256 cr) S" "tree_pairs cr level \<subseteq> S"
    and leaves: "\<forall>x \<in> set level. \<exists>bs \<in> S. x = sha256 cr bs \<and> length bs \<noteq> 64"
  shows "path_pairs cr current path index \<subseteq> S \<Longrightarrow> length current = 32 \<Longrightarrow>
     verify_loop cr current path index \<in> tree_nodes cr level \<Longrightarrow> current \<in> tree_nodes cr level"
  using len(3)
proof (induction path arbitrary: current index)
  case (Cons sibling path)
  define pair where "pair = (if index mod 2 = 0 then current @ sibling else sibling @ current)"
  have parts: "length pair = 64" "length current = 32" "length sibling = 32"
    using Cons.prems by (auto simp: pair_def)
  have "sha256 cr pair \<in> tree_nodes cr level"
    using Cons.IH [of "sha256 cr pair" "index div 2"] Cons.prems len(1)
    by (simp add: pair_def Let_def hash_pair_def split: if_splits)
  moreover have S: "pair \<in> S"
    using Cons.prems(1) by (simp add: pair_def Let_def)
  ultimately obtain l r where lr: "pair = l @ r" "l \<in> tree_nodes cr level" "r \<in> tree_nodes cr level"
  proof (cases rule: tree_nodes_cases)
    case leaf
    with leaves obtain bs where "bs \<in> S" "sha256 cr pair = sha256 cr bs" "length bs \<noteq> 64" by blast
    with inj(1) S have "pair = bs" by (meson inj_onD)
    with parts(1) \<open>length bs \<noteq> 64\<close> show thesis by simp
  next
    case (inner l r)
    with inj S have "pair = l @ r" by (meson inj_onD subsetD)
    with inner that show thesis by blast
  qed
  moreover have "length l = 32" using lr(2) by (rule tree_nodes_length [OF len(1,2)])
  ultimately show ?case
    using parts by (auto simp: pair_def split: if_splits)
qed simp


section \<open>A tree of the concrete instance\<close>

theorem merkle_complete_witness:
  "\<exists>proof. build_merkle_proof w_crypto [[1], [2], [3], [4], [5]] 4 = Ret proof \<and>
     verify_merkle_proof w_crypto [5] proof 4 (merkle_root w_crypto [[1], [2], [3], [4], [5]])"
  using merkle_complete [of 4 "[[1], [2], [3], [4], [5]]" w_crypto] by simp

end
