(* ===== verification/Collections.thy ===== *)
theory Collections
  imports Assets Merkle
begin

text \<open>
  Collection launches of \<open>core/src/collections.rs\<close> (phases, launch operations, the allowlist leaf
  and the collection root) and the off-chain allowlists of \<open>core/src/allowlist.rs\<close>. The lemmas show
  that a validated schedule has at most one active phase at any time, and that a Merkle proof
  against the root of an allowlist only verifies for a key on the list.
\<close>

definition MIN_COLLECTION_ID_LENGTH :: nat where
  "MIN_COLLECTION_ID_LENGTH = 3"

definition MAX_COLLECTION_ID_LENGTH :: nat where
  "MAX_COLLECTION_ID_LENGTH = 64"

definition MAX_COLLECTION_NAME_LENGTH :: nat where
  "MAX_COLLECTION_NAME_LENGTH = 64"

definition MAX_COLLECTION_SYMBOL_LENGTH :: nat where
  "MAX_COLLECTION_SYMBOL_LENGTH = 16"

definition MAX_ROYALTY_BPS :: u16 where
  "MAX_ROYALTY_BPS = 10000"

definition MAX_PHASES :: nat where
  "MAX_PHASES = 32"

record mint_phase =
  ph_name :: string
  ph_start_time :: u64
  ph_end_time :: u64
  ph_price :: u64
  ph_per_wallet_limit :: u32
  ph_allowlist_merkle_root :: "hash32 option"

record 'p collection_record =
  cl_collection_id :: string
  cl_creator_pubkey :: "'p commitment"
  cl_name :: string
  cl_symbol :: string
  cl_metadata :: "byte list"
  cl_phases :: "mint_phase list"
  cl_launched_at_block :: u64
  cl_royalty_bps :: u16

record ('p, 's) launch_collection_op =
  lc_collection_id :: string
  lc_creator_pubkey :: "'p commitment"
  lc_name :: string
  lc_symbol :: string
  lc_metadata :: "byte list"
  lc_phases :: "mint_phase list"
  lc_royalty_bps :: u16
  lc_signature :: "'s signature"

datatype collection_error = CollectionTooShort | CollectionTooLong | CollectionInvalidCharacters
  | CollectionAlreadyLaunched | CollectionInvalidSignature | CollectionMetadataTooLong
  | CollectionNameTooLong | CollectionSymbolTooLong | NoPhases | TooManyPhases | InvalidPhaseWindow
  | PhasesNotSequential | ZeroPerWalletLimit | RoyaltyTooHigh

definition validate_collection_id :: "string \<Rightarrow> collection_error + unit" where
  "validate_collection_id collection_id =
     (if length collection_id < MIN_COLLECTION_ID_LENGTH then Inl CollectionTooShort
      else if MAX_COLLECTION_ID_LENGTH < length collection_id then Inl CollectionTooLong
      else if \<not> list_all id_char collection_id then Inl CollectionInvalidCharacters
      else Inr ())"

text \<open>The two loops of \<open>validate_phases\<close>: one phase at a time, then every adjacent pair.\<close>

fun validate_phase_windows :: "mint_phase list \<Rightarrow> collection_error + unit" where
  "validate_phase_windows [] = Inr ()"
| "validate_phase_windows (phase # phases) =
     (if MAX_COLLECTION_NAME_LENGTH < length (ph_name phase) then Inl CollectionNameTooLong
      else if ph_end_time phase \<le> ph_start_time phase then Inl InvalidPhaseWindow
      else if ph_per_wallet_limit phase = 0 then Inl ZeroPerWalletLimit
      else validate_phase_windows phases)"

fun phases_sequential :: "mint_phase list \<Rightarrow> bool" where
  "phases_sequential (p # q # phases) \<longleftrightarrow>
     \<not> ph_start_time q < ph_end_time p \<and> phases_sequential (q # phases)"
| "phases_sequential phases \<longleftrightarrow> True"

definition validate_phases :: "mint_phase list \<Rightarrow> collection_error + unit" where
  "validate_phases phases =
     (if phases = [] then Inl NoPhases
      else if MAX_PHASES < length phases then Inl TooManyPhases
      else case validate_phase_windows phases of Inl e \<Rightarrow> Inl e
      | Inr _ \<Rightarrow> if \<not> phases_sequential phases then Inl PhasesNotSequential else Inr ())"

definition launch_collection_message ::
    "('p, 's) crypto \<Rightarrow> (mint_phase list \<Rightarrow> byte list) \<Rightarrow> string \<Rightarrow> 'p commitment \<Rightarrow> string \<Rightarrow> string \<Rightarrow>
       byte list \<Rightarrow> mint_phase list \<Rightarrow> u16 \<Rightarrow> byte list" where
  "launch_collection_message cr ser_phases collection_id creator name symbol metadata phases royalty_bps =
     bytes_of ''HazeLaunchCollection:'' @ bytes_of collection_id @ commitment_bytes cr creator @
     bytes_of name @ bytes_of symbol @ metadata @ ser_phases phases @ u16_le royalty_bps"

definition launch_collection_sign ::
    "('p::ab_group_add, 's::comm_ring_1) crypto \<Rightarrow> 's \<Rightarrow> (mint_phase list \<Rightarrow> byte list) \<Rightarrow> string \<Rightarrow>
       'p commitment \<Rightarrow> string \<Rightarrow> string \<Rightarrow> byte list \<Rightarrow> mint_phase list \<Rightarrow> u16 \<Rightarrow> 's \<Rightarrow> 's signature" where
  "launch_collection_sign cr k ser_phases collection_id creator name symbol metadata phases royalty_bps secret =
     sign cr k (launch_collection_message cr ser_phases collection_id creator name symbol metadata
       phases royalty_bps) secret"

definition launch_collection_validate_standalone ::
    "('p::ab_group_add, 's::comm_ring_1) crypto \<Rightarrow> (mint_phase list \<Rightarrow> byte list) \<Rightarrow>
       ('p, 's) launch_collection_op \<Rightarrow> collection_error + unit" where
  "launch_collection_validate_standalone cr ser_phases op =
     (case validate_collection_id (lc_collection_id op) of Inl e \<Rightarrow> Inl e
      | Inr _ \<Rightarrow>
          if MAX_COLLECTION_NAME_LENGTH < length (lc_name op) then Inl CollectionNameTooLong
          else if MAX_COLLECTION_SYMBOL_LENGTH < length (lc_symbol op) then Inl CollectionSymbolTooLong
          else if MAX_METADATA_BYTES < length (lc_metadata op) then Inl CollectionMetadataTooLong
          else if MAX_ROYALTY_BPS < lc_royalty_bps op then Inl RoyaltyTooHigh
          else case validate_phases (lc_phases op) of Inl e \<Rightarrow> Inl e
          | Inr _ \<Rightarrow>
              if \<not> verify cr (lc_signature op)
                   (launch_collection_message cr ser_phases (lc_collection_id op)
                      (lc_creator_pubkey op) (lc_name op) (lc_symbol op) (lc_metadata op)
                      (lc_phases op) (lc_royalty_bps op)) (lc_creator_pubkey op)
              then Inl CollectionInvalidSignature
              else Inr ())"

definition allowlist_leaf :: "('p, 's) crypto \<Rightarrow> 'p commitment \<Rightarrow> hash32" where
  "allowlist_leaf cr pubkey = sha256 cr (commitment_bytes cr pubkey)"

definition compute_collection_registry_root ::
    "('p, 's) crypto \<Rightarrow> ('p collection_record \<Rightarrow> byte list) \<Rightarrow>
       (string, 'p collection_record) mapping \<Rightarrow> hash32" where
  "compute_collection_registry_root cr ser registry = sha256 cr (encode_sorted ser registry)"

interpretation collection_root:
  committed_registry cl_collection_id "sha256 cr" "compute_collection_registry_root cr"
  for cr :: "('p, 's) crypto"
  by unfold_locales (simp add: compute_collection_registry_root_def)


section \<open>Published allowlists (\<open>allowlist.rs\<close>)\<close>

record ('p, 's) allowlist_entry =
  ae_collection_id :: string
  ae_phase_index :: u32
  ae_creator_pubkey :: "'p commitment"
  ae_pubkeys :: "'p commitment list"
  ae_published_at :: u64
  ae_signature :: "'s signature"

datatype allowlist_error = AllowlistInvalidSignature | NotCollectionCreator | TooManyEntries

definition MAX_ALLOWLIST_ENTRIES :: nat where
  "MAX_ALLOWLIST_ENTRIES = 200000"

definition allowlist_message ::
    "('p, 's) crypto \<Rightarrow> string \<Rightarrow> u32 \<Rightarrow> 'p commitment list \<Rightarrow> u64 \<Rightarrow> byte list" where
  "allowlist_message cr collection_id phase_index pubkeys published_at =
     bytes_of ''HazeAllowlistPublish:'' @ bytes_of collection_id @ u32_le phase_index @
     concat (map (commitment_bytes cr) pubkeys) @ u64_le published_at"

definition allowlist_sign ::
    "('p::ab_group_add, 's::comm_ring_1) crypto \<Rightarrow> 's \<Rightarrow> string \<Rightarrow> u32 \<Rightarrow> 'p commitment list \<Rightarrow> u64 \<Rightarrow>
       's \<Rightarrow> 's signature" where
  "allowlist_sign cr k collection_id phase_index pubkeys published_at creator_secret =
     sign cr k (allowlist_message cr collection_id phase_index pubkeys published_at) creator_secret"

definition allowlist_validate_standalone ::
    "('p::ab_group_add, 's::comm_ring_1) crypto \<Rightarrow> ('p, 's) allowlist_entry \<Rightarrow> allowlist_error + unit" where
  "allowlist_validate_standalone cr entry =
     (if MAX_ALLOWLIST_ENTRIES < length (ae_pubkeys entry) then Inl TooManyEntries
      else if \<not> verify cr (ae_signature entry)
             (allowlist_message cr (ae_collection_id entry) (ae_phase_index entry)
                (ae_pubkeys entry) (ae_published_at entry)) (ae_creator_pubkey entry)
      then Inl AllowlistInvalidSignature
      else Inr ())"

definition allowlist_validate_against_registry ::
    "('p, 's) allowlist_entry \<Rightarrow> (string, 'p collection_record) mapping \<Rightarrow> allowlist_error + unit" where
  "allowlist_validate_against_registry entry registry =
     (case Mapping.lookup registry (ae_collection_id entry) of
        Some record \<Rightarrow>
          if cl_creator_pubkey record = ae_creator_pubkey entry then Inr () else Inl NotCollectionCreator
      | None \<Rightarrow> Inl NotCollectionCreator)"

type_synonym ('p, 's) allowlist_state = "(string \<times> u32, ('p, 's) allowlist_entry) mapping"

definition allowlist_publish ::
    "('p, 's) allowlist_entry \<Rightarrow> ('p, 's) allowlist_state \<Rightarrow> ('p, 's) allowlist_state" where
  "allowlist_publish entry entries =
     Mapping.update (ae_collection_id entry, ae_phase_index entry) entry entries"

definition allowlist_get ::
    "('p, 's) allowlist_state \<Rightarrow> string \<Rightarrow> u32 \<Rightarrow> ('p, 's) allowlist_entry option" where
  "allowlist_get entries collection_id phase_index =
     Mapping.lookup entries (collection_id, phase_index)"


section \<open>Properties\<close>

definition phase_active :: "u64 \<Rightarrow> mint_phase \<Rightarrow> bool" where
  "phase_active t phase \<longleftrightarrow> ph_start_time phase \<le> t \<and> t < ph_end_time phase"

lemma validate_phase_windows_Inr:
  "validate_phase_windows phases = Inr u \<longleftrightarrow>
     (\<forall>p \<in> set phases. length (ph_name p) \<le> MAX_COLLECTION_NAME_LENGTH \<and>
        ph_start_time p < ph_end_time p \<and> ph_per_wallet_limit p \<noteq> 0)"
  by (induction phases) (auto simp: not_less not_le)

lemma phases_sequential_later:
  "phases_sequential (p # phases) \<Longrightarrow> \<forall>q \<in> set (p # phases). ph_start_time q < ph_end_time q \<Longrightarrow>
     q \<in> set phases \<Longrightarrow> ph_end_time p \<le> ph_start_time q"
proof (induction phases arbitrary: p)
  case (Cons r phases)
  then have "ph_end_time p \<le> ph_start_time r" and "ph_start_time r < ph_end_time r" by auto
  then have "ph_end_time p \<le> ph_end_time r" by (meson order_trans less_imp_le)
  with Cons show ?case by fastforce
qed simp

lemma one_active_phase:
  "phases_sequential phases \<Longrightarrow> \<forall>q \<in> set phases. ph_start_time q < ph_end_time q \<Longrightarrow>
     i < j \<Longrightarrow> j < length phases \<Longrightarrow> phase_active t (phases ! i) \<Longrightarrow> \<not> phase_active t (phases ! j)"
proof (induction phases arbitrary: i j)
  case (Cons p phases)
  have seq: "phases_sequential phases" using Cons.prems(1) by (cases phases) auto
  obtain j' where j: "j = Suc j'" using Cons.prems(3) by (cases j) auto
  show ?case
  proof (cases i)
    case 0
    have "phases ! j' \<in> set phases" using Cons.prems(4) j by simp
    from phases_sequential_later [OF Cons.prems(1,2) this]
    have le: "ph_end_time p \<le> ph_start_time (phases ! j')" .
    from Cons.prems(5) 0 have "t < ph_end_time p" by (simp add: phase_active_def)
    from this le have "t < ph_start_time (phases ! j')" by (rule less_le_trans)
    then show ?thesis by (auto simp: j phase_active_def dest: leD)
  next
    case (Suc i')
    with Cons j seq show ?thesis by auto
  qed
qed simp

lemma validate_phases_Inr:
  "validate_phases phases = Inr u \<longleftrightarrow>
     phases \<noteq> [] \<and> length phases \<le> MAX_PHASES \<and> phases_sequential phases \<and>
     validate_phase_windows phases = Inr ()"
  by (auto simp: validate_phases_def split: sum.splits)

text \<open>A schedule that passes \<open>validate_phases\<close> is unambiguous: at any time at most one of its phases
  is active.\<close>

theorem validate_phases_one_active:
  assumes "validate_phases phases = Inr ()" and "i < length phases" and "j < length phases"
    and "phase_active t (phases ! i)" and "phase_active t (phases ! j)"
  shows "i = j"
proof -
  have seq: "phases_sequential phases" and win: "\<forall>q \<in> set phases. ph_start_time q < ph_end_time q"
    using assms(1) by (auto simp: validate_phases_Inr validate_phase_windows_Inr)
  show ?thesis
    using one_active_phase [OF seq win] assms by (meson linorder_neqE_nat)
qed

definition sample_phase :: "u64 \<Rightarrow> u64 \<Rightarrow> mint_phase" where
  "sample_phase s e = \<lparr>ph_name = ''p'', ph_start_time = s, ph_end_time = e, ph_price = 1,
     ph_per_wallet_limit = 2, ph_allowlist_merkle_root = None\<rparr>"

theorem validate_phases_one_active_witness:
  "validate_phases [sample_phase 10 20, sample_phase 20 30] = Inr () \<and>
   phase_active 20 ([sample_phase 10 20, sample_phase 20 30] ! 1) \<and>
   \<not> phase_active 20 ([sample_phase 10 20, sample_phase 20 30] ! 0)"
proof -
  have valid: "validate_phases [sample_phase 10 20, sample_phase 20 30] = Inr ()"
    by (simp add: validate_phases_def sample_phase_def MAX_PHASES_def MAX_COLLECTION_NAME_LENGTH_def)
  have act: "phase_active 20 ([sample_phase 10 20, sample_phase 20 30] ! 1)"
    by (simp add: phase_active_def sample_phase_def)
  have "\<not> phase_active 20 ([sample_phase 10 20, sample_phase 20 30] ! 0)"
  proof
    assume "phase_active 20 ([sample_phase 10 20, sample_phase 20 30] ! 0)"
    from validate_phases_one_active [OF valid _ _ this act] show False by simp
  qed
  with valid act show ?thesis by blast
qed

text \<open>The strings hashed when a key's proof is checked against the root of an allowlist.\<close>

definition allowlist_strings ::
    "('p, 's) crypto \<Rightarrow> 'p commitment list \<Rightarrow> 'p commitment \<Rightarrow> hash32 list \<Rightarrow> nat \<Rightarrow> byte list set" where
  "allowlist_strings cr pubkeys pubkey proof index =
     commitment_bytes cr ` set (pubkey # pubkeys) \<union>
     tree_pairs cr (map (allowlist_leaf cr) pubkeys) \<union>
     path_pairs cr (allowlist_leaf cr pubkey) proof index"

text \<open>Allowlist soundness: a Merkle proof for a key that verifies against the root of an allowlist is
  a proof for a key on the list, unless SHA-256 collides on two of the strings hashed while
  building the tree and checking the proof. Neither an inner node nor a proof for another
  position can stand in for a leaf.\<close>

theorem allowlist_proof_sound:
  assumes cl: "compress_laws cr" and len: "\<forall>bs. length (sha256 cr bs) = 32"
    and plen: "\<forall>x \<in> set path. length x = 32" and ne: "pubkeys \<noteq> []"
    and inj: "inj_on (sha256 cr) (allowlist_strings cr pubkeys pubkey path index)"
    and ok: "verify_merkle_proof cr (allowlist_leaf cr pubkey) path index
               (merkle_root cr (map (allowlist_leaf cr) pubkeys))"
  shows "pubkey \<in> set pubkeys"
proof -
  let ?level = "map (allowlist_leaf cr) pubkeys" and ?S = "allowlist_strings cr pubkeys pubkey path index"
  have bytes: "commitment_bytes cr c \<in> ?S" if "c \<in> set (pubkey # pubkeys)" for c
    using that by (auto simp: allowlist_strings_def)
  have len32: "length (commitment_bytes cr c) = 32" for c
    using cl by (rule length_commitment_bytes)
  have "verify_loop cr (allowlist_leaf cr pubkey) path index \<in> tree_nodes cr ?level"
    using ok ne root_in_tree_nodes [of ?level cr]
    by (simp add: verify_merkle_proof_def merkle_root_def)
  moreover have "\<forall>x \<in> set ?level. \<exists>bs \<in> ?S. x = sha256 cr bs \<and> length bs \<noteq> 64"
  proof
    fix x assume "x \<in> set ?level"
    then obtain c where "c \<in> set pubkeys" "x = allowlist_leaf cr c" by auto
    then show "\<exists>bs \<in> ?S. x = sha256 cr bs \<and> length bs \<noteq> 64"
      using bytes [of c] len32 [of c]
      by (intro bexI [of _ "commitment_bytes cr c"]) (simp_all add: allowlist_leaf_def)
  qed
  moreover have "tree_pairs cr ?level \<subseteq> ?S" "path_pairs cr (allowlist_leaf cr pubkey) path index \<subseteq> ?S"
    by (auto simp: allowlist_strings_def)
  moreover have leaf32: "\<forall>x \<in> set ?level. length x = 32" "length (allowlist_leaf cr pubkey) = 32"
    using len by (simp_all add: allowlist_leaf_def)
  ultimately have "allowlist_leaf cr pubkey \<in> tree_nodes cr ?level"
    using verify_loop_sound [of cr ?level path ?S "allowlist_leaf cr pubkey" index] len plen inj
    by blast
  then show ?thesis
  proof (cases rule: tree_nodes_cases)
    case leaf
    then obtain c where c: "c \<in> set pubkeys"
        "sha256 cr (commitment_bytes cr pubkey) = sha256 cr (commitment_bytes cr c)"
      by (auto simp: allowlist_leaf_def)
    with inj_onD [OF inj] bytes have "commitment_bytes cr pubkey = commitment_bytes cr c" by simp
    with c commitment_bytes_inject [OF cl] show ?thesis by simp
  next
    case (inner l r)
    have "l @ r \<in> ?S" using inner(2) by (simp add: allowlist_strings_def)
    with inner(1) inj_onD [OF inj] bytes [of pubkey] have "commitment_bytes cr pubkey = l @ r"
      by (simp add: allowlist_leaf_def)
    moreover have "length l = 32"
      by (rule tree_nodes_length [OF _ leaf32(1) inner(3)]) (use len in blast)
    moreover have "length r = 32"
      by (rule tree_nodes_length [OF _ leaf32(1) inner(4)]) (use len in blast)
    ultimately show ?thesis using len32 [of pubkey] by simp
  qed
qed

lemma w_two_keys:
  defines "keys \<equiv> [Commitment (WP 0 7), Commitment (WP 0 9)]"
  shows "inj_on (sha256 w_crypto) (allowlist_strings w_crypto keys (Commitment (WP 0 9))
           [allowlist_leaf w_crypto (Commitment (WP 0 7))] 1)"
    and "verify_merkle_proof w_crypto (allowlist_leaf w_crypto (Commitment (WP 0 9)))
           [allowlist_leaf w_crypto (Commitment (WP 0 7))] 1
           (merkle_root w_crypto (map (allowlist_leaf w_crypto) keys))"
proof -
  let ?strings = "[commitment_bytes w_crypto (Commitment (WP 0 7)),
    commitment_bytes w_crypto (Commitment (WP 0 9)),
    allowlist_leaf w_crypto (Commitment (WP 0 7)) @ allowlist_leaf w_crypto (Commitment (WP 0 9))]"
  have "distinct (map (sha256 w_crypto) ?strings)" by code_simp
  then have "inj_on (sha256 w_crypto) (set ?strings)" by (simp only: distinct_map)
  moreover have "allowlist_strings w_crypto keys (Commitment (WP 0 9))
      [allowlist_leaf w_crypto (Commitment (WP 0 7))] 1 = set ?strings"
    by (auto simp: allowlist_strings_def keys_def tree_pairs.simps Let_def)
  ultimately show "inj_on (sha256 w_crypto) (allowlist_strings w_crypto keys (Commitment (WP 0 9))
      [allowlist_leaf w_crypto (Commitment (WP 0 7))] 1)" by simp
  show "verify_merkle_proof w_crypto (allowlist_leaf w_crypto (Commitment (WP 0 9)))
      [allowlist_leaf w_crypto (Commitment (WP 0 7))] 1
      (merkle_root w_crypto (map (allowlist_leaf w_crypto) keys))"
    by (simp add: verify_merkle_proof_def merkle_root_def root_loop.simps keys_def)
qed

theorem allowlist_proof_sound_witness:
  "Commitment (WP 0 9) \<in> set [Commitment (WP 0 7), Commitment (WP 0 9)]"
proof (rule allowlist_proof_sound [OF w_compress_laws, where index = 1])
  show "\<forall>bs. length (sha256 w_crypto bs) = 32" by (simp add: w_crypto_def w_hash_def)
  then show "\<forall>x \<in> set [allowlist_leaf w_crypto (Commitment (WP 0 7))]. length x = 32"
    by (simp add: allowlist_leaf_def)
qed (simp_all only: w_two_keys not_Cons_self2 list.distinct simp_thms)

end
