(* ===== verification/Vesting.thy ===== *)
theory Vesting
  imports Genesis
begin

text \<open>
  The timelock of \<open>core/src/vesting.rs\<close> on the team and investor tranches, and the issuance
  schedule: what all block rewards and the genesis outputs add up to. Both are stated on the
  constants of \<open>Genesis\<close>.
\<close>

definition BLOCKS_PER_YEAR :: u64 where
  "BLOCKS_PER_YEAR = 3155760"

definition VESTING_CLIFF_BLOCKS :: u64 where
  "VESTING_CLIFF_BLOCKS = BLOCKS_PER_YEAR div 2"

definition VESTING_TRANCHE_INTERVAL_BLOCKS :: u64 where
  "VESTING_TRANCHE_INTERVAL_BLOCKS = BLOCKS_PER_YEAR div 4"

definition tranche_unlock_height :: "nat \<Rightarrow> u64" where
  "tranche_unlock_height tranche_index =
     VESTING_CLIFF_BLOCKS + of_nat tranche_index * VESTING_TRANCHE_INTERVAL_BLOCKS"

text \<open>One loop over a table: commitment and unlock height of each tranche.\<close>

definition locked_table ::
    "('p, 's) crypto \<Rightarrow> locked_output_data list \<Rightarrow> ('p commitment \<times> u64) list outcome" where
  "locked_table cr tranches =
     sequence_outcome
       (map (\<lambda>(i, data). bind_outcome (lod_commitment cr data)
               (\<lambda>c. Ret (c, tranche_unlock_height i)))
          (List.enumerate 0 tranches))"

definition locked_genesis_outputs ::
    "('p, 's) crypto \<Rightarrow> ('p commitment \<times> u64) list outcome" where
  "locked_genesis_outputs cr =
     bind_outcome (locked_table cr TEAM_TRANCHES) (\<lambda>team.
     bind_outcome (locked_table cr INVESTOR_TRANCHES) (\<lambda>investor.
       Ret (team @ investor)))"

text \<open>The scan over the locked list; \<open>locked\<close> is what \<open>locked_genesis_outputs\<close> returned.\<close>

definition spends_locked_output_early ::
    "('p commitment \<times> u64) list \<Rightarrow> 'p tx_input list \<Rightarrow> u64 \<Rightarrow> bool" where
  "spends_locked_output_early locked inputs block_height \<longleftrightarrow>
     list_ex (\<lambda>input. list_ex (\<lambda>(c, unlock_height).
       in_commitment input = c \<and> block_height < unlock_height) locked) inputs"


section \<open>The schedule of the timelock\<close>

lemma tranche_unlock_height_nat:
  assumes "i < 2 ^ 32"
  shows "unat (tranche_unlock_height i) = 1577880 + i * 788940"
proof -
  have "i < 2 ^ 64" using assms by simp
  then have i: "unat (of_nat i :: u64) = i" by (simp add: unat_of_nat_u64)
  have "1577880 + i * 788940 < 2 ^ 64" using assms by simp
  then show ?thesis
    unfolding tranche_unlock_height_def VESTING_CLIFF_BLOCKS_def
      VESTING_TRANCHE_INTERVAL_BLOCKS_def BLOCKS_PER_YEAR_def
    using i by (simp add: unat_word_ariths unat_div)
qed

lemma locked_table_total:
  assumes "list_all well_formed_data ts" and "list_all (decodable cr) ts"
  obtains xs where "locked_table cr ts = Ret xs" "length xs = length ts"
    "\<forall>i < length ts. lod_commitment cr (ts ! i) = Ret (fst (xs ! i)) \<and>
       snd (xs ! i) = tranche_unlock_height i"
proof -
  have "\<exists>x. lod_commitment cr d = Ret x" if "d \<in> set ts" for d
    using assms that by (auto simp: list_all_iff intro: build_locked_output_total [of d cr])
  then obtain c where c: "lod_commitment cr d = Ret (c d)" if "d \<in> set ts" for d
    by metis
  define xs where "xs = map (\<lambda>(i, d). (c d, tranche_unlock_height i)) (List.enumerate 0 ts)"
  have "map (\<lambda>(i, d). bind_outcome (lod_commitment cr d) (\<lambda>c. Ret (c, tranche_unlock_height i)))
      (List.enumerate 0 ts) = map Ret xs"
    by (auto simp: xs_def in_set_enumerate_eq c)
  then have "locked_table cr ts = Ret xs"
    by (simp add: locked_table_def)
  moreover have "\<forall>i < length ts. lod_commitment cr (ts ! i) = Ret (fst (xs ! i)) \<and>
       snd (xs ! i) = tranche_unlock_height i"
    by (simp add: xs_def c nth_enumerate_eq)
  moreover have "length xs = length ts" by (simp add: xs_def)
  ultimately show thesis using that by blast
qed

text \<open>When the hardcoded points decode, the locked list can be computed and holds fourteen entries:
  the seven team tranches and then the seven investor tranches, and tranche \<open>i\<close> of either table
  unlocks 6 + 3i months (of 262,980 blocks) after genesis, the last one after exactly two years.\<close>

theorem locked_genesis_outputs_schedule:
  assumes "list_all (decodable cr) (TEAM_TRANCHES @ INVESTOR_TRANCHES)"
  shows "\<exists>locked. locked_genesis_outputs cr = Ret locked \<and> length locked = 14 \<and>
    (\<forall>i < 14. lod_commitment cr ((TEAM_TRANCHES @ INVESTOR_TRANCHES) ! i) = Ret (fst (locked ! i)) \<and>
      unat (snd (locked ! i)) = 262980 * (6 + 3 * (i mod 7))) \<and>
    snd (locked ! 13) = 2 * BLOCKS_PER_YEAR"
proof -
  have len: "length TEAM_TRANCHES = 7" "length INVESTOR_TRANCHES = 7"
    by (simp_all add: TEAM_TRANCHES_def INVESTOR_TRANCHES_def)
  have wf: "list_all well_formed_data TEAM_TRANCHES" "list_all well_formed_data INVESTOR_TRANCHES"
    using well_formed_tables by (simp_all add: genesis_tables_def)
  from assms wf obtain xs where xs: "locked_table cr TEAM_TRANCHES = Ret xs" "length xs = 7"
      "\<forall>i < 7. lod_commitment cr (TEAM_TRANCHES ! i) = Ret (fst (xs ! i)) \<and>
         snd (xs ! i) = tranche_unlock_height i"
    by (auto simp: len elim: locked_table_total)
  from assms wf obtain ys where ys: "locked_table cr INVESTOR_TRANCHES = Ret ys" "length ys = 7"
      "\<forall>i < 7. lod_commitment cr (INVESTOR_TRANCHES ! i) = Ret (fst (ys ! i)) \<and>
         snd (ys ! i) = tranche_unlock_height i"
    by (auto simp: len elim: locked_table_total)
  have "lod_commitment cr ((TEAM_TRANCHES @ INVESTOR_TRANCHES) ! i) = Ret (fst ((xs @ ys) ! i)) \<and>
      unat (snd ((xs @ ys) ! i)) = 262980 * (6 + 3 * (i mod 7))" if "i < 14" for i
  proof (cases "i < 7")
    case True
    with xs len show ?thesis by (simp add: nth_append tranche_unlock_height_nat)
  next
    case False
    with that have "i - 7 < 7" "i mod 7 = i - 7" by (auto simp: mod_if)
    with False xs ys len show ?thesis by (simp add: nth_append tranche_unlock_height_nat)
  qed
  moreover have "snd ((xs @ ys) ! 13) = 2 * BLOCKS_PER_YEAR"
    using xs ys by (simp add: nth_append tranche_unlock_height_def VESTING_CLIFF_BLOCKS_def
        VESTING_TRANCHE_INTERVAL_BLOCKS_def BLOCKS_PER_YEAR_def)
  ultimately show ?thesis
    using xs ys by (intro exI [of _ "xs @ ys"]) (simp add: locked_genesis_outputs_def)
qed

lemma w_decodable: "well_formed_data d \<Longrightarrow> decodable w_crypto d"
  by (auto simp: well_formed_data_def decodable_def w_crypto_def w_decompress_def
      elim: hex_decode_total)

theorem locked_genesis_outputs_schedule_witness:
  "\<exists>locked. locked_genesis_outputs w_crypto = Ret locked \<and> length locked = 14 \<and>
     snd (locked ! 13) = 2 * BLOCKS_PER_YEAR"
proof -
  have "list_all (decodable w_crypto) (TEAM_TRANCHES @ INVESTOR_TRANCHES)"
    using well_formed_tables w_decodable
    by (auto simp: genesis_tables_def list_all_iff)
  from locked_genesis_outputs_schedule [OF this] show ?thesis by blast
qed


section \<open>Total issuance\<close>

lemma sum_by_period:
  fixes f :: "nat \<Rightarrow> nat"
  shows "(\<Sum>i < n * k. f (i div k)) = (\<Sum>j < n. k * f j)"
proof (cases "k = 0")
  case False
  have "sum (\<lambda>i. f (i div k)) {m * k ..< m * k + k} = k * f m" for m
  proof -
    have "i div k = m" if "i \<in> {m * k ..< m * k + k}" for i
      using that False by (simp add: div_nat_eqI algebra_simps)
    then show ?thesis by simp
  qed
  then show ?thesis
    by (simp flip: sum.nat_group)
qed simp

text \<open>All rewards ever paid from height 0 on, before the reward reaches zero.\<close>

lemma all_rewards: "(\<Sum>i < 126000000. (540 :: nat) div 2 ^ (i div 12600000)) = 13557600000"
proof -
  have "(\<Sum>i < 10 * 12600000. (540 :: nat) div 2 ^ (i div 12600000)) =
      (\<Sum>j < 10. 12600000 * ((540 :: nat) div 2 ^ j))"
    by (rule sum_by_period)
  also have "\<dots> = 13557600000" by (simp add: lessThan_nat_numeral)
  finally show ?thesis by simp
qed

lemma reward_zero: "126000000 \<le> i \<Longrightarrow> (540 :: nat) div 2 ^ (i div 12600000) = 0"
proof -
  assume "126000000 \<le> i"
  then have "10 \<le> i div 12600000" by simp
  then have "(2 :: nat) ^ 10 \<le> 2 ^ (i div 12600000)" by (rule power_increasing) simp
  then show ?thesis by (intro div_less) (simp add: less_le_trans)
qed

lemma reward_sum:
  "540 + (\<Sum>h = 1..n. (540 :: nat) div 2 ^ (h div 12600000)) =
     (\<Sum>h < Suc n. 540 div 2 ^ (h div 12600000))"
  by (simp add: lessThan_Suc_atMost atMost_atLeast0 sum.atLeast_Suc_atMost [of 0])

lemma issuance_nat:
  "540 + (\<Sum>h = 1..n. (540 :: nat) div 2 ^ (h div 12600000)) \<le> 13557600000"
  "125999999 \<le> n \<Longrightarrow> 540 + (\<Sum>h = 1..n. (540 :: nat) div 2 ^ (h div 12600000)) = 13557600000"
proof -
  let ?f = "\<lambda>h. (540 :: nat) div 2 ^ (h div 12600000)"
  have eq: "(\<Sum>h < Suc n. ?f h) = (\<Sum>h < 126000000. ?f h)" if "125999999 \<le> n" for n
    using that by (intro sum.mono_neutral_right) (auto simp: not_less reward_zero)
  show "125999999 \<le> n \<Longrightarrow> 540 + (\<Sum>h = 1..n. ?f h) = 13557600000"
    unfolding reward_sum by (simp only: eq all_rewards)
  show "540 + (\<Sum>h = 1..n. ?f h) \<le> 13557600000"
  proof (cases "125999999 \<le> n")
    case False
    then have "(\<Sum>h < Suc n. ?f h) \<le> (\<Sum>h < 126000000. ?f h)" by (intro sum_mono2) auto
    then show ?thesis unfolding reward_sum all_rewards .
  qed (simp only: reward_sum eq all_rewards)
qed

lemma unat_block_reward_of_nat:
  "h \<le> unat (tip :: u64) \<Longrightarrow> unat (block_reward_at (of_nat h)) = 540 div 2 ^ (h div 12600000)"
  using unat_u64_less [of tip] by (simp add: block_reward_nat unat_of_nat_u64)

lemma sum_rewards_nat:
  "(\<Sum>h = 1..unat (tip :: u64). unat (block_reward_at (of_nat h))) =
     (\<Sum>h = 1..unat tip. 540 div 2 ^ (h div 12600000))"
  by (intro sum.cong) (auto simp: unat_block_reward_of_nat)

text \<open>C17. The supply is capped: whatever the tip, everything minted at genesis and in the blocks up to it
  is at most 20,908,599,460, below the documented target of 21,000,000,000, and it is exactly that
  once the reward has run out. (The blocks' share is 13,557,600,000 less the reward of height 0,
  which no block pays.)\<close>

theorem issuance_capped:
  "unat GENESIS_TOTAL_MINTED + (\<Sum>h = 1..unat (tip :: u64). unat (block_reward_at (of_nat h))) \<le> 20908599460 \<and>
   20908599460 \<le> unat TOTAL_SUPPLY_TARGET \<and>
   (125999999 \<le> unat tip \<longrightarrow>
      unat GENESIS_TOTAL_MINTED + (\<Sum>h = 1..unat tip. unat (block_reward_at (of_nat h))) = 20908599460)"
  using issuance_nat [of "unat tip"] unfolding sum_rewards_nat
  by (simp add: tokenomics_defs)

theorem issuance_capped_witness:
  "unat GENESIS_TOTAL_MINTED + (\<Sum>h = 1..unat (130000000 :: u64). unat (block_reward_at (of_nat h)))
     = 20908599460"
  using issuance_capped [of 130000000] by simp

end
