(* ===== verification/Validators.thy ===== *)
theory Validators
  imports Vesting
begin

text \<open>
  The validator set of \<open>core/src/chain.rs\<close>: stake registrations and the weighted order in which
  validators take turns. The lemmas show when a registration is accepted, that the set stays
  duplicate free, above the minimum stake and below the cap, and that the priority order is a
  permutation of the set, wrap-around of the stake total included.
\<close>

record ('p, 's) validator =
  v_commitment :: "'p commitment"
  v_value :: u64
  v_proof :: "'s signature"

definition stake_registration_message :: "('p, 's) crypto \<Rightarrow> 'p commitment \<Rightarrow> u64 \<Rightarrow> byte list" where
  "stake_registration_message cr c value =
     bytes_of ''HazeStakeRegistration:'' @ commitment_bytes cr c @ u64_le value"

record ('p, 's) register_validator_op =
  rv_commitment :: "'p commitment"
  rv_value :: u64
  rv_proof :: "'s signature"

datatype validator_op_error = BelowMinStake | InvalidProof

definition MIN_VALIDATOR_STAKE :: u64 where
  "MIN_VALIDATOR_STAKE = 1"

definition MAX_ACTIVE_VALIDATORS :: nat where
  "MAX_ACTIVE_VALIDATORS = 1000"

text \<open>The key under which a stake signs: its commitment less the value part.\<close>

definition stake_pubkey ::
    "('p::ab_group_add, 's::comm_ring_1) crypto \<Rightarrow> 'p commitment \<Rightarrow> u64 \<Rightarrow> 'p commitment" where
  "stake_pubkey cr c value = Commitment (as_point c - smul cr (scalar_of_u64 value) (gen_B cr))"

definition register_validator_validate_standalone ::
    "('p::ab_group_add, 's::comm_ring_1) crypto \<Rightarrow> ('p, 's) register_validator_op \<Rightarrow>
       validator_op_error + unit" where
  "register_validator_validate_standalone cr op =
     (if rv_value op < MIN_VALIDATOR_STAKE then Inl BelowMinStake
      else if \<not> verify cr (rv_proof op)
             (stake_registration_message cr (rv_commitment op) (rv_value op))
             (stake_pubkey cr (rv_commitment op) (rv_value op))
      then Inl InvalidProof
      else Inr ())"

text \<open>\<open>iter().position(..)\<close>\<close>

fun position :: "('a \<Rightarrow> bool) \<Rightarrow> 'a list \<Rightarrow> nat option" where
  "position P [] = None"
| "position P (x # xs) = (if P x then Some 0 else map_option Suc (position P xs))"

definition try_register_validator ::
    "('p::ab_group_add, 's::comm_ring_1) crypto \<Rightarrow> ('p, 's) validator list \<Rightarrow> 'p commitment set \<Rightarrow>
       'p commitment \<Rightarrow> u64 \<Rightarrow> 's signature \<Rightarrow> ('p, 's) validator list option" where
  "try_register_validator cr validators utxos c value proof =
     (if register_validator_validate_standalone cr
           \<lparr>rv_commitment = c, rv_value = value, rv_proof = proof\<rparr> \<noteq> Inr () then None
      else if c \<notin> utxos then None
      else let is_new = \<not> list_ex (\<lambda>v. v_commitment v = c) validators in
      if is_new \<and> MAX_ACTIVE_VALIDATORS \<le> length validators then None
      else case position (\<lambda>v. v_commitment v = c) validators of
        Some pos \<Rightarrow>
          if v_value (validators ! pos) = value then None
          else Some (validators[pos := \<lparr>v_commitment = c, v_value = value, v_proof = proof\<rparr>])
      | None \<Rightarrow> Some (validators @ [\<lparr>v_commitment = c, v_value = value, v_proof = proof\<rparr>]))"


section \<open>Priority order\<close>

text \<open>The scan that subtracts stakes from the target; index 0 when it runs off the end.\<close>

fun stake_index :: "nat \<Rightarrow> u64 \<Rightarrow> ('p, 's) validator list \<Rightarrow> nat" where
  "stake_index i target [] = 0"
| "stake_index i target (v # vs) =
     (if target < v_value v then i else stake_index (i + 1) (target - v_value v) vs)"

definition select_index ::
    "('p, 's) crypto \<Rightarrow> u64 \<Rightarrow> hash32 \<Rightarrow> nat \<Rightarrow> ('p, 's) validator list \<Rightarrow> nat" where
  "select_index cr height prev_hash round pool =
     (let total_stake = sum_list (map v_value pool)
      in if total_stake = 0 then 0
      else let hash = sha256 cr (u64_le height @ prev_hash @
                 (if 0 < round then u64_le (of_nat round) else []));
               seed = from_le_bytes (take 8 hash);
               target = seed mod total_stake
           in stake_index 0 target pool)"

text \<open>\<open>for round in 0..pool.len()\<close>: the bound is read once, each round removes one entry; a removal
  out of range would panic.\<close>

fun priority_rounds ::
    "('p, 's) crypto \<Rightarrow> u64 \<Rightarrow> hash32 \<Rightarrow> nat list \<Rightarrow> ('p, 's) validator list \<Rightarrow>
       'p commitment list outcome" where
  "priority_rounds cr height prev_hash [] pool = Ret []"
| "priority_rounds cr height prev_hash (round # rounds) pool =
     (let i = select_index cr height prev_hash round pool in
      if i < length pool then
        bind_outcome
          (priority_rounds cr height prev_hash rounds (take i pool @ drop (i + 1) pool))
          (\<lambda>order. Ret (v_commitment (pool ! i) # order))
      else Panic)"

definition proposer_priority_order ::
    "('p::ab_group_add, 's::comm_ring_1) crypto \<Rightarrow> 's \<Rightarrow> ('p, 's) validator list \<Rightarrow> u64 \<Rightarrow> hash32 \<Rightarrow>
       'p commitment list outcome" where
  "proposer_priority_order cr genesis_blinding active_validators height prev_hash =
     (if active_validators = [] then Ret [commitment_new cr 1000000 genesis_blinding]
      else priority_rounds cr height prev_hash [0..<length active_validators] active_validators)"

definition select_proposer ::
    "('p::ab_group_add, 's::comm_ring_1) crypto \<Rightarrow> 's \<Rightarrow> ('p, 's) validator list \<Rightarrow> u64 \<Rightarrow> hash32 \<Rightarrow>
       'p commitment outcome" where
  "select_proposer cr genesis_blinding active_validators height prev_hash =
     bind_outcome (proposer_priority_order cr genesis_blinding active_validators height prev_hash)
       (\<lambda>order. case order of [] \<Rightarrow> Panic | c # _ \<Rightarrow> Ret c)"


section \<open>Registrations\<close>

text \<open>What the chain keeps of its validator set.\<close>

definition validators_ok ::
    "('p::ab_group_add, 's::comm_ring_1) crypto \<Rightarrow> ('p, 's) validator list \<Rightarrow> bool" where
  "validators_ok cr vs \<longleftrightarrow>
     distinct (map v_commitment vs) \<and> length vs \<le> MAX_ACTIVE_VALIDATORS \<and>
     (\<forall>v \<in> set vs. MIN_VALIDATOR_STAKE \<le> v_value v \<and>
        verify cr (v_proof v) (stake_registration_message cr (v_commitment v) (v_value v))
          (stake_pubkey cr (v_commitment v) (v_value v)))"

lemma position_Some:
  "position P xs = Some i \<Longrightarrow> i < length xs \<and> P (xs ! i)"
  by (induction xs arbitrary: i) (auto split: if_splits)

lemma position_None: "position P xs = None \<longleftrightarrow> \<not> list_ex P xs"
  by (induction xs) auto

lemma validators_ok_filter: "validators_ok cr vs \<Longrightarrow> validators_ok cr (filter P vs)"
  by (auto simp: validators_ok_def distinct_map_filter intro: le_trans [OF length_filter_le])

lemma try_register_validator_ok:
  assumes "try_register_validator cr vs utxos c value proof = Some vs'" and "validators_ok cr vs"
  shows "validators_ok cr vs'" and "c \<in> utxos" and "v_commitment ` set vs' = insert c (v_commitment ` set vs)"
proof -
  define v where "v = \<lparr>v_commitment = c, v_value = value, v_proof = proof\<rparr>"
  note step = assms(1)[unfolded try_register_validator_def Let_def, folded v_def]
  from step show "c \<in> utxos" by (auto split: if_splits)
  have v: "v_commitment v = c" "MIN_VALIDATOR_STAKE \<le> v_value v"
      "verify cr (v_proof v) (stake_registration_message cr (v_commitment v) (v_value v))
        (stake_pubkey cr (v_commitment v) (v_value v))"
    using step by (auto simp: register_validator_validate_standalone_def v_def not_less
        split: if_splits)
  have "validators_ok cr vs' \<and> v_commitment ` set vs' = insert c (v_commitment ` set vs)"
  proof (cases "position (\<lambda>v. v_commitment v = c) vs")
    case None
    then have new: "\<not> list_ex (\<lambda>v. v_commitment v = c) vs" by (simp add: position_None)
    from None step have "vs' = vs @ [v]" by (auto split: if_splits)
    moreover from new step have "\<not> MAX_ACTIVE_VALIDATORS \<le> length vs" by (auto split: if_splits)
    ultimately show ?thesis
      using new assms(2) v
      by (auto simp: validators_ok_def list_ex_iff)
  next
    case (Some pos)
    with step have vs': "vs' = vs[pos := v]" by (auto split: if_splits)
    from position_Some [OF Some] have pos: "pos < length vs" "v_commitment (vs ! pos) = c" by auto
    then have same: "map v_commitment vs' = map v_commitment vs"
      using v(1) by (simp add: vs' map_update list_update_same_conv)
    have members: "w = v \<or> w \<in> set vs" if "w \<in> set vs'" for w
      using that set_update_subset_insert [of vs pos v] by (auto simp: vs')
    have "validators_ok cr vs'"
      unfolding validators_ok_def same
    proof (intro conjI ballI)
      fix w assume "w \<in> set vs'"
      then show "MIN_VALIDATOR_STAKE \<le> v_value w"
          "verify cr (v_proof w) (stake_registration_message cr (v_commitment w) (v_value w))
            (stake_pubkey cr (v_commitment w) (v_value w))"
        using members [of w] v assms(2) by (auto simp: validators_ok_def)
    qed (use assms(2) in \<open>simp_all add: validators_ok_def vs'\<close>)
    moreover have "v_commitment ` set vs' = v_commitment ` set vs"
      using arg_cong [OF same, of set] by simp
    moreover have "c \<in> v_commitment ` set vs" using pos by force
    ultimately show ?thesis by (simp add: insert_absorb)
  qed
  then show "validators_ok cr vs'" and "v_commitment ` set vs' = insert c (v_commitment ` set vs)"
    by blast+
qed

text \<open>A registration that is accepted leaves the validator set well formed: no two entries for one
  output, never more than the cap, every entry at least the minimum stake and carrying a proof of
  ownership that verifies; it adds exactly the registered output, which is unspent.\<close>

theorem try_register_validator_keeps_ok:
  assumes "try_register_validator cr vs utxos c value proof = Some vs'" and "validators_ok cr vs"
  shows "validators_ok cr vs' \<and> c \<in> utxos \<and>
     v_commitment ` set vs' = insert c (v_commitment ` set vs)"
  using try_register_validator_ok [OF assms] by blast

theorem try_register_validator_keeps_ok_witness:
  "validators_ok w_crypto
     [\<lparr>v_commitment = commitment_new w_crypto 7 3, v_value = 7, v_proof = \<lparr>sig_s = 0, sig_e = 1\<rparr>\<rparr>]"
proof -
  have "try_register_validator w_crypto [] {commitment_new w_crypto 7 3}
      (commitment_new w_crypto 7 3) 7 \<lparr>sig_s = 0, sig_e = 1\<rparr> =
    Some [\<lparr>v_commitment = commitment_new w_crypto 7 3, v_value = 7, v_proof = \<lparr>sig_s = 0, sig_e = 1\<rparr>\<rparr>]"
    by (simp add: try_register_validator_def register_validator_validate_standalone_def
        MIN_VALIDATOR_STAKE_def MAX_ACTIVE_VALIDATORS_def w_eval)
  from try_register_validator_keeps_ok [OF this] show ?thesis by (simp add: validators_ok_def)
qed

text \<open>Whoever knows the blinding of an output can register it.\<close>

lemma stake_pubkey_commitment:
  "module_laws cr \<Longrightarrow>
     stake_pubkey cr (commitment_new cr value r) value = Commitment (smul cr r (gen_B_blinding cr))"
  by (simp add: stake_pubkey_def commitment_new_def)

text \<open>The holder of an unspent output with a positive value can always register it while the set is
  below the cap: a signature by the output's blinding factor is an accepted proof, and the new
  validator is appended.\<close>

theorem register_own_stake:
  fixes cr :: "('p::ab_group_add, 's::comm_ring_1) crypto" and k :: 's
  assumes "module_laws cr" and "commitment_new cr value r \<in> utxos" and "value \<noteq> 0"
    and "length vs < MAX_ACTIVE_VALIDATORS"
    and "commitment_new cr value r \<notin> v_commitment ` set vs"
  defines "proof \<equiv> sign cr k (stake_registration_message cr (commitment_new cr value r) value) r"
  shows "try_register_validator cr vs utxos (commitment_new cr value r) value proof =
     Some (vs @ [\<lparr>v_commitment = commitment_new cr value r, v_value = value, v_proof = proof\<rparr>])"
proof -
  have "verify cr proof (stake_registration_message cr (commitment_new cr value r) value)
      (stake_pubkey cr (commitment_new cr value r) value)"
    using sign_verify_excess [OF assms(1)]
    by (simp add: proof_def stake_pubkey_commitment assms(1) commitment_new_zero)
  moreover have "\<not> list_ex (\<lambda>v. v_commitment v = commitment_new cr value r) vs"
    using assms(5) by (force simp: list_ex_iff)
  ultimately show ?thesis
    using assms(2-4)
    by (simp add: try_register_validator_def register_validator_validate_standalone_def
        MIN_VALIDATOR_STAKE_def position_None [THEN iffD2] not_less)
qed

theorem register_own_stake_witness:
  "try_register_validator w_crypto [] {commitment_new w_crypto 7 3} (commitment_new w_crypto 7 3) 7
     (sign w_crypto 11 (stake_registration_message w_crypto (commitment_new w_crypto 7 3) 7) 3) \<noteq> None"
  using register_own_stake [OF w_module_laws, of 7 3 "{commitment_new w_crypto 7 3}" "[]" 11]
  by (simp add: MAX_ACTIVE_VALIDATORS_def)


section \<open>The priority order is a permutation\<close>

lemma stake_index_bound: "vs \<noteq> [] \<Longrightarrow> stake_index i target vs < i + length vs"
proof (induction vs arbitrary: i target)
  case (Cons v vs)
  then show ?case
    using Cons.IH [of "Suc i" "target - v_value v"] by (cases "vs = []") auto
qed simp

lemma select_index_bound: "pool \<noteq> [] \<Longrightarrow> select_index cr height prev_hash round pool < length pool"
  using stake_index_bound [of pool 0] by (auto simp: select_index_def Let_def)

lemma mset_remove_nth: "i < length xs \<Longrightarrow> mset xs = add_mset (xs ! i) (mset (take i xs @ drop (i + 1) xs))"
  by (metis Suc_eq_plus1 id_take_nth_drop mset_append mset.simps(2) union_mset_add_mset_right)

lemma priority_rounds_permutation:
  "length rounds = length pool \<Longrightarrow>
     \<exists>order. priority_rounds cr height prev_hash rounds pool = Ret order \<and>
       mset order = image_mset v_commitment (mset pool)"
proof (induction rounds arbitrary: pool)
  case (Cons round rounds)
  let ?i = "select_index cr height prev_hash round pool"
  from Cons.prems have "pool \<noteq> []" by auto
  then have i: "?i < length pool" by (rule select_index_bound)
  moreover from i Cons.prems have "length rounds = length (take ?i pool @ drop (?i + 1) pool)" by simp
  from Cons.IH [OF this] obtain order where
      "priority_rounds cr height prev_hash rounds (take ?i pool @ drop (?i + 1) pool) = Ret order"
      "mset order = image_mset v_commitment (mset (take ?i pool @ drop (?i + 1) pool))"
    by blast
  ultimately show ?case
    using mset_remove_nth [OF i] by (simp add: Let_def)
qed simp

text \<open>The proposer order for any height is a permutation of the active validators (so every one of them
  gets a turn as fallback and \<open>select_proposer\<close> never panics), even when the total stake wraps
  around 64 bits; with no validator it is the genesis validator alone.\<close>

theorem proposer_priority_order_permutation:
  "\<exists>order. proposer_priority_order cr blinding vs height prev_hash = Ret order \<and> order \<noteq> [] \<and>
     mset order = (if vs = [] then {#commitment_new cr 1000000 blinding#} else mset (map v_commitment vs)) \<and>
     select_proposer cr blinding vs height prev_hash = Ret (hd order)"
proof (cases "vs = []")
  case False
  from priority_rounds_permutation [of "[0..<length vs]" vs cr height prev_hash] obtain order where
      order: "priority_rounds cr height prev_hash [0..<length vs] vs = Ret order"
        "mset order = image_mset v_commitment (mset vs)"
    by auto
  then have "order \<noteq> []" using False by auto
  with order False show ?thesis
    by (auto simp: proposer_priority_order_def select_proposer_def split: list.splits)
qed (simp add: proposer_priority_order_def select_proposer_def)

end
