(* ===== verification/Block.thy ===== *)
theory Block
  imports Collections Validators
begin

text \<open>
  Blocks of \<open>core/src/block.rs\<close> and the genesis block of \<open>core/src/genesis.rs\<close>. The header hash
  covers every header field; the lemmas show that it commits to the header, and what the genesis
  block holds. \<open>codec\<close> bundles the bincode serialisers the roots and the launch messages use, \<open>env\<close>
  the values a node computes from its constants and environment when it starts.
\<close>

record ('p, 's) block_header =
  bh_height :: u64
  bh_prev_hash :: hash32
  bh_total_kernel_offset :: 's
  bh_nonce :: u64
  bh_timestamp :: u64
  bh_validator_commitment :: "'p commitment"
  bh_validator_signature :: "'s signature"
  bh_name_registry_root :: hash32
  bh_chain_id :: u64
  bh_asset_registry_root :: hash32
  bh_collection_registry_root :: hash32

definition header_bytes :: "('p, 's) crypto \<Rightarrow> ('p, 's) block_header \<Rightarrow> byte list" where
  "header_bytes cr h =
     u64_le (bh_height h) @ bh_prev_hash h @ scalar_bytes cr (bh_total_kernel_offset h) @
     u64_le (bh_nonce h) @ u64_le (bh_timestamp h) @
     commitment_bytes cr (bh_validator_commitment h) @
     scalar_bytes cr (sig_s (bh_validator_signature h)) @
     scalar_bytes cr (sig_e (bh_validator_signature h)) @
     bh_name_registry_root h @ u64_le (bh_chain_id h) @ bh_asset_registry_root h @
     bh_collection_registry_root h"

definition header_hash :: "('p, 's) crypto \<Rightarrow> ('p, 's) block_header \<Rightarrow> hash32" where
  "header_hash cr h = sha256 cr (header_bytes cr h)"

record ('p, 's) block =
  b_header :: "('p, 's) block_header"
  b_body :: "('p, 's) transaction"
  b_name_ops :: "('p, 's) register_name_op list"
  b_transfer_ops :: "('p, 's) transfer_name_op list"
  b_mint_ops :: "('p, 's) mint_asset_op list"
  b_transfer_asset_ops :: "('p, 's) transfer_asset_op list"
  b_launch_collection_ops :: "('p, 's) launch_collection_op list"
  b_validator_ops :: "('p, 's) register_validator_op list"

definition block_reward :: "u64 \<Rightarrow> u64" where
  "block_reward height = (if height = 0 then GENESIS_TOTAL_MINTED else block_reward_at height)"

definition block_validate :: "('p::ab_group_add, 's::comm_ring_1) crypto \<Rightarrow> ('p, 's) block \<Rightarrow> bool" where
  "block_validate cr b =
     validate_with_reward cr (b_body b) (block_reward (bh_height (b_header b)))"


section \<open>The genesis block\<close>

record 'p codec =
  ser_name :: "'p name_record \<Rightarrow> byte list"
  ser_asset :: "'p asset_record \<Rightarrow> byte list"
  ser_collection :: "'p collection_record \<Rightarrow> byte list"
  ser_phases :: "mint_phase list \<Rightarrow> byte list"

text \<open>\<open>k\<close> is the nonce drawn for the validator kernel's signature.\<close>

definition genesis_block ::
    "('p::ab_group_add, 's::comm_ring_1) crypto \<Rightarrow> 'p codec \<Rightarrow> string option \<Rightarrow> 's \<Rightarrow>
       ('p, 's) block outcome" where
  "genesis_block cr cd env_var k =
     bind_outcome (genesis_validator_blinding cr env_var) (\<lambda>blinding.
     let validator_commitment = commitment_new cr 1000000 blinding;
         validator_output = \<lparr>out_commitment = validator_commitment,
           out_proof = range_prove cr 1000000 blinding, out_note = []\<rparr>;
         validator_excess_blinding = 0 - blinding;
         validator_kernel = \<lparr>excess = commitment_new cr 0 validator_excess_blinding, fee = 0,
           kernel_sig = sign cr k (u64_le 0) validator_excess_blinding\<rparr>
     in
     bind_outcome (sequence_outcome (map (build_locked_output cr) TEAM_TRANCHES)) (\<lambda>team.
     bind_outcome (sequence_outcome (map (build_locked_output cr) INVESTOR_TRANCHES)) (\<lambda>investor.
     bind_outcome (build_locked_output cr AIRDROP_OUTPUT) (\<lambda>airdrop.
     bind_outcome (build_locked_output cr TREASURY_OUTPUT) (\<lambda>treasury.
     let built = team @ investor @ [airdrop, treasury] in
     Ret \<lparr>b_header = \<lparr>bh_height = 0, bh_prev_hash = zero_hash, bh_total_kernel_offset = 0, bh_nonce = 0,
            bh_timestamp = 0, bh_validator_commitment = validator_commitment,
            bh_validator_signature = \<lparr>sig_s = 0, sig_e = 0\<rparr>,
            bh_name_registry_root = compute_registry_root cr (ser_name cd) Mapping.empty,
            bh_chain_id = CHAIN_ID,
            bh_asset_registry_root = compute_asset_registry_root cr (ser_asset cd) Mapping.empty,
            bh_collection_registry_root =
              compute_collection_registry_root cr (ser_collection cd) Mapping.empty\<rparr>,
          b_body = \<lparr>tx_inputs = [], tx_outputs = validator_output # map fst built,
            tx_kernels = validator_kernel # map snd built\<rparr>,
          b_name_ops = [], b_transfer_ops = [], b_mint_ops = [], b_transfer_asset_ops = [],
          b_launch_collection_ops = [], b_validator_ops = []\<rparr>)))))"

text \<open>What the node derives from its constants and environment.\<close>

record ('p, 's) env =
  en_codec :: "'p codec"
  en_blinding :: 's
  en_locked :: "('p commitment \<times> u64) list"

definition make_env ::
    "('p, 's::comm_ring_1) crypto \<Rightarrow> 'p codec \<Rightarrow> string option \<Rightarrow> ('p, 's) env outcome" where
  "make_env cr cd env_var =
     bind_outcome (genesis_validator_blinding cr env_var) (\<lambda>blinding.
     bind_outcome (locked_genesis_outputs cr) (\<lambda>locked.
       Ret \<lparr>en_codec = cd, en_blinding = blinding, en_locked = locked\<rparr>))"


section \<open>Properties\<close>

text \<open>The fixed-width fields of a header: hashes and roots are arrays of 32 bytes.\<close>

definition header_wf :: "('p, 's) block_header \<Rightarrow> bool" where
  "header_wf h \<longleftrightarrow> length (bh_prev_hash h) = 32 \<and> length (bh_name_registry_root h) = 32 \<and>
     length (bh_asset_registry_root h) = 32 \<and> length (bh_collection_registry_root h) = 32"

lemma scalar_bytes_inject: "scalar_laws cr \<Longrightarrow> scalar_bytes cr a = scalar_bytes cr b \<longleftrightarrow> a = b"
  unfolding scalar_laws_def by (metis option.inject)

lemma header_bytes_inject:
  assumes "compress_laws cr" and "scalar_laws cr" and "header_wf h" and "header_wf h'"
  shows "header_bytes cr h = header_bytes cr h' \<longleftrightarrow> h = h'"
proof
  have len: "length (commitment_bytes cr c) = 32" "length (scalar_bytes cr a) = 32" for c a
    using assms by (simp_all add: length_commitment_bytes scalar_laws_def)
  assume "header_bytes cr h = header_bytes cr h'"
  then show "h = h'"
    using assms(3,4) unfolding header_bytes_def header_wf_def
    by (auto simp: append_eq_append_conv len commitment_bytes_inject [OF assms(1)]
        scalar_bytes_inject [OF assms(2)])
qed simp

text \<open>A block hash commits to the whole header: two headers with the same hash are equal, unless
  SHA-256 collides on their encodings. In particular blocks of different networks, heights,
  parents or registry states never share a hash.\<close>

theorem header_hash_commits:
  assumes "compress_laws cr" and "scalar_laws cr" and "header_wf h" and "header_wf h'"
    and "inj_on (sha256 cr) {header_bytes cr h, header_bytes cr h'}"
    and "header_hash cr h = header_hash cr h'"
  shows "h = h'"
  using assms header_bytes_inject [OF assms(1-4)]
  by (auto simp: header_hash_def dest: inj_onD)

text \<open>The block hash says nothing about the body: a block with another body, other stake registrations or
  other transfers has the same hash, and therefore also the same proposer signature.\<close>

theorem header_hash_ignores_body:
  "header_hash cr (b_header (b\<lparr>b_body := body', b_name_ops := names', b_transfer_ops := transfers',
      b_mint_ops := mints', b_transfer_asset_ops := asset_transfers',
      b_launch_collection_ops := launches', b_validator_ops := validators'\<rparr>)) =
   header_hash cr (b_header b)"
  by simp

definition sample_header :: "u64 \<Rightarrow> (wpoint, u64) block_header" where
  "sample_header height = \<lparr>bh_height = height, bh_prev_hash = zero_hash, bh_total_kernel_offset = 0,
     bh_nonce = 0, bh_timestamp = 5, bh_validator_commitment = Commitment (WP 7 3),
     bh_validator_signature = \<lparr>sig_s = 0, sig_e = 1\<rparr>, bh_name_registry_root = zero_hash, bh_chain_id = 1,
     bh_asset_registry_root = zero_hash, bh_collection_registry_root = zero_hash\<rparr>"

theorem header_hash_commits_witness:
  "header_hash (w_crypto\<lparr>sha256 := take 32\<rparr>) (sample_header 1) \<noteq>
   header_hash (w_crypto\<lparr>sha256 := take 32\<rparr>) (sample_header 2)"
proof
  let ?cr = "w_crypto\<lparr>sha256 := take 32\<rparr>"
  assume eq: "header_hash ?cr (sample_header 1) = header_hash ?cr (sample_header 2)"
  have start: "take 8 (header_bytes ?cr (sample_header n)) = u64_le n" for n
    by (simp add: header_bytes_def sample_header_def)
  have "inj_on (sha256 ?cr) {header_bytes ?cr (sample_header 1), header_bytes ?cr (sample_header 2)}"
  proof -
    have "take 32 (header_bytes ?cr (sample_header 1)) \<noteq> take 32 (header_bytes ?cr (sample_header 2))"
    proof
      assume "take 32 (header_bytes ?cr (sample_header 1)) = take 32 (header_bytes ?cr (sample_header 2))"
      then have "take 8 (take 32 (header_bytes ?cr (sample_header 1))) =
          take 8 (take 32 (header_bytes ?cr (sample_header 2)))" by (rule arg_cong)
      then have "u64_le 1 = u64_le 2" by (simp add: start)
      then show False unfolding u64_le_inject by simp
    qed
    then show ?thesis by (auto simp: inj_on_def)
  qed
  moreover have "compress_laws ?cr" "scalar_laws ?cr"
    using w_compress_laws w_scalar_laws by (simp_all add: compress_laws_def scalar_laws_def)
  ultimately show False
    using header_hash_commits [of ?cr "sample_header 1" "sample_header 2"] eq
    by (simp add: header_wf_def sample_header_def)
qed

lemma build_all_total:
  assumes "list_all well_formed_data ds" and "list_all (decodable cr) ds"
  obtains built where "sequence_outcome (map (build_locked_output cr) ds) = Ret built"
    "map (build_locked_output cr) ds = map Ret built"
    "map (lod_commitment cr) ds = map (Ret \<circ> out_commitment \<circ> fst) built"
    "list_all (\<lambda>(out, k). fee k = 0) built"
proof -
  have "\<exists>built. map (build_locked_output cr) ds = map Ret built \<and>
      map (lod_commitment cr) ds = map (Ret \<circ> out_commitment \<circ> fst) built \<and>
      list_all (\<lambda>(out, k). fee k = 0) built"
    using assms
  proof (induction ds)
    case (Cons d ds)
    then obtain built where built: "map (build_locked_output cr) ds = map Ret built"
        "map (lod_commitment cr) ds = map (Ret \<circ> out_commitment \<circ> fst) built"
        "list_all (\<lambda>(out, k). fee k = 0) built"
      by auto
    from Cons.prems have "well_formed_data d" "decodable cr d" by simp_all
    then obtain c pr ex s e where "lod_commitment cr d = Ret c"
        "build_locked_output cr d =
           Ret (\<lparr>out_commitment = c, out_proof = RangeProof pr, out_note = []\<rparr>,
                \<lparr>excess = ex, fee = 0, kernel_sig = \<lparr>sig_s = s, sig_e = e\<rparr>\<rparr>)"
      by (rule build_locked_output_total)
    with built show ?case
      by (intro exI [of _ "(\<lparr>out_commitment = c, out_proof = RangeProof pr, out_note = []\<rparr>,
        \<lparr>excess = ex, fee = 0, kernel_sig = \<lparr>sig_s = s, sig_e = e\<rparr>\<rparr>) # built"]) simp
  qed simp
  with that show thesis by (auto simp: sequence_outcome_Ret)
qed

lemma table_values:
  "lod_value TEAM_TRANCHES_0 = TEAM_TRANCHE_VALUE"
  "lod_value TEAM_TRANCHES_1 = TEAM_TRANCHE_VALUE"
  "lod_value TEAM_TRANCHES_2 = TEAM_TRANCHE_VALUE"
  "lod_value TEAM_TRANCHES_3 = TEAM_TRANCHE_VALUE"
  "lod_value TEAM_TRANCHES_4 = TEAM_TRANCHE_VALUE"
  "lod_value TEAM_TRANCHES_5 = TEAM_TRANCHE_VALUE"
  "lod_value TEAM_TRANCHES_6 = TEAM_TRANCHE_VALUE"
  "lod_value INVESTOR_TRANCHES_0 = INVESTOR_TRANCHE_VALUE"
  "lod_value INVESTOR_TRANCHES_1 = INVESTOR_TRANCHE_VALUE"
  "lod_value INVESTOR_TRANCHES_2 = INVESTOR_TRANCHE_VALUE"
  "lod_value INVESTOR_TRANCHES_3 = INVESTOR_TRANCHE_VALUE"
  "lod_value INVESTOR_TRANCHES_4 = INVESTOR_TRANCHE_VALUE"
  "lod_value INVESTOR_TRANCHES_5 = INVESTOR_TRANCHE_VALUE"
  "lod_value INVESTOR_TRANCHES_6 = INVESTOR_TRANCHE_VALUE"
  "lod_value AIRDROP_OUTPUT = AIRDROP_ALLOCATION" "lod_value TREASURY_OUTPUT = TREASURY_ALLOCATION"
  by (simp_all only: table_defs locked_output_data.select_convs)

lemma genesis_values:
  "1000000 + sum_list (map lod_value genesis_tables) = GENESIS_TOTAL_MINTED"
  "length genesis_tables = 16"
  by (simp_all add: genesis_tables_def TEAM_TRANCHES_def INVESTOR_TRANCHES_def table_values
      tokenomics_defs)

text \<open>When the environment variable is unset or well formed and the hardcoded points and proofs are
  accepted by the external decoders, building the genesis block does not panic: it mints, with
  no input and no fee, the validator's stake of 1,000,000 followed by the sixteen table outputs in
  order, and the values of these seventeen outputs add up to \<open>GENESIS_TOTAL_MINTED\<close>.\<close>

theorem genesis_block_mints:
  fixes cr :: "('p::ab_group_add, 's::comm_ring_1) crypto"
  assumes "genesis_validator_blinding cr env_var = Ret blinding"
    and "list_all (decodable cr) genesis_tables"
  shows "\<exists>b. genesis_block cr cd env_var k = Ret b \<and> bh_height (b_header b) = 0 \<and>
    bh_chain_id (b_header b) = CHAIN_ID \<and> tx_inputs (b_body b) = [] \<and>
    length (tx_kernels (b_body b)) = 17 \<and> list_all (\<lambda>kn. fee kn = 0) (tx_kernels (b_body b)) \<and>
    map Ret (map out_commitment (tx_outputs (b_body b))) =
      Ret (commitment_new cr 1000000 blinding) # map (lod_commitment cr) genesis_tables \<and>
    1000000 + sum_list (map lod_value genesis_tables) = GENESIS_TOTAL_MINTED"
proof -
  have wf: "list_all well_formed_data genesis_tables" by (rule well_formed_tables)
  have parts: "list_all well_formed_data TEAM_TRANCHES" "list_all (decodable cr) TEAM_TRANCHES"
      "list_all well_formed_data INVESTOR_TRANCHES" "list_all (decodable cr) INVESTOR_TRANCHES"
      "list_all well_formed_data [AIRDROP_OUTPUT, TREASURY_OUTPUT]"
      "list_all (decodable cr) [AIRDROP_OUTPUT, TREASURY_OUTPUT]"
    using wf assms(2) by (simp_all add: genesis_tables_def)
  obtain team where team: "sequence_outcome (map (build_locked_output cr) TEAM_TRANCHES) = Ret team"
      "map (lod_commitment cr) TEAM_TRANCHES = map (Ret \<circ> out_commitment \<circ> fst) team"
      "list_all (\<lambda>(out, k). fee k = 0) team"
    by (rule build_all_total [OF parts(1,2)])
  obtain inv where inv: "sequence_outcome (map (build_locked_output cr) INVESTOR_TRANCHES) = Ret inv"
      "map (lod_commitment cr) INVESTOR_TRANCHES = map (Ret \<circ> out_commitment \<circ> fst) inv"
      "list_all (\<lambda>(out, k). fee k = 0) inv"
    by (rule build_all_total [OF parts(3,4)])
  obtain two where
      two: "map (build_locked_output cr) [AIRDROP_OUTPUT, TREASURY_OUTPUT] = map Ret two"
      "map (lod_commitment cr) [AIRDROP_OUTPUT, TREASURY_OUTPUT] = map (Ret \<circ> out_commitment \<circ> fst) two"
      "list_all (\<lambda>(out, k). fee k = 0) two"
    by (rule build_all_total [OF parts(5,6)])
  from two(1) obtain airdrop treasury where at: "two = [airdrop, treasury]"
      "build_locked_output cr AIRDROP_OUTPUT = Ret airdrop"
      "build_locked_output cr TREASURY_OUTPUT = Ret treasury"
    by (auto simp: map_eq_Cons_conv)
  let ?built = "team @ inv @ two"
  have coms: "map (lod_commitment cr) genesis_tables = map (Ret \<circ> out_commitment \<circ> fst) ?built"
    using team(2) inv(2) two(2) by (simp add: genesis_tables_def)
  have "length (map (lod_commitment cr) genesis_tables) = 16"
    by (simp only: length_map genesis_values(2))
  then have "length ?built = 16" by (simp only: coms length_map)
  moreover have "list_all (\<lambda>kn. fee kn = 0) (map snd ?built)"
    using team(3) inv(3) two(3) by (auto simp: list_all_iff)
  ultimately show ?thesis
    using genesis_values(1) coms unfolding genesis_block_def assms(1) team(1) inv(1) at(2,3)
    by (simp add: Let_def at(1) comp_def)
qed

theorem genesis_block_mints_witness:
  "\<exists>b. genesis_block w_crypto
     \<lparr>ser_name = \<lambda>_. [], ser_asset = \<lambda>_. [], ser_collection = \<lambda>_. [], ser_phases = \<lambda>_. []\<rparr> None 1 = Ret b \<and>
     length (tx_kernels (b_body b)) = 17"
proof -
  have "list_all (decodable w_crypto) genesis_tables"
    using well_formed_tables w_decodable by (auto simp: list_all_iff)
  moreover have "genesis_validator_blinding w_crypto None = Ret 42"
    by (simp add: genesis_validator_blinding_def scalar_of_u64_def)
  ultimately show ?thesis
    using genesis_block_mints [of w_crypto None 42] by blast
qed

end
