(* ===== verification/Chain_State.thy ===== *)
theory Chain_State
  imports Block
begin

text \<open>
  The chain state of \<open>core/src/chain.rs\<close> and \<open>ChainState::apply_linear_block\<close>. The function first
  decides, without touching the state, whether a block is acceptable (\<open>validate_block\<close>, one
  definition per numbered step of the source), building the candidate registries on the way, and
  then commits (\<open>commit_block\<close>, one definition per loop). An early \<open>return None\<close> is \<open>None\<close> of the
  option monad; the indexing \<open>candidate_registry[&op.name]\<close>, which panics on a missing key, is
  \<open>index\<close> in the outcome type.
\<close>

section \<open>State\<close>

text \<open>Bookkeeping of horizon pruning (\<open>core/src/compaction.rs\<close>).\<close>

record block_prune_meta =
  pm_pruned_inputs :: u32
  pm_pruned_outputs :: u32

type_synonym mint_key = "string \<times> u32 \<times> byte list"

record ('p, 's) chain_state =
  cs_utxos :: "'p commitment set"
  cs_kernels :: "('p, 's) tx_kernel list"
  cs_kernel_excesses :: "'p commitment set"
  cs_current_height :: u64
  cs_last_block_hash :: hash32
  cs_active_validators :: "('p, 's) validator list"
  cs_blocks :: "(hash32, ('p, 's) block) mapping"
  cs_validator_snapshots :: "(u64, ('p, 's) validator list) mapping"
  cs_name_registry :: "(string, 'p name_record) mapping"
  cs_transfer_snapshots :: "(u64, (string \<times> 'p name_record) list) mapping"
  cs_asset_registry :: "(string, 'p asset_record) mapping"
  cs_asset_transfer_snapshots :: "(u64, (string \<times> 'p asset_record) list) mapping"
  cs_collection_registry :: "(string, 'p collection_record) mapping"
  cs_collection_mint_counts :: "(mint_key, u32) mapping"
  cs_prune_meta :: "(hash32, block_prune_meta) mapping"

definition chain_new :: "('p, 's) chain_state" where
  "chain_new = \<lparr>cs_utxos = {}, cs_kernels = [], cs_kernel_excesses = {}, cs_current_height = 0,
     cs_last_block_hash = zero_hash, cs_active_validators = [], cs_blocks = Mapping.empty,
     cs_validator_snapshots = Mapping.empty, cs_name_registry = Mapping.empty,
     cs_transfer_snapshots = Mapping.empty, cs_asset_registry = Mapping.empty,
     cs_asset_transfer_snapshots = Mapping.empty, cs_collection_registry = Mapping.empty,
     cs_collection_mint_counts = Mapping.empty, cs_prune_meta = Mapping.empty\<rparr>"

record ('p, 's) applied_delta =
  ad_block :: "('p, 's) block"
  ad_spent_commitments :: "'p commitment list"
  ad_new_outputs :: "'p tx_output list"
  ad_new_kernels :: "('p, 's) tx_kernel list"
  ad_validator_snapshot :: "u64 \<times> ('p, 's) validator list"
  ad_active_validators_after :: "('p, 's) validator list"
  ad_new_names :: "(string \<times> 'p name_record) list"
  ad_transferred_names :: "(string \<times> 'p name_record) list"
  ad_new_assets :: "(string \<times> 'p asset_record) list"
  ad_transferred_assets :: "(string \<times> 'p asset_record) list"
  ad_new_collections :: "(string \<times> 'p collection_record) list"
  ad_collection_mints :: "mint_key list"
  ad_height :: u64
  ad_tip_hash :: hash32

definition register_validator ::
    "('p::ab_group_add, 's::comm_ring_1) crypto \<Rightarrow> 'p commitment \<Rightarrow> u64 \<Rightarrow> 's signature \<Rightarrow>
       ('p, 's) chain_state \<Rightarrow> bool \<times> ('p, 's) chain_state" where
  "register_validator cr c value proof st =
     (case try_register_validator cr (cs_active_validators st) (cs_utxos st) c value proof of
        None \<Rightarrow> (False, st)
      | Some vs \<Rightarrow> (True, st\<lparr>cs_active_validators := vs\<rparr>))"


section \<open>Validation: header, proposer and body (steps 1 to 4)\<close>

definition connects :: "('p, 's) chain_state \<Rightarrow> ('p, 's) block_header \<Rightarrow> bool" where
  "connects st h \<longleftrightarrow>
     (if bh_height h \<noteq> cs_current_height st + 1
      then bh_height h = 0 \<and> cs_current_height st = 0 \<and> cs_last_block_hash st = zero_hash
      else bh_prev_hash h = cs_last_block_hash st)"

definition proposer_stake ::
    "('p::ab_group_add, 's::comm_ring_1) crypto \<Rightarrow> ('p, 's) env \<Rightarrow> ('p, 's) chain_state \<Rightarrow>
       'p commitment \<Rightarrow> u64 option" where
  "proposer_stake cr en st proposer =
     (if cs_active_validators st = []
      then if proposer \<noteq> commitment_new cr 1000000 (en_blinding en) then None else Some 1000000
      else map_option v_value (find (\<lambda>v. v_commitment v = proposer) (cs_active_validators st)))"

text \<open>The header without its signature, the message the proposer signs.\<close>

definition unsigned_header :: "('p, 's::comm_ring_1) block_header \<Rightarrow> ('p, 's) block_header" where
  "unsigned_header h = h\<lparr>bh_validator_signature := \<lparr>sig_s = 0, sig_e = 0\<rparr>\<rparr>"

definition proposer_ok ::
    "('p::ab_group_add, 's::comm_ring_1) crypto \<Rightarrow> ('p, 's) env \<Rightarrow> ('p, 's) chain_state \<Rightarrow>
       ('p, 's) block_header \<Rightarrow> bool" where
  "proposer_ok cr en st h =
     (case proposer_stake cr en st (bh_validator_commitment h) of
        None \<Rightarrow> False
      | Some stake_value \<Rightarrow>
          bh_height h = 0 \<or>
          verify cr (bh_validator_signature h) (header_hash cr (unsigned_header h))
            (stake_pubkey cr (bh_validator_commitment h) stake_value))"

definition body_ok ::
    "('p::ab_group_add, 's::comm_ring_1) crypto \<Rightarrow> ('p, 's) env \<Rightarrow> ('p, 's) chain_state \<Rightarrow>
       ('p, 's) block \<Rightarrow> bool" where
  "body_ok cr en st b \<longleftrightarrow>
     (let h = b_header b in
      validate_with_reward cr (b_body b) (block_reward (bh_height h)) \<and>
      bh_chain_id h = CHAIN_ID \<and>
      \<not> spends_locked_output_early (en_locked en) (tx_inputs (b_body b)) (bh_height h) \<and>
      (0 < bh_height h \<longrightarrow> list_all (\<lambda>i. in_commitment i \<in> cs_utxos st) (tx_inputs (b_body b))))"

definition fee_kernels :: "('p, 's) block \<Rightarrow> ('p, 's) tx_kernel list" where
  "fee_kernels b = concat (map (tx_kernels \<circ> rn_fee_payment) (b_name_ops b)) @
     concat (map (tx_kernels \<circ> ma_fee_payment) (b_mint_ops b))"

definition block_kernel_excesses :: "('p, 's) block \<Rightarrow> 'p commitment set" where
  "block_kernel_excesses b = excess ` set (tx_kernels (b_body b)) \<union> excess ` set (fee_kernels b)"


section \<open>Validation: names (steps 4b and 4c)\<close>

text \<open>Fee inputs must be unspent and not yet claimed in this block.\<close>

definition claim_inputs ::
    "'p commitment set \<Rightarrow> 'p tx_input list \<Rightarrow> 'p commitment set \<Rightarrow> 'p commitment set option" where
  "claim_inputs utxos inputs spent =
     fold_option (\<lambda>i spent. if in_commitment i \<notin> utxos \<or> in_commitment i \<in> spent then None
       else Some (insert (in_commitment i) spent)) inputs spent"

record 'p name_acc =
  na_spent :: "'p commitment set"
  na_names :: "string set"
  na_registry :: "(string, 'p name_record) mapping"

definition registered_name :: "u64 \<Rightarrow> ('p, 's) register_name_op \<Rightarrow> 'p name_record" where
  "registered_name height op = \<lparr>nr_name = rn_name op, nr_owner_pubkey = rn_owner_pubkey op,
     nr_resolves_to = rn_resolves_to op, nr_registered_at_block = height\<rparr>"

definition name_op_step ::
    "('p::ab_group_add, 's::comm_ring_1) crypto \<Rightarrow> ('p, 's) chain_state \<Rightarrow> u64 \<Rightarrow>
       ('p, 's) register_name_op \<Rightarrow> 'p name_acc \<Rightarrow> 'p name_acc option" where
  "name_op_step cr st height op acc = do {
     check (register_name_validate_standalone cr op = Inr ());
     check (\<not> contains_key (cs_name_registry st) (rn_name op) \<and> rn_name op \<notin> na_names acc);
     spent \<leftarrow> claim_inputs (cs_utxos st) (tx_inputs (rn_fee_payment op)) (na_spent acc);
     Some \<lparr>na_spent = spent, na_names = insert (rn_name op) (na_names acc),
       na_registry = Mapping.update (rn_name op) (registered_name height op) (na_registry acc)\<rparr>
   }"

definition transferred_name :: "('p, 's) transfer_name_op \<Rightarrow> 'p name_record \<Rightarrow> 'p name_record" where
  "transferred_name op current = \<lparr>nr_name = tn_name op, nr_owner_pubkey = tn_new_owner_pubkey op,
     nr_resolves_to = tn_new_resolves_to op,
     nr_registered_at_block = nr_registered_at_block current\<rparr>"

definition transfer_op_step ::
    "('p::ab_group_add, 's::comm_ring_1) crypto \<Rightarrow> ('p, 's) chain_state \<Rightarrow>
       ('p, 's) transfer_name_op \<Rightarrow> 'p name_acc \<Rightarrow> 'p name_acc option" where
  "transfer_op_step cr st op acc = do {
     check (tn_name op \<notin> na_names acc);
     current \<leftarrow> Mapping.lookup (cs_name_registry st) (tn_name op);
     check (verify cr (tn_signature op)
       (transfer_name_message cr (tn_name op) (tn_new_owner_pubkey op) (tn_new_resolves_to op))
       (nr_owner_pubkey current));
     Some (acc\<lparr>na_names := insert (tn_name op) (na_names acc),
       na_registry := Mapping.update (tn_name op) (transferred_name op current) (na_registry acc)\<rparr>)
   }"

definition validate_names ::
    "('p::ab_group_add, 's::comm_ring_1) crypto \<Rightarrow> ('p, 's) env \<Rightarrow> ('p, 's) chain_state \<Rightarrow>
       ('p, 's) block \<Rightarrow> 'p name_acc option" where
  "validate_names cr en st b = do {
     acc \<leftarrow> fold_option (name_op_step cr st (bh_height (b_header b))) (b_name_ops b)
       \<lparr>na_spent = in_commitment ` set (tx_inputs (b_body b)), na_names = {},
         na_registry = cs_name_registry st\<rparr>;
     acc \<leftarrow> fold_option (transfer_op_step cr st) (b_transfer_ops b) acc;
     check (compute_registry_root cr (ser_name (en_codec en)) (na_registry acc) =
       bh_name_registry_root (b_header b));
     Some acc
   }"


section \<open>Validation: collection launches (step 4c-prep)\<close>

record 'p launch_acc =
  la_collections :: "string set"
  la_registry :: "(string, 'p collection_record) mapping"

definition launched_collection :: "u64 \<Rightarrow> ('p, 's) launch_collection_op \<Rightarrow> 'p collection_record" where
  "launched_collection height op = \<lparr>cl_collection_id = lc_collection_id op,
     cl_creator_pubkey = lc_creator_pubkey op, cl_name = lc_name op, cl_symbol = lc_symbol op,
     cl_metadata = lc_metadata op, cl_phases = lc_phases op, cl_launched_at_block = height,
     cl_royalty_bps = lc_royalty_bps op\<rparr>"

definition launch_op_step ::
    "('p::ab_group_add, 's::comm_ring_1) crypto \<Rightarrow> ('p, 's) env \<Rightarrow> ('p, 's) chain_state \<Rightarrow> u64 \<Rightarrow>
       ('p, 's) launch_collection_op \<Rightarrow> 'p launch_acc \<Rightarrow> 'p launch_acc option" where
  "launch_op_step cr en st height op acc = do {
     check (launch_collection_validate_standalone cr (ser_phases (en_codec en)) op = Inr ());
     check (\<not> contains_key (cs_collection_registry st) (lc_collection_id op) \<and>
       lc_collection_id op \<notin> la_collections acc);
     Some \<lparr>la_collections = insert (lc_collection_id op) (la_collections acc),
       la_registry =
         Mapping.update (lc_collection_id op) (launched_collection height op) (la_registry acc)\<rparr>
   }"

definition validate_launches ::
    "('p::ab_group_add, 's::comm_ring_1) crypto \<Rightarrow> ('p, 's) env \<Rightarrow> ('p, 's) chain_state \<Rightarrow>
       ('p, 's) block \<Rightarrow> (string, 'p collection_record) mapping option" where
  "validate_launches cr en st b = do {
     acc \<leftarrow> fold_option (launch_op_step cr en st (bh_height (b_header b))) (b_launch_collection_ops b)
       \<lparr>la_collections = {}, la_registry = cs_collection_registry st\<rparr>;
     check (compute_collection_registry_root cr (ser_collection (en_codec en)) (la_registry acc) =
       bh_collection_registry_root (b_header b));
     Some (la_registry acc)
   }"


section \<open>Validation: mints (step 4d)\<close>

record 'p mint_acc =
  mc_spent :: "'p commitment set"
  mc_assets :: "string set"
  mc_registry :: "(string, 'p asset_record) mapping"
  mc_counts :: "(mint_key, u32) mapping"
  mc_mints :: "mint_key list"

text \<open>\<open>slice.get(i)\<close>\<close>

definition nth_option :: "'a list \<Rightarrow> nat \<Rightarrow> 'a option" where
  "nth_option xs i = (if i < length xs then Some (xs ! i) else None)"

definition kernel_known :: "('p, 's) chain_state \<Rightarrow> 'p commitment set \<Rightarrow> 'p commitment \<Rightarrow> bool" where
  "kernel_known st block_excesses c \<longleftrightarrow> c \<in> cs_kernel_excesses st \<or> c \<in> block_excesses"

definition mint_count_key ::
    "('p, 's) crypto \<Rightarrow> string \<Rightarrow> u32 \<Rightarrow> ('p, 's) mint_asset_op \<Rightarrow> mint_key" where
  "mint_count_key cr collection_id phase_index op =
     (collection_id, phase_index, commitment_bytes cr (ma_owner_pubkey op))"

definition on_allowlist ::
    "('p, 's) crypto \<Rightarrow> ('p, 's) mint_asset_op \<Rightarrow> mint_phase \<Rightarrow> bool" where
  "on_allowlist cr op phase \<longleftrightarrow>
     (case ph_allowlist_merkle_root phase of None \<Rightarrow> True
      | Some root \<Rightarrow>
         (case (ma_allowlist_proof op, ma_allowlist_leaf_index op) of
            (Some proof, Some leaf_index) \<Rightarrow>
              verify_merkle_proof cr (allowlist_leaf cr (ma_owner_pubkey op)) proof (unat leaf_index) root
          | _ \<Rightarrow> False))"

text \<open>The drop rules for a mint tagged with a collection and a phase.\<close>

definition collection_mint_step ::
    "('p::ab_group_add, 's::comm_ring_1) crypto \<Rightarrow> (string, 'p collection_record) mapping \<Rightarrow> u64 \<Rightarrow>
       ('p, 's) mint_asset_op \<Rightarrow> string \<Rightarrow> u32 \<Rightarrow> 'p mint_acc \<Rightarrow> 'p mint_acc option" where
  "collection_mint_step cr collections timestamp op collection_id phase_index acc = do {
     collection \<leftarrow> Mapping.lookup collections collection_id;
     phase \<leftarrow> nth_option (cl_phases collection) (unat phase_index);
     check (\<not> (timestamp < ph_start_time phase \<or> ph_end_time phase \<le> timestamp));
     check (on_allowlist cr op phase);
     required_excess \<leftarrow> ma_required_kernel_excess op;
     creator_sig \<leftarrow> ma_creator_signature op;
     check (verify cr creator_sig
       (collection_approval_message cr (ma_asset_id op) collection_id phase_index required_excess
          (ma_owner_pubkey op)) (cl_creator_pubkey collection));
     let count_key = mint_count_key cr collection_id phase_index op;
     let current_count = (case Mapping.lookup (mc_counts acc) count_key of None \<Rightarrow> 0 | Some n \<Rightarrow> n);
     check (\<not> ph_per_wallet_limit phase \<le> current_count);
     Some (acc\<lparr>mc_counts := Mapping.update count_key (current_count + 1) (mc_counts acc),
       mc_mints := mc_mints acc @ [count_key]\<rparr>)
   }"

definition minted_asset :: "u64 \<Rightarrow> ('p, 's) mint_asset_op \<Rightarrow> 'p asset_record" where
  "minted_asset height op = \<lparr>ar_asset_id = ma_asset_id op, ar_owner_pubkey = ma_owner_pubkey op,
     ar_metadata = ma_metadata op, ar_minted_at_block = height,
     ar_collection_id = ma_collection_id op\<rparr>"

definition mint_op_step ::
    "('p::ab_group_add, 's::comm_ring_1) crypto \<Rightarrow> ('p, 's) chain_state \<Rightarrow>
       (string, 'p collection_record) mapping \<Rightarrow> 'p commitment set \<Rightarrow> ('p, 's) block_header \<Rightarrow>
       ('p, 's) mint_asset_op \<Rightarrow> 'p mint_acc \<Rightarrow> 'p mint_acc option" where
  "mint_op_step cr st collections block_excesses h op acc = do {
     check (mint_asset_validate_standalone cr op = Inr ());
     check (\<not> contains_key (cs_asset_registry st) (ma_asset_id op) \<and> ma_asset_id op \<notin> mc_assets acc);
     spent \<leftarrow> claim_inputs (cs_utxos st) (tx_inputs (ma_fee_payment op)) (mc_spent acc);
     acc \<leftarrow> (case (ma_collection_id op, ma_phase_index op) of
        (Some collection_id, Some phase_index) \<Rightarrow>
          collection_mint_step cr collections (bh_timestamp h) op collection_id phase_index acc
      | _ \<Rightarrow> Some acc);
     check (case ma_required_kernel_excess op of None \<Rightarrow> True
       | Some required_excess \<Rightarrow> kernel_known st block_excesses required_excess);
     Some (acc\<lparr>mc_spent := spent, mc_assets := insert (ma_asset_id op) (mc_assets acc),
       mc_registry := Mapping.update (ma_asset_id op) (minted_asset (bh_height h) op) (mc_registry acc)\<rparr>)
   }"


section \<open>Validation: asset transfers and stakes (steps 4e)\<close>

definition transferred_asset :: "('p, 's) transfer_asset_op \<Rightarrow> 'p asset_record \<Rightarrow> 'p asset_record" where
  "transferred_asset op current = \<lparr>ar_asset_id = ta_asset_id op,
     ar_owner_pubkey = ta_new_owner_pubkey op, ar_metadata = ar_metadata current,
     ar_minted_at_block = ar_minted_at_block current,
     ar_collection_id = ar_collection_id current\<rparr>"

text \<open>The royalty of a sale, when the asset's collection charges one.\<close>

definition royalty_ok ::
    "('p, 's) chain_state \<Rightarrow> 'p commitment set \<Rightarrow> ('p, 's) transfer_asset_op \<Rightarrow> 'p asset_record \<Rightarrow> bool" where
  "royalty_ok st block_excesses op current \<longleftrightarrow>
     (if ta_required_kernel_excess op = None then True
      else case ar_collection_id current of None \<Rightarrow> True
      | Some collection_id \<Rightarrow>
         (case Mapping.lookup (cs_collection_registry st) collection_id of None \<Rightarrow> True
          | Some collection \<Rightarrow>
              if 0 < cl_royalty_bps collection
              then (case ta_required_royalty_kernel_excess op of None \<Rightarrow> False
                    | Some required_royalty \<Rightarrow> kernel_known st block_excesses required_royalty)
              else True))"

definition transfer_asset_op_step ::
    "('p::ab_group_add, 's::comm_ring_1) crypto \<Rightarrow> ('p, 's) chain_state \<Rightarrow> 'p commitment set \<Rightarrow>
       ('p, 's) transfer_asset_op \<Rightarrow> 'p mint_acc \<Rightarrow> 'p mint_acc option" where
  "transfer_asset_op_step cr st block_excesses op acc = do {
     check (ta_asset_id op \<notin> mc_assets acc);
     current \<leftarrow> Mapping.lookup (cs_asset_registry st) (ta_asset_id op);
     check (verify cr (ta_signature op)
       (transfer_asset_message cr (ta_asset_id op) (ta_new_owner_pubkey op)
          (ta_required_kernel_excess op) (ta_required_royalty_kernel_excess op))
       (ar_owner_pubkey current));
     check (case ta_required_kernel_excess op of None \<Rightarrow> True
       | Some required_excess \<Rightarrow> kernel_known st block_excesses required_excess);
     check (royalty_ok st block_excesses op current);
     Some (acc\<lparr>mc_assets := insert (ta_asset_id op) (mc_assets acc),
       mc_registry := Mapping.update (ta_asset_id op) (transferred_asset op current) (mc_registry acc)\<rparr>)
   }"

definition validate_assets ::
    "('p::ab_group_add, 's::comm_ring_1) crypto \<Rightarrow> ('p, 's) env \<Rightarrow> ('p, 's) chain_state \<Rightarrow>
       (string, 'p collection_record) mapping \<Rightarrow> 'p commitment set \<Rightarrow> ('p, 's) block \<Rightarrow>
       'p mint_acc option" where
  "validate_assets cr en st collections spent b = do {
     let excesses = block_kernel_excesses b;
     acc \<leftarrow> fold_option (mint_op_step cr st collections excesses (b_header b)) (b_mint_ops b)
       \<lparr>mc_spent = spent, mc_assets = {}, mc_registry = cs_asset_registry st,
         mc_counts = cs_collection_mint_counts st, mc_mints = []\<rparr>;
     acc \<leftarrow> fold_option (transfer_asset_op_step cr st excesses) (b_transfer_asset_ops b) acc;
     check (compute_asset_registry_root cr (ser_asset (en_codec en)) (mc_registry acc) =
       bh_asset_registry_root (b_header b));
     Some acc
   }"

definition validate_stakes ::
    "('p::ab_group_add, 's::comm_ring_1) crypto \<Rightarrow> ('p, 's) chain_state \<Rightarrow>
       ('p, 's) register_validator_op list \<Rightarrow> ('p, 's) validator list option" where
  "validate_stakes cr st ops =
     fold_option (\<lambda>op vs. try_register_validator cr vs (cs_utxos st)
       (rv_commitment op) (rv_value op) (rv_proof op)) ops (cs_active_validators st)"

record ('p, 's) candidates =
  cd_names :: "(string, 'p name_record) mapping"
  cd_collections :: "(string, 'p collection_record) mapping"
  cd_assets :: "(string, 'p asset_record) mapping"
  cd_counts :: "(mint_key, u32) mapping"
  cd_mints :: "mint_key list"
  cd_validators :: "('p, 's) validator list"

definition validate_block ::
    "('p::ab_group_add, 's::comm_ring_1) crypto \<Rightarrow> ('p, 's) env \<Rightarrow> ('p, 's) chain_state \<Rightarrow>
       ('p, 's) block \<Rightarrow> ('p, 's) candidates option" where
  "validate_block cr en st b = do {
     check (connects st (b_header b));
     check (proposer_ok cr en st (b_header b));
     check (body_ok cr en st b);
     names \<leftarrow> validate_names cr en st b;
     collections \<leftarrow> validate_launches cr en st b;
     assets \<leftarrow> validate_assets cr en st collections (na_spent names) b;
     validators \<leftarrow> validate_stakes cr st (b_validator_ops b);
     Some \<lparr>cd_names = na_registry names, cd_collections = collections, cd_assets = mc_registry assets,
       cd_counts = mc_counts assets, cd_mints = mc_mints assets, cd_validators = validators\<rparr>
   }"


section \<open>Commit (steps 5 to 8)\<close>

fun fold_outcome :: "('a \<Rightarrow> 'b \<Rightarrow> 'b outcome) \<Rightarrow> 'a list \<Rightarrow> 'b \<Rightarrow> 'b outcome" where
  "fold_outcome f [] acc = Ret acc"
| "fold_outcome f (x # xs) acc = bind_outcome (f x acc) (fold_outcome f xs)"

text \<open>\<open>map[&key]\<close>\<close>

definition index :: "('k, 'v) mapping \<Rightarrow> 'k \<Rightarrow> 'v outcome" where
  "index m k = expect (Mapping.lookup m k)"

record 'p utxo_work =
  uw_utxos :: "'p commitment set"
  uw_spent :: "'p commitment list"
  uw_outputs :: "'p tx_output list"

text \<open>Steps 6 and 7 for the body.\<close>

definition spend_body_inputs ::
    "u64 \<Rightarrow> 'p tx_input list \<Rightarrow> 'p commitment set \<times> ('p, 's) validator list \<times> 'p commitment list \<Rightarrow>
       'p commitment set \<times> ('p, 's) validator list \<times> 'p commitment list" where
  "spend_body_inputs height inputs acc =
     (if 0 < height
      then fold (\<lambda>i (utxos, validators, spent).
             (Set.remove (in_commitment i) utxos,
              filter (\<lambda>v. v_commitment v \<noteq> in_commitment i) validators,
              spent @ [in_commitment i])) inputs acc
      else acc)"

definition apply_fee_payment :: "('p, 's) transaction \<Rightarrow> 'p utxo_work \<Rightarrow> 'p utxo_work" where
  "apply_fee_payment tx w =
     (let w = fold (\<lambda>i w. w\<lparr>uw_utxos := Set.remove (in_commitment i) (uw_utxos w),
                uw_spent := uw_spent w @ [in_commitment i]\<rparr>) (tx_inputs tx) w
      in fold (\<lambda>out w. w\<lparr>uw_utxos := insert (out_commitment out) (uw_utxos w),
                uw_outputs := uw_outputs w @ [out]\<rparr>) (tx_outputs tx) w)"

type_synonym ('v) registry_work = "(string, 'v) mapping \<times> (string \<times> 'v) list"

text \<open>Commit one fresh record, and commit one transfer remembering the record it replaces.\<close>

definition commit_new ::
    "(string, 'v) mapping \<Rightarrow> string \<Rightarrow> 'v registry_work \<Rightarrow> 'v registry_work outcome" where
  "commit_new candidate k rw =
     bind_outcome (index candidate k) (\<lambda>record.
       Ret (Mapping.update k record (fst rw), snd rw @ [(k, record)]))"

definition commit_transfer ::
    "(string, 'v) mapping \<Rightarrow> string \<Rightarrow> 'v registry_work \<Rightarrow> 'v registry_work outcome" where
  "commit_transfer candidate k rw =
     bind_outcome (index (fst rw) k) (\<lambda>old_record.
     bind_outcome (index candidate k) (\<lambda>new_record.
       Ret (Mapping.update k new_record (fst rw), snd rw @ [(k, old_record)])))"

definition apply_name_op ::
    "(string, 'p name_record) mapping \<Rightarrow> ('p, 's) register_name_op \<Rightarrow>
       'p utxo_work \<times> 'p name_record registry_work \<Rightarrow>
       ('p utxo_work \<times> 'p name_record registry_work) outcome" where
  "apply_name_op candidate op = (\<lambda>(w, rw).
     bind_outcome (commit_new candidate (rn_name op) rw) (\<lambda>rw.
       Ret (apply_fee_payment (rn_fee_payment op) w, rw)))"

definition apply_mint_op ::
    "(string, 'p asset_record) mapping \<Rightarrow> ('p, 's) mint_asset_op \<Rightarrow>
       'p utxo_work \<times> 'p asset_record registry_work \<Rightarrow>
       ('p utxo_work \<times> 'p asset_record registry_work) outcome" where
  "apply_mint_op candidate op = (\<lambda>(w, rw).
     bind_outcome (commit_new candidate (ma_asset_id op) rw) (\<lambda>rw.
       Ret (apply_fee_payment (ma_fee_payment op) w, rw)))"

definition commit_counts ::
    "(mint_key, u32) mapping \<Rightarrow> mint_key list \<Rightarrow> (mint_key, u32) mapping \<Rightarrow> (mint_key, u32) mapping outcome" where
  "commit_counts candidate keys counts =
     fold_outcome (\<lambda>k counts. bind_outcome (index candidate k) (\<lambda>n. Ret (Mapping.update k n counts)))
       keys counts"

text \<open>\<open>if !transferred.is_empty() { snapshots.insert(height, ..) }\<close>\<close>

definition record_snapshot ::
    "u64 \<Rightarrow> 'a list \<Rightarrow> (u64, 'a list) mapping \<Rightarrow> (u64, 'a list) mapping" where
  "record_snapshot height transferred snapshots =
     (if transferred = [] then snapshots else Mapping.update height transferred snapshots)"

definition new_kernels :: "('p, 's) block \<Rightarrow> ('p, 's) tx_kernel list" where
  "new_kernels b = tx_kernels (b_body b) @ fee_kernels b"

definition commit_block ::
    "('p::ab_group_add, 's::comm_ring_1) crypto \<Rightarrow> ('p, 's) block \<Rightarrow> ('p, 's) candidates \<Rightarrow>
       ('p, 's) chain_state \<Rightarrow> (('p, 's) chain_state \<times> ('p, 's) applied_delta) outcome" where
  "commit_block cr b cd st =
     (let height = bh_height (b_header b);
          (utxos, validators, spent) =
            spend_body_inputs height (tx_inputs (b_body b)) (cs_utxos st, cd_validators cd, []);
          w = \<lparr>uw_utxos = add_all (map out_commitment (tx_outputs (b_body b))) utxos,
                uw_spent = spent, uw_outputs = tx_outputs (b_body b)\<rparr>
      in
      bind_outcome (fold_outcome (apply_name_op (cd_names cd)) (b_name_ops b)
        (w, cs_name_registry st, [])) (\<lambda>(w, names, new_names).
      bind_outcome (fold_outcome (commit_transfer (cd_names cd)) (map tn_name (b_transfer_ops b))
        (names, [])) (\<lambda>(names, transferred_names).
      bind_outcome (fold_outcome (commit_new (cd_collections cd))
        (map lc_collection_id (b_launch_collection_ops b))
        (cs_collection_registry st, [])) (\<lambda>(collections, new_collections).
      bind_outcome (fold_outcome (apply_mint_op (cd_assets cd)) (b_mint_ops b)
        (w, cs_asset_registry st, [])) (\<lambda>(w, assets, new_assets).
      bind_outcome (commit_counts (cd_counts cd) (cd_mints cd) (cs_collection_mint_counts st)) (\<lambda>counts.
      bind_outcome (fold_outcome (commit_transfer (cd_assets cd)) (map ta_asset_id (b_transfer_asset_ops b))
        (assets, [])) (\<lambda>(assets, transferred_assets).
      let tip = header_hash cr (b_header b) in
      Ret (st\<lparr>cs_utxos := uw_utxos w,
              cs_kernels := cs_kernels st @ new_kernels b,
              cs_kernel_excesses := add_all (map excess (new_kernels b)) (cs_kernel_excesses st),
              cs_current_height := height,
              cs_last_block_hash := tip,
              cs_active_validators := validators,
              cs_blocks := Mapping.update tip b (cs_blocks st),
              cs_validator_snapshots :=
                Mapping.update height (cs_active_validators st) (cs_validator_snapshots st),
              cs_name_registry := names,
              cs_transfer_snapshots :=
                record_snapshot height transferred_names (cs_transfer_snapshots st),
              cs_asset_registry := assets,
              cs_asset_transfer_snapshots :=
                record_snapshot height transferred_assets (cs_asset_transfer_snapshots st),
              cs_collection_registry := collections,
              cs_collection_mint_counts := counts\<rparr>,
           \<lparr>ad_block = b, ad_spent_commitments = uw_spent w, ad_new_outputs = uw_outputs w,
             ad_new_kernels = new_kernels b, ad_validator_snapshot = (height, cs_active_validators st),
             ad_active_validators_after = validators, ad_new_names = new_names,
             ad_transferred_names = transferred_names, ad_new_assets = new_assets,
             ad_transferred_assets = transferred_assets, ad_new_collections = new_collections,
             ad_collection_mints = cd_mints cd, ad_height = height, ad_tip_hash = tip\<rparr>))))))))"

definition apply_linear_block ::
    "('p::ab_group_add, 's::comm_ring_1) crypto \<Rightarrow> ('p, 's) env \<Rightarrow> ('p, 's) block \<Rightarrow>
       ('p, 's) chain_state \<Rightarrow> (('p, 's) chain_state \<times> ('p, 's) applied_delta option) outcome" where
  "apply_linear_block cr en b st =
     (case validate_block cr en st b of
        None \<Rightarrow> Ret (st, None)
      | Some cd \<Rightarrow> bind_outcome (commit_block cr b cd st) (\<lambda>(st', delta). Ret (st', Some delta)))"

end
