(* ===== verification/Chain_Apply.thy ===== *)
theory Chain_Apply
  imports Chain_State
begin

text \<open>
  What \<open>apply_linear_block\<close> does. The five loops that validate registry operations share one contract,
  the locale \<open>op_loop\<close>: each accepted operation has a key not used before in the block and puts one
  record under it. From it follows that the commit phase never panics and installs exactly the
  candidate registries, so the whole function has the closed form \<open>applied_state\<close>. The properties
  of accepted blocks are read off that form.
\<close>

section \<open>The contract of the validation loops\<close>

locale op_loop =
  fixes step :: "'op \<Rightarrow> 'acc \<Rightarrow> 'acc option"
    and key :: "'op \<Rightarrow> string"
    and record_of :: "'op \<Rightarrow> 'r"
    and seen :: "'acc \<Rightarrow> string set"
    and cand :: "'acc \<Rightarrow> (string, 'r) mapping"
  assumes step_fresh: "step op acc = Some acc' \<Longrightarrow> key op \<notin> seen acc"
    and step_seen: "step op acc = Some acc' \<Longrightarrow> seen acc' = insert (key op) (seen acc)"
    and step_cand: "step op acc = Some acc' \<Longrightarrow> cand acc' = Mapping.update (key op) (record_of op) (cand acc)"
begin

lemma loop_effect:
  assumes "fold_option step ops acc = Some acc'"
  shows "distinct (map key ops)" and "set (map key ops) \<inter> seen acc = {}"
    and "seen acc' = seen acc \<union> set (map key ops)"
    and "cand acc' = insert_all (map (\<lambda>op. (key op, record_of op)) ops) (cand acc)"
proof -
  have "distinct (map key ops) \<and> set (map key ops) \<inter> seen acc = {} \<and>
      seen acc' = seen acc \<union> set (map key ops) \<and>
      cand acc' = insert_all (map (\<lambda>op. (key op, record_of op)) ops) (cand acc)"
    using assms
  proof (induction ops arbitrary: acc)
    case (Cons op ops)
    then obtain a where a: "step op acc = Some a" and rest: "fold_option step ops a = Some acc'"
      by (auto simp: bind_eq_Some_conv)
    from Cons.IH [OF rest] step_fresh [OF a] show ?case
      by (auto simp: step_seen [OF a] step_cand [OF a])
  qed simp
  then show "distinct (map key ops)" "set (map key ops) \<inter> seen acc = {}"
      "seen acc' = seen acc \<union> set (map key ops)"
      "cand acc' = insert_all (map (\<lambda>op. (key op, record_of op)) ops) (cand acc)"
    by blast+
qed

end

lemmas step_simps = bind_eq_Some_conv Let_def

interpretation name_loop: op_loop "name_op_step cr st height" rn_name "registered_name height"
    na_names na_registry
  for cr :: "('p::ab_group_add, 's::comm_ring_1) crypto" and st height
  by unfold_locales (auto simp: name_op_step_def step_simps split: if_splits)

interpretation transfer_loop: op_loop "transfer_op_step cr st" tn_name
    "\<lambda>op. transferred_name op (the (Mapping.lookup (cs_name_registry st) (tn_name op)))"
    na_names na_registry
  for cr :: "('p::ab_group_add, 's::comm_ring_1) crypto" and st
  by unfold_locales (auto simp: transfer_op_step_def step_simps split: if_splits)

interpretation launch_loop: op_loop "launch_op_step cr en st height" lc_collection_id
    "launched_collection height" la_collections la_registry
  for cr :: "('p::ab_group_add, 's::comm_ring_1) crypto" and en st height
  by unfold_locales (auto simp: launch_op_step_def step_simps split: if_splits)

lemma collection_mint_step_frame:
  assumes "collection_mint_step cr collections t op cid i acc = Some acc'"
  shows "mc_assets acc' = mc_assets acc" and "mc_registry acc' = mc_registry acc"
    and "mc_spent acc' = mc_spent acc"
  using assms by (auto simp: collection_mint_step_def step_simps split: if_splits)

interpretation mint_loop: op_loop "mint_op_step cr st collections excesses h" ma_asset_id
    "minted_asset (bh_height h)" mc_assets mc_registry
  for cr :: "('p::ab_group_add, 's::comm_ring_1) crypto" and st collections excesses h
  by unfold_locales
    (auto simp: mint_op_step_def step_simps collection_mint_step_frame split: if_splits option.splits)

interpretation transfer_asset_loop: op_loop "transfer_asset_op_step cr st excesses" ta_asset_id
    "\<lambda>op. transferred_asset op (the (Mapping.lookup (cs_asset_registry st) (ta_asset_id op)))"
    mc_assets mc_registry
  for cr :: "('p::ab_group_add, 's::comm_ring_1) crypto" and st excesses
  by unfold_locales (auto simp: transfer_asset_op_step_def step_simps split: if_splits option.splits)


section \<open>The commit loops\<close>

lemma commit_new_loop:
  "\<forall>k \<in> set ks. Mapping.lookup candidate k \<noteq> None \<Longrightarrow>
     fold_outcome (commit_new candidate) ks (reg, new) =
       Ret (insert_all (map (\<lambda>k. (k, the (Mapping.lookup candidate k))) ks) reg,
            new @ map (\<lambda>k. (k, the (Mapping.lookup candidate k))) ks)"
  by (induction ks arbitrary: reg new) (auto simp: commit_new_def index_def)

lemma commit_transfer_loop:
  "distinct ks \<Longrightarrow> \<forall>k \<in> set ks. Mapping.lookup candidate k \<noteq> None \<and> Mapping.lookup reg k \<noteq> None \<Longrightarrow>
     fold_outcome (commit_transfer candidate) ks (reg, old) =
       Ret (insert_all (map (\<lambda>k. (k, the (Mapping.lookup candidate k))) ks) reg,
            old @ map (\<lambda>k. (k, the (Mapping.lookup reg k))) ks)"
proof (induction ks arbitrary: reg old)
  case (Cons k ks)
  then obtain r s where "Mapping.lookup candidate k = Some r" "Mapping.lookup reg k = Some s" by auto
  moreover have "map (\<lambda>j. (j, the (Mapping.lookup (Mapping.update k r reg) j))) ks =
      map (\<lambda>j. (j, the (Mapping.lookup reg j))) ks"
    using Cons.prems(1) by (auto simp: map_simps)
  ultimately show ?case
    using Cons.IH [of "Mapping.update k r reg" "old @ [(k, s)]"] Cons.prems
    by (simp add: commit_transfer_def index_def map_simps)
qed simp

lemma apply_name_ops_loop:
  "fold_outcome (apply_name_op candidate) ops (w, rw) =
     bind_outcome (fold_outcome (commit_new candidate) (map rn_name ops) rw)
       (\<lambda>rw. Ret (fold apply_fee_payment (map rn_fee_payment ops) w, rw))"
  by (induction ops arbitrary: w rw)
    (simp_all add: apply_name_op_def)

lemma apply_mint_ops_loop:
  "fold_outcome (apply_mint_op candidate) ops (w, rw) =
     bind_outcome (fold_outcome (commit_new candidate) (map ma_asset_id ops) rw)
       (\<lambda>rw. Ret (fold apply_fee_payment (map ma_fee_payment ops) w, rw))"
  by (induction ops arbitrary: w rw)
    (simp_all add: apply_mint_op_def)


text \<open>The effect of fee payments on the working UTXO set.\<close>

definition spend_tx :: "('p, 's) transaction \<Rightarrow> 'p commitment set \<Rightarrow> 'p commitment set" where
  "spend_tx tx utxos = utxos - in_commitment ` set (tx_inputs tx) \<union> out_commitment ` set (tx_outputs tx)"

lemma apply_fee_payment_eq:
  "apply_fee_payment tx w = w\<lparr>uw_utxos := spend_tx tx (uw_utxos w),
     uw_spent := uw_spent w @ map in_commitment (tx_inputs tx),
     uw_outputs := uw_outputs w @ tx_outputs tx\<rparr>"
proof -
  have ins: "fold (\<lambda>i w. w\<lparr>uw_utxos := Set.remove (in_commitment i) (uw_utxos w),
      uw_spent := uw_spent w @ [in_commitment i]\<rparr>) is w =
    w\<lparr>uw_utxos := uw_utxos w - in_commitment ` set is,
      uw_spent := uw_spent w @ map in_commitment is\<rparr>" for "is" :: "'a tx_input list" and w
    by (induction "is" arbitrary: w) (simp_all add: Diff_insert2 [symmetric])
  have outs: "fold (\<lambda>out w. w\<lparr>uw_utxos := insert (out_commitment out) (uw_utxos w),
      uw_outputs := uw_outputs w @ [out]\<rparr>) os w =
    w\<lparr>uw_utxos := uw_utxos w \<union> out_commitment ` set os, uw_outputs := uw_outputs w @ os\<rparr>"
    for os :: "'a tx_output list" and w
    by (induction os arbitrary: w) auto
  show ?thesis
    unfolding apply_fee_payment_def Let_def ins outs by (simp add: spend_tx_def)
qed

lemma fold_apply_fee_payment:
  "fold apply_fee_payment txs w = w\<lparr>uw_utxos := fold spend_tx txs (uw_utxos w),
     uw_spent := uw_spent w @ map in_commitment (concat (map tx_inputs txs)),
     uw_outputs := uw_outputs w @ concat (map tx_outputs txs)\<rparr>"
  by (induction txs arbitrary: w) (simp_all add: apply_fee_payment_eq)

lemma spend_body_inputs_eq:
  "spend_body_inputs height inputs (utxos, vs, spent) =
     (if 0 < height
      then (utxos - in_commitment ` set inputs,
            filter (\<lambda>v. v_commitment v \<notin> in_commitment ` set inputs) vs,
            spent @ map in_commitment inputs)
      else (utxos, vs, spent))"
proof -
  have "fold (\<lambda>i (utxos, validators, spent).
        (Set.remove (in_commitment i) utxos, filter (\<lambda>v. v_commitment v \<noteq> in_commitment i) validators,
         spent @ [in_commitment i])) inputs (utxos, vs, spent) =
      (utxos - in_commitment ` set inputs,
       filter (\<lambda>v. v_commitment v \<notin> in_commitment ` set inputs) vs, spent @ map in_commitment inputs)"
    by (induction inputs arbitrary: utxos vs spent)
      (auto simp: conj_commute intro: filter_cong)
  then show ?thesis by (simp add: spend_body_inputs_def)
qed


section \<open>Candidates are what gets committed\<close>

text \<open>Committing the candidate record of every key touched gives the candidate registry.\<close>

lemma insert_all_append [simp]: "insert_all (xs @ ys) m = insert_all ys (insert_all xs m)"
  by (simp add: insert_all_def)

lemma insert_candidates:
  assumes "distinct (map fst kvs)" and "candidate = insert_all kvs base"
  shows "map (\<lambda>k. (k, the (Mapping.lookup candidate k))) (map fst kvs) = kvs"
proof -
  have "the (Mapping.lookup candidate k) = v" if "(k, v) \<in> set kvs" for k v
    using assms that by (simp add: lookup_insert_all map_of_is_SomeI)
  then show ?thesis by (auto simp: comp_def intro!: map_idI)
qed

lemma lookup_insert_all_mem:
  "distinct (map fst kvs) \<Longrightarrow> k \<in> fst ` set kvs \<Longrightarrow> Mapping.lookup (insert_all kvs m) k \<noteq> None"
  by (auto simp: lookup_insert_all split: option.splits dest: map_of_eq_None_iff [THEN iffD1])

text \<open>The counts a block's mints leave behind.\<close>

definition counts_extend :: "('k, 'n) mapping \<Rightarrow> 'k list \<Rightarrow> ('k, 'n) mapping \<Rightarrow> bool" where
  "counts_extend base mints counts \<longleftrightarrow>
     (\<forall>k \<in> set mints. Mapping.lookup counts k \<noteq> None) \<and>
     (\<forall>k. k \<notin> set mints \<longrightarrow> Mapping.lookup counts k = Mapping.lookup base k)"

lemma lookup_insert_all_map [map_simps]:
  "Mapping.lookup (insert_all (map (\<lambda>k. (k, f k)) ks) m) k =
     (if k \<in> set ks then Some (f k) else Mapping.lookup m k)"
  by (induction ks arbitrary: m) (auto simp: map_simps)

lemma commit_loop:
  "\<forall>k \<in> set ks. Mapping.lookup counts k \<noteq> None \<Longrightarrow>
     fold_outcome (\<lambda>k m. bind_outcome (index counts k) (\<lambda>n. Ret (Mapping.update k n m))) ks m =
       Ret (insert_all (map (\<lambda>k. (k, the (Mapping.lookup counts k))) ks) m)"
  by (induction ks arbitrary: m) (auto simp: index_def)

lemma commit_counts_eq:
  assumes "counts_extend base mints counts"
  shows "commit_counts counts mints base = Ret counts"
proof -
  have some: "\<forall>k \<in> set mints. Mapping.lookup counts k \<noteq> None"
      and other: "\<And>k. k \<notin> set mints \<Longrightarrow> Mapping.lookup counts k = Mapping.lookup base k"
    using assms unfolding counts_extend_def by blast+
  have "insert_all (map (\<lambda>k. (k, the (Mapping.lookup counts k))) mints) base = counts"
    using some other by (intro mapping_eqI) (simp add: map_simps)
  then show ?thesis
    by (simp only: commit_counts_def commit_loop [OF some])
qed

lemma counts_extend_step:
  "counts_extend base mints counts \<Longrightarrow> counts_extend base (mints @ [k]) (Mapping.update k n counts)"
  unfolding counts_extend_def by (simp add: map_simps)

lemma mint_op_step_counts:
  assumes "mint_op_step cr st collections excesses h op acc = Some acc'"
    and "counts_extend base (mc_mints acc) (mc_counts acc)"
  shows "counts_extend base (mc_mints acc') (mc_counts acc')"
  using assms
  by (auto simp: mint_op_step_def collection_mint_step_def step_simps counts_extend_step
      split: if_splits option.splits)

lemma transfer_asset_op_step_frame:
  assumes "transfer_asset_op_step cr st excesses op acc = Some acc'"
  shows "mc_mints acc' = mc_mints acc" and "mc_counts acc' = mc_counts acc"
    and "mc_spent acc' = mc_spent acc"
  using assms by (auto simp: transfer_asset_op_step_def step_simps split: if_splits option.splits)


section \<open>Inversion of validation\<close>

text \<open>The operations of a block as registry entries, in the order they are applied.\<close>

definition name_entries ::
    "('p, 's) chain_state \<Rightarrow> ('p, 's) block \<Rightarrow> (string \<times> 'p name_record) list" where
  "name_entries st b =
     map (\<lambda>op. (rn_name op, registered_name (bh_height (b_header b)) op)) (b_name_ops b) @
     map (\<lambda>op. (tn_name op, transferred_name op (the (Mapping.lookup (cs_name_registry st) (tn_name op)))))
       (b_transfer_ops b)"

definition asset_entries ::
    "('p, 's) chain_state \<Rightarrow> ('p, 's) block \<Rightarrow> (string \<times> 'p asset_record) list" where
  "asset_entries st b =
     map (\<lambda>op. (ma_asset_id op, minted_asset (bh_height (b_header b)) op)) (b_mint_ops b) @
     map (\<lambda>op. (ta_asset_id op, transferred_asset op (the (Mapping.lookup (cs_asset_registry st) (ta_asset_id op)))))
       (b_transfer_asset_ops b)"

definition collection_entries ::
    "('p, 's) block \<Rightarrow> (string \<times> 'p collection_record) list" where
  "collection_entries b =
     map (\<lambda>op. (lc_collection_id op, launched_collection (bh_height (b_header b)) op))
       (b_launch_collection_ops b)"

definition fee_payments :: "('p, 's) block \<Rightarrow> ('p, 's) transaction list" where
  "fee_payments b = map rn_fee_payment (b_name_ops b) @ map ma_fee_payment (b_mint_ops b)"

lemma claim_inputs_Some:
  "claim_inputs utxos inputs spent = Some spent' \<longleftrightarrow>
     distinct (map in_commitment inputs) \<and> in_commitment ` set inputs \<subseteq> utxos \<and>
     in_commitment ` set inputs \<inter> spent = {} \<and> spent' = spent \<union> in_commitment ` set inputs"
  unfolding claim_inputs_def by (induction inputs arbitrary: spent) (auto split: if_splits)

text \<open>Fee inputs claimed by a loop: unspent outputs, each claimed once and by nobody before.\<close>

definition claims :: "'p commitment set \<Rightarrow> 'p commitment set \<Rightarrow> 'p tx_input list \<Rightarrow> 'p commitment set \<Rightarrow> bool" where
  "claims utxos spent inputs spent' \<longleftrightarrow>
     distinct (map in_commitment inputs) \<and> in_commitment ` set inputs \<subseteq> utxos \<and>
     in_commitment ` set inputs \<inter> spent = {} \<and> spent' = spent \<union> in_commitment ` set inputs"

lemma claims_append:
  "claims utxos s xs s' \<Longrightarrow> claims utxos s' ys s'' \<Longrightarrow> claims utxos s (xs @ ys) s''"
  unfolding claims_def by auto

lemma name_ops_facts:
  "fold_option (name_op_step cr st height) ops acc = Some acc' \<Longrightarrow>
     claims (cs_utxos st) (na_spent acc) (concat (map (tx_inputs \<circ> rn_fee_payment) ops)) (na_spent acc') \<and>
     (\<forall>op \<in> set ops. register_name_validate_standalone cr op = Inr () \<and>
        Mapping.lookup (cs_name_registry st) (rn_name op) = None)"
proof (induction ops arbitrary: acc)
  case (Cons op ops)
  then obtain a where a: "name_op_step cr st height op acc = Some a"
      and rest: "fold_option (name_op_step cr st height) ops a = Some acc'"
    by (auto simp: bind_eq_Some_conv)
  from a have "claims (cs_utxos st) (na_spent acc) (tx_inputs (rn_fee_payment op)) (na_spent a)"
      "register_name_validate_standalone cr op = Inr ()"
      "Mapping.lookup (cs_name_registry st) (rn_name op) = None"
    by (auto simp: name_op_step_def step_simps claim_inputs_Some claims_def contains_key_def
        split: if_splits)
  with Cons.IH [OF rest] show ?case by (auto intro: claims_append)
qed (simp add: claims_def)

lemma mint_ops_facts:
  "fold_option (mint_op_step cr st collections excesses h) ops acc = Some acc' \<Longrightarrow>
     claims (cs_utxos st) (mc_spent acc) (concat (map (tx_inputs \<circ> ma_fee_payment) ops)) (mc_spent acc') \<and>
     (\<forall>op \<in> set ops. mint_asset_validate_standalone cr op = Inr () \<and>
        Mapping.lookup (cs_asset_registry st) (ma_asset_id op) = None)"
proof (induction ops arbitrary: acc)
  case (Cons op ops)
  then obtain a where a: "mint_op_step cr st collections excesses h op acc = Some a"
      and rest: "fold_option (mint_op_step cr st collections excesses h) ops a = Some acc'"
    by (auto simp: bind_eq_Some_conv)
  from a have "claims (cs_utxos st) (mc_spent acc) (tx_inputs (ma_fee_payment op)) (mc_spent a)"
      "mint_asset_validate_standalone cr op = Inr ()"
      "Mapping.lookup (cs_asset_registry st) (ma_asset_id op) = None"
    by (auto simp: mint_op_step_def step_simps claim_inputs_Some claims_def contains_key_def
        collection_mint_step_frame split: if_splits option.splits)
  with Cons.IH [OF rest] show ?case by (auto intro: claims_append)
qed (simp add: claims_def)

lemma transfer_op_step_frame: "transfer_op_step cr st op acc = Some acc' \<Longrightarrow> na_spent acc' = na_spent acc"
  by (auto simp: transfer_op_step_def step_simps split: if_splits)

lemma transfer_ops_facts:
  assumes "fold_option (transfer_op_step cr st) ops acc = Some acc'"
  shows "na_spent acc' = na_spent acc"
    and "op \<in> set ops \<Longrightarrow> \<exists>current. Mapping.lookup (cs_name_registry st) (tn_name op) = Some current \<and>
      verify cr (tn_signature op)
        (transfer_name_message cr (tn_name op) (tn_new_owner_pubkey op) (tn_new_resolves_to op))
        (nr_owner_pubkey current)"
proof -
  show "na_spent acc' = na_spent acc"
    using assms by (rule fold_option_invariant [where P = "\<lambda>a. na_spent a = na_spent acc"])
      (simp_all add: transfer_op_step_frame)
  assume "op \<in> set ops"
  from fold_option_step [OF assms this] obtain a a' where "transfer_op_step cr st op a = Some a'" .
  then show "\<exists>current. Mapping.lookup (cs_name_registry st) (tn_name op) = Some current \<and>
      verify cr (tn_signature op)
        (transfer_name_message cr (tn_name op) (tn_new_owner_pubkey op) (tn_new_resolves_to op))
        (nr_owner_pubkey current)"
    by (auto simp: transfer_op_step_def step_simps split: if_splits)
qed

text \<open>What one accepted asset transfer had to satisfy.\<close>

definition transfer_asset_ok ::
    "('p::ab_group_add, 's::comm_ring_1) crypto \<Rightarrow> ('p, 's) chain_state \<Rightarrow> 'p commitment set \<Rightarrow>
       ('p, 's) transfer_asset_op \<Rightarrow> bool" where
  "transfer_asset_ok cr st excesses op \<longleftrightarrow>
     (\<exists>current. Mapping.lookup (cs_asset_registry st) (ta_asset_id op) = Some current \<and>
        verify cr (ta_signature op)
          (transfer_asset_message cr (ta_asset_id op) (ta_new_owner_pubkey op)
             (ta_required_kernel_excess op) (ta_required_royalty_kernel_excess op))
          (ar_owner_pubkey current) \<and>
        (\<forall>c. ta_required_kernel_excess op = Some c \<longrightarrow> kernel_known st excesses c) \<and>
        royalty_ok st excesses op current)"

lemma transfer_asset_ops_facts:
  assumes "fold_option (transfer_asset_op_step cr st excesses) ops acc = Some acc'"
  shows "mc_spent acc' = mc_spent acc" and "mc_mints acc' = mc_mints acc"
    and "mc_counts acc' = mc_counts acc"
    and "op \<in> set ops \<Longrightarrow> transfer_asset_ok cr st excesses op"
proof -
  have "mc_spent acc' = mc_spent acc \<and> mc_mints acc' = mc_mints acc \<and> mc_counts acc' = mc_counts acc"
    using assms by (rule fold_option_invariant [where
          P = "\<lambda>a. mc_spent a = mc_spent acc \<and> mc_mints a = mc_mints acc \<and> mc_counts a = mc_counts acc"])
      (auto simp: transfer_asset_op_step_frame)
  then show "mc_spent acc' = mc_spent acc" "mc_mints acc' = mc_mints acc"
      "mc_counts acc' = mc_counts acc" by blast+
  assume "op \<in> set ops"
  from fold_option_step [OF assms this] obtain a a' where "transfer_asset_op_step cr st excesses op a = Some a'" .
  then show "transfer_asset_ok cr st excesses op"
    by (auto simp: transfer_asset_op_step_def transfer_asset_ok_def step_simps split: if_splits option.splits)
qed


lemma launch_ops_facts:
  assumes "fold_option (launch_op_step cr en st height) ops acc = Some acc'" and "op \<in> set ops"
  shows "launch_collection_validate_standalone cr (ser_phases (en_codec en)) op = Inr ()"
    and "Mapping.lookup (cs_collection_registry st) (lc_collection_id op) = None"
proof -
  from fold_option_step [OF assms] obtain a a' where "launch_op_step cr en st height op a = Some a'" .
  then show "launch_collection_validate_standalone cr (ser_phases (en_codec en)) op = Inr ()"
    "Mapping.lookup (cs_collection_registry st) (lc_collection_id op) = None"
    by (auto simp: launch_op_step_def step_simps contains_key_def split: if_splits)
qed

lemma validate_block_Some:
  assumes "validate_block cr en st b = Some cd"
  obtains names assets where "connects st (b_header b)" "proposer_ok cr en st (b_header b)"
    "body_ok cr en st b" "validate_names cr en st b = Some names"
    "validate_launches cr en st b = Some (cd_collections cd)"
    "validate_assets cr en st (cd_collections cd) (na_spent names) b = Some assets"
    "validate_stakes cr st (b_validator_ops b) = Some (cd_validators cd)"
    "cd_names cd = na_registry names" "cd_assets cd = mc_registry assets"
    "cd_counts cd = mc_counts assets" "cd_mints cd = mc_mints assets"
  using assms by (auto simp: validate_block_def step_simps split: if_splits)

lemma validate_names_facts:
  assumes "validate_names cr en st b = Some names"
  shows "distinct (map fst (name_entries st b))"
    and "na_registry names = insert_all (name_entries st b) (cs_name_registry st)"
    and "claims (cs_utxos st) (in_commitment ` set (tx_inputs (b_body b)))
           (concat (map (tx_inputs \<circ> rn_fee_payment) (b_name_ops b))) (na_spent names)"
    and "op \<in> set (b_name_ops b) \<Longrightarrow> register_name_validate_standalone cr op = Inr () \<and>
           Mapping.lookup (cs_name_registry st) (rn_name op) = None"
    and "t \<in> set (b_transfer_ops b) \<Longrightarrow>
           \<exists>current. Mapping.lookup (cs_name_registry st) (tn_name t) = Some current \<and>
             verify cr (tn_signature t)
               (transfer_name_message cr (tn_name t) (tn_new_owner_pubkey t) (tn_new_resolves_to t))
               (nr_owner_pubkey current)"
    and "compute_registry_root cr (ser_name (en_codec en)) (na_registry names) =
           bh_name_registry_root (b_header b)"
proof -
  let ?acc0 = "\<lparr>na_spent = in_commitment ` set (tx_inputs (b_body b)), na_names = {},
    na_registry = cs_name_registry st\<rparr>"
  from assms obtain acc where
      reg: "fold_option (name_op_step cr st (bh_height (b_header b))) (b_name_ops b) ?acc0 = Some acc"
    and tr: "fold_option (transfer_op_step cr st) (b_transfer_ops b) acc = Some names"
    and root: "compute_registry_root cr (ser_name (en_codec en)) (na_registry names) =
        bh_name_registry_root (b_header b)"
    by (auto simp: validate_names_def step_simps split: if_splits)
  note r = name_loop.loop_effect [OF reg] and t = transfer_loop.loop_effect [OF tr]
  show "distinct (map fst (name_entries st b))"
    using r(1,3) t(1,2) by (auto simp: name_entries_def comp_def)
  show "na_registry names = insert_all (name_entries st b) (cs_name_registry st)"
    using r(4) t(4) by (simp add: name_entries_def)
  show "claims (cs_utxos st) (in_commitment ` set (tx_inputs (b_body b)))
      (concat (map (tx_inputs \<circ> rn_fee_payment) (b_name_ops b))) (na_spent names)"
    using name_ops_facts [OF reg] transfer_ops_facts(1) [OF tr] by simp
  show "op \<in> set (b_name_ops b) \<Longrightarrow> register_name_validate_standalone cr op = Inr () \<and>
      Mapping.lookup (cs_name_registry st) (rn_name op) = None"
    using name_ops_facts [OF reg] by blast
  show "t \<in> set (b_transfer_ops b) \<Longrightarrow>
      \<exists>current. Mapping.lookup (cs_name_registry st) (tn_name t) = Some current \<and>
        verify cr (tn_signature t)
          (transfer_name_message cr (tn_name t) (tn_new_owner_pubkey t) (tn_new_resolves_to t))
          (nr_owner_pubkey current)"
    using transfer_ops_facts(2) [OF tr] .
  show "compute_registry_root cr (ser_name (en_codec en)) (na_registry names) =
      bh_name_registry_root (b_header b)" by (rule root)
qed

lemma validate_assets_facts:
  assumes "validate_assets cr en st collections spent b = Some assets"
  shows "distinct (map fst (asset_entries st b))"
    and "mc_registry assets = insert_all (asset_entries st b) (cs_asset_registry st)"
    and "claims (cs_utxos st) spent (concat (map (tx_inputs \<circ> ma_fee_payment) (b_mint_ops b)))
           (mc_spent assets)"
    and "op \<in> set (b_mint_ops b) \<Longrightarrow> mint_asset_validate_standalone cr op = Inr () \<and>
           Mapping.lookup (cs_asset_registry st) (ma_asset_id op) = None"
    and "t \<in> set (b_transfer_asset_ops b) \<Longrightarrow> transfer_asset_ok cr st (block_kernel_excesses b) t"
    and "counts_extend (cs_collection_mint_counts st) (mc_mints assets) (mc_counts assets)"
    and "compute_asset_registry_root cr (ser_asset (en_codec en)) (mc_registry assets) =
           bh_asset_registry_root (b_header b)"
proof -
  let ?acc0 = "\<lparr>mc_spent = spent, mc_assets = {}, mc_registry = cs_asset_registry st,
    mc_counts = cs_collection_mint_counts st, mc_mints = []\<rparr>"
  let ?ex = "block_kernel_excesses b"
  from assms obtain acc where
      mint: "fold_option (mint_op_step cr st collections ?ex (b_header b)) (b_mint_ops b) ?acc0 = Some acc"
    and tr: "fold_option (transfer_asset_op_step cr st ?ex) (b_transfer_asset_ops b) acc = Some assets"
    and root: "compute_asset_registry_root cr (ser_asset (en_codec en)) (mc_registry assets) =
        bh_asset_registry_root (b_header b)"
    by (auto simp: validate_assets_def step_simps split: if_splits)
  note m = mint_loop.loop_effect [OF mint] and t = transfer_asset_loop.loop_effect [OF tr]
    and tf = transfer_asset_ops_facts [OF tr]
  show "distinct (map fst (asset_entries st b))"
    using m(1,3) t(1,2) by (auto simp: asset_entries_def comp_def)
  show "mc_registry assets = insert_all (asset_entries st b) (cs_asset_registry st)"
    using m(4) t(4) by (simp add: asset_entries_def)
  show "claims (cs_utxos st) spent (concat (map (tx_inputs \<circ> ma_fee_payment) (b_mint_ops b)))
      (mc_spent assets)"
    using mint_ops_facts [OF mint] tf(1) by simp
  show "op \<in> set (b_mint_ops b) \<Longrightarrow> mint_asset_validate_standalone cr op = Inr () \<and>
      Mapping.lookup (cs_asset_registry st) (ma_asset_id op) = None"
    using mint_ops_facts [OF mint] by blast
  show "t \<in> set (b_transfer_asset_ops b) \<Longrightarrow> transfer_asset_ok cr st ?ex t"
    by (rule tf(4))
  have "counts_extend (cs_collection_mint_counts st) (mc_mints acc) (mc_counts acc)"
    using mint
    by (rule fold_option_invariant [where
          P = "\<lambda>a. counts_extend (cs_collection_mint_counts st) (mc_mints a) (mc_counts a)"])
      (simp add: counts_extend_def, rule mint_op_step_counts)
  then show "counts_extend (cs_collection_mint_counts st) (mc_mints assets) (mc_counts assets)"
    by (simp add: tf)
  show "compute_asset_registry_root cr (ser_asset (en_codec en)) (mc_registry assets) =
      bh_asset_registry_root (b_header b)" by (rule root)
qed

lemma validate_launches_facts:
  assumes "validate_launches cr en st b = Some collections"
  shows "distinct (map fst (collection_entries b))"
    and "collections = insert_all (collection_entries b) (cs_collection_registry st)"
    and "op \<in> set (b_launch_collection_ops b) \<Longrightarrow>
           launch_collection_validate_standalone cr (ser_phases (en_codec en)) op = Inr ()"
    and "op \<in> set (b_launch_collection_ops b) \<Longrightarrow>
           Mapping.lookup (cs_collection_registry st) (lc_collection_id op) = None"
proof -
  from assms obtain acc where
      launch: "fold_option (launch_op_step cr en st (bh_height (b_header b))) (b_launch_collection_ops b)
        \<lparr>la_collections = {}, la_registry = cs_collection_registry st\<rparr> = Some acc"
    and acc: "collections = la_registry acc"
    by (auto simp: validate_launches_def step_simps split: if_splits)
  note l = launch_loop.loop_effect [OF launch]
  show "distinct (map fst (collection_entries b))"
    using l(1) by (simp add: collection_entries_def comp_def)
  show "collections = insert_all (collection_entries b) (cs_collection_registry st)"
    using l(4) by (simp add: acc collection_entries_def)
  show "op \<in> set (b_launch_collection_ops b) \<Longrightarrow>
      launch_collection_validate_standalone cr (ser_phases (en_codec en)) op = Inr ()"
    "op \<in> set (b_launch_collection_ops b) \<Longrightarrow>
      Mapping.lookup (cs_collection_registry st) (lc_collection_id op) = None"
    using launch_ops_facts [OF launch] by blast+
qed


section \<open>The closed form of an application\<close>

definition body_utxos :: "('p, 's) block \<Rightarrow> 'p commitment set \<Rightarrow> 'p commitment set" where
  "body_utxos b utxos =
     (if 0 < bh_height (b_header b) then utxos - in_commitment ` set (tx_inputs (b_body b)) else utxos) \<union>
     out_commitment ` set (tx_outputs (b_body b))"

definition remaining_validators ::
    "('p, 's) block \<Rightarrow> ('p, 's) validator list \<Rightarrow> ('p, 's) validator list" where
  "remaining_validators b vs =
     (if 0 < bh_height (b_header b)
      then filter (\<lambda>v. v_commitment v \<notin> in_commitment ` set (tx_inputs (b_body b))) vs else vs)"

definition old_names :: "('p, 's) chain_state \<Rightarrow> ('p, 's) block \<Rightarrow> (string \<times> 'p name_record) list" where
  "old_names st b =
     map (\<lambda>k. (k, the (Mapping.lookup (cs_name_registry st) k))) (map tn_name (b_transfer_ops b))"

definition old_assets :: "('p, 's) chain_state \<Rightarrow> ('p, 's) block \<Rightarrow> (string \<times> 'p asset_record) list" where
  "old_assets st b =
     map (\<lambda>k. (k, the (Mapping.lookup (cs_asset_registry st) k))) (map ta_asset_id (b_transfer_asset_ops b))"

definition applied_state ::
    "('p, 's) crypto \<Rightarrow> ('p, 's) block \<Rightarrow> ('p, 's) candidates \<Rightarrow> ('p, 's) chain_state \<Rightarrow>
       ('p, 's) chain_state" where
  "applied_state cr b cd st =
     (let height = bh_height (b_header b); tip = header_hash cr (b_header b) in
      st\<lparr>cs_utxos := fold spend_tx (fee_payments b) (body_utxos b (cs_utxos st)),
         cs_kernels := cs_kernels st @ new_kernels b,
         cs_kernel_excesses := cs_kernel_excesses st \<union> excess ` set (new_kernels b),
         cs_current_height := height, cs_last_block_hash := tip,
         cs_active_validators := remaining_validators b (cd_validators cd),
         cs_blocks := Mapping.update tip b (cs_blocks st),
         cs_validator_snapshots :=
           Mapping.update height (cs_active_validators st) (cs_validator_snapshots st),
         cs_name_registry := cd_names cd,
         cs_transfer_snapshots := record_snapshot height (old_names st b) (cs_transfer_snapshots st),
         cs_asset_registry := cd_assets cd,
         cs_asset_transfer_snapshots :=
           record_snapshot height (old_assets st b) (cs_asset_transfer_snapshots st),
         cs_collection_registry := cd_collections cd,
         cs_collection_mint_counts := cd_counts cd\<rparr>)"

definition delta_of ::
    "('p, 's) crypto \<Rightarrow> ('p, 's) block \<Rightarrow> ('p, 's) candidates \<Rightarrow> ('p, 's) chain_state \<Rightarrow>
       ('p, 's) applied_delta" where
  "delta_of cr b cd st = \<lparr>ad_block = b,
     ad_spent_commitments =
       (if 0 < bh_height (b_header b) then map in_commitment (tx_inputs (b_body b)) else []) @
       map in_commitment (concat (map tx_inputs (fee_payments b))),
     ad_new_outputs = tx_outputs (b_body b) @ concat (map tx_outputs (fee_payments b)),
     ad_new_kernels = new_kernels b,
     ad_validator_snapshot = (bh_height (b_header b), cs_active_validators st),
     ad_active_validators_after = remaining_validators b (cd_validators cd),
     ad_new_names = map (\<lambda>op. (rn_name op, registered_name (bh_height (b_header b)) op)) (b_name_ops b),
     ad_transferred_names = old_names st b,
     ad_new_assets = map (\<lambda>op. (ma_asset_id op, minted_asset (bh_height (b_header b)) op)) (b_mint_ops b),
     ad_transferred_assets = old_assets st b,
     ad_new_collections = collection_entries b,
     ad_collection_mints = cd_mints cd, ad_height = bh_height (b_header b),
     ad_tip_hash = header_hash cr (b_header b)\<rparr>"

text \<open>Committing fresh keys and then transferred keys, from a candidate that holds both.\<close>

lemma commit_both_loops:
  assumes "distinct (map fst (news @ olds))" and "candidate = insert_all (news @ olds) base"
    and "\<forall>k \<in> fst ` set olds. Mapping.lookup base k \<noteq> None"
  shows "fold_outcome (commit_new candidate) (map fst news) (base, []) =
      Ret (insert_all news base, news)" (is ?new)
    and "fold_outcome (commit_transfer candidate) (map fst olds) (insert_all news base, []) =
      Ret (candidate, map (\<lambda>k. (k, the (Mapping.lookup base k))) (map fst olds))" (is ?old)
proof -
  have present: "\<forall>k \<in> set (map fst (news @ olds)). Mapping.lookup candidate k \<noteq> None"
    unfolding assms(2) set_map by (intro ballI lookup_insert_all_mem [OF assms(1)])
  have "map (\<lambda>k. (k, the (Mapping.lookup candidate k))) (map fst news) = news"
      and old: "map (\<lambda>k. (k, the (Mapping.lookup candidate k))) (map fst olds) = olds"
    using insert_candidates [OF assms(1,2)] by (simp_all add: append_eq_append_conv)
  then show ?new
    using present by (simp add: commit_new_loop)
  have other: "Mapping.lookup (insert_all news base) k = Mapping.lookup base k" if "k \<in> fst ` set olds" for k
    using that assms(1) by (intro lookup_insert_all_other) auto
  then have "\<forall>k \<in> set (map fst olds). Mapping.lookup candidate k \<noteq> None \<and>
      Mapping.lookup (insert_all news base) k \<noteq> None"
    using present assms(3) by simp
  from commit_transfer_loop [OF _ this, of "[]"] assms(1) old
  show ?old
    by (simp add: assms(2) other cong: map_cong)
qed


lemma commit_names:
  assumes "validate_block cr en st b = Some cd"
  shows "fold_outcome (apply_name_op (cd_names cd)) (b_name_ops b) (w, cs_name_registry st, []) =
      Ret (fold apply_fee_payment (map rn_fee_payment (b_name_ops b)) w,
        insert_all (map (\<lambda>op. (rn_name op, registered_name (bh_height (b_header b)) op)) (b_name_ops b))
          (cs_name_registry st),
        map (\<lambda>op. (rn_name op, registered_name (bh_height (b_header b)) op)) (b_name_ops b))" (is ?n)
    and "fold_outcome (commit_transfer (cd_names cd)) (map tn_name (b_transfer_ops b))
      (insert_all (map (\<lambda>op. (rn_name op, registered_name (bh_height (b_header b)) op)) (b_name_ops b))
        (cs_name_registry st), []) = Ret (cd_names cd, old_names st b)" (is ?t)
proof -
  from assms obtain names where v: "validate_names cr en st b = Some names"
      and cd: "cd_names cd = na_registry names"
    by (rule validate_block_Some)
  note f = validate_names_facts [OF v]
  let ?old = "map (\<lambda>op. (tn_name op, transferred_name op (the (Mapping.lookup (cs_name_registry st) (tn_name op)))))
       (b_transfer_ops b)"
  have "\<forall>k \<in> fst ` set ?old. Mapping.lookup (cs_name_registry st) k \<noteq> None"
    using f(5) by (fastforce simp: image_image)
  note loops = commit_both_loops [OF f(1) [unfolded name_entries_def] _ this, of "cd_names cd"]
  show ?n ?t
    using loops f(2) by (simp_all add: cd name_entries_def comp_def apply_name_ops_loop old_names_def)
qed

lemma commit_assets:
  assumes "validate_block cr en st b = Some cd"
  shows "fold_outcome (apply_mint_op (cd_assets cd)) (b_mint_ops b) (w, cs_asset_registry st, []) =
      Ret (fold apply_fee_payment (map ma_fee_payment (b_mint_ops b)) w,
        insert_all (map (\<lambda>op. (ma_asset_id op, minted_asset (bh_height (b_header b)) op)) (b_mint_ops b))
          (cs_asset_registry st),
        map (\<lambda>op. (ma_asset_id op, minted_asset (bh_height (b_header b)) op)) (b_mint_ops b))" (is ?n)
    and "fold_outcome (commit_transfer (cd_assets cd)) (map ta_asset_id (b_transfer_asset_ops b))
      (insert_all (map (\<lambda>op. (ma_asset_id op, minted_asset (bh_height (b_header b)) op)) (b_mint_ops b))
        (cs_asset_registry st), []) = Ret (cd_assets cd, old_assets st b)" (is ?t)
    and "commit_counts (cd_counts cd) (cd_mints cd) (cs_collection_mint_counts st) = Ret (cd_counts cd)" (is ?c)
proof -
  from assms obtain spent assets where
      v: "validate_assets cr en st (cd_collections cd) spent b = Some assets"
      and cd: "cd_assets cd = mc_registry assets" "cd_counts cd = mc_counts assets"
        "cd_mints cd = mc_mints assets"
    by (rule validate_block_Some)
  note f = validate_assets_facts [OF v]
  let ?old = "map (\<lambda>op. (ta_asset_id op, transferred_asset op (the (Mapping.lookup (cs_asset_registry st) (ta_asset_id op)))))
       (b_transfer_asset_ops b)"
  have "\<forall>k \<in> fst ` set ?old. Mapping.lookup (cs_asset_registry st) k \<noteq> None"
    using f(5) by (fastforce simp: image_image transfer_asset_ok_def)
  note loops = commit_both_loops [OF f(1) [unfolded asset_entries_def] _ this, of "cd_assets cd"]
  show ?n ?t
    using loops f(2) by (simp_all add: cd asset_entries_def comp_def apply_mint_ops_loop old_assets_def)
  show ?c
    using commit_counts_eq [OF f(6)] by (simp add: cd)
qed

lemma commit_collections:
  assumes "validate_block cr en st b = Some cd"
  shows "fold_outcome (commit_new (cd_collections cd)) (map lc_collection_id (b_launch_collection_ops b))
      (cs_collection_registry st, []) = Ret (cd_collections cd, collection_entries b)"
proof -
  from assms have v: "validate_launches cr en st b = Some (cd_collections cd)"
    by (rule validate_block_Some)
  note f = validate_launches_facts [OF v]
  from commit_both_loops(1) [of "collection_entries b" "[]" "cd_collections cd"
      "cs_collection_registry st"] f(1,2)
  show ?thesis by (simp add: collection_entries_def comp_def)
qed

lemma commit_block_eq:
  assumes "validate_block cr en st b = Some cd"
  shows "commit_block cr b cd st = Ret (applied_state cr b cd st, delta_of cr b cd st)"
  unfolding commit_block_def spend_body_inputs_eq
  by (simp add: commit_names [OF assms] commit_assets [OF assms] commit_collections [OF assms]
      fold_apply_fee_payment applied_state_def delta_of_def body_utxos_def remaining_validators_def
      fee_payments_def split_beta Let_def)

lemma apply_linear_block_cases:
  obtains (reject) "validate_block cr en st b = None" "apply_linear_block cr en b st = Ret (st, None)"
  | (accept) cd where "validate_block cr en st b = Some cd"
      "apply_linear_block cr en b st = Ret (applied_state cr b cd st, Some (delta_of cr b cd st))"
proof (cases "validate_block cr en st b")
  case None
  then show thesis by (intro reject) (simp_all add: apply_linear_block_def)
next
  case (Some cd)
  then show thesis
    by (intro accept [of cd]) (simp_all add: apply_linear_block_def commit_block_eq [OF Some])
qed

lemma apply_linear_block_Some:
  assumes "apply_linear_block cr en b st = Ret (st', Some d)"
  obtains cd where "validate_block cr en st b = Some cd" "st' = applied_state cr b cd st"
    "d = delta_of cr b cd st"
  using assms by (cases rule: apply_linear_block_cases [of cr en st b]) auto

end
