(* ===== verification/Chain_Samples.thy ===== *)
theory Chain_Samples
  imports Chain_Apply
begin

text \<open>
  Concrete states and blocks over the executable instance of the primitives, on which the
  properties of the chain are instantiated: a state with three unspent outputs, and a builder for
  blocks of height 1 on top of it.
\<close>

abbreviation w_sig :: "u64 signature" where
  "w_sig \<equiv> \<lparr>sig_s = 0, sig_e = 1\<rparr>"

abbreviation w_com :: "u64 \<Rightarrow> u64 \<Rightarrow> wpoint commitment" where
  "w_com v r \<equiv> Commitment (WP v r)"

definition w_codec :: "wpoint codec" where
  "w_codec = \<lparr>ser_name = \<lambda>_. [1], ser_asset = \<lambda>_. [2], ser_collection = \<lambda>_. [3], ser_phases = \<lambda>_. [4]\<rparr>"

text \<open>The second output is locked until height 1000.\<close>

definition w_env :: "(wpoint, u64) env" where
  "w_env = \<lparr>en_codec = w_codec, en_blinding = 42, en_locked = [(w_com 50 9, 1000)]\<rparr>"

definition w_state :: "(wpoint, u64) chain_state" where
  "w_state = chain_new\<lparr>cs_utxos := {w_com 1000000 42, w_com 100 7, w_com 50 9, w_com 20 3},
     cs_last_block_hash := replicate 32 5\<rparr>"

definition w_tx :: "(u64 \<times> u64) list \<Rightarrow> (u64 \<times> u64) list \<Rightarrow> u64 \<Rightarrow> u64 \<Rightarrow> (wpoint, u64) transaction" where
  "w_tx ins outs x f = \<lparr>
     tx_inputs = map (\<lambda>(v, r). \<lparr>in_commitment = w_com v r\<rparr>) ins,
     tx_outputs = map (\<lambda>(v, r). \<lparr>out_commitment = w_com v r, out_proof = RangeProof [], out_note = []\<rparr>) outs,
     tx_kernels = [\<lparr>excess = w_com 0 x, fee = f, kernel_sig = w_sig\<rparr>]\<rparr>"

definition w_name_op :: "(wpoint, u64) transaction \<Rightarrow> (wpoint, u64) register_name_op" where
  "w_name_op tx = \<lparr>rn_name = ''alice'', rn_owner_pubkey = w_com 0 1, rn_resolves_to = w_com 0 2,
     rn_fee_payment = tx, rn_signature = w_sig\<rparr>"

definition w_block ::
    "(wpoint, u64) chain_state \<Rightarrow> (wpoint, u64) transaction \<Rightarrow> (wpoint, u64) register_name_op list \<Rightarrow>
       (wpoint, u64) register_validator_op list \<Rightarrow> (wpoint, u64) block" where
  "w_block st body names validators = \<lparr>
     b_header = \<lparr>bh_height = cs_current_height st + 1, bh_prev_hash = cs_last_block_hash st,
       bh_total_kernel_offset = 0, bh_nonce = 0, bh_timestamp = 100,
       bh_validator_commitment = w_com 1000000 42, bh_validator_signature = w_sig,
       bh_name_registry_root = compute_registry_root w_crypto (ser_name w_codec)
         (insert_all (map (\<lambda>op. (rn_name op, registered_name (cs_current_height st + 1) op)) names)
           (cs_name_registry st)),
       bh_chain_id = CHAIN_ID,
       bh_asset_registry_root = compute_asset_registry_root w_crypto (ser_asset w_codec) (cs_asset_registry st),
       bh_collection_registry_root =
         compute_collection_registry_root w_crypto (ser_collection w_codec) (cs_collection_registry st)\<rparr>,
     b_body = body, b_name_ops = names, b_transfer_ops = [], b_mint_ops = [],
     b_transfer_asset_ops = [], b_launch_collection_ops = [], b_validator_ops = validators\<rparr>"

lemma w_commitment_new [simp]: "commitment_new w_crypto v r = w_com v r"
  by (simp add: commitment_new_def w_crypto_def scalar_of_u64_def)

lemma w_verify [simp]: "verify w_crypto w_sig message pk"
  by (simp add: verify_def compute_challenge_def w_crypto_def)

lemma w_range_verify [simp]: "range_verify w_crypto (RangeProof []) c"
  by (simp add: range_verify_def w_crypto_def)

lemma w_reward_1 [simp]: "block_reward 1 = 540"
  by (simp add: block_reward_def block_reward_at_def HALVING_INTERVAL_BLOCKS_def INITIAL_BLOCK_REWARD_def)

lemma w_alice [simp]: "validate_name ''alice'' = Inr ()"
  by code_simp

text \<open>The rules that evaluate the validation of a sample block.\<close>

lemmas w_block_eval = validate_block_def connects_def proposer_ok_def proposer_stake_def body_ok_def
  validate_names_def validate_launches_def validate_assets_def validate_stakes_def
  name_op_step_def claim_inputs_def register_name_validate_standalone_def fee_payment_ok_def
  NAME_REGISTRATION_FEE_def spends_locked_output_early_def validate_def validate_with_reward_def
  kernel_ok_def sum_points_def contains_key_def lookup_empty w_block_def w_state_def w_env_def w_tx_def
  w_name_op_def chain_new_def zero_wpoint_def Let_def

text \<open>An ordinary block: a payment of 100 with the reward, and a name paid for with 20.\<close>

definition w_good_block :: "(wpoint, u64) block" where
  "w_good_block = w_block w_state (w_tx [(100, 7)] [(640, 5)] 2 3)
     [w_name_op (w_tx [(20, 3)] [(15, 2)] 1 5)] []"

lemma w_good_block_valid: "validate_block w_crypto w_env w_state w_good_block \<noteq> None"
  by (simp add: w_good_block_def w_block_eval)

text \<open>A block that lists one input twice and mints the difference to itself.\<close>

definition w_double_block :: "(wpoint, u64) block" where
  "w_double_block = w_block w_state (w_tx [(100, 7), (100, 7)] [(740, 5)] 9 0) [] []"

lemma w_double_block_valid: "validate_block w_crypto w_env w_state w_double_block \<noteq> None"
  by (simp add: w_double_block_def w_block_eval)

text \<open>A block that spends the locked output as the fee payment of a name.\<close>

definition w_locked_block :: "(wpoint, u64) block" where
  "w_locked_block = w_block w_state (w_tx [(100, 7)] [(640, 5)] 2 3)
     [w_name_op (w_tx [(50, 9)] [(45, 4)] 5 5)] []"

lemma w_locked_block_valid: "validate_block w_crypto w_env w_state w_locked_block \<noteq> None"
  by (simp add: w_locked_block_def w_block_eval)

text \<open>A block that registers the output of 100 as a stake.\<close>

definition w_stake_block :: "(wpoint, u64) block" where
  "w_stake_block = w_block w_state (w_tx [(20, 3)] [(560, 2)] 1 0) []
     [\<lparr>rv_commitment = w_com 100 7, rv_value = 100, rv_proof = w_sig\<rparr>]"

lemma w_stake_block_valid:
  "\<exists>cd. validate_block w_crypto w_env w_state w_stake_block = Some cd \<and>
     cd_validators cd = [\<lparr>v_commitment = w_com 100 7, v_value = 100, v_proof = w_sig\<rparr>]"
  by (simp add: w_stake_block_def w_block_eval try_register_validator_def MAX_ACTIVE_VALIDATORS_def
      register_validator_validate_standalone_def MIN_VALIDATOR_STAKE_def)

text \<open>A state with one asset of a collection that charges a royalty, and a block with a sale of that asset
  and a mint from the collection's open phase, both paid by the block's own kernel.\<close>

definition w_art :: "wpoint asset_record" where
  "w_art = \<lparr>ar_asset_id = ''art'', ar_owner_pubkey = w_com 0 1, ar_metadata = [], ar_minted_at_block = 0,
     ar_collection_id = Some ''drop''\<rparr>"

definition w_drop :: "wpoint collection_record" where
  "w_drop = \<lparr>cl_collection_id = ''drop'', cl_creator_pubkey = w_com 0 8, cl_name = ''Drop'', cl_symbol = ''D'',
     cl_metadata = [], cl_phases = [sample_phase 10 200], cl_launched_at_block = 0, cl_royalty_bps = 250\<rparr>"

definition w_sale_state :: "(wpoint, u64) chain_state" where
  "w_sale_state = w_state\<lparr>cs_asset_registry := Mapping.update ''art'' w_art Mapping.empty,
     cs_collection_registry := Mapping.update ''drop'' w_drop Mapping.empty\<rparr>"

definition w_sale_transfer :: "(wpoint, u64) transfer_asset_op" where
  "w_sale_transfer = \<lparr>ta_asset_id = ''art'', ta_new_owner_pubkey = w_com 0 6,
     ta_required_kernel_excess = Some (w_com 0 2), ta_required_royalty_kernel_excess = Some (w_com 0 2),
     ta_signature = w_sig\<rparr>"

definition w_sale_mint :: "(wpoint, u64) mint_asset_op" where
  "w_sale_mint = \<lparr>ma_asset_id = ''art-2'', ma_owner_pubkey = w_com 0 6, ma_metadata = [],
     ma_fee_payment = w_tx [(20, 3)] [(15, 2)] 1 5, ma_collection_id = Some ''drop'', ma_phase_index = Some 0,
     ma_allowlist_proof = None, ma_allowlist_leaf_index = None,
     ma_required_kernel_excess = Some (w_com 0 2), ma_signature = w_sig, ma_creator_signature = Some w_sig\<rparr>"

definition w_sale_block :: "(wpoint, u64) block" where
  "w_sale_block =
     (let b = w_block w_sale_state (w_tx [(100, 7)] [(640, 5)] 2 3) [] [] in
      b\<lparr>b_mint_ops := [w_sale_mint], b_transfer_asset_ops := [w_sale_transfer],
        b_header := (b_header b)\<lparr>bh_asset_registry_root :=
          compute_asset_registry_root w_crypto (ser_asset w_codec)
            (Mapping.update ''art'' (transferred_asset w_sale_transfer w_art)
              (Mapping.update ''art-2'' (minted_asset 1 w_sale_mint)
                (Mapping.update ''art'' w_art Mapping.empty)))\<rparr>\<rparr>)"

lemma w_art_ids [simp]: "validate_asset_id ''art-2'' = Inr ()"
  by code_simp

lemmas w_sale_eval = w_sale_block_def w_sale_state_def w_sale_mint_def w_sale_transfer_def w_drop_def
  sample_phase_def mint_op_step_def collection_mint_step_def transfer_asset_op_step_def
  mint_asset_validate_standalone_def ASSET_MINT_FEE_def MAX_METADATA_BYTES_def on_allowlist_def
  nth_option_def kernel_known_def royalty_ok_def block_kernel_excesses_def fee_kernels_def
  mint_count_key_def

lemma w_sale_block_valid: "validate_block w_crypto w_env w_sale_state w_sale_block \<noteq> None"
  by (simp add: w_block_eval w_sale_eval map_simps) (simp add: w_art_def w_sale_eval map_simps)

lemma w_sale_parts [simp]:
  "b_transfer_asset_ops w_sale_block = [w_sale_transfer]" "b_mint_ops w_sale_block = [w_sale_mint]"
  "bh_timestamp (b_header w_sale_block) = 100"
  "Mapping.lookup (cs_asset_registry w_sale_state) ''art'' = Some w_art"
  by (simp_all add: w_sale_block_def w_block_def w_sale_state_def map_simps Let_def)

lemma w_apply:
  assumes "validate_block w_crypto w_env st b \<noteq> None"
  obtains st' d where "apply_linear_block w_crypto w_env b st = Ret (st', Some d)"
  using assms by (cases rule: apply_linear_block_cases [of w_crypto w_env st b]) auto

end
