(* ===== verification/Chain_Safety.thy ===== *)
theory Chain_Safety
  imports Chain_Samples
begin

text \<open>
  Safety of accepted blocks: what they may spend, that they neither create nor destroy value beyond
  the reward schedule and the burned fees, who can change a name or an asset, and which payments a
  sale needs. Each property speaks about a successful \<open>apply_linear_block\<close>.
\<close>

section \<open>Inputs and outputs of a block\<close>

definition all_inputs :: "('p, 's) block \<Rightarrow> 'p tx_input list" where
  "all_inputs b = tx_inputs (b_body b) @ concat (map tx_inputs (fee_payments b))"

definition all_outputs :: "('p, 's) block \<Rightarrow> 'p tx_output list" where
  "all_outputs b = tx_outputs (b_body b) @ concat (map tx_outputs (fee_payments b))"

lemma fee_inputs_claimed:
  assumes "validate_block cr en st b = Some cd"
  shows "\<exists>spent. claims (cs_utxos st) (in_commitment ` set (tx_inputs (b_body b)))
    (concat (map tx_inputs (fee_payments b))) spent"
proof -
  from assms obtain names assets where
      n: "validate_names cr en st b = Some names"
    and a: "validate_assets cr en st (cd_collections cd) (na_spent names) b = Some assets"
    by (rule validate_block_Some)
  from claims_append [OF validate_names_facts(3) [OF n] validate_assets_facts(3) [OF a]]
  show ?thesis by (auto simp: fee_payments_def comp_def)
qed

lemma body_inputs_unspent:
  assumes "validate_block cr en st b = Some cd" and "0 < bh_height (b_header b)"
  shows "in_commitment ` set (tx_inputs (b_body b)) \<subseteq> cs_utxos st"
proof -
  from assms(1) have "body_ok cr en st b" by (rule validate_block_Some)
  with assms(2) show ?thesis by (auto simp: body_ok_def Let_def list_all_iff)
qed

lemma fee_payments_ok:
  assumes "validate_block cr en st b = Some cd" and "tx \<in> set (fee_payments b)"
  shows "fee_payment_ok cr 5 tx"
proof -
  from assms(1) obtain names assets where
      n: "validate_names cr en st b = Some names"
    and a: "validate_assets cr en st (cd_collections cd) (na_spent names) b = Some assets"
    by (rule validate_block_Some)
  from assms(2) validate_names_facts(4) [OF n] validate_assets_facts(4) [OF a] show ?thesis
    by (auto simp: fee_payments_def register_name_standalone_Inr mint_asset_standalone_Inr
        NAME_REGISTRATION_FEE_def ASSET_MINT_FEE_def)
qed

text \<open>C2. No fake inputs and no double spend across operations: every input of an accepted block above
  genesis is an unspent output of the state it extends, no fee input occurs twice, and none is
  also spent by the body. (Inputs inside the body are checked for existence only; see
  \<open>duplicate_body_input_accepted\<close>.)\<close>

theorem accepted_inputs_exist:
  assumes "apply_linear_block cr en b st = Ret (st', Some d)" and "0 < bh_height (b_header b)"
  shows "in_commitment ` set (all_inputs b) \<subseteq> cs_utxos st \<and>
    distinct (map in_commitment (concat (map tx_inputs (fee_payments b)))) \<and>
    in_commitment ` set (concat (map tx_inputs (fee_payments b))) \<inter>
      in_commitment ` set (tx_inputs (b_body b)) = {}"
proof -
  from assms(1) obtain cd where v: "validate_block cr en st b = Some cd"
    by (rule apply_linear_block_Some)
  show ?thesis
    using fee_inputs_claimed [OF v] body_inputs_unspent [OF v assms(2)]
    by (auto simp: claims_def all_inputs_def image_Un)
qed

theorem accepted_inputs_exist_witness:
  "in_commitment ` set (all_inputs w_good_block) \<subseteq> cs_utxos w_state"
proof -
  obtain st' d where acc: "apply_linear_block w_crypto w_env w_good_block w_state = Ret (st', Some d)"
    using w_good_block_valid by (rule w_apply)
  from accepted_inputs_exist [OF acc] show ?thesis
    by (simp add: w_good_block_def w_block_def w_state_def chain_new_def)
qed

text \<open>With fresh outputs the order of the payments does not matter.\<close>

lemma fold_spend_tx:
  "out_commitment ` set (concat (map tx_outputs txs)) \<inter> in_commitment ` set (concat (map tx_inputs txs)) = {} \<Longrightarrow>
     fold spend_tx txs utxos =
       utxos - in_commitment ` set (concat (map tx_inputs txs)) \<union>
       out_commitment ` set (concat (map tx_outputs txs))"
proof (induction txs arbitrary: utxos)
  case (Cons tx txs)
  let ?I = "in_commitment ` set (concat (map tx_inputs txs))"
  let ?O = "out_commitment ` set (concat (map tx_outputs txs))"
  have disj: "(out_commitment ` set (tx_outputs tx) \<union> ?O) \<inter> (in_commitment ` set (tx_inputs tx) \<union> ?I) = {}"
    using Cons.prems unfolding list.map concat.simps set_append image_Un .
  then have "?O \<inter> ?I = {}" by blast
  from Cons.IH [OF this, of "spend_tx tx utxos"] disj show ?case
    unfolding list.map concat.simps set_append image_Un by (auto simp add: spend_tx_def simp del: set_concat)
qed simp

definition fresh_outputs :: "('p, 's) chain_state \<Rightarrow> ('p, 's) block \<Rightarrow> bool" where
  "fresh_outputs st b \<longleftrightarrow>
     distinct (map out_commitment (all_outputs b)) \<and>
     out_commitment ` set (all_outputs b) \<inter> cs_utxos st = {}"

lemma applied_utxos:
  assumes "validate_block cr en st b = Some cd" and "0 < bh_height (b_header b)"
    and "out_commitment ` set (all_outputs b) \<inter> cs_utxos st = {}"
  shows "cs_utxos (applied_state cr b cd st) =
    cs_utxos st - in_commitment ` set (all_inputs b) \<union> out_commitment ` set (all_outputs b)"
proof -
  from fee_inputs_claimed [OF assms(1)] have
      ins: "in_commitment ` set (concat (map tx_inputs (fee_payments b))) \<subseteq> cs_utxos st"
    by (auto simp: claims_def)
  with assms(3) have disj: "out_commitment ` set (concat (map tx_outputs (fee_payments b))) \<inter>
      in_commitment ` set (concat (map tx_inputs (fee_payments b))) = {}"
    unfolding all_outputs_def by (auto simp del: set_concat)
  have disj_body: "out_commitment ` set (tx_outputs (b_body b)) \<inter>
      in_commitment ` set (concat (map tx_inputs (fee_payments b))) = {}"
    using ins assms(3) unfolding all_outputs_def by (auto simp del: set_concat)
  show ?thesis
    unfolding applied_state_def Let_def
    using assms(2) disj_body
    by (simp add: fold_spend_tx [OF disj] body_utxos_def all_inputs_def all_outputs_def image_Un
        del: set_concat) blast
qed


section \<open>Conservation of value\<close>

lemma single_kernel_balance:
  assumes "module_laws cr" and "fee_payment_ok cr floor tx"
  shows "sum_points (map in_commitment (tx_inputs tx)) =
    sum_points (map out_commitment (tx_outputs tx)) +
    (\<Sum>k \<leftarrow> tx_kernels tx. smul cr (scalar_of_u64 (fee k)) (gen_B cr)) +
    sum_points (map excess (tx_kernels tx))"
proof -
  from assms(2) obtain k where k: "tx_kernels tx = [k]" and v: "validate cr tx"
    by (auto simp: fee_payment_ok_def length_Suc_conv)
  from v show ?thesis
    by (simp add: validate_def validate_with_reward_iff [OF assms(1)] k smul_zero [OF assms(1)])
qed

lemma fee_payments_balance:
  assumes "module_laws cr"
  shows "\<forall>tx \<in> set txs. fee_payment_ok cr floor tx \<Longrightarrow>
    sum_points (map in_commitment (concat (map tx_inputs txs))) =
    sum_points (map out_commitment (concat (map tx_outputs txs))) +
    (\<Sum>k \<leftarrow> concat (map tx_kernels txs). smul cr (scalar_of_u64 (fee k)) (gen_B cr)) +
    sum_points (map excess (concat (map tx_kernels txs)))"
proof (induction txs)
  case (Cons tx txs)
  then show ?case
    using single_kernel_balance [OF assms, of floor tx] by (simp add: algebra_simps)
qed simp

lemma sum_as_point_list:
  "distinct (map f xs) \<Longrightarrow> (\<Sum>c \<in> f ` set xs. as_point c) = sum_points (map f xs)"
  by (simp add: sum_points_eq flip: set_map sum_list_distinct_conv_sum_set)

lemma fee_kernels_eq: "fee_kernels b = concat (map tx_kernels (fee_payments b))"
  by (simp add: fee_kernels_def fee_payments_def comp_def)

text \<open>The sum that \<open>aggregate_validate\<close> checks: unspent outputs and kernel excesses.\<close>

definition ledger_sum :: "('p::ab_group_add, 's) chain_state \<Rightarrow> 'p" where
  "ledger_sum st = (\<Sum>c \<in> cs_utxos st. as_point c) + sum_points (map excess (cs_kernels st))"

lemma block_conserves:
  assumes "module_laws cr" and "apply_linear_block cr en b st = Ret (st', Some d)"
    and "0 < bh_height (b_header b)" and "finite (cs_utxos st)"
    and "distinct (map in_commitment (tx_inputs (b_body b)))" and "fresh_outputs st b"
  shows "ledger_sum st' = ledger_sum st +
      smul cr (scalar_of_u64 (block_reward_at (bh_height (b_header b)))) (gen_B cr) -
      smul cr (scalar_of_u64 (if block_reward_at (bh_height (b_header b)) = 0
        then sum_list (map fee (tx_kernels (b_body b))) else 0)) (gen_B cr) -
      (\<Sum>k \<leftarrow> fee_kernels b. smul cr (scalar_of_u64 (fee k)) (gen_B cr))"
proof -
  from assms(2) obtain cd where v: "validate_block cr en st b = Some cd"
      and st': "st' = applied_state cr b cd st"
    by (rule apply_linear_block_Some)
  let ?reward = "block_reward_at (bh_height (b_header b))"
  let ?fi = "concat (map tx_inputs (fee_payments b))"
  have "body_ok cr en st b" using v by (rule validate_block_Some)
  then have "validate_with_reward cr (b_body b) ?reward"
    using assms(3) by (simp add: body_ok_def block_reward_def Let_def split: if_splits)
  note body = this [unfolded validate_with_reward_iff [OF assms(1)], THEN conjunct2, THEN conjunct2]
  note fees = fee_payments_balance [OF assms(1), of "fee_payments b" 5]
  have distinct_in: "distinct (map in_commitment (all_inputs b))"
    using assms(5) fee_inputs_claimed [OF v] by (auto simp: claims_def all_inputs_def)
  have sub: "in_commitment ` set (all_inputs b) \<subseteq> cs_utxos st"
    using fee_inputs_claimed [OF v] body_inputs_unspent [OF v assms(3)]
    by (auto simp: claims_def all_inputs_def image_Un)
  have fresh: "distinct (map out_commitment (all_outputs b))"
      "out_commitment ` set (all_outputs b) \<inter> cs_utxos st = {}"
    using assms(6) by (simp_all add: fresh_outputs_def)
  have "(\<Sum>c \<in> cs_utxos st'. as_point c) =
      (\<Sum>c \<in> cs_utxos st - in_commitment ` set (all_inputs b). as_point c) +
      (\<Sum>c \<in> out_commitment ` set (all_outputs b). as_point c)"
    unfolding st' applied_utxos [OF v assms(3) fresh(2)]
    using assms(4) fresh(2) by (intro sum.union_disjoint) auto
  then have utxos: "(\<Sum>c \<in> cs_utxos st'. as_point c) = (\<Sum>c \<in> cs_utxos st. as_point c) -
      sum_points (map in_commitment (all_inputs b)) + sum_points (map out_commitment (all_outputs b))"
    using assms(4) sub by (simp add: sum_diff sum_as_point_list distinct_in fresh(1))
  have kernels: "cs_kernels st' = cs_kernels st @ tx_kernels (b_body b) @ fee_kernels b"
    by (simp add: st' applied_state_def Let_def new_kernels_def)
  have fees': "sum_points (map in_commitment ?fi) =
      sum_points (map out_commitment (concat (map tx_outputs (fee_payments b)))) +
      (\<Sum>k \<leftarrow> fee_kernels b. smul cr (scalar_of_u64 (fee k)) (gen_B cr)) +
      sum_points (map excess (fee_kernels b))"
    using fees fee_payments_ok [OF v] by (simp add: fee_kernels_eq)
  show ?thesis
    unfolding ledger_sum_def utxos kernels all_inputs_def all_outputs_def map_append sum_points_simps
      fees'
    using body by (simp add: algebra_simps)
qed

text \<open>C1. Conservation: an accepted block whose body lists no input twice and whose outputs are new changes
  the sum of unspent outputs and kernel excesses by exactly the block reward minus the fees paid
  for names and mints (and minus the body's fees once the reward is zero), as multiples of the
  value generator.\<close>

theorem accepted_block_conserves:
  assumes "module_laws cr" and "apply_linear_block cr en b st = Ret (st', Some d)"
    and "0 < bh_height (b_header b)" and "finite (cs_utxos st)"
    and "distinct (map in_commitment (tx_inputs (b_body b)))" and "fresh_outputs st b"
  shows "ledger_sum st' = ledger_sum st +
      smul cr (scalar_of_u64 (block_reward_at (bh_height (b_header b)))) (gen_B cr) -
      smul cr (scalar_of_u64 (if block_reward_at (bh_height (b_header b)) = 0
        then sum_list (map fee (tx_kernels (b_body b))) else 0)) (gen_B cr) -
      (\<Sum>k \<leftarrow> fee_kernels b. smul cr (scalar_of_u64 (fee k)) (gen_B cr))"
  using assms by (rule block_conserves)

theorem accepted_block_conserves_witness:
  "\<exists>st' d. apply_linear_block w_crypto w_env w_good_block w_state = Ret (st', Some d) \<and>
     ledger_sum st' = ledger_sum w_state + WP 540 0 - WP 0 0 - WP 5 0"
proof -
  obtain st' d where acc: "apply_linear_block w_crypto w_env w_good_block w_state = Ret (st', Some d)"
    using w_good_block_valid by (rule w_apply)
  have h: "bh_height (b_header w_good_block) = 1"
      "distinct (map in_commitment (tx_inputs (b_body w_good_block)))" "finite (cs_utxos w_state)"
      "fresh_outputs w_state w_good_block"
    by (simp_all add: w_good_block_def w_block_def w_state_def chain_new_def w_tx_def w_name_op_def
        fresh_outputs_def all_outputs_def fee_payments_def)
  have r: "block_reward_at 1 = 540" using w_reward_1 by (simp add: block_reward_def)
  have "ledger_sum st' = ledger_sum w_state + WP 540 0 - WP 0 0 - WP 5 0"
    using accepted_block_conserves [OF w_module_laws acc _ h(3,2,4)] unfolding h(1) r
    by (simp add: w_good_block_def w_block_def fee_kernels_def w_name_op_def w_tx_def w_crypto_def
        scalar_of_u64_def)
  with acc show ?thesis by blast
qed

lemma w_ledger_sum_state: "ledger_sum w_state = WP 1000170 61"
  by (simp add: ledger_sum_def w_state_def chain_new_def zero_wpoint_def)

text \<open>The body's inputs are not checked for repetition: a block that lists the same unspent output twice
  is accepted, removes it once, and so creates value. Here the ledger grows by 640 with a reward
  of 540.\<close>

theorem duplicate_body_input_accepted:
  "\<exists>st' d. apply_linear_block w_crypto w_env w_double_block w_state = Ret (st', Some d) \<and>
     block_reward (bh_height (b_header w_double_block)) = 540 \<and>
     ledger_sum st' = ledger_sum w_state + WP 640 7"
proof -
  from w_double_block_valid obtain cd where v: "validate_block w_crypto w_env w_state w_double_block = Some cd"
    by auto
  let ?st' = "applied_state w_crypto w_double_block cd w_state"
  have "apply_linear_block w_crypto w_env w_double_block w_state =
      Ret (?st', Some (delta_of w_crypto w_double_block cd w_state))"
    using v by (simp add: apply_linear_block_def commit_block_eq)
  moreover have "cs_utxos ?st' = {w_com 1000000 42, w_com 50 9, w_com 20 3, w_com 740 5}"
    by (auto simp: applied_state_def w_double_block_def w_block_def w_state_def chain_new_def w_tx_def
        body_utxos_def fee_payments_def Let_def)
  moreover have "cs_kernels ?st' = [\<lparr>excess = w_com 0 9, fee = 0, kernel_sig = w_sig\<rparr>]"
    by (simp add: applied_state_def w_double_block_def w_block_def w_state_def chain_new_def w_tx_def
        new_kernels_def fee_kernels_def Let_def)
  ultimately show ?thesis
    unfolding w_ledger_sum_state
    by (simp add: ledger_sum_def zero_wpoint_def w_double_block_def w_block_def w_state_def chain_new_def)
qed


section \<open>The vesting timelock\<close>

text \<open>C16. The body of an accepted block spends no locked tranche before its unlock height.\<close>

theorem accepted_body_respects_timelock:
  assumes "apply_linear_block cr en b st = Ret (st', Some d)"
    and "(c, unlock_height) \<in> set (en_locked en)" and "bh_height (b_header b) < unlock_height"
  shows "c \<notin> in_commitment ` set (tx_inputs (b_body b))"
proof -
  from assms(1) obtain cd where "validate_block cr en st b = Some cd" by (rule apply_linear_block_Some)
  then have "body_ok cr en st b" by (rule validate_block_Some)
  with assms(2,3) show ?thesis
    by (auto simp: body_ok_def Let_def spends_locked_output_early_def list_ex_iff)
qed

theorem accepted_body_respects_timelock_witness:
  "w_com 50 9 \<notin> in_commitment ` set (tx_inputs (b_body w_good_block))"
proof -
  obtain st' d where acc: "apply_linear_block w_crypto w_env w_good_block w_state = Ret (st', Some d)"
    using w_good_block_valid by (rule w_apply)
  show ?thesis
    by (rule accepted_body_respects_timelock [OF acc, where unlock_height = 1000])
      (simp_all add: w_env_def w_good_block_def w_block_def w_state_def chain_new_def)
qed

text \<open>C38. The timelock does not cover fee payments: a name registration can spend a locked tranche at height
  1 although it unlocks at height 1000.\<close>

theorem locked_output_spent_as_fee:
  "\<exists>st' d. apply_linear_block w_crypto w_env w_locked_block w_state = Ret (st', Some d) \<and>
     bh_height (b_header w_locked_block) = 1 \<and> (w_com 50 9, 1000) \<in> set (en_locked w_env) \<and>
     w_com 50 9 \<in> cs_utxos w_state \<and> w_com 50 9 \<notin> cs_utxos st'"
proof -
  from w_locked_block_valid obtain cd where v: "validate_block w_crypto w_env w_state w_locked_block = Some cd"
    by auto
  let ?st' = "applied_state w_crypto w_locked_block cd w_state"
  have "apply_linear_block w_crypto w_env w_locked_block w_state =
      Ret (?st', Some (delta_of w_crypto w_locked_block cd w_state))"
    using v by (simp add: apply_linear_block_def commit_block_eq)
  then show ?thesis
    by (auto simp: applied_state_def w_locked_block_def w_block_def w_state_def w_env_def chain_new_def
        w_tx_def w_name_op_def body_utxos_def fee_payments_def spend_tx_def Let_def)
qed

end
