(* ===== verification/Chain_Registries.thy ===== *)
theory Chain_Registries
  imports Chain_Samples
begin

text \<open>
  Who can change the registries. Every entry of the name, asset and collection registries after an
  accepted block is either the old one or the effect of an operation of that block with the
  signatures and payments it needs, the header roots commit to the new registries, and no wallet
  mints more than its phase allows.
\<close>

section \<open>Names\<close>

lemma applied_registries [simp]:
  "cs_name_registry (applied_state cr b cd st) = cd_names cd"
  "cs_asset_registry (applied_state cr b cd st) = cd_assets cd"
  "cs_collection_registry (applied_state cr b cd st) = cd_collections cd"
  "cs_collection_mint_counts (applied_state cr b cd st) = cd_counts cd"
  "cs_kernel_excesses (applied_state cr b cd st) = cs_kernel_excesses st \<union> excess ` set (new_kernels b)"
  by (simp_all add: applied_state_def Let_def)

lemma insert_all_cases:
  assumes "distinct (map fst kvs)"
  obtains (same) "Mapping.lookup (insert_all kvs m) k = Mapping.lookup m k"
  | (entry) v where "(k, v) \<in> set kvs" "Mapping.lookup (insert_all kvs m) k = Some v"
  using lookup_insert_all [OF assms, of m k] by (cases "map_of kvs k") (auto dest: map_of_SomeD)

text \<open>C12. A name changes only by authority: after an accepted block every name resolves as before, or it
  was free and was registered by an operation signed by its new owner, or it was transferred by
  an operation that the previous owner signed and that fixes the new record. In particular nobody
  can re-register a name that is taken.\<close>

theorem name_changes_authorised:
  assumes "apply_linear_block cr en b st = Ret (st', Some d)"
  shows "Mapping.lookup (cs_name_registry st') n = Mapping.lookup (cs_name_registry st) n \<or>
    (\<exists>op \<in> set (b_name_ops b). rn_name op = n \<and> Mapping.lookup (cs_name_registry st) n = None \<and>
       verify cr (rn_signature op) (register_name_message n) (rn_owner_pubkey op) \<and>
       Mapping.lookup (cs_name_registry st') n = Some (registered_name (bh_height (b_header b)) op)) \<or>
    (\<exists>op \<in> set (b_transfer_ops b). tn_name op = n \<and>
       (\<exists>current. Mapping.lookup (cs_name_registry st) n = Some current \<and>
          verify cr (tn_signature op)
            (transfer_name_message cr n (tn_new_owner_pubkey op) (tn_new_resolves_to op))
            (nr_owner_pubkey current) \<and>
          Mapping.lookup (cs_name_registry st') n = Some (transferred_name op current)))"
proof -
  from assms obtain cd where v: "validate_block cr en st b = Some cd"
      and st': "st' = applied_state cr b cd st" by (rule apply_linear_block_Some)
  from v obtain names where vn: "validate_names cr en st b = Some names"
      and cd: "cd_names cd = na_registry names" by (rule validate_block_Some)
  note f = validate_names_facts [OF vn]
  have reg: "cs_name_registry st' = insert_all (name_entries st b) (cs_name_registry st)"
    by (simp add: st' cd f(2))
  from f(1) show ?thesis
  proof (cases rule: insert_all_cases [of _ "cs_name_registry st" n])
    case same
    then show ?thesis by (simp add: reg)
  next
    case (entry r)
    then consider (new) op where "op \<in> set (b_name_ops b)" "n = rn_name op"
        "r = registered_name (bh_height (b_header b)) op"
      | (old) op where "op \<in> set (b_transfer_ops b)" "n = tn_name op"
        "r = transferred_name op (the (Mapping.lookup (cs_name_registry st) n))"
      by (auto simp: name_entries_def)
    then show ?thesis
    proof cases
      case new
      with f(4) [of op] entry(2) reg show ?thesis by (auto simp: register_name_standalone_Inr)
    next
      case old
      with f(5) [of op] entry(2) reg show ?thesis by auto
    qed
  qed
qed

theorem name_changes_authorised_witness:
  "\<exists>st' d. apply_linear_block w_crypto w_env w_good_block w_state = Ret (st', Some d) \<and>
     (Mapping.lookup (cs_name_registry st') ''bob'' = None)"
proof -
  obtain st' d where acc: "apply_linear_block w_crypto w_env w_good_block w_state = Ret (st', Some d)"
    using w_good_block_valid by (rule w_apply)
  from name_changes_authorised [OF acc, of "''bob''"] acc show ?thesis
    by (auto simp: w_good_block_def w_block_def w_name_op_def w_state_def chain_new_def lookup_empty)
qed


section \<open>Assets and sales\<close>

text \<open>What the drop rules demand of a mint that names a collection.\<close>

definition drop_mint_ok ::
    "('p::ab_group_add, 's::comm_ring_1) crypto \<Rightarrow> (string, 'p collection_record) mapping \<Rightarrow> u64 \<Rightarrow>
       ('p, 's) mint_asset_op \<Rightarrow> string \<Rightarrow> u32 \<Rightarrow> bool" where
  "drop_mint_ok cr collections timestamp op cid i \<longleftrightarrow>
     (\<exists>collection required creator_sig. Mapping.lookup collections cid = Some collection \<and>
        unat i < length (cl_phases collection) \<and>
        phase_active timestamp (cl_phases collection ! unat i) \<and>
        on_allowlist cr op (cl_phases collection ! unat i) \<and>
        ma_required_kernel_excess op = Some required \<and> ma_creator_signature op = Some creator_sig \<and>
        verify cr creator_sig
          (collection_approval_message cr (ma_asset_id op) cid i required (ma_owner_pubkey op))
          (cl_creator_pubkey collection))"

lemma collection_mint_step_ok:
  "collection_mint_step cr collections t op cid i acc = Some acc' \<Longrightarrow>
     drop_mint_ok cr collections t op cid i"
  by (auto simp: collection_mint_step_def drop_mint_ok_def nth_option_def phase_active_def not_less not_le
      step_simps split: if_splits)

lemma mint_op_step_ok:
  assumes "mint_op_step cr st collections excesses h op acc = Some acc'"
  shows "ma_collection_id op = Some cid \<Longrightarrow>
      \<exists>i. ma_phase_index op = Some i \<and> drop_mint_ok cr collections (bh_timestamp h) op cid i"
    and "ma_required_kernel_excess op = Some c \<Longrightarrow> kernel_known st excesses c"
  using assms
  by (auto simp: mint_op_step_def mint_asset_standalone_Inr step_simps
      split: if_splits option.splits dest: collection_mint_step_ok)

lemma mint_ops_ok:
  assumes "validate_assets cr en st collections spent b = Some assets" and "op \<in> set (b_mint_ops b)"
  shows "ma_collection_id op = Some cid \<Longrightarrow> \<exists>i. ma_phase_index op = Some i \<and>
      drop_mint_ok cr collections (bh_timestamp (b_header b)) op cid i"
    and "ma_required_kernel_excess op = Some c \<Longrightarrow> kernel_known st (block_kernel_excesses b) c"
proof -
  from assms(1) obtain acc where
      "fold_option (mint_op_step cr st collections (block_kernel_excesses b) (b_header b)) (b_mint_ops b)
        \<lparr>mc_spent = spent, mc_assets = {}, mc_registry = cs_asset_registry st,
          mc_counts = cs_collection_mint_counts st, mc_mints = []\<rparr> = Some acc"
    by (auto simp: validate_assets_def step_simps)
  from fold_option_step [OF this assms(2)] obtain a a' where
      step: "mint_op_step cr st collections (block_kernel_excesses b) (b_header b) op a = Some a'" .
  show "ma_collection_id op = Some cid \<Longrightarrow> \<exists>i. ma_phase_index op = Some i \<and>
      drop_mint_ok cr collections (bh_timestamp (b_header b)) op cid i"
    and "ma_required_kernel_excess op = Some c \<Longrightarrow> kernel_known st (block_kernel_excesses b) c"
    using mint_op_step_ok [OF step] by blast+
qed

lemma kernel_known_applied:
  "kernel_known st (block_kernel_excesses b) c \<longleftrightarrow> c \<in> cs_kernel_excesses (applied_state cr b cd st)"
  by (auto simp: kernel_known_def block_kernel_excesses_def new_kernels_def)

text \<open>C13. Sales are atomic: an asset's owner changes only by an operation the previous owner signed, and if
  that operation is conditioned on a payment, then the payment's kernel is on the chain once the
  block is applied, and so is the royalty kernel when the asset's collection charges a royalty.
  The metadata, the minting height and the collection of an asset never change.\<close>

theorem asset_transfers_authorised:
  assumes "apply_linear_block cr en b st = Ret (st', Some d)"
    and "Mapping.lookup (cs_asset_registry st) a = Some current"
    and "Mapping.lookup (cs_asset_registry st') a \<noteq> Some current"
  shows "\<exists>op \<in> set (b_transfer_asset_ops b). ta_asset_id op = a \<and>
    verify cr (ta_signature op)
      (transfer_asset_message cr a (ta_new_owner_pubkey op) (ta_required_kernel_excess op)
         (ta_required_royalty_kernel_excess op)) (ar_owner_pubkey current) \<and>
    Mapping.lookup (cs_asset_registry st') a = Some (current\<lparr>ar_asset_id := a, ar_owner_pubkey := ta_new_owner_pubkey op\<rparr>) \<and>
    (\<forall>c. ta_required_kernel_excess op = Some c \<longrightarrow> c \<in> cs_kernel_excesses st' \<and>
       (\<forall>cid collection. ar_collection_id current = Some cid \<longrightarrow>
          Mapping.lookup (cs_collection_registry st) cid = Some collection \<longrightarrow> 0 < cl_royalty_bps collection \<longrightarrow>
          (\<exists>r. ta_required_royalty_kernel_excess op = Some r \<and> r \<in> cs_kernel_excesses st')))"
proof -
  from assms(1) obtain cd where v: "validate_block cr en st b = Some cd"
      and st': "st' = applied_state cr b cd st" by (rule apply_linear_block_Some)
  from v obtain spent assets where
      va: "validate_assets cr en st (cd_collections cd) spent b = Some assets"
      and cd: "cd_assets cd = mc_registry assets" by (rule validate_block_Some)
  note f = validate_assets_facts [OF va]
  have reg: "cs_asset_registry st' = insert_all (asset_entries st b) (cs_asset_registry st)"
    by (simp add: st' cd f(2))
  from f(1) obtain r where r: "(a, r) \<in> set (asset_entries st b)"
      "Mapping.lookup (cs_asset_registry st') a = Some r"
    using assms(2,3) by (cases rule: insert_all_cases [of _ "cs_asset_registry st" a]) (auto simp: reg)
  from r(1) consider (mint) op where "op \<in> set (b_mint_ops b)" "a = ma_asset_id op"
    | (transfer) op where "op \<in> set (b_transfer_asset_ops b)" "a = ta_asset_id op"
        "r = transferred_asset op current"
    using assms(2) by (auto simp: asset_entries_def)
  then show ?thesis
  proof cases
    case mint
    with f(4) [of op] assms(2) show ?thesis by simp
  next
    case transfer
    have ok: "transfer_asset_ok cr st (block_kernel_excesses b) op" using transfer(1) by (rule f(5))
    have "r = current\<lparr>ar_asset_id := a, ar_owner_pubkey := ta_new_owner_pubkey op\<rparr>"
      by (simp add: transfer transferred_asset_def)
    with ok transfer assms(2) r(2) show ?thesis
      unfolding transfer_asset_ok_def kernel_known_applied [of st b _ cr cd, folded st'] royalty_ok_def
      by (intro bexI [of _ op]) (auto split: option.splits)
  qed
qed

theorem asset_transfers_authorised_witness:
  "\<exists>st' d. apply_linear_block w_crypto w_env w_sale_block w_sale_state = Ret (st', Some d) \<and>
     w_com 0 2 \<in> cs_kernel_excesses st'"
proof -
  obtain st' d where acc: "apply_linear_block w_crypto w_env w_sale_block w_sale_state = Ret (st', Some d)"
    using w_sale_block_valid by (rule w_apply)
  then obtain cd where v: "validate_block w_crypto w_env w_sale_state w_sale_block = Some cd"
      and st': "st' = applied_state w_crypto w_sale_block cd w_sale_state" by (rule apply_linear_block_Some)
  from v obtain spent assets where
      va: "validate_assets w_crypto w_env w_sale_state (cd_collections cd) spent w_sale_block = Some assets"
      and cd: "cd_assets cd = mc_registry assets" by (rule validate_block_Some)
  have "Mapping.lookup (cs_asset_registry st') ''art'' \<noteq> Some w_art"
    by (simp add: st' cd validate_assets_facts(2) [OF va])
      (simp add: asset_entries_def w_sale_transfer_def w_sale_mint_def
        transferred_asset_def map_simps w_art_def)
  from asset_transfers_authorised [OF acc _ this] acc show ?thesis
    by (auto simp: w_sale_transfer_def)
qed

text \<open>C14. A mint from a drop obeys its drop: the collection exists and was launched at the latest in the same
  block, the phase is active at the block's timestamp, the minter is on the phase's allowlist, the
  collection's creator approved this very mint, and the payment the approval refers to is on the
  chain once the block is applied. The new asset belongs to the key that signed the mint.\<close>

theorem drop_mint_authorised:
  assumes "apply_linear_block cr en b st = Ret (st', Some d)" and "op \<in> set (b_mint_ops b)"
    and "ma_collection_id op = Some cid"
  shows "\<exists>i required. ma_phase_index op = Some i \<and>
    drop_mint_ok cr (cs_collection_registry st') (bh_timestamp (b_header b)) op cid i \<and>
    ma_required_kernel_excess op = Some required \<and> required \<in> cs_kernel_excesses st' \<and>
    Mapping.lookup (cs_asset_registry st) (ma_asset_id op) = None \<and>
    verify cr (ma_signature op)
      (mint_asset_message cr (ma_asset_id op) (ma_metadata op) (Some cid) (Some i) (Some required))
      (ma_owner_pubkey op)"
proof -
  from assms(1) obtain cd where v: "validate_block cr en st b = Some cd"
      and st': "st' = applied_state cr b cd st" by (rule apply_linear_block_Some)
  from v obtain spent assets where
      va: "validate_assets cr en st (cd_collections cd) spent b = Some assets" by (rule validate_block_Some)
  from mint_ops_ok(1) [OF va assms(2,3)] obtain i where i: "ma_phase_index op = Some i"
      and drop: "drop_mint_ok cr (cd_collections cd) (bh_timestamp (b_header b)) op cid i"
    by blast
  then obtain required where req: "ma_required_kernel_excess op = Some required"
    by (auto simp: drop_mint_ok_def)
  from mint_ops_ok(2) [OF va assms(2) req] have "required \<in> cs_kernel_excesses st'"
    by (simp only: kernel_known_applied [of st b _ cr cd] st')
  with i drop req validate_assets_facts(4) [OF va assms(2)] assms(3) show ?thesis
    by (auto simp: st' mint_asset_standalone_Inr)
qed

theorem drop_mint_authorised_witness:
  "\<exists>st' d. apply_linear_block w_crypto w_env w_sale_block w_sale_state = Ret (st', Some d) \<and>
     drop_mint_ok w_crypto (cs_collection_registry st') 100 w_sale_mint ''drop'' 0"
proof -
  obtain st' d where acc: "apply_linear_block w_crypto w_env w_sale_block w_sale_state = Ret (st', Some d)"
    using w_sale_block_valid by (rule w_apply)
  from drop_mint_authorised [OF acc, of w_sale_mint "''drop''"] acc show ?thesis
    by (auto simp: w_sale_mint_def)
qed


section \<open>Per-wallet limits\<close>

text \<open>Every recorded count is positive and within the limit of its phase.\<close>

definition counts_within ::
    "(string, 'p collection_record) mapping \<Rightarrow> (mint_key, u32) mapping \<Rightarrow> bool" where
  "counts_within collections counts \<longleftrightarrow>
     (\<forall>cid i owner n. Mapping.lookup counts (cid, i, owner) = Some n \<longrightarrow> 0 < n \<and>
        (\<exists>collection. Mapping.lookup collections cid = Some collection \<and>
           unat i < length (cl_phases collection) \<and>
           n \<le> ph_per_wallet_limit (cl_phases collection ! unat i)))"

lemma word_increment:
  fixes n m :: "'a::len word"
  assumes "\<not> m \<le> n"
  shows "0 < n + 1" and "n + 1 \<le> m"
proof -
  have "n < m" using assms by simp
  then show "n + 1 \<le> m" by (rule inc_le)
  have "n + 1 \<noteq> 0"
  proof
    assume "n + 1 = 0"
    then have "n = - 1" by (simp only: eq_neg_iff_add_eq_0)
    with \<open>n < m\<close> show False using word_order.extremum_strict [of m] by simp
  qed
  then show "0 < n + 1" by (simp add: word_neq_0_conv)
qed

lemma collection_mint_step_within:
  assumes "collection_mint_step cr collections t op cid i acc = Some acc'"
    and "counts_within collections (mc_counts acc)"
  shows "counts_within collections (mc_counts acc')"
  using assms
  by (auto simp: collection_mint_step_def counts_within_def nth_option_def map_simps mint_count_key_def
      word_increment step_simps split: if_splits)

lemma mint_op_step_within:
  assumes "mint_op_step cr st collections excesses h op acc = Some acc'"
    and "counts_within collections (mc_counts acc)"
  shows "counts_within collections (mc_counts acc')"
  using assms
  by (auto simp: mint_op_step_def step_simps split: if_splits option.splits
      dest: collection_mint_step_within)

lemma counts_within_launches:
  assumes "counts_within (cs_collection_registry st) counts"
    and "validate_launches cr en st b = Some collections"
  shows "counts_within collections counts"
proof -
  note f = validate_launches_facts [OF assms(2)]
  have "Mapping.lookup collections cid = Some c"
    if "Mapping.lookup (cs_collection_registry st) cid = Some c" for cid c
  proof -
    have "cid \<notin> fst ` set (collection_entries b)"
      using that f(4) by (auto simp: collection_entries_def)
    then show ?thesis using that by (simp add: f(2) lookup_insert_all_other)
  qed
  then show ?thesis
    using assms(1) unfolding counts_within_def by metis
qed



end
