(* ===== verification/Chain_Rollback.thy ===== *)
theory Chain_Rollback
  imports Chain_Safety Chain_Registries
begin

text \<open>
  \<open>ChainState::rollback_block\<close> of \<open>core/src/chain.rs\<close>, and that it undoes \<open>apply_linear_block\<close>:
  outputs, kernels, the three registries, the mint counts and the snapshots are restored exactly.
  The validator set is not: it is reset to the snapshot of the previous height, which was taken
  before the previous block was applied.
\<close>

section \<open>Rollback\<close>

record ('p, 's) rollback_delta =
  rd_un_consumed_outputs :: "'p commitment list"
  rd_restored_inputs :: "'p commitment list"
  rd_removed_kernel_excesses :: "'p commitment list"
  rd_active_validators_after :: "('p, 's) validator list"
  rd_removed_names :: "string list"
  rd_removed_assets :: "string list"
  rd_removed_collections :: "string list"
  rd_new_height :: u64
  rd_new_tip :: hash32

record ('p, 's) undo_work =
  un_utxos :: "'p commitment set"
  un_kernels :: "('p, 's) tx_kernel list"
  un_kernel_excesses :: "'p commitment set"
  un_consumed_outputs :: "'p commitment list"
  un_restored_inputs :: "'p commitment list"
  un_removed_excesses :: "'p commitment list"

text \<open>Steps 1 to 3 for one transaction: the body, or the fee payment of an operation.\<close>

definition undo_output :: "'p tx_output \<Rightarrow> ('p, 's) undo_work \<Rightarrow> ('p, 's) undo_work" where
  "undo_output out w = w\<lparr>un_utxos := Set.remove (out_commitment out) (un_utxos w),
     un_consumed_outputs := un_consumed_outputs w @ [out_commitment out]\<rparr>"

definition undo_input :: "'p tx_input \<Rightarrow> ('p, 's) undo_work \<Rightarrow> ('p, 's) undo_work" where
  "undo_input i w = w\<lparr>un_utxos := insert (in_commitment i) (un_utxos w),
     un_restored_inputs := un_restored_inputs w @ [in_commitment i]\<rparr>"

definition undo_kernel :: "('p, 's) tx_kernel \<Rightarrow> ('p, 's) undo_work \<Rightarrow> ('p, 's) undo_work" where
  "undo_kernel k w = w\<lparr>un_kernels := filter (\<lambda>j. excess j \<noteq> excess k) (un_kernels w),
     un_kernel_excesses := Set.remove (excess k) (un_kernel_excesses w),
     un_removed_excesses := un_removed_excesses w @ [excess k]\<rparr>"

definition undo_tx :: "('p, 's) transaction \<Rightarrow> ('p, 's) undo_work \<Rightarrow> ('p, 's) undo_work" where
  "undo_tx tx w =
     fold undo_kernel (tx_kernels tx) (fold undo_input (tx_inputs tx) (fold undo_output (tx_outputs tx) w))"

definition undo_name_op ::
    "('p, 's) register_name_op \<Rightarrow>
       ('p, 's) undo_work \<times> (string, 'p name_record) mapping \<times> string list \<Rightarrow>
       ('p, 's) undo_work \<times> (string, 'p name_record) mapping \<times> string list" where
  "undo_name_op op = (\<lambda>(w, registry, removed).
     (undo_tx (rn_fee_payment op) w, Mapping.delete (rn_name op) registry, removed @ [rn_name op]))"

definition restore_snapshot ::
    "u64 \<Rightarrow> (u64, (string \<times> 'v) list) mapping \<times> (string, 'v) mapping \<Rightarrow>
       (u64, (string \<times> 'v) list) mapping \<times> (string, 'v) mapping" where
  "restore_snapshot height = (\<lambda>(snapshots, registry).
     case Mapping.lookup snapshots height of
       None \<Rightarrow> (snapshots, registry)
     | Some olds \<Rightarrow> (Mapping.delete height snapshots, insert_all olds registry))"

definition undo_count :: "'k \<Rightarrow> ('k, u32) mapping \<Rightarrow> ('k, u32) mapping" where
  "undo_count k counts =
     (case Mapping.lookup counts k of None \<Rightarrow> counts
      | Some n \<Rightarrow> if n \<le> 1 then Mapping.delete k counts else Mapping.update k (n - 1) counts)"

definition undo_mint_op ::
    "('p, 's) crypto \<Rightarrow> ('p, 's) mint_asset_op \<Rightarrow>
       ('p, 's) undo_work \<times> (string, 'p asset_record) mapping \<times> string list \<times> (mint_key, u32) mapping \<Rightarrow>
       ('p, 's) undo_work \<times> (string, 'p asset_record) mapping \<times> string list \<times> (mint_key, u32) mapping" where
  "undo_mint_op cr op = (\<lambda>(w, registry, removed, counts).
     (undo_tx (ma_fee_payment op) w, Mapping.delete (ma_asset_id op) registry, removed @ [ma_asset_id op],
      case (ma_collection_id op, ma_phase_index op) of
        (Some collection_id, Some phase_index) \<Rightarrow> undo_count (mint_count_key cr collection_id phase_index op) counts
      | _ \<Rightarrow> counts))"

definition rollback_block ::
    "('p, 's) crypto \<Rightarrow> ('p, 's) chain_state \<Rightarrow> (('p, 's) chain_state \<times> ('p, 's) rollback_delta) option" where
  "rollback_block cr st =
     (if cs_current_height st = 0 then None
      else case Mapping.lookup (cs_blocks st) (cs_last_block_hash st) of
        None \<Rightarrow> None
      | Some tip \<Rightarrow>
          let height = cs_current_height st;
              w = undo_tx (b_body tip) \<lparr>un_utxos = cs_utxos st, un_kernels = cs_kernels st,
                    un_kernel_excesses = cs_kernel_excesses st,
                    un_consumed_outputs = [], un_restored_inputs = [], un_removed_excesses = []\<rparr>;
              (w, names, removed_names) = fold undo_name_op (b_name_ops tip) (w, cs_name_registry st, []);
              (name_snaps, names) = restore_snapshot height (cs_transfer_snapshots st, names);
              (w, assets, removed_assets, counts) =
                fold (undo_mint_op cr) (b_mint_ops tip) (w, cs_asset_registry st, [], cs_collection_mint_counts st);
              collections = delete_all (map lc_collection_id (b_launch_collection_ops tip)) (cs_collection_registry st);
              (asset_snaps, assets) = restore_snapshot height (cs_asset_transfer_snapshots st, assets);
              prev_height = height - 1;
              validators = (case Mapping.lookup (cs_validator_snapshots st) prev_height of
                None \<Rightarrow> [] | Some vs \<Rightarrow> vs)
          in Some
            (st\<lparr>cs_utxos := un_utxos w, cs_kernels := un_kernels w, cs_kernel_excesses := un_kernel_excesses w,
               cs_current_height := prev_height, cs_last_block_hash := bh_prev_hash (b_header tip),
               cs_active_validators := validators,
               cs_validator_snapshots := Mapping.delete height (cs_validator_snapshots st),
               cs_name_registry := names, cs_transfer_snapshots := name_snaps,
               cs_asset_registry := assets, cs_asset_transfer_snapshots := asset_snaps,
               cs_collection_registry := collections, cs_collection_mint_counts := counts\<rparr>,
             \<lparr>rd_un_consumed_outputs = un_consumed_outputs w, rd_restored_inputs = un_restored_inputs w,
               rd_removed_kernel_excesses = un_removed_excesses w, rd_active_validators_after = validators,
               rd_removed_names = removed_names, rd_removed_assets = removed_assets,
               rd_removed_collections = map lc_collection_id (b_launch_collection_ops tip),
               rd_new_height = prev_height, rd_new_tip = bh_prev_hash (b_header tip)\<rparr>))"


section \<open>Undoing transactions\<close>

lemma undo_tx_state:
  "un_utxos (undo_tx tx w) =
     un_utxos w - out_commitment ` set (tx_outputs tx) \<union> in_commitment ` set (tx_inputs tx)"
  "un_kernels (undo_tx tx w) = filter (\<lambda>j. excess j \<notin> excess ` set (tx_kernels tx)) (un_kernels w)"
  "un_kernel_excesses (undo_tx tx w) = un_kernel_excesses w - excess ` set (tx_kernels tx)"
proof -
  have outs: "un_utxos (fold undo_output os w) = un_utxos w - out_commitment ` set os \<and>
      un_kernels (fold undo_output os w) = un_kernels w \<and>
      un_kernel_excesses (fold undo_output os w) = un_kernel_excesses w" for os and w :: "('a, 'b) undo_work"
    by (induction os arbitrary: w) (auto simp: undo_output_def)
  have ins: "un_utxos (fold undo_input is w) = un_utxos w \<union> in_commitment ` set is \<and>
      un_kernels (fold undo_input is w) = un_kernels w \<and>
      un_kernel_excesses (fold undo_input is w) = un_kernel_excesses w" for "is" and w :: "('a, 'b) undo_work"
    by (induction "is" arbitrary: w) (auto simp: undo_input_def)
  have kernels: "un_utxos (fold undo_kernel ks w) = un_utxos w \<and>
      un_kernels (fold undo_kernel ks w) = filter (\<lambda>j. excess j \<notin> excess ` set ks) (un_kernels w) \<and>
      un_kernel_excesses (fold undo_kernel ks w) = un_kernel_excesses w - excess ` set ks"
    for ks and w :: "('a, 'b) undo_work"
    by (induction ks arbitrary: w) (auto simp: undo_kernel_def conj_commute intro: filter_cong)
  show "un_utxos (undo_tx tx w) =
      un_utxos w - out_commitment ` set (tx_outputs tx) \<union> in_commitment ` set (tx_inputs tx)"
    "un_kernels (undo_tx tx w) = filter (\<lambda>j. excess j \<notin> excess ` set (tx_kernels tx)) (un_kernels w)"
    "un_kernel_excesses (undo_tx tx w) = un_kernel_excesses w - excess ` set (tx_kernels tx)"
    by (simp_all add: undo_tx_def outs ins kernels)
qed

lemma fold_undo_tx:
  "un_kernels (fold undo_tx txs w) =
     filter (\<lambda>j. excess j \<notin> excess ` set (concat (map tx_kernels txs))) (un_kernels w)"
  "un_kernel_excesses (fold undo_tx txs w) =
     un_kernel_excesses w - excess ` set (concat (map tx_kernels txs))"
  by (induction txs arbitrary: w)
    (auto simp: undo_tx_state image_Un conj_commute Diff_Un intro: filter_cong)

lemma fold_undo_tx_utxos:
  "out_commitment ` set (concat (map tx_outputs txs)) \<inter> in_commitment ` set (concat (map tx_inputs txs)) = {} \<Longrightarrow>
     un_utxos (fold undo_tx txs w) =
       un_utxos w - out_commitment ` set (concat (map tx_outputs txs)) \<union>
       in_commitment ` set (concat (map tx_inputs txs))"
proof (induction txs arbitrary: w)
  case (Cons tx txs)
  let ?I = "in_commitment ` set (concat (map tx_inputs txs))"
  let ?O = "out_commitment ` set (concat (map tx_outputs txs))"
  have disj: "(out_commitment ` set (tx_outputs tx) \<union> ?O) \<inter> (in_commitment ` set (tx_inputs tx) \<union> ?I) = {}"
    using Cons.prems unfolding list.map concat.simps set_append image_Un .
  then have "?O \<inter> ?I = {}" by blast
  from Cons.IH [OF this, of "undo_tx tx w"] disj show ?case
    unfolding list.map concat.simps set_append image_Un fold_simps undo_tx_state by blast
qed simp

lemma fold_undo_name_op:
  "fold undo_name_op ops (w, registry, removed) =
     (fold undo_tx (map rn_fee_payment ops) w, delete_all (map rn_name ops) registry, removed @ map rn_name ops)"
  by (induction ops arbitrary: w registry removed) (simp_all add: undo_name_op_def)

text \<open>The keys of the drop mints of a list of operations, in order.\<close>

definition drop_keys :: "('p, 's) crypto \<Rightarrow> ('p, 's) mint_asset_op list \<Rightarrow> mint_key list" where
  "drop_keys cr ops = concat (map (\<lambda>op. case (ma_collection_id op, ma_phase_index op) of
     (Some cid, Some i) \<Rightarrow> [mint_count_key cr cid i op] | _ \<Rightarrow> []) ops)"

lemma fold_undo_mint_op:
  "fold (undo_mint_op cr) ops (w, registry, removed, counts) =
     (fold undo_tx (map ma_fee_payment ops) w, delete_all (map ma_asset_id ops) registry,
      removed @ map ma_asset_id ops, fold undo_count (drop_keys cr ops) counts)"
  by (induction ops arbitrary: w registry removed counts)
    (auto simp: undo_mint_op_def drop_keys_def split: option.splits)



section \<open>Undoing counts\<close>

text \<open>A wallet's count as a number, and the increment a mint performs.\<close>

definition count_of :: "('k, u32) mapping \<Rightarrow> 'k \<Rightarrow> u32" where
  "count_of m k = (case Mapping.lookup m k of None \<Rightarrow> 0 | Some n \<Rightarrow> n)"

definition bump :: "'k \<Rightarrow> ('k, u32) mapping \<Rightarrow> ('k, u32) mapping" where
  "bump k m = Mapping.update k (count_of m k + 1) m"

definition positive :: "('k, u32) mapping \<Rightarrow> bool" where
  "positive m \<longleftrightarrow> (\<forall>k n. Mapping.lookup m k = Some n \<longrightarrow> 0 < n)"

lemma count_of_bump: "count_of (bump k m) j = (if j = k then count_of m k + 1 else count_of m j)"
  by (simp add: count_of_def bump_def map_simps)

lemma bump_commute: "bump j (bump k m) = bump k (bump j m)"
  by (rule mapping_eqI) (auto simp: bump_def count_of_def map_simps)

lemma fold_bump_commute: "fold bump ks (bump k m) = bump k (fold bump ks m)"
proof (induction ks arbitrary: m)
  case (Cons j ks)
  then show ?case by (simp add: bump_commute [of j k])
qed simp

lemma count_of_fold_bump: "count_of (fold bump ks m) k = count_of m k + of_nat (count_list ks k)"
  by (induction ks arbitrary: m) (auto simp: count_of_bump algebra_simps)

lemma unat_plus_one: "unat (n :: u32) + 1 < 2 ^ 32 \<Longrightarrow> unat (n + 1) = unat n + 1"
  by (simp add: unat_word_ariths)

lemma positive_bump:
  assumes "positive m" and "unat (count_of m k) + 1 < 2 ^ 32"
  shows "positive (bump k m)"
proof -
  have "0 < count_of m k + 1"
    using unat_plus_one [OF assms(2)] by (simp add: word_less_nat_alt)
  then show ?thesis
    using assms(1) unfolding positive_def bump_def by (simp add: map_simps)
qed

lemma undo_count_bump:
  assumes "positive m" and "unat (count_of m k) + 1 < 2 ^ 32"
  shows "undo_count k (bump k m) = m"
proof (cases "Mapping.lookup m k")
  case None
  then show ?thesis
    by (intro mapping_eqI) (auto simp: undo_count_def bump_def count_of_def map_simps)
next
  case (Some n)
  from assms(1) Some have "0 < unat n" unfolding positive_def by (simp add: word_less_nat_alt)
  moreover have "unat (n + 1) = unat n + 1" using unat_plus_one assms(2) Some by (simp add: count_of_def)
  ultimately have "\<not> n + 1 \<le> 1" by (simp add: word_le_nat_alt)
  then show ?thesis
    using Some by (intro mapping_eqI) (auto simp: undo_count_def bump_def count_of_def map_simps)
qed

text \<open>Counts that a list of mints may raise without wrapping.\<close>

definition headroom :: "('k, u32) mapping \<Rightarrow> 'k list \<Rightarrow> bool" where
  "headroom m ks \<longleftrightarrow> (\<forall>k. unat (count_of m k) + count_list ks k < 2 ^ 32)"

lemma headroom_Cons:
  assumes "headroom m (k # ks)"
  shows "unat (count_of m k) + 1 < 2 ^ 32" and "headroom (bump k m) ks"
proof -
  have h: "unat (count_of m j) + count_list (k # ks) j < 2 ^ 32" for j
    using assms unfolding headroom_def by blast
  from h [of k] show one: "unat (count_of m k) + 1 < 2 ^ 32" by simp
  show "headroom (bump k m) ks"
    unfolding headroom_def
  proof
    fix j
    show "unat (count_of (bump k m) j) + count_list ks j < 2 ^ 32"
      using h [of j] unat_plus_one [OF one] by (cases "j = k") (simp_all add: count_of_bump)
  qed
qed

lemma undo_counts:
  fixes m :: "('k, u32) mapping"
  shows "positive m \<Longrightarrow> headroom m ks \<Longrightarrow> fold undo_count ks (fold bump ks m) = m"
proof -
  have pos: "positive m \<Longrightarrow> headroom m ks \<Longrightarrow> positive (fold bump ks m)" for m :: "('k, u32) mapping" and ks
  proof (induction ks arbitrary: m)
    case (Cons k ks)
    then show ?case using headroom_Cons [OF Cons.prems(2)] positive_bump [of m k] by simp
  qed simp
  have room: "unat (count_of (fold bump ks m) k) + 1 < 2 ^ 32" if "headroom m (k # ks)"
    for m :: "('k, u32) mapping" and k ks
  proof -
    have "unat (count_of m k) + count_list (k # ks) k < 2 ^ 32"
      using that unfolding headroom_def by blast
    then have less: "unat (count_of m k) + count_list ks k + 1 < 2 ^ 32" by simp
    then have "unat (count_of m k + of_nat (count_list ks k)) = unat (count_of m k) + count_list ks k"
      by (simp add: unat_word_ariths unat_of_nat take_bit_eq_mod)
    with less show ?thesis by (simp add: count_of_fold_bump)
  qed
  have weaker: "headroom m ks" if "headroom m (k # ks)" for m :: "('k, u32) mapping" and k ks
    unfolding headroom_def
  proof
    fix j
    have "unat (count_of m j) + count_list (k # ks) j < 2 ^ 32" using that unfolding headroom_def by blast
    then show "unat (count_of m j) + count_list ks j < 2 ^ 32" by (simp split: if_splits)
  qed
  show "positive m \<Longrightarrow> headroom m ks \<Longrightarrow> fold undo_count ks (fold bump ks m) = m"
  proof (induction ks)
    case (Cons k ks)
    have "undo_count k (bump k (fold bump ks m)) = fold bump ks m"
      by (rule undo_count_bump [OF pos [OF Cons.prems(1) weaker [OF Cons.prems(2)]]
            room [OF Cons.prems(2)]])
    with Cons weaker [OF Cons.prems(2)] show ?case by (simp add: fold_bump_commute)
  qed simp
qed

text \<open>The mint loop bumps the counts of its drop mints, never past a limit.\<close>

lemma collection_mint_step_bump:
  assumes "collection_mint_step cr collections t op cid i acc = Some acc'"
  shows "mc_counts acc' = bump (mint_count_key cr cid i op) (mc_counts acc)"
    and "mc_mints acc' = mc_mints acc @ [mint_count_key cr cid i op]"
    and "unat (count_of (mc_counts acc) (mint_count_key cr cid i op)) + 1 < 2 ^ 32"
proof -
  from assms obtain limit :: u32 where
      "\<not> limit \<le> count_of (mc_counts acc) (mint_count_key cr cid i op)"
    and "acc' = acc\<lparr>mc_counts := bump (mint_count_key cr cid i op) (mc_counts acc),
        mc_mints := mc_mints acc @ [mint_count_key cr cid i op]\<rparr>"
    by (auto simp: collection_mint_step_def step_simps bump_def count_of_def split: if_splits)
  then show "mc_counts acc' = bump (mint_count_key cr cid i op) (mc_counts acc)"
    "mc_mints acc' = mc_mints acc @ [mint_count_key cr cid i op]"
    "unat (count_of (mc_counts acc) (mint_count_key cr cid i op)) + 1 < 2 ^ 32"
    using unsigned_less [where ?'a = nat, of limit] by (simp_all add: word_le_nat_alt)
qed


lemma headroom_ConsI:
  assumes "unat (count_of m k) + 1 < 2 ^ 32" and "headroom (bump k m) ks"
  shows "headroom m (k # ks)"
  unfolding headroom_def
proof
  fix j
  have "unat (count_of (bump k m) j) + count_list ks j < 2 ^ 32"
    using assms(2) unfolding headroom_def by blast
  then show "unat (count_of m j) + count_list (k # ks) j < 2 ^ 32"
    using unat_plus_one [OF assms(1)] by (cases "j = k") (simp_all add: count_of_bump)
qed

lemma headroom_Nil: "headroom m []"
  unfolding headroom_def using unsigned_less [where ?'a = nat, of "count_of m k" for k] by simp

lemma mint_ops_bump:
  "fold_option (mint_op_step cr st collections excesses h) ops acc = Some acc' \<Longrightarrow>
     mc_counts acc' = fold bump (drop_keys cr ops) (mc_counts acc) \<and>
     mc_mints acc' = mc_mints acc @ drop_keys cr ops \<and> headroom (mc_counts acc) (drop_keys cr ops)"
proof (induction ops arbitrary: acc)
  case Nil
  then show ?case by (simp add: drop_keys_def headroom_Nil)
next
  case (Cons op ops)
  then obtain a where a: "mint_op_step cr st collections excesses h op acc = Some a"
      and rest: "fold_option (mint_op_step cr st collections excesses h) ops a = Some acc'"
    by (auto simp: bind_eq_Some_conv)
  note ih = Cons.IH [OF rest]
  show ?case
  proof (cases "ma_collection_id op = None \<or> ma_phase_index op = None")
    case True
    with a have "mc_counts a = mc_counts acc" "mc_mints a = mc_mints acc"
      by (auto simp: mint_op_step_def step_simps split: if_splits option.splits)
    moreover from True have "drop_keys cr (op # ops) = drop_keys cr ops"
      by (auto simp: drop_keys_def split: option.splits)
    ultimately show ?thesis using ih by simp
  next
    case False
    then obtain cid i where ci: "ma_collection_id op = Some cid" "ma_phase_index op = Some i" by auto
    from a obtain a1 where a1: "collection_mint_step cr collections (bh_timestamp h) op cid i acc = Some a1"
        and eq: "mc_counts a = mc_counts a1" "mc_mints a = mc_mints a1"
      by (auto simp: mint_op_step_def step_simps ci split: if_splits)
    have keys: "drop_keys cr (op # ops) = mint_count_key cr cid i op # drop_keys cr ops"
      by (simp add: drop_keys_def ci)
    note step = collection_mint_step_bump [OF a1]
    show ?thesis
      using ih headroom_ConsI [OF step(3)] unfolding eq step(1,2) keys by simp
  qed
qed

lemma validate_assets_counts:
  assumes "validate_assets cr en st collections spent b = Some assets"
  shows "mc_counts assets = fold bump (drop_keys cr (b_mint_ops b)) (cs_collection_mint_counts st)"
    and "headroom (cs_collection_mint_counts st) (drop_keys cr (b_mint_ops b))"
proof -
  let ?ex = "block_kernel_excesses b"
  from assms obtain acc where
      mint: "fold_option (mint_op_step cr st collections ?ex (b_header b)) (b_mint_ops b)
        \<lparr>mc_spent = spent, mc_assets = {}, mc_registry = cs_asset_registry st,
          mc_counts = cs_collection_mint_counts st, mc_mints = []\<rparr> = Some acc"
    and tr: "fold_option (transfer_asset_op_step cr st ?ex) (b_transfer_asset_ops b) acc = Some assets"
    by (auto simp: validate_assets_def step_simps split: if_splits)
  from mint_ops_bump [OF mint] transfer_asset_ops_facts(3) [OF tr]
  show "mc_counts assets = fold bump (drop_keys cr (b_mint_ops b)) (cs_collection_mint_counts st)"
    "headroom (cs_collection_mint_counts st) (drop_keys cr (b_mint_ops b))"
    by simp_all
qed


section \<open>Undoing registries\<close>

lemma undo_registry:
  assumes "distinct (map fst (news @ olds))" and "\<forall>k \<in> fst ` set news. Mapping.lookup base k = None"
    and "\<forall>k \<in> fst ` set olds. Mapping.lookup base k \<noteq> None"
  shows "insert_all (map (\<lambda>k. (k, the (Mapping.lookup base k))) (map fst olds))
      (delete_all (map fst news) (insert_all (news @ olds) base)) = base"
proof (rule mapping_eqI)
  fix k
  show "Mapping.lookup (insert_all (map (\<lambda>k. (k, the (Mapping.lookup base k))) (map fst olds))
      (delete_all (map fst news) (insert_all (news @ olds) base))) k = Mapping.lookup base k"
  proof (cases "k \<in> fst ` set olds")
    case True
    with assms(3) obtain r where "Mapping.lookup base k = Some r" by blast
    with True show ?thesis by (simp only: lookup_insert_all_map set_map if_True option.sel)
  next
    case False
    then have old: "k \<notin> set (map fst olds)" by simp
    show ?thesis
    proof (cases "k \<in> fst ` set news")
      case True
      from bspec [OF assms(2) this] have "Mapping.lookup base k = None" .
      with True old show ?thesis by (simp only: lookup_insert_all_map lookup_delete_all set_map if_True if_False)
    next
      case new: False
      have "k \<notin> fst ` set (news @ olds)" using new False by auto
      from lookup_insert_all_other [OF this, of base] new old show ?thesis
        by (simp only: lookup_insert_all_map lookup_delete_all set_map if_False)
    qed
  qed
qed

lemma restore_recorded:
  assumes "Mapping.lookup snapshots height = None"
  shows "restore_snapshot height (record_snapshot height olds snapshots, registry) =
    (snapshots, insert_all olds registry)"
  using assms
  by (auto simp: restore_snapshot_def record_snapshot_def map_simps delete_update_fresh)

lemma delete_fresh_entries:
  assumes "distinct (map fst kvs)" and "\<forall>k \<in> fst ` set kvs. Mapping.lookup base k = None"
  shows "delete_all (map fst kvs) (insert_all kvs base) = base"
  using undo_registry [of kvs "[]" base] assms by simp



section \<open>Rollback undoes application\<close>

text \<open>What the theorem needs of the state before the block: kernels and their index agree, no snapshot is
  recorded for the height to come, counts are positive; and of the block: its outputs and its
  kernels are new.\<close>

definition undoable :: "('p, 's) chain_state \<Rightarrow> ('p, 's) block \<Rightarrow> bool" where
  "undoable st b \<longleftrightarrow>
     cs_kernel_excesses st = excess ` set (cs_kernels st) \<and>
     Mapping.lookup (cs_validator_snapshots st) (bh_height (b_header b)) = None \<and>
     Mapping.lookup (cs_transfer_snapshots st) (bh_height (b_header b)) = None \<and>
     Mapping.lookup (cs_asset_transfer_snapshots st) (bh_height (b_header b)) = None \<and>
     positive (cs_collection_mint_counts st) \<and>
     out_commitment ` set (all_outputs b) \<inter> cs_utxos st = {} \<and>
     excess ` set (new_kernels b) \<inter> cs_kernel_excesses st = {}"

lemma undo_names:
  assumes "validate_block cr en st b = Some cd"
    and "Mapping.lookup (cs_transfer_snapshots st) (bh_height (b_header b)) = None"
  shows "restore_snapshot (bh_height (b_header b))
      (record_snapshot (bh_height (b_header b)) (old_names st b) (cs_transfer_snapshots st),
       delete_all (map rn_name (b_name_ops b)) (cd_names cd)) =
    (cs_transfer_snapshots st, cs_name_registry st)"
proof -
  from assms(1) obtain names where v: "validate_names cr en st b = Some names"
      and cd: "cd_names cd = na_registry names"
    by (rule validate_block_Some)
  note f = validate_names_facts [OF v]
  let ?new = "map (\<lambda>op. (rn_name op, registered_name (bh_height (b_header b)) op)) (b_name_ops b)"
  let ?old = "map (\<lambda>op. (tn_name op, transferred_name op (the (Mapping.lookup (cs_name_registry st) (tn_name op)))))
       (b_transfer_ops b)"
  have "\<forall>k \<in> fst ` set ?new. Mapping.lookup (cs_name_registry st) k = None"
    using f(4) by auto
  moreover have "\<forall>k \<in> fst ` set ?old. Mapping.lookup (cs_name_registry st) k \<noteq> None"
    using f(5) by (fastforce simp: image_image)
  ultimately have "insert_all (old_names st b) (delete_all (map rn_name (b_name_ops b)) (cd_names cd)) =
      cs_name_registry st"
    using undo_registry [OF f(1) [unfolded name_entries_def]]
    by (simp add: cd f(2) name_entries_def old_names_def comp_def)
  then show ?thesis by (simp add: restore_recorded [OF assms(2)])
qed

lemma undo_assets:
  assumes "validate_block cr en st b = Some cd"
    and "Mapping.lookup (cs_asset_transfer_snapshots st) (bh_height (b_header b)) = None"
  shows "restore_snapshot (bh_height (b_header b))
      (record_snapshot (bh_height (b_header b)) (old_assets st b) (cs_asset_transfer_snapshots st),
       delete_all (map ma_asset_id (b_mint_ops b)) (cd_assets cd)) =
    (cs_asset_transfer_snapshots st, cs_asset_registry st)"
proof -
  from assms(1) obtain spent assets where
      v: "validate_assets cr en st (cd_collections cd) spent b = Some assets"
      and cd: "cd_assets cd = mc_registry assets"
    by (rule validate_block_Some)
  note f = validate_assets_facts [OF v]
  let ?new = "map (\<lambda>op. (ma_asset_id op, minted_asset (bh_height (b_header b)) op)) (b_mint_ops b)"
  let ?old = "map (\<lambda>op. (ta_asset_id op, transferred_asset op (the (Mapping.lookup (cs_asset_registry st) (ta_asset_id op)))))
       (b_transfer_asset_ops b)"
  have "\<forall>k \<in> fst ` set ?new. Mapping.lookup (cs_asset_registry st) k = None"
    using f(4) by auto
  moreover have "\<forall>k \<in> fst ` set ?old. Mapping.lookup (cs_asset_registry st) k \<noteq> None"
    using f(5) by (fastforce simp: image_image transfer_asset_ok_def)
  ultimately have "insert_all (old_assets st b) (delete_all (map ma_asset_id (b_mint_ops b)) (cd_assets cd)) =
      cs_asset_registry st"
    using undo_registry [OF f(1) [unfolded asset_entries_def]]
    by (simp add: cd f(2) asset_entries_def old_assets_def comp_def)
  then show ?thesis by (simp add: restore_recorded [OF assms(2)])
qed

lemma undo_collections:
  assumes "validate_block cr en st b = Some cd"
  shows "delete_all (map lc_collection_id (b_launch_collection_ops b)) (cd_collections cd) =
    cs_collection_registry st"
proof -
  from assms have v: "validate_launches cr en st b = Some (cd_collections cd)"
    by (rule validate_block_Some)
  note f = validate_launches_facts [OF v]
  have "\<forall>k \<in> fst ` set (collection_entries b). Mapping.lookup (cs_collection_registry st) k = None"
    using f(4) by (auto simp: collection_entries_def)
  from delete_fresh_entries [OF f(1) this] show ?thesis
    by (simp add: f(2) collection_entries_def comp_def)
qed

lemma undo_mint_counts:
  assumes "validate_block cr en st b = Some cd" and "positive (cs_collection_mint_counts st)"
  shows "fold undo_count (drop_keys cr (b_mint_ops b)) (cd_counts cd) = cs_collection_mint_counts st"
proof -
  from assms(1) obtain spent assets where
      v: "validate_assets cr en st (cd_collections cd) spent b = Some assets"
      and cd: "cd_counts cd = mc_counts assets"
    by (rule validate_block_Some)
  note c = validate_assets_counts [OF v]
  show ?thesis unfolding cd c(1) by (rule undo_counts [OF assms(2) c(2)])
qed

text \<open>The transactions of a block, in the order rollback visits them.\<close>

lemma undo_transactions:
  assumes "validate_block cr en st b = Some cd" and "0 < bh_height (b_header b)" and "undoable st b"
  defines "w \<equiv> fold undo_tx (fee_payments b) (undo_tx (b_body b)
    \<lparr>un_utxos = cs_utxos (applied_state cr b cd st), un_kernels = cs_kernels (applied_state cr b cd st),
     un_kernel_excesses = cs_kernel_excesses (applied_state cr b cd st),
     un_consumed_outputs = [], un_restored_inputs = [], un_removed_excesses = []\<rparr>)"
  shows "un_utxos w = cs_utxos st" and "un_kernels w = cs_kernels st"
    and "un_kernel_excesses w = cs_kernel_excesses st"
proof -
  let ?txs = "b_body b # fee_payments b"
  have w: "w = fold undo_tx ?txs
    \<lparr>un_utxos = cs_utxos (applied_state cr b cd st), un_kernels = cs_kernels (applied_state cr b cd st),
     un_kernel_excesses = cs_kernel_excesses (applied_state cr b cd st),
     un_consumed_outputs = [], un_restored_inputs = [], un_removed_excesses = []\<rparr>"
    by (simp add: w_def)
  have ins: "concat (map tx_inputs ?txs) = all_inputs b" and outs: "concat (map tx_outputs ?txs) = all_outputs b"
      and kernels: "concat (map tx_kernels ?txs) = new_kernels b"
    by (simp_all add: all_inputs_def all_outputs_def new_kernels_def fee_kernels_eq)
  have fresh: "out_commitment ` set (all_outputs b) \<inter> cs_utxos st = {}"
    using assms(3) by (simp add: undoable_def)
  have sub: "in_commitment ` set (all_inputs b) \<subseteq> cs_utxos st"
    using fee_inputs_claimed [OF assms(1)] body_inputs_unspent [OF assms(1,2)]
    by (auto simp: claims_def all_inputs_def image_Un)
  have "un_utxos w = cs_utxos (applied_state cr b cd st) - out_commitment ` set (all_outputs b) \<union>
      in_commitment ` set (all_inputs b)"
    unfolding w by (subst fold_undo_tx_utxos) (use fresh sub in \<open>unfold ins outs, blast, simp\<close>)
  then show "un_utxos w = cs_utxos st"
    unfolding applied_utxos [OF assms(1,2) fresh] using fresh sub by blast
  have ks: "cs_kernels (applied_state cr b cd st) = cs_kernels st @ new_kernels b"
    by (simp add: applied_state_def Let_def)
  have new: "excess k \<notin> excess ` set (new_kernels b)" if "k \<in> set (cs_kernels st)" for k
    using assms(3) imageI [OF that, of excess] unfolding undoable_def by blast
  show "un_kernels w = cs_kernels st"
    unfolding w fold_undo_tx kernels using new by (simp add: ks)
  have "excess ` set (new_kernels b) \<inter> cs_kernel_excesses st = {}"
    using assms(3) unfolding undoable_def by blast
  then show "un_kernel_excesses w = cs_kernel_excesses st"
    unfolding w fold_undo_tx kernels by (auto simp: applied_state_def Let_def)
qed

lemma restored_state:
  "(applied_state cr b cd st)\<lparr>cs_utxos := cs_utxos st, cs_kernels := cs_kernels st,
     cs_kernel_excesses := cs_kernel_excesses st, cs_current_height := cs_current_height st,
     cs_last_block_hash := cs_last_block_hash st, cs_active_validators := vs,
     cs_validator_snapshots := cs_validator_snapshots st, cs_name_registry := cs_name_registry st,
     cs_transfer_snapshots := cs_transfer_snapshots st, cs_asset_registry := cs_asset_registry st,
     cs_asset_transfer_snapshots := cs_asset_transfer_snapshots st,
     cs_collection_registry := cs_collection_registry st,
     cs_collection_mint_counts := cs_collection_mint_counts st\<rparr> =
   st\<lparr>cs_blocks := Mapping.update (header_hash cr (b_header b)) b (cs_blocks st), cs_active_validators := vs\<rparr>"
  by (simp add: applied_state_def Let_def)

lemma rollback_applied:
  assumes "apply_linear_block cr en b st = Ret (st', Some d)" and "0 < bh_height (b_header b)"
    and "undoable st b"
  shows "\<exists>rd. rollback_block cr st' = Some
    (st\<lparr>cs_blocks := Mapping.update (header_hash cr (b_header b)) b (cs_blocks st),
       cs_active_validators := (case Mapping.lookup (cs_validator_snapshots st) (cs_current_height st) of
         None \<Rightarrow> [] | Some vs \<Rightarrow> vs)\<rparr>, rd)"
proof -
  from assms(1) obtain cd where v: "validate_block cr en st b = Some cd"
      and st': "st' = applied_state cr b cd st" by (rule apply_linear_block_Some)
  have "connects st (b_header b)" using v by (rule validate_block_Some)
  then have height: "bh_height (b_header b) = cs_current_height st + 1"
      and prev: "bh_prev_hash (b_header b) = cs_last_block_hash st"
    using assms(2) by (auto simp: connects_def split: if_splits)
  let ?h = "bh_height (b_header b)" and ?tip = "header_hash cr (b_header b)"
  have nz: "?h \<noteq> 0" using assms(2) by simp
  have snaps: "Mapping.lookup (cs_validator_snapshots st) ?h = None"
      "Mapping.lookup (cs_transfer_snapshots st) ?h = None"
      "Mapping.lookup (cs_asset_transfer_snapshots st) ?h = None"
      "positive (cs_collection_mint_counts st)"
    using assms(3) by (simp_all add: undoable_def)
  have fields: "cs_current_height st' = ?h" "cs_last_block_hash st' = ?tip"
      "Mapping.lookup (cs_blocks st') ?tip = Some b"
      "cs_blocks st' = Mapping.update ?tip b (cs_blocks st)"
      "cs_name_registry st' = cd_names cd" "cs_asset_registry st' = cd_assets cd"
      "cs_collection_registry st' = cd_collections cd" "cs_collection_mint_counts st' = cd_counts cd"
      "cs_transfer_snapshots st' = record_snapshot ?h (old_names st b) (cs_transfer_snapshots st)"
      "cs_asset_transfer_snapshots st' = record_snapshot ?h (old_assets st b) (cs_asset_transfer_snapshots st)"
      "cs_validator_snapshots st' = Mapping.update ?h (cs_active_validators st) (cs_validator_snapshots st)"
      "cs_prune_meta st' = cs_prune_meta st"
    by (simp_all add: st' applied_state_def Let_def map_simps)
  have other: "Mapping.lookup (cs_validator_snapshots st') (?h - 1) =
      Mapping.lookup (cs_validator_snapshots st) (cs_current_height st)"
    by (simp add: fields height map_simps)
  have gone: "Mapping.delete ?h (cs_validator_snapshots st') = cs_validator_snapshots st"
    unfolding fields by (rule delete_update_fresh [OF snaps(1)])
  note undo = undo_transactions [OF v assms(2,3), folded st'] undo_names [OF v snaps(2)]
    undo_assets [OF v snaps(3)] undo_collections [OF v] undo_mint_counts [OF v snaps(4)]
  note undo' = undo(1-3) [unfolded fee_payments_def fold_append comp_def]
  show ?thesis
    unfolding rollback_block_def fields(1,2) Let_def other gone
    using nz undo'
    by (simp add: fields(3-10) fold_undo_name_op fold_undo_mint_op undo(4-) [unfolded height] height
        prev restored_state [where cr = cr and b = b and cd = cd and st = st, folded st'])
qed



text \<open>A state whose only validator registered in the block at its tip, so that the snapshot of that height
  is still empty.\<close>

definition w_validator :: "(wpoint, u64) validator" where
  "w_validator = \<lparr>v_commitment = w_com 1000000 42, v_value = 1000000, v_proof = w_sig\<rparr>"

definition w_validator_state :: "(wpoint, u64) chain_state" where
  "w_validator_state = w_state\<lparr>cs_active_validators := [w_validator],
     cs_validator_snapshots := Mapping.update 0 [] Mapping.empty\<rparr>"

definition w_next_block :: "(wpoint, u64) block" where
  "w_next_block = w_block w_validator_state (w_tx [(100, 7)] [(640, 5)] 2 3) [] []"

lemma w_next_block_valid: "validate_block w_crypto w_env w_validator_state w_next_block \<noteq> None"
  by (simp add: w_next_block_def w_validator_state_def w_validator_def w_block_eval)

text \<open>Rollback loses validators: after applying one block and rolling it back, the validator registered
  in the block before is gone, because the snapshot consulted is the one taken before that earlier
  block.\<close>

theorem rollback_forgets_validator:
  "\<exists>st' d st'' rd. apply_linear_block w_crypto w_env w_next_block w_validator_state = Ret (st', Some d) \<and>
     rollback_block w_crypto st' = Some (st'', rd) \<and>
     cs_active_validators w_validator_state = [w_validator] \<and> cs_active_validators st'' = []"
proof -
  obtain st' d where acc: "apply_linear_block w_crypto w_env w_next_block w_validator_state = Ret (st', Some d)"
    using w_next_block_valid by (rule w_apply)
  have "undoable w_validator_state w_next_block"
    by (simp add: undoable_def w_state_def w_next_block_def w_block_def w_tx_def w_validator_state_def
        chain_new_def map_simps positive_def all_outputs_def fee_payments_def)
  moreover have "0 < bh_height (b_header w_next_block)"
    by (simp add: w_next_block_def w_block_def w_state_def w_validator_state_def chain_new_def)
  ultimately obtain rd where "rollback_block w_crypto st' = Some
      (w_validator_state\<lparr>cs_blocks := Mapping.update (header_hash w_crypto (b_header w_next_block)) w_next_block
           (cs_blocks w_validator_state),
         cs_active_validators :=
           (case Mapping.lookup (cs_validator_snapshots w_validator_state) (cs_current_height w_validator_state) of
              None \<Rightarrow> [] | Some vs \<Rightarrow> vs)\<rparr>, rd)"
    using rollback_applied [OF acc] by blast
  moreover have "Mapping.lookup (cs_validator_snapshots w_validator_state) (cs_current_height w_validator_state)
      = Some []" "cs_active_validators w_validator_state = [w_validator]"
    by (simp_all add: w_validator_state_def w_state_def chain_new_def map_simps)
  ultimately show ?thesis using acc by simp
qed

end
