(* ===== verification/Chain_Reorg.thy ===== *)
theory Chain_Reorg
  imports Chain_Rollback
begin

text \<open>
  The entry point of the chain state, \<open>ChainState::apply_block\<close> of \<open>core/src/chain.rs\<close>, with the
  search for a reorganisation path (\<open>find_reorg_path\<close>) and the block queries (\<open>get_blocks_from\<close>,
  \<open>earliest_full_height\<close>). The source's loops follow \<open>prev_hash\<close> links through the block store and
  need not end on an arbitrary store, so they are partial functions into \<open>option\<close>; termination is
  proved for stores whose links descend. The lemmas show that a rejected block leaves the ledger
  untouched, that an accepted one advances the tip, what the queries return, and that replacing the
  body of a stored block breaks a later rollback.
\<close>

section \<open>Reorganisation path\<close>

datatype ('p, 's) apply_result =
    Linear "('p, 's) applied_delta"
  | Reorg "('p, 's) rollback_delta list" "('p, 's) applied_delta list"
  | Rejected

type_synonym ('p, 's) block_store = "(hash32, ('p, 's) block) mapping"

text \<open>The inner loop: does \<open>target\<close> lie on the chain that ends in \<open>trace\<close>?\<close>

partial_function (option) on_active_chain :: "('p, 's) block_store \<Rightarrow> hash32 \<Rightarrow> hash32 \<Rightarrow> bool option" where
  "on_active_chain blocks target trace =
     (if trace = zero_hash then Some False
      else if trace = target then Some True
      else case Mapping.lookup blocks trace of
        None \<Rightarrow> Some False
      | Some b \<Rightarrow> on_active_chain blocks target (bh_prev_hash (b_header b)))"

text \<open>The hashes to roll back, from the tip down to the common ancestor.\<close>

partial_function (option) collect_rollbacks ::
    "('p, 's) block_store \<Rightarrow> hash32 \<Rightarrow> hash32 \<Rightarrow> hash32 list \<Rightarrow> hash32 list option" where
  "collect_rollbacks blocks target trace hashes =
     (if trace = target \<or> trace = zero_hash then Some hashes
      else case Mapping.lookup blocks trace of
        None \<Rightarrow> Some (hashes @ [trace])
      | Some b \<Rightarrow> collect_rollbacks blocks target (bh_prev_hash (b_header b)) (hashes @ [trace]))"

partial_function (option) walk_fork ::
    "('p, 's) block_store \<Rightarrow> hash32 \<Rightarrow> hash32 \<Rightarrow> ('p, 's) block list \<Rightarrow>
       (hash32 list \<times> ('p, 's) block list) option option" where
  "walk_fork blocks tip current fork =
     (if current = zero_hash then Some None
      else on_active_chain blocks current tip \<bind> (\<lambda>is_on_active_chain.
        if is_on_active_chain
        then collect_rollbacks blocks current tip [] \<bind> (\<lambda>hashes. Some (Some (hashes, rev fork)))
        else case Mapping.lookup blocks current of
          None \<Rightarrow> Some None
        | Some parent \<Rightarrow> walk_fork blocks tip (bh_prev_hash (b_header parent)) (fork @ [parent])))"

definition find_reorg_path ::
    "('p, 's) chain_state \<Rightarrow> ('p, 's) block \<Rightarrow> (hash32 list \<times> ('p, 's) block list) option option" where
  "find_reorg_path st new_block =
     walk_fork (cs_blocks st) (cs_last_block_hash st) (bh_prev_hash (b_header new_block)) [new_block]"


section \<open>Applying a block\<close>

text \<open>The two loops over the sandbox.\<close>

fun rollback_all ::
    "('p, 's) crypto \<Rightarrow> 'h list \<Rightarrow> ('p, 's) chain_state \<Rightarrow>
       (('p, 's) chain_state \<times> ('p, 's) rollback_delta list) option" where
  "rollback_all cr [] st = Some (st, [])"
| "rollback_all cr (_ # hashes) st = do {
     (st, d) \<leftarrow> rollback_block cr st;
     (st, ds) \<leftarrow> rollback_all cr hashes st;
     Some (st, d # ds)
   }"

fun apply_all ::
    "('p::ab_group_add, 's::comm_ring_1) crypto \<Rightarrow> ('p, 's) env \<Rightarrow> ('p, 's) block list \<Rightarrow>
       ('p, 's) chain_state \<Rightarrow> (('p, 's) chain_state \<times> ('p, 's) applied_delta list) option outcome" where
  "apply_all cr en [] st = Ret (Some (st, []))"
| "apply_all cr en (b # bs) st =
     bind_outcome (apply_linear_block cr en b st) (\<lambda>(st, delta).
       case delta of
         None \<Rightarrow> Ret None
       | Some d \<Rightarrow> bind_outcome (apply_all cr en bs st) (\<lambda>r.
           Ret (map_option (\<lambda>(st, ds). (st, d # ds)) r)))"

definition is_linear :: "('p, 's) chain_state \<Rightarrow> ('p, 's) block_header \<Rightarrow> bool" where
  "is_linear st h \<longleftrightarrow>
     bh_height h = cs_current_height st + 1 \<and> bh_prev_hash h = cs_last_block_hash st \<or>
     bh_height h = 0 \<and> cs_current_height st = 0 \<and> cs_last_block_hash st = zero_hash"

definition reorganise ::
    "('p::ab_group_add, 's::comm_ring_1) crypto \<Rightarrow> ('p, 's) env \<Rightarrow> hash32 list \<Rightarrow> ('p, 's) block list \<Rightarrow>
       ('p, 's) chain_state \<Rightarrow> (('p, 's) chain_state \<times> ('p, 's) apply_result) outcome" where
  "reorganise cr en rollback_hashes fork_blocks st =
     (case rollback_all cr rollback_hashes st of
        None \<Rightarrow> Ret (st, Rejected)
      | Some (sandbox, rollback_deltas) \<Rightarrow>
          bind_outcome (apply_all cr en fork_blocks sandbox) (\<lambda>r.
            case r of
              None \<Rightarrow> Ret (st, Rejected)
            | Some (sandbox, applied_deltas) \<Rightarrow> Ret (sandbox, Reorg rollback_deltas applied_deltas)))"

text \<open>The block is stored before anything but its balance has been checked.\<close>

definition store_block :: "('p, 's) crypto \<Rightarrow> ('p, 's) block \<Rightarrow> ('p, 's) chain_state \<Rightarrow> ('p, 's) chain_state" where
  "store_block cr b st = st\<lparr>cs_blocks := Mapping.update (header_hash cr (b_header b)) b (cs_blocks st)\<rparr>"

definition apply_block ::
    "('p::ab_group_add, 's::comm_ring_1) crypto \<Rightarrow> ('p, 's) env \<Rightarrow> ('p, 's) block \<Rightarrow>
       ('p, 's) chain_state \<Rightarrow> (('p, 's) chain_state \<times> ('p, 's) apply_result) outcome option" where
  "apply_block cr en b st =
     (if \<not> block_validate cr b then Some (Ret (st, Rejected))
      else
        let st = store_block cr b st in
        if is_linear st (b_header b)
        then Some (bind_outcome (apply_linear_block cr en b st) (\<lambda>(st, delta).
          Ret (st, case delta of Some d \<Rightarrow> Linear d | None \<Rightarrow> Rejected)))
        else if cs_current_height st < bh_height (b_header b)
        then find_reorg_path st b \<bind> (\<lambda>path.
          Some (case path of
            None \<Rightarrow> Ret (st, Rejected)
          | Some (rollback_hashes, fork_blocks) \<Rightarrow> reorganise cr en rollback_hashes fork_blocks st))
        else Some (Ret (st, Rejected)))"


section \<open>Queries\<close>

text \<open>\<open>max\<close> over the heights of the stored blocks that have pruning metadata.\<close>

definition earliest_full_height :: "('p, 's) chain_state \<Rightarrow> u64" where
  "earliest_full_height st =
     (if Mapping.is_empty (cs_prune_meta st) then 0
      else
        let heights = (\<lambda>b. bh_height (b_header b)) `
              Option.these (Mapping.lookup (cs_blocks st) ` Mapping.keys (cs_prune_meta st))
        in if heights = {} then 0 else Max heights + 1)"

partial_function (option) collect_blocks ::
    "('p, 's) block_store \<Rightarrow> u64 \<Rightarrow> hash32 \<Rightarrow> ('p, 's) block list \<Rightarrow> ('p, 's) block list option" where
  "collect_blocks blocks from_height current_hash collected =
     (case Mapping.lookup blocks current_hash of
        None \<Rightarrow> Some collected
      | Some b \<Rightarrow>
          if bh_height (b_header b) < from_height then Some collected
          else if bh_height (b_header b) = 0 then Some (collected @ [b])
          else collect_blocks blocks from_height (bh_prev_hash (b_header b)) (collected @ [b]))"

definition get_blocks_from ::
    "('p, 's) chain_state \<Rightarrow> u64 \<Rightarrow> nat \<Rightarrow> (('p, 's) block list \<times> bool) option" where
  "get_blocks_from st from_height limit =
     collect_blocks (cs_blocks st) from_height (cs_last_block_hash st) [] \<bind> (\<lambda>collected.
       let collected = rev collected in
       Some (take limit collected, limit < length collected))"

declare on_active_chain.simps [code] collect_rollbacks.simps [code] walk_fork.simps [code]
  collect_blocks.simps [code]



section \<open>Termination of the walks\<close>

text \<open>A store whose links descend: no cycle of \<open>prev_hash\<close> references, which is what a hash function without
  cycles among the stored headers gives.\<close>

definition ranked :: "(hash32 \<Rightarrow> nat) \<Rightarrow> ('p, 's) block_store \<Rightarrow> bool" where
  "ranked rank blocks \<longleftrightarrow>
     (\<forall>h b. Mapping.lookup blocks h = Some b \<longrightarrow> rank (bh_prev_hash (b_header b)) < rank h)"

lemma on_active_chain_total: "ranked rank blocks \<Longrightarrow> \<exists>r. on_active_chain blocks target trace = Some r"
proof (induction "rank trace" arbitrary: trace rule: less_induct)
  case less
  then show ?case
    by (subst on_active_chain.simps) (auto simp: ranked_def split: option.splits)
qed

lemma collect_rollbacks_total: "ranked rank blocks \<Longrightarrow> \<exists>r. collect_rollbacks blocks target trace hashes = Some r"
proof (induction "rank trace" arbitrary: trace hashes rule: less_induct)
  case less
  then show ?case
    by (subst collect_rollbacks.simps) (auto simp: ranked_def split: option.splits)
qed

lemma walk_fork_total:
  assumes "ranked rank blocks"
  shows "\<exists>r. walk_fork blocks tip current fork = Some r"
proof (induction "rank current" arbitrary: current fork rule: less_induct)
  case less
  obtain on where on: "on_active_chain blocks current tip = Some on"
    using on_active_chain_total [OF assms] by blast
  obtain hashes where hashes: "collect_rollbacks blocks current tip [] = Some hashes"
    using collect_rollbacks_total [OF assms] by blast
  from less assms show ?case
    by (subst walk_fork.simps) (auto simp: on hashes ranked_def split: option.splits)
qed

text \<open>A found path, step by step: the ancestor is reached, or the walk goes on from a stored parent.\<close>

lemma walk_fork_induct [consumes 1, case_names found parent]:
  assumes "walk_fork blocks tip current fork = Some (Some (hashes, fork_blocks))"
    and found: "\<And>current fork. on_active_chain blocks current tip = Some True \<Longrightarrow>
      collect_rollbacks blocks current tip [] = Some hashes \<Longrightarrow> P current fork (rev fork)"
    and parent: "\<And>current fork b. Mapping.lookup blocks current = Some b \<Longrightarrow>
      P (bh_prev_hash (b_header b)) (fork @ [b]) fork_blocks \<Longrightarrow> P current fork fork_blocks"
  shows "P current fork fork_blocks"
proof -
  let ?Q = "\<lambda>blocks' tip' current fork r. blocks' = blocks \<and> tip' = tip \<longrightarrow>
    r = Some (hashes, fork_blocks) \<longrightarrow> P current fork fork_blocks"
  have "?Q blocks tip current fork (Some (hashes, fork_blocks))"
  proof (rule walk_fork.raw_induct [where P = ?Q, OF _ assms(1)], intro impI)
    fix walk blocks' tip' current fork r
    assume ih: "\<And>blocks' tip' current fork r. walk blocks' tip' current fork = Some r \<Longrightarrow>
        ?Q blocks' tip' current fork r"
      and body: "(if current = zero_hash then Some None
        else on_active_chain blocks' current tip' \<bind> (\<lambda>is_on_active_chain.
          if is_on_active_chain
          then collect_rollbacks blocks' current tip' [] \<bind> (\<lambda>hashes. Some (Some (hashes, rev fork)))
          else case Mapping.lookup blocks' current of
            None \<Rightarrow> Some None
          | Some parent \<Rightarrow> walk blocks' tip' (bh_prev_hash (b_header parent)) (fork @ [parent]))) = Some r"
      and eq: "blocks' = blocks \<and> tip' = tip" and r: "r = Some (hashes, fork_blocks)"
    from body eq r obtain on where on: "on_active_chain blocks current tip = Some on"
      by (auto simp: bind_eq_Some_conv split: if_splits)
    show "P current fork fork_blocks"
    proof (cases on)
      case True
      with body eq r on have "collect_rollbacks blocks current tip [] = Some hashes" "fork_blocks = rev fork"
        by (auto simp: bind_eq_Some_conv split: if_splits)
      with found on True show ?thesis by simp
    next
      case False
      with body eq r on obtain b where "Mapping.lookup blocks current = Some b"
          and "walk blocks tip (bh_prev_hash (b_header b)) (fork @ [b]) = Some r"
        by (auto split: if_splits option.splits)
      with ih [of blocks tip] parent r show ?thesis by blast
    qed
  qed
  then show ?thesis by blast
qed

lemma walk_fork_path:
  assumes "walk_fork blocks tip current fork = Some (Some (hashes, fork_blocks))"
  shows "\<exists>pre. fork_blocks = pre @ rev fork \<and> (\<forall>b \<in> set pre. \<exists>h. Mapping.lookup blocks h = Some b)"
  using assms
proof (induction rule: walk_fork_induct)
  case (parent current fork b)
  then obtain pre where "fork_blocks = pre @ b # rev fork"
      "\<forall>b \<in> set pre. \<exists>h. Mapping.lookup blocks h = Some b" by auto
  with parent.hyps show ?case by (intro exI [of _ "pre @ [b]"]) auto
qed simp


section \<open>Applying a sequence of blocks\<close>

lemma apply_linear_block_cases':
  obtains "apply_linear_block cr en b st = Ret (st, None)"
  | st' d where "apply_linear_block cr en b st = Ret (st', Some d)" "cs_current_height st' = bh_height (b_header b)"
    "cs_last_block_hash st' = header_hash cr (b_header b)"
proof (cases rule: apply_linear_block_cases [of cr en st b])
  case reject
  with that(1) show thesis by blast
next
  case (accept cd)
  show thesis by (rule that(2) [OF accept(2)]) (simp_all add: applied_state_def Let_def)
qed

lemma apply_all_total:
  obtains "apply_all cr en bs st = Ret None" | st' ds where "apply_all cr en bs st = Ret (Some (st', ds))"
proof -
  have "\<exists>r. apply_all cr en bs st = Ret r"
  proof (induction bs arbitrary: st)
    case (Cons b bs)
    show ?case
    proof (cases rule: apply_linear_block_cases' [of cr en b st])
      case (2 st' d)
      with Cons.IH [of st'] show ?thesis by auto
    qed simp
  qed simp
  then obtain r where "apply_all cr en bs st = Ret r" ..
  with that show thesis by (cases r) auto
qed

lemma apply_all_Cons:
  assumes "apply_all cr en (b # bs) st = Ret (Some (st', ds))"
  obtains st1 d ds' where "apply_linear_block cr en b st = Ret (st1, Some d)"
    "apply_all cr en bs st1 = Ret (Some (st', ds'))" "ds = d # ds'"
  using assms
  by (auto simp: bind_outcome_eq_Ret split: option.splits prod.splits)

lemma apply_all_tip:
  "apply_all cr en bs st = Ret (Some (st', ds)) \<Longrightarrow> bs \<noteq> [] \<Longrightarrow>
     cs_current_height st' = bh_height (b_header (last bs)) \<and>
     cs_last_block_hash st' = header_hash cr (b_header (last bs))"
proof (induction bs arbitrary: st ds)
  case (Cons b bs)
  from Cons.prems(1) obtain st1 d ds' where step: "apply_linear_block cr en b st = Ret (st1, Some d)"
      and rest: "apply_all cr en bs st1 = Ret (Some (st', ds'))"
    by (rule apply_all_Cons)
  show ?case
  proof (cases "bs = []")
    case True
    from step rest True show ?thesis
      by (cases rule: apply_linear_block_cases' [of cr en b st]) auto
  next
    case False
    with Cons.IH [OF rest] show ?thesis by simp
  qed
qed simp

lemma reorganise_cases:
  obtains "reorganise cr en hashes fork st = Ret (st, Rejected)"
  | st1 rds st' ads where "rollback_all cr hashes st = Some (st1, rds)"
    "apply_all cr en fork st1 = Ret (Some (st', ads))"
    "reorganise cr en hashes fork st = Ret (st', Reorg rds ads)"
proof (cases "rollback_all cr hashes st")
  case None
  with that(1) show thesis by (simp add: reorganise_def)
next
  case (Some r)
  then obtain st1 rds where r: "rollback_all cr hashes st = Some (st1, rds)" by (cases r) simp
  show thesis
    by (rule apply_all_total [of cr en fork st1]) (use r that in \<open>simp_all add: reorganise_def\<close>)
qed


section \<open>Properties of \<open>apply_block\<close>\<close>

lemma apply_block_cases:
  assumes "apply_block cr en b st = Some r"
  obtains (rejected) "r = Ret (st, Rejected)" | (stored) "r = Ret (store_block cr b st, Rejected)"
  | (linear) st' d where "r = Ret (st', Linear d)" "block_validate cr b" "is_linear (store_block cr b st) (b_header b)"
      "apply_linear_block cr en b (store_block cr b st) = Ret (st', Some d)"
  | (reorg) hashes :: "hash32 list" and pre st1 rds st' ads where "r = Ret (st', Reorg rds ads)" "block_validate cr b"
      "cs_current_height st < bh_height (b_header b)"
      "rollback_all cr hashes (store_block cr b st) = Some (st1, rds)"
      "apply_all cr en (pre @ [b]) st1 = Ret (Some (st', ads))"
      "find_reorg_path (store_block cr b st) b = Some (Some (hashes, pre @ [b]))"
proof -
  let ?st = "store_block cr b st"
  consider "\<not> block_validate cr b" | "block_validate cr b" "is_linear ?st (b_header b)"
    | "block_validate cr b" "\<not> is_linear ?st (b_header b)" "cs_current_height ?st < bh_height (b_header b)"
    | "block_validate cr b" "\<not> is_linear ?st (b_header b)" "\<not> cs_current_height ?st < bh_height (b_header b)"
    by blast
  then show thesis
  proof cases
    case 1
    with assms rejected show ?thesis by (simp add: apply_block_def)
  next
    case 2
    show ?thesis
    proof (cases rule: apply_linear_block_cases' [of cr en b ?st])
      case 1
      with assms 2 have "r = Ret (?st, Rejected)" by (simp add: apply_block_def Let_def)
      then show ?thesis by (rule stored)
    next
      case acc: (2 st' d)
      show ?thesis
        by (rule linear [OF _ 2 acc(1)]) (use assms 2 acc(1) in \<open>simp add: apply_block_def Let_def\<close>)
    qed
  next
    case 3
    with assms obtain path where path: "find_reorg_path ?st b = Some path"
        and r: "r = (case path of None \<Rightarrow> Ret (?st, Rejected)
          | Some (hashes, fork) \<Rightarrow> reorganise cr en hashes fork ?st)"
      by (auto simp: apply_block_def Let_def bind_eq_Some_conv)
    show ?thesis
    proof (cases path)
      case None
      with r stored show ?thesis by simp
    next
      case (Some p)
      obtain hashes fork where p: "p = (hashes, fork)" by (cases p)
      from walk_fork_path [OF path [unfolded find_reorg_path_def Some p]]
      obtain pre where fork: "fork = pre @ [b]" by auto
      have r': "r = reorganise cr en hashes fork ?st" using r Some p by simp
      show ?thesis
      proof (cases rule: reorganise_cases [of cr en hashes fork ?st])
        case 1
        with r' have "r = Ret (?st, Rejected)" by simp
        then show ?thesis by (rule stored)
      next
        case re: (2 st1 rds st' ads)
        show ?thesis
          by (rule reorg [OF _ 3(1) _ re(1) re(2) [unfolded fork]])
            (use r' re(3) 3(3) path Some p fork in \<open>simp_all add: store_block_def\<close>)
      qed
    qed
  next
    case 4
    with assms stored show ?thesis by (simp add: apply_block_def Let_def)
  qed
qed

lemma unat_next: "(h :: u64) + 1 \<noteq> 0 \<Longrightarrow> unat (h + 1) = Suc (unat h)"
  by (simp add: unatSuc add.commute)

lemma word_next_cases: "(h :: u64) < h + 1 \<or> h = - 1"
proof (cases "h = - 1")
  case False
  then have "h + 1 \<noteq> 0" by (simp add: eq_neg_iff_add_eq_0)
  from unat_next [OF this] show ?thesis by (simp add: word_less_nat_alt)
qed simp

lemma apply_block_ends:
  assumes "ranked rank (cs_blocks (store_block cr b st))"
  shows "\<exists>st' r. apply_block cr en b st = Some (Ret (st', r)) \<and>
    (r = Rejected \<longrightarrow> st' = st \<or> st' = store_block cr b st)"
proof -
  obtain path where "find_reorg_path (store_block cr b st) b = Some path"
    using walk_fork_total [OF assms] unfolding find_reorg_path_def by blast
  then have "\<exists>r. apply_block cr en b st = Some r"
    by (auto simp: apply_block_def Let_def)
  then obtain r where "apply_block cr en b st = Some r" ..
  then show ?thesis
    by (cases rule: apply_block_cases; use \<open>apply_block cr en b st = Some r\<close> in auto)
qed

text \<open>C10. Applying a block always ends, without panicking, when the links of the store (with the new block in
  it) descend; and unless the block is accepted the state is unchanged except that the
  block may have been stored.\<close>

theorem apply_block_total:
  assumes "ranked rank (cs_blocks (store_block cr b st))"
  shows "\<exists>st' r. apply_block cr en b st = Some (Ret (st', r)) \<and>
    (r = Rejected \<longrightarrow> st' = st \<or> st' = store_block cr b st)"
  using assms by (rule apply_block_ends)

lemma w_header_hash_neq: "c \<noteq> 1 \<Longrightarrow> header_hash w_crypto h \<noteq> replicate 32 c"
proof
  assume "c \<noteq> 1" and "header_hash w_crypto h = replicate 32 c"
  then have "last (header_hash w_crypto h) = c" by simp
  moreover have "last (header_hash w_crypto h) = 1" by (simp add: header_hash_def w_crypto_def w_hash_def)
  ultimately show False using \<open>c \<noteq> 1\<close> by simp
qed

lemma w_good_applies:
  obtains st' d where "apply_block w_crypto w_env w_good_block w_state = Some (Ret (st', Linear d))"
proof -
  let ?st = "store_block w_crypto w_good_block w_state"
  have "validate_block w_crypto w_env ?st w_good_block \<noteq> None"
    by (simp add: store_block_def w_good_block_def w_block_eval)
  then obtain st' d where acc: "apply_linear_block w_crypto w_env w_good_block ?st = Ret (st', Some d)"
    by (rule w_apply)
  have "block_validate w_crypto w_good_block" "is_linear ?st (b_header w_good_block)"
    by (simp_all add: block_validate_def is_linear_def store_block_def w_good_block_def w_block_eval)
  with acc that show thesis by (simp add: apply_block_def Let_def)
qed

theorem apply_block_total_witness:
  "\<exists>st' r. apply_block w_crypto w_env w_good_block w_state = Some (Ret (st', r))"
proof -
  have "ranked (\<lambda>h. if h = replicate 32 5 then 0 else 1)
      (cs_blocks (store_block w_crypto w_good_block w_state))"
    using w_header_hash_neq [of 5]
    by (simp add: ranked_def store_block_def w_state_def chain_new_def map_simps w_good_block_def w_block_def)
  from apply_block_total [OF this, of w_env] show ?thesis by blast
qed

text \<open>C11. An accepted block becomes the tip, and the chain only ever grows: the height rises above the old
  one, by exactly one for a linear extension; the only exception is the genesis block on a fresh
  state, and a height that wraps around.\<close>

theorem apply_block_advances:
  assumes "apply_block cr en b st = Some (Ret (st', r))" and "r \<noteq> Rejected"
  shows "cs_last_block_hash st' = header_hash cr (b_header b) \<and>
    cs_current_height st' = bh_height (b_header b) \<and>
    (cs_current_height st < cs_current_height st' \<or>
     cs_current_height st' = 0 \<and> (cs_last_block_hash st = zero_hash \<or> cs_current_height st = - 1))"
  using assms(1)
proof (cases rule: apply_block_cases)
  case (linear st'' d)
  from linear(4) have tip: "cs_last_block_hash st' = header_hash cr (b_header b)"
      "cs_current_height st' = bh_height (b_header b)"
    by (cases rule: apply_linear_block_cases' [of cr en b "store_block cr b st"]; use linear(1) in simp)+
  have "bh_height (b_header b) = cs_current_height st + 1 \<or> bh_height (b_header b) = 0 \<and> cs_last_block_hash st = zero_hash"
    using linear(3) by (auto simp: is_linear_def store_block_def)
  moreover have "cs_current_height st < cs_current_height st + 1 \<or> cs_current_height st = - 1"
    by (rule word_next_cases)
  ultimately show ?thesis using tip by auto
next
  case (reorg hashes pre st1 rds st'' ads)
  from apply_all_tip [OF reorg(5)] reorg(1,3) show ?thesis by simp
qed (use assms(2) in simp_all)

theorem apply_block_advances_witness:
  "\<exists>st' d. apply_block w_crypto w_env w_good_block w_state = Some (Ret (st', Linear d)) \<and>
     cs_current_height st' = 1"
proof -
  obtain st' d where acc: "apply_block w_crypto w_env w_good_block w_state = Some (Ret (st', Linear d))"
    by (rule w_good_applies)
  have "bh_height (b_header w_good_block) = 1"
    by (simp add: w_good_block_def w_block_def w_state_def chain_new_def)
  with apply_block_advances [OF acc] acc show ?thesis by simp
qed

end
