(* ===== verification/Chain_Refinement.thy ===== *)
theory Chain_Refinement
  imports Chain_Reorg
begin

text \<open>
  The three registries of the chain against an abstract specification. Abstractly a registry is a
  partial map that changes in two ways only: a free key is created under a creation rule, or the
  record of a key is replaced under a rule on the old and the new record. The locale
  \<open>registry_refinement\<close> states when a validation loop of \<open>apply_linear_block\<close> implements such a
  machine; it is interpreted for the five loops, and the theorem composes them along a sequence of
  accepted blocks.
\<close>

section \<open>The abstract registry\<close>

inductive registry_step ::
    "('k \<Rightarrow> 'v \<Rightarrow> bool) \<Rightarrow> ('v \<Rightarrow> 'k \<Rightarrow> 'v \<Rightarrow> bool) \<Rightarrow> ('k \<rightharpoonup> 'v) \<Rightarrow> ('k \<rightharpoonup> 'v) \<Rightarrow> bool"
  for may_create may_change where
  create: "m k = None \<Longrightarrow> may_create k v \<Longrightarrow> registry_step may_create may_change m (m(k \<mapsto> v))"
| change: "m k = Some old \<Longrightarrow> may_change old k new \<Longrightarrow> registry_step may_create may_change m (m(k \<mapsto> new))"

inductive_cases registry_stepE: "registry_step may_create may_change m m'"

abbreviation registry_run ::
    "('k \<Rightarrow> 'v \<Rightarrow> bool) \<Rightarrow> ('v \<Rightarrow> 'k \<Rightarrow> 'v \<Rightarrow> bool) \<Rightarrow> ('k, 'v) mapping \<Rightarrow> ('k, 'v) mapping \<Rightarrow> bool" where
  "registry_run may_create may_change m m' \<equiv>
     (registry_step may_create may_change)\<^sup>*\<^sup>* (Mapping.lookup m) (Mapping.lookup m')"

text \<open>Records never disappear, and what no rule may change stays.\<close>

lemma registry_run_keeps:
  assumes "registry_run may_create may_change m m'" and "\<And>old k new. may_change old k new \<Longrightarrow> P k old \<Longrightarrow> P k new"
    and "Mapping.lookup m k = Some v" and "P k v"
  shows "\<exists>v'. Mapping.lookup m' k = Some v' \<and> P k v'"
  using assms(1)
proof (induction rule: rtranclp_induct)
  case (step n n')
  then obtain v' where v': "n k = Some v'" "P k v'" by blast
  from step(2) v' assms(2) show ?case by (auto elim!: registry_stepE)
qed (use assms(3,4) in blast)

locale registry_refinement =
  fixes step :: "'op \<Rightarrow> 'acc \<Rightarrow> 'acc option" and reg :: "'acc \<Rightarrow> ('k, 'v) mapping" and Inv :: "'acc \<Rightarrow> bool"
    and may_create :: "'k \<Rightarrow> 'v \<Rightarrow> bool" and may_change :: "'v \<Rightarrow> 'k \<Rightarrow> 'v \<Rightarrow> bool"
  assumes simulates: "step op acc = Some acc' \<Longrightarrow> Inv acc \<Longrightarrow>
      Inv acc' \<and> registry_step may_create may_change (Mapping.lookup (reg acc)) (Mapping.lookup (reg acc'))"
begin

lemma loop_simulates:
  assumes "fold_option step ops acc = Some acc'" and "Inv acc"
  shows "Inv acc'" and "registry_run may_create may_change (reg acc) (reg acc')"
proof -
  have "Inv acc' \<and> registry_run may_create may_change (reg acc) (reg acc')"
    using assms(1)
  proof (rule fold_option_invariant [where P = "\<lambda>a. Inv a \<and> registry_run may_create may_change (reg acc) (reg a)"])
    fix op a a'
    assume "Inv a \<and> registry_run may_create may_change (reg acc) (reg a)" and step: "step op a = Some a'"
    with simulates [OF step] show "Inv a' \<and> registry_run may_create may_change (reg acc) (reg a')"
      by (blast intro: rtranclp.rtrancl_into_rtrancl)
  qed (simp add: assms(2))
  then show "Inv acc'" "registry_run may_create may_change (reg acc) (reg acc')" by blast+
qed

end


section \<open>The rules of the three registries\<close>

definition name_may_create :: "('p::ab_group_add, 's::comm_ring_1) crypto \<Rightarrow> string \<Rightarrow> 'p name_record \<Rightarrow> bool" where
  "name_may_create cr k r \<longleftrightarrow> (\<exists>op height. register_name_validate_standalone cr op = Inr () \<and> rn_name op = k \<and>
     r = registered_name height op)"

definition name_may_change ::
    "('p::ab_group_add, 's::comm_ring_1) crypto \<Rightarrow> 'p name_record \<Rightarrow> string \<Rightarrow> 'p name_record \<Rightarrow> bool" where
  "name_may_change cr old k new \<longleftrightarrow> nr_name new = k \<and> nr_registered_at_block new = nr_registered_at_block old \<and>
     (\<exists>sig. verify cr sig (transfer_name_message cr k (nr_owner_pubkey new) (nr_resolves_to new)) (nr_owner_pubkey old))"

definition asset_may_create :: "('p::ab_group_add, 's::comm_ring_1) crypto \<Rightarrow> string \<Rightarrow> 'p asset_record \<Rightarrow> bool" where
  "asset_may_create cr k r \<longleftrightarrow> (\<exists>op height. mint_asset_validate_standalone cr op = Inr () \<and> ma_asset_id op = k \<and>
     r = minted_asset height op)"

definition asset_may_change ::
    "('p::ab_group_add, 's::comm_ring_1) crypto \<Rightarrow> 'p asset_record \<Rightarrow> string \<Rightarrow> 'p asset_record \<Rightarrow> bool" where
  "asset_may_change cr old k new \<longleftrightarrow>
     new = old\<lparr>ar_asset_id := k, ar_owner_pubkey := ar_owner_pubkey new\<rparr> \<and>
     (\<exists>sig payment royalty. verify cr sig
        (transfer_asset_message cr k (ar_owner_pubkey new) payment royalty) (ar_owner_pubkey old))"

definition collection_may_create ::
    "('p::ab_group_add, 's::comm_ring_1) crypto \<Rightarrow> ('p, 's) env \<Rightarrow> string \<Rightarrow> 'p collection_record \<Rightarrow> bool" where
  "collection_may_create cr en k r \<longleftrightarrow> (\<exists>op height.
     launch_collection_validate_standalone cr (ser_phases (en_codec en)) op = Inr () \<and>
     lc_collection_id op = k \<and> r = launched_collection height op)"

lemma name_may_createI:
  "register_name_validate_standalone cr op = Inr () \<Longrightarrow> name_may_create cr (rn_name op) (registered_name height op)"
  by (auto simp: name_may_create_def)

lemma name_may_changeI:
  "verify cr (tn_signature op)
     (transfer_name_message cr (tn_name op) (tn_new_owner_pubkey op) (tn_new_resolves_to op)) (nr_owner_pubkey old) \<Longrightarrow>
   name_may_change cr old (tn_name op) (transferred_name op old)"
  by (auto simp: name_may_change_def transferred_name_def)

lemma asset_may_createI:
  "mint_asset_validate_standalone cr op = Inr () \<Longrightarrow> asset_may_create cr (ma_asset_id op) (minted_asset height op)"
  by (auto simp: asset_may_create_def)

lemma asset_may_changeI:
  "verify cr (ta_signature op)
     (transfer_asset_message cr (ta_asset_id op) (ta_new_owner_pubkey op) (ta_required_kernel_excess op)
        (ta_required_royalty_kernel_excess op)) (ar_owner_pubkey old) \<Longrightarrow>
   asset_may_change cr old (ta_asset_id op) (transferred_asset op old)"
  by (auto simp: asset_may_change_def transferred_asset_def)

lemma collection_may_createI:
  "launch_collection_validate_standalone cr (ser_phases (en_codec en)) op = Inr () \<Longrightarrow>
   collection_may_create cr en (lc_collection_id op) (launched_collection height op)"
  by (auto simp: collection_may_create_def)

lemmas registry_rules = name_may_createI name_may_changeI asset_may_createI asset_may_changeI collection_may_createI

text \<open>What the loops keep: outside the keys used in this block the candidate is the chain's registry.\<close>

definition untouched :: "string set \<Rightarrow> (string, 'v) mapping \<Rightarrow> (string, 'v) mapping \<Rightarrow> bool" where
  "untouched used base m \<longleftrightarrow> (\<forall>k. k \<notin> used \<longrightarrow> Mapping.lookup m k = Mapping.lookup base k)"

lemma untouched_update: "untouched used base m \<Longrightarrow> untouched (insert k used) base (Mapping.update k v m)"
  by (simp add: untouched_def map_simps)

lemma untouched_refl [simp]: "untouched used m m"
  by (simp add: untouched_def)

interpretation name_ref: registry_refinement "name_op_step cr st height" na_registry
    "\<lambda>a. untouched (na_names a) (cs_name_registry st) (na_registry a)" "name_may_create cr" "name_may_change cr"
  for cr :: "('p::ab_group_add, 's::comm_ring_1) crypto" and st height
  by unfold_locales
    (auto simp: name_op_step_def step_simps lookup_update_fun contains_key_def untouched_def
      split: if_splits intro!: registry_step.create registry_rules)

interpretation transfer_ref: registry_refinement "transfer_op_step cr st" na_registry
    "\<lambda>a. untouched (na_names a) (cs_name_registry st) (na_registry a)" "name_may_create cr" "name_may_change cr"
  for cr :: "('p::ab_group_add, 's::comm_ring_1) crypto" and st
  by unfold_locales
    (auto simp: transfer_op_step_def step_simps lookup_update_fun untouched_def
      split: if_splits intro!: registry_step.change [rotated] registry_rules)

interpretation launch_ref: registry_refinement "launch_op_step cr en st height" la_registry
    "\<lambda>a. untouched (la_collections a) (cs_collection_registry st) (la_registry a)" "collection_may_create cr en"
    "\<lambda>_ _ _. False"
  for cr :: "('p::ab_group_add, 's::comm_ring_1) crypto" and en st height
  by unfold_locales
    (auto simp: launch_op_step_def step_simps lookup_update_fun contains_key_def untouched_def
      split: if_splits intro!: registry_step.create registry_rules)

interpretation mint_ref: registry_refinement "mint_op_step cr st collections excesses h" mc_registry
    "\<lambda>a. untouched (mc_assets a) (cs_asset_registry st) (mc_registry a)" "asset_may_create cr" "asset_may_change cr"
  for cr :: "('p::ab_group_add, 's::comm_ring_1) crypto" and st collections excesses h
  by unfold_locales
    (auto simp: mint_op_step_def step_simps collection_mint_step_frame lookup_update_fun contains_key_def untouched_def
      split: if_splits option.splits intro!: registry_step.create registry_rules)

interpretation transfer_asset_ref: registry_refinement "transfer_asset_op_step cr st excesses" mc_registry
    "\<lambda>a. untouched (mc_assets a) (cs_asset_registry st) (mc_registry a)" "asset_may_create cr" "asset_may_change cr"
  for cr :: "('p::ab_group_add, 's::comm_ring_1) crypto" and st excesses
  by unfold_locales
    (auto simp: transfer_asset_op_step_def step_simps lookup_update_fun untouched_def
      split: if_splits option.splits intro!: registry_step.change [rotated] registry_rules)



section \<open>Blocks refine the abstract registries\<close>

lemma accepted_registry_runs:
  assumes "apply_linear_block cr en b st = Ret (st', Some d)"
  shows "registry_run (name_may_create cr) (name_may_change cr) (cs_name_registry st) (cs_name_registry st')"
    and "registry_run (asset_may_create cr) (asset_may_change cr) (cs_asset_registry st) (cs_asset_registry st')"
    and "registry_run (collection_may_create cr en) (\<lambda>_ _ _. False) (cs_collection_registry st) (cs_collection_registry st')"
proof -
  from assms obtain cd where v: "validate_block cr en st b = Some cd" and st': "st' = applied_state cr b cd st"
    by (rule apply_linear_block_Some)
  from v obtain names assets where vn: "validate_names cr en st b = Some names"
      and vl: "validate_launches cr en st b = Some (cd_collections cd)"
      and va: "validate_assets cr en st (cd_collections cd) (na_spent names) b = Some assets"
      and cd: "cd_names cd = na_registry names" "cd_assets cd = mc_registry assets"
    by (rule validate_block_Some)
  have regs: "cs_name_registry st' = na_registry names" "cs_asset_registry st' = mc_registry assets"
      "cs_collection_registry st' = cd_collections cd"
    by (simp_all add: st' applied_state_def Let_def cd)
  from vn obtain acc where n: "fold_option (name_op_step cr st (bh_height (b_header b))) (b_name_ops b)
        \<lparr>na_spent = in_commitment ` set (tx_inputs (b_body b)), na_names = {}, na_registry = cs_name_registry st\<rparr> = Some acc"
      "fold_option (transfer_op_step cr st) (b_transfer_ops b) acc = Some names"
    by (auto simp: validate_names_def step_simps split: if_splits)
  note n1 = name_ref.loop_simulates [OF n(1)] and n2 = transfer_ref.loop_simulates [OF n(2)]
  show "registry_run (name_may_create cr) (name_may_change cr) (cs_name_registry st) (cs_name_registry st')"
    using n1 n2 unfolding regs by (auto intro: rtranclp_trans)
  from vl obtain l where "fold_option (launch_op_step cr en st (bh_height (b_header b))) (b_launch_collection_ops b)
        \<lparr>la_collections = {}, la_registry = cs_collection_registry st\<rparr> = Some l" "cd_collections cd = la_registry l"
    by (auto simp: validate_launches_def step_simps split: if_splits)
  with launch_ref.loop_simulates(2) [OF this(1)]
  show "registry_run (collection_may_create cr en) (\<lambda>_ _ _. False) (cs_collection_registry st) (cs_collection_registry st')"
    unfolding regs by simp
  from va obtain acc where a: "fold_option (mint_op_step cr st (cd_collections cd) (block_kernel_excesses b) (b_header b))
        (b_mint_ops b) \<lparr>mc_spent = na_spent names, mc_assets = {}, mc_registry = cs_asset_registry st,
          mc_counts = cs_collection_mint_counts st, mc_mints = []\<rparr> = Some acc"
      "fold_option (transfer_asset_op_step cr st (block_kernel_excesses b)) (b_transfer_asset_ops b) acc = Some assets"
    by (auto simp: validate_assets_def step_simps split: if_splits)
  note a1 = mint_ref.loop_simulates [OF a(1)] and a2 = transfer_asset_ref.loop_simulates [OF a(2)]
  show "registry_run (asset_may_create cr) (asset_may_change cr) (cs_asset_registry st) (cs_asset_registry st')"
    using a1 a2 unfolding regs by (auto intro: rtranclp_trans)
qed

text \<open>C9. Any sequence of accepted blocks refines the abstract registries. Names and assets appear by a valid
  operation on a free key and change hands only by a transfer signed by the owner of that moment,
  which leaves everything but the owner (and where a name resolves) as it was; a launched
  collection never changes at all.\<close>

theorem accepted_blocks_refine_registries:
  assumes "apply_all cr en bs st = Ret (Some (st', ds))"
  shows "registry_run (name_may_create cr) (name_may_change cr) (cs_name_registry st) (cs_name_registry st') \<and>
    registry_run (asset_may_create cr) (asset_may_change cr) (cs_asset_registry st) (cs_asset_registry st') \<and>
    registry_run (collection_may_create cr en) (\<lambda>_ _ _. False) (cs_collection_registry st) (cs_collection_registry st') \<and>
    (\<forall>k c. Mapping.lookup (cs_collection_registry st) k = Some c \<longrightarrow>
      Mapping.lookup (cs_collection_registry st') k = Some c)"
proof -
  have runs: "registry_run (name_may_create cr) (name_may_change cr) (cs_name_registry st) (cs_name_registry st') \<and>
    registry_run (asset_may_create cr) (asset_may_change cr) (cs_asset_registry st) (cs_asset_registry st') \<and>
    registry_run (collection_may_create cr en) (\<lambda>_ _ _. False) (cs_collection_registry st) (cs_collection_registry st')"
    using assms
  proof (induction bs arbitrary: st ds)
    case (Cons b bs)
    from Cons.prems obtain st1 d ds' where step: "apply_linear_block cr en b st = Ret (st1, Some d)"
        and rest: "apply_all cr en bs st1 = Ret (Some (st', ds'))"
      by (rule apply_all_Cons)
    from Cons.IH [OF rest] accepted_registry_runs [OF step] show ?case by (meson rtranclp_trans)
  qed simp
  moreover have "Mapping.lookup (cs_collection_registry st') k = Some c"
    if "Mapping.lookup (cs_collection_registry st) k = Some c" for k c
    using registry_run_keeps [of "collection_may_create cr en" "\<lambda>_ _ _. False" _ _ "\<lambda>_ v. v = c", OF _ _ that] runs
    by auto
  ultimately show ?thesis by blast
qed

theorem accepted_blocks_refine_registries_witness:
  "\<exists>st' ds. apply_all w_crypto w_env [w_good_block] w_state = Ret (Some (st', ds)) \<and>
     registry_run (name_may_create w_crypto) (name_may_change w_crypto) (cs_name_registry w_state) (cs_name_registry st') \<and>
     Mapping.lookup (cs_name_registry st') ''alice'' \<noteq> None"
proof -
  have valid: "validate_block w_crypto w_env w_state w_good_block \<noteq> None"
    by (simp add: w_good_block_def w_block_eval)
  then obtain st' d where acc: "apply_linear_block w_crypto w_env w_good_block w_state = Ret (st', Some d)"
    by (rule w_apply)
  then have all: "apply_all w_crypto w_env [w_good_block] w_state = Ret (Some (st', [d]))" by simp
  from acc obtain cd where v: "validate_block w_crypto w_env w_state w_good_block = Some cd"
      and st': "st' = applied_state w_crypto w_good_block cd w_state"
    by (rule apply_linear_block_Some)
  from v obtain names where "validate_names w_crypto w_env w_state w_good_block = Some names" "cd_names cd = na_registry names"
    by (rule validate_block_Some)
  with validate_names_facts(2) have "cs_name_registry st' = insert_all (name_entries w_state w_good_block) (cs_name_registry w_state)"
    by (auto simp: st' applied_state_def Let_def)
  then have "Mapping.lookup (cs_name_registry st') ''alice'' \<noteq> None"
    by (simp add: name_entries_def w_good_block_def w_block_def w_name_op_def lookup_insert_all)
  with all accepted_blocks_refine_registries [OF all] show ?thesis by blast
qed

end
