(* ===== verification/Chain_Invariant.thy ===== *)
theory Chain_Invariant
  imports Chain_Reorg
begin

text \<open>
  Invariants of the chain state over every history of received blocks. The locale
  \<open>chain_invariant\<close> states what an invariant has to do (survive storing a block, a linear
  application and a rollback) and concludes that \<open>apply_block\<close> keeps it on all its paths,
  reorganisations included. It is interpreted for the block store, the link structure of the active
  chain, the kernel index, the registries with their snapshots, the validator sets and the mint
  counts; \<open>reachable\<close> collects the histories, and the queries are specified on them.
\<close>

section \<open>Closed form of a rollback\<close>

lemma rollback_block_Some:
  assumes "rollback_block cr st = Some (st', d)"
  obtains tip w where "cs_current_height st \<noteq> 0"
    "Mapping.lookup (cs_blocks st) (cs_last_block_hash st) = Some tip"
    "w = fold undo_tx (b_body tip # fee_payments tip)
       \<lparr>un_utxos = cs_utxos st, un_kernels = cs_kernels st, un_kernel_excesses = cs_kernel_excesses st,
        un_consumed_outputs = [], un_restored_inputs = [], un_removed_excesses = []\<rparr>"
    "cs_utxos st' = un_utxos w" "cs_kernels st' = un_kernels w" "cs_kernel_excesses st' = un_kernel_excesses w"
    "cs_current_height st' = cs_current_height st - 1" "cs_last_block_hash st' = bh_prev_hash (b_header tip)"
    "cs_blocks st' = cs_blocks st"
    "cs_active_validators st' = (case Mapping.lookup (cs_validator_snapshots st) (cs_current_height st - 1) of
       None \<Rightarrow> [] | Some vs \<Rightarrow> vs)"
    "cs_validator_snapshots st' = Mapping.delete (cs_current_height st) (cs_validator_snapshots st)"
    "(cs_transfer_snapshots st', cs_name_registry st') = restore_snapshot (cs_current_height st)
       (cs_transfer_snapshots st, delete_all (map rn_name (b_name_ops tip)) (cs_name_registry st))"
    "(cs_asset_transfer_snapshots st', cs_asset_registry st') = restore_snapshot (cs_current_height st)
       (cs_asset_transfer_snapshots st, delete_all (map ma_asset_id (b_mint_ops tip)) (cs_asset_registry st))"
    "cs_collection_registry st' =
       delete_all (map lc_collection_id (b_launch_collection_ops tip)) (cs_collection_registry st)"
    "cs_collection_mint_counts st' = fold undo_count (drop_keys cr (b_mint_ops tip)) (cs_collection_mint_counts st)"
proof -
  from assms have h: "cs_current_height st \<noteq> 0" by (auto simp: rollback_block_def split: if_splits)
  with assms obtain tip where tip: "Mapping.lookup (cs_blocks st) (cs_last_block_hash st) = Some tip"
    by (auto simp: rollback_block_def split: option.splits)
  show thesis
    by (rule that [OF h tip refl])
      (use assms h tip in \<open>auto simp: rollback_block_def Let_def fold_undo_name_op fold_undo_mint_op
        fee_payments_def split: prod.splits\<close>)
qed

lemma rollback_block_exists:
  assumes "cs_current_height st \<noteq> 0" and "Mapping.lookup (cs_blocks st) (cs_last_block_hash st) = Some tip"
  shows "\<exists>st' d. rollback_block cr st = Some (st', d)"
  using assms by (simp add: rollback_block_def Let_def split_beta)


section \<open>Invariants of \<open>apply_block\<close>\<close>

definition stored :: "('p, 's) crypto \<Rightarrow> ('p, 's) chain_state \<Rightarrow> ('p, 's) block \<Rightarrow> bool" where
  "stored cr st b \<longleftrightarrow> Mapping.lookup (cs_blocks st) (header_hash cr (b_header b)) = Some b"

text \<open>Blocks are stored under their own hash.\<close>

definition store_keyed :: "('p, 's) crypto \<Rightarrow> ('p, 's) chain_state \<Rightarrow> bool" where
  "store_keyed cr st \<longleftrightarrow> (\<forall>h b. Mapping.lookup (cs_blocks st) h = Some b \<longrightarrow> header_hash cr (b_header b) = h)"

locale chain_invariant =
  fixes cr :: "('p::ab_group_add, 's::comm_ring_1) crypto" and en :: "('p, 's) env"
    and admissible :: "('p, 's) chain_state \<Rightarrow> ('p, 's) block \<Rightarrow> bool"
    and Inv :: "('p, 's) chain_state \<Rightarrow> bool"
  assumes on_store: "Inv st \<Longrightarrow> admissible st b \<Longrightarrow> Inv (store_block cr b st)"
    and on_apply: "Inv st \<Longrightarrow> validate_block cr en st b = Some cd \<Longrightarrow> stored cr st b \<Longrightarrow>
      Inv (applied_state cr b cd st)"
    and on_rollback: "Inv st \<Longrightarrow> rollback_block cr st = Some (st', d) \<Longrightarrow> Inv st'"
begin

lemma rollback_all_inv:
  "rollback_all cr hashes st = Some (st', ds) \<Longrightarrow> Inv st \<Longrightarrow> Inv st' \<and> cs_blocks st' = cs_blocks st"
proof (induction hashes arbitrary: st ds)
  case (Cons h hashes)
  then obtain st1 d ds' where step: "rollback_block cr st = Some (st1, d)"
      and rest: "rollback_all cr hashes st1 = Some (st', ds')"
    by (auto simp: bind_eq_Some_conv)
  from step have "cs_blocks st1 = cs_blocks st" by (rule rollback_block_Some)
  with Cons.IH [OF rest] on_rollback [OF Cons.prems(2) step] show ?case by simp
qed simp

lemma apply_all_inv:
  "apply_all cr en bs st = Ret (Some (st', ds)) \<Longrightarrow> Inv st \<Longrightarrow> \<forall>b \<in> set bs. stored cr st b \<Longrightarrow> Inv st'"
proof (induction bs arbitrary: st ds)
  case (Cons b bs)
  from Cons.prems(1) obtain st1 d ds' where step: "apply_linear_block cr en b st = Ret (st1, Some d)"
      and rest: "apply_all cr en bs st1 = Ret (Some (st', ds'))"
    by (rule apply_all_Cons)
  from step obtain cd where v: "validate_block cr en st b = Some cd" and st1: "st1 = applied_state cr b cd st"
    by (rule apply_linear_block_Some)
  have b: "stored cr st b" using Cons.prems(3) by simp
  then have "Mapping.lookup (cs_blocks st1) h = Mapping.lookup (cs_blocks st) h" for h
    by (auto simp: st1 applied_state_def Let_def stored_def map_simps)
  then have "\<forall>b \<in> set bs. stored cr st1 b"
    using Cons.prems(3) by (simp add: stored_def)
  with Cons.IH [OF rest] on_apply [OF Cons.prems(2) v b] show ?case by (simp add: st1)
qed simp

lemma apply_block_inv:
  assumes "Inv st" and "store_keyed cr st" and "admissible st b"
    and "apply_block cr en b st = Some (Ret (st', r))"
  shows "Inv st'"
proof -
  let ?st = "store_block cr b st"
  have inv: "Inv ?st" using assms(1,3) by (rule on_store)
  have b: "stored cr ?st b" by (simp add: stored_def store_block_def map_simps)
  from assms(4) show ?thesis
  proof (cases rule: apply_block_cases)
    case (linear st'' d)
    from linear(4) obtain cd where "validate_block cr en ?st b = Some cd" "st'' = applied_state cr b cd ?st"
      by (rule apply_linear_block_Some)
    with on_apply [OF inv _ b] linear(1) show ?thesis by simp
  next
    case (reorg hashes pre st1 rds st'' ads)
    note st1 = rollback_all_inv [OF reorg(4) inv]
    have "stored cr st1 c" if "c \<in> set (pre @ [b])" for c
    proof -
      from walk_fork_path [OF reorg(6) [unfolded find_reorg_path_def]] that
      have "c = b \<or> (\<exists>h. Mapping.lookup (cs_blocks ?st) h = Some c)" by auto
      moreover have "header_hash cr (b_header c) = h" if "Mapping.lookup (cs_blocks ?st) h = Some c" for h
        using that assms(2) by (auto simp: store_keyed_def store_block_def map_simps split: if_splits)
      ultimately show ?thesis using st1 b by (auto simp: stored_def)
    qed
    with apply_all_inv [OF reorg(5)] st1 reorg(1) show ?thesis by blast
  qed (use assms(1) inv in simp_all)
qed

end


section \<open>The store and the active chain\<close>

interpretation store_inv: chain_invariant cr en "\<lambda>_ _. True" "store_keyed cr"
proof
  fix st st' :: "('a, 'b) chain_state" and d
  assume inv: "store_keyed cr st" and "rollback_block cr st = Some (st', d)"
  from this(2) have "cs_blocks st' = cs_blocks st" by (rule rollback_block_Some)
  with inv show "store_keyed cr st'" by (simp add: store_keyed_def)
qed (auto simp: store_keyed_def store_block_def applied_state_def Let_def map_simps split: if_splits)

text \<open>What a received block must not do: hash to the same value as a different stored header, or to zero.\<close>

definition no_collision :: "('p, 's) crypto \<Rightarrow> ('p, 's) chain_state \<Rightarrow> ('p, 's) block \<Rightarrow> bool" where
  "no_collision cr st b \<longleftrightarrow> header_hash cr (b_header b) \<noteq> zero_hash \<and>
     (\<forall>b'. Mapping.lookup (cs_blocks st) (header_hash cr (b_header b)) = Some b' \<longrightarrow> b_header b' = b_header b)"

text \<open>\<open>linked blocks n h\<close>: from \<open>h\<close> the parent links lead through heights \<open>n\<close>, \<open>n - 1\<close> down to a block of height
  0, or to the zero hash when no genesis block was ever applied.\<close>

fun linked :: "('p, 's) block_store \<Rightarrow> nat \<Rightarrow> hash32 \<Rightarrow> bool" where
  "linked blocks 0 h =
     (case Mapping.lookup blocks h of None \<Rightarrow> h = zero_hash | Some b \<Rightarrow> bh_height (b_header b) = 0)"
| "linked blocks (Suc n) h =
     (case Mapping.lookup blocks h of None \<Rightarrow> False
      | Some b \<Rightarrow> bh_height (b_header b) = of_nat (Suc n) \<and> linked blocks n (bh_prev_hash (b_header b)))"

definition chain_linked :: "('p, 's) chain_state \<Rightarrow> bool" where
  "chain_linked st \<longleftrightarrow> linked (cs_blocks st) (unat (cs_current_height st)) (cs_last_block_hash st)"

lemma linked_update:
  assumes "k \<noteq> zero_hash" and "\<forall>b'. Mapping.lookup blocks k = Some b' \<longrightarrow> b_header b' = b_header b"
  shows "linked blocks n h \<Longrightarrow> linked (Mapping.update k b blocks) n h"
proof (induction n arbitrary: h)
  case 0
  show ?case
  proof (cases "k = h")
    case True
    show ?thesis
    proof (cases "Mapping.lookup blocks k")
      case None
      with 0 True have "k = zero_hash" by (simp only: linked.simps option.case)
      with assms(1) show ?thesis by contradiction
    next
      case (Some b')
      with assms(2) have "b_header b' = b_header b" by blast
      with 0 True Some show ?thesis by (simp add: lookup_update')
    qed
  next
    case False
    with 0 show ?thesis by (simp only: linked.simps lookup_update' if_False)
  qed
next
  case (Suc n)
  then obtain b' where b': "Mapping.lookup blocks h = Some b'" "bh_height (b_header b') = of_nat (Suc n)"
      "linked blocks n (bh_prev_hash (b_header b'))"
    by (simp split: option.splits)
  moreover have "b_header b' = b_header b" if "k = h" using assms(2) b'(1) that by blast
  ultimately show ?case
    using Suc.IH [OF b'(3)] by (cases "k = h") (simp_all add: lookup_update')
qed

lemma update_same: "Mapping.lookup m k = Some v \<Longrightarrow> Mapping.update k v m = m"
  by (rule mapping_eqI) (auto simp: map_simps)

lemma linked_apply:
  assumes "chain_linked st" and "connects st (b_header b)" and "stored cr st b"
  shows "linked (cs_blocks st) (unat (bh_height (b_header b))) (header_hash cr (b_header b))"
proof (cases "bh_height (b_header b) = 0")
  case True
  with assms(3) show ?thesis by (simp add: stored_def)
next
  case False
  with assms(2) have h: "bh_height (b_header b) = cs_current_height st + 1"
      "bh_prev_hash (b_header b) = cs_last_block_hash st"
    by (auto simp: connects_def split: if_splits)
  with False have "unat (bh_height (b_header b)) = Suc (unat (cs_current_height st))"
    by (simp add: unat_next)
  moreover from this have "bh_height (b_header b) = of_nat (Suc (unat (cs_current_height st)))"
    by (metis of_nat_unat ucast_id)
  ultimately show ?thesis
    using assms(1,3) h(2) by (simp only: stored_def chain_linked_def linked.simps option.case simp_thms)
qed

lemma rollback_linked:
  assumes "chain_linked st" and "rollback_block cr st = Some (st', d)"
  shows "chain_linked st'"
proof -
  from assms(2) obtain tip where h: "cs_current_height st \<noteq> 0"
      and tip: "Mapping.lookup (cs_blocks st) (cs_last_block_hash st) = Some tip"
      and st': "cs_current_height st' = cs_current_height st - 1"
        "cs_last_block_hash st' = bh_prev_hash (b_header tip)" "cs_blocks st' = cs_blocks st"
    by (rule rollback_block_Some)
  from h obtain n where n: "unat (cs_current_height st) = Suc n"
    by (metis not0_implies_Suc unat_eq_zero)
  then have "unat (cs_current_height st - 1) = n" using h by (simp add: unat_minus_one)
  with assms(1) n tip show ?thesis by (simp add: chain_linked_def st')
qed

interpretation link_inv: chain_invariant cr en "no_collision cr" chain_linked
proof
  fix st :: "('a, 'b) chain_state" and b cd
  assume linked: "chain_linked st" and "no_collision cr st b"
  then have "linked (Mapping.update (header_hash cr (b_header b)) b (cs_blocks st))
      (unat (cs_current_height st)) (cs_last_block_hash st)"
    unfolding chain_linked_def no_collision_def by (intro linked_update) blast+
  then show "chain_linked (store_block cr b st)"
    by (simp add: chain_linked_def store_block_def)
next
  fix st :: "('a, 'b) chain_state" and b cd
  assume inv: "chain_linked st" and v: "validate_block cr en st b = Some cd" and b: "stored cr st b"
  from v have "connects st (b_header b)" by (rule validate_block_Some)
  from linked_apply [OF inv this b]
  have "linked (Mapping.update (header_hash cr (b_header b)) b (cs_blocks st))
      (unat (bh_height (b_header b))) (header_hash cr (b_header b))"
    using b by (simp add: stored_def update_same)
  then show "chain_linked (applied_state cr b cd st)"
    by (simp add: chain_linked_def applied_state_def Let_def)
qed (rule rollback_linked)


section \<open>Kernels, counts, registries and validators\<close>

definition kernels_indexed :: "('p, 's) chain_state \<Rightarrow> bool" where
  "kernels_indexed st \<longleftrightarrow> cs_kernel_excesses st = excess ` set (cs_kernels st)"

lemma filtered_excesses: "excess ` set (filter (\<lambda>k. excess k \<notin> E) ks) = excess ` set ks - E"
  by auto

interpretation kernel_inv: chain_invariant cr en "\<lambda>_ _. True" kernels_indexed
proof
  fix st st' :: "('a, 'b) chain_state" and d
  assume inv: "kernels_indexed st" and "rollback_block cr st = Some (st', d)"
  from this(2) show "kernels_indexed st'"
    by (rule rollback_block_Some) (use inv in \<open>simp only: kernels_indexed_def fold_undo_tx filtered_excesses
      undo_work.select_convs\<close>)
qed (auto simp: kernels_indexed_def store_block_def applied_state_def Let_def)

definition counts_positive :: "('p, 's) chain_state \<Rightarrow> bool" where
  "counts_positive st \<longleftrightarrow> positive (cs_collection_mint_counts st)"

lemma positive_undo_count: "positive m \<Longrightarrow> positive (undo_count k m)"
proof (cases "Mapping.lookup m k")
  case (Some n)
  have "0 < n - 1" if "\<not> n \<le> 1"
  proof -
    from that have n: "1 < unat n" by (simp add: word_le_nat_alt)
    then have "n \<noteq> 0" by auto
    from unat_minus_one [OF this] n show ?thesis by (simp add: word_less_nat_alt)
  qed
  moreover assume "positive m"
  ultimately show ?thesis
    using Some by (auto simp: positive_def undo_count_def map_simps)
qed (simp add: undo_count_def)

lemma positive_fold_undo: "positive m \<Longrightarrow> positive (fold undo_count ks m)"
  by (induction ks arbitrary: m) (simp_all add: positive_undo_count)

lemma positive_fold_bump: "positive m \<Longrightarrow> headroom m ks \<Longrightarrow> positive (fold bump ks m)"
proof (induction ks arbitrary: m)
  case (Cons k ks)
  then show ?case using headroom_Cons [OF Cons.prems(2)] positive_bump [of m k] by simp
qed simp

interpretation count_inv: chain_invariant cr en "\<lambda>_ _. True" counts_positive
proof
  fix st :: "('a, 'b) chain_state" and b cd
  assume inv: "counts_positive st" and v: "validate_block cr en st b = Some cd"
  from v obtain spent assets where
      a: "validate_assets cr en st (cd_collections cd) spent b = Some assets" and cd: "cd_counts cd = mc_counts assets"
    by (rule validate_block_Some)
  show "counts_positive (applied_state cr b cd st)"
    using inv positive_fold_bump [OF _ validate_assets_counts(2) [OF a]] validate_assets_counts(1) [OF a]
    by (simp add: counts_positive_def applied_state_def Let_def cd)
next
  fix st st' :: "('a, 'b) chain_state" and d
  assume inv: "counts_positive st" and "rollback_block cr st = Some (st', d)"
  from this(2) show "counts_positive st'"
    by (rule rollback_block_Some) (use inv in \<open>simp add: counts_positive_def positive_fold_undo\<close>)
qed (simp add: counts_positive_def store_block_def)


text \<open>Registries and their rollback snapshots hold every record under its own name.\<close>

definition snapshots_keyed :: "('v \<Rightarrow> string) \<Rightarrow> (u64, (string \<times> 'v) list) mapping \<Rightarrow> bool" where
  "snapshots_keyed key snaps \<longleftrightarrow>
     (\<forall>h olds. Mapping.lookup snaps h = Some olds \<longrightarrow> (\<forall>(k, r) \<in> set olds. key r = k))"

definition registries_keyed :: "('p, 's) chain_state \<Rightarrow> bool" where
  "registries_keyed st \<longleftrightarrow> keyed nr_name (cs_name_registry st) \<and> keyed ar_asset_id (cs_asset_registry st) \<and>
     keyed cl_collection_id (cs_collection_registry st) \<and>
     snapshots_keyed nr_name (cs_transfer_snapshots st) \<and>
     snapshots_keyed ar_asset_id (cs_asset_transfer_snapshots st)"

lemma restore_snapshot_keyed:
  assumes "(snaps', reg') = restore_snapshot h (snaps, reg)" and "snapshots_keyed key snaps" and "keyed key reg"
  shows "snapshots_keyed key snaps'" and "keyed key reg'"
  using assms keyed_insert_all [OF assms(3)]
  by (auto simp: restore_snapshot_def snapshots_keyed_def map_simps split: option.splits if_splits)

lemma record_snapshot_keyed:
  "snapshots_keyed key snaps \<Longrightarrow> \<forall>(k, r) \<in> set olds. key r = k \<Longrightarrow>
     snapshots_keyed key (record_snapshot h olds snaps)"
  by (auto simp: snapshots_keyed_def record_snapshot_def map_simps split: if_splits)

lemma keyed_delete_all: "keyed key m \<Longrightarrow> keyed key (delete_all ks m)"
  by (induction ks arbitrary: m) (simp_all add: keyed_delete)

lemma olds_keyed:
  assumes "keyed key m" and "\<forall>k \<in> set ks. Mapping.lookup m k \<noteq> None"
  shows "\<forall>(k, r) \<in> set (map (\<lambda>k. (k, the (Mapping.lookup m k))) ks). key r = k"
  using assms by (auto simp: keyed_def)

lemma names_keyed_apply:
  assumes "registries_keyed st" and "validate_block cr en st b = Some cd"
  shows "keyed nr_name (cd_names cd)"
    and "snapshots_keyed nr_name (record_snapshot h (old_names st b) (cs_transfer_snapshots st))"
proof -
  from assms(2) obtain names where v: "validate_names cr en st b = Some names" and cd: "cd_names cd = na_registry names"
    by (rule validate_block_Some)
  note f = validate_names_facts [OF v]
  show "keyed nr_name (cd_names cd)"
    using assms(1) unfolding cd f(2) registries_keyed_def
    by (intro keyed_insert_all) (auto simp: name_entries_def registered_name_def transferred_name_def)
  have "\<forall>k \<in> set (map tn_name (b_transfer_ops b)). Mapping.lookup (cs_name_registry st) k \<noteq> None"
    using f(5) by fastforce
  then show "snapshots_keyed nr_name (record_snapshot h (old_names st b) (cs_transfer_snapshots st))"
    using assms(1) unfolding registries_keyed_def old_names_def
    by (intro record_snapshot_keyed olds_keyed) blast+
qed

lemma assets_keyed_apply:
  assumes "registries_keyed st" and "validate_block cr en st b = Some cd"
  shows "keyed ar_asset_id (cd_assets cd)"
    and "snapshots_keyed ar_asset_id (record_snapshot h (old_assets st b) (cs_asset_transfer_snapshots st))"
proof -
  from assms(2) obtain spent assets where
      v: "validate_assets cr en st (cd_collections cd) spent b = Some assets" and cd: "cd_assets cd = mc_registry assets"
    by (rule validate_block_Some)
  note f = validate_assets_facts [OF v]
  show "keyed ar_asset_id (cd_assets cd)"
    using assms(1) unfolding cd f(2) registries_keyed_def
    by (intro keyed_insert_all) (auto simp: asset_entries_def minted_asset_def transferred_asset_def)
  have "\<forall>k \<in> set (map ta_asset_id (b_transfer_asset_ops b)). Mapping.lookup (cs_asset_registry st) k \<noteq> None"
    using f(5) by (fastforce simp: transfer_asset_ok_def)
  then show "snapshots_keyed ar_asset_id (record_snapshot h (old_assets st b) (cs_asset_transfer_snapshots st))"
    using assms(1) unfolding registries_keyed_def old_assets_def
    by (intro record_snapshot_keyed olds_keyed) blast+
qed

lemma collections_keyed_apply:
  assumes "registries_keyed st" and "validate_block cr en st b = Some cd"
  shows "keyed cl_collection_id (cd_collections cd)"
proof -
  from assms(2) have v: "validate_launches cr en st b = Some (cd_collections cd)"
    by (rule validate_block_Some)
  show ?thesis
    using assms(1) unfolding validate_launches_facts(2) [OF v] registries_keyed_def
    by (intro keyed_insert_all) (auto simp: collection_entries_def launched_collection_def)
qed

interpretation registry_inv: chain_invariant cr en "\<lambda>_ _. True" registries_keyed
proof
  fix st :: "('a, 'b) chain_state" and b cd
  assume a: "registries_keyed st" "validate_block cr en st b = Some cd"
  show "registries_keyed (applied_state cr b cd st)"
    using names_keyed_apply [OF a] assets_keyed_apply [OF a] collections_keyed_apply [OF a]
    by (simp add: registries_keyed_def applied_state_def Let_def)
next
  fix st st' :: "('a, 'b) chain_state" and d
  assume inv: "registries_keyed st" and "rollback_block cr st = Some (st', d)"
  from this(2) obtain tip :: "('a, 'b) block" where
      "(cs_transfer_snapshots st', cs_name_registry st') = restore_snapshot (cs_current_height st)
         (cs_transfer_snapshots st, delete_all (map rn_name (b_name_ops tip)) (cs_name_registry st))"
      "(cs_asset_transfer_snapshots st', cs_asset_registry st') = restore_snapshot (cs_current_height st)
         (cs_asset_transfer_snapshots st, delete_all (map ma_asset_id (b_mint_ops tip)) (cs_asset_registry st))"
      "cs_collection_registry st' =
         delete_all (map lc_collection_id (b_launch_collection_ops tip)) (cs_collection_registry st)"
    by (rule rollback_block_Some)
  then show "registries_keyed st'"
    using inv restore_snapshot_keyed [of "cs_transfer_snapshots st'"]
      restore_snapshot_keyed [of "cs_asset_transfer_snapshots st'"]
    unfolding registries_keyed_def by (metis keyed_delete_all)
qed (simp add: registries_keyed_def store_block_def)

text \<open>The active validators and every snapshot of them are well formed.\<close>

definition validators_sound ::
    "('p::ab_group_add, 's::comm_ring_1) crypto \<Rightarrow> ('p, 's) chain_state \<Rightarrow> bool" where
  "validators_sound cr st \<longleftrightarrow> validators_ok cr (cs_active_validators st) \<and>
     (\<forall>h vs. Mapping.lookup (cs_validator_snapshots st) h = Some vs \<longrightarrow> validators_ok cr vs)"

lemma validate_stakes_ok:
  "validate_stakes cr st ops = Some vs \<Longrightarrow> validators_ok cr (cs_active_validators st) \<Longrightarrow> validators_ok cr vs"
  unfolding validate_stakes_def
  by (erule fold_option_invariant [where P = "validators_ok cr"]) (auto intro: try_register_validator_ok(1))

interpretation validator_inv: chain_invariant cr en "\<lambda>_ _. True" "validators_sound cr"
proof
  fix st :: "('a, 'b) chain_state" and b cd
  assume inv: "validators_sound cr st" and "validate_block cr en st b = Some cd"
  from this(2) have "validate_stakes cr st (b_validator_ops b) = Some (cd_validators cd)"
    by (rule validate_block_Some)
  from validate_stakes_ok [OF this] inv
  show "validators_sound cr (applied_state cr b cd st)"
    by (auto simp: validators_sound_def applied_state_def Let_def remaining_validators_def map_simps
        validators_ok_filter split: if_splits)
next
  fix st st' :: "('a, 'b) chain_state" and d
  assume inv: "validators_sound cr st" and "rollback_block cr st = Some (st', d)"
  from this(2) obtain "cs_active_validators st' =
      (case Mapping.lookup (cs_validator_snapshots st) (cs_current_height st - 1) of None \<Rightarrow> [] | Some vs \<Rightarrow> vs)"
    "cs_validator_snapshots st' = Mapping.delete (cs_current_height st) (cs_validator_snapshots st)"
    by (rule rollback_block_Some)
  then show "validators_sound cr st'"
    using inv by (auto simp: validators_sound_def validators_ok_def map_simps split: option.splits if_splits)
qed (simp add: validators_sound_def store_block_def)


section \<open>Reachable states\<close>

text \<open>The states a node reaches from a fresh one by receiving blocks, as long as no received header collides
  with a stored one.\<close>

inductive reachable ::
    "('p::ab_group_add, 's::comm_ring_1) crypto \<Rightarrow> ('p, 's) env \<Rightarrow> ('p, 's) chain_state \<Rightarrow> bool"
  for cr en where
  fresh: "reachable cr en chain_new"
| receive: "reachable cr en st \<Longrightarrow> no_collision cr st b \<Longrightarrow>
    apply_block cr en b st = Some (Ret (st', r)) \<Longrightarrow> reachable cr en st'"

definition chain_ok ::
    "('p::ab_group_add, 's::comm_ring_1) crypto \<Rightarrow> ('p, 's) chain_state \<Rightarrow> bool" where
  "chain_ok cr st \<longleftrightarrow> store_keyed cr st \<and> chain_linked st \<and> kernels_indexed st \<and> counts_positive st \<and>
     registries_keyed st \<and> validators_sound cr st"

lemma chain_new_ok: "chain_ok cr chain_new"
proof -
  have "chain_linked chain_new" by (simp add: chain_linked_def chain_new_def lookup_empty)
  then show ?thesis
    by (simp add: chain_ok_def chain_new_def store_keyed_def kernels_indexed_def counts_positive_def
        positive_def registries_keyed_def keyed_def snapshots_keyed_def validators_sound_def
        validators_ok_def lookup_empty)
qed

lemma apply_block_ok:
  assumes "chain_ok cr st" and "no_collision cr st b" and "apply_block cr en b st = Some (Ret (st', r))"
  shows "chain_ok cr st'"
proof -
  have ok: "store_keyed cr st" "chain_linked st" "kernels_indexed st" "counts_positive st"
      "registries_keyed st" "validators_sound cr st"
    using assms(1) by (simp_all add: chain_ok_def)
  note step = _ ok(1) _ assms(3)
  show ?thesis
    unfolding chain_ok_def
    using store_inv.apply_block_inv [OF step] link_inv.apply_block_inv [OF step]
      kernel_inv.apply_block_inv [OF step] count_inv.apply_block_inv [OF step]
      registry_inv.apply_block_inv [OF step] validator_inv.apply_block_inv [OF step] ok assms(2)
    by blast
qed

lemma reachable_ok: "reachable cr en st \<Longrightarrow> chain_ok cr st"
  by (induction rule: reachable.induct) (auto intro: chain_new_ok apply_block_ok)

text \<open>C4. Every state a node reaches by receiving blocks, through extensions and reorganisations alike, is
  well formed: blocks are stored under their hashes, the tip is linked to its ancestors
  height by height, the kernel index agrees with the kernels, mint counts are positive, every
  registry record and every snapshot is filed under its own name, and the validator set is valid.\<close>

theorem reachable_chain_ok:
  assumes "reachable cr en st"
  shows "chain_ok cr st"
  using assms by (rule reachable_ok)


definition w_genesis :: "(wpoint, u64) block" where
  "w_genesis = (let b = w_block chain_new (w_tx [] [(GENESIS_TOTAL_MINTED, 5)] (- 5) 0) [] [] in
     b\<lparr>b_header := (b_header b)\<lparr>bh_height := 0\<rparr>\<rparr>)"

lemma w_genesis_applies:
  obtains st d where "apply_block w_crypto w_env w_genesis chain_new = Some (Ret (st, Linear d))"
    "reachable w_crypto w_env st"
proof -
  let ?st = "store_block w_crypto w_genesis chain_new"
  have "validate_block w_crypto w_env ?st w_genesis \<noteq> None"
    by (simp add: store_block_def w_genesis_def block_reward_def w_block_eval)
  then obtain st d where acc: "apply_linear_block w_crypto w_env w_genesis ?st = Ret (st, Some d)"
    by (rule w_apply)
  have "block_validate w_crypto w_genesis" "is_linear ?st (b_header w_genesis)"
    by (simp_all add: block_validate_def is_linear_def store_block_def w_genesis_def block_reward_def w_block_eval)
  with acc have step: "apply_block w_crypto w_env w_genesis chain_new = Some (Ret (st, Linear d))"
    by (simp add: apply_block_def Let_def)
  have "no_collision w_crypto chain_new w_genesis"
    using w_header_hash_neq [of 0] by (simp add: no_collision_def chain_new_def lookup_empty)
  from reachable.receive [OF reachable.fresh this step] step that show thesis by blast
qed

theorem reachable_chain_ok_witness:
  "\<exists>st d. apply_block w_crypto w_env w_genesis chain_new = Some (Ret (st, Linear d)) \<and> chain_ok w_crypto st"
proof -
  obtain st d where st: "apply_block w_crypto w_env w_genesis chain_new = Some (Ret (st, Linear d))"
      "reachable w_crypto w_env st" by (rule w_genesis_applies)
  with reachable_chain_ok [OF st(2)] show ?thesis by blast
qed


section \<open>Block queries\<close>

text \<open>The blocks from height 0 to the tip.\<close>

fun active_chain :: "('p, 's) block_store \<Rightarrow> nat \<Rightarrow> hash32 \<Rightarrow> ('p, 's) block list" where
  "active_chain blocks 0 h = (case Mapping.lookup blocks h of None \<Rightarrow> [] | Some b \<Rightarrow> [b])"
| "active_chain blocks (Suc n) h =
     (case Mapping.lookup blocks h of None \<Rightarrow> []
      | Some b \<Rightarrow> active_chain blocks n (bh_prev_hash (b_header b)) @ [b])"

lemma active_chain_heights:
  "linked blocks n h \<Longrightarrow> n < 2 ^ 64 \<Longrightarrow>
     \<exists>k \<le> 1. map (\<lambda>b. unat (bh_height (b_header b))) (active_chain blocks n h) = [k..<Suc n]"
proof (induction n arbitrary: h)
  case 0
  then show ?case
    by (cases "Mapping.lookup blocks h") (auto intro: exI [of _ 0] exI [of _ 1])
next
  case (Suc n)
  then obtain b where b: "Mapping.lookup blocks h = Some b" "bh_height (b_header b) = of_nat (Suc n)"
      "linked blocks n (bh_prev_hash (b_header b))"
    by (simp split: option.splits)
  have "n < 2 ^ 64" using Suc.prems(2) by simp
  from Suc.IH [OF b(3) this] obtain k where k: "k \<le> 1"
      "map (\<lambda>b. unat (bh_height (b_header b))) (active_chain blocks n (bh_prev_hash (b_header b))) = [k..<Suc n]"
    by blast
  have "unat (bh_height (b_header b)) = Suc n" using Suc.prems(2) b(2) unat_of_nat_u64 by metis
  moreover have "[k..<Suc (Suc n)] = [k..<Suc n] @ [Suc n]" using k(1) by simp
  ultimately show ?case using k b(1) by (intro exI [of _ k]) (simp del: upt_Suc)
qed

lemma collect_blocks_chain:
  "linked blocks n h \<Longrightarrow> n < 2 ^ 64 \<Longrightarrow>
     collect_blocks blocks from_height h acc =
       Some (acc @ rev (filter (\<lambda>b. from_height \<le> bh_height (b_header b)) (active_chain blocks n h)))"
proof (induction n arbitrary: h acc)
  case 0
  then show ?case
    by (subst collect_blocks.simps) (auto simp: not_less split: option.splits)
next
  case (Suc n)
  then obtain b where b: "Mapping.lookup blocks h = Some b" "bh_height (b_header b) = of_nat (Suc n)"
      "linked blocks n (bh_prev_hash (b_header b))"
    by (simp split: option.splits)
  have n: "unat (bh_height (b_header b)) = Suc n" using Suc.prems(2) b(2) unat_of_nat_u64 by metis
  then have nz: "bh_height (b_header b) \<noteq> 0" by auto
  have less: "n < 2 ^ 64" using Suc.prems(2) by simp
  show ?case
  proof (cases "bh_height (b_header b) < from_height")
    case True
    have "unat (bh_height (b_header c)) < Suc n" if "c \<in> set (active_chain blocks n (bh_prev_hash (b_header b)))" for c
    proof -
      from active_chain_heights [OF b(3) less] obtain k where
        "map (\<lambda>b. unat (bh_height (b_header b))) (active_chain blocks n (bh_prev_hash (b_header b))) = [k..<Suc n]" by blast
      from arg_cong [OF this, of set] that show ?thesis by auto
    qed
    then have "filter (\<lambda>b. from_height \<le> bh_height (b_header b))
        (active_chain blocks n (bh_prev_hash (b_header b))) = []"
      using True n by (fastforce simp: filter_empty_conv word_less_nat_alt word_le_nat_alt)
    with True b(1) show ?thesis by (subst collect_blocks.simps) simp
  next
    case False
    with b(1) nz show ?thesis
      by (subst collect_blocks.simps) (simp add: Suc.IH [OF b(3) less] not_less)
  qed
qed

text \<open>In a reachable state \<open>get_blocks_from\<close> always returns: there is a chain of blocks, one per height up to the
  tip, and the answer is the first \<open>limit\<close> of those at or above \<open>from_height\<close> in ascending order,
  with the flag set exactly when more were available.\<close>

theorem get_blocks_from_spec:
  assumes "reachable cr en st"
  shows "\<exists>k \<le> 1. \<exists>chain. map (\<lambda>b. unat (bh_height (b_header b))) chain = [k..<Suc (unat (cs_current_height st))] \<and>
    (let bs = filter (\<lambda>b. from_height \<le> bh_height (b_header b)) chain in
     get_blocks_from st from_height limit = Some (take limit bs, limit < length bs))"
proof -
  let ?n = "unat (cs_current_height st)"
  have linked: "linked (cs_blocks st) ?n (cs_last_block_hash st)"
    using reachable_ok [OF assms] by (simp add: chain_ok_def chain_linked_def)
  let ?chain = "active_chain (cs_blocks st) ?n (cs_last_block_hash st)"
  from active_chain_heights [OF linked unat_u64_less] obtain k where
      "k \<le> 1" "map (\<lambda>b. unat (bh_height (b_header b))) ?chain = [k..<Suc ?n]" by blast
  moreover have "get_blocks_from st from_height limit =
      (let bs = filter (\<lambda>b. from_height \<le> bh_height (b_header b)) ?chain in Some (take limit bs, limit < length bs))"
    using collect_blocks_chain [OF linked unat_u64_less, of from_height "[]"]
    by (simp add: get_blocks_from_def Let_def)
  ultimately show ?thesis unfolding Let_def by blast
qed

theorem get_blocks_from_spec_witness:
  "\<exists>st d bs more. apply_block w_crypto w_env w_genesis chain_new = Some (Ret (st, Linear d)) \<and>
     get_blocks_from st 0 10 = Some (bs, more)"
proof -
  obtain st d where st: "apply_block w_crypto w_env w_genesis chain_new = Some (Ret (st, Linear d))"
      "reachable w_crypto w_env st" by (rule w_genesis_applies)
  from get_blocks_from_spec [OF st(2), of 0 10] st(1) show ?thesis by (auto simp: Let_def)
qed

end
