(* ===== verification/Chain_History.thy ===== *)
theory Chain_History
  imports Chain_Invariant
begin

text \<open>
  Whole histories: rolling back a run of blocks restores the state before it, which is what the
  first half of a reorganisation relies on, and a run of honest blocks satisfies the identity that
  \<open>aggregate_validate\<close> of \<open>core/src/chain.rs\<close> checks on pruned history. The last section shows how a block
  that is stored without being checked against the chain replaces the body of an applied block and
  corrupts a later rollback.
\<close>

section \<open>Rolling back a run of blocks\<close>

lemma rollback_frame:
  assumes "Mapping.lookup blocks (cs_last_block_hash st) = Mapping.lookup (cs_blocks st) (cs_last_block_hash st)"
  shows "rollback_block cr (st\<lparr>cs_blocks := blocks, cs_active_validators := vs\<rparr>) =
    map_option (\<lambda>(st', d). (st'\<lparr>cs_blocks := blocks\<rparr>, d)) (rollback_block cr st)"
  using assms by (simp add: rollback_block_def Let_def split: option.splits prod.splits)

lemma rollback_all_append:
  "rollback_all cr (hs @ hs') st = do {
     (st, ds) \<leftarrow> rollback_all cr hs st;
     (st, ds') \<leftarrow> rollback_all cr hs' st;
     Some (st, ds @ ds')
   }"
proof (induction hs arbitrary: st)
  case Nil
  then show ?case by (simp add: split_beta)
next
  case (Cons h hs)
  then show ?case by (cases "rollback_block cr st") (simp_all add: split_beta)
qed

text \<open>Only the number of hashes matters to the loop.\<close>

lemma rollback_all_length: "length hs = length hs' \<Longrightarrow> rollback_all cr hs st = rollback_all cr hs' st"
  by (induction hs hs' arbitrary: st rule: list_induct2) simp_all

text \<open>Each block of the run is above genesis and undoable where it is applied.\<close>

fun undoable_run ::
    "('p::ab_group_add, 's::comm_ring_1) crypto \<Rightarrow> ('p, 's) env \<Rightarrow> ('p, 's) block list \<Rightarrow>
       ('p, 's) chain_state \<Rightarrow> bool" where
  "undoable_run cr en [] st \<longleftrightarrow> True"
| "undoable_run cr en (b # bs) st \<longleftrightarrow> 0 < bh_height (b_header b) \<and> undoable st b \<and>
     (case apply_linear_block cr en b st of Ret (st', Some d) \<Rightarrow> undoable_run cr en bs st' | _ \<Rightarrow> False)"

definition snapshot_validators :: "('p, 's) chain_state \<Rightarrow> ('p, 's) validator list" where
  "snapshot_validators st = (case Mapping.lookup (cs_validator_snapshots st) (cs_current_height st) of
     None \<Rightarrow> [] | Some vs \<Rightarrow> vs)"

lemma apply_all_blocks:
  "apply_all cr en bs st = Ret (Some (st', ds)) \<Longrightarrow> h \<notin> header_hash cr ` b_header ` set bs \<Longrightarrow>
     Mapping.lookup (cs_blocks st') h = Mapping.lookup (cs_blocks st) h"
proof (induction bs arbitrary: st ds)
  case (Cons b bs)
  from Cons.prems(1) obtain st1 d ds' where step: "apply_linear_block cr en b st = Ret (st1, Some d)"
      and rest: "apply_all cr en bs st1 = Ret (Some (st', ds'))"
    by (rule apply_all_Cons)
  from step obtain cd where st1: "st1 = applied_state cr b cd st" by (rule apply_linear_block_Some)
  from Cons.IH [OF rest] Cons.prems(2) show ?case
    by (auto simp: st1 applied_state_def Let_def map_simps)
qed simp

lemma rollback_run:
  "apply_all cr en bs st = Ret (Some (st', ds)) \<Longrightarrow> undoable_run cr en bs st \<Longrightarrow>
     distinct (map (\<lambda>b. header_hash cr (b_header b)) bs) \<Longrightarrow>
     \<exists>rds. rollback_all cr (map f bs) st' = Some
       (st\<lparr>cs_blocks := cs_blocks st',
           cs_active_validators := if bs = [] then cs_active_validators st else snapshot_validators st\<rparr>, rds)"
proof (induction bs arbitrary: st ds f rule: list.induct)
  case (Cons b bs)
  from Cons.prems(1) obtain st1 d ds' where step: "apply_linear_block cr en b st = Ret (st1, Some d)"
      and rest: "apply_all cr en bs st1 = Ret (Some (st', ds'))"
    by (rule apply_all_Cons)
  have undo: "0 < bh_height (b_header b)" "undoable st b" "undoable_run cr en bs st1"
    using Cons.prems(2) step by simp_all
  let ?h = "header_hash cr (b_header b)" and ?m = "cs_blocks st'"
  from step obtain cd where st1: "st1 = applied_state cr b cd st" by (rule apply_linear_block_Some)
  have "distinct (map (\<lambda>b. header_hash cr (b_header b)) bs)" using Cons.prems(3) by simp
  from Cons.IH [OF rest undo(3) this, of f] obtain vs rds where
      restored: "rollback_all cr (map f bs) st' = Some (st1\<lparr>cs_blocks := ?m, cs_active_validators := vs\<rparr>, rds)"
    by blast
  have "Mapping.lookup ?m ?h = Mapping.lookup (cs_blocks st1) ?h"
    using Cons.prems(3) by (intro apply_all_blocks [OF rest]) auto
  then have "rollback_block cr (st1\<lparr>cs_blocks := ?m, cs_active_validators := vs\<rparr>) =
      map_option (\<lambda>(st', d). (st'\<lparr>cs_blocks := ?m\<rparr>, d)) (rollback_block cr st1)"
    by (intro rollback_frame) (simp add: st1 applied_state_def Let_def)
  with rollback_applied [OF step undo(1,2)] obtain rd where
      "rollback_block cr (st1\<lparr>cs_blocks := ?m, cs_active_validators := vs\<rparr>) =
        Some (st\<lparr>cs_blocks := ?m, cs_active_validators := snapshot_validators st\<rparr>, rd)"
    by (auto simp: snapshot_validators_def)
  with restored have "rollback_all cr (map f bs @ [f b]) st' =
      Some (st\<lparr>cs_blocks := ?m, cs_active_validators := snapshot_validators st\<rparr>, rds @ [rd])"
    by (simp add: rollback_all_append)
  moreover have "rollback_all cr (map f (b # bs)) st' = rollback_all cr (map f bs @ [f b]) st'"
    by (rule rollback_all_length) simp
  ultimately show ?case by simp
qed simp

text \<open>Rolling back as many blocks as a run applied restores the state before the run, whatever the length:
  outputs, kernels, registries, counts, snapshots, height and tip. The block store keeps the blocks,
  and the validators become the last snapshot before the run. This is the state a reorganisation
  applies the new branch to.\<close>

theorem rollback_restores_history:
  assumes "apply_all cr en bs st = Ret (Some (st', ds))" and "undoable_run cr en bs st" and "bs \<noteq> []"
    and "distinct (map (\<lambda>b. header_hash cr (b_header b)) bs)" and "length hashes = length bs"
  shows "\<exists>rds. rollback_all cr hashes st' = Some
    (st\<lparr>cs_blocks := cs_blocks st', cs_active_validators := snapshot_validators st\<rparr>, rds)"
  using rollback_run [OF assms(1,2,4), of "\<lambda>_. ()"] assms(3,5)
    rollback_all_length [of hashes "map (\<lambda>_. ()) bs" cr st'] by simp

lemma w_good_undoable: "undoable w_state w_good_block" "0 < bh_height (b_header w_good_block)"
  by (simp_all add: undoable_def w_state_def w_good_block_def w_block_def w_tx_def w_name_op_def
      chain_new_def lookup_empty positive_def all_outputs_def fee_payments_def)

theorem rollback_restores_history_witness:
  "\<exists>st' ds rds. apply_all w_crypto w_env [w_good_block] w_state = Ret (Some (st', ds)) \<and>
     rollback_all w_crypto [zero_hash] st' = Some
       (w_state\<lparr>cs_blocks := cs_blocks st', cs_active_validators := snapshot_validators w_state\<rparr>, rds)"
proof -
  obtain st' d where acc: "apply_linear_block w_crypto w_env w_good_block w_state = Ret (st', Some d)"
    using w_good_block_valid by (rule w_apply)
  then have run: "apply_all w_crypto w_env [w_good_block] w_state = Ret (Some (st', [d]))" by simp
  moreover have "undoable_run w_crypto w_env [w_good_block] w_state"
    using acc w_good_undoable by simp
  ultimately show ?thesis
    using rollback_restores_history [OF run, of "[zero_hash]"] by simp
qed


section \<open>Aggregate validation\<close>

definition total_registry_fees_burned :: "('p, 's) block_store \<Rightarrow> u64" where
  "total_registry_fees_burned blocks =
     (\<Sum>h \<in> Mapping.keys blocks. case Mapping.lookup blocks h of None \<Rightarrow> 0
        | Some b \<Rightarrow> sum_list (map fee (fee_kernels b)))"

definition total_reward_issued :: "u64 \<Rightarrow> u64" where
  "total_reward_issued tip_height =
     GENESIS_TOTAL_MINTED + sum_list (map (\<lambda>h. block_reward_at (of_nat h)) [1..<Suc (unat tip_height)])"

definition aggregate_validate ::
    "('p::ab_group_add, 's::comm_ring_1) crypto \<Rightarrow> 'p commitment set \<Rightarrow> ('p, 's) tx_kernel list \<Rightarrow> u64 \<Rightarrow>
       u64 \<Rightarrow> bool" where
  "aggregate_validate cr utxos kernels tip_height registry_fees_burned \<longleftrightarrow>
     list_all (\<lambda>k. verify cr (kernel_sig k) (u64_le (fee k)) (excess k)) kernels \<and>
     (\<Sum>c \<in> utxos. as_point c) + sum_points (map excess kernels) =
       as_point (commitment_new cr
         (saturating_sub (total_reward_issued tip_height) registry_fees_burned) 0)"

lemma unat_total_reward_issued:
  "unat (total_reward_issued tip) =
     unat GENESIS_TOTAL_MINTED + (\<Sum>h \<leftarrow> [1..<Suc (unat tip)]. unat (block_reward_at (of_nat h)))"
  "unat (total_reward_issued tip) \<le> 20908599460"
proof -
  let ?r = "\<lambda>h. block_reward_at (of_nat h)"
  have sum: "(\<Sum>h \<leftarrow> [1..<Suc (unat tip)]. unat (?r h)) = (\<Sum>h = 1..unat tip. unat (?r h))"
    by (simp add: sum_list_distinct_conv_sum_set atLeastLessThanSuc_atLeastAtMost del: upt_Suc)
  have cap: "unat GENESIS_TOTAL_MINTED + (\<Sum>h = 1..unat tip. unat (?r h)) \<le> 20908599460"
    using issuance_nat(1) [of "unat tip"] unfolding sum_rewards_nat by (simp add: tokenomics_defs)
  have "unat (sum_list (map ?r [1..<Suc (unat tip)])) = (\<Sum>h \<leftarrow> [1..<Suc (unat tip)]. unat (?r h))"
    using unat_sum_list [of "map ?r [1..<Suc (unat tip)]"] cap sum by (simp add: comp_def del: upt_Suc)
  with cap sum show "unat (total_reward_issued tip) =
      unat GENESIS_TOTAL_MINTED + (\<Sum>h \<leftarrow> [1..<Suc (unat tip)]. unat (?r h))"
    "unat (total_reward_issued tip) \<le> 20908599460"
    by (simp_all add: total_reward_issued_def unat_word_ariths del: upt_Suc)
qed


text \<open>A block as an honest proposer builds it: no input twice, new outputs, a hash not seen before, at a height
  that still pays a reward (later the fees of the body are taken out of circulation as well).\<close>

definition honest_block :: "('p, 's) crypto \<Rightarrow> ('p, 's) chain_state \<Rightarrow> ('p, 's) block \<Rightarrow> bool" where
  "honest_block cr st b \<longleftrightarrow> 0 < bh_height (b_header b) \<and> block_reward_at (bh_height (b_header b)) \<noteq> 0 \<and>
     distinct (map in_commitment (tx_inputs (b_body b))) \<and> fresh_outputs st b \<and>
     header_hash cr (b_header b) \<notin> Mapping.keys (cs_blocks st)"

fun honest_run ::
    "('p::ab_group_add, 's::comm_ring_1) crypto \<Rightarrow> ('p, 's) env \<Rightarrow> ('p, 's) block list \<Rightarrow>
       ('p, 's) chain_state \<Rightarrow> bool" where
  "honest_run cr en [] st \<longleftrightarrow> True"
| "honest_run cr en (b # bs) st \<longleftrightarrow> honest_block cr st b \<and>
     (case apply_linear_block cr en b st of Ret (st', Some d) \<Rightarrow> honest_run cr en bs st' | _ \<Rightarrow> False)"

abbreviation nat_B :: "('p, 's::comm_ring_1) crypto \<Rightarrow> nat \<Rightarrow> 'p" where
  "nat_B cr n \<equiv> smul cr (of_nat n) (gen_B cr)"

definition burned_fees :: "('p, 's) block \<Rightarrow> nat" where
  "burned_fees b = (\<Sum>k \<leftarrow> fee_kernels b. unat (fee k))"

lemma nat_B_add: "module_laws cr \<Longrightarrow> nat_B cr (m + n) = nat_B cr m + nat_B cr n"
  by (simp add: smul_add)

lemma fees_nat_B:
  assumes "module_laws cr"
  shows "(\<Sum>k \<leftarrow> ks. smul cr (scalar_of_u64 (fee k)) (gen_B cr)) = nat_B cr (\<Sum>k \<leftarrow> ks. unat (fee k))"
  by (induction ks) (simp_all add: smul_zero [OF assms] smul_add [OF assms] scalar_of_u64_def)

text \<open>What one honest block does to each of the quantities the check compares.\<close>

lemma honest_block_ledger:
  assumes "module_laws cr" and "apply_linear_block cr en b st = Ret (st', Some d)" and "honest_block cr st b"
    and "finite (cs_utxos st)"
  shows "ledger_sum st' + nat_B cr (burned_fees b) =
      ledger_sum st + nat_B cr (unat (block_reward_at (bh_height (b_header b))))"
    and "finite (cs_utxos st')"
proof -
  note h = assms(3) [unfolded honest_block_def]
  from block_conserves [OF assms(1,2) _ assms(4)] h
  have "ledger_sum st' = ledger_sum st + smul cr (scalar_of_u64 (block_reward_at (bh_height (b_header b)))) (gen_B cr) -
      nat_B cr (burned_fees b)"
    by (simp add: smul_zero [OF assms(1)] fees_nat_B [OF assms(1)] burned_fees_def)
  then show "ledger_sum st' + nat_B cr (burned_fees b) =
      ledger_sum st + nat_B cr (unat (block_reward_at (bh_height (b_header b))))"
    by (simp add: scalar_of_u64_def)
  from assms(2) obtain cd where v: "validate_block cr en st b = Some cd" and st': "st' = applied_state cr b cd st"
    by (rule apply_linear_block_Some)
  from applied_utxos [OF v] h assms(4) show "finite (cs_utxos st')"
    by (simp add: st' fresh_outputs_def)
qed

lemma applied_kernels_ok:
  assumes "apply_linear_block cr en b st = Ret (st', Some d)" and "list_all (kernel_ok cr) (cs_kernels st)"
  shows "list_all (kernel_ok cr) (cs_kernels st')"
proof -
  from assms(1) obtain cd where v: "validate_block cr en st b = Some cd" and st': "st' = applied_state cr b cd st"
    by (rule apply_linear_block_Some)
  from v have "body_ok cr en st b" by (rule validate_block_Some)
  then have "list_all (kernel_ok cr) (tx_kernels (b_body b))"
    by (simp add: body_ok_def validate_with_reward_def Let_def)
  moreover have "list_all (kernel_ok cr) (fee_kernels b)"
    using fee_payments_ok [OF v]
    by (fastforce simp: fee_kernels_eq list_all_iff fee_payment_ok_def validate_def validate_with_reward_def)
  ultimately show ?thesis using assms(2) by (simp add: st' applied_state_def Let_def new_kernels_def)
qed

lemma applied_height:
  assumes "apply_linear_block cr en b st = Ret (st', Some d)" and "0 < bh_height (b_header b)"
  shows "cs_current_height st' = bh_height (b_header b)" "unat (cs_current_height st') = Suc (unat (cs_current_height st))"
proof -
  from assms(1) obtain cd where v: "validate_block cr en st b = Some cd" and st': "st' = applied_state cr b cd st"
    by (rule apply_linear_block_Some)
  show height: "cs_current_height st' = bh_height (b_header b)" by (simp add: st' applied_state_def Let_def)
  from v have "connects st (b_header b)" by (rule validate_block_Some)
  with assms(2) have "bh_height (b_header b) = cs_current_height st + 1" "cs_current_height st + 1 \<noteq> 0"
    by (auto simp: connects_def split: if_splits)
  then show "unat (cs_current_height st') = Suc (unat (cs_current_height st))"
    unfolding height by (simp add: unat_next)
qed

lemma applied_burned:
  assumes "apply_linear_block cr en b st = Ret (st', Some d)" and "finite (Mapping.keys (cs_blocks st))"
    and "header_hash cr (b_header b) \<notin> Mapping.keys (cs_blocks st)"
  shows "total_registry_fees_burned (cs_blocks st') =
      total_registry_fees_burned (cs_blocks st) + sum_list (map fee (fee_kernels b))"
    and "finite (Mapping.keys (cs_blocks st'))"
proof -
  from assms(1) obtain cd where "st' = applied_state cr b cd st" by (rule apply_linear_block_Some)
  then have blocks: "cs_blocks st' = Mapping.update (header_hash cr (b_header b)) b (cs_blocks st)"
    by (simp add: applied_state_def Let_def)
  show "finite (Mapping.keys (cs_blocks st'))" using assms(2) by (simp add: blocks)
  have "(\<Sum>h \<in> Mapping.keys (cs_blocks st). case Mapping.lookup (cs_blocks st') h of None \<Rightarrow> 0
        | Some b \<Rightarrow> sum_list (map fee (fee_kernels b))) = total_registry_fees_burned (cs_blocks st)"
    unfolding total_registry_fees_burned_def blocks
    using assms(3) by (intro sum.cong) (auto simp: map_simps)
  then show "total_registry_fees_burned (cs_blocks st') =
      total_registry_fees_burned (cs_blocks st) + sum_list (map fee (fee_kernels b))"
    using assms(2,3)
    by (simp add: total_registry_fees_burned_def [of "cs_blocks st'"]) (simp add: blocks map_simps add.commute)
qed

lemma honest_run_sums:
  assumes "module_laws cr"
  shows "apply_all cr en bs st = Ret (Some (st', ds)) \<Longrightarrow> honest_run cr en bs st \<Longrightarrow> finite (cs_utxos st) \<Longrightarrow>
     finite (Mapping.keys (cs_blocks st)) \<Longrightarrow> list_all (kernel_ok cr) (cs_kernels st) \<Longrightarrow>
     ledger_sum st' + nat_B cr (sum_list (map burned_fees bs)) = ledger_sum st +
       nat_B cr (\<Sum>h \<in> {Suc (unat (cs_current_height st))..unat (cs_current_height st')}. unat (block_reward_at (of_nat h))) \<and>
     unat (cs_current_height st) \<le> unat (cs_current_height st') \<and>
     total_registry_fees_burned (cs_blocks st') = total_registry_fees_burned (cs_blocks st) +
       sum_list (map fee (concat (map fee_kernels bs))) \<and>
     list_all (kernel_ok cr) (cs_kernels st')"
proof (induction bs arbitrary: st ds)
  case (Cons b bs)
  from Cons.prems(1) obtain st1 d ds' where step: "apply_linear_block cr en b st = Ret (st1, Some d)"
      and rest: "apply_all cr en bs st1 = Ret (Some (st', ds'))"
    by (rule apply_all_Cons)
  have h: "honest_block cr st b" "honest_run cr en bs st1" using Cons.prems(2) step by simp_all
  have pos: "0 < bh_height (b_header b)" "header_hash cr (b_header b) \<notin> Mapping.keys (cs_blocks st)"
    using h(1) by (simp_all add: honest_block_def)
  note one = honest_block_ledger [OF assms step h(1) Cons.prems(3)] applied_burned [OF step Cons.prems(4) pos(2)]
    applied_height [OF step pos(1)]
  note ih = Cons.IH [OF rest h(2) one(2) one(4) applied_kernels_ok [OF step Cons.prems(5)]]
  let ?r = "\<lambda>h. unat (block_reward_at (of_nat h))" and ?h = "unat (cs_current_height st)"
  have le: "Suc ?h \<le> unat (cs_current_height st')" using ih one(6) by simp
  then have "(\<Sum>h \<in> {Suc ?h..unat (cs_current_height st')}. ?r h) =
      ?r (Suc ?h) + (\<Sum>h \<in> {Suc (Suc ?h)..unat (cs_current_height st')}. ?r h)"
    by (simp add: sum.atLeast_Suc_atMost)
  moreover have "?r (Suc ?h) = unat (block_reward_at (bh_height (b_header b)))"
    unfolding one(6) [symmetric] one(5) by simp
  ultimately have sum: "nat_B cr (\<Sum>h \<in> {Suc ?h..unat (cs_current_height st')}. ?r h) =
      nat_B cr (unat (block_reward_at (bh_height (b_header b)))) +
      nat_B cr (\<Sum>h \<in> {Suc (Suc ?h)..unat (cs_current_height st')}. ?r h)"
    by (simp only: nat_B_add [OF assms])
  have "ledger_sum st' + nat_B cr (sum_list (map burned_fees (b # bs))) =
      ledger_sum st' + nat_B cr (sum_list (map burned_fees bs)) + nat_B cr (burned_fees b)"
    by (simp add: smul_add [OF assms] add.assoc)
  also have "\<dots> = ledger_sum st1 + nat_B cr (burned_fees b) +
      nat_B cr (\<Sum>h \<in> {Suc (Suc ?h)..unat (cs_current_height st')}. ?r h)"
    using ih one(6) by (simp add: add.assoc add.commute)
  also have "\<dots> = ledger_sum st + nat_B cr (\<Sum>h \<in> {Suc ?h..unat (cs_current_height st')}. ?r h)"
    unfolding one(1) sum by (simp add: add.assoc)
  finally show ?case using ih one(3) le by (simp add: add.assoc)
qed simp


text \<open>The state right after genesis.\<close>

definition honest_start :: "('p::ab_group_add, 's::comm_ring_1) crypto \<Rightarrow> ('p, 's) chain_state \<Rightarrow> bool" where
  "honest_start cr st \<longleftrightarrow> cs_current_height st = 0 \<and>
     ledger_sum st = nat_B cr (unat GENESIS_TOTAL_MINTED) \<and> finite (cs_utxos st) \<and>
     finite (Mapping.keys (cs_blocks st)) \<and> list_all (kernel_ok cr) (cs_kernels st) \<and>
     total_registry_fees_burned (cs_blocks st) = 0"

text \<open>Aggregate validation accepts honest history: after any number of honest blocks on top of genesis, the
  check that a syncing node runs on pruned history succeeds for the unspent outputs, the kernels,
  the height and the burned fees of the resulting state, as long as no more was burned than issued.\<close>

theorem aggregate_validate_honest:
  assumes "module_laws cr" and "honest_start cr st" and "apply_all cr en bs st = Ret (Some (st', ds))"
    and "honest_run cr en bs st"
    and "sum_list (map burned_fees bs) \<le> unat (total_reward_issued (cs_current_height st'))"
  shows "aggregate_validate cr (cs_utxos st') (cs_kernels st') (cs_current_height st')
    (total_registry_fees_burned (cs_blocks st'))"
proof -
  let ?tip = "cs_current_height st'" and ?burned = "total_registry_fees_burned (cs_blocks st')"
  note start = assms(2) [unfolded honest_start_def]
  have sums: "ledger_sum st' + nat_B cr (sum_list (map burned_fees bs)) = nat_B cr (unat GENESIS_TOTAL_MINTED) +
      nat_B cr (\<Sum>h \<in> {1..unat ?tip}. unat (block_reward_at (of_nat h)))"
      "?burned = sum_list (map fee (concat (map fee_kernels bs)))" "list_all (kernel_ok cr) (cs_kernels st')"
    using honest_run_sums [OF assms(1,3,4)] start by simp_all
  have issued: "unat (total_reward_issued ?tip) =
      unat GENESIS_TOTAL_MINTED + (\<Sum>h \<in> {1..unat ?tip}. unat (block_reward_at (of_nat h)))"
    unfolding unat_total_reward_issued(1)
    by (simp add: sum_list_distinct_conv_sum_set atLeastLessThanSuc_atLeastAtMost del: upt_Suc)
  have fees: "sum_list (map burned_fees bs) = sum_list (map unat (map fee (concat (map fee_kernels bs))))"
    by (induction bs) (simp_all add: burned_fees_def comp_def)
  have burned: "unat ?burned = sum_list (map burned_fees bs)"
    unfolding sums(2) using assms(5) unat_total_reward_issued(2) [of ?tip]
    by (subst unat_sum_list) (simp_all add: fees)
  then have "unat (saturating_sub (total_reward_issued ?tip) ?burned) + sum_list (map burned_fees bs) =
      unat (total_reward_issued ?tip)"
    using assms(5) by (simp add: saturating_sub_def word_less_nat_alt unat_sub word_le_nat_alt)
  then have "nat_B cr (unat (saturating_sub (total_reward_issued ?tip) ?burned)) +
      nat_B cr (sum_list (map burned_fees bs)) = ledger_sum st' + nat_B cr (sum_list (map burned_fees bs))"
    unfolding sums(1) nat_B_add [OF assms(1), symmetric] issued [symmetric] by simp
  then have "ledger_sum st' = nat_B cr (unat (saturating_sub (total_reward_issued ?tip) ?burned))" by simp
  moreover have "list_all (\<lambda>k. verify cr (kernel_sig k) (u64_le (fee k)) (excess k)) (cs_kernels st')"
    using sums(3) unfolding kernel_ok_def .
  ultimately show ?thesis
    by (simp add: aggregate_validate_def ledger_sum_def commitment_new_def smul_zero [OF assms(1)]
        scalar_of_u64_def)
qed

definition w_start :: "(wpoint, u64) chain_state" where
  "w_start = chain_new\<lparr>cs_utxos := {w_com GENESIS_TOTAL_MINTED 5},
     cs_kernels := [\<lparr>excess = w_com 0 (- 5), fee = 0, kernel_sig = w_sig\<rparr>], cs_last_block_hash := replicate 32 5\<rparr>"

definition w_first_block :: "(wpoint, u64) block" where
  "w_first_block =
     w_block w_start (w_tx [(GENESIS_TOTAL_MINTED, 5)] [(GENESIS_TOTAL_MINTED + 540, 6)] (- 1) 0) [] []"

theorem aggregate_validate_honest_witness:
  "\<exists>st' ds. apply_all w_crypto w_env [w_first_block] w_start = Ret (Some (st', ds)) \<and>
     aggregate_validate w_crypto (cs_utxos st') (cs_kernels st') (cs_current_height st')
       (total_registry_fees_burned (cs_blocks st'))"
proof -
  have "validate_block w_crypto w_env w_start w_first_block \<noteq> None"
    by (simp add: w_first_block_def w_start_def w_block_eval)
  then obtain st' d where acc: "apply_linear_block w_crypto w_env w_first_block w_start = Ret (st', Some d)"
    by (rule w_apply)
  then have run: "apply_all w_crypto w_env [w_first_block] w_start = Ret (Some (st', [d]))" by simp
  have "honest_start w_crypto w_start"
    by (simp add: honest_start_def w_start_def chain_new_def ledger_sum_def sum_points_def kernel_ok_def
        total_registry_fees_burned_def keys_empty) (simp add: w_crypto_def zero_wpoint_def)
  moreover have "block_reward_at 1 \<noteq> 0" using w_reward_1 by (simp add: block_reward_def)
  then have "honest_run w_crypto w_env [w_first_block] w_start"
    using acc by (simp add: honest_block_def w_first_block_def w_block_def w_start_def chain_new_def w_tx_def
        fresh_outputs_def all_outputs_def fee_payments_def keys_empty)
  moreover have "sum_list (map burned_fees [w_first_block]) = 0"
    by (simp add: burned_fees_def w_first_block_def w_block_def fee_kernels_def)
  ultimately show ?thesis
    using aggregate_validate_honest [OF w_module_laws _ run] run by force
qed


section \<open>A stored body is not protected\<close>

text \<open>A block with the header of \<open>w_good_block\<close> and a body of the sender's own: it spends an output that never
  existed and balances.\<close>

definition w_forged_block :: "(wpoint, u64) block" where
  "w_forged_block = w_good_block\<lparr>b_body := w_tx [(1000000000, 1)] [(1000000540, 3)] (- 2) 0, b_name_ops := []\<rparr>"

lemma w_forged_stored:
  assumes "cs_current_height st = 1"
  shows "apply_block w_crypto w_env w_forged_block st = Some (Ret (store_block w_crypto w_forged_block st, Rejected))"
proof -
  have "block_validate w_crypto w_forged_block"
    by (simp add: block_validate_def w_forged_block_def w_good_block_def w_block_eval)
  moreover have "bh_height (b_header w_forged_block) = 1"
    by (simp add: w_forged_block_def w_good_block_def w_block_def w_state_def chain_new_def)
  ultimately show ?thesis
    using assms by (simp add: apply_block_def Let_def is_linear_def store_block_def)
qed

text \<open>After a block has been applied, a second block with the same header and another body is rejected but
  still replaces the first one in the store, because the hash does not cover the body. The next
  rollback then undoes the wrong body: it credits an output that never existed, keeps an output of
  the block that is undone, and does not give its input back.\<close>

theorem stored_body_replaced:
  "\<exists>st1 d st2 st3 rd. apply_block w_crypto w_env w_good_block w_state = Some (Ret (st1, Linear d)) \<and>
     apply_block w_crypto w_env w_forged_block st1 = Some (Ret (st2, Rejected)) \<and>
     rollback_block w_crypto st2 = Some (st3, rd) \<and>
     w_com 1000000000 1 \<in> cs_utxos st3 \<and> w_com 640 5 \<in> cs_utxos st3 \<and> w_com 100 7 \<notin> cs_utxos st3"
proof -
  let ?st = "store_block w_crypto w_good_block w_state"
  obtain st1 d where good: "apply_block w_crypto w_env w_good_block w_state = Some (Ret (st1, Linear d))"
    by (rule w_good_applies)
  then have "apply_linear_block w_crypto w_env w_good_block ?st = Ret (st1, Some d)"
    by (cases rule: apply_block_cases) auto
  then obtain cd where st1: "st1 = applied_state w_crypto w_good_block cd ?st"
    by (rule apply_linear_block_Some)
  have hash: "header_hash w_crypto (b_header w_forged_block) = header_hash w_crypto (b_header w_good_block)"
    by (simp add: w_forged_block_def)
  have height: "cs_current_height st1 = 1" and tip: "cs_last_block_hash st1 = header_hash w_crypto (b_header w_good_block)"
    by (simp_all add: st1 applied_state_def Let_def w_good_block_def w_block_def w_state_def chain_new_def)
  let ?st2 = "store_block w_crypto w_forged_block st1"
  have look: "Mapping.lookup (cs_blocks ?st2) (cs_last_block_hash ?st2) = Some w_forged_block"
    "cs_current_height ?st2 = 1"
    by (simp_all add: store_block_def hash tip height map_simps)
  obtain st3 rd where rb: "rollback_block w_crypto ?st2 = Some (st3, rd)"
    using rollback_block_exists [OF _ look(1)] look(2) by force
  then have "cs_utxos st3 = un_utxos (undo_tx (b_body w_forged_block)
      \<lparr>un_utxos = cs_utxos st1, un_kernels = cs_kernels st1, un_kernel_excesses = cs_kernel_excesses st1,
       un_consumed_outputs = [], un_restored_inputs = [], un_removed_excesses = []\<rparr>)"
    by (rule rollback_block_Some)
      (use look in \<open>simp add: fee_payments_def w_forged_block_def w_good_block_def w_block_def store_block_def\<close>)
  moreover have "cs_utxos st1 = {w_com 1000000 42, w_com 50 9, w_com 640 5, w_com 15 2}"
    by (auto simp: st1 applied_state_def Let_def store_block_def fee_payments_def body_utxos_def spend_tx_def
        w_good_block_def w_block_def w_tx_def w_name_op_def w_state_def chain_new_def)
  ultimately have "cs_utxos st3 = {w_com 1000000 42, w_com 50 9, w_com 640 5, w_com 15 2, w_com 1000000000 1}"
    by (auto simp: undo_tx_state w_forged_block_def w_tx_def)
  with good w_forged_stored [OF height] rb show ?thesis by auto
qed

end
