(* ===== verification/Compaction.thy ===== *)
theory Compaction
  imports Chain_History
begin

text \<open>
  Horizon pruning of \<open>core/src/compaction.rs\<close>: \<open>compact\<close> drops from the stored blocks every output that
  was spent long enough ago together with the input that spent it, and the rollback snapshots below
  the horizon. The source iterates over hash maps; the iteration order of the block store is the
  argument \<open>order\<close>, and the theorems hold for every order. The lemmas show what pruning leaves
  alone: the ledger, the headers, the kernels and every rollback that stays within the horizon.
\<close>

section \<open>The pass\<close>

definition CUT_THROUGH_HORIZON :: u64 where "CUT_THROUGH_HORIZON = 1000"

record compaction_report =
  rp_touched_blocks :: "hash32 list"
  rp_outputs_pruned :: nat
  rp_inputs_pruned :: nat
  rp_validator_snapshots_pruned :: nat
  rp_transfer_snapshots_pruned :: nat

definition retain_from :: "u64 \<Rightarrow> (u64, 'a) mapping \<Rightarrow> (u64, 'a) mapping" where
  "retain_from horizon_height snapshots = Mapping.filter (\<lambda>h _. horizon_height \<le> h) snapshots"

text \<open>The pairs \<open>chain.blocks.iter()\<close> yields.\<close>

definition stored_entries :: "('p, 's) block_store \<Rightarrow> hash32 list \<Rightarrow> (hash32 \<times> ('p, 's) block) list" where
  "stored_entries blocks order =
     concat (map (\<lambda>h. case Mapping.lookup blocks h of None \<Rightarrow> [] | Some b \<Rightarrow> [(h, b)]) order)"

definition spends_of :: "('p, 's) block \<Rightarrow> 'p tx_input list" where
  "spends_of b = tx_inputs (b_body b) @ concat (map (tx_inputs \<circ> rn_fee_payment) (b_name_ops b))"

definition creates_of :: "('p, 's) block \<Rightarrow> 'p tx_output list" where
  "creates_of b = tx_outputs (b_body b) @ concat (map (tx_outputs \<circ> rn_fee_payment) (b_name_ops b))"

type_synonym 'p spend_index = "('p commitment, hash32 \<times> u64) mapping"

definition spent_in :: "(hash32 \<times> ('p, 's) block) list \<Rightarrow> 'p spend_index" where
  "spent_in entries =
     fold (\<lambda>(hash, b). fold (\<lambda>i. Mapping.update (in_commitment i) (hash, bh_height (b_header b))) (spends_of b))
       entries Mapping.empty"

record 'p prune_plan =
  pp_outputs :: "(hash32, 'p commitment set) mapping"
  pp_inputs :: "(hash32, 'p commitment set) mapping"

text \<open>\<open>entry(h).or_default().insert(c)\<close>\<close>

definition marked :: "(hash32, 'p commitment set) mapping \<Rightarrow> hash32 \<Rightarrow> 'p commitment set" where
  "marked m h = (case Mapping.lookup m h of None \<Rightarrow> {} | Some cs \<Rightarrow> cs)"

definition mark :: "hash32 \<Rightarrow> 'p commitment \<Rightarrow> (hash32, 'p commitment set) mapping \<Rightarrow>
    (hash32, 'p commitment set) mapping" where
  "mark h c m = Mapping.update h (insert c (marked m h)) m"

definition consider_output ::
    "('p, 's) chain_state \<Rightarrow> u64 \<Rightarrow> 'p spend_index \<Rightarrow> hash32 \<Rightarrow> 'p commitment \<Rightarrow> 'p prune_plan \<Rightarrow> 'p prune_plan" where
  "consider_output st horizon spends hash c plan =
     (if c \<in> cs_utxos st then plan
      else case Mapping.lookup spends c of
        None \<Rightarrow> plan
      | Some (spend_hash, spend_height) \<Rightarrow>
          if cs_current_height st < spend_height + horizon then plan
          else plan\<lparr>pp_outputs := mark hash c (pp_outputs plan),
                    pp_inputs := mark spend_hash c (pp_inputs plan)\<rparr>)"

definition plan_block ::
    "('p, 's) chain_state \<Rightarrow> u64 \<Rightarrow> u64 \<Rightarrow> 'p spend_index \<Rightarrow> hash32 \<times> ('p, 's) block \<Rightarrow> 'p prune_plan \<Rightarrow>
       'p prune_plan" where
  "plan_block st horizon horizon_height spends = (\<lambda>(hash, b) plan.
     if horizon_height \<le> bh_height (b_header b) then plan
     else fold (\<lambda>out. consider_output st horizon spends hash (out_commitment out)) (creates_of b) plan)"

definition prune_plan_of :: "('p, 's) chain_state \<Rightarrow> u64 \<Rightarrow> hash32 list \<Rightarrow> 'p prune_plan" where
  "prune_plan_of st horizon order =
     (let entries = stored_entries (cs_blocks st) order
      in fold (plan_block st horizon (saturating_sub (cs_current_height st) horizon) (spent_in entries)) entries
        \<lparr>pp_outputs = Mapping.empty, pp_inputs = Mapping.empty\<rparr>)"

definition drop_outputs :: "'p commitment set \<Rightarrow> ('p, 's) transaction \<Rightarrow> ('p, 's) transaction" where
  "drop_outputs cs tx = tx\<lparr>tx_outputs := filter (\<lambda>out. out_commitment out \<notin> cs) (tx_outputs tx)\<rparr>"

definition drop_inputs :: "'p commitment set \<Rightarrow> ('p, 's) transaction \<Rightarrow> ('p, 's) transaction" where
  "drop_inputs cs tx = tx\<lparr>tx_inputs := filter (\<lambda>i. in_commitment i \<notin> cs) (tx_inputs tx)\<rparr>"

definition map_payments ::
    "(('p, 's) transaction \<Rightarrow> ('p, 's) transaction) \<Rightarrow> ('p, 's) block \<Rightarrow> ('p, 's) block" where
  "map_payments f b = b\<lparr>b_body := f (b_body b),
     b_name_ops := map (\<lambda>op. op\<lparr>rn_fee_payment := f (rn_fee_payment op)\<rparr>) (b_name_ops b)\<rparr>"

definition prune_block :: "'p prune_plan \<Rightarrow> hash32 \<Rightarrow> ('p, 's) block \<Rightarrow> ('p, 's) block" where
  "prune_block plan hash b =
     map_payments (drop_inputs (marked (pp_inputs plan) hash))
       (map_payments (drop_outputs (marked (pp_outputs plan) hash)) b)"

definition prune_meta_of ::
    "('p, 's) block \<Rightarrow> ('p, 's) block \<Rightarrow> block_prune_meta option \<Rightarrow> block_prune_meta" where
  "prune_meta_of b b' old =
     (let meta = (case old of None \<Rightarrow> \<lparr>pm_pruned_inputs = 0, pm_pruned_outputs = 0\<rparr> | Some m \<Rightarrow> m)
      in \<lparr>pm_pruned_inputs = pm_pruned_inputs meta + of_nat (length (spends_of b) - length (spends_of b')),
           pm_pruned_outputs = pm_pruned_outputs meta + of_nat (length (creates_of b) - length (creates_of b'))\<rparr>)"

definition prune_stored ::
    "'p prune_plan \<Rightarrow> hash32 \<Rightarrow> ('p, 's) block_store \<times> (hash32, block_prune_meta) mapping \<Rightarrow>
       ('p, 's) block_store \<times> (hash32, block_prune_meta) mapping" where
  "prune_stored plan hash = (\<lambda>(blocks, metas).
     case Mapping.lookup blocks hash of
       None \<Rightarrow> (blocks, metas)
     | Some b \<Rightarrow>
         let b' = prune_block plan hash b
         in (Mapping.update hash b' blocks,
             Mapping.update hash (prune_meta_of b b' (Mapping.lookup metas hash)) metas))"

text \<open>The touched blocks, in the order of the block store.\<close>

definition touched_hashes :: "'p prune_plan \<Rightarrow> hash32 list \<Rightarrow> hash32 list" where
  "touched_hashes plan order =
     filter (\<lambda>h. h \<in> Mapping.keys (pp_outputs plan) \<union> Mapping.keys (pp_inputs plan)) order"

definition compact ::
    "u64 \<Rightarrow> hash32 list \<Rightarrow> ('p, 's) chain_state \<Rightarrow> compaction_report \<times> ('p, 's) chain_state" where
  "compact horizon order st =
     (let horizon_height = saturating_sub (cs_current_height st) horizon;
          validator_snapshots = retain_from horizon_height (cs_validator_snapshots st);
          transfer_snapshots = retain_from horizon_height (cs_transfer_snapshots st);
          plan = prune_plan_of st horizon order;
          touched = touched_hashes plan order;
          (blocks, metas) = fold (prune_stored plan) touched (cs_blocks st, cs_prune_meta st)
      in (\<lparr>rp_touched_blocks = touched,
            rp_outputs_pruned = sum_list (map (\<lambda>h. card (marked (pp_outputs plan) h)) touched),
            rp_inputs_pruned = sum_list (map (\<lambda>h. card (marked (pp_inputs plan) h)) touched),
            rp_validator_snapshots_pruned = Mapping.size (cs_validator_snapshots st) - Mapping.size validator_snapshots,
            rp_transfer_snapshots_pruned = Mapping.size (cs_transfer_snapshots st) - Mapping.size transfer_snapshots\<rparr>,
          st\<lparr>cs_blocks := blocks, cs_prune_meta := metas, cs_validator_snapshots := validator_snapshots,
             cs_transfer_snapshots := transfer_snapshots\<rparr>))"

text \<open>One pass of \<open>Compactor::run_periodic\<close>; the state is the height of the last run. The difference wraps
  when a reorganisation has lowered the height.\<close>

definition compactor_pass ::
    "hash32 list \<Rightarrow> u64 \<times> ('p, 's) chain_state \<Rightarrow> u64 \<times> ('p, 's) chain_state" where
  "compactor_pass order = (\<lambda>(last_run, st).
     if cs_current_height st < CUT_THROUGH_HORIZON \<or> cs_current_height st - last_run < CUT_THROUGH_HORIZON div 10
     then (last_run, st)
     else (cs_current_height st, snd (compact CUT_THROUGH_HORIZON order st)))"

text \<open>An iteration yields every stored block once.\<close>

definition iterates :: "hash32 list \<Rightarrow> ('p, 's) block_store \<Rightarrow> bool" where
  "iterates order blocks \<longleftrightarrow> distinct order \<and> set order = Mapping.keys blocks"


section \<open>What is planned\<close>

lemma spent_in_entry:
  assumes "Mapping.lookup (spent_in entries) c = Some (h, n)"
  shows "\<exists>b. (h, b) \<in> set entries \<and> n = bh_height (b_header b) \<and> c \<in> in_commitment ` set (spends_of b)"
proof -
  have inner: "Mapping.lookup (fold (\<lambda>i. Mapping.update (in_commitment i) x) is m) c =
      (if c \<in> in_commitment ` set is then Some x else Mapping.lookup m c)"
    for x and "is" :: "'a tx_input list" and m :: "'a spend_index"
    by (induction "is" arbitrary: m) (auto simp: map_simps)
  have "Mapping.lookup (fold (\<lambda>(hash, b). fold (\<lambda>i. Mapping.update (in_commitment i) (hash, bh_height (b_header b)))
      (spends_of b)) entries m) c = Some (h, n) \<Longrightarrow>
    (\<exists>b. (h, b) \<in> set entries \<and> n = bh_height (b_header b) \<and> c \<in> in_commitment ` set (spends_of b)) \<or>
      Mapping.lookup m c = Some (h, n)" for m
  proof (induction entries arbitrary: m)
    case (Cons e entries)
    show ?case
    proof (cases e)
      case (Pair hash b)
      from Cons.IH [OF Cons.prems [unfolded Pair fold_simps split_conv]] show ?thesis
        unfolding inner by (fastforce simp: Pair split: if_splits)
    qed
  qed simp
  from this [of Mapping.empty] assms show ?thesis by (simp add: spent_in_def map_simps)
qed

lemma marked_mark [simp]: "marked (mark h c m) k = (if h = k then insert c (marked m k) else marked m k)"
  by (simp add: marked_def mark_def map_simps)

text \<open>What a plan may hold: outputs that are spent, with their spending block, deep enough.\<close>

definition plan_sound ::
    "('p, 's) chain_state \<Rightarrow> u64 \<Rightarrow> (hash32 \<times> ('p, 's) block) list \<Rightarrow> 'p prune_plan \<Rightarrow> bool" where
  "plan_sound st horizon entries plan \<longleftrightarrow>
     (\<forall>h c. c \<in> marked (pp_outputs plan) h \<longrightarrow> c \<notin> cs_utxos st \<and>
        (\<exists>b. (h, b) \<in> set entries \<and> bh_height (b_header b) < saturating_sub (cs_current_height st) horizon)) \<and>
     (\<forall>h c. c \<in> marked (pp_inputs plan) h \<longrightarrow> c \<notin> cs_utxos st \<and>
        (\<exists>b. (h, b) \<in> set entries \<and> bh_height (b_header b) + horizon \<le> cs_current_height st))"

lemma consider_output_sound:
  assumes "plan_sound st horizon entries plan" and "(hash, b) \<in> set entries"
    and "bh_height (b_header b) < saturating_sub (cs_current_height st) horizon"
  shows "plan_sound st horizon entries (consider_output st horizon (spent_in entries) hash c plan)"
proof (cases "c \<in> cs_utxos st \<or> Mapping.lookup (spent_in entries) c = None")
  case False
  then obtain h n where look: "Mapping.lookup (spent_in entries) c = Some (h, n)" by auto
  from spent_in_entry [OF this] obtain b' where "(h, b') \<in> set entries" "n = bh_height (b_header b')" by blast
  with look False assms show ?thesis
    by (auto simp: consider_output_def plan_sound_def not_less)
qed (use assms(1) in \<open>auto simp: consider_output_def split: option.splits\<close>)

lemma prune_plan_sound: "plan_sound st horizon (stored_entries (cs_blocks st) order) (prune_plan_of st horizon order)"
proof -
  let ?entries = "stored_entries (cs_blocks st) order"
  let ?step = "plan_block st horizon (saturating_sub (cs_current_height st) horizon) (spent_in ?entries)"
  have "plan_sound st horizon ?entries (fold ?step es plan)"
    if "set es \<subseteq> set ?entries" "plan_sound st horizon ?entries plan" for es plan
    using that
  proof (induction es arbitrary: plan)
    case (Cons e es)
    obtain hash b where e: "e = (hash, b)" by fastforce
    have "plan_sound st horizon ?entries (fold (\<lambda>out. consider_output st horizon (spent_in ?entries) hash (out_commitment out)) os plan)"
      if "bh_height (b_header b) < saturating_sub (cs_current_height st) horizon"
        "plan_sound st horizon ?entries plan" for os plan
      using that(2) Cons.prems(1) consider_output_sound [OF _ _ that(1)] by (induction os arbitrary: plan) (auto simp: e)
    from this [of plan "creates_of b"] Cons.prems have "plan_sound st horizon ?entries (?step e plan)"
      by (auto simp: plan_block_def e not_le)
    with Cons show ?case by simp
  qed simp
  note fold_sound = this
  have "plan_sound st horizon ?entries \<lparr>pp_outputs = Mapping.empty, pp_inputs = Mapping.empty\<rparr>"
    by (simp add: plan_sound_def marked_def map_simps)
  from fold_sound [OF order_refl this] show ?thesis by (simp add: prune_plan_of_def Let_def)
qed

lemma stored_entries_mem: "(h, b) \<in> set (stored_entries blocks order) \<Longrightarrow> Mapping.lookup blocks h = Some b"
  by (auto simp: stored_entries_def split: option.splits)



section \<open>What is pruned\<close>

lemma prune_block_simps [simp]:
  "b_header (prune_block plan h b) = b_header b"
  "tx_kernels (b_body (prune_block plan h b)) = tx_kernels (b_body b)"
  "b_mint_ops (prune_block plan h b) = b_mint_ops b"
  "fee_kernels (prune_block plan h b) = fee_kernels b"
  by (simp_all add: prune_block_def map_payments_def drop_inputs_def drop_outputs_def fee_kernels_def comp_def)

lemma prune_block_unmarked:
  assumes "marked (pp_outputs plan) h = {}" and "marked (pp_inputs plan) h = {}"
  shows "prune_block plan h b = b"
  using assms by (simp add: prune_block_def map_payments_def drop_inputs_def drop_outputs_def)

lemma prune_stored_lookup:
  "distinct hs \<Longrightarrow> Mapping.lookup (fst (fold (prune_stored plan) hs (blocks, metas))) h =
     (if h \<in> set hs then map_option (prune_block plan h) (Mapping.lookup blocks h) else Mapping.lookup blocks h)"
proof (induction hs arbitrary: blocks metas)
  case (Cons k hs)
  show ?case
  proof (cases "Mapping.lookup blocks k")
    case None
    with Cons show ?thesis by (auto simp: prune_stored_def)
  next
    case (Some b)
    with Cons show ?thesis by (auto simp: prune_stored_def Let_def map_simps)
  qed
qed simp

lemma touched_unmarked:
  assumes "h \<notin> set (touched_hashes plan order)" and "h \<in> set order"
  shows "marked (pp_outputs plan) h = {}" and "marked (pp_inputs plan) h = {}"
  using assms by (auto simp: touched_hashes_def marked_def keys_dom_lookup domIff split: option.splits)

lemma compact_blocks:
  assumes "iterates order (cs_blocks st)"
  shows "Mapping.lookup (cs_blocks (snd (compact horizon order st))) h =
      map_option (prune_block (prune_plan_of st horizon order) h) (Mapping.lookup (cs_blocks st) h)"
proof -
  let ?plan = "prune_plan_of st horizon order"
  have dist: "distinct (touched_hashes ?plan order)" using assms by (simp add: iterates_def touched_hashes_def)
  have "map_option (prune_block ?plan h) (Mapping.lookup (cs_blocks st) h) = Mapping.lookup (cs_blocks st) h"
    if "h \<notin> set (touched_hashes ?plan order)"
  proof (cases "Mapping.lookup (cs_blocks st) h")
    case (Some b)
    then have "h \<in> set order" using assms by (auto simp: iterates_def keys_dom_lookup)
    from touched_unmarked [OF that this] Some show ?thesis by (simp add: prune_block_unmarked)
  qed simp
  then show ?thesis
    by (simp add: compact_def Let_def split_beta prune_stored_lookup [OF dist])
qed

text \<open>Everything of the state that is not history.\<close>

definition ledger_part :: "('p, 's) chain_state \<Rightarrow> ('p, 's) chain_state" where
  "ledger_part st = st\<lparr>cs_blocks := Mapping.empty, cs_validator_snapshots := Mapping.empty,
     cs_transfer_snapshots := Mapping.empty, cs_prune_meta := Mapping.empty\<rparr>"

lemma ledger_part_cong: "ledger_part s = ledger_part t \<Longrightarrow> (\<And>st. f (ledger_part st) = f st) \<Longrightarrow> f s = f t"
  by metis

lemma ledger_partD:
  assumes "ledger_part s = ledger_part t"
  shows "cs_utxos s = cs_utxos t" "cs_kernels s = cs_kernels t" "cs_kernel_excesses s = cs_kernel_excesses t"
    "cs_current_height s = cs_current_height t" "cs_last_block_hash s = cs_last_block_hash t"
    "cs_active_validators s = cs_active_validators t" "cs_name_registry s = cs_name_registry t"
    "cs_asset_registry s = cs_asset_registry t" "cs_asset_transfer_snapshots s = cs_asset_transfer_snapshots t"
    "cs_collection_registry s = cs_collection_registry t"
    "cs_collection_mint_counts s = cs_collection_mint_counts t"
  by (rule ledger_part_cong [OF assms], simp add: ledger_part_def)+

lemma compact_ledger: "ledger_part (snd (compact horizon order st)) = ledger_part st"
  by (simp add: compact_def Let_def split_beta ledger_part_def)

text \<open>A block that is not older than the horizon keeps its whole body.\<close>

lemma compact_recent:
  assumes "iterates order (cs_blocks st)" and "Mapping.lookup (cs_blocks st) h = Some b"
    and "unat (bh_height (b_header b)) + unat horizon < 2 ^ 64"
    and "unat (cs_current_height st) < unat (bh_height (b_header b)) + unat horizon"
  shows "Mapping.lookup (cs_blocks (snd (compact horizon order st))) h = Some b"
proof -
  let ?plan = "prune_plan_of st horizon order" and ?entries = "stored_entries (cs_blocks st) order"
  note sound = prune_plan_sound [of st horizon order, unfolded plan_sound_def]
  have same: "b' = b" if "(h, b') \<in> set ?entries" for b'
    using stored_entries_mem [OF that] assms(2) by simp
  have "unat (bh_height (b_header b) + horizon) = unat (bh_height (b_header b)) + unat horizon"
    using assms(3) by (simp add: unat_word_ariths)
  then have deep: "\<not> bh_height (b_header b) + horizon \<le> cs_current_height st"
    using assms(4) by (simp add: word_le_nat_alt)
  have "\<not> bh_height (b_header b) < saturating_sub (cs_current_height st) horizon"
    using assms(4) by (auto simp: saturating_sub_def word_less_nat_alt unat_sub_if' split: if_splits)
  with deep have "marked (pp_outputs ?plan) h = {}" "marked (pp_inputs ?plan) h = {}"
    using sound same by blast+
  then show ?thesis by (simp add: compact_blocks [OF assms(1)] assms(2) prune_block_unmarked)
qed

lemma compact_snapshots:
  assumes "unat (cs_current_height st) \<le> unat k + unat horizon"
  shows "Mapping.lookup (cs_validator_snapshots (snd (compact horizon order st))) k =
      Mapping.lookup (cs_validator_snapshots st) k"
    and "Mapping.lookup (cs_transfer_snapshots (snd (compact horizon order st))) k =
      Mapping.lookup (cs_transfer_snapshots st) k"
proof -
  have "saturating_sub (cs_current_height st) horizon \<le> k"
    using assms by (auto simp: saturating_sub_def word_le_nat_alt word_less_nat_alt unat_sub_if' split: if_splits)
  then show "Mapping.lookup (cs_validator_snapshots (snd (compact horizon order st))) k =
      Mapping.lookup (cs_validator_snapshots st) k"
    "Mapping.lookup (cs_transfer_snapshots (snd (compact horizon order st))) k =
      Mapping.lookup (cs_transfer_snapshots st) k"
    by (auto simp: compact_def Let_def split_beta retain_from_def lookup_filter split: option.splits)
qed



section \<open>Pruning never loses what the node needs\<close>

lemma creates_of_prune:
  "set (creates_of (prune_block plan h b)) = {out \<in> set (creates_of b). out_commitment out \<notin> marked (pp_outputs plan) h}"
  by (auto simp: creates_of_def prune_block_def map_payments_def drop_inputs_def drop_outputs_def)

lemma compact_keys:
  "iterates order (cs_blocks st) \<Longrightarrow> Mapping.keys (cs_blocks (snd (compact horizon order st))) = Mapping.keys (cs_blocks st)"
  by (auto simp: keys_dom_lookup dom_def compact_blocks)

lemma compact_burned_fees:
  assumes "iterates order (cs_blocks st)"
  shows "total_registry_fees_burned (cs_blocks (snd (compact horizon order st))) =
      total_registry_fees_burned (cs_blocks st)"
  unfolding total_registry_fees_burned_def compact_keys [OF assms]
  by (rule sum.cong) (auto simp: compact_blocks [OF assms] split: option.splits)

text \<open>C19. Pruning touches history only: unspent outputs, kernels, registries, validators, height and tip stay, no
  block disappears, every stored block keeps its header (hence its hash) and its kernels, no
  unspent output leaves the block that created it, and the aggregate check a syncing node runs
  gives the same verdict as before.\<close>

theorem compact_preserves_ledger:
  assumes "iterates order (cs_blocks st)" and "compact horizon order st = (report, st')"
  shows "ledger_part st' = ledger_part st \<and> Mapping.keys (cs_blocks st') = Mapping.keys (cs_blocks st) \<and>
      (\<forall>h b. Mapping.lookup (cs_blocks st) h = Some b \<longrightarrow>
        (\<exists>b'. Mapping.lookup (cs_blocks st') h = Some b' \<and> b_header b' = b_header b \<and>
          new_kernels b' = new_kernels b \<and>
          (\<forall>out \<in> set (creates_of b). out_commitment out \<in> cs_utxos st \<longrightarrow> out \<in> set (creates_of b')))) \<and>
      aggregate_validate cr (cs_utxos st') (cs_kernels st') (cs_current_height st')
          (total_registry_fees_burned (cs_blocks st')) =
        aggregate_validate cr (cs_utxos st) (cs_kernels st) (cs_current_height st)
          (total_registry_fees_burned (cs_blocks st))"
proof -
  let ?plan = "prune_plan_of st horizon order"
  have st': "st' = snd (compact horizon order st)" using assms(2) by simp
  have ledger: "ledger_part st' = ledger_part st" by (simp add: st' compact_ledger)
  have unspent: "c \<notin> marked (pp_outputs ?plan) h" if "c \<in> cs_utxos st" for c h
    using prune_plan_sound [of st horizon order] that unfolding plan_sound_def by blast
  have "\<exists>b'. Mapping.lookup (cs_blocks st') h = Some b' \<and> b_header b' = b_header b \<and> new_kernels b' = new_kernels b \<and>
      (\<forall>out \<in> set (creates_of b). out_commitment out \<in> cs_utxos st \<longrightarrow> out \<in> set (creates_of b'))"
    if "Mapping.lookup (cs_blocks st) h = Some b" for h b
    by (intro exI [of _ "prune_block ?plan h b"])
      (simp add: st' compact_blocks [OF assms(1)] that new_kernels_def creates_of_prune unspent)
  with ledger ledger_partD(1,2,4) [OF ledger] show ?thesis
    by (simp add: st' compact_keys [OF assms(1)] compact_burned_fees [OF assms(1)])
qed


text \<open>A state and its pruned copy agree on what rollbacks down to height \<open>n\<close> read.\<close>

definition same_above :: "nat \<Rightarrow> ('p, 's) chain_state \<Rightarrow> ('p, 's) chain_state \<Rightarrow> bool" where
  "same_above n s t \<longleftrightarrow> ledger_part s = ledger_part t \<and>
     (\<forall>h b. Mapping.lookup (cs_blocks s) h = Some b \<longrightarrow> n < unat (bh_height (b_header b)) \<longrightarrow>
        bh_height (b_header b) \<le> cs_current_height s \<longrightarrow> Mapping.lookup (cs_blocks t) h = Some b) \<and>
     (\<forall>k. n \<le> unat k \<longrightarrow>
        Mapping.lookup (cs_validator_snapshots t) k = Mapping.lookup (cs_validator_snapshots s) k \<and>
        Mapping.lookup (cs_transfer_snapshots t) k = Mapping.lookup (cs_transfer_snapshots s) k)"

lemma restore_snapshot_same:
  assumes "Mapping.lookup snaps' h = Mapping.lookup snaps h"
  shows "snd (restore_snapshot h (snaps', reg)) = snd (restore_snapshot h (snaps, reg))"
    and "Mapping.lookup snaps' k = Mapping.lookup snaps k \<Longrightarrow>
      Mapping.lookup (fst (restore_snapshot h (snaps', reg))) k = Mapping.lookup (fst (restore_snapshot h (snaps, reg))) k"
  using assms by (auto simp: restore_snapshot_def map_simps split: option.splits)

lemma linked_tip:
  assumes "chain_linked st" and "cs_current_height st \<noteq> 0"
  obtains tip where "Mapping.lookup (cs_blocks st) (cs_last_block_hash st) = Some tip"
    "bh_height (b_header tip) = cs_current_height st"
proof -
  from assms(2) obtain n where n: "unat (cs_current_height st) = Suc n" by (metis not0_implies_Suc unat_eq_zero)
  then have "of_nat (Suc n) = cs_current_height st" by (metis of_nat_unat ucast_id)
  with assms(1) n that show thesis
    unfolding chain_linked_def n by (auto split: option.splits simp del: of_nat_Suc)
qed

lemma rollback_same:
  assumes "same_above n s t" and "chain_linked s" and "n < unat (cs_current_height s)"
    and "rollback_block cr s = Some (s', d)"
  shows "\<exists>t'. rollback_block cr t = Some (t', d) \<and> same_above n s' t'"
proof -
  note f = ledger_partD [OF assms(1) [unfolded same_above_def, THEN conjunct1]]
  from assms(3) have h0: "cs_current_height s \<noteq> 0" by auto
  obtain tip where tip: "Mapping.lookup (cs_blocks s) (cs_last_block_hash s) = Some tip"
      "bh_height (b_header tip) = cs_current_height s"
    by (rule linked_tip [OF assms(2) h0])
  with assms(1,3) have tip': "Mapping.lookup (cs_blocks t) (cs_last_block_hash t) = Some tip"
    unfolding same_above_def f(5) [symmetric] by (metis order_refl)
  have prev: "unat (cs_current_height s - 1) = unat (cs_current_height s) - 1" using h0 by (simp add: unat_minus_one)
  have snaps: "Mapping.lookup (cs_validator_snapshots t) k = Mapping.lookup (cs_validator_snapshots s) k"
      "Mapping.lookup (cs_transfer_snapshots t) k = Mapping.lookup (cs_transfer_snapshots s) k" if "n \<le> unat k" for k
    using assms(1) that unfolding same_above_def by blast+
  have at: "Mapping.lookup (cs_validator_snapshots t) (cs_current_height s - 1) =
      Mapping.lookup (cs_validator_snapshots s) (cs_current_height s - 1)"
      "Mapping.lookup (cs_transfer_snapshots t) (cs_current_height s) =
      Mapping.lookup (cs_transfer_snapshots s) (cs_current_height s)"
    using snaps assms(3) prev by simp_all
  obtain t' d' where t': "rollback_block cr t = Some (t', d')"
    using rollback_block_exists [of t tip cr] tip' h0 f(4) by auto
  have blocks: "cs_blocks s' = cs_blocks s" "cs_blocks t' = cs_blocks t" "cs_current_height s' = cs_current_height s - 1"
    using rollback_block_Some [OF assms(4)] rollback_block_Some [OF t'] by metis+
  have "d' = d \<and> ledger_part s' = ledger_part t' \<and> (\<forall>k. n \<le> unat k \<longrightarrow>
      Mapping.lookup (cs_validator_snapshots t') k = Mapping.lookup (cs_validator_snapshots s') k \<and>
      Mapping.lookup (cs_transfer_snapshots t') k = Mapping.lookup (cs_transfer_snapshots s') k)"
    using assms(4) t' tip(1) tip' h0 at(1) restore_snapshot_same [OF at(2)] snaps assms(1)
    by (auto simp: rollback_block_def Let_def split_beta f [symmetric] ledger_part_def map_simps same_above_def)
  moreover have "Mapping.lookup (cs_blocks t') h = Some b"
    if "Mapping.lookup (cs_blocks s') h = Some b" "n < unat (bh_height (b_header b))"
      "bh_height (b_header b) \<le> cs_current_height s'" for h b
  proof -
    have "bh_height (b_header b) \<le> cs_current_height s"
      using that(3) prev blocks(3) by (simp add: word_le_nat_alt)
    with that assms(1) show ?thesis unfolding same_above_def blocks by blast
  qed
  ultimately show ?thesis using t' unfolding same_above_def by blast
qed


lemma rollback_all_same:
  "rollback_all cr hashes s = Some (s', ds) \<Longrightarrow> same_above n s t \<Longrightarrow> chain_linked s \<Longrightarrow>
     n + length hashes \<le> unat (cs_current_height s) \<Longrightarrow>
     \<exists>t'. rollback_all cr hashes t = Some (t', ds) \<and> same_above n s' t'"
proof (induction hashes arbitrary: s t ds)
  case (Cons h hashes)
  then obtain s1 d ds' where step: "rollback_block cr s = Some (s1, d)"
      and rest: "rollback_all cr hashes s1 = Some (s', ds')" and ds: "ds = d # ds'"
    by (auto simp: bind_eq_Some_conv)
  from Cons.prems(4) have n: "n < unat (cs_current_height s)" by simp
  from rollback_same [OF Cons.prems(2,3) n step] obtain t1 where
      t1: "rollback_block cr t = Some (t1, d)" "same_above n s1 t1" by blast
  have "cs_current_height s1 = cs_current_height s - 1" "cs_current_height s \<noteq> 0"
    using rollback_block_Some [OF step] by metis+
  then have "unat (cs_current_height s1) = unat (cs_current_height s) - 1" by (simp add: unat_minus_one)
  then have "n + length hashes \<le> unat (cs_current_height s1)" using Cons.prems(4) by simp
  from Cons.IH [OF rest t1(2) rollback_linked [OF Cons.prems(3) step] this] t1(1) ds show ?case by auto
qed simp

lemma rollback_all_depth: "rollback_all cr hashes s = Some (s', ds) \<Longrightarrow> length hashes \<le> unat (cs_current_height s)"
proof (induction hashes arbitrary: s ds)
  case (Cons h hashes)
  then obtain s1 d ds' where step: "rollback_block cr s = Some (s1, d)"
      and rest: "rollback_all cr hashes s1 = Some (s', ds')"
    by (auto simp: bind_eq_Some_conv)
  have "cs_current_height s1 = cs_current_height s - 1" "cs_current_height s \<noteq> 0"
    using rollback_block_Some [OF step] by metis+
  moreover from this(2) have "0 < unat (cs_current_height s)" by (simp add: unat_gt_0)
  ultimately show ?case using Cons.IH [OF rest] by (simp add: unat_minus_one)
qed simp

lemma compact_same_above:
  assumes "iterates order (cs_blocks st)" and "unat (cs_current_height st) + unat horizon < 2 ^ 64"
  shows "same_above (unat (cs_current_height st) - unat horizon) st (snd (compact horizon order st))"
proof -
  have "Mapping.lookup (cs_blocks (snd (compact horizon order st))) h = Some b"
    if "Mapping.lookup (cs_blocks st) h = Some b"
      "unat (cs_current_height st) - unat horizon < unat (bh_height (b_header b))"
      "bh_height (b_header b) \<le> cs_current_height st" for h b
    using that assms(2) by (intro compact_recent [OF assms(1) that(1)]) (auto simp: word_le_nat_alt)
  moreover have "unat (cs_current_height st) \<le> unat k + unat horizon"
    if "unat (cs_current_height st) - unat horizon \<le> unat k" for k :: u64
    using that by simp
  ultimately show ?thesis
    unfolding same_above_def using compact_ledger compact_snapshots by metis
qed

text \<open>Pruning never gets in the way of a reorganisation within its horizon: rolling back up to \<open>horizon\<close> blocks
  after a pass gives the same ledger and the same deltas as rolling them back without it.\<close>

theorem compact_keeps_rollbacks:
  assumes "iterates order (cs_blocks st)" and "chain_linked st"
    and "unat (cs_current_height st) + unat horizon < 2 ^ 64" and "length hashes \<le> unat horizon"
    and "rollback_all cr hashes st = Some (s, ds)"
  shows "\<exists>t. rollback_all cr hashes (snd (compact horizon order st)) = Some (t, ds) \<and> ledger_part s = ledger_part t"
proof -
  have "unat (cs_current_height st) - unat horizon + length hashes \<le> unat (cs_current_height st)"
    using assms(4) rollback_all_depth [OF assms(5)] by arith
  from rollback_all_same [OF assms(5) compact_same_above [OF assms(1,3)] assms(2) this]
  show ?thesis unfolding same_above_def by blast
qed


section \<open>An example\<close>

text \<open>An output created at height 1, spent at height 2, on a chain of height 5.\<close>

abbreviation w_key :: "byte \<Rightarrow> hash32" where
  "w_key n \<equiv> replicate 32 n"

definition w_old_block :: "(wpoint, u64) block" where
  "w_old_block = w_block chain_new (w_tx [] [(540, 3)] (- 3) 0) [] []"

definition w_spending_block :: "(wpoint, u64) block" where
  "w_spending_block = w_block (chain_new\<lparr>cs_current_height := 1, cs_last_block_hash := w_key 1\<rparr>)
     (w_tx [(540, 3)] [(540, 4)] (- 1) 0) [] []"

definition w_history :: "(wpoint, u64) chain_state" where
  "w_history = chain_new\<lparr>cs_current_height := 5, cs_utxos := {w_com 540 4},
     cs_blocks := Mapping.update (w_key 1) w_old_block (Mapping.update (w_key 2) w_spending_block Mapping.empty)\<rparr>"

lemma w_key_inject [simp]: "w_key m = w_key n \<longleftrightarrow> m = n"
  by (simp add: replicate_eq_replicate)

lemma w_history_iterates: "iterates [w_key 1, w_key 2] (cs_blocks w_history)"
  by (auto simp: iterates_def w_history_def)

lemma w_history_pruned:
  "map_option (tx_outputs \<circ> b_body)
     (Mapping.lookup (cs_blocks (snd (compact 2 [w_key 1, w_key 2] w_history))) (w_key 1)) = Some []"
proof -
  have entries: "stored_entries (cs_blocks w_history) [w_key 1, w_key 2] =
      [(w_key 1, w_old_block), (w_key 2, w_spending_block)]"
    by (simp add: stored_entries_def w_history_def map_simps)
  have shape: "creates_of w_old_block = [\<lparr>out_commitment = w_com 540 3, out_proof = RangeProof [], out_note = []\<rparr>]"
      "spends_of w_old_block = []" "bh_height (b_header w_old_block) = 1"
      "spends_of w_spending_block = [\<lparr>in_commitment = w_com 540 3\<rparr>]" "bh_height (b_header w_spending_block) = 2"
      "creates_of w_spending_block = [\<lparr>out_commitment = w_com 540 4, out_proof = RangeProof [], out_note = []\<rparr>]"
    by (simp_all add: creates_of_def spends_of_def w_old_block_def w_spending_block_def w_block_def w_tx_def chain_new_def)
  have "w_com 540 3 \<in> marked (pp_outputs (prune_plan_of w_history 2 [w_key 1, w_key 2])) (w_key 1)"
    unfolding prune_plan_of_def Let_def entries
    by (simp add: spent_in_def plan_block_def consider_output_def shape w_history_def chain_new_def saturating_sub_def map_simps
        word_le_nat_alt)
  then show ?thesis
    unfolding compact_blocks [OF w_history_iterates]
    by (simp add: w_history_def map_simps prune_block_def map_payments_def drop_outputs_def drop_inputs_def
        w_old_block_def w_block_def w_tx_def)
qed


theorem compact_preserves_ledger_witness:
  "ledger_part (snd (compact 2 [w_key 1, w_key 2] w_history)) = ledger_part w_history \<and>
   map_option (tx_outputs \<circ> b_body)
     (Mapping.lookup (cs_blocks (snd (compact 2 [w_key 1, w_key 2] w_history))) (w_key 1)) = Some []"
  using compact_preserves_ledger [OF w_history_iterates, of 2 "fst (compact 2 [w_key 1, w_key 2] w_history)"
      "snd (compact 2 [w_key 1, w_key 2] w_history)"] w_history_pruned by simp

definition w_short :: "(wpoint, u64) chain_state" where
  "w_short = chain_new\<lparr>cs_current_height := 1, cs_last_block_hash := w_key 1, cs_utxos := {w_com 540 3},
     cs_blocks := Mapping.update (w_key 1) w_old_block Mapping.empty\<rparr>"

theorem compact_keeps_rollbacks_witness:
  "\<exists>t ds. rollback_all w_crypto [w_key 1] (snd (compact 1000 [w_key 1] w_short)) = Some (t, ds) \<and> cs_utxos t = {}"
proof -
  have tip: "Mapping.lookup (cs_blocks w_short) (cs_last_block_hash w_short) = Some w_old_block"
    by (simp add: w_short_def map_simps)
  have head: "bh_height (b_header w_old_block) = 1" "bh_prev_hash (b_header w_old_block) = zero_hash"
      "b_body w_old_block = w_tx [] [(540, 3)] (- 3) 0" "fee_payments w_old_block = []"
    by (simp_all add: w_old_block_def w_block_def chain_new_def fee_payments_def)
  have key: "w_key 1 \<noteq> zero_hash" by simp
  have "linked (cs_blocks w_short) (Suc 0) (w_key 1)"
    using key by (simp add: w_short_def map_simps head)
  then have linked: "chain_linked w_short" by (simp add: chain_linked_def w_short_def)
  have iter: "iterates [w_key 1] (cs_blocks w_short)" by (simp add: iterates_def w_short_def)
  have "cs_current_height w_short \<noteq> 0" by (simp add: w_short_def)
  from rollback_block_exists [OF this tip] obtain s d where s: "rollback_block w_crypto w_short = Some (s, d)" by blast
  then have "cs_utxos s = {}"
    using tip by (auto elim!: rollback_block_Some simp: undo_tx_state head w_tx_def w_short_def)
  moreover have "rollback_all w_crypto [w_key 1] w_short = Some (s, [d])" using s by simp
  from compact_keeps_rollbacks [OF iter linked _ _ this, of 1000] obtain t where
      "rollback_all w_crypto [w_key 1] (snd (compact 1000 [w_key 1] w_short)) = Some (t, [d])"
      "ledger_part s = ledger_part t"
    by (auto simp: w_short_def)
  ultimately show ?thesis using ledger_partD(1) by metis
qed

end
