(* ===== verification/Storage.thy ===== *)
theory Storage
  imports Compaction "HOL-Library.List_Lexorder"
begin

text \<open>
  Persistence (\<open>core/src/storage.rs\<close>). The database is six trees of byte strings, iterated in key order;
  bincode is the parameter \<open>disk_codec\<close>. The deltas of \<open>apply_block\<close> are written tree by tree, and
  \<open>load_state\<close> reads the trees back and replays the blocks of the active chain to rebuild the
  registries. The main result is that a node that restarts after any run of accepted blocks has the
  ledger it had before.
\<close>

section \<open>Trees\<close>

type_synonym tree = "(byte list, byte list) mapping"

definition tree_iter :: "tree \<Rightarrow> (byte list \<times> byte list) list" where
  "tree_iter t = map (\<lambda>k. (k, Mapping.lookup_default [] t k)) (Mapping.ordered_keys t)"

text \<open>A batch is applied in order: a later entry for a key replaces an earlier one.\<close>

definition apply_batch :: "(byte list \<times> byte list option) list \<Rightarrow> tree \<Rightarrow> tree" where
  "apply_batch batch t = fold (\<lambda>(k, v) t. case v of None \<Rightarrow> Mapping.delete k t | Some v \<Rightarrow> Mapping.update k v t) batch t"

record storage =
  sg_blocks :: tree
  sg_utxos :: tree
  sg_kernels :: tree
  sg_validator_snapshots :: tree
  sg_prune_meta :: tree
  sg_meta :: tree

text \<open>Opening a fresh path.\<close>

definition open_at :: storage where
  "open_at = \<lparr>sg_blocks = Mapping.empty, sg_utxos = Mapping.empty, sg_kernels = Mapping.empty,
     sg_validator_snapshots = Mapping.empty, sg_prune_meta = Mapping.empty, sg_meta = Mapping.empty\<rparr>"

datatype storage_error = Sled | Serialize

record ('p, 's) disk_codec =
  ser_block :: "('p, 's) block \<Rightarrow> byte list option"
  de_block :: "byte list \<Rightarrow> ('p, 's) block option"
  ser_output :: "'p tx_output \<Rightarrow> byte list option"
  ser_kernel :: "('p, 's) tx_kernel \<Rightarrow> byte list option"
  de_kernel :: "byte list \<Rightarrow> ('p, 's) tx_kernel option"
  ser_validators :: "('p, 's) validator list \<Rightarrow> byte list option"
  de_validators :: "byte list \<Rightarrow> ('p, 's) validator list option"
  ser_prune_meta :: "block_prune_meta \<Rightarrow> byte list option"
  de_prune_meta :: "byte list \<Rightarrow> block_prune_meta option"

text \<open>Bincode reads back what it writes.\<close>

definition disk_laws :: "('p, 's) disk_codec \<Rightarrow> bool" where
  "disk_laws dc \<longleftrightarrow>
     (\<forall>b v. ser_block dc b = Some v \<longrightarrow> de_block dc v = Some b) \<and>
     (\<forall>k v. ser_kernel dc k = Some v \<longrightarrow> de_kernel dc v = Some k) \<and>
     (\<forall>vs v. ser_validators dc vs = Some v \<longrightarrow> de_validators dc v = Some vs)"

definition META_HEIGHT_KEY :: "byte list" where "META_HEIGHT_KEY = bytes_of ''height''"

definition META_TIP_KEY :: "byte list" where "META_TIP_KEY = bytes_of ''tip''"

definition commitment_key :: "('p, 's) crypto \<Rightarrow> 'p commitment \<Rightarrow> byte list" where
  "commitment_key cr c = compress cr (as_point c)"

definition u64_be :: "u64 \<Rightarrow> byte list" where "u64_be w = rev (u64_le w)"

definition from_be_bytes :: "byte list \<Rightarrow> u64" where "from_be_bytes bs = from_le_bytes (rev bs)"


section \<open>Writing\<close>

text \<open>The entries of a batch of insertions; one value that cannot be serialised fails the whole batch.\<close>

definition insertions :: "('a \<Rightarrow> byte list) \<Rightarrow> ('a \<Rightarrow> byte list option) \<Rightarrow> 'a list \<Rightarrow> (byte list \<times> byte list option) list option" where
  "insertions key ser xs = those (map (\<lambda>x. map_option (\<lambda>v. (key x, Some v)) (ser x)) xs)"

definition removals :: "('p, 's) crypto \<Rightarrow> 'p commitment list \<Rightarrow> (byte list \<times> byte list option) list" where
  "removals cr cs = map (\<lambda>c. (commitment_key cr c, None)) cs"

definition write_tip :: "u64 \<Rightarrow> hash32 \<Rightarrow> tree \<Rightarrow> tree" where
  "write_tip height tip t = Mapping.update META_TIP_KEY tip (Mapping.update META_HEIGHT_KEY (u64_be height) t)"

definition persist_applied ::
    "('p, 's) crypto \<Rightarrow> ('p, 's) disk_codec \<Rightarrow> ('p, 's) applied_delta \<Rightarrow> storage \<Rightarrow> storage \<times> storage_error option" where
  "persist_applied cr dc delta sg =
     (case ser_block dc (ad_block delta) of None \<Rightarrow> (sg, Some Serialize) | Some block \<Rightarrow>
      let sg = sg\<lparr>sg_blocks := Mapping.update (ad_tip_hash delta) block (sg_blocks sg)\<rparr> in
      case insertions (commitment_key cr \<circ> out_commitment) (ser_output dc) (ad_new_outputs delta) of
        None \<Rightarrow> (sg, Some Serialize) | Some outputs \<Rightarrow>
      let sg = sg\<lparr>sg_utxos := apply_batch (removals cr (ad_spent_commitments delta) @ outputs) (sg_utxos sg)\<rparr> in
      case insertions (commitment_key cr \<circ> excess) (ser_kernel dc) (ad_new_kernels delta) of
        None \<Rightarrow> (sg, Some Serialize) | Some kernels \<Rightarrow>
      let sg = sg\<lparr>sg_kernels := apply_batch kernels (sg_kernels sg)\<rparr>;
          (snap_height, snap_validators) = ad_validator_snapshot delta in
      case ser_validators dc snap_validators of None \<Rightarrow> (sg, Some Serialize) | Some vs \<Rightarrow>
      (sg\<lparr>sg_validator_snapshots := Mapping.update (u64_be snap_height) vs (sg_validator_snapshots sg),
          sg_meta := write_tip (ad_height delta) (ad_tip_hash delta) (sg_meta sg)\<rparr>, None))"

text \<open>Restored inputs get an empty value: only membership is read back.\<close>

definition persist_rollback :: "('p, 's) crypto \<Rightarrow> ('p, 's) rollback_delta \<Rightarrow> storage \<Rightarrow> storage" where
  "persist_rollback cr delta sg =
     sg\<lparr>sg_utxos := apply_batch (removals cr (rd_un_consumed_outputs delta) @
          map (\<lambda>c. (commitment_key cr c, Some [])) (rd_restored_inputs delta)) (sg_utxos sg),
        sg_kernels := apply_batch (removals cr (rd_removed_kernel_excesses delta)) (sg_kernels sg),
        sg_meta := write_tip (rd_new_height delta) (rd_new_tip delta) (sg_meta sg)\<rparr>"

text \<open>Rewriting one pruned block and its metadata.\<close>

definition persist_pruned ::
    "('p, 's) disk_codec \<Rightarrow> ('p, 's) chain_state \<Rightarrow> hash32 \<Rightarrow> storage \<Rightarrow> storage \<times> storage_error option" where
  "persist_pruned dc st h sg =
     (let written = (case Mapping.lookup (cs_blocks st) h of None \<Rightarrow> Some sg
        | Some b \<Rightarrow> map_option (\<lambda>v. sg\<lparr>sg_blocks := Mapping.update h v (sg_blocks sg)\<rparr>) (ser_block dc b)) in
      case written of None \<Rightarrow> (sg, Some Serialize) | Some sg \<Rightarrow>
      case Mapping.lookup (cs_prune_meta st) h of None \<Rightarrow> (sg, None)
      | Some m \<Rightarrow> (case ser_prune_meta dc m of None \<Rightarrow> (sg, Some Serialize)
          | Some v \<Rightarrow> (sg\<lparr>sg_prune_meta := Mapping.update h v (sg_prune_meta sg)\<rparr>, None)))"

fun persist_touched ::
    "('p, 's) disk_codec \<Rightarrow> ('p, 's) chain_state \<Rightarrow> hash32 list \<Rightarrow> storage \<Rightarrow> storage \<times> storage_error option" where
  "persist_touched dc st [] sg = (sg, None)"
| "persist_touched dc st (h # hs) sg =
     (case persist_pruned dc st h sg of (sg, Some e) \<Rightarrow> (sg, Some e) | (sg, None) \<Rightarrow> persist_touched dc st hs sg)"

definition persist_compaction ::
    "('p, 's) disk_codec \<Rightarrow> ('p, 's) chain_state \<Rightarrow> hash32 list \<Rightarrow> storage \<Rightarrow> storage \<times> storage_error option" where
  "persist_compaction dc st touched_blocks sg =
     (case persist_touched dc st touched_blocks sg of (sg, Some e) \<Rightarrow> (sg, Some e) | (sg, None) \<Rightarrow>
      let horizon_height = saturating_sub (cs_current_height st) CUT_THROUGH_HORIZON;
          old = filter (\<lambda>k. k < u64_be horizon_height) (Mapping.ordered_keys (sg_validator_snapshots sg))
      in (sg\<lparr>sg_validator_snapshots := apply_batch (map (\<lambda>k. (k, None)) old) (sg_validator_snapshots sg)\<rparr>, None))"

text \<open>What the receive loop and the proposer do with an \<open>ApplyResult\<close>: failures are logged and ignored.\<close>

definition persist_apply_result ::
    "('p, 's) crypto \<Rightarrow> ('p, 's) disk_codec \<Rightarrow> ('p, 's) apply_result \<Rightarrow> storage \<Rightarrow> storage" where
  "persist_apply_result cr dc result sg =
     (case result of
        Linear delta \<Rightarrow> fst (persist_applied cr dc delta sg)
      | Reorg rollbacks applies \<Rightarrow>
          fold (\<lambda>delta sg. fst (persist_applied cr dc delta sg)) applies (fold (persist_rollback cr) rollbacks sg)
      | Rejected \<Rightarrow> sg)"


section \<open>Reading\<close>

definition load_blocks :: "('p, 's) disk_codec \<Rightarrow> tree \<Rightarrow> ('p, 's) block_store" where
  "load_blocks dc t = fold (\<lambda>(k, v) m. case de_block dc v of None \<Rightarrow> m
     | Some b \<Rightarrow> if length k = 32 then Mapping.update k b m else m) (tree_iter t) Mapping.empty"

definition load_utxos :: "('p, 's) crypto \<Rightarrow> tree \<Rightarrow> 'p commitment set" where
  "load_utxos cr t = set (List.map_filter (\<lambda>(k, v). from_compressed_bytes cr k) (tree_iter t))"

definition load_kernels :: "('p, 's) disk_codec \<Rightarrow> tree \<Rightarrow> ('p, 's) tx_kernel list" where
  "load_kernels dc t = List.map_filter (\<lambda>(k, v). de_kernel dc v) (tree_iter t)"

definition load_snapshots :: "('p, 's) disk_codec \<Rightarrow> tree \<Rightarrow> (u64, ('p, 's) validator list) mapping" where
  "load_snapshots dc t = fold (\<lambda>(k, v) m. if length k = 8
     then case de_validators dc v of None \<Rightarrow> m | Some vs \<Rightarrow> Mapping.update (from_be_bytes k) vs m
     else m) (tree_iter t) Mapping.empty"

definition load_prune_meta :: "('p, 's) disk_codec \<Rightarrow> tree \<Rightarrow> (hash32, block_prune_meta) mapping" where
  "load_prune_meta dc t = fold (\<lambda>(k, v) m. if length k = 32
     then case de_prune_meta dc v of None \<Rightarrow> m | Some x \<Rightarrow> Mapping.update k x m
     else m) (tree_iter t) Mapping.empty"

definition load_height :: "tree \<Rightarrow> u64" where
  "load_height t = (case Mapping.lookup t META_HEIGHT_KEY of None \<Rightarrow> 0
     | Some bytes \<Rightarrow> if length bytes = 8 then from_be_bytes bytes else 0)"

definition load_tip :: "tree \<Rightarrow> hash32" where
  "load_tip t = (case Mapping.lookup t META_TIP_KEY of None \<Rightarrow> zero_hash
     | Some bytes \<Rightarrow> if length bytes = 32 then bytes else zero_hash)"

text \<open>The walk back from the tip, newest block first; it may not end on a store with a cycle of links.\<close>

partial_function (option) active_blocks ::
    "('p, 's) block_store \<Rightarrow> hash32 \<Rightarrow> ('p, 's) block list \<Rightarrow> ('p, 's) block list option" where
  "active_blocks blocks cursor acc =
     (if cursor = zero_hash then Some acc
      else case Mapping.lookup blocks cursor of
        None \<Rightarrow> Some acc
      | Some b \<Rightarrow>
          if bh_height (b_header b) = 0 then Some (acc @ [b])
          else active_blocks blocks (bh_prev_hash (b_header b)) (acc @ [b]))"

declare active_blocks.simps [code]

text \<open>Replaying the operations of one block.\<close>

definition replay_transfer ::
    "('op \<Rightarrow> string) \<Rightarrow> ('op \<Rightarrow> 'r \<Rightarrow> 'r) \<Rightarrow> 'op \<Rightarrow> (string, 'r) mapping \<Rightarrow> (string, 'r) mapping" where
  "replay_transfer key f op m =
     (case Mapping.lookup m (key op) of None \<Rightarrow> m | Some existing \<Rightarrow> Mapping.update (key op) (f op existing) m)"

definition replay_names :: "('p, 's) block \<Rightarrow> (string, 'p name_record) mapping \<Rightarrow> (string, 'p name_record) mapping" where
  "replay_names b m = fold (replay_transfer tn_name transferred_name) (b_transfer_ops b)
     (fold (\<lambda>op. Mapping.update (rn_name op) (registered_name (bh_height (b_header b)) op)) (b_name_ops b) m)"

definition replay_assets :: "('p, 's) block \<Rightarrow> (string, 'p asset_record) mapping \<Rightarrow> (string, 'p asset_record) mapping" where
  "replay_assets b m = fold (replay_transfer ta_asset_id transferred_asset) (b_transfer_asset_ops b)
     (fold (\<lambda>op. Mapping.update (ma_asset_id op) (minted_asset (bh_height (b_header b)) op)) (b_mint_ops b) m)"

definition replay_collections ::
    "('p, 's) block \<Rightarrow> (string, 'p collection_record) mapping \<Rightarrow> (string, 'p collection_record) mapping" where
  "replay_collections b m =
     fold (\<lambda>op. Mapping.update (lc_collection_id op) (launched_collection (bh_height (b_header b)) op))
       (b_launch_collection_ops b) m"

definition replay_count :: "('p, 's) crypto \<Rightarrow> ('p, 's) mint_asset_op \<Rightarrow> (mint_key, u32) mapping \<Rightarrow> (mint_key, u32) mapping" where
  "replay_count cr op m =
     (case (ma_collection_id op, ma_phase_index op) of
        (Some collection_id, Some phase_index) \<Rightarrow>
          let k = mint_count_key cr collection_id phase_index op
          in Mapping.update k (Mapping.lookup_default 0 m k + 1) m
      | _ \<Rightarrow> m)"

definition replay_validators ::
    "('p::ab_group_add, 's::comm_ring_1) crypto \<Rightarrow> 'p commitment set \<Rightarrow> ('p, 's) block \<Rightarrow> ('p, 's) validator list \<Rightarrow>
       ('p, 's) validator list" where
  "replay_validators cr utxos b vs =
     (let vs = fold (\<lambda>op vs. case try_register_validator cr vs utxos (rv_commitment op) (rv_value op) (rv_proof op) of
            None \<Rightarrow> vs | Some vs \<Rightarrow> vs) (b_validator_ops b) vs
      in if 0 < bh_height (b_header b)
         then fold (\<lambda>i. filter (\<lambda>v. v_commitment v \<noteq> in_commitment i)) (tx_inputs (b_body b)) vs
         else vs)"

definition replay_block ::
    "('p::ab_group_add, 's::comm_ring_1) crypto \<Rightarrow> ('p, 's) block \<Rightarrow> ('p, 's) chain_state \<Rightarrow> ('p, 's) chain_state" where
  "replay_block cr b st =
     st\<lparr>cs_name_registry := replay_names b (cs_name_registry st),
        cs_asset_registry := replay_assets b (cs_asset_registry st),
        cs_collection_registry := replay_collections b (cs_collection_registry st),
        cs_collection_mint_counts := fold (replay_count cr) (b_mint_ops b) (cs_collection_mint_counts st),
        cs_active_validators := replay_validators cr (cs_utxos st) b (cs_active_validators st)\<rparr>"

definition load_state ::
    "('p::ab_group_add, 's::comm_ring_1) crypto \<Rightarrow> ('p, 's) disk_codec \<Rightarrow> storage \<Rightarrow> ('p, 's) chain_state option" where
  "load_state cr dc sg =
     (let kernels = load_kernels dc (sg_kernels sg);
          state = chain_new\<lparr>cs_blocks := load_blocks dc (sg_blocks sg), cs_utxos := load_utxos cr (sg_utxos sg),
            cs_kernel_excesses := set (map excess kernels), cs_kernels := kernels,
            cs_validator_snapshots := load_snapshots dc (sg_validator_snapshots sg),
            cs_prune_meta := load_prune_meta dc (sg_prune_meta sg),
            cs_current_height := load_height (sg_meta sg), cs_last_block_hash := load_tip (sg_meta sg)\<rparr>
      in map_option (\<lambda>blocks. fold (replay_block cr) (rev blocks) state)
           (active_blocks (cs_blocks state) (cs_last_block_hash state) []))"


section \<open>Trees as finite maps\<close>

lemma set_tree_iter:
  assumes "finite (Mapping.keys t)"
  shows "(k, v) \<in> set (tree_iter t) \<longleftrightarrow> Mapping.lookup t k = Some v"
  using assms by (auto simp: tree_iter_def Mapping.lookup_default_def keys_dom_lookup)

lemma distinct_tree_iter: "distinct (map fst (tree_iter t))"
  by (simp add: tree_iter_def comp_def)

text \<open>A tree holds the map \<open>m\<close> under the key encoding \<open>key\<close>.\<close>

definition encodes :: "('k \<Rightarrow> byte list) \<Rightarrow> ('v \<Rightarrow> byte list option) \<Rightarrow> tree \<Rightarrow> ('k \<rightharpoonup> 'v) \<Rightarrow> bool" where
  "encodes key ser t m \<longleftrightarrow> finite (Mapping.keys t) \<and> (\<forall>k x. m k = Some x \<longrightarrow> ser x \<noteq> None) \<and>
     (\<forall>kb v. Mapping.lookup t kb = Some v \<longleftrightarrow> (\<exists>k x. kb = key k \<and> m k = Some x \<and> ser x = Some v))"

lemma encodesD:
  "encodes key ser t m \<Longrightarrow> m k = Some x \<Longrightarrow> \<exists>v. ser x = Some v \<and> Mapping.lookup t (key k) = Some v"
  unfolding encodes_def by (metis not_Some_eq)

lemma encodes_empty: "encodes key ser Mapping.empty Map.empty"
  by (simp add: encodes_def lookup_empty)

lemma encodes_update:
  assumes "inj key" and "encodes key ser t m" and "ser x = Some v"
  shows "encodes key ser (Mapping.update (key k) v t) (m(k \<mapsto> x))"
  using assms unfolding encodes_def by (auto simp: lookup_update' dest: injD)

text \<open>Inserting the elements of a list, each under its own key.\<close>

lemma encodes_insertions:
  assumes "inj key" and "insertions (key \<circ> f) ser xs = Some batch"
  shows "encodes key ser t m \<Longrightarrow> encodes key ser (apply_batch batch t) (fold (\<lambda>x m. m(f x \<mapsto> x)) xs m)"
  using assms(2)
proof (induction xs arbitrary: t m batch)
  case (Cons x xs)
  then obtain v rest where v: "ser x = Some v" "insertions (key \<circ> f) ser xs = Some rest"
      "batch = (key (f x), Some v) # rest"
    by (auto simp: insertions_def split: option.splits)
  with Cons.IH [OF encodes_update [OF assms(1) Cons.prems(1) v(1)] v(2)] show ?case
    by (simp add: apply_batch_def)
qed (simp add: insertions_def apply_batch_def)

lemma keys_insertions:
  "insertions key ser xs = Some batch \<Longrightarrow> Mapping.keys (apply_batch batch t) = Mapping.keys t \<union> key ` set xs"
proof (induction xs arbitrary: t batch)
  case (Cons x xs)
  then obtain v rest where v: "insertions key ser xs = Some rest" "batch = (key x, Some v) # rest"
    by (auto simp: insertions_def split: option.splits)
  with Cons.IH [OF v(1)] show ?case by (simp add: apply_batch_def)
qed (simp add: insertions_def apply_batch_def)

lemma keys_removals: "Mapping.keys (apply_batch (removals cr cs) t) = Mapping.keys t - commitment_key cr ` set cs"
  by (induction cs arbitrary: t) (auto simp: apply_batch_def removals_def)

lemma apply_batch_append: "apply_batch (xs @ ys) t = apply_batch ys (apply_batch xs t)"
  by (simp add: apply_batch_def)

text \<open>Decoding a tree entry by entry.\<close>

lemma fold_decoded:
  assumes "\<And>k v j x. (k, v) \<in> set es \<Longrightarrow> g k v = Some (j, x) \<Longrightarrow> F j = Some x"
  shows "Mapping.lookup (fold (\<lambda>(k, v) m. case g k v of None \<Rightarrow> m | Some (j, x) \<Rightarrow> Mapping.update j x m) es m) j =
    (if \<exists>k v x. (k, v) \<in> set es \<and> g k v = Some (j, x) then F j else Mapping.lookup m j)"
  using assms
proof (induction es arbitrary: m)
  case (Cons e es)
  obtain k v where e: "e = (k, v)" by force
  have sound: "F j = Some x" if "g k v = Some (j, x)" for j x using Cons.prems [of k v] that by (simp add: e)
  have ih: "Mapping.lookup (fold (\<lambda>(k, v) m. case g k v of None \<Rightarrow> m | Some (j, x) \<Rightarrow> Mapping.update j x m) es m) j =
      (if \<exists>k v x. (k, v) \<in> set es \<and> g k v = Some (j, x) then F j else Mapping.lookup m j)" for m
    by (rule Cons.IH) (rule Cons.prems [OF list.set_intros(2)])
  show ?case
  proof (cases "\<exists>x. g k v = Some (j, x)")
    case True
    then obtain x where x: "g k v = Some (j, x)" by blast
    then have "\<exists>k' v' x. (k', v') \<in> set (e # es) \<and> g k' v' = Some (j, x)" unfolding e by (meson list.set_intros(1))
    with sound [OF x] x show ?thesis by (simp add: e ih lookup_update')
  next
    case False
    then show ?thesis by (cases "g k v") (auto simp: e ih lookup_update')
  qed
qed simp

lemma lookup_decoded:
  assumes "\<And>k v j x. (k, v) \<in> set es \<Longrightarrow> g k v = Some (j, x) \<Longrightarrow> F j = Some x"
    and "\<And>j x. F j = Some x \<Longrightarrow> \<exists>k v. (k, v) \<in> set es \<and> g k v = Some (j, x)"
  shows "Mapping.lookup (fold (\<lambda>(k, v) m. case g k v of None \<Rightarrow> m | Some (j, x) \<Rightarrow> Mapping.update j x m) es Mapping.empty) = F"
proof
  fix j
  show "Mapping.lookup (fold (\<lambda>(k, v) m. case g k v of None \<Rightarrow> m | Some (j, x) \<Rightarrow> Mapping.update j x m) es Mapping.empty) j = F j"
    using assms(2) [of j] by (cases "F j") (auto simp: fold_decoded [of es g F, OF assms(1)] lookup_empty)
qed

lemma load_blocks_eq:
  assumes "encodes id (ser_block dc) t (Mapping.lookup D)" and "disk_laws dc" and "\<forall>h \<in> Mapping.keys D. length h = 32"
  shows "load_blocks dc t = D"
proof -
  let ?g = "\<lambda>k v. case de_block dc v of None \<Rightarrow> None | Some b \<Rightarrow> if length k = 32 then Some (k, b) else None"
  have eq: "load_blocks dc t =
      fold (\<lambda>(k, v) m. case ?g k v of None \<Rightarrow> m | Some (j, x) \<Rightarrow> Mapping.update j x m) (tree_iter t) Mapping.empty"
    unfolding load_blocks_def by (intro fold_cong refl) (auto split: option.splits)
  have iter: "(k, v) \<in> set (tree_iter t) \<longleftrightarrow> (\<exists>b. Mapping.lookup D k = Some b \<and> ser_block dc b = Some v)" for k v
    using assms(1) by (auto simp: encodes_def set_tree_iter)
  have "Mapping.lookup (load_blocks dc t) = Mapping.lookup D"
    unfolding eq
  proof (rule lookup_decoded)
    fix k v j b
    assume "(k, v) \<in> set (tree_iter t)" and "?g k v = Some (j, b)"
    with assms(2) show "Mapping.lookup D j = Some b"
      by (auto simp: iter disk_laws_def split: option.splits if_splits)
  next
    fix j b
    assume b: "Mapping.lookup D j = Some b"
    then obtain v where v: "ser_block dc b = Some v" using encodesD [OF assms(1)] by blast
    moreover have "length j = 32" using assms(3) b by (auto simp: keys_dom_lookup)
    ultimately show "\<exists>k v. (k, v) \<in> set (tree_iter t) \<and> ?g k v = Some (j, b)"
      using assms(2) b by (intro exI [of _ j] exI [of _ v]) (auto simp: iter disk_laws_def)
  qed
  then show ?thesis by (intro mapping_eqI) simp
qed

lemma length_u64_be [simp]: "length (u64_be w) = 8"
  by (simp add: u64_be_def)

lemma from_be_u64_be [simp]: "from_be_bytes (u64_be w) = w"
  by (simp add: from_be_bytes_def u64_be_def from_le_bytes_le_bytes)

lemma inj_u64_be: "inj u64_be"
  by (metis from_be_u64_be injI)

lemma load_snapshots_eq:
  assumes "encodes u64_be (ser_validators dc) t (Mapping.lookup snaps)" and "disk_laws dc"
  shows "load_snapshots dc t = snaps"
proof -
  let ?g = "\<lambda>k v. if length k = 8 then map_option (\<lambda>vs. (from_be_bytes k, vs)) (de_validators dc v) else None"
  have eq: "load_snapshots dc t =
      fold (\<lambda>(k, v) m. case ?g k v of None \<Rightarrow> m | Some (j, x) \<Rightarrow> Mapping.update j x m) (tree_iter t) Mapping.empty"
    unfolding load_snapshots_def by (intro fold_cong refl) (auto split: option.splits)
  have iter: "(k, v) \<in> set (tree_iter t) \<longleftrightarrow>
      (\<exists>h vs. k = u64_be h \<and> Mapping.lookup snaps h = Some vs \<and> ser_validators dc vs = Some v)" for k v
    using assms(1) by (auto simp: encodes_def set_tree_iter)
  have "Mapping.lookup (load_snapshots dc t) = Mapping.lookup snaps"
    unfolding eq
  proof (rule lookup_decoded)
    fix k v j vs
    assume "(k, v) \<in> set (tree_iter t)" and "?g k v = Some (j, vs)"
    with assms(2) show "Mapping.lookup snaps j = Some vs" by (auto simp: iter disk_laws_def)
  next
    fix j vs
    assume vs: "Mapping.lookup snaps j = Some vs"
    then obtain v where "ser_validators dc vs = Some v" using encodesD [OF assms(1)] by blast
    with assms(2) vs show "\<exists>k v. (k, v) \<in> set (tree_iter t) \<and> ?g k v = Some (j, vs)"
      by (intro exI [of _ "u64_be j"] exI [of _ v]) (auto simp: iter disk_laws_def)
  qed
  then show ?thesis by (intro mapping_eqI) simp
qed

lemma commitment_key_eq: "commitment_key cr c = commitment_bytes cr c"
  by (simp add: commitment_key_def commitment_bytes_def)

lemma inj_commitment_key: "compress_laws cr \<Longrightarrow> inj (commitment_key cr)"
  by (rule injI) (metis commitment_key_eq from_compressed_bytes_roundtrip option.inject)

lemma load_utxos_eq:
  assumes "compress_laws cr" and "finite (Mapping.keys t)" and "Mapping.keys t = commitment_key cr ` U"
  shows "load_utxos cr t = U"
proof -
  have "c \<in> load_utxos cr t \<longleftrightarrow> (\<exists>k \<in> Mapping.keys t. from_compressed_bytes cr k = Some c)" for c
    using assms(2) by (auto simp: load_utxos_def tree_iter_def map_filter_def image_iff; metis option.sel)
  then show ?thesis
    using from_compressed_bytes_roundtrip [OF assms(1)] by (auto simp: assms(3) commitment_key_eq)
qed

lemma load_kernels_eq:
  assumes "compress_laws cr" and "disk_laws dc" and "distinct (map excess ks)"
    and "encodes (commitment_key cr) (ser_kernel dc) t (map_of (map (\<lambda>k. (excess k, k)) ks))"
  shows "mset (load_kernels dc t) = mset ks"
proof -
  have iter: "(kb, v) \<in> set (tree_iter t) \<longleftrightarrow> (\<exists>k \<in> set ks. kb = commitment_key cr (excess k) \<and> ser_kernel dc k = Some v)" for kb v
    using assms(3,4) by (auto simp: encodes_def set_tree_iter map_of_eq_Some_iff comp_def)
  have de: "de_kernel dc v \<noteq> None \<and> commitment_key cr (excess (the (de_kernel dc v))) = kb"
      "the (de_kernel dc v) \<in> set ks" if "(kb, v) \<in> set (tree_iter t)" for kb v
    using that assms(2) by (auto simp: iter disk_laws_def)
  have loaded: "load_kernels dc t = map (\<lambda>(kb, v). the (de_kernel dc v)) (tree_iter t)"
  proof -
    have "filter (\<lambda>x. (\<lambda>(kb, v). de_kernel dc v) x \<noteq> None) (tree_iter t) = tree_iter t"
      using de(1) by (auto simp: filter_id_conv)
    then show ?thesis by (simp add: load_kernels_def List.map_filter_def comp_def split_beta)
  qed
  have "map (commitment_key cr \<circ> excess) (load_kernels dc t) = map fst (tree_iter t)"
    unfolding loaded using de(1) by auto
  then have "distinct (map (commitment_key cr \<circ> excess) (load_kernels dc t))" by (simp add: distinct_tree_iter)
  then have "distinct (load_kernels dc t)" by (simp add: distinct_map)
  moreover have "distinct ks" using assms(3) by (simp add: distinct_map)
  moreover have "set (load_kernels dc t) = set ks"
  proof
    show "set (load_kernels dc t) \<subseteq> set ks" unfolding loaded using de(2) by auto
    show "set ks \<subseteq> set (load_kernels dc t)"
    proof
      fix k assume k: "k \<in> set ks"
      then obtain v where v: "ser_kernel dc k = Some v"
        using encodesD [OF assms(4), of "excess k" k] assms(3) by (auto simp: map_of_eq_Some_iff comp_def)
      with k have "(commitment_key cr (excess k), v) \<in> set (tree_iter t)" by (auto simp: iter)
      moreover have "the (de_kernel dc v) = k" using assms(2) v by (simp add: disk_laws_def)
      ultimately show "k \<in> set (load_kernels dc t)" unfolding loaded by force
    qed
  qed
  ultimately show ?thesis by (simp add: set_eq_iff_mset_eq_distinct)
qed


section \<open>Replaying the active chain\<close>

lemma fold_insert_new:
  "fold (\<lambda>op. Mapping.update (key op) (rec_of op)) ops m = insert_all (map (\<lambda>op. (key op, rec_of op)) ops) m"
  by (induction ops arbitrary: m) simp_all

lemma fold_replay_transfer:
  assumes "distinct (map key ops)" and "\<forall>op \<in> set ops. Mapping.lookup m (key op) \<noteq> None"
  shows "fold (replay_transfer key f) ops m = insert_all (map (\<lambda>op. (key op, f op (the (Mapping.lookup m (key op))))) ops) m"
  using assms
proof (induction ops arbitrary: m)
  case (Cons op ops)
  then obtain x where x: "Mapping.lookup m (key op) = Some x" by auto
  let ?m = "Mapping.update (key op) (f op x) m"
  have others: "Mapping.lookup ?m (key o') = Mapping.lookup m (key o')" if "o' \<in> set ops" for o'
    using that Cons.prems(1) by (auto simp: lookup_update')
  have "fold (replay_transfer key f) ops ?m = insert_all (map (\<lambda>op. (key op, f op (the (Mapping.lookup ?m (key op))))) ops) ?m"
    using Cons.prems others by (intro Cons.IH) auto
  moreover have "replay_transfer key f op m = ?m" by (simp add: replay_transfer_def x)
  ultimately show ?case using x others by (simp cong: map_cong)
qed simp

lemma replay_entries:
  assumes "distinct (map fst (map (\<lambda>op. (key op, rec_of op)) news @ map (\<lambda>op. (key' op, f op (the (Mapping.lookup m (key' op))))) olds))"
    and "\<forall>op \<in> set olds. Mapping.lookup m (key' op) \<noteq> None"
  shows "fold (replay_transfer key' f) olds (fold (\<lambda>op. Mapping.update (key op) (rec_of op)) news m) =
    insert_all (map (\<lambda>op. (key op, rec_of op)) news @ map (\<lambda>op. (key' op, f op (the (Mapping.lookup m (key' op))))) olds) m"
proof -
  let ?m = "insert_all (map (\<lambda>op. (key op, rec_of op)) news) m"
  have same: "Mapping.lookup ?m (key' op) = Mapping.lookup m (key' op)" if "op \<in> set olds" for op
  proof (rule lookup_insert_all_other)
    have "key ` set news \<inter> key' ` set olds = {}" using assms(1) by (simp add: comp_def)
    with that show "key' op \<notin> fst ` set (map (\<lambda>op. (key op, rec_of op)) news)" by (auto simp: image_image)
  qed
  have "distinct (map key' olds)" using assms(1) by (simp add: comp_def)
  then have "fold (replay_transfer key' f) olds ?m =
      insert_all (map (\<lambda>op. (key' op, f op (the (Mapping.lookup ?m (key' op))))) olds) ?m"
    using assms(2) same by (intro fold_replay_transfer) auto
  with same show ?thesis by (simp add: fold_insert_new cong: map_cong)
qed

lemma replay_counts_eq: "fold (replay_count cr) ops m = fold bump (drop_keys cr ops) m"
  by (induction ops arbitrary: m)
    (auto simp: replay_count_def drop_keys_def bump_def count_of_def Mapping.lookup_default_def Let_def split: option.splits)

lemma replay_applied:
  assumes "validate_block cr en st b = Some cd"
  shows "replay_names b (cs_name_registry st) = cd_names cd" and "replay_assets b (cs_asset_registry st) = cd_assets cd"
    and "replay_collections b (cs_collection_registry st) = cd_collections cd"
    and "fold (replay_count cr) (b_mint_ops b) (cs_collection_mint_counts st) = cd_counts cd"
proof -
  from assms obtain names assets where n: "validate_names cr en st b = Some names"
    and l: "validate_launches cr en st b = Some (cd_collections cd)"
    and m: "validate_assets cr en st (cd_collections cd) (na_spent names) b = Some assets"
    and cd: "cd_names cd = na_registry names" "cd_assets cd = mc_registry assets" "cd_counts cd = mc_counts assets"
    by (rule validate_block_Some)
  note nf = validate_names_facts [OF n] and lf = validate_launches_facts [OF l] and mf = validate_assets_facts [OF m]
  have "\<forall>op \<in> set (b_transfer_ops b). Mapping.lookup (cs_name_registry st) (tn_name op) \<noteq> None" using nf(5) by auto
  from replay_entries [where f = transferred_name and key' = tn_name, OF nf(1) [unfolded name_entries_def] this]
  show "replay_names b (cs_name_registry st) = cd_names cd"
    by (simp add: cd replay_names_def nf(2) name_entries_def)
  have "\<forall>op \<in> set (b_transfer_asset_ops b). Mapping.lookup (cs_asset_registry st) (ta_asset_id op) \<noteq> None"
    using mf(5) by (auto simp: transfer_asset_ok_def)
  from replay_entries [where f = transferred_asset and key' = ta_asset_id, OF mf(1) [unfolded asset_entries_def] this]
  show "replay_assets b (cs_asset_registry st) = cd_assets cd"
    by (simp add: cd replay_assets_def mf(2) asset_entries_def)
  show "replay_collections b (cs_collection_registry st) = cd_collections cd"
    by (simp add: replay_collections_def fold_insert_new lf(2) collection_entries_def)
  show "fold (replay_count cr) (b_mint_ops b) (cs_collection_mint_counts st) = cd_counts cd"
    by (simp add: replay_counts_eq cd validate_assets_counts(1) [OF m])
qed

lemma fold_replay_block:
  "cs_name_registry (fold (replay_block cr) bs st) = fold replay_names bs (cs_name_registry st)"
  "cs_asset_registry (fold (replay_block cr) bs st) = fold replay_assets bs (cs_asset_registry st)"
  "cs_collection_registry (fold (replay_block cr) bs st) = fold replay_collections bs (cs_collection_registry st)"
  "cs_collection_mint_counts (fold (replay_block cr) bs st) =
     fold (\<lambda>b. fold (replay_count cr) (b_mint_ops b)) bs (cs_collection_mint_counts st)"
  "cs_active_validators (fold (replay_block cr) bs st) =
     fold (replay_validators cr (cs_utxos st)) bs (cs_active_validators st)"
  "cs_utxos (fold (replay_block cr) bs st) = cs_utxos st" "cs_kernels (fold (replay_block cr) bs st) = cs_kernels st"
  "cs_kernel_excesses (fold (replay_block cr) bs st) = cs_kernel_excesses st"
  "cs_current_height (fold (replay_block cr) bs st) = cs_current_height st"
  "cs_last_block_hash (fold (replay_block cr) bs st) = cs_last_block_hash st"
  "cs_blocks (fold (replay_block cr) bs st) = cs_blocks st"
  "cs_validator_snapshots (fold (replay_block cr) bs st) = cs_validator_snapshots st"
  by (induction bs arbitrary: st) (simp_all add: replay_block_def)

lemma active_blocks_chain:
  assumes "Mapping.lookup D zero_hash = None"
  shows "linked D n h \<Longrightarrow> n < 2 ^ 64 \<Longrightarrow> active_blocks D h acc = Some (acc @ rev (active_chain D n h))"
proof (induction n arbitrary: h acc)
  case 0
  then show ?case using assms by (subst active_blocks.simps) (auto split: option.splits)
next
  case (Suc n)
  then obtain b where b: "Mapping.lookup D h = Some b" "bh_height (b_header b) = of_nat (Suc n)"
      "linked D n (bh_prev_hash (b_header b))"
    by (simp split: option.splits)
  have "unat (bh_height (b_header b)) = Suc n" using Suc.prems(2) b(2) unat_of_nat_u64 by metis
  then have "bh_height (b_header b) \<noteq> 0" by auto
  moreover have "h \<noteq> zero_hash" using assms b(1) by auto
  ultimately show ?case using b(1) Suc.IH [OF b(3)] Suc.prems(2) by (subst active_blocks.simps) simp
qed

lemma active_chain_update:
  assumes "Mapping.lookup D k = None" and "k \<noteq> zero_hash"
  shows "linked D n h \<Longrightarrow> active_chain (Mapping.update k b D) n h = active_chain D n h"
proof (induction n arbitrary: h)
  case 0
  then show ?case using assms by (auto simp: lookup_update' split: option.splits)
next
  case (Suc n)
  then show ?case using assms by (auto simp: lookup_update' split: option.splits)
qed


section \<open>A node that writes what it applies\<close>

text \<open>What keeps the trees unambiguous: outputs that are not unspent already, kernels whose excess is new, and no
  wrap-around of the height.\<close>

definition storable :: "('p, 's) chain_state \<Rightarrow> ('p, 's) block \<Rightarrow> bool" where
  "storable st b \<longleftrightarrow> out_commitment ` set (all_outputs b) \<inter> cs_utxos st = {} \<and>
     distinct (map excess (cs_kernels st @ new_kernels b)) \<and>
     (bh_height (b_header b) = 0 \<longrightarrow> cs_last_block_hash st = zero_hash)"

text \<open>The states of a node that started empty and has extended its chain since, with its database.\<close>

inductive journal ::
    "('p::ab_group_add, 's::comm_ring_1) crypto \<Rightarrow> ('p, 's) env \<Rightarrow> ('p, 's) disk_codec \<Rightarrow> ('p, 's) chain_state \<Rightarrow> storage \<Rightarrow> bool"
  for cr en dc where
  fresh: "journal cr en dc chain_new open_at"
| rejected: "journal cr en dc st sg \<Longrightarrow> no_collision cr st b \<Longrightarrow> apply_block cr en b st = Some (Ret (st', Rejected)) \<Longrightarrow>
    journal cr en dc st' sg"
| extended: "journal cr en dc st sg \<Longrightarrow> no_collision cr st b \<Longrightarrow> storable st b \<Longrightarrow>
    apply_block cr en b st = Some (Ret (st', Linear delta)) \<Longrightarrow> persist_applied cr dc delta sg = (sg', None) \<Longrightarrow>
    journal cr en dc st' sg'"

definition kernel_map :: "('p, 's) tx_kernel list \<Rightarrow> 'p commitment \<rightharpoonup> ('p, 's) tx_kernel" where
  "kernel_map ks = map_of (map (\<lambda>k. (excess k, k)) ks)"

lemma kernel_map_append:
  "distinct (map excess (old @ ks)) \<Longrightarrow> fold (\<lambda>k m. m(excess k \<mapsto> k)) ks (kernel_map old) = kernel_map (old @ ks)"
proof (induction ks arbitrary: old)
  case (Cons k ks)
  have "kernel_map old (excess k) = None"
    using Cons.prems by (auto simp: kernel_map_def map_of_eq_None_iff image_image)
  then have "(kernel_map old)(excess k \<mapsto> k) = kernel_map (old @ [k])"
    by (auto simp: kernel_map_def map_add_def fun_eq_iff split: option.splits)
  with Cons.IH [of "old @ [k]"] Cons.prems show ?case by (simp del: fun_upd_apply)
qed simp

text \<open>The trees agree with the state; \<open>D\<close> are the blocks on disk.\<close>

definition disk_ok ::
    "('p, 's) crypto \<Rightarrow> ('p, 's) disk_codec \<Rightarrow> ('p, 's) block_store \<Rightarrow> ('p, 's) chain_state \<Rightarrow> storage \<Rightarrow> bool" where
  "disk_ok cr dc D st sg \<longleftrightarrow>
     finite (Mapping.keys (sg_utxos sg)) \<and> Mapping.keys (sg_utxos sg) = commitment_key cr ` cs_utxos st \<and>
     encodes (commitment_key cr) (ser_kernel dc) (sg_kernels sg) (kernel_map (cs_kernels st)) \<and>
     distinct (map excess (cs_kernels st)) \<and> cs_kernel_excesses st = excess ` set (cs_kernels st) \<and>
     encodes u64_be (ser_validators dc) (sg_validator_snapshots sg) (Mapping.lookup (cs_validator_snapshots st)) \<and>
     encodes id (ser_block dc) (sg_blocks sg) (Mapping.lookup D) \<and>
     load_height (sg_meta sg) = cs_current_height st \<and> load_tip (sg_meta sg) = cs_last_block_hash st"

definition replay_ok :: "('p, 's) crypto \<Rightarrow> ('p, 's) block_store \<Rightarrow> ('p, 's) chain_state \<Rightarrow> bool" where
  "replay_ok cr D st \<longleftrightarrow>
     (\<forall>h b. Mapping.lookup D h = Some b \<longrightarrow> header_hash cr (b_header b) = h \<and> h \<noteq> zero_hash \<and>
        unat (bh_height (b_header b)) \<le> unat (cs_current_height st) \<and>
        (\<exists>b'. Mapping.lookup (cs_blocks st) h = Some b' \<and> b_header b' = b_header b)) \<and>
     (cs_last_block_hash st = zero_hash \<longrightarrow> D = Mapping.empty) \<and>
     linked D (unat (cs_current_height st)) (cs_last_block_hash st) \<and>
     (let bs = active_chain D (unat (cs_current_height st)) (cs_last_block_hash st) in
      cs_name_registry st = fold replay_names bs Mapping.empty \<and>
      cs_asset_registry st = fold replay_assets bs Mapping.empty \<and>
      cs_collection_registry st = fold replay_collections bs Mapping.empty \<and>
      cs_collection_mint_counts st = fold (\<lambda>b. fold (replay_count cr) (b_mint_ops b)) bs Mapping.empty)"

lemma applied_utxos_delta:
  assumes "validate_block cr en st b = Some cd" and "out_commitment ` set (all_outputs b) \<inter> cs_utxos st = {}"
  shows "cs_utxos (applied_state cr b cd st) =
    cs_utxos st - set (ad_spent_commitments (delta_of cr b cd st)) \<union> out_commitment ` set (ad_new_outputs (delta_of cr b cd st))"
proof -
  let ?ins = "in_commitment ` set (concat (map tx_inputs (fee_payments b)))"
  from fee_inputs_claimed [OF assms(1)] have ins: "?ins \<subseteq> cs_utxos st" by (auto simp: claims_def)
  with assms(2) have disj: "out_commitment ` set (concat (map tx_outputs (fee_payments b))) \<inter> ?ins = {}"
      and body: "out_commitment ` set (tx_outputs (b_body b)) \<inter> ?ins = {}"
    unfolding all_outputs_def by (auto simp del: set_concat)
  show ?thesis
    unfolding applied_state_def Let_def delta_of_def using body
    by (simp add: fold_spend_tx [OF disj] body_utxos_def image_Un del: set_concat) blast
qed

lemma META_KEYS_neq [simp]: "META_HEIGHT_KEY \<noteq> META_TIP_KEY" "META_TIP_KEY \<noteq> META_HEIGHT_KEY"
  by (simp_all add: META_HEIGHT_KEY_def META_TIP_KEY_def bytes_of_def)

lemma load_written [simp]:
  "load_height (write_tip height tip t) = height" "length tip = 32 \<Longrightarrow> load_tip (write_tip height tip t) = tip"
  by (simp_all add: load_height_def load_tip_def write_tip_def lookup_update')

lemma persist_applied_ok:
  assumes laws: "compress_laws cr" and len: "length (header_hash cr (b_header b)) = 32"
    and ok: "disk_ok cr dc D st sg" and v: "validate_block cr en st b = Some cd" and b: "storable st b"
    and p: "persist_applied cr dc (delta_of cr b cd st) sg = (sg', None)"
  shows "disk_ok cr dc (Mapping.update (header_hash cr (b_header b)) b D) (applied_state cr b cd st) sg'"
proof -
  let ?d = "delta_of cr b cd st" and ?st = "applied_state cr b cd st"
  from p obtain bb outs ks vs where w: "ser_block dc b = Some bb"
      "insertions (commitment_key cr \<circ> out_commitment) (ser_output dc) (ad_new_outputs ?d) = Some outs"
      "insertions (commitment_key cr \<circ> excess) (ser_kernel dc) (new_kernels b) = Some ks"
      "ser_validators dc (cs_active_validators st) = Some vs"
    and sg': "sg' = sg\<lparr>sg_blocks := Mapping.update (header_hash cr (b_header b)) bb (sg_blocks sg),
      sg_utxos := apply_batch (removals cr (ad_spent_commitments ?d) @ outs) (sg_utxos sg),
      sg_kernels := apply_batch ks (sg_kernels sg),
      sg_validator_snapshots := Mapping.update (u64_be (bh_height (b_header b))) vs (sg_validator_snapshots sg),
      sg_meta := write_tip (bh_height (b_header b)) (header_hash cr (b_header b)) (sg_meta sg)\<rparr>"
    unfolding persist_applied_def by (auto simp: delta_of_def Let_def split: option.splits)
  have new: "distinct (map excess (cs_kernels st @ new_kernels b))" and fresh: "out_commitment ` set (all_outputs b) \<inter> cs_utxos st = {}"
    using b by (simp_all add: storable_def)
  have "Mapping.keys (sg_utxos sg') = commitment_key cr ` cs_utxos ?st"
    using ok inj_commitment_key [OF laws]
    unfolding applied_utxos_delta [OF v fresh] disk_ok_def
    by (simp add: sg' apply_batch_append keys_insertions [OF w(2)] keys_removals image_Un image_set_diff image_image comp_def)
  moreover have "finite (Mapping.keys (sg_utxos sg'))"
    using ok unfolding disk_ok_def sg' by (auto simp: apply_batch_append keys_insertions [OF w(2)] keys_removals)
  moreover have "encodes (commitment_key cr) (ser_kernel dc) (sg_kernels sg') (kernel_map (cs_kernels ?st))"
  proof -
    have "encodes (commitment_key cr) (ser_kernel dc) (sg_kernels sg) (kernel_map (cs_kernels st))"
      using ok by (simp add: disk_ok_def)
    from encodes_insertions [OF inj_commitment_key [OF laws] w(3) this]
    show ?thesis unfolding kernel_map_append [OF new] by (simp add: sg' applied_state_def Let_def)
  qed
  moreover have "encodes u64_be (ser_validators dc) (sg_validator_snapshots sg') (Mapping.lookup (cs_validator_snapshots ?st))"
  proof -
    have "encodes u64_be (ser_validators dc) (sg_validator_snapshots sg) (Mapping.lookup (cs_validator_snapshots st))"
      using ok by (simp add: disk_ok_def)
    from encodes_update [where ser = "ser_validators dc", OF inj_u64_be this w(4)]
    show ?thesis by (simp add: sg' applied_state_def Let_def lookup_update_fun)
  qed
  moreover have "encodes id (ser_block dc) (sg_blocks sg') (Mapping.lookup (Mapping.update (header_hash cr (b_header b)) b D))"
  proof -
    have "encodes id (ser_block dc) (sg_blocks sg) (Mapping.lookup D)" using ok by (simp add: disk_ok_def)
    from encodes_update [where ser = "ser_block dc", OF inj_on_id this w(1)]
    show ?thesis by (simp add: sg' lookup_update_fun)
  qed
  ultimately show ?thesis
    using ok new len by (simp add: disk_ok_def sg' applied_state_def Let_def image_Un)
qed

lemma replay_ok_applied:
  assumes ok: "replay_ok cr D st" and v: "validate_block cr en st b = Some cd" and nc: "no_collision cr st b"
    and s: "stored cr st b" and h0: "bh_height (b_header b) = 0 \<longrightarrow> cs_last_block_hash st = zero_hash"
  shows "replay_ok cr (Mapping.update (header_hash cr (b_header b)) b D) (applied_state cr b cd st)"
proof -
  let ?k = "header_hash cr (b_header b)" and ?n = "unat (cs_current_height st)" and ?st = "applied_state cr b cd st"
  let ?D = "Mapping.update ?k b D"
  have con: "connects st (b_header b)" using v by (rule validate_block_Some)
  have nz: "?k \<noteq> zero_hash" using nc by (simp add: no_collision_def)
  have lin: "linked D ?n (cs_last_block_hash st)" using ok by (simp add: replay_ok_def Let_def)
  have succ: "bh_height (b_header b) = cs_current_height st + 1" "bh_prev_hash (b_header b) = cs_last_block_hash st"
      "unat (bh_height (b_header b)) = Suc ?n" if "bh_height (b_header b) \<noteq> 0"
    using con that unat_next [of "cs_current_height st"] by (auto simp: connects_def split: if_splits)
  have new: "Mapping.lookup D ?k = None"
  proof (rule ccontr)
    assume "\<not> ?thesis"
    then obtain b0 where b0: "Mapping.lookup D ?k = Some b0" by auto
    then have "unat (bh_height (b_header b0)) \<le> ?n" "b_header b0 = b_header b" "cs_last_block_hash st \<noteq> zero_hash"
      using ok nc unfolding replay_ok_def no_collision_def by (auto simp: lookup_empty) (metis+)
    with h0 succ(3) show False by auto
  qed
  have chain: "active_chain ?D (unat (bh_height (b_header b))) ?k =
      active_chain D ?n (cs_last_block_hash st) @ [b] \<and> linked ?D (unat (bh_height (b_header b))) ?k"
  proof (cases "bh_height (b_header b) = 0")
    case True
    with h0 ok have "D = Mapping.empty" "cs_last_block_hash st = zero_hash" by (simp_all add: replay_ok_def)
    moreover from this lin have "?n = 0" by (cases ?n) (simp_all add: lookup_empty)
    ultimately show ?thesis using True by (simp add: lookup_update' lookup_empty)
  next
    case False
    have "linked ?D ?n (cs_last_block_hash st)" using linked_update [OF nz _ lin, of b] new by simp
    then show ?thesis
      using succ [OF False] active_chain_update [OF new nz lin, of b]
      by (simp add: lookup_update')
  qed
  moreover have "cs_current_height ?st = bh_height (b_header b)" "cs_last_block_hash ?st = ?k"
      "cs_blocks ?st = Mapping.update ?k b (cs_blocks st)"
    by (simp_all add: applied_state_def Let_def)
  moreover have "unat (bh_height (b_header b')) \<le> unat (bh_height (b_header b))" if "Mapping.lookup D h = Some b'" for h b'
    using that ok succ(3) h0 by (cases "bh_height (b_header b) = 0") (auto simp: replay_ok_def lookup_empty intro: le_SucI)
  moreover have "cs_name_registry ?st = cd_names cd" "cs_asset_registry ?st = cd_assets cd"
      "cs_collection_registry ?st = cd_collections cd" "cs_collection_mint_counts ?st = cd_counts cd"
    by (simp_all add: applied_state_def Let_def)
  moreover note replay_applied [OF v]
  ultimately show ?thesis
    using ok nz s unfolding replay_ok_def by (auto simp: Let_def lookup_update' stored_def)
qed

lemma store_block_frame:
  "cs_utxos (store_block cr b st) = cs_utxos st" "cs_kernels (store_block cr b st) = cs_kernels st"
  "cs_kernel_excesses (store_block cr b st) = cs_kernel_excesses st"
  "cs_current_height (store_block cr b st) = cs_current_height st"
  "cs_last_block_hash (store_block cr b st) = cs_last_block_hash st"
  "cs_validator_snapshots (store_block cr b st) = cs_validator_snapshots st"
  "cs_name_registry (store_block cr b st) = cs_name_registry st"
  "cs_asset_registry (store_block cr b st) = cs_asset_registry st"
  "cs_collection_registry (store_block cr b st) = cs_collection_registry st"
  "cs_collection_mint_counts (store_block cr b st) = cs_collection_mint_counts st"
  by (simp_all add: store_block_def)

lemma store_block_keeps:
  assumes "no_collision cr st b"
  shows "disk_ok cr dc D st sg \<Longrightarrow> disk_ok cr dc D (store_block cr b st) sg"
    and "replay_ok cr D st \<Longrightarrow> replay_ok cr D (store_block cr b st)"
proof -
  show "disk_ok cr dc D st sg \<Longrightarrow> disk_ok cr dc D (store_block cr b st) sg"
    unfolding disk_ok_def store_block_frame .
  have stored: "\<exists>b''. Mapping.lookup (cs_blocks (store_block cr b st)) h = Some b'' \<and> b_header b'' = hdr"
    if "\<exists>b'. Mapping.lookup (cs_blocks st) h = Some b' \<and> b_header b' = hdr" for h hdr
  proof (cases "h = header_hash cr (b_header b)")
    case True
    with that assms have "b_header b = hdr" unfolding no_collision_def by metis
    with True show ?thesis by (simp add: store_block_def)
  next
    case False
    with that show ?thesis by (simp add: store_block_def lookup_update')
  qed
  show "replay_ok cr D (store_block cr b st)" if "replay_ok cr D st"
    using that stored unfolding replay_ok_def store_block_frame by blast
qed

lemma journal_ok:
  assumes "compress_laws cr" and "\<forall>bs. length (sha256 cr bs) = 32" and "journal cr en dc st sg"
  shows "\<exists>D. disk_ok cr dc D st sg \<and> replay_ok cr D st"
  using assms(3)
proof (induction rule: journal.induct)
  case fresh
  have "disk_ok cr dc Mapping.empty chain_new open_at"
    by (simp add: disk_ok_def chain_new_def open_at_def encodes_def kernel_map_def lookup_empty load_height_def load_tip_def)
  moreover have "replay_ok cr Mapping.empty chain_new"
    by (simp add: replay_ok_def chain_new_def lookup_empty)
  ultimately show ?case by blast
next
  case (rejected st sg b st')
  from rejected.hyps(3) consider "st' = st" | "st' = store_block cr b st"
    by (cases rule: apply_block_cases) auto
  then show ?case
  proof cases
    case 1
    with rejected.IH show ?thesis by simp
  next
    case 2
    with rejected.IH store_block_keeps [OF rejected.hyps(2)] show ?thesis by blast
  qed
next
  case (extended st sg b st' delta sg')
  let ?st = "store_block cr b st"
  from extended.hyps(4) have app: "apply_linear_block cr en b ?st = Ret (st', Some delta)"
    by (cases rule: apply_block_cases) auto
  then obtain cd where v: "validate_block cr en ?st b = Some cd" and st': "st' = applied_state cr b cd ?st"
      and d: "delta = delta_of cr b cd ?st" by (rule apply_linear_block_Some)
  from extended.IH obtain D where D: "disk_ok cr dc D st sg" "replay_ok cr D st" by blast
  have b: "no_collision cr ?st b" "stored cr ?st b" "storable ?st b"
    using extended.hyps(2,3) by (simp_all add: no_collision_def stored_def storable_def store_block_def)
  note kept = store_block_keeps [OF extended.hyps(2)]
  from persist_applied_ok [OF assms(1) _ kept(1) [OF D(1)] v b(3)] extended.hyps(5) assms(2)
  have "disk_ok cr dc (Mapping.update (header_hash cr (b_header b)) b D) st' sg'"
    by (simp add: st' d header_hash_def)
  moreover from replay_ok_applied [OF kept(2) [OF D(2)] v b(1,2)] b(3)
  have "replay_ok cr (Mapping.update (header_hash cr (b_header b)) b D) st'" by (simp add: st' storable_def)
  ultimately show ?case by blast
qed

text \<open>Replayed validators are backed by unspent outputs.\<close>

lemma try_register_backed:
  assumes "try_register_validator cr vs U c value proof = Some vs'" and "\<forall>v \<in> set vs. v_commitment v \<in> U"
  shows "\<forall>v \<in> set vs'. v_commitment v \<in> U"
proof -
  let ?v = "\<lparr>v_commitment = c, v_value = value, v_proof = proof\<rparr>"
  from assms(1) have "c \<in> U" and "vs' = vs @ [?v] \<or> (\<exists>pos. vs' = vs[pos := ?v])"
    by (auto simp: try_register_validator_def Let_def split: if_splits option.splits)
  with assms(2) set_update_subset_insert [of vs _ ?v] show ?thesis by fastforce
qed

lemma replay_validators_backed:
  assumes "\<forall>v \<in> set vs. v_commitment v \<in> U"
  shows "\<forall>v \<in> set (replay_validators cr U b vs). v_commitment v \<in> U"
proof -
  let ?register = "\<lambda>op vs. case try_register_validator cr vs U (rv_commitment op) (rv_value op) (rv_proof op) of
      None \<Rightarrow> vs | Some vs \<Rightarrow> vs"
  have reg: "\<forall>v \<in> set (fold ?register ops vs). v_commitment v \<in> U" for ops
    using assms by (induction ops arbitrary: vs) (auto split: option.splits dest: try_register_backed)
  have "set (fold (\<lambda>i. filter (\<lambda>v. v_commitment v \<noteq> in_commitment i)) ins ws) \<subseteq> set ws"
    for ins :: "'a tx_input list" and ws :: "('a, 'b) validator list"
    by (induction ins arbitrary: ws) (auto, fastforce)
  from this [of "tx_inputs (b_body b)" "fold ?register (b_validator_ops b) vs"] reg [of "b_validator_ops b"]
  show ?thesis unfolding replay_validators_def Let_def by (cases "0 < bh_height (b_header b)") auto
qed

lemma fold_replay_backed:
  "\<forall>v \<in> set vs. v_commitment v \<in> U \<Longrightarrow> \<forall>v \<in> set (fold (replay_validators cr U) bs vs). v_commitment v \<in> U"
proof (induction bs arbitrary: vs)
  case (Cons b bs)
  from Cons.IH [OF replay_validators_backed [OF Cons.prems]] show ?case by simp
qed simp

lemma load_journal:
  assumes laws: "compress_laws cr" "disk_laws dc" and len: "\<forall>bs. length (sha256 cr bs) = 32"
    and D: "disk_ok cr dc D st sg" "replay_ok cr D st"
  shows "\<exists>st'. load_state cr dc sg = Some st' \<and> cs_utxos st' = cs_utxos st \<and> mset (cs_kernels st') = mset (cs_kernels st) \<and>
    cs_kernel_excesses st' = cs_kernel_excesses st \<and> cs_current_height st' = cs_current_height st \<and>
    cs_last_block_hash st' = cs_last_block_hash st \<and> cs_name_registry st' = cs_name_registry st \<and>
    cs_asset_registry st' = cs_asset_registry st \<and> cs_collection_registry st' = cs_collection_registry st \<and>
    cs_collection_mint_counts st' = cs_collection_mint_counts st \<and>
    cs_validator_snapshots st' = cs_validator_snapshots st \<and>
    (\<forall>v \<in> set (cs_active_validators st'). v_commitment v \<in> cs_utxos st')"
proof -
  have keys: "\<forall>h \<in> Mapping.keys D. length h = 32" and zero: "Mapping.lookup D zero_hash = None"
    using D(2) len by (auto simp: replay_ok_def keys_dom_lookup header_hash_def) (metis len not_Some_eq)+
  have utxos: "load_utxos cr (sg_utxos sg) = cs_utxos st"
    using D(1) unfolding disk_ok_def by (intro load_utxos_eq [OF laws(1)]) blast+
  have kernels: "mset (load_kernels dc (sg_kernels sg)) = mset (cs_kernels st)"
    using D(1) unfolding disk_ok_def kernel_map_def by (intro load_kernels_eq [OF laws]) blast+
  then have excesses: "excess ` set (load_kernels dc (sg_kernels sg)) = cs_kernel_excesses st"
    using D(1) mset_eq_setD [OF kernels] by (simp add: disk_ok_def)
  have rest: "load_blocks dc (sg_blocks sg) = D" "load_snapshots dc (sg_validator_snapshots sg) = cs_validator_snapshots st"
      "load_height (sg_meta sg) = cs_current_height st" "load_tip (sg_meta sg) = cs_last_block_hash st"
    using D(1) load_blocks_eq [OF _ laws(2) keys] load_snapshots_eq [OF _ laws(2)] by (simp_all add: disk_ok_def)
  have "linked D (unat (cs_current_height st)) (cs_last_block_hash st)" using D(2) by (simp add: replay_ok_def Let_def)
  note chain = active_blocks_chain [OF zero this unat_u64_less, of "[]"]
  have "\<forall>v \<in> set (fold (replay_validators cr (cs_utxos st)) bs []). v_commitment v \<in> cs_utxos st" for bs
    by (rule fold_replay_backed) simp
  with chain D(2) utxos kernels excesses show ?thesis
    by (simp add: load_state_def Let_def rest fold_replay_block replay_ok_def chain_new_def)
qed


definition w_disk :: "(wpoint, u64) disk_codec" where
  "w_disk = \<lparr>ser_block = (\<lambda>b. if b = w_genesis then Some [1] else None),
     de_block = (\<lambda>v. if v = [1] then Some w_genesis else None), ser_output = (\<lambda>_. Some [2]),
     ser_kernel = (\<lambda>k. if [k] = tx_kernels (b_body w_genesis) then Some [3] else None),
     de_kernel = (\<lambda>v. if v = [3] then Some (hd (tx_kernels (b_body w_genesis))) else None),
     ser_validators = (\<lambda>vs. if vs = [] then Some [] else None), de_validators = (\<lambda>v. if v = [] then Some [] else None),
     ser_prune_meta = (\<lambda>_. None), de_prune_meta = (\<lambda>_. None)\<rparr>"

lemma w_disk_laws: "disk_laws w_disk"
  by (auto simp: disk_laws_def w_disk_def split: if_splits) (metis list.sel(1))

lemma w_genesis_journal:
  obtains st d sg where "apply_block w_crypto w_env w_genesis chain_new = Some (Ret (st, Linear d))"
    "journal w_crypto w_env w_disk st sg" "cs_current_height st = 0" "cs_last_block_hash st \<noteq> zero_hash"
proof -
  obtain st d where st: "apply_block w_crypto w_env w_genesis chain_new = Some (Ret (st, Linear d))"
    by (rule w_genesis_applies)
  then have "apply_linear_block w_crypto w_env w_genesis (store_block w_crypto w_genesis chain_new) = Ret (st, Some d)"
    by (cases rule: apply_block_cases) auto
  then obtain cd where st': "st = applied_state w_crypto w_genesis cd (store_block w_crypto w_genesis chain_new)"
      and d: "d = delta_of w_crypto w_genesis cd (store_block w_crypto w_genesis chain_new)"
    by (rule apply_linear_block_Some)
  have g: "bh_height (b_header w_genesis) = 0" "b_name_ops w_genesis = []" "b_mint_ops w_genesis = []"
      "length (tx_kernels (b_body w_genesis)) = 1" "header_hash w_crypto (b_header w_genesis) \<noteq> zero_hash"
    using w_header_hash_neq [of 0] by (simp_all add: w_genesis_def w_block_def w_tx_def Let_def)
  then obtain k where k: "tx_kernels (b_body w_genesis) = [k]" by (auto simp: length_Suc_conv)
  have kernels: "new_kernels w_genesis = [k]" by (simp add: new_kernels_def fee_kernels_def k g)
  have fresh: "cs_active_validators (store_block w_crypto w_genesis chain_new) = []" "cs_kernels chain_new = []"
      "cs_utxos chain_new = {}" "cs_last_block_hash chain_new = zero_hash"
    by (simp_all add: chain_new_def store_block_def)
  have "insertions key (\<lambda>_. Some v) outs \<noteq> None" for key :: "wpoint tx_output \<Rightarrow> byte list" and v outs
    by (induction outs) (simp_all add: insertions_def)
  moreover have "insertions key ser [x] = map_option (\<lambda>v. [(key x, Some v)]) (ser x)"
    for key ser and x :: "(wpoint, u64) tx_kernel" by (cases "ser x") (simp_all add: insertions_def)
  ultimately have "\<exists>sg. persist_applied w_crypto w_disk d open_at = (sg, None)"
    by (auto simp: d delta_of_def persist_applied_def w_disk_def kernels k fresh Let_def split: option.splits)
  then obtain sg where p: "persist_applied w_crypto w_disk d open_at = (sg, None)" by blast
  have "no_collision w_crypto chain_new w_genesis" using g(5) by (simp add: no_collision_def chain_new_def lookup_empty)
  moreover have "storable chain_new w_genesis" by (simp add: storable_def fresh kernels)
  ultimately have "journal w_crypto w_env w_disk st sg" by (rule journal.extended [OF journal.fresh _ _ st p])
  with st g show thesis by (intro that [of st d sg]) (simp_all add: st' applied_state_def Let_def)
qed



section \<open>What a restart forgets\<close>

lemma fold_replay_snapshots:
  "cs_transfer_snapshots (fold (replay_block cr) bs st) = cs_transfer_snapshots st"
  "cs_asset_transfer_snapshots (fold (replay_block cr) bs st) = cs_asset_transfer_snapshots st"
  by (induction bs arbitrary: st) (simp_all add: replay_block_def)

lemma load_state_snapshots:
  assumes "load_state cr dc sg = Some st"
  shows "cs_transfer_snapshots st = Mapping.empty" "cs_asset_transfer_snapshots st = Mapping.empty"
  using assms by (auto simp: load_state_def Let_def fold_replay_snapshots chain_new_def)

text \<open>The records needed to undo transfers are not written to disk: after a restart, rolling back the tip
  removes the names and assets it created but gives no transferred name or asset back to its former
  owner, while a node that did not restart does (\<open>rollback_undoes_apply\<close>). The two then disagree
  about the registries.\<close>

theorem restart_forgets_transfers:
  assumes "load_state cr dc sg = Some st" and "rollback_block cr st = Some (st', rd)"
    and "Mapping.lookup (cs_blocks st) (cs_last_block_hash st) = Some tip"
  shows "cs_name_registry st' = delete_all (map rn_name (b_name_ops tip)) (cs_name_registry st) \<and>
    cs_asset_registry st' = delete_all (map ma_asset_id (b_mint_ops tip)) (cs_asset_registry st)"
  using assms(2,3)
  by (auto simp: rollback_block_def Let_def fold_undo_name_op fold_undo_mint_op load_state_snapshots [OF assms(1)]
      restore_snapshot_def lookup_empty split: if_splits)

definition w_disk_good :: "(wpoint, u64) disk_codec" where
  "w_disk_good = w_disk\<lparr>de_block := (\<lambda>v. if v = [1] then Some w_good_block else None)\<rparr>"

definition w_storage :: storage where
  "w_storage = open_at\<lparr>sg_blocks := Mapping.update (header_hash w_crypto (b_header w_good_block)) [1] Mapping.empty,
     sg_meta := write_tip 1 (header_hash w_crypto (b_header w_good_block)) Mapping.empty\<rparr>"

theorem restart_forgets_transfers_witness:
  "\<exists>st st' rd. load_state w_crypto w_disk_good w_storage = Some st \<and> rollback_block w_crypto st = Some (st', rd) \<and>
     cs_name_registry st' = delete_all [''alice''] (cs_name_registry st)"
proof -
  let ?h = "header_hash w_crypto (b_header w_good_block)"
  have h: "?h \<noteq> zero_hash" "?h \<noteq> replicate 32 5" "length ?h = 32"
    using w_header_hash_neq [of 0] w_header_hash_neq [of 5]
    by (simp_all add: header_hash_def w_crypto_def w_hash_def)
  have b: "bh_height (b_header w_good_block) = 1" "bh_prev_hash (b_header w_good_block) = replicate 32 5"
      "map rn_name (b_name_ops w_good_block) = [''alice'']"
    by (simp_all add: w_good_block_def w_block_def w_state_def chain_new_def w_name_op_def)
  have blocks: "load_blocks w_disk_good (sg_blocks w_storage) = Mapping.update ?h w_good_block Mapping.empty"
    using h(3) by (simp add: load_blocks_def w_storage_def tree_iter_def w_disk_good_def Mapping.ordered_keys_def
        Mapping.lookup_default_def)
  have meta: "load_height (sg_meta w_storage) = 1" "load_tip (sg_meta w_storage) = ?h"
    using h(3) by (simp_all add: w_storage_def)
  have "active_blocks (Mapping.update ?h w_good_block Mapping.empty) ?h [] = Some [w_good_block]"
    using h b by (subst active_blocks.simps)
      (simp add: active_blocks.simps [of _ "replicate 32 5"] lookup_update' lookup_empty)
  then obtain st where st: "load_state w_crypto w_disk_good w_storage = Some st"
      "cs_blocks st = Mapping.update ?h w_good_block Mapping.empty" "cs_last_block_hash st = ?h" "cs_current_height st = 1"
    using meta by (simp add: load_state_def Let_def blocks replay_block_def)
  then have tip: "Mapping.lookup (cs_blocks st) (cs_last_block_hash st) = Some w_good_block" by simp
  then obtain st' rd where "rollback_block w_crypto st = Some (st', rd)"
    using st(4) rollback_block_exists [of st w_good_block w_crypto] by auto
  with restart_forgets_transfers [OF st(1) this tip] st(1) b(3) show ?thesis by auto
qed

end
