(* ===== verification/Mempool.thy ===== *)
theory Mempool
  imports Chain_Samples
begin

text \<open>
  The mempool of \<open>core/src/mempool.rs\<close>: seven queues of pending transactions and operations. Every
  queue has a cap, every queue but the first refuses a second operation for the same key, and a
  block drains a bounded batch, by fee where there is one. The locales \<open>bounded_queue\<close> and
  \<open>keyed_queue\<close> state this contract once; their interpretations on the seven queues give the
  invariant of the whole mempool. The size of a serialised transaction (bincode) is the parameter
  \<open>size_of\<close>.
\<close>

section \<open>Limits and fees\<close>

definition MAX_NAME_OPS_PER_BLOCK :: nat where "MAX_NAME_OPS_PER_BLOCK = 10"

definition MAX_TRANSFER_OPS_PER_BLOCK :: nat where "MAX_TRANSFER_OPS_PER_BLOCK = 10"

definition MAX_MINT_OPS_PER_BLOCK :: nat where "MAX_MINT_OPS_PER_BLOCK = 10"

definition MAX_TRANSFER_ASSET_OPS_PER_BLOCK :: nat where "MAX_TRANSFER_ASSET_OPS_PER_BLOCK = 10"

definition MAX_LAUNCH_OPS_PER_BLOCK :: nat where "MAX_LAUNCH_OPS_PER_BLOCK = 5"

definition MAX_VALIDATOR_OPS_PER_BLOCK :: nat where "MAX_VALIDATOR_OPS_PER_BLOCK = 20"

definition MAX_TXS_PER_BLOCK :: nat where "MAX_TXS_PER_BLOCK = 50"

definition MAX_PENDING_TXS :: nat where
  "MAX_PENDING_TXS = MAX_TXS_PER_BLOCK * 100"

definition MAX_PENDING_NAME_OPS :: nat where
  "MAX_PENDING_NAME_OPS = MAX_NAME_OPS_PER_BLOCK * 100"

definition MAX_PENDING_TRANSFER_OPS :: nat where
  "MAX_PENDING_TRANSFER_OPS = MAX_TRANSFER_OPS_PER_BLOCK * 100"

definition MAX_PENDING_MINT_OPS :: nat where
  "MAX_PENDING_MINT_OPS = MAX_MINT_OPS_PER_BLOCK * 100"

definition MAX_PENDING_TRANSFER_ASSET_OPS :: nat where
  "MAX_PENDING_TRANSFER_ASSET_OPS = MAX_TRANSFER_ASSET_OPS_PER_BLOCK * 100"

definition MAX_PENDING_LAUNCH_COLLECTION_OPS :: nat where
  "MAX_PENDING_LAUNCH_COLLECTION_OPS = MAX_LAUNCH_OPS_PER_BLOCK * 100"

definition MAX_PENDING_VALIDATOR_OPS :: nat where
  "MAX_PENDING_VALIDATOR_OPS = MAX_VALIDATOR_OPS_PER_BLOCK * 100"

definition MIN_FEE :: u64 where "MIN_FEE = 5"

definition FEE_PER_KB :: u64 where "FEE_PER_KB = 5"

definition REFERENCE_TX_SIZE_BYTES :: u64 where "REFERENCE_TX_SIZE_BYTES = 952"

definition tx_fee :: "('p, 's) transaction \<Rightarrow> u64" where
  "tx_fee tx = sum_list (map fee (tx_kernels tx))"

text \<open>\<open>u64::div_ceil\<close>\<close>

definition div_ceil :: "u64 \<Rightarrow> u64 \<Rightarrow> u64" where
  "div_ceil a b = (if a mod b = 0 then a div b else a div b + 1)"

text \<open>\<open>size_of tx\<close> is \<open>bincode::serialized_size(tx)\<close>; a failure to serialise counts as 0.\<close>

definition required_fee :: "(('p, 's) transaction \<Rightarrow> u64 option) \<Rightarrow> ('p, 's) transaction \<Rightarrow> u64" where
  "required_fee size_of tx =
     (let size_bytes = (case size_of tx of None \<Rightarrow> 0 | Some n \<Rightarrow> n);
          size_based_fee = div_ceil (FEE_PER_KB * size_bytes) 1000
      in max size_based_fee MIN_FEE)"

definition name_op_fee :: "('p, 's) register_name_op \<Rightarrow> u64" where
  "name_op_fee op = tx_fee (rn_fee_payment op)"

definition mint_op_fee :: "('p, 's) mint_asset_op \<Rightarrow> u64" where
  "mint_op_fee op = tx_fee (ma_fee_payment op)"


section \<open>The queues\<close>

record ('p, 's) mempool =
  mp_txs :: "('p, 's) transaction list"
  mp_name_ops :: "('p, 's) register_name_op list"
  mp_transfer_ops :: "('p, 's) transfer_name_op list"
  mp_mint_ops :: "('p, 's) mint_asset_op list"
  mp_transfer_asset_ops :: "('p, 's) transfer_asset_op list"
  mp_launch_collection_ops :: "('p, 's) launch_collection_op list"
  mp_validator_ops :: "('p, 's) register_validator_op list"

definition mempool_new :: "('p, 's) mempool" where
  "mempool_new = \<lparr>mp_txs = [], mp_name_ops = [], mp_transfer_ops = [], mp_mint_ops = [],
     mp_transfer_asset_ops = [], mp_launch_collection_ops = [], mp_validator_ops = []\<rparr>"

text \<open>\<open>sort_by_key\<close> with \<open>Reverse\<close> (a stable sort, highest fee first), and \<open>drain(0..n)\<close>.\<close>

definition sort_by_fee :: "('a \<Rightarrow> u64) \<Rightarrow> 'a list \<Rightarrow> 'a list" where
  "sort_by_fee fee_of q = sort_key (\<lambda>x. - uint (fee_of x)) q"

definition drain_front :: "nat \<Rightarrow> 'a list \<Rightarrow> 'a list \<times> 'a list" where
  "drain_front limit q = (let n = min (length q) limit in (take n q, drop n q))"

definition add_transaction ::
    "('p::ab_group_add, 's::comm_ring_1) crypto \<Rightarrow> (('p, 's) transaction \<Rightarrow> u64 option) \<Rightarrow>
       ('p, 's) transaction \<Rightarrow> ('p, 's) mempool \<Rightarrow> bool \<times> ('p, 's) mempool" where
  "add_transaction cr size_of tx mp =
     (if MAX_PENDING_TXS \<le> length (mp_txs mp) then (False, mp)
      else if \<not> validate cr tx then (False, mp)
      else if tx_fee tx < required_fee size_of tx then (False, mp)
      else (True, mp\<lparr>mp_txs := mp_txs mp @ [tx]\<rparr>))"

definition take_txs ::
    "('p, 's) mempool \<Rightarrow> ('p, 's) transaction list \<times> ('p, 's) mempool" where
  "take_txs mp =
     (let (selected, rest) = drain_front MAX_TXS_PER_BLOCK (sort_by_fee tx_fee (mp_txs mp))
      in (selected, mp\<lparr>mp_txs := rest\<rparr>))"

definition aggregate ::
    "('p, 's) mempool \<Rightarrow> ('p, 's) transaction option \<times> ('p, 's) mempool" where
  "aggregate mp =
     (if mp_txs mp = [] then (None, mp)
      else let (selected, mp') = take_txs mp in (Some (aggregate_and_cut_through selected), mp'))"

definition suggested_fee :: u64 where
  "suggested_fee = max (div_ceil (FEE_PER_KB * REFERENCE_TX_SIZE_BYTES) 1000) MIN_FEE"

definition clear_spent :: "('p, 's) transaction \<Rightarrow> ('p, 's) mempool \<Rightarrow> ('p, 's) mempool" where
  "clear_spent block_tx mp =
     (let spent = in_commitment ` set (tx_inputs block_tx) in
      mp\<lparr>mp_txs := filter (\<lambda>tx. list_all (\<lambda>i. in_commitment i \<notin> spent) (tx_inputs tx)) (mp_txs mp)\<rparr>)"

definition add_name_op ::
    "('p::ab_group_add, 's::comm_ring_1) crypto \<Rightarrow> ('p, 's) register_name_op \<Rightarrow> ('p, 's) mempool \<Rightarrow>
       bool \<times> ('p, 's) mempool" where
  "add_name_op cr op mp =
     (if MAX_PENDING_NAME_OPS \<le> length (mp_name_ops mp) then (False, mp)
      else if register_name_validate_standalone cr op \<noteq> Inr () then (False, mp)
      else if list_ex (\<lambda>o'. rn_name o' = rn_name op) (mp_name_ops mp) then (False, mp)
      else (True, mp\<lparr>mp_name_ops := mp_name_ops mp @ [op]\<rparr>))"

definition take_name_ops ::
    "('p, 's) mempool \<Rightarrow> ('p, 's) register_name_op list \<times> ('p, 's) mempool" where
  "take_name_ops mp =
     (let (ops, rest) = drain_front MAX_NAME_OPS_PER_BLOCK (sort_by_fee name_op_fee (mp_name_ops mp))
      in (ops, mp\<lparr>mp_name_ops := rest\<rparr>))"

definition clear_stale_name_ops ::
    "string list \<Rightarrow> 'p commitment list \<Rightarrow> ('p, 's) mempool \<Rightarrow> ('p, 's) mempool" where
  "clear_stale_name_ops registered_names spent_commitments mp =
     mp\<lparr>mp_name_ops := filter (\<lambda>op. rn_name op \<notin> set registered_names \<and>
       list_all (\<lambda>i. in_commitment i \<notin> set spent_commitments) (tx_inputs (rn_fee_payment op))) (mp_name_ops mp)\<rparr>"

definition add_transfer_op ::
    "('p, 's) transfer_name_op \<Rightarrow> ('p, 's) mempool \<Rightarrow> bool \<times> ('p, 's) mempool" where
  "add_transfer_op op mp =
     (if MAX_PENDING_TRANSFER_OPS \<le> length (mp_transfer_ops mp) then (False, mp)
      else if list_ex (\<lambda>o'. tn_name o' = tn_name op) (mp_transfer_ops mp) then (False, mp)
      else (True, mp\<lparr>mp_transfer_ops := mp_transfer_ops mp @ [op]\<rparr>))"

definition take_transfer_ops ::
    "('p, 's) mempool \<Rightarrow> ('p, 's) transfer_name_op list \<times> ('p, 's) mempool" where
  "take_transfer_ops mp =
     (let (ops, rest) = drain_front MAX_TRANSFER_OPS_PER_BLOCK (mp_transfer_ops mp)
      in (ops, mp\<lparr>mp_transfer_ops := rest\<rparr>))"

definition clear_stale_transfer_ops :: "string list \<Rightarrow> ('p, 's) mempool \<Rightarrow> ('p, 's) mempool" where
  "clear_stale_transfer_ops touched_names mp =
     mp\<lparr>mp_transfer_ops := filter (\<lambda>op. tn_name op \<notin> set touched_names) (mp_transfer_ops mp)\<rparr>"

definition add_mint_op ::
    "('p::ab_group_add, 's::comm_ring_1) crypto \<Rightarrow> ('p, 's) mint_asset_op \<Rightarrow> ('p, 's) mempool \<Rightarrow>
       bool \<times> ('p, 's) mempool" where
  "add_mint_op cr op mp =
     (if MAX_PENDING_MINT_OPS \<le> length (mp_mint_ops mp) then (False, mp)
      else if mint_asset_validate_standalone cr op \<noteq> Inr () then (False, mp)
      else if list_ex (\<lambda>o'. ma_asset_id o' = ma_asset_id op) (mp_mint_ops mp) then (False, mp)
      else (True, mp\<lparr>mp_mint_ops := mp_mint_ops mp @ [op]\<rparr>))"

definition take_mint_ops ::
    "('p, 's) mempool \<Rightarrow> ('p, 's) mint_asset_op list \<times> ('p, 's) mempool" where
  "take_mint_ops mp =
     (let (ops, rest) = drain_front MAX_MINT_OPS_PER_BLOCK (sort_by_fee mint_op_fee (mp_mint_ops mp))
      in (ops, mp\<lparr>mp_mint_ops := rest\<rparr>))"

definition clear_stale_mint_ops ::
    "string list \<Rightarrow> 'p commitment list \<Rightarrow> ('p, 's) mempool \<Rightarrow> ('p, 's) mempool" where
  "clear_stale_mint_ops minted_assets spent_commitments mp =
     mp\<lparr>mp_mint_ops := filter (\<lambda>op. ma_asset_id op \<notin> set minted_assets \<and>
       list_all (\<lambda>i. in_commitment i \<notin> set spent_commitments) (tx_inputs (ma_fee_payment op))) (mp_mint_ops mp)\<rparr>"

definition add_transfer_asset_op ::
    "('p, 's) transfer_asset_op \<Rightarrow> ('p, 's) mempool \<Rightarrow> bool \<times> ('p, 's) mempool" where
  "add_transfer_asset_op op mp =
     (if MAX_PENDING_TRANSFER_ASSET_OPS \<le> length (mp_transfer_asset_ops mp) then (False, mp)
      else if list_ex (\<lambda>o'. ta_asset_id o' = ta_asset_id op) (mp_transfer_asset_ops mp) then (False, mp)
      else (True, mp\<lparr>mp_transfer_asset_ops := mp_transfer_asset_ops mp @ [op]\<rparr>))"

definition take_transfer_asset_ops ::
    "('p, 's) mempool \<Rightarrow> ('p, 's) transfer_asset_op list \<times> ('p, 's) mempool" where
  "take_transfer_asset_ops mp =
     (let (ops, rest) = drain_front MAX_TRANSFER_ASSET_OPS_PER_BLOCK (mp_transfer_asset_ops mp)
      in (ops, mp\<lparr>mp_transfer_asset_ops := rest\<rparr>))"

definition clear_stale_transfer_asset_ops :: "string list \<Rightarrow> ('p, 's) mempool \<Rightarrow> ('p, 's) mempool" where
  "clear_stale_transfer_asset_ops touched_assets mp =
     mp\<lparr>mp_transfer_asset_ops := filter (\<lambda>op. ta_asset_id op \<notin> set touched_assets) (mp_transfer_asset_ops mp)\<rparr>"

definition add_launch_collection_op ::
    "('p::ab_group_add, 's::comm_ring_1) crypto \<Rightarrow> (mint_phase list \<Rightarrow> byte list) \<Rightarrow>
       ('p, 's) launch_collection_op \<Rightarrow> ('p, 's) mempool \<Rightarrow> bool \<times> ('p, 's) mempool" where
  "add_launch_collection_op cr ser op mp =
     (if MAX_PENDING_LAUNCH_COLLECTION_OPS \<le> length (mp_launch_collection_ops mp) then (False, mp)
      else if launch_collection_validate_standalone cr ser op \<noteq> Inr () then (False, mp)
      else if list_ex (\<lambda>o'. lc_collection_id o' = lc_collection_id op) (mp_launch_collection_ops mp) then (False, mp)
      else (True, mp\<lparr>mp_launch_collection_ops := mp_launch_collection_ops mp @ [op]\<rparr>))"

definition take_launch_collection_ops ::
    "('p, 's) mempool \<Rightarrow> ('p, 's) launch_collection_op list \<times> ('p, 's) mempool" where
  "take_launch_collection_ops mp =
     (let (ops, rest) = drain_front MAX_LAUNCH_OPS_PER_BLOCK (mp_launch_collection_ops mp)
      in (ops, mp\<lparr>mp_launch_collection_ops := rest\<rparr>))"

definition clear_stale_launch_collection_ops :: "string list \<Rightarrow> ('p, 's) mempool \<Rightarrow> ('p, 's) mempool" where
  "clear_stale_launch_collection_ops touched_collections mp =
     mp\<lparr>mp_launch_collection_ops :=
       filter (\<lambda>op. lc_collection_id op \<notin> set touched_collections) (mp_launch_collection_ops mp)\<rparr>"

definition add_validator_op ::
    "('p::ab_group_add, 's::comm_ring_1) crypto \<Rightarrow> ('p, 's) register_validator_op \<Rightarrow> ('p, 's) mempool \<Rightarrow>
       bool \<times> ('p, 's) mempool" where
  "add_validator_op cr op mp =
     (if MAX_PENDING_VALIDATOR_OPS \<le> length (mp_validator_ops mp) then (False, mp)
      else if register_validator_validate_standalone cr op \<noteq> Inr () then (False, mp)
      else if list_ex (\<lambda>o'. rv_commitment o' = rv_commitment op) (mp_validator_ops mp) then (False, mp)
      else (True, mp\<lparr>mp_validator_ops := mp_validator_ops mp @ [op]\<rparr>))"

definition take_validator_ops ::
    "('p, 's) mempool \<Rightarrow> ('p, 's) register_validator_op list \<times> ('p, 's) mempool" where
  "take_validator_ops mp =
     (let (ops, rest) = drain_front MAX_VALIDATOR_OPS_PER_BLOCK (mp_validator_ops mp)
      in (ops, mp\<lparr>mp_validator_ops := rest\<rparr>))"

definition clear_stale_validator_ops :: "'p commitment list \<Rightarrow> ('p, 's) mempool \<Rightarrow> ('p, 's) mempool" where
  "clear_stale_validator_ops touched_commitments mp =
     mp\<lparr>mp_validator_ops := filter (\<lambda>op. rv_commitment op \<notin> set touched_commitments) (mp_validator_ops mp)\<rparr>"


section \<open>The contract of a queue\<close>

definition queue_ok :: "nat \<Rightarrow> ('a \<Rightarrow> bool) \<Rightarrow> 'a list \<Rightarrow> bool" where
  "queue_ok cap valid q \<longleftrightarrow> length q \<le> cap \<and> list_all valid q"

lemma queue_ok_filter: "queue_ok cap valid q \<Longrightarrow> queue_ok cap valid (filter P q)"
  by (auto simp: queue_ok_def list_all_iff intro: le_trans [OF length_filter_le])

definition keyed_ok :: "nat \<Rightarrow> ('a \<Rightarrow> bool) \<Rightarrow> ('a \<Rightarrow> 'k) \<Rightarrow> 'a list \<Rightarrow> bool" where
  "keyed_ok cap valid key q \<longleftrightarrow> queue_ok cap valid q \<and> distinct (map key q)"

lemma keyed_ok_filter: "keyed_ok cap valid key q \<Longrightarrow> keyed_ok cap valid key (filter P q)"
  by (simp add: keyed_ok_def queue_ok_filter distinct_map_filter)

locale bounded_queue =
  fixes add :: "'op \<Rightarrow> 'mp \<Rightarrow> bool \<times> 'mp" and take_batch :: "'mp \<Rightarrow> 'op list \<times> 'mp"
    and pending :: "'mp \<Rightarrow> 'op list" and cap batch :: nat and valid :: "'op \<Rightarrow> bool"
  assumes add_True: "add op mp = (True, mp') \<Longrightarrow>
      pending mp' = pending mp @ [op] \<and> length (pending mp) < cap \<and> valid op"
    and add_False: "add op mp = (False, mp') \<Longrightarrow> mp' = mp"
    and take_split: "take_batch mp = (ops, mp') \<Longrightarrow>
      mset (pending mp) = mset ops + mset (pending mp') \<and> length ops = min (length (pending mp)) batch"
begin

lemma add_ok:
  assumes "add op mp = (b, mp')" and "queue_ok cap valid (pending mp)"
  shows "queue_ok cap valid (pending mp')"
proof (cases b)
  case True
  with add_True [of op mp mp'] assms show ?thesis by (simp add: queue_ok_def)
next
  case False
  with add_False [of op mp mp'] assms show ?thesis by simp
qed

lemma take_set: "take_batch mp = (ops, mp') \<Longrightarrow> set (pending mp) = set ops \<union> set (pending mp')"
  using take_split by (metis set_mset_mset set_mset_union)

lemma take_length:
  assumes "take_batch mp = (ops, mp')"
  shows "length (pending mp) = length ops + length (pending mp')" "length ops = min (length (pending mp)) batch"
  using take_split [OF assms] by (metis size_mset size_union, blast)

lemma take_ok:
  assumes "take_batch mp = (ops, mp')" and "queue_ok cap valid (pending mp)"
  shows "queue_ok cap valid (pending mp')" and "list_all valid ops" and "length ops \<le> batch"
  using take_set [OF assms(1)] take_length [OF assms(1)] assms(2) by (auto simp: queue_ok_def list_all_iff)

text \<open>Without new arrivals the queue is empty after enough blocks.\<close>

lemma drains: "length (pending mp) \<le> n * batch \<Longrightarrow> pending (((\<lambda>mp. snd (take_batch mp)) ^^ n) mp) = []"
proof (induction n arbitrary: mp)
  case (Suc n)
  obtain ops mp' where step: "take_batch mp = (ops, mp')" by fastforce
  from take_length [OF step] Suc.prems have "length (pending mp') \<le> n * batch" by auto
  from Suc.IH [OF this] step show ?case by (simp add: funpow_Suc_right del: funpow.simps)
qed simp

end

locale keyed_queue = bounded_queue +
  fixes key :: "'op \<Rightarrow> 'key"
  assumes add_fresh: "add op mp = (True, mp') \<Longrightarrow> key op \<notin> key ` set (pending mp)"
begin

lemma add_distinct:
  assumes "add op mp = (b, mp')" and "distinct (map key (pending mp))"
  shows "distinct (map key (pending mp'))"
proof (cases b)
  case True
  with add_True [of op mp mp'] add_fresh [of op mp mp'] assms show ?thesis by simp
next
  case False
  with add_False [of op mp mp'] assms show ?thesis by simp
qed

lemma take_distinct:
  assumes "take_batch mp = (ops, mp')" and "distinct (map key (pending mp))"
  shows "distinct (map key ops)" and "distinct (map key (pending mp'))"
proof -
  have "mset (map key (pending mp)) = mset (map key (ops @ pending mp'))"
    using take_split [OF assms(1)] by simp
  with assms(2) have "distinct (map key (ops @ pending mp'))" by (metis mset_eq_imp_distinct_iff)
  then show "distinct (map key ops)" "distinct (map key (pending mp'))" by simp_all
qed

lemma add_keeps:
  "add op mp = (b, mp') \<Longrightarrow> keyed_ok cap valid key (pending mp) \<Longrightarrow> keyed_ok cap valid key (pending mp')"
  unfolding keyed_ok_def using add_ok add_distinct by blast

lemma take_keeps:
  "take_batch mp = (ops, mp') \<Longrightarrow> keyed_ok cap valid key (pending mp) \<Longrightarrow> keyed_ok cap valid key (pending mp')"
  unfolding keyed_ok_def using take_ok(1) take_distinct(2) by blast

end

lemma mset_sort_by_fee [simp]: "mset (sort_by_fee f q) = mset q" "length (sort_by_fee f q) = length q"
  by (simp_all add: sort_by_fee_def)

lemma drain_length: "length (fst (drain_front limit q)) = min (length q) limit"
  by (simp add: drain_front_def Let_def)

lemma drain_append: "fst (drain_front limit q) @ snd (drain_front limit q) = q"
  by (simp add: drain_front_def Let_def)

lemma drain_mset: "mset (fst (drain_front limit q)) + mset (snd (drain_front limit q)) = mset q"
  by (metis drain_append mset_append)

lemmas queue_simps = list_ex_iff not_le not_less split_beta Let_def drain_length drain_mset

interpretation tx_queue: bounded_queue "add_transaction cr size_of" take_txs mp_txs MAX_PENDING_TXS MAX_TXS_PER_BLOCK
    "\<lambda>tx. validate cr tx \<and> required_fee size_of tx \<le> tx_fee tx"
  by unfold_locales (auto simp: add_transaction_def take_txs_def queue_simps split: if_splits)

interpretation name_queue: keyed_queue "add_name_op cr" take_name_ops mp_name_ops MAX_PENDING_NAME_OPS
    MAX_NAME_OPS_PER_BLOCK "\<lambda>op. register_name_validate_standalone cr op = Inr ()" rn_name
  by unfold_locales (auto simp: add_name_op_def take_name_ops_def queue_simps split: if_splits)

interpretation transfer_queue: keyed_queue add_transfer_op take_transfer_ops mp_transfer_ops MAX_PENDING_TRANSFER_OPS
    MAX_TRANSFER_OPS_PER_BLOCK "\<lambda>_. True" tn_name
  by unfold_locales (auto simp: add_transfer_op_def take_transfer_ops_def queue_simps split: if_splits)

interpretation mint_queue: keyed_queue "add_mint_op cr" take_mint_ops mp_mint_ops MAX_PENDING_MINT_OPS
    MAX_MINT_OPS_PER_BLOCK "\<lambda>op. mint_asset_validate_standalone cr op = Inr ()" ma_asset_id
  by unfold_locales (auto simp: add_mint_op_def take_mint_ops_def queue_simps split: if_splits)

interpretation transfer_asset_queue: keyed_queue add_transfer_asset_op take_transfer_asset_ops
    mp_transfer_asset_ops MAX_PENDING_TRANSFER_ASSET_OPS MAX_TRANSFER_ASSET_OPS_PER_BLOCK "\<lambda>_. True" ta_asset_id
  by unfold_locales
    (auto simp: add_transfer_asset_op_def take_transfer_asset_ops_def queue_simps split: if_splits)

interpretation launch_queue: keyed_queue "add_launch_collection_op cr ser" take_launch_collection_ops
    mp_launch_collection_ops MAX_PENDING_LAUNCH_COLLECTION_OPS MAX_LAUNCH_OPS_PER_BLOCK
    "\<lambda>op. launch_collection_validate_standalone cr ser op = Inr ()" lc_collection_id
  by unfold_locales
    (auto simp: add_launch_collection_op_def take_launch_collection_ops_def queue_simps split: if_splits)

interpretation validator_queue: keyed_queue "add_validator_op cr" take_validator_ops mp_validator_ops
    MAX_PENDING_VALIDATOR_OPS MAX_VALIDATOR_OPS_PER_BLOCK
    "\<lambda>op. register_validator_validate_standalone cr op = Inr ()" rv_commitment
  by unfold_locales
    (auto simp: add_validator_op_def take_validator_ops_def queue_simps split: if_splits)


section \<open>The mempool as a whole\<close>

text \<open>Every operation of the mempool, as a step.\<close>

inductive mempool_step ::
    "('p::ab_group_add, 's::comm_ring_1) crypto \<Rightarrow> (('p, 's) transaction \<Rightarrow> u64 option) \<Rightarrow>
       (mint_phase list \<Rightarrow> byte list) \<Rightarrow> ('p, 's) mempool \<Rightarrow> ('p, 's) mempool \<Rightarrow> bool"
  for cr size_of ser where
  "add_transaction cr size_of tx mp = (b, mp') \<Longrightarrow> mempool_step cr size_of ser mp mp'"
| "aggregate mp = (body, mp') \<Longrightarrow> mempool_step cr size_of ser mp mp'"
| "mempool_step cr size_of ser mp (clear_spent block_tx mp)"
| "add_name_op cr nop mp = (b, mp') \<Longrightarrow> mempool_step cr size_of ser mp mp'"
| "take_name_ops mp = (nops, mp') \<Longrightarrow> mempool_step cr size_of ser mp mp'"
| "mempool_step cr size_of ser mp (clear_stale_name_ops names spent mp)"
| "add_transfer_op xop mp = (b, mp') \<Longrightarrow> mempool_step cr size_of ser mp mp'"
| "take_transfer_ops mp = (xops, mp') \<Longrightarrow> mempool_step cr size_of ser mp mp'"
| "mempool_step cr size_of ser mp (clear_stale_transfer_ops names mp)"
| "add_mint_op cr mop mp = (b, mp') \<Longrightarrow> mempool_step cr size_of ser mp mp'"
| "take_mint_ops mp = (mops, mp') \<Longrightarrow> mempool_step cr size_of ser mp mp'"
| "mempool_step cr size_of ser mp (clear_stale_mint_ops assets spent mp)"
| "add_transfer_asset_op aop mp = (b, mp') \<Longrightarrow> mempool_step cr size_of ser mp mp'"
| "take_transfer_asset_ops mp = (aops, mp') \<Longrightarrow> mempool_step cr size_of ser mp mp'"
| "mempool_step cr size_of ser mp (clear_stale_transfer_asset_ops assets mp)"
| "add_launch_collection_op cr ser lop mp = (b, mp') \<Longrightarrow> mempool_step cr size_of ser mp mp'"
| "take_launch_collection_ops mp = (lops, mp') \<Longrightarrow> mempool_step cr size_of ser mp mp'"
| "mempool_step cr size_of ser mp (clear_stale_launch_collection_ops ids mp)"
| "add_validator_op cr vop mp = (b, mp') \<Longrightarrow> mempool_step cr size_of ser mp mp'"
| "take_validator_ops mp = (vops, mp') \<Longrightarrow> mempool_step cr size_of ser mp mp'"
| "mempool_step cr size_of ser mp (clear_stale_validator_ops commitments mp)"

definition mempool_ok ::
    "('p::ab_group_add, 's::comm_ring_1) crypto \<Rightarrow> (('p, 's) transaction \<Rightarrow> u64 option) \<Rightarrow>
       (mint_phase list \<Rightarrow> byte list) \<Rightarrow> ('p, 's) mempool \<Rightarrow> bool" where
  "mempool_ok cr size_of ser mp \<longleftrightarrow>
     queue_ok MAX_PENDING_TXS (\<lambda>tx. validate cr tx \<and> required_fee size_of tx \<le> tx_fee tx) (mp_txs mp) \<and>
     keyed_ok MAX_PENDING_NAME_OPS (\<lambda>op. register_name_validate_standalone cr op = Inr ()) rn_name (mp_name_ops mp) \<and>
     keyed_ok MAX_PENDING_TRANSFER_OPS (\<lambda>_. True) tn_name (mp_transfer_ops mp) \<and>
     keyed_ok MAX_PENDING_MINT_OPS (\<lambda>op. mint_asset_validate_standalone cr op = Inr ()) ma_asset_id (mp_mint_ops mp) \<and>
     keyed_ok MAX_PENDING_TRANSFER_ASSET_OPS (\<lambda>_. True) ta_asset_id (mp_transfer_asset_ops mp) \<and>
     keyed_ok MAX_PENDING_LAUNCH_COLLECTION_OPS (\<lambda>op. launch_collection_validate_standalone cr ser op = Inr ())
       lc_collection_id (mp_launch_collection_ops mp) \<and>
     keyed_ok MAX_PENDING_VALIDATOR_OPS (\<lambda>op. register_validator_validate_standalone cr op = Inr ())
       rv_commitment (mp_validator_ops mp)"

text \<open>Each operation changes one queue only.\<close>

lemma mempool_frames:
  "add_transaction cr size_of tx mp = (b, mp') \<Longrightarrow> mp' = mp\<lparr>mp_txs := mp_txs mp'\<rparr>"
  "take_txs mp = (txs, mp') \<Longrightarrow> mp' = mp\<lparr>mp_txs := mp_txs mp'\<rparr>"
  "add_name_op cr nop mp = (b, mp') \<Longrightarrow> mp' = mp\<lparr>mp_name_ops := mp_name_ops mp'\<rparr>"
  "take_name_ops mp = (nops, mp') \<Longrightarrow> mp' = mp\<lparr>mp_name_ops := mp_name_ops mp'\<rparr>"
  "add_transfer_op xop mp = (b, mp') \<Longrightarrow> mp' = mp\<lparr>mp_transfer_ops := mp_transfer_ops mp'\<rparr>"
  "take_transfer_ops mp = (xops, mp') \<Longrightarrow> mp' = mp\<lparr>mp_transfer_ops := mp_transfer_ops mp'\<rparr>"
  "add_mint_op cr mop mp = (b, mp') \<Longrightarrow> mp' = mp\<lparr>mp_mint_ops := mp_mint_ops mp'\<rparr>"
  "take_mint_ops mp = (mops, mp') \<Longrightarrow> mp' = mp\<lparr>mp_mint_ops := mp_mint_ops mp'\<rparr>"
  "add_transfer_asset_op aop mp = (b, mp') \<Longrightarrow> mp' = mp\<lparr>mp_transfer_asset_ops := mp_transfer_asset_ops mp'\<rparr>"
  "take_transfer_asset_ops mp = (aops, mp') \<Longrightarrow> mp' = mp\<lparr>mp_transfer_asset_ops := mp_transfer_asset_ops mp'\<rparr>"
  "add_launch_collection_op cr ser lop mp = (b, mp') \<Longrightarrow>
     mp' = mp\<lparr>mp_launch_collection_ops := mp_launch_collection_ops mp'\<rparr>"
  "take_launch_collection_ops mp = (lops, mp') \<Longrightarrow>
     mp' = mp\<lparr>mp_launch_collection_ops := mp_launch_collection_ops mp'\<rparr>"
  "add_validator_op cr vop mp = (b, mp') \<Longrightarrow> mp' = mp\<lparr>mp_validator_ops := mp_validator_ops mp'\<rparr>"
  "take_validator_ops mp = (vops, mp') \<Longrightarrow> mp' = mp\<lparr>mp_validator_ops := mp_validator_ops mp'\<rparr>"
  by (auto simp: add_transaction_def take_txs_def add_name_op_def take_name_ops_def add_transfer_op_def
      take_transfer_ops_def add_mint_op_def take_mint_ops_def add_transfer_asset_op_def
      take_transfer_asset_ops_def add_launch_collection_op_def take_launch_collection_ops_def
      add_validator_op_def take_validator_ops_def split_beta Let_def split: if_splits)

lemma mempool_ok_update:
  assumes "mempool_ok cr size_of ser mp"
  shows "queue_ok MAX_PENDING_TXS (\<lambda>tx. validate cr tx \<and> required_fee size_of tx \<le> tx_fee tx) q1 \<Longrightarrow>
      mempool_ok cr size_of ser (mp\<lparr>mp_txs := q1\<rparr>)"
    and "keyed_ok MAX_PENDING_NAME_OPS (\<lambda>op. register_name_validate_standalone cr op = Inr ()) rn_name q2 \<Longrightarrow>
      mempool_ok cr size_of ser (mp\<lparr>mp_name_ops := q2\<rparr>)"
    and "keyed_ok MAX_PENDING_TRANSFER_OPS (\<lambda>_. True) tn_name q3 \<Longrightarrow>
      mempool_ok cr size_of ser (mp\<lparr>mp_transfer_ops := q3\<rparr>)"
    and "keyed_ok MAX_PENDING_MINT_OPS (\<lambda>op. mint_asset_validate_standalone cr op = Inr ()) ma_asset_id q4 \<Longrightarrow>
      mempool_ok cr size_of ser (mp\<lparr>mp_mint_ops := q4\<rparr>)"
    and "keyed_ok MAX_PENDING_TRANSFER_ASSET_OPS (\<lambda>_. True) ta_asset_id q5 \<Longrightarrow>
      mempool_ok cr size_of ser (mp\<lparr>mp_transfer_asset_ops := q5\<rparr>)"
    and "keyed_ok MAX_PENDING_LAUNCH_COLLECTION_OPS (\<lambda>op. launch_collection_validate_standalone cr ser op = Inr ())
      lc_collection_id q6 \<Longrightarrow> mempool_ok cr size_of ser (mp\<lparr>mp_launch_collection_ops := q6\<rparr>)"
    and "keyed_ok MAX_PENDING_VALIDATOR_OPS (\<lambda>op. register_validator_validate_standalone cr op = Inr ())
      rv_commitment q7 \<Longrightarrow> mempool_ok cr size_of ser (mp\<lparr>mp_validator_ops := q7\<rparr>)"
  using assms by (simp_all add: mempool_ok_def)

text \<open>The seven queues of a well-formed mempool, one by one.\<close>

lemmas mempool_okD = mempool_ok_def [THEN iffD1, THEN conjunct1]
  mempool_ok_def [THEN iffD1, THEN conjunct2, THEN conjunct1]
  mempool_ok_def [THEN iffD1, THEN conjunct2, THEN conjunct2, THEN conjunct1]
  mempool_ok_def [THEN iffD1, THEN conjunct2, THEN conjunct2, THEN conjunct2, THEN conjunct1]
  mempool_ok_def [THEN iffD1, THEN conjunct2, THEN conjunct2, THEN conjunct2, THEN conjunct2, THEN conjunct1]
  mempool_ok_def [THEN iffD1, THEN conjunct2, THEN conjunct2, THEN conjunct2, THEN conjunct2, THEN conjunct2,
    THEN conjunct1]
  mempool_ok_def [THEN iffD1, THEN conjunct2, THEN conjunct2, THEN conjunct2, THEN conjunct2, THEN conjunct2,
    THEN conjunct2]

lemma add_keeps_ok:
  assumes ok: "mempool_ok cr size_of ser mp"
  shows "add_transaction cr size_of tx mp = (b, mp') \<Longrightarrow> mempool_ok cr size_of ser mp'"
    and "add_name_op cr nop mp = (b, mp') \<Longrightarrow> mempool_ok cr size_of ser mp'"
    and "add_transfer_op xop mp = (b, mp') \<Longrightarrow> mempool_ok cr size_of ser mp'"
    and "add_mint_op cr mop mp = (b, mp') \<Longrightarrow> mempool_ok cr size_of ser mp'"
    and "add_transfer_asset_op aop mp = (b, mp') \<Longrightarrow> mempool_ok cr size_of ser mp'"
    and "add_launch_collection_op cr ser lop mp = (b, mp') \<Longrightarrow> mempool_ok cr size_of ser mp'"
    and "add_validator_op cr vop mp = (b, mp') \<Longrightarrow> mempool_ok cr size_of ser mp'"
proof -
  show "mempool_ok cr size_of ser mp'" if a: "add_transaction cr size_of tx mp = (b, mp')"
    by (subst mempool_frames(1) [OF a])
      (rule mempool_ok_update(1) [OF ok tx_queue.add_ok [OF a mempool_okD(1) [OF ok]]])
  show "mempool_ok cr size_of ser mp'" if a: "add_name_op cr nop mp = (b, mp')"
    by (subst mempool_frames(3) [OF a])
      (rule mempool_ok_update(2) [OF ok name_queue.add_keeps [OF a mempool_okD(2) [OF ok]]])
  show "mempool_ok cr size_of ser mp'" if a: "add_transfer_op xop mp = (b, mp')"
    by (subst mempool_frames(5) [OF a])
      (rule mempool_ok_update(3) [OF ok transfer_queue.add_keeps [OF a mempool_okD(3) [OF ok]]])
  show "mempool_ok cr size_of ser mp'" if a: "add_mint_op cr mop mp = (b, mp')"
    by (subst mempool_frames(7) [OF a])
      (rule mempool_ok_update(4) [OF ok mint_queue.add_keeps [OF a mempool_okD(4) [OF ok]]])
  show "mempool_ok cr size_of ser mp'" if a: "add_transfer_asset_op aop mp = (b, mp')"
    by (subst mempool_frames(9) [OF a])
      (rule mempool_ok_update(5) [OF ok transfer_asset_queue.add_keeps [OF a mempool_okD(5) [OF ok]]])
  show "mempool_ok cr size_of ser mp'" if a: "add_launch_collection_op cr ser lop mp = (b, mp')"
    by (subst mempool_frames(11) [OF a])
      (rule mempool_ok_update(6) [OF ok launch_queue.add_keeps [OF a mempool_okD(6) [OF ok]]])
  show "mempool_ok cr size_of ser mp'" if a: "add_validator_op cr vop mp = (b, mp')"
    by (subst mempool_frames(13) [OF a])
      (rule mempool_ok_update(7) [OF ok validator_queue.add_keeps [OF a mempool_okD(7) [OF ok]]])
qed

lemma take_keeps_ok:
  assumes ok: "mempool_ok cr size_of ser mp"
  shows "take_txs mp = (txs, mp') \<Longrightarrow> mempool_ok cr size_of ser mp'"
    and "take_name_ops mp = (nops, mp') \<Longrightarrow> mempool_ok cr size_of ser mp'"
    and "take_transfer_ops mp = (xops, mp') \<Longrightarrow> mempool_ok cr size_of ser mp'"
    and "take_mint_ops mp = (mops, mp') \<Longrightarrow> mempool_ok cr size_of ser mp'"
    and "take_transfer_asset_ops mp = (aops, mp') \<Longrightarrow> mempool_ok cr size_of ser mp'"
    and "take_launch_collection_ops mp = (lops, mp') \<Longrightarrow> mempool_ok cr size_of ser mp'"
    and "take_validator_ops mp = (vops, mp') \<Longrightarrow> mempool_ok cr size_of ser mp'"
proof -
  show "mempool_ok cr size_of ser mp'" if a: "take_txs mp = (txs, mp')"
    by (subst mempool_frames(2) [OF a])
      (rule mempool_ok_update(1) [OF ok tx_queue.take_ok(1) [OF a mempool_okD(1) [OF ok]]])
  show "mempool_ok cr size_of ser mp'" if a: "take_name_ops mp = (nops, mp')"
    by (subst mempool_frames(4) [OF a])
      (rule mempool_ok_update(2) [OF ok name_queue.take_keeps [OF a mempool_okD(2) [OF ok]]])
  show "mempool_ok cr size_of ser mp'" if a: "take_transfer_ops mp = (xops, mp')"
    by (subst mempool_frames(6) [OF a])
      (rule mempool_ok_update(3) [OF ok transfer_queue.take_keeps [OF a mempool_okD(3) [OF ok]]])
  show "mempool_ok cr size_of ser mp'" if a: "take_mint_ops mp = (mops, mp')"
    by (subst mempool_frames(8) [OF a])
      (rule mempool_ok_update(4) [OF ok mint_queue.take_keeps [OF a mempool_okD(4) [OF ok]]])
  show "mempool_ok cr size_of ser mp'" if a: "take_transfer_asset_ops mp = (aops, mp')"
    by (subst mempool_frames(10) [OF a])
      (rule mempool_ok_update(5) [OF ok transfer_asset_queue.take_keeps [OF a mempool_okD(5) [OF ok]]])
  show "mempool_ok cr size_of ser mp'" if a: "take_launch_collection_ops mp = (lops, mp')"
    by (subst mempool_frames(12) [OF a])
      (rule mempool_ok_update(6) [OF ok launch_queue.take_keeps [OF a mempool_okD(6) [OF ok]]])
  show "mempool_ok cr size_of ser mp'" if a: "take_validator_ops mp = (vops, mp')"
    by (subst mempool_frames(14) [OF a])
      (rule mempool_ok_update(7) [OF ok validator_queue.take_keeps [OF a mempool_okD(7) [OF ok]]])
qed

lemma clear_keeps_ok:
  assumes ok: "mempool_ok cr size_of ser mp"
  shows "mempool_ok cr size_of ser (clear_spent block_tx mp)"
    and "mempool_ok cr size_of ser (clear_stale_name_ops names spent mp)"
    and "mempool_ok cr size_of ser (clear_stale_transfer_ops names mp)"
    and "mempool_ok cr size_of ser (clear_stale_mint_ops assets spent mp)"
    and "mempool_ok cr size_of ser (clear_stale_transfer_asset_ops assets mp)"
    and "mempool_ok cr size_of ser (clear_stale_launch_collection_ops ids mp)"
    and "mempool_ok cr size_of ser (clear_stale_validator_ops commitments mp)"
  unfolding clear_spent_def clear_stale_name_ops_def clear_stale_transfer_ops_def clear_stale_mint_ops_def
    clear_stale_transfer_asset_ops_def clear_stale_launch_collection_ops_def clear_stale_validator_ops_def Let_def
  by (intro mempool_ok_update [OF ok] queue_ok_filter keyed_ok_filter mempool_okD [OF ok])+

lemma aggregate_keeps_ok:
  assumes "aggregate mp = (body, mp')" and "mempool_ok cr size_of ser mp"
  shows "mempool_ok cr size_of ser mp'"
  using assms take_keeps_ok(1) [OF assms(2), of "fst (take_txs mp)" mp']
  by (auto simp: aggregate_def split_beta split: if_splits)

lemma mempool_step_ok:
  "mempool_step cr size_of ser mp mp' \<Longrightarrow> mempool_ok cr size_of ser mp \<Longrightarrow> mempool_ok cr size_of ser mp'"
  by (induction rule: mempool_step.induct)
    (use add_keeps_ok take_keeps_ok clear_keeps_ok aggregate_keeps_ok in metis)+

text \<open>C20. Whatever arrives and in whatever order, the mempool keeps its bounds: no queue exceeds its cap, every
  transaction is valid and pays for its size, every operation that can be checked alone is valid,
  and no two operations of a queue compete for one key.\<close>

theorem mempool_reachable_ok:
  assumes "(mempool_step cr size_of ser)\<^sup>*\<^sup>* mempool_new mp"
  shows "mempool_ok cr size_of ser mp"
  using assms
proof (induction rule: rtranclp_induct)
  case base
  show ?case by (simp add: mempool_ok_def mempool_new_def queue_ok_def keyed_ok_def)
next
  case (step mp mp')
  then show ?case using mempool_step_ok by blast
qed

theorem mempool_reachable_ok_witness:
  "mempool_ok w_crypto (\<lambda>_. Some 952) (\<lambda>_. [])
     (snd (add_transaction w_crypto (\<lambda>_. Some 952) (w_tx [(100, 7)] [(95, 5)] 2 5) mempool_new)) \<and>
   fst (add_transaction w_crypto (\<lambda>_. Some 952) (w_tx [(100, 7)] [(95, 5)] 2 5) mempool_new)"
proof
  let ?add = "add_transaction w_crypto (\<lambda>_. Some 952) (w_tx [(100, 7)] [(95, 5)] 2 5) mempool_new"
  show "mempool_ok w_crypto (\<lambda>_. Some 952) (\<lambda>_. []) (snd ?add)"
  proof (rule mempool_reachable_ok)
    have "mempool_step w_crypto (\<lambda>_. Some 952) (\<lambda>_. []) mempool_new (snd ?add)"
      by (rule mempool_step.intros(1) [of _ _ _ _ "fst ?add"]) simp
    then show "(mempool_step w_crypto (\<lambda>_. Some 952) (\<lambda>_. []))\<^sup>*\<^sup>* mempool_new (snd ?add)" by (rule r_into_rtranclp)
  qed
  show "fst ?add"
    by (simp add: add_transaction_def mempool_new_def MAX_PENDING_TXS_def MAX_TXS_PER_BLOCK_def w_tx_def
        validate_def validate_with_reward_def kernel_ok_def sum_points_def zero_wpoint_def required_fee_def
        tx_fee_def div_ceil_def FEE_PER_KB_def MIN_FEE_def)
qed


section \<open>What a block takes\<close>

lemma sort_by_fee_best:
  assumes "sort_by_fee fee_of q = xs @ ys" and "x \<in> set xs" and "y \<in> set ys"
  shows "fee_of y \<le> fee_of x"
proof -
  have "sorted (map (\<lambda>x. - uint (fee_of x)) (xs @ ys))"
    unfolding assms(1) [symmetric] sort_by_fee_def by (rule sorted_sort_key)
  with assms(2,3) have "- uint (fee_of x) \<le> - uint (fee_of y)" by (auto simp: sorted_append)
  then show ?thesis by (simp add: word_le_def)
qed

lemma aggregate_Some:
  assumes "aggregate mp = (Some body, mp')"
  obtains selected where "take_txs mp = (selected, mp')" "body = aggregate_and_cut_through selected"
    "sort_by_fee tx_fee (mp_txs mp) = selected @ mp_txs mp'"
  using assms drain_append [of MAX_TXS_PER_BLOCK "sort_by_fee tx_fee (mp_txs mp)"]
  by (auto simp: aggregate_def take_txs_def split_beta Let_def split: if_splits)

text \<open>The body of a block: the aggregate takes the best-paying transactions (at most a block's worth,
  fewer only when there are no more, nothing lost and nothing left behind that pays more than what
  was taken) and is their cut-through, which is a valid transaction whenever the fees of the batch
  fit in 64 bits.\<close>

theorem aggregate_takes_best:
  assumes "module_laws cr" and "mempool_ok cr size_of ser mp" and "aggregate mp = (Some body, mp')"
  shows "\<exists>selected. mset (mp_txs mp) = mset selected + mset (mp_txs mp') \<and>
      length selected = min (length (mp_txs mp)) MAX_TXS_PER_BLOCK \<and>
      (\<forall>tx \<in> set selected. \<forall>left \<in> set (mp_txs mp'). tx_fee left \<le> tx_fee tx) \<and>
      body = aggregate_and_cut_through selected \<and>
      ((\<Sum>tx \<leftarrow> selected. \<Sum>k \<leftarrow> tx_kernels tx. unat (fee k)) < 2 ^ 64 \<longrightarrow> validate cr body)"
proof -
  obtain selected where sel: "take_txs mp = (selected, mp')" "body = aggregate_and_cut_through selected"
      "sort_by_fee tx_fee (mp_txs mp) = selected @ mp_txs mp'"
    by (rule aggregate_Some [OF assms(3)])
  have "list_all (validate cr) selected"
    using tx_queue.take_ok(2) [OF sel(1) mempool_okD(1) [OF assms(2)]] by (simp add: list_all_iff)
  with sel aggregate_validates [OF assms(1)] show ?thesis
    by (intro exI [of _ selected])
      (use tx_queue.take_split [OF sel(1)] in \<open>auto dest: sort_by_fee_best [OF sel(3)]\<close>)
qed

theorem aggregate_takes_best_witness:
  "\<exists>body. fst (aggregate (mempool_new\<lparr>mp_txs := [w_tx [(100, 7)] [(95, 5)] 2 5]\<rparr>)) = Some body \<and>
     validate w_crypto body"
proof -
  let ?tx = "w_tx [(100, 7)] [(95, 5)] 2 5"
  let ?mp = "mempool_new\<lparr>mp_txs := [?tx]\<rparr>"
  have valid: "validate w_crypto ?tx"
    by (simp add: w_tx_def validate_def validate_with_reward_def kernel_ok_def sum_points_def zero_wpoint_def)
  have fee: "required_fee (\<lambda>_. Some 952) ?tx \<le> tx_fee ?tx"
    by (simp add: w_tx_def required_fee_def tx_fee_def div_ceil_def FEE_PER_KB_def MIN_FEE_def)
  have ok: "mempool_ok w_crypto (\<lambda>_. Some 952) (\<lambda>_. []) ?mp"
    using valid fee by (simp add: mempool_ok_def mempool_new_def queue_ok_def keyed_ok_def
        MAX_PENDING_TXS_def MAX_TXS_PER_BLOCK_def)
  have agg: "aggregate ?mp = (Some (aggregate_and_cut_through [?tx]), ?mp\<lparr>mp_txs := []\<rparr>)"
    by (simp add: aggregate_def take_txs_def drain_front_def sort_by_fee_def MAX_TXS_PER_BLOCK_def mempool_new_def)
  obtain selected where "mset [?tx] = mset selected"
      "(\<Sum>tx \<leftarrow> selected. \<Sum>k \<leftarrow> tx_kernels tx. unat (fee k)) < 2 ^ 64 \<longrightarrow>
        validate w_crypto (aggregate_and_cut_through [?tx])"
    using aggregate_takes_best [OF w_module_laws ok agg] by auto
  then have "validate w_crypto (aggregate_and_cut_through [?tx])" by (auto simp: w_tx_def)
  with agg show ?thesis by simp
qed

end
