(* ===== verification/Proposer.thy ===== *)
theory Proposer
  imports Mempool Chain_Reorg
begin

text \<open>
  The staking proposer of \<open>core/src/proposer.rs\<close>: one round of its loop, from finding the node's own
  stake over the fallback timing and the soft filters on the pending operations to the signed block
  and its local application. The clock, the nonces of the three signatures and of the sealed note
  are arguments; a round reads the chain once (the source takes its lock several times). The locale
  \<open>proposal_filter\<close> states what a filter owes to the consensus check it anticipates; its
  interpretations on the six filters carry the proof that an honest proposal is accepted.
\<close>

section \<open>Whose turn it is\<close>

text \<open>In milliseconds.\<close>

definition FALLBACK_ROUND_TIMEOUT :: nat where "FALLBACK_ROUND_TIMEOUT = 4000"

definition own_stake ::
    "('p::ab_group_add, 's::comm_ring_1) crypto \<Rightarrow> ('p, 's) env \<Rightarrow> 's \<Rightarrow> 's \<Rightarrow> ('p, 's) validator list \<Rightarrow>
       ('p, 's) validator option" where
  "own_stake cr en private_key k active_validators =
     (let r_point = smul cr private_key (gen_B_blinding cr) in
      case find (\<lambda>v. as_point (v_commitment v) - smul cr (scalar_of_u64 (v_value v)) (gen_B cr) = r_point)
             active_validators of
        Some v \<Rightarrow> Some v
      | None \<Rightarrow>
          if active_validators = [] \<and> private_key = en_blinding en
          then let c = commitment_new cr 1000000 private_key
               in Some \<lparr>v_commitment = c, v_value = 1000000,
                    v_proof = sign cr k (stake_registration_message cr c 1000000) private_key\<rparr>
          else None)"

text \<open>Since when the node waits for this height, and the new value of \<open>stalled_since\<close>.\<close>

definition stalled_for :: "u64 \<Rightarrow> nat \<Rightarrow> (u64 \<times> nat) option \<Rightarrow> nat \<times> (u64 \<times> nat) option" where
  "stalled_for next_height clock stalled_since =
     (case stalled_since of
        Some (h, since) \<Rightarrow>
          if h = next_height then (clock - since, stalled_since) else (0, Some (next_height, clock))
      | None \<Rightarrow> (0, Some (next_height, clock)))"

definition is_eligible :: "nat option \<Rightarrow> nat \<Rightarrow> bool" where
  "is_eligible my_rank waited =
     (case my_rank of
        None \<Rightarrow> False
      | Some 0 \<Rightarrow> True
      | Some rank \<Rightarrow> FALLBACK_ROUND_TIMEOUT * rank \<le> waited)"


section \<open>The filters\<close>

definition inputs_free :: "'p commitment set \<Rightarrow> 'p commitment set \<Rightarrow> 'p tx_input list \<Rightarrow> bool" where
  "inputs_free utxos spent inputs =
     list_all (\<lambda>i. in_commitment i \<in> utxos \<and> in_commitment i \<notin> spent) inputs"

record ('p, 's) name_pick =
  np_spent :: "'p commitment set"
  np_registry :: "(string, 'p name_record) mapping"
  np_ops :: "('p, 's) register_name_op list"

definition pick_name_op ::
    "('p, 's) chain_state \<Rightarrow> u64 \<Rightarrow> ('p, 's) register_name_op \<Rightarrow> ('p, 's) name_pick \<Rightarrow> ('p, 's) name_pick" where
  "pick_name_op st height op acc =
     (if \<not> inputs_free (cs_utxos st) (np_spent acc) (tx_inputs (rn_fee_payment op)) \<or>
         contains_key (np_registry acc) (rn_name op) then acc
      else acc\<lparr>np_spent := np_spent acc \<union> in_commitment ` set (tx_inputs (rn_fee_payment op)),
        np_registry := Mapping.update (rn_name op) (registered_name height op) (np_registry acc),
        np_ops := np_ops acc @ [op]\<rparr>)"

record ('p, 's) transfer_pick =
  tp_touched :: "string set"
  tp_registry :: "(string, 'p name_record) mapping"
  tp_ops :: "('p, 's) transfer_name_op list"

definition pick_transfer_op ::
    "('p::ab_group_add, 's::comm_ring_1) crypto \<Rightarrow> ('p, 's) chain_state \<Rightarrow> ('p, 's) transfer_name_op \<Rightarrow>
       ('p, 's) transfer_pick \<Rightarrow> ('p, 's) transfer_pick" where
  "pick_transfer_op cr st op acc =
     (if tn_name op \<in> tp_touched acc then acc
      else case Mapping.lookup (cs_name_registry st) (tn_name op) of
        None \<Rightarrow> acc
      | Some current \<Rightarrow>
          if \<not> verify cr (tn_signature op)
               (transfer_name_message cr (tn_name op) (tn_new_owner_pubkey op) (tn_new_resolves_to op))
               (nr_owner_pubkey current) then acc
          else acc\<lparr>tp_touched := insert (tn_name op) (tp_touched acc),
            tp_registry := Mapping.update (tn_name op) (transferred_name op current) (tp_registry acc),
            tp_ops := tp_ops acc @ [op]\<rparr>)"

record ('p, 's) launch_pick =
  lp_registry :: "(string, 'p collection_record) mapping"
  lp_ops :: "('p, 's) launch_collection_op list"

definition pick_launch_op ::
    "('p::ab_group_add, 's::comm_ring_1) crypto \<Rightarrow> ('p, 's) env \<Rightarrow> u64 \<Rightarrow> ('p, 's) launch_collection_op \<Rightarrow>
       ('p, 's) launch_pick \<Rightarrow> ('p, 's) launch_pick" where
  "pick_launch_op cr en height op acc =
     (if launch_collection_validate_standalone cr (ser_phases (en_codec en)) op \<noteq> Inr () \<or>
         contains_key (lp_registry acc) (lc_collection_id op) then acc
      else acc\<lparr>lp_registry :=
          Mapping.update (lc_collection_id op) (launched_collection height op) (lp_registry acc),
        lp_ops := lp_ops acc @ [op]\<rparr>)"

text \<open>The drop rules, as the proposer checks them; \<open>None\<close> is \<open>continue\<close>.\<close>

definition pick_collection_mint ::
    "('p::ab_group_add, 's::comm_ring_1) crypto \<Rightarrow> ('p, 's) chain_state \<Rightarrow>
       (string, 'p collection_record) mapping \<Rightarrow> 'p commitment set \<Rightarrow> u64 \<Rightarrow> ('p, 's) mint_asset_op \<Rightarrow>
       string \<Rightarrow> u32 \<Rightarrow> (mint_key, u32) mapping \<Rightarrow> (mint_key, u32) mapping option" where
  "pick_collection_mint cr st collections body_excesses now op collection_id phase_index counts = do {
     collection \<leftarrow> Mapping.lookup collections collection_id;
     phase \<leftarrow> nth_option (cl_phases collection) (unat phase_index);
     check (\<not> (now < ph_start_time phase \<or> ph_end_time phase \<le> now));
     check (on_allowlist cr op phase);
     let count_key = mint_count_key cr collection_id phase_index op;
     let current_count = (case Mapping.lookup counts count_key of None \<Rightarrow> 0 | Some n \<Rightarrow> n);
     check (\<not> ph_per_wallet_limit phase \<le> current_count);
     required_excess \<leftarrow> ma_required_kernel_excess op;
     check (kernel_known st body_excesses required_excess);
     creator_sig \<leftarrow> ma_creator_signature op;
     check (verify cr creator_sig
       (collection_approval_message cr (ma_asset_id op) collection_id phase_index required_excess
          (ma_owner_pubkey op)) (cl_creator_pubkey collection));
     Some (Mapping.update count_key (current_count + 1) counts)
   }"

record ('p, 's) mint_pick =
  mi_spent :: "'p commitment set"
  mi_registry :: "(string, 'p asset_record) mapping"
  mi_counts :: "(mint_key, u32) mapping"
  mi_ops :: "('p, 's) mint_asset_op list"

definition pick_mint_op ::
    "('p::ab_group_add, 's::comm_ring_1) crypto \<Rightarrow> ('p, 's) chain_state \<Rightarrow>
       (string, 'p collection_record) mapping \<Rightarrow> 'p commitment set \<Rightarrow> u64 \<Rightarrow> u64 \<Rightarrow>
       ('p, 's) mint_asset_op \<Rightarrow> ('p, 's) mint_pick \<Rightarrow> ('p, 's) mint_pick" where
  "pick_mint_op cr st collections body_excesses now height op acc =
     (if \<not> inputs_free (cs_utxos st) (mi_spent acc) (tx_inputs (ma_fee_payment op)) \<or>
         contains_key (mi_registry acc) (ma_asset_id op) then acc
      else case (case (ma_collection_id op, ma_phase_index op) of
          (Some collection_id, Some phase_index) \<Rightarrow>
            pick_collection_mint cr st collections body_excesses now op collection_id phase_index (mi_counts acc)
        | _ \<Rightarrow> Some (mi_counts acc)) of
        None \<Rightarrow> acc
      | Some counts \<Rightarrow>
          acc\<lparr>mi_spent := mi_spent acc \<union> in_commitment ` set (tx_inputs (ma_fee_payment op)),
            mi_registry := Mapping.update (ma_asset_id op) (minted_asset height op) (mi_registry acc),
            mi_counts := counts, mi_ops := mi_ops acc @ [op]\<rparr>)"

record ('p, 's) asset_pick =
  ap_touched :: "string set"
  ap_registry :: "(string, 'p asset_record) mapping"
  ap_ops :: "('p, 's) transfer_asset_op list"

text \<open>The royalty is looked up in the snapshot that already holds this block's launches.\<close>

definition pick_royalty_ok ::
    "('p, 's) chain_state \<Rightarrow> (string, 'p collection_record) mapping \<Rightarrow> 'p commitment set \<Rightarrow>
       ('p, 's) transfer_asset_op \<Rightarrow> 'p asset_record \<Rightarrow> bool" where
  "pick_royalty_ok st collections excesses op current \<longleftrightarrow>
     (if ta_required_kernel_excess op = None then True
      else case ar_collection_id current of None \<Rightarrow> True
      | Some collection_id \<Rightarrow>
         (case Mapping.lookup collections collection_id of None \<Rightarrow> True
          | Some collection \<Rightarrow>
              if 0 < cl_royalty_bps collection
              then (case ta_required_royalty_kernel_excess op of None \<Rightarrow> False
                    | Some required_royalty \<Rightarrow> kernel_known st excesses required_royalty)
              else True))"

definition pick_transfer_asset_op ::
    "('p::ab_group_add, 's::comm_ring_1) crypto \<Rightarrow> ('p, 's) chain_state \<Rightarrow>
       (string, 'p collection_record) mapping \<Rightarrow> 'p commitment set \<Rightarrow> ('p, 's) transfer_asset_op \<Rightarrow>
       ('p, 's) asset_pick \<Rightarrow> ('p, 's) asset_pick" where
  "pick_transfer_asset_op cr st collections excesses op acc =
     (if ta_asset_id op \<in> ap_touched acc then acc
      else case Mapping.lookup (cs_asset_registry st) (ta_asset_id op) of
        None \<Rightarrow> acc
      | Some current \<Rightarrow>
          if \<not> verify cr (ta_signature op)
               (transfer_asset_message cr (ta_asset_id op) (ta_new_owner_pubkey op)
                  (ta_required_kernel_excess op) (ta_required_royalty_kernel_excess op))
               (ar_owner_pubkey current) then acc
          else if \<not> (case ta_required_kernel_excess op of None \<Rightarrow> True
               | Some required_excess \<Rightarrow> kernel_known st excesses required_excess) then acc
          else if \<not> pick_royalty_ok st collections excesses op current then acc
          else acc\<lparr>ap_touched := insert (ta_asset_id op) (ap_touched acc),
            ap_registry := Mapping.update (ta_asset_id op) (transferred_asset op current) (ap_registry acc),
            ap_ops := ap_ops acc @ [op]\<rparr>)"

record ('p, 's) validator_pick =
  vp_validators :: "('p, 's) validator list"
  vp_ops :: "('p, 's) register_validator_op list"

definition pick_validator_op ::
    "('p::ab_group_add, 's::comm_ring_1) crypto \<Rightarrow> ('p, 's) chain_state \<Rightarrow> ('p, 's) register_validator_op \<Rightarrow>
       ('p, 's) validator_pick \<Rightarrow> ('p, 's) validator_pick" where
  "pick_validator_op cr st op acc =
     (case try_register_validator cr (vp_validators acc) (cs_utxos st)
             (rv_commitment op) (rv_value op) (rv_proof op) of
        None \<Rightarrow> acc
      | Some vs \<Rightarrow> acc\<lparr>vp_validators := vs, vp_ops := vp_ops acc @ [op]\<rparr>)"


section \<open>The block\<close>

text \<open>What a round reads besides the chain and the mempool: the wall clock and fresh randomness.\<close>

record 's round_input =
  ri_clock :: nat
  ri_now :: u64
  ri_stake_nonce :: 's
  ri_coinbase_nonce :: 's
  ri_header_nonce :: 's
  ri_seal_nonce :: "byte list"

definition coinbase_output ::
    "('p::ab_group_add, 's::comm_ring_1) crypto \<Rightarrow> 's \<Rightarrow> byte list \<Rightarrow> u64 \<Rightarrow> u64 \<Rightarrow> 'p tx_output" where
  "coinbase_output cr private_key seal_nonce height coinbase_value =
     (let r_coinbase = coinbase_blinding cr private_key height
      in \<lparr>out_commitment = commitment_new cr coinbase_value r_coinbase,
           out_proof = range_prove cr coinbase_value r_coinbase,
           out_note = seal cr seal_nonce (coinbase_note_key cr private_key) (ucast height) coinbase_value\<rparr>)"

definition coinbase_kernel ::
    "('p::ab_group_add, 's::comm_ring_1) crypto \<Rightarrow> 's \<Rightarrow> 's \<Rightarrow> u64 \<Rightarrow> ('p, 's) tx_kernel" where
  "coinbase_kernel cr private_key k height =
     (let coinbase_excess_r = 0 - coinbase_blinding cr private_key height
      in \<lparr>excess = commitment_new cr 0 coinbase_excess_r, fee = 0,
           kernel_sig = sign cr k (u64_le 0) coinbase_excess_r\<rparr>)"

definition empty_tx :: "('p, 's) transaction" where
  "empty_tx = \<lparr>tx_inputs = [], tx_outputs = [], tx_kernels = []\<rparr>"

definition sign_header ::
    "('p::ab_group_add, 's::comm_ring_1) crypto \<Rightarrow> 's \<Rightarrow> 's \<Rightarrow> ('p, 's) block_header \<Rightarrow> ('p, 's) block_header" where
  "sign_header cr k private_key h =
     h\<lparr>bh_validator_signature := sign cr k (header_hash cr h) private_key\<rparr>"

text \<open>The operations that made it into the block, and the registries they lead to.\<close>

record ('p, 's) picked =
  pk_names :: "('p, 's) name_pick"
  pk_transfers :: "('p, 's) transfer_pick"
  pk_launches :: "('p, 's) launch_pick"
  pk_mints :: "('p, 's) mint_pick"
  pk_assets :: "('p, 's) asset_pick"
  pk_validators :: "('p, 's) validator_pick"

definition excesses_of :: "('p, 's) transaction list \<Rightarrow> 'p commitment set" where
  "excesses_of txs = excess ` set (concat (map tx_kernels txs))"

definition pick_ops ::
    "('p::ab_group_add, 's::comm_ring_1) crypto \<Rightarrow> ('p, 's) env \<Rightarrow> ('p, 's) chain_state \<Rightarrow> u64 \<Rightarrow> u64 \<Rightarrow>
       ('p, 's) transaction \<Rightarrow> ('p, 's) mempool \<Rightarrow> ('p, 's) picked \<times> ('p, 's) mempool" where
  "pick_ops cr en st height now tx mp =
     (let (candidate_name_ops, mp) = take_name_ops mp;
          names = fold (pick_name_op st height) candidate_name_ops
            \<lparr>np_spent = in_commitment ` set (tx_inputs tx), np_registry = cs_name_registry st, np_ops = []\<rparr>;
          (candidate_transfer_ops, mp) = take_transfer_ops mp;
          transfers = fold (pick_transfer_op cr st) candidate_transfer_ops
            \<lparr>tp_touched = rn_name ` set (np_ops names), tp_registry = np_registry names, tp_ops = []\<rparr>;
          (candidate_launch_ops, mp) = take_launch_collection_ops mp;
          launches = fold (pick_launch_op cr en height) candidate_launch_ops
            \<lparr>lp_registry = cs_collection_registry st, lp_ops = []\<rparr>;
          (candidate_mint_ops, mp) = take_mint_ops mp;
          mints = fold (pick_mint_op cr st (lp_registry launches) (excesses_of [tx]) now height) candidate_mint_ops
            \<lparr>mi_spent = np_spent names, mi_registry = cs_asset_registry st,
              mi_counts = cs_collection_mint_counts st, mi_ops = []\<rparr>;
          (candidate_transfer_asset_ops, mp) = take_transfer_asset_ops mp;
          candidate_kernel_excesses = excesses_of
            (tx # map ma_fee_payment (mi_ops mints) @ map rn_fee_payment (np_ops names));
          assets = fold (pick_transfer_asset_op cr st (lp_registry launches) candidate_kernel_excesses)
            candidate_transfer_asset_ops
            \<lparr>ap_touched = ma_asset_id ` set (mi_ops mints), ap_registry = mi_registry mints, ap_ops = []\<rparr>;
          (candidate_validator_ops, mp) = take_validator_ops mp;
          validators = fold (pick_validator_op cr st) candidate_validator_ops
            \<lparr>vp_validators = cs_active_validators st, vp_ops = []\<rparr>
      in (\<lparr>pk_names = names, pk_transfers = transfers, pk_launches = launches, pk_mints = mints,
            pk_assets = assets, pk_validators = validators\<rparr>, mp))"

definition assemble_block ::
    "('p::ab_group_add, 's::comm_ring_1) crypto \<Rightarrow> ('p, 's) env \<Rightarrow> ('p, 's) chain_state \<Rightarrow> 's \<Rightarrow>
       ('p, 's) validator \<Rightarrow> 's round_input \<Rightarrow> ('p, 's) transaction \<Rightarrow> ('p, 's) picked \<Rightarrow> ('p, 's) block" where
  "assemble_block cr en st private_key v ri tx pk =
     (let next_height = cs_current_height st + 1;
          total_fees = sum_list (map fee (tx_kernels tx));
          coinbase_value = block_reward_at next_height + total_fees;
          tx = tx\<lparr>tx_outputs := tx_outputs tx @
                   [coinbase_output cr private_key (ri_seal_nonce ri) next_height coinbase_value],
                 tx_kernels := tx_kernels tx @
                   [coinbase_kernel cr private_key (ri_coinbase_nonce ri) next_height]\<rparr>;
          header = \<lparr>bh_height = next_height, bh_prev_hash = cs_last_block_hash st,
            bh_total_kernel_offset = 0, bh_nonce = 0, bh_timestamp = ri_now ri,
            bh_validator_commitment = v_commitment v, bh_validator_signature = \<lparr>sig_s = 0, sig_e = 0\<rparr>,
            bh_name_registry_root =
              compute_registry_root cr (ser_name (en_codec en)) (tp_registry (pk_transfers pk)),
            bh_chain_id = CHAIN_ID,
            bh_asset_registry_root =
              compute_asset_registry_root cr (ser_asset (en_codec en)) (ap_registry (pk_assets pk)),
            bh_collection_registry_root =
              compute_collection_registry_root cr (ser_collection (en_codec en)) (lp_registry (pk_launches pk))\<rparr>
      in \<lparr>b_header = sign_header cr (ri_header_nonce ri) private_key header, b_body = tx,
           b_name_ops = np_ops (pk_names pk), b_transfer_ops = tp_ops (pk_transfers pk),
           b_mint_ops = mi_ops (pk_mints pk), b_transfer_asset_ops = ap_ops (pk_assets pk),
           b_launch_collection_ops = lp_ops (pk_launches pk), b_validator_ops = vp_ops (pk_validators pk)\<rparr>)"

text \<open>The body before the coinbase, \<open>tx_bundle\<close>.\<close>

definition tx_bundle :: "('p, 's) mempool \<Rightarrow> ('p, 's) transaction" where
  "tx_bundle mp = (case fst (aggregate mp) of None \<Rightarrow> empty_tx | Some tx \<Rightarrow> tx)"

definition propose_block ::
    "('p::ab_group_add, 's::comm_ring_1) crypto \<Rightarrow> ('p, 's) env \<Rightarrow> ('p, 's) chain_state \<Rightarrow> 's \<Rightarrow>
       ('p, 's) validator \<Rightarrow> 's round_input \<Rightarrow> ('p, 's) mempool \<Rightarrow> ('p, 's) block \<times> ('p, 's) mempool" where
  "propose_block cr en st private_key v ri mp =
     (let tx = tx_bundle mp;
          (pk, mp) = pick_ops cr en st (cs_current_height st + 1) (ri_now ri) tx (snd (aggregate mp))
      in (assemble_block cr en st private_key v ri tx pk, mp))"

record ('p, 's) node =
  nd_mempool :: "('p, 's) mempool"
  nd_chain :: "('p, 's) chain_state"
  nd_stalled_since :: "(u64 \<times> nat) option"

text \<open>One pass of the loop. The second component is the delta the node persists and the block it
  broadcasts, when the proposal was applied.\<close>

definition proposer_round ::
    "('p::ab_group_add, 's::comm_ring_1) crypto \<Rightarrow> ('p, 's) env \<Rightarrow> 's \<Rightarrow> 's round_input \<Rightarrow> ('p, 's) node \<Rightarrow>
       (('p, 's) node \<times> (('p, 's) applied_delta \<times> ('p, 's) block) option) outcome option" where
  "proposer_round cr en private_key ri nd =
     (let st = nd_chain nd; next_height = cs_current_height st + 1 in
      case own_stake cr en private_key (ri_stake_nonce ri) (cs_active_validators st) of
        None \<Rightarrow> Some (Ret (nd, None))
      | Some v \<Rightarrow>
          let (waited, stalled) = stalled_for next_height (ri_clock ri) (nd_stalled_since nd);
              nd = nd\<lparr>nd_stalled_since := stalled\<rparr> in
          case proposer_priority_order cr (en_blinding en) (cs_active_validators st) next_height
                 (cs_last_block_hash st) of
            Panic \<Rightarrow> Some Panic
          | Ret order \<Rightarrow>
              if \<not> is_eligible (position (\<lambda>c. c = v_commitment v) order) waited then Some (Ret (nd, None))
              else
                let (b, mp) = propose_block cr en st private_key v ri (nd_mempool nd);
                    nd = nd\<lparr>nd_mempool := mp\<rparr> in
                map_option (\<lambda>r. bind_outcome r (\<lambda>(st', result).
                    Ret (nd\<lparr>nd_chain := st'\<rparr>,
                      case result of Linear delta \<Rightarrow> Some (delta, b) | _ \<Rightarrow> None)))
                  (apply_block cr en b st))"


section \<open>The contract of a filter\<close>

text \<open>A filter keeps an operation only if the consensus check, run on what was kept before, accepts it.\<close>

locale proposal_filter =
  fixes pick :: "'op \<Rightarrow> 'acc \<Rightarrow> 'acc" and kept :: "'acc \<Rightarrow> 'op list"
    and check_op :: "'op \<Rightarrow> 'c \<Rightarrow> 'c option" and agrees :: "'acc \<Rightarrow> 'c \<Rightarrow> bool" and good :: "'op \<Rightarrow> bool"
  assumes pick: "agrees acc c \<Longrightarrow> good op \<Longrightarrow>
      pick op acc = acc \<or>
      (\<exists>c'. kept (pick op acc) = kept acc @ [op] \<and> check_op op c = Some c' \<and> agrees (pick op acc) c')"
begin

lemma kept_accepted:
  assumes "fold_option check_op (kept acc) c0 = Some c" and "agrees acc c" and "\<forall>op \<in> set ops. good op"
  shows "\<exists>c'. fold_option check_op (kept (fold pick ops acc)) c0 = Some c' \<and> agrees (fold pick ops acc) c'"
  using assms
proof (induction ops arbitrary: acc c)
  case (Cons op ops)
  from Cons.prems(3) have good: "good op" "\<forall>op \<in> set ops. good op" by auto
  from pick [OF Cons.prems(2) good(1)] show ?case
  proof
    assume "pick op acc = acc"
    with Cons.IH [OF Cons.prems(1,2) good(2)] show ?case by simp
  next
    assume "\<exists>c'. kept (pick op acc) = kept acc @ [op] \<and> check_op op c = Some c' \<and> agrees (pick op acc) c'"
    then obtain c' where "kept (pick op acc) = kept acc @ [op]" "check_op op c = Some c'"
        and agr: "agrees (pick op acc) c'" by blast
    with Cons.prems(1) have "fold_option check_op (kept (pick op acc)) c0 = Some c'"
      by (simp add: fold_option_append)
    from Cons.IH [OF this agr good(2)] show ?case by simp
  qed
qed auto

end

lemma claim_inputs_free:
  "inputs_free utxos spent inputs \<Longrightarrow> distinct (map in_commitment inputs) \<Longrightarrow>
     claim_inputs utxos inputs spent = Some (spent \<union> in_commitment ` set inputs)"
  unfolding claim_inputs_Some by (auto simp: inputs_free_def list_all_iff)

text \<open>The snapshot a filter works on: the chain's registry plus the keys taken in this block.\<close>

definition covers :: "(string, 'v) mapping \<Rightarrow> string set \<Rightarrow> (string, 'v) mapping \<Rightarrow> bool" where
  "covers base taken snapshot \<longleftrightarrow>
     (\<forall>k. contains_key snapshot k \<longleftrightarrow> contains_key base k \<or> k \<in> taken) \<and>
     (\<forall>k. k \<notin> taken \<longrightarrow> Mapping.lookup snapshot k = Mapping.lookup base k)"

lemma covers_update:
  "covers base taken snapshot \<Longrightarrow> covers base (insert k taken) (Mapping.update k v snapshot)"
  unfolding covers_def by (auto simp: contains_key_def map_simps)

lemma covers_refl [simp]: "covers base {} base"
  by (simp add: covers_def)

lemma covers_fresh: "covers base taken snapshot \<Longrightarrow> \<not> contains_key snapshot k \<Longrightarrow>
    \<not> contains_key base k \<and> k \<notin> taken"
  unfolding covers_def by blast

definition name_op_good :: "('p::ab_group_add, 's::comm_ring_1) crypto \<Rightarrow> ('p, 's) register_name_op \<Rightarrow> bool" where
  "name_op_good cr op \<longleftrightarrow> register_name_validate_standalone cr op = Inr () \<and>
     distinct (map in_commitment (tx_inputs (rn_fee_payment op)))"

definition names_agree :: "('p, 's) chain_state \<Rightarrow> ('p, 's) name_pick \<Rightarrow> 'p name_acc \<Rightarrow> bool" where
  "names_agree st p c \<longleftrightarrow> na_spent c = np_spent p \<and> na_registry c = np_registry p \<and>
     na_names c = rn_name ` set (np_ops p) \<and> covers (cs_name_registry st) (na_names c) (np_registry p)"

interpretation name_filter: proposal_filter "pick_name_op st height" np_ops "name_op_step cr st height"
    "names_agree st" "name_op_good cr"
  for cr :: "('p::ab_group_add, 's::comm_ring_1) crypto" and st height
proof
  fix p :: "('p, 's) name_pick" and c :: "'p name_acc" and op
  assume agr: "names_agree st p c" and good: "name_op_good cr op"
  show "pick_name_op st height op p = p \<or> (\<exists>c'. np_ops (pick_name_op st height op p) = np_ops p @ [op] \<and>
      name_op_step cr st height op c = Some c' \<and> names_agree st (pick_name_op st height op p) c')"
  proof (cases "inputs_free (cs_utxos st) (np_spent p) (tx_inputs (rn_fee_payment op)) \<and>
      \<not> contains_key (np_registry p) (rn_name op)")
    case True
    then have "\<not> contains_key (cs_name_registry st) (rn_name op)" "rn_name op \<notin> na_names c"
      using agr covers_fresh unfolding names_agree_def by metis+
    with True agr good show ?thesis
      by (intro disjI2) (auto simp: pick_name_op_def name_op_step_def names_agree_def name_op_good_def
          claim_inputs_free intro: covers_update)
  qed (auto simp: pick_name_op_def)
qed

definition transfers_agree :: "('p, 's) transfer_pick \<Rightarrow> 'p name_acc \<Rightarrow> bool" where
  "transfers_agree p c \<longleftrightarrow> na_names c = tp_touched p \<and> na_registry c = tp_registry p"

interpretation transfer_filter: proposal_filter "pick_transfer_op cr st" tp_ops "transfer_op_step cr st"
    transfers_agree "\<lambda>_. True"
  for cr :: "('p::ab_group_add, 's::comm_ring_1) crypto" and st
  by unfold_locales
    (auto simp: pick_transfer_op_def transfer_op_step_def transfers_agree_def split: option.splits)

definition launches_agree :: "('p, 's) chain_state \<Rightarrow> ('p, 's) launch_pick \<Rightarrow> 'p launch_acc \<Rightarrow> bool" where
  "launches_agree st p c \<longleftrightarrow> la_registry c = lp_registry p \<and>
     covers (cs_collection_registry st) (la_collections c) (lp_registry p) \<and>
     (\<forall>k \<in> la_collections c. \<not> contains_key (cs_collection_registry st) k)"

interpretation launch_filter: proposal_filter "pick_launch_op cr en height" lp_ops "launch_op_step cr en st height"
    "launches_agree st" "\<lambda>_. True"
  for cr :: "('p::ab_group_add, 's::comm_ring_1) crypto" and en st height
proof
  fix p :: "('p, 's) launch_pick" and c :: "'p launch_acc" and op
  assume agr: "launches_agree st p c"
  show "pick_launch_op cr en height op p = p \<or> (\<exists>c'. lp_ops (pick_launch_op cr en height op p) = lp_ops p @ [op] \<and>
      launch_op_step cr en st height op c = Some c' \<and> launches_agree st (pick_launch_op cr en height op p) c')"
  proof (cases "launch_collection_validate_standalone cr (ser_phases (en_codec en)) op = Inr () \<and>
      \<not> contains_key (lp_registry p) (lc_collection_id op)")
    case True
    then have "\<not> contains_key (cs_collection_registry st) (lc_collection_id op)"
        "lc_collection_id op \<notin> la_collections c"
      using agr covers_fresh unfolding launches_agree_def by metis+
    with True agr show ?thesis
      by (simp add: pick_launch_op_def launch_op_step_def launches_agree_def covers_update)
  qed (auto simp: pick_launch_op_def)
qed

interpretation validator_filter: proposal_filter "pick_validator_op cr st" vp_ops
    "\<lambda>op vs. try_register_validator cr vs (cs_utxos st) (rv_commitment op) (rv_value op) (rv_proof op)"
    "\<lambda>p c. vp_validators p = c" "\<lambda>_. True"
  for cr :: "('p::ab_group_add, 's::comm_ring_1) crypto" and st
  by unfold_locales (auto simp: pick_validator_op_def split: option.splits)


text \<open>The conditions of a mint the filter does not look at: distinct fee inputs, and the payment of a mint
  outside a drop.\<close>

definition mint_op_good ::
    "('p::ab_group_add, 's::comm_ring_1) crypto \<Rightarrow> ('p, 's) chain_state \<Rightarrow> 'p commitment set \<Rightarrow>
       ('p, 's) mint_asset_op \<Rightarrow> bool" where
  "mint_op_good cr st body_excesses op \<longleftrightarrow> mint_asset_validate_standalone cr op = Inr () \<and>
     distinct (map in_commitment (tx_inputs (ma_fee_payment op))) \<and>
     (ma_collection_id op = None \<or> ma_phase_index op = None \<longrightarrow>
        (\<forall>c. ma_required_kernel_excess op = Some c \<longrightarrow> kernel_known st body_excesses c))"

definition mints_agree :: "('p, 's) chain_state \<Rightarrow> ('p, 's) mint_pick \<Rightarrow> 'p mint_acc \<Rightarrow> bool" where
  "mints_agree st p c \<longleftrightarrow> mc_spent c = mi_spent p \<and> mc_registry c = mi_registry p \<and>
     mc_counts c = mi_counts p \<and> mc_assets c = ma_asset_id ` set (mi_ops p) \<and>
     covers (cs_asset_registry st) (mc_assets c) (mi_registry p)"

lemma pick_collection_mint_Some:
  assumes "pick_collection_mint cr st collections body now op cid i (mc_counts c) = Some counts"
    and "body \<subseteq> excesses"
  obtains mints where "collection_mint_step cr collections now op cid i c = Some (c\<lparr>mc_counts := counts, mc_mints := mints\<rparr>)"
    "\<forall>x. ma_required_kernel_excess op = Some x \<longrightarrow> kernel_known st excesses x"
  using assms
  by (auto simp: pick_collection_mint_def collection_mint_step_def kernel_known_def step_simps split: if_splits)

lemma pick_mint_rules:
  assumes "(case (ma_collection_id op, ma_phase_index op) of
      (Some cid, Some i) \<Rightarrow> pick_collection_mint cr st collections body now op cid i (mc_counts c)
    | _ \<Rightarrow> Some (mc_counts c)) = Some counts"
    and "mint_op_good cr st body op" and "body \<subseteq> excesses"
  obtains mints where "(case (ma_collection_id op, ma_phase_index op) of
      (Some cid, Some i) \<Rightarrow> collection_mint_step cr collections now op cid i c
    | _ \<Rightarrow> Some c) = Some (c\<lparr>mc_counts := counts, mc_mints := mints\<rparr>)"
    "\<forall>x. ma_required_kernel_excess op = Some x \<longrightarrow> kernel_known st excesses x"
proof (cases "\<exists>cid i. ma_collection_id op = Some cid \<and> ma_phase_index op = Some i")
  case True
  then obtain cid i where "ma_collection_id op = Some cid" "ma_phase_index op = Some i" by blast
  with assms(1) pick_collection_mint_Some [OF _ assms(3)] that show thesis by (auto, blast)
next
  case False
  then have none: "ma_collection_id op = None \<or> ma_phase_index op = None" by (auto simp: not_Some_eq)
  with assms(1) have "counts = mc_counts c" by (auto split: option.splits)
  moreover from none assms(2,3) have "\<forall>x. ma_required_kernel_excess op = Some x \<longrightarrow> kernel_known st excesses x"
    by (auto simp: mint_op_good_def kernel_known_def)
  ultimately show thesis
    using none by (intro that [of "mc_mints c"]) (auto split: option.splits)
qed

interpretation mint_filter: proposal_filter "pick_mint_op cr st collections body (bh_timestamp h) (bh_height h)" mi_ops
    "mint_op_step cr st collections (body \<union> extra) h" "mints_agree st" "mint_op_good cr st body"
  for cr :: "('p::ab_group_add, 's::comm_ring_1) crypto" and st collections body extra h
proof
  fix p :: "('p, 's) mint_pick" and c :: "'p mint_acc" and op
  let ?pick = "pick_mint_op cr st collections body (bh_timestamp h) (bh_height h) op p"
  assume agr: "mints_agree st p c" and good: "mint_op_good cr st body op"
  let ?counts = "case (ma_collection_id op, ma_phase_index op) of
      (Some cid, Some i) \<Rightarrow> pick_collection_mint cr st collections body (bh_timestamp h) op cid i (mc_counts c)
    | _ \<Rightarrow> Some (mc_counts c)"
  have counts: "mi_counts p = mc_counts c" using agr by (simp add: mints_agree_def)
  show "?pick = p \<or> (\<exists>c'. mi_ops ?pick = mi_ops p @ [op] \<and>
      mint_op_step cr st collections (body \<union> extra) h op c = Some c' \<and> mints_agree st ?pick c')"
  proof (cases "inputs_free (cs_utxos st) (mi_spent p) (tx_inputs (ma_fee_payment op)) \<and>
      \<not> contains_key (mi_registry p) (ma_asset_id op) \<and> ?counts \<noteq> None")
    case True
    then obtain cs where cs: "?counts = Some cs" by blast
    obtain mints where rules: "(case (ma_collection_id op, ma_phase_index op) of
          (Some cid, Some i) \<Rightarrow> collection_mint_step cr collections (bh_timestamp h) op cid i c
        | _ \<Rightarrow> Some c) = Some (c\<lparr>mc_counts := cs, mc_mints := mints\<rparr>)"
        "\<forall>x. ma_required_kernel_excess op = Some x \<longrightarrow> kernel_known st (body \<union> extra) x"
      by (rule pick_mint_rules [OF cs good Un_upper1 [of body extra]])
    have kernels: "case ma_required_kernel_excess op of None \<Rightarrow> True | Some x \<Rightarrow> kernel_known st (body \<union> extra) x"
      using rules(2) by (simp split: option.splits)
    have "\<not> contains_key (cs_asset_registry st) (ma_asset_id op)" "ma_asset_id op \<notin> mc_assets c"
      using True agr covers_fresh unfolding mints_agree_def by metis+
    moreover have "claim_inputs (cs_utxos st) (tx_inputs (ma_fee_payment op)) (mc_spent c) =
        Some (mi_spent p \<union> in_commitment ` set (tx_inputs (ma_fee_payment op)))"
      using True agr good by (simp add: mints_agree_def mint_op_good_def claim_inputs_free)
    ultimately have "mint_op_step cr st collections (body \<union> extra) h op c =
        Some (c\<lparr>mc_counts := cs, mc_mints := mints,
          mc_spent := mi_spent p \<union> in_commitment ` set (tx_inputs (ma_fee_payment op)),
          mc_assets := insert (ma_asset_id op) (mc_assets c),
          mc_registry := Mapping.update (ma_asset_id op) (minted_asset (bh_height h) op) (mc_registry c)\<rparr>)"
      using good unfolding mint_op_step_def rules(1) by (simp add: kernels mint_op_good_def)
    moreover have "?pick = p\<lparr>mi_spent := mi_spent p \<union> in_commitment ` set (tx_inputs (ma_fee_payment op)),
        mi_registry := Mapping.update (ma_asset_id op) (minted_asset (bh_height h) op) (mi_registry p),
        mi_counts := cs, mi_ops := mi_ops p @ [op]\<rparr>"
      using True cs unfolding pick_mint_op_def counts by simp
    ultimately show ?thesis
      using agr by (intro disjI2) (auto simp: mints_agree_def intro: covers_update)
  next
    case False
    then show ?thesis unfolding pick_mint_op_def counts by auto
  qed
qed

text \<open>The snapshot with this block's launches agrees with the chain on the collections the chain knows.\<close>

definition extends :: "(string, 'v) mapping \<Rightarrow> (string, 'v) mapping \<Rightarrow> bool" where
  "extends base m \<longleftrightarrow> (\<forall>k v. Mapping.lookup base k = Some v \<longrightarrow> Mapping.lookup m k = Some v)"

lemma launches_extend: "launches_agree st p c \<Longrightarrow> extends (cs_collection_registry st) (lp_registry p)"
  unfolding launches_agree_def covers_def extends_def contains_key_def by (metis option.distinct(1))

definition assets_agree ::
    "('p, 's) chain_state \<Rightarrow> (string, 'p collection_record) mapping \<Rightarrow> ('p, 's) asset_pick \<Rightarrow> 'p mint_acc \<Rightarrow> bool" where
  "assets_agree st collections p c \<longleftrightarrow> mc_assets c = ap_touched p \<and> mc_registry c = ap_registry p \<and>
     extends (cs_collection_registry st) collections"

lemma pick_royalty_ok_sound:
  assumes "extends (cs_collection_registry st) collections"
    and "pick_royalty_ok st collections excesses op current" and "excesses \<subseteq> excesses'"
  shows "royalty_ok st excesses' op current"
  using assms unfolding extends_def pick_royalty_ok_def royalty_ok_def kernel_known_def
  by (auto split: option.splits if_splits)

interpretation asset_filter: proposal_filter "pick_transfer_asset_op cr st collections excesses" ap_ops
    "transfer_asset_op_step cr st (excesses \<union> extra)" "assets_agree st collections" "\<lambda>_. True"
  for cr :: "('p::ab_group_add, 's::comm_ring_1) crypto" and st collections excesses extra
  by unfold_locales
    (auto simp: pick_transfer_asset_op_def transfer_asset_op_step_def assets_agree_def kernel_known_def
      dest: pick_royalty_ok_sound [where excesses' = "excesses \<union> extra"] split: option.splits)


section \<open>What the filters keep is accepted\<close>

lemma names_accepted:
  assumes "\<forall>op \<in> set ops. name_op_good cr op"
    and names: "names = fold (pick_name_op st height) ops
      \<lparr>np_spent = spent, np_registry = cs_name_registry st, np_ops = []\<rparr>"
    and transfers: "transfers = fold (pick_transfer_op cr st) tops
      \<lparr>tp_touched = rn_name ` set (np_ops names), tp_registry = np_registry names, tp_ops = []\<rparr>"
  obtains c c' where "fold_option (name_op_step cr st height) (np_ops names)
      \<lparr>na_spent = spent, na_names = {}, na_registry = cs_name_registry st\<rparr> = Some c"
    "fold_option (transfer_op_step cr st) (tp_ops transfers) c = Some c'"
    "na_registry c' = tp_registry transfers" "na_spent c' = np_spent names"
proof -
  let ?c = "\<lparr>na_spent = spent, na_names = {}, na_registry = cs_name_registry st\<rparr>"
  have "\<exists>c. fold_option (name_op_step cr st height) (np_ops names) ?c = Some c \<and> names_agree st names c"
    unfolding names by (rule name_filter.kept_accepted [where c = ?c, OF _ _ assms(1)])
      (simp_all add: names_agree_def)
  then obtain c where c: "fold_option (name_op_step cr st height) (np_ops names) ?c = Some c"
      "names_agree st names c" by blast
  have "\<exists>c'. fold_option (transfer_op_step cr st) (tp_ops transfers) c = Some c' \<and> transfers_agree transfers c'"
    unfolding transfers by (rule transfer_filter.kept_accepted [where c = c])
      (use c(2) in \<open>simp_all add: transfers_agree_def names_agree_def\<close>)
  then obtain c' where c': "fold_option (transfer_op_step cr st) (tp_ops transfers) c = Some c'"
      "transfers_agree transfers c'" by blast
  from c' c(2) transfer_ops_facts(1) [OF c'(1)] show thesis
    by (intro that [OF c(1) c'(1)]) (simp_all add: transfers_agree_def names_agree_def)
qed

lemma launches_accepted:
  assumes launches: "launches = fold (pick_launch_op cr en height) ops
      \<lparr>lp_registry = cs_collection_registry st, lp_ops = []\<rparr>"
  obtains c where "fold_option (launch_op_step cr en st height) (lp_ops launches)
      \<lparr>la_collections = {}, la_registry = cs_collection_registry st\<rparr> = Some c"
    "la_registry c = lp_registry launches" "extends (cs_collection_registry st) (lp_registry launches)"
proof -
  let ?c = "\<lparr>la_collections = {}, la_registry = cs_collection_registry st\<rparr>"
  have "\<exists>c. fold_option (launch_op_step cr en st height) (lp_ops launches) ?c = Some c \<and>
      launches_agree st launches c"
    unfolding launches by (rule launch_filter.kept_accepted [where c = ?c]) (simp_all add: launches_agree_def)
  with that launches_extend show thesis by (auto simp: launches_agree_def)
qed

lemma assets_accepted:
  assumes good: "\<forall>op \<in> set ops. mint_op_good cr st body op"
    and ext: "extends (cs_collection_registry st) collections"
    and mints: "mints = fold (pick_mint_op cr st collections body (bh_timestamp h) (bh_height h)) ops
      \<lparr>mi_spent = spent, mi_registry = cs_asset_registry st, mi_counts = cs_collection_mint_counts st, mi_ops = []\<rparr>"
    and assets: "assets = fold (pick_transfer_asset_op cr st collections excesses) tops
      \<lparr>ap_touched = ma_asset_id ` set (mi_ops mints), ap_registry = mi_registry mints, ap_ops = []\<rparr>"
    and sub: "body \<subseteq> all" "excesses \<subseteq> all"
  obtains c c' where "fold_option (mint_op_step cr st collections all h) (mi_ops mints)
      \<lparr>mc_spent = spent, mc_assets = {}, mc_registry = cs_asset_registry st,
        mc_counts = cs_collection_mint_counts st, mc_mints = []\<rparr> = Some c"
    "fold_option (transfer_asset_op_step cr st all) (ap_ops assets) c = Some c'"
    "mc_registry c' = ap_registry assets"
proof -
  let ?c = "\<lparr>mc_spent = spent, mc_assets = {}, mc_registry = cs_asset_registry st,
        mc_counts = cs_collection_mint_counts st, mc_mints = []\<rparr>"
  from sub have all: "body \<union> all = all" "excesses \<union> all = all" by auto
  have "\<exists>c. fold_option (mint_op_step cr st collections (body \<union> all) h) (mi_ops mints) ?c = Some c \<and>
      mints_agree st mints c"
    unfolding mints by (rule mint_filter.kept_accepted [where c = ?c, OF _ _ good]) (simp_all add: mints_agree_def)
  then obtain c where c: "fold_option (mint_op_step cr st collections all h) (mi_ops mints) ?c = Some c"
      "mints_agree st mints c" unfolding all by blast
  have "\<exists>c'. fold_option (transfer_asset_op_step cr st (excesses \<union> all)) (ap_ops assets) c = Some c' \<and>
      assets_agree st collections assets c'"
    unfolding assets by (rule asset_filter.kept_accepted [where c = c])
      (use c(2) ext in \<open>simp_all add: assets_agree_def mints_agree_def\<close>)
  then obtain c' where c': "fold_option (transfer_asset_op_step cr st all) (ap_ops assets) c = Some c'"
      "assets_agree st collections assets c'" unfolding all by blast
  from c'(2) that [OF c(1) c'(1)] show thesis by (simp add: assets_agree_def)
qed

lemma stakes_accepted:
  assumes "validators = fold (pick_validator_op cr st) ops \<lparr>vp_validators = cs_active_validators st, vp_ops = []\<rparr>"
  shows "validate_stakes cr st (vp_ops validators) = Some (vp_validators validators)"
  using validator_filter.kept_accepted [of cr st "\<lparr>vp_validators = cs_active_validators st, vp_ops = []\<rparr>"
      "cs_active_validators st" "cs_active_validators st" ops]
  by (simp add: validate_stakes_def assms)


section \<open>Coinbase and header\<close>

lemma own_stake_key:
  assumes "module_laws cr" and "own_stake cr en key k (cs_active_validators st) = Some v"
    and "distinct (map v_commitment (cs_active_validators st))"
  shows "proposer_stake cr en st (v_commitment v) = Some (v_value v)"
    and "stake_pubkey cr (v_commitment v) (v_value v) = commitment_new cr 0 key"
proof -
  let ?mine = "\<lambda>v. as_point (v_commitment v) - smul cr (scalar_of_u64 (v_value v)) (gen_B cr) =
    smul cr key (gen_B_blinding cr)"
  have "proposer_stake cr en st (v_commitment v) = Some (v_value v) \<and>
      stake_pubkey cr (v_commitment v) (v_value v) = commitment_new cr 0 key"
  proof (cases "find ?mine (cs_active_validators st)")
    case None
    with assms(2) have "cs_active_validators st = []" "key = en_blinding en"
        "v_commitment v = commitment_new cr 1000000 key" "v_value v = 1000000"
      by (auto simp: own_stake_def Let_def split: if_splits)
    then show ?thesis
      by (simp add: proposer_stake_def stake_pubkey_commitment [OF assms(1)] commitment_new_zero [OF assms(1)])
  next
    case (Some w)
    with assms(2) have v: "find ?mine (cs_active_validators st) = Some v" by (simp add: own_stake_def Let_def)
    then have mem: "v \<in> set (cs_active_validators st)" "?mine v" by (auto simp: find_Some_iff)
    have "w = v" if "w \<in> set (cs_active_validators st)" "v_commitment w = v_commitment v" for w
      using assms(3) mem(1) that by (auto simp: distinct_map dest: inj_onD)
    moreover obtain w where w: "find (\<lambda>w. v_commitment w = v_commitment v) (cs_active_validators st) = Some w"
      using mem(1) by (cases "find (\<lambda>w. v_commitment w = v_commitment v) (cs_active_validators st)")
        (auto simp: find_None_iff)
    moreover from w have "w \<in> set (cs_active_validators st)" "v_commitment w = v_commitment v"
      by (auto simp: find_Some_iff)
    ultimately have "find (\<lambda>w. v_commitment w = v_commitment v) (cs_active_validators st) = Some v" by blast
    with mem show ?thesis
      by (auto simp: proposer_stake_def stake_pubkey_def commitment_new_zero [OF assms(1)])
  qed
  then show "proposer_stake cr en st (v_commitment v) = Some (v_value v)"
    and "stake_pubkey cr (v_commitment v) (v_value v) = commitment_new cr 0 key" by blast+
qed

lemma unsigned_sign_header:
  "bh_validator_signature h = \<lparr>sig_s = 0, sig_e = 0\<rparr> \<Longrightarrow> unsigned_header (sign_header cr k key h) = h"
  by (simp add: unsigned_header_def sign_header_def)

definition with_coinbase ::
    "('p::ab_group_add, 's::comm_ring_1) crypto \<Rightarrow> 's \<Rightarrow> 's round_input \<Rightarrow> u64 \<Rightarrow> u64 \<Rightarrow> ('p, 's) transaction \<Rightarrow>
       ('p, 's) transaction" where
  "with_coinbase cr key ri height value tx =
     tx\<lparr>tx_outputs := tx_outputs tx @ [coinbase_output cr key (ri_seal_nonce ri) height value],
        tx_kernels := tx_kernels tx @ [coinbase_kernel cr key (ri_coinbase_nonce ri) height]\<rparr>"

lemma coinbase_balances:
  assumes ml: "module_laws cr" and rp: "range_proof_complete cr" and valid: "validate cr tx"
    and reward: "reward \<noteq> 0" and fits: "unat reward + (\<Sum>k \<leftarrow> tx_kernels tx. unat (fee k)) < 2 ^ 64"
  shows "validate_with_reward cr
    (with_coinbase cr key ri height (reward + sum_list (map fee (tx_kernels tx))) tx) reward"
proof -
  let ?fees = "sum_list (map fee (tx_kernels tx))" and ?r = "coinbase_blinding cr key height"
  have "unat ?fees = (\<Sum>k \<leftarrow> tx_kernels tx. unat (fee k))"
    using fits unat_sum_list [of "map fee (tx_kernels tx)"] by (simp add: comp_def)
  then have "unat (reward + ?fees) = unat reward + unat ?fees" using fits by (simp add: unat_word_ariths)
  then have total: "smul cr (scalar_of_u64 (reward + ?fees)) (gen_B cr) =
      smul cr (scalar_of_u64 reward) (gen_B cr) + smul cr (scalar_of_u64 ?fees) (gen_B cr)"
    by (simp add: scalar_of_u64_def smul_add [OF ml])
  have kernel: "kernel_ok cr (coinbase_kernel cr key (ri_coinbase_nonce ri) height)"
    by (simp add: kernel_ok_def coinbase_kernel_def Let_def sign_verify_excess [OF ml])
  have "range_verify cr (out_proof out) (out_commitment out)"
    if "out = coinbase_output cr key (ri_seal_nonce ri) height (reward + ?fees)" for out
    by (simp add: that coinbase_output_def Let_def range_verify_prove [OF rp])
  moreover have "as_point (out_commitment (coinbase_output cr key (ri_seal_nonce ri) height (reward + ?fees))) +
      as_point (excess (coinbase_kernel cr key (ri_coinbase_nonce ri) height)) =
      smul cr (scalar_of_u64 reward) (gen_B cr) + smul cr (scalar_of_u64 ?fees) (gen_B cr)"
    by (simp add: coinbase_output_def coinbase_kernel_def Let_def commitment_new_def total module_simps [OF ml])
  ultimately show ?thesis
    using valid reward kernel unfolding validate_def validate_with_reward_iff [OF ml]
    by (simp add: with_coinbase_def smul_zero [OF ml] algebra_simps)
qed


section \<open>An honest proposal is accepted\<close>

text \<open>Validation does not read the block store.\<close>

lemma store_block_simps [simp]:
  "cs_utxos (store_block cr b st) = cs_utxos st"
  "cs_kernel_excesses (store_block cr b st) = cs_kernel_excesses st"
  "cs_current_height (store_block cr b st) = cs_current_height st"
  "cs_last_block_hash (store_block cr b st) = cs_last_block_hash st"
  "cs_active_validators (store_block cr b st) = cs_active_validators st"
  "cs_name_registry (store_block cr b st) = cs_name_registry st"
  "cs_asset_registry (store_block cr b st) = cs_asset_registry st"
  "cs_collection_registry (store_block cr b st) = cs_collection_registry st"
  "cs_collection_mint_counts (store_block cr b st) = cs_collection_mint_counts st"
  by (simp_all add: store_block_def)

lemma validate_block_store: "validate_block cr en (store_block cr b' st) b = validate_block cr en st b"
  unfolding validate_block_def connects_def proposer_ok_def proposer_stake_def body_ok_def validate_names_def
    validate_launches_def validate_assets_def validate_stakes_def name_op_step_def transfer_op_step_def
    launch_op_step_def mint_op_step_def transfer_asset_op_step_def kernel_known_def royalty_ok_def store_block_simps
  by (rule refl)

lemma apply_block_valid:
  assumes "validate_block cr en st b = Some cd" and "is_linear st (b_header b)"
  obtains st' d where "apply_block cr en b st = Some (Ret (st', Linear d))"
    "cs_current_height st' = bh_height (b_header b)" "cs_last_block_hash st' = header_hash cr (b_header b)"
    "cs_utxos st' = fold spend_tx (fee_payments b) (body_utxos b (cs_utxos st))"
proof -
  have "validate_block cr en (store_block cr b st) b = Some cd" by (simp add: validate_block_store assms(1))
  then have lin: "apply_linear_block cr en b (store_block cr b st) =
      Ret (applied_state cr b cd (store_block cr b st), Some (delta_of cr b cd (store_block cr b st)))"
    by (cases rule: apply_linear_block_cases [of cr en "store_block cr b st" b]) auto
  have "body_ok cr en st b" using assms(1) by (rule validate_block_Some)
  then have "block_validate cr b" by (simp add: body_ok_def block_validate_def Let_def)
  moreover have "is_linear (store_block cr b st) (b_header b)" using assms(2) by (simp add: is_linear_def store_block_def)
  ultimately have "apply_block cr en b st =
      Some (Ret (applied_state cr b cd (store_block cr b st), Linear (delta_of cr b cd (store_block cr b st))))"
    by (simp add: apply_block_def Let_def lin)
  then show thesis by (rule that) (simp_all add: applied_state_def Let_def)
qed

text \<open>The pending operations carry no defect that the filters overlook.\<close>

definition pending_clean :: "('p, 's) chain_state \<Rightarrow> 'p commitment set \<Rightarrow> ('p, 's) mempool \<Rightarrow> bool" where
  "pending_clean st body_excesses mp \<longleftrightarrow>
     (\<forall>op \<in> set (mp_name_ops mp). distinct (map in_commitment (tx_inputs (rn_fee_payment op)))) \<and>
     (\<forall>op \<in> set (mp_mint_ops mp). distinct (map in_commitment (tx_inputs (ma_fee_payment op))) \<and>
        (ma_collection_id op = None \<or> ma_phase_index op = None \<longrightarrow>
          (\<forall>c. ma_required_kernel_excess op = Some c \<longrightarrow> kernel_known st body_excesses c)))"

lemma candidates_good:
  assumes "mempool_ok cr size_of ser mp" and "pending_clean st body mp"
  shows "set ops \<subseteq> set (mp_name_ops mp) \<Longrightarrow> \<forall>op \<in> set ops. name_op_good cr op"
    and "set mops \<subseteq> set (mp_mint_ops mp) \<Longrightarrow> \<forall>op \<in> set mops. mint_op_good cr st body op"
  using assms unfolding pending_clean_def mempool_ok_def keyed_ok_def queue_ok_def
  by (auto simp: name_op_good_def mint_op_good_def list_all_iff)

lemma bundle_valid:
  assumes "module_laws cr" and "mempool_ok cr size_of ser mp"
    and "(\<Sum>k \<leftarrow> tx_kernels (tx_bundle mp). unat (fee k)) < 2 ^ 64"
  shows "validate cr (tx_bundle mp)"
proof (cases "aggregate mp")
  case (Pair body mp')
  show ?thesis
  proof (cases body)
    case None
    with Pair show ?thesis
      by (simp add: tx_bundle_def empty_tx_def validate_def validate_with_reward_iff [OF assms(1)] smul_zero [OF assms(1)])
  next
    case (Some tx)
    with Pair obtain selected where sel: "take_txs mp = (selected, mp')" "tx = aggregate_and_cut_through selected"
      by (metis aggregate_Some)
    have "list_all (validate cr) selected"
      using tx_queue.take_ok(2) [OF sel(1) mempool_okD(1) [OF assms(2)]] by (simp add: list_all_iff)
    moreover have "(\<Sum>tx \<leftarrow> selected. \<Sum>k \<leftarrow> tx_kernels tx. unat (fee k)) =
        (\<Sum>k \<leftarrow> concat (map tx_kernels selected). unat (fee k))"
      by (induction selected) simp_all
    ultimately show ?thesis
      using aggregate_validates [OF assms(1)] assms(3) sel(2) Pair Some
      by (simp add: tx_bundle_def cut_through_msets(3))
  qed
qed

lemma aggregate_other_queues:
  "mp_name_ops (snd (aggregate mp)) = mp_name_ops mp" "mp_mint_ops (snd (aggregate mp)) = mp_mint_ops mp"
  by (simp_all add: aggregate_def take_txs_def split_beta)


text \<open>The batches of operations a proposal looks at.\<close>

lemma pick_ops_candidates:
  assumes "pick_ops cr en st height now tx mp = (pk, mp')"
  obtains nops tops lops mops aops vops where
    "pk_names pk = fold (pick_name_op st height) nops
      \<lparr>np_spent = in_commitment ` set (tx_inputs tx), np_registry = cs_name_registry st, np_ops = []\<rparr>"
    "pk_transfers pk = fold (pick_transfer_op cr st) tops
      \<lparr>tp_touched = rn_name ` set (np_ops (pk_names pk)), tp_registry = np_registry (pk_names pk), tp_ops = []\<rparr>"
    "pk_launches pk = fold (pick_launch_op cr en height) lops
      \<lparr>lp_registry = cs_collection_registry st, lp_ops = []\<rparr>"
    "pk_mints pk = fold (pick_mint_op cr st (lp_registry (pk_launches pk)) (excesses_of [tx]) now height) mops
      \<lparr>mi_spent = np_spent (pk_names pk), mi_registry = cs_asset_registry st,
        mi_counts = cs_collection_mint_counts st, mi_ops = []\<rparr>"
    "pk_assets pk = fold (pick_transfer_asset_op cr st (lp_registry (pk_launches pk))
        (excesses_of (tx # map ma_fee_payment (mi_ops (pk_mints pk)) @ map rn_fee_payment (np_ops (pk_names pk))))) aops
      \<lparr>ap_touched = ma_asset_id ` set (mi_ops (pk_mints pk)), ap_registry = mi_registry (pk_mints pk), ap_ops = []\<rparr>"
    "pk_validators pk = fold (pick_validator_op cr st) vops \<lparr>vp_validators = cs_active_validators st, vp_ops = []\<rparr>"
    "set nops \<subseteq> set (mp_name_ops mp)" "set mops \<subseteq> set (mp_mint_ops mp)"
proof -
  let ?m1 = "snd (take_name_ops mp)"
  let ?m2 = "snd (take_transfer_ops ?m1)"
  let ?m3 = "snd (take_launch_collection_ops ?m2)"
  let ?m4 = "snd (take_mint_ops ?m3)"
  let ?m5 = "snd (take_transfer_asset_ops ?m4)"
  have pk: "pk = fst (pick_ops cr en st height now tx mp)" using assms by simp
  have names: "set (fst (take_name_ops mp)) \<subseteq> set (mp_name_ops mp)"
    using name_queue.take_set [of mp "fst (take_name_ops mp)" ?m1] by auto
  have "mp_mint_ops ?m3 = mp_mint_ops mp"
    by (simp add: take_name_ops_def take_transfer_ops_def take_launch_collection_ops_def split_beta Let_def)
  then have mints: "set (fst (take_mint_ops ?m3)) \<subseteq> set (mp_mint_ops mp)"
    using mint_queue.take_set [of ?m3 "fst (take_mint_ops ?m3)" ?m4] by auto
  show thesis
    by (rule that [of "fst (take_name_ops mp)" "fst (take_transfer_ops ?m1)" "fst (take_launch_collection_ops ?m2)"
          "fst (take_mint_ops ?m3)" "fst (take_transfer_asset_ops ?m4)" "fst (take_validator_ops ?m5)", OF _ _ _ _ _ _ names mints])
      (simp_all add: pk pick_ops_def Let_def split_beta)
qed

lemma picked_ops_accepted:
  assumes "pick_ops cr en st (bh_height (b_header b)) (bh_timestamp (b_header b)) tx mp = (pk, mp')"
    and ok: "mempool_ok cr size_of ser mp" and clean: "pending_clean st (excesses_of [tx]) mp"
    and ops: "b_name_ops b = np_ops (pk_names pk)" "b_transfer_ops b = tp_ops (pk_transfers pk)"
      "b_mint_ops b = mi_ops (pk_mints pk)" "b_transfer_asset_ops b = ap_ops (pk_assets pk)"
      "b_launch_collection_ops b = lp_ops (pk_launches pk)" "b_validator_ops b = vp_ops (pk_validators pk)"
    and body: "tx_inputs (b_body b) = tx_inputs tx" "set (tx_kernels tx) \<subseteq> set (tx_kernels (b_body b))"
    and roots: "bh_name_registry_root (b_header b) =
        compute_registry_root cr (ser_name (en_codec en)) (tp_registry (pk_transfers pk))"
      "bh_asset_registry_root (b_header b) =
        compute_asset_registry_root cr (ser_asset (en_codec en)) (ap_registry (pk_assets pk))"
      "bh_collection_registry_root (b_header b) =
        compute_collection_registry_root cr (ser_collection (en_codec en)) (lp_registry (pk_launches pk))"
  obtains names collections assets validators where "validate_names cr en st b = Some names"
    "validate_launches cr en st b = Some collections"
    "validate_assets cr en st collections (na_spent names) b = Some assets"
    "validate_stakes cr st (b_validator_ops b) = Some validators"
proof (rule pick_ops_candidates [OF assms(1)])
  fix nops tops lops mops aops vops
  assume cand: "pk_names pk = fold (pick_name_op st (bh_height (b_header b))) nops
      \<lparr>np_spent = in_commitment ` set (tx_inputs tx), np_registry = cs_name_registry st, np_ops = []\<rparr>"
    "pk_transfers pk = fold (pick_transfer_op cr st) tops
      \<lparr>tp_touched = rn_name ` set (np_ops (pk_names pk)), tp_registry = np_registry (pk_names pk), tp_ops = []\<rparr>"
    "pk_launches pk = fold (pick_launch_op cr en (bh_height (b_header b))) lops
      \<lparr>lp_registry = cs_collection_registry st, lp_ops = []\<rparr>"
    "pk_mints pk = fold (pick_mint_op cr st (lp_registry (pk_launches pk)) (excesses_of [tx])
        (bh_timestamp (b_header b)) (bh_height (b_header b))) mops
      \<lparr>mi_spent = np_spent (pk_names pk), mi_registry = cs_asset_registry st,
        mi_counts = cs_collection_mint_counts st, mi_ops = []\<rparr>"
    "pk_assets pk = fold (pick_transfer_asset_op cr st (lp_registry (pk_launches pk))
        (excesses_of (tx # map ma_fee_payment (mi_ops (pk_mints pk)) @ map rn_fee_payment (np_ops (pk_names pk))))) aops
      \<lparr>ap_touched = ma_asset_id ` set (mi_ops (pk_mints pk)), ap_registry = mi_registry (pk_mints pk), ap_ops = []\<rparr>"
    "pk_validators pk = fold (pick_validator_op cr st) vops \<lparr>vp_validators = cs_active_validators st, vp_ops = []\<rparr>"
    and subset: "set nops \<subseteq> set (mp_name_ops mp)" "set mops \<subseteq> set (mp_mint_ops mp)"
  obtain c c' where n: "fold_option (name_op_step cr st (bh_height (b_header b))) (np_ops (pk_names pk))
        \<lparr>na_spent = in_commitment ` set (tx_inputs tx), na_names = {}, na_registry = cs_name_registry st\<rparr> = Some c"
      "fold_option (transfer_op_step cr st) (tp_ops (pk_transfers pk)) c = Some c'"
      "na_registry c' = tp_registry (pk_transfers pk)" "na_spent c' = np_spent (pk_names pk)"
    by (rule names_accepted [OF candidates_good(1) [OF ok clean subset(1)] cand(1,2)])
  obtain l where l: "fold_option (launch_op_step cr en st (bh_height (b_header b))) (lp_ops (pk_launches pk))
        \<lparr>la_collections = {}, la_registry = cs_collection_registry st\<rparr> = Some l"
      "la_registry l = lp_registry (pk_launches pk)"
      "extends (cs_collection_registry st) (lp_registry (pk_launches pk))"
    by (rule launches_accepted [OF cand(3)])
  let ?all = "block_kernel_excesses b"
  have all: "excesses_of [tx] \<subseteq> ?all"
      "excesses_of (tx # map ma_fee_payment (mi_ops (pk_mints pk)) @ map rn_fee_payment (np_ops (pk_names pk))) \<subseteq> ?all"
    using body(2) by (auto simp: excesses_of_def block_kernel_excesses_def fee_kernels_def ops image_Un)
  obtain m m' where m: "fold_option (mint_op_step cr st (lp_registry (pk_launches pk)) ?all (b_header b))
        (mi_ops (pk_mints pk)) \<lparr>mc_spent = np_spent (pk_names pk), mc_assets = {}, mc_registry = cs_asset_registry st,
          mc_counts = cs_collection_mint_counts st, mc_mints = []\<rparr> = Some m"
      "fold_option (transfer_asset_op_step cr st ?all) (ap_ops (pk_assets pk)) m = Some m'"
      "mc_registry m' = ap_registry (pk_assets pk)"
    by (rule assets_accepted [OF candidates_good(2) [OF ok clean subset(2)] l(3) cand(4,5) all])
  show thesis
    by (rule that [of c' "lp_registry (pk_launches pk)" m' "vp_validators (pk_validators pk)"])
      (simp_all add: validate_names_def validate_launches_def validate_assets_def ops body(1) roots n l(1,2) m
        stakes_accepted [OF cand(6)])
qed


lemma assemble_block_simps:
  "b_body (assemble_block cr en st key v ri tx pk) = with_coinbase cr key ri (cs_current_height st + 1)
     (block_reward_at (cs_current_height st + 1) + sum_list (map fee (tx_kernels tx))) tx"
  "bh_height (b_header (assemble_block cr en st key v ri tx pk)) = cs_current_height st + 1"
  "bh_prev_hash (b_header (assemble_block cr en st key v ri tx pk)) = cs_last_block_hash st"
  "bh_timestamp (b_header (assemble_block cr en st key v ri tx pk)) = ri_now ri"
  "bh_chain_id (b_header (assemble_block cr en st key v ri tx pk)) = CHAIN_ID"
  "bh_validator_commitment (b_header (assemble_block cr en st key v ri tx pk)) = v_commitment v"
  by (simp_all add: assemble_block_def with_coinbase_def sign_header_def Let_def)

lemma assembled_header_signed:
  assumes "module_laws cr" and "stake_pubkey cr (v_commitment v) (v_value v) = commitment_new cr 0 key"
    and "proposer_stake cr en st (v_commitment v) = Some (v_value v)"
  shows "proposer_ok cr en st (b_header (assemble_block cr en st key v ri tx pk))"
proof -
  obtain h where h: "b_header (assemble_block cr en st key v ri tx pk) = sign_header cr (ri_header_nonce ri) key h"
      "bh_validator_signature h = \<lparr>sig_s = 0, sig_e = 0\<rparr>" "bh_validator_commitment h = v_commitment v"
    by (simp add: assemble_block_def Let_def)
  have "bh_validator_commitment (sign_header cr (ri_header_nonce ri) key h) = v_commitment v"
    using h(3) by (simp add: sign_header_def)
  moreover have "bh_validator_signature (sign_header cr (ri_header_nonce ri) key h) =
      sign cr (ri_header_nonce ri) (header_hash cr h) key"
    by (simp add: sign_header_def)
  ultimately show ?thesis
    by (simp add: proposer_ok_def h(1) unsigned_sign_header [OF h(2)] assms(2,3) sign_verify_excess [OF assms(1)])
qed

text \<open>The conditions under which a round produces an acceptable block: the node's stake is in a duplicate-free
  validator set, the height does not wrap, the reward has not run out, the fees fit, the inputs of
  the aggregated payments are unspent and unlocked, and the pending operations are clean.\<close>

definition proposal_ready ::
    "('p::ab_group_add, 's::comm_ring_1) crypto \<Rightarrow> ('p, 's) env \<Rightarrow> ('p, 's) chain_state \<Rightarrow> 's \<Rightarrow>
       ('p, 's) validator \<Rightarrow> 's round_input \<Rightarrow> ('p, 's) mempool \<Rightarrow> bool" where
  "proposal_ready cr en st key v ri mp \<longleftrightarrow>
     (let height = cs_current_height st + 1; tx = tx_bundle mp in
      own_stake cr en key (ri_stake_nonce ri) (cs_active_validators st) = Some v \<and>
      distinct (map v_commitment (cs_active_validators st)) \<and>
      height \<noteq> 0 \<and> block_reward_at height \<noteq> 0 \<and>
      unat (block_reward_at height) + (\<Sum>k \<leftarrow> tx_kernels tx. unat (fee k)) < 2 ^ 64 \<and>
      list_all (\<lambda>i. in_commitment i \<in> cs_utxos st) (tx_inputs tx) \<and>
      \<not> spends_locked_output_early (en_locked en) (tx_inputs tx) height \<and>
      pending_clean st (excesses_of [tx]) mp)"

lemma proposal_validates:
  assumes ml: "module_laws cr" and rp: "range_proof_complete cr" and ok: "mempool_ok cr size_of ser mp"
    and ready: "proposal_ready cr en st key v ri mp"
  obtains cd where "validate_block cr en st (fst (propose_block cr en st key v ri mp)) = Some cd"
proof -
  let ?height = "cs_current_height st + 1" and ?tx = "tx_bundle mp"
  obtain pk mp' where pk: "pick_ops cr en st ?height (ri_now ri) ?tx (snd (aggregate mp)) = (pk, mp')" by fastforce
  let ?b = "assemble_block cr en st key v ri ?tx pk"
  have b: "fst (propose_block cr en st key v ri mp) = ?b" by (simp add: propose_block_def Let_def pk)
  note simps = assemble_block_simps [of cr en st key v ri ?tx pk]
  note r = ready [unfolded proposal_ready_def Let_def]
  have stake: "proposer_stake cr en st (v_commitment v) = Some (v_value v)"
      "stake_pubkey cr (v_commitment v) (v_value v) = commitment_new cr 0 key"
    using own_stake_key [OF ml] r by blast+
  have valid: "validate cr ?tx" by (rule bundle_valid [OF ml ok]) (use r in simp)
  have "validate_with_reward cr (b_body ?b) (block_reward_at ?height)"
    unfolding simps by (rule coinbase_balances [OF ml rp valid]) (use r in simp_all)
  then have body: "body_ok cr en st ?b"
    using r by (simp add: body_ok_def simps with_coinbase_def block_reward_def Let_def)
  have conn: "connects st (b_header ?b)" by (simp add: connects_def simps)
  have ok': "mempool_ok cr size_of ser (snd (aggregate mp))"
    using aggregate_keeps_ok [OF _ ok, of "fst (aggregate mp)"] by simp
  have clean: "pending_clean st (excesses_of [?tx]) (snd (aggregate mp))"
    using r by (simp add: pending_clean_def aggregate_other_queues)
  have ops: "b_name_ops ?b = np_ops (pk_names pk)" "b_transfer_ops ?b = tp_ops (pk_transfers pk)"
      "b_mint_ops ?b = mi_ops (pk_mints pk)" "b_transfer_asset_ops ?b = ap_ops (pk_assets pk)"
      "b_launch_collection_ops ?b = lp_ops (pk_launches pk)" "b_validator_ops ?b = vp_ops (pk_validators pk)"
      and tx: "tx_inputs (b_body ?b) = tx_inputs ?tx" "set (tx_kernels ?tx) \<subseteq> set (tx_kernels (b_body ?b))"
      and roots: "bh_name_registry_root (b_header ?b) =
        compute_registry_root cr (ser_name (en_codec en)) (tp_registry (pk_transfers pk))"
      "bh_asset_registry_root (b_header ?b) =
        compute_asset_registry_root cr (ser_asset (en_codec en)) (ap_registry (pk_assets pk))"
      "bh_collection_registry_root (b_header ?b) =
        compute_collection_registry_root cr (ser_collection (en_codec en)) (lp_registry (pk_launches pk))"
    by (auto simp: assemble_block_def sign_header_def Let_def)
  obtain names collections assets validators where "validate_names cr en st ?b = Some names"
      "validate_launches cr en st ?b = Some collections"
      "validate_assets cr en st collections (na_spent names) ?b = Some assets"
      "validate_stakes cr st (b_validator_ops ?b) = Some validators"
    by (rule picked_ops_accepted [OF _ ok' clean ops tx roots]) (simp add: simps pk, blast)
  then show thesis
    using conn body assembled_header_signed [OF ml stake(2,1), of ri ?tx pk] b
    by (intro that) (simp add: validate_block_def)
qed


text \<open>A node that holds the genesis stake, and a mempool of payments on the sample state.\<close>

definition w_own :: "(wpoint, u64) validator" where
  "w_own = \<lparr>v_commitment = w_com 1000000 42, v_value = 1000000,
     v_proof = sign w_crypto 1 (stake_registration_message w_crypto (w_com 1000000 42) 1000000) 42\<rparr>"

definition w_round :: "u64 round_input" where
  "w_round = \<lparr>ri_clock = 5000, ri_now = 100, ri_stake_nonce = 1, ri_coinbase_nonce = 2, ri_header_nonce = 3,
     ri_seal_nonce = replicate 12 0\<rparr>"

definition w_pending :: "(wpoint, u64) transaction list \<Rightarrow> (wpoint, u64) mempool" where
  "w_pending txs = mempool_new\<lparr>mp_txs := txs\<rparr>"

lemmas w_pending_eval = w_pending_def mempool_new_def tx_bundle_def empty_tx_def aggregate_def take_txs_def
  take_name_ops_def take_transfer_ops_def take_mint_ops_def take_transfer_asset_ops_def take_launch_collection_ops_def
  take_validator_ops_def drain_front_def sort_by_fee_def tx_fee_def aggregate_and_cut_through_def MAX_TXS_PER_BLOCK_def
  split_beta

lemma w_pending_ok:
  assumes "length txs \<le> 5000"
    and "\<forall>tx \<in> set txs. validate w_crypto tx \<and> required_fee (\<lambda>_. Some 952) tx \<le> tx_fee tx"
  shows "mempool_ok w_crypto (\<lambda>_. Some 952) ser (w_pending txs)"
  using assms by (simp add: mempool_ok_def w_pending_def mempool_new_def queue_ok_def keyed_ok_def list_all_iff
      MAX_PENDING_TXS_def MAX_TXS_PER_BLOCK_def)

lemma w_tx_ok:
  "validate w_crypto (w_tx [(100, 7)] [(95, 5)] 2 5)" "validate w_crypto (w_tx [(100, 7)] [(95, 4)] 3 5)"
  "required_fee (\<lambda>_. Some 952) (w_tx ins outs x 5) \<le> tx_fee (w_tx ins outs x 5)"
  "\<not> tx_fee (w_tx ins outs x 5) < required_fee (\<lambda>_. Some 952) (w_tx ins outs x 5)"
  by (simp_all add: w_tx_def validate_def validate_with_reward_def kernel_ok_def sum_points_def zero_wpoint_def
      required_fee_def tx_fee_def div_ceil_def FEE_PER_KB_def MIN_FEE_def)

lemma w_ready:
  assumes "(\<Sum>k \<leftarrow> tx_kernels (tx_bundle mp). unat (fee k)) < 1000"
    and "\<forall>i \<in> set (tx_inputs (tx_bundle mp)). in_commitment i = w_com 100 7"
    and "mp_name_ops mp = []" and "mp_mint_ops mp = []"
  shows "proposal_ready w_crypto w_env w_state 42 w_own w_round mp"
proof -
  have height: "cs_current_height w_state + 1 = 1" by (simp add: w_state_def chain_new_def)
  have reward: "block_reward_at 1 = 540"
    by (simp add: block_reward_at_def HALVING_INTERVAL_BLOCKS_def INITIAL_BLOCK_REWARD_def)
  have "own_stake w_crypto w_env 42 1 [] = Some w_own"
    by (simp add: own_stake_def w_env_def w_own_def Let_def)
  then show ?thesis
    using assms unfolding proposal_ready_def Let_def height reward
    by (auto simp: w_round_def w_state_def chain_new_def w_env_def list_all_iff spends_locked_output_early_def
        list_ex_iff pending_clean_def)
qed



section \<open>Liveness\<close>

text \<open>The node's own stake is somewhere in the priority order.\<close>

lemma position_mem: "x \<in> set xs \<Longrightarrow> \<exists>i < length xs. position (\<lambda>y. y = x) xs = Some i"
  by (induction xs) auto

lemma own_stake_ranked:
  assumes "own_stake cr en key k vs = Some v"
  shows "\<exists>order rank. proposer_priority_order cr (en_blinding en) vs height prev = Ret order \<and>
      position (\<lambda>c. c = v_commitment v) order = Some rank \<and> rank \<le> length vs"
proof (cases "vs = []")
  case True
  with assms show ?thesis by (auto simp: own_stake_def proposer_priority_order_def Let_def split: if_splits)
next
  case False
  from priority_rounds_permutation [of "[0..<length vs]" vs cr height prev] obtain order where
      order: "priority_rounds cr height prev [0..<length vs] vs = Ret order"
        "mset order = image_mset v_commitment (mset vs)"
    by auto
  then have "proposer_priority_order cr (en_blinding en) vs height prev = Ret order"
    using False by (simp add: proposer_priority_order_def)
  moreover have "set order = v_commitment ` set vs"
    using arg_cong [OF order(2), of set_mset] by simp
  moreover from order(2) have "length order = length vs" by (metis size_image_mset size_mset)
  moreover have "v \<in> set vs"
    using assms False by (auto simp: own_stake_def Let_def find_Some_iff split: option.splits)
  ultimately show ?thesis using position_mem [of "v_commitment v" order] by (auto intro: less_imp_le)
qed

lemma is_eligible_waited: "FALLBACK_ROUND_TIMEOUT * rank \<le> waited \<Longrightarrow> is_eligible (Some rank) waited"
  by (cases rank) (simp_all add: is_eligible_def)



text \<open>What one proposal leaves in the mempool.\<close>

definition proposal_drain :: "('p, 's) mempool \<Rightarrow> ('p, 's) mempool" where
  "proposal_drain mp = snd (take_validator_ops (snd (take_transfer_asset_ops (snd (take_mint_ops
     (snd (take_launch_collection_ops (snd (take_transfer_ops (snd (take_name_ops (snd (aggregate mp)))))))))))))"

lemma propose_block_drains: "snd (propose_block cr en st key v ri mp) = proposal_drain mp"
  by (simp add: propose_block_def pick_ops_def proposal_drain_def Let_def split_beta)

lemma length_drain: "length (snd (drain_front n q)) = length q - n"
  by (simp add: drain_front_def Let_def min_def)

lemma aggregate_snd: "snd (aggregate mp) = snd (take_txs mp)"
  by (simp add: aggregate_def take_txs_def drain_front_def sort_by_fee_def split_beta Let_def)

lemma proposal_drain_lengths:
  "length (mp_txs (proposal_drain mp)) = length (mp_txs mp) - MAX_TXS_PER_BLOCK"
  "length (mp_name_ops (proposal_drain mp)) = length (mp_name_ops mp) - MAX_NAME_OPS_PER_BLOCK"
  "length (mp_transfer_ops (proposal_drain mp)) = length (mp_transfer_ops mp) - MAX_TRANSFER_OPS_PER_BLOCK"
  "length (mp_mint_ops (proposal_drain mp)) = length (mp_mint_ops mp) - MAX_MINT_OPS_PER_BLOCK"
  "length (mp_transfer_asset_ops (proposal_drain mp)) =
     length (mp_transfer_asset_ops mp) - MAX_TRANSFER_ASSET_OPS_PER_BLOCK"
  "length (mp_launch_collection_ops (proposal_drain mp)) =
     length (mp_launch_collection_ops mp) - MAX_LAUNCH_OPS_PER_BLOCK"
  "length (mp_validator_ops (proposal_drain mp)) = length (mp_validator_ops mp) - MAX_VALIDATOR_OPS_PER_BLOCK"
  unfolding proposal_drain_def aggregate_snd take_txs_def take_name_ops_def take_transfer_ops_def take_mint_ops_def
    take_transfer_asset_ops_def take_launch_collection_ops_def take_validator_ops_def Let_def split_beta
  by (simp_all add: length_drain)

lemma drains_after:
  assumes "\<And>mp. length (q (proposal_drain mp)) = length (q mp) - batch" and "length (q mp) \<le> n * batch"
  shows "q ((proposal_drain ^^ n) mp) = []"
proof -
  have "length (q ((proposal_drain ^^ n) mp)) = length (q mp) - n * batch" for n
    by (induction n) (simp_all add: assms(1) algebra_simps)
  from this [of n] assms(2) have "length (q ((proposal_drain ^^ n) mp)) = 0" by simp
  then show ?thesis by (rule length_0_conv [THEN iffD1])
qed

lemmas queues_drain = drains_after [of mp_txs, OF proposal_drain_lengths(1)]
  drains_after [of mp_name_ops, OF proposal_drain_lengths(2)]
  drains_after [of mp_transfer_ops, OF proposal_drain_lengths(3)]
  drains_after [of mp_mint_ops, OF proposal_drain_lengths(4)]
  drains_after [of mp_transfer_asset_ops, OF proposal_drain_lengths(5)]
  drains_after [of mp_launch_collection_ops, OF proposal_drain_lengths(6)]
  drains_after [of mp_validator_ops, OF proposal_drain_lengths(7)]

text \<open>C36. Every pending transaction and operation is taken into some block: without new arrivals, a well-formed
  mempool is empty after at most 100 proposals, whatever happens on the chain in between.\<close>

theorem mempool_drains:
  assumes "mempool_ok cr size_of ser mp" and "length rounds = 100"
  shows "fold (\<lambda>(st, v, ri) mp. snd (propose_block cr en st key v ri mp)) rounds mp = mempool_new"
proof -
  have "fold (\<lambda>(st, v, ri) mp. snd (propose_block cr en st key v ri mp)) rs mp = (proposal_drain ^^ length rs) mp" for rs
    by (induction rs arbitrary: mp)
      (simp_all add: propose_block_drains split_beta funpow_Suc_right del: funpow.simps)
  moreover have "(proposal_drain ^^ 100) mp = mempool_new"
  proof -
    have caps: "length (mp_txs mp) \<le> 100 * MAX_TXS_PER_BLOCK" "length (mp_name_ops mp) \<le> 100 * MAX_NAME_OPS_PER_BLOCK"
        "length (mp_transfer_ops mp) \<le> 100 * MAX_TRANSFER_OPS_PER_BLOCK"
        "length (mp_mint_ops mp) \<le> 100 * MAX_MINT_OPS_PER_BLOCK"
        "length (mp_transfer_asset_ops mp) \<le> 100 * MAX_TRANSFER_ASSET_OPS_PER_BLOCK"
        "length (mp_launch_collection_ops mp) \<le> 100 * MAX_LAUNCH_OPS_PER_BLOCK"
        "length (mp_validator_ops mp) \<le> 100 * MAX_VALIDATOR_OPS_PER_BLOCK"
      using assms(1) unfolding mempool_ok_def queue_ok_def keyed_ok_def
      by (simp_all add: MAX_PENDING_TXS_def MAX_PENDING_NAME_OPS_def MAX_PENDING_TRANSFER_OPS_def
          MAX_PENDING_MINT_OPS_def MAX_PENDING_TRANSFER_ASSET_OPS_def MAX_PENDING_LAUNCH_COLLECTION_OPS_def
          MAX_PENDING_VALIDATOR_OPS_def mult.commute)
    show ?thesis
      by (rule mempool.equality)
        (simp_all only: queues_drain(1) [OF caps(1)] queues_drain(2) [OF caps(2)] queues_drain(3) [OF caps(3)]
          queues_drain(4) [OF caps(4)] queues_drain(5) [OF caps(5)] queues_drain(6) [OF caps(6)]
          queues_drain(7) [OF caps(7)] mempool_new_def mempool.select_convs unit_eq)
  qed
  ultimately show ?thesis using assms(2) by simp
qed

theorem mempool_drains_witness:
  "fold (\<lambda>(st, v, ri) mp. snd (propose_block w_crypto w_env st 42 v ri mp))
     (replicate 100 (w_state, w_own, w_round)) (w_pending [w_tx [(100, 7)] [(95, 5)] 2 5]) = mempool_new"
  by (rule mempool_drains [of w_crypto "\<lambda>_. Some 952" "\<lambda>_. []"], rule w_pending_ok) (simp_all add: w_tx_ok)


section \<open>Conflicting payments\<close>

text \<open>C39. Two payments that spend the same output are both admitted to the mempool, both taken into one proposal,
  and the proposed block is accepted: afterwards both new outputs are unspent, so 190 coins exist
  where 100 were spent and 10 paid in fees. Neither the mempool nor the proposer nor consensus
  compares the inputs of the body with one another.\<close>

theorem conflicting_payments_confirmed:
  "\<exists>mp1 mp2 st' delta.
     add_transaction w_crypto (\<lambda>_. Some 952) (w_tx [(100, 7)] [(95, 5)] 2 5) mempool_new = (True, mp1) \<and>
     add_transaction w_crypto (\<lambda>_. Some 952) (w_tx [(100, 7)] [(95, 4)] 3 5) mp1 = (True, mp2) \<and>
     apply_block w_crypto w_env (fst (propose_block w_crypto w_env w_state 42 w_own w_round mp2)) w_state =
       Some (Ret (st', Linear delta)) \<and>
     {w_com 95 5, w_com 95 4} \<subseteq> cs_utxos st' \<and> w_com 100 7 \<in> cs_utxos w_state"
proof -
  let ?t1 = "w_tx [(100, 7)] [(95, 5)] 2 5" and ?t2 = "w_tx [(100, 7)] [(95, 4)] 3 5"
  let ?mp = "w_pending [?t1, ?t2]"
  let ?b = "fst (propose_block w_crypto w_env w_state 42 w_own w_round ?mp)"
  have add: "add_transaction w_crypto (\<lambda>_. Some 952) ?t1 mempool_new = (True, w_pending [?t1])"
      "add_transaction w_crypto (\<lambda>_. Some 952) ?t2 (w_pending [?t1]) = (True, ?mp)"
    using w_tx_ok by (simp_all add: add_transaction_def w_pending_def mempool_new_def MAX_PENDING_TXS_def
        MAX_TXS_PER_BLOCK_def)
  have body: "tx_inputs (tx_bundle ?mp) = tx_inputs ?t1 @ tx_inputs ?t2"
      "tx_outputs (tx_bundle ?mp) = tx_outputs ?t1 @ tx_outputs ?t2"
      "tx_kernels (tx_bundle ?mp) = tx_kernels ?t1 @ tx_kernels ?t2"
    by (simp_all add: w_pending_eval w_tx_def)
  have ready: "proposal_ready w_crypto w_env w_state 42 w_own w_round ?mp"
    by (rule w_ready) (simp_all add: body w_tx_def w_pending_eval)
  have ok: "mempool_ok w_crypto (\<lambda>_. Some 952) (\<lambda>_. []) ?mp"
    by (rule w_pending_ok) (simp_all add: w_tx_ok)
  obtain cd where cd: "validate_block w_crypto w_env w_state ?b = Some cd"
    by (rule proposal_validates [OF w_module_laws w_range_proof_complete ok ready])
  have head: "is_linear w_state (b_header ?b)"
    by (simp add: is_linear_def propose_block_def Let_def split_beta assemble_block_simps)
  have fees: "b_name_ops ?b = []" "b_mint_ops ?b = []"
    by (simp_all add: propose_block_def pick_ops_def assemble_block_def Let_def w_pending_eval)
  have outs: "set (tx_outputs ?t1 @ tx_outputs ?t2) \<subseteq> set (tx_outputs (b_body ?b))"
    by (auto simp: propose_block_def Let_def split_beta assemble_block_simps with_coinbase_def body)
  obtain st' d where app: "apply_block w_crypto w_env ?b w_state = Some (Ret (st', Linear d))"
      "cs_utxos st' = fold spend_tx (fee_payments ?b) (body_utxos ?b (cs_utxos w_state))"
    by (rule apply_block_valid [OF cd head])
  have "out_commitment ` set (tx_outputs ?t1 @ tx_outputs ?t2) \<subseteq> cs_utxos st'"
    using image_mono [OF outs, of out_commitment] by (simp add: app(2) fee_payments_def fees body_utxos_def le_supI2)
  then have "{w_com 95 5, w_com 95 4} \<subseteq> cs_utxos st'" by (simp add: w_tx_def)
  with add app(1) show ?thesis by (auto simp: w_state_def)
qed

end
