(* ===== verification/Wallet.thy ===== *)
theory Wallet
  imports Mempool
begin

text \<open>
  The wallet library: key derivation (\<open>wallet/src/keystore.rs\<close>), the local ledger of owned outputs
  (\<open>store.rs\<close>), coin selection and self-contained payments (\<open>planner.rs\<close>), the interactive two-party
  payment (\<open>slate.rs\<close>) and recovery from the chain (\<open>recovery.rs\<close>). Reading and writing the files
  and the BIP39 phrase are outside. Nonces are arguments; the environment variable with the treasury
  secret is \<open>treasury_var\<close>. The lemmas show that what the wallet builds is what the node admits.
\<close>

section \<open>Keystore\<close>

record keystore =
  ks_seed :: "byte list"
  ks_next_index :: u32

definition keystore_from_seed :: "byte list \<Rightarrow> keystore" where
  "keystore_from_seed seed = \<lparr>ks_seed = seed, ks_next_index = 0\<rparr>"

text \<open>\<open>bip39_seed phrase\<close> is the 64-byte seed of a phrase that parses (\<open>parse_normalized\<close>, \<open>to_seed("")\<close>).\<close>

definition from_mnemonic :: "(string \<Rightarrow> byte list option) \<Rightarrow> string \<Rightarrow> keystore option" where
  "from_mnemonic bip39_seed phrase = map_option (\<lambda>seed. keystore_from_seed (take 32 seed)) (bip39_seed phrase)"

definition derive_blinding :: "('p, 's) crypto \<Rightarrow> keystore \<Rightarrow> u32 \<Rightarrow> 's" where
  "derive_blinding cr ks idx =
     from_bytes_mod_order_wide cr
       (sha512 cr (bytes_of ''Haze Wallet Output Blinding'' @ ks_seed ks @ u32_le idx))"

definition identity_key :: "('p, 's) crypto \<Rightarrow> keystore \<Rightarrow> 's" where
  "identity_key cr ks =
     from_bytes_mod_order_wide cr (sha512 cr (bytes_of ''Haze Wallet Naming Identity'' @ ks_seed ks))"

definition allocate_index :: "keystore \<Rightarrow> u32 \<times> keystore" where
  "allocate_index ks = (ks_next_index ks, ks\<lparr>ks_next_index := ks_next_index ks + 1\<rparr>)"

definition note_key :: "('p, 's) crypto \<Rightarrow> keystore \<Rightarrow> byte list" where
  "note_key cr ks = take 32 (sha512 cr (bytes_of ''Haze Wallet Note Key'' @ ks_seed ks))"

definition ensure_next_index_at_least :: "u32 \<Rightarrow> keystore \<Rightarrow> keystore" where
  "ensure_next_index_at_least m ks = (if ks_next_index ks < m then ks\<lparr>ks_next_index := m\<rparr> else ks)"


section \<open>Owned outputs\<close>

definition GENESIS_INDEX :: u32 where "GENESIS_INDEX = - 1"

definition FAUCET_INDEX :: u32 where "FAUCET_INDEX = - 2"

datatype output_status = Pending | Confirmed | Spent

record 'p owned_output =
  oo_index :: u32
  oo_value :: u64
  oo_commitment :: "'p commitment"
  oo_status :: output_status

type_synonym 'p wallet_store = "'p owned_output list"

definition has_index :: "'p wallet_store \<Rightarrow> u32 \<Rightarrow> bool" where
  "has_index store idx = list_ex (\<lambda>o'. oo_index o' = idx) store"

definition add_output ::
    "u32 \<Rightarrow> u64 \<Rightarrow> 'p commitment \<Rightarrow> output_status \<Rightarrow> 'p wallet_store \<Rightarrow> 'p wallet_store" where
  "add_output idx value c status store =
     store @ [\<lparr>oo_index = idx, oo_value = value, oo_commitment = c, oo_status = status\<rparr>]"

text \<open>\<open>iter_mut().find(..)\<close> with an update of the element found.\<close>

fun update_first :: "('a \<Rightarrow> bool) \<Rightarrow> ('a \<Rightarrow> 'a) \<Rightarrow> 'a list \<Rightarrow> 'a list" where
  "update_first P f [] = []"
| "update_first P f (x # xs) = (if P x then f x # xs else x # update_first P f xs)"

definition mark_spent :: "'p commitment \<Rightarrow> 'p wallet_store \<Rightarrow> 'p wallet_store" where
  "mark_spent c store = update_first (\<lambda>o'. oo_commitment o' = c) (\<lambda>o'. o'\<lparr>oo_status := Spent\<rparr>) store"

definition unmark_spent :: "'p commitment \<Rightarrow> 'p wallet_store \<Rightarrow> 'p wallet_store" where
  "unmark_spent c store =
     update_first (\<lambda>o'. oo_commitment o' = c \<and> oo_status o' = Spent) (\<lambda>o'. o'\<lparr>oo_status := Confirmed\<rparr>) store"

definition remove_pending_output :: "u32 \<Rightarrow> 'p wallet_store \<Rightarrow> 'p wallet_store" where
  "remove_pending_output idx store = filter (\<lambda>o'. \<not> (oo_index o' = idx \<and> oo_status o' = Pending)) store"

definition reconcile_output :: "'p commitment set \<Rightarrow> 'p owned_output \<Rightarrow> 'p owned_output" where
  "reconcile_output chain_utxos o' =
     (case oo_status o' of
        Pending \<Rightarrow> if oo_commitment o' \<in> chain_utxos then o'\<lparr>oo_status := Confirmed\<rparr> else o'
      | Confirmed \<Rightarrow> if oo_commitment o' \<notin> chain_utxos then o'\<lparr>oo_status := Spent\<rparr> else o'
      | Spent \<Rightarrow> if oo_commitment o' \<in> chain_utxos then o'\<lparr>oo_status := Confirmed\<rparr> else o')"

definition reconcile :: "'p commitment set \<Rightarrow> 'p wallet_store \<Rightarrow> 'p wallet_store" where
  "reconcile chain_utxos store = map (reconcile_output chain_utxos) store"

definition balance :: "'p wallet_store \<Rightarrow> u64" where
  "balance store = sum_list (map oo_value (filter (\<lambda>o'. oo_status o' = Confirmed) store))"

definition pending_balance :: "'p wallet_store \<Rightarrow> u64" where
  "pending_balance store = sum_list (map oo_value (filter (\<lambda>o'. oo_status o' = Pending) store))"

definition spendable :: "'p wallet_store \<Rightarrow> 'p owned_output list" where
  "spendable store = sort_key (\<lambda>o'. - uint (oo_value o')) (filter (\<lambda>o'. oo_status o' = Confirmed) store)"

definition spendable_including_pending :: "'p wallet_store \<Rightarrow> 'p owned_output list" where
  "spendable_including_pending store =
     sort_key (\<lambda>o'. - uint (oo_value o'))
       (filter (\<lambda>o'. oo_status o' = Confirmed \<or> oo_status o' = Pending) store)"


section \<open>Coin selection and payments\<close>

definition MAX_FEE_FIT_ATTEMPTS :: nat where "MAX_FEE_FIT_ATTEMPTS = 16"

type_synonym 'p planned_output = "u32 \<times> 'p commitment \<times> u64"

record ('p, 's) send_plan =
  sp_transaction :: "('p, 's) transaction"
  sp_dest :: "'p planned_output"
  sp_change :: "'p planned_output option"
  sp_spent_commitments :: "'p commitment list"

datatype plan_error = InsufficientBalance (pe_have: u64) (pe_need: u64)

definition treasury_blinding_from_env :: "('p, 's) crypto \<Rightarrow> string option \<Rightarrow> 's option outcome" where
  "treasury_blinding_from_env cr treasury_var =
     (case treasury_var of
        None \<Rightarrow> Ret None
      | Some hex \<Rightarrow>
          if length hex \<noteq> 64 \<or> \<not> list_all is_ascii_hexdigit hex then Ret None
          else bind_outcome (hex_loop hex [0..<32]) (\<lambda>r. Ret (map_option (from_bits cr) r)))"

definition blinding_for ::
    "('p, 's::comm_ring_1) crypto \<Rightarrow> string option \<Rightarrow> keystore \<Rightarrow> u32 \<Rightarrow> 's outcome" where
  "blinding_for cr treasury_var ks idx =
     (if idx = GENESIS_INDEX then Ret (scalar_of_u64 42)
      else if idx = FAUCET_INDEX
      then bind_outcome (treasury_blinding_from_env cr treasury_var) expect
      else Ret (derive_blinding cr ks idx))"

text \<open>The loop over the sorted outputs; the total wraps like the source's.\<close>

fun select_loop :: "u64 \<Rightarrow> 'p owned_output list \<Rightarrow> u64 \<Rightarrow> 'p planned_output list \<times> u64" where
  "select_loop target [] acc = ([], acc)"
| "select_loop target (o' # os) acc =
     (if target \<le> acc then ([], acc)
      else let (selected, acc') = select_loop target os (acc + oo_value o')
           in ((oo_index o', oo_commitment o', oo_value o') # selected, acc'))"

definition select_from ::
    "'p owned_output list \<Rightarrow> 'p wallet_store \<Rightarrow> u64 \<Rightarrow> plan_error + 'p planned_output list" where
  "select_from outputs store target =
     (let (selected, selected_total) = select_loop target outputs 0
      in if selected_total < target
         then Inl (InsufficientBalance (balance store + pending_balance store) target)
         else Inr selected)"

definition select_spendable :: "'p wallet_store \<Rightarrow> u64 \<Rightarrow> plan_error + 'p planned_output list" where
  "select_spendable store target = select_from (spendable_including_pending store) store target"

definition select_spendable_confirmed_only :: "'p wallet_store \<Rightarrow> u64 \<Rightarrow> plan_error + 'p planned_output list" where
  "select_spendable_confirmed_only store target = select_from (spendable store) store target"

definition planned_value :: "'p planned_output \<Rightarrow> u64" where
  "planned_value = (\<lambda>(idx, c, value). value)"

definition planned_commitment :: "'p planned_output \<Rightarrow> 'p commitment" where
  "planned_commitment = (\<lambda>(idx, c, value). c)"

text \<open>An output the wallet makes for itself, with the nonce of its note.\<close>

definition own_output ::
    "('p::ab_group_add, 's::comm_ring_1) crypto \<Rightarrow> keystore \<Rightarrow> byte list \<Rightarrow> u32 \<Rightarrow> u64 \<Rightarrow> 'p tx_output" where
  "own_output cr ks nonce idx value =
     (let blinding = derive_blinding cr ks idx
      in \<lparr>out_commitment = commitment_new cr value blinding, out_proof = range_prove cr value blinding,
           out_note = seal cr nonce (note_key cr ks) idx value\<rparr>)"

text \<open>The randomness one attempt draws.\<close>

record 's send_random =
  sr_dest_nonce :: "byte list"
  sr_change_nonce :: "byte list"
  sr_sign_nonce :: 's

definition input_blindings ::
    "('p, 's::comm_ring_1) crypto \<Rightarrow> string option \<Rightarrow> keystore \<Rightarrow> 'p planned_output list \<Rightarrow> 's list outcome" where
  "input_blindings cr treasury_var ks selected =
     sequence_outcome (map (\<lambda>(idx, c, value). blinding_for cr treasury_var ks idx) selected)"

definition build_send_transaction ::
    "('p::ab_group_add, 's::comm_ring_1) crypto \<Rightarrow> string option \<Rightarrow> 's send_random \<Rightarrow> 'p wallet_store \<Rightarrow>
       u64 \<Rightarrow> u64 \<Rightarrow> keystore \<Rightarrow> (keystore \<times> (plan_error + ('p, 's) send_plan)) outcome" where
  "build_send_transaction cr treasury_var rnd store amount tx_fee' ks =
     (let target = amount + tx_fee' in
      case select_spendable store target of
        Inl e \<Rightarrow> Ret (ks, Inl e)
      | Inr selected \<Rightarrow>
          let selected_total = sum_list (map planned_value selected) in
          bind_outcome (input_blindings cr treasury_var ks selected) (\<lambda>blindings.
          let (dest_index, ks) = allocate_index ks;
              dest_output = own_output cr ks (sr_dest_nonce rnd) dest_index amount;
              change_value = selected_total - target;
              (change_outputs, change_blindings, change, ks) =
                (if 0 < change_value
                 then let (change_index, ks) = allocate_index ks;
                          out = own_output cr ks (sr_change_nonce rnd) change_index change_value
                      in ([out], [derive_blinding cr ks change_index],
                          Some (change_index, out_commitment out, change_value), ks)
                 else ([], [], None, ks));
              excess_blinding = sum_list blindings - sum_list (derive_blinding cr ks dest_index # change_blindings);
              kernel = \<lparr>excess = commitment_new cr 0 excess_blinding, fee = tx_fee',
                kernel_sig = sign cr (sr_sign_nonce rnd) (u64_le tx_fee') excess_blinding\<rparr>
          in Ret (ks, Inr \<lparr>
               sp_transaction = \<lparr>
                 tx_inputs = map (\<lambda>p. \<lparr>in_commitment = planned_commitment p\<rparr>) selected,
                 tx_outputs = dest_output # change_outputs, tx_kernels = [kernel]\<rparr>,
               sp_dest = (dest_index, out_commitment dest_output, amount), sp_change = change,
               sp_spent_commitments = map planned_commitment selected\<rparr>)))"

text \<open>The fee-fitting loop. \<open>rnd i\<close> is the randomness of attempt \<open>i\<close>.\<close>

fun plan_send_loop ::
    "('p::ab_group_add, 's::comm_ring_1) crypto \<Rightarrow> string option \<Rightarrow> (('p, 's) transaction \<Rightarrow> u64 option) \<Rightarrow>
       (nat \<Rightarrow> 's send_random) \<Rightarrow> 'p wallet_store \<Rightarrow> u64 \<Rightarrow> nat list \<Rightarrow> u64 \<Rightarrow> keystore \<Rightarrow>
       (keystore \<times> (plan_error + ('p, 's) send_plan)) outcome" where
  "plan_send_loop cr treasury_var size_of rnd store amount [] tx_fee' ks =
     Ret (ks, Inl (InsufficientBalance (balance store + pending_balance store) (amount + tx_fee')))"
| "plan_send_loop cr treasury_var size_of rnd store amount (i # is) tx_fee' ks =
     bind_outcome (build_send_transaction cr treasury_var (rnd i) store amount tx_fee' ks) (\<lambda>(ks, r).
       case r of
         Inl e \<Rightarrow> Ret (ks, Inl e)
       | Inr plan \<Rightarrow>
           let required = required_fee size_of (sp_transaction plan) in
           if required \<le> tx_fee' then Ret (ks, Inr plan)
           else plan_send_loop cr treasury_var size_of rnd store amount is required ks)"

definition plan_send ::
    "('p::ab_group_add, 's::comm_ring_1) crypto \<Rightarrow> string option \<Rightarrow> (('p, 's) transaction \<Rightarrow> u64 option) \<Rightarrow>
       (nat \<Rightarrow> 's send_random) \<Rightarrow> 'p wallet_store \<Rightarrow> u64 \<Rightarrow> u64 \<Rightarrow> keystore \<Rightarrow>
       (keystore \<times> (plan_error + ('p, 's) send_plan)) outcome" where
  "plan_send cr treasury_var size_of rnd store amount tx_fee' ks =
     plan_send_loop cr treasury_var size_of rnd store amount [0..<MAX_FEE_FIT_ATTEMPTS] tx_fee' ks"



section \<open>Two-party payments\<close>

definition slate_challenge_message :: "u64 \<Rightarrow> byte list" where
  "slate_challenge_message f = u64_le f"

record ('p, 's) slate =
  sl_amount :: u64
  sl_fee :: u64
  sl_inputs :: "'p tx_input list"
  sl_sender_output :: "'p tx_output option"
  sl_sender_excess_point :: "'p commitment"
  sl_sender_nonce_point :: "'p commitment"
  sl_receiver_output :: "'p tx_output option"
  sl_receiver_excess_point :: "'p commitment option"
  sl_receiver_nonce_point :: "'p commitment option"
  sl_receiver_partial_sig :: "'s option"

record 'p change_info =
  ci_index :: u32
  ci_output :: "'p tx_output"
  ci_value :: u64

record ('p, 's) pending_slate =
  ps_fee :: u64
  ps_spent_commitments :: "'p commitment list"
  ps_change :: "'p change_info option"
  ps_excess_blinding :: 's
  ps_nonce :: 's
  ps_nonce_point :: "'p commitment"

record 'p owned_output_info =
  oi_index :: u32
  oi_value :: u64
  oi_commitment :: "'p commitment"

datatype slate_error = IncompleteResponse

record 's slate_random =
  lr_change_nonce :: "byte list"
  lr_placeholder_nonce :: "byte list"
  lr_nonce :: 's

definition build_slate ::
    "('p::ab_group_add, 's::comm_ring_1) crypto \<Rightarrow> string option \<Rightarrow> 's slate_random \<Rightarrow> 'p wallet_store \<Rightarrow>
       u64 \<Rightarrow> u64 \<Rightarrow> keystore \<Rightarrow>
       (keystore \<times> (plan_error + ('p, 's) slate \<times> ('p, 's) pending_slate \<times> ('p, 's) transaction)) outcome" where
  "build_slate cr treasury_var rnd store amount tx_fee' ks =
     (let target = amount + tx_fee' in
      case select_spendable store target of
        Inl e \<Rightarrow> Ret (ks, Inl e)
      | Inr selected \<Rightarrow>
          let selected_total = sum_list (map planned_value selected) in
          bind_outcome (input_blindings cr treasury_var ks selected) (\<lambda>blindings.
          let inputs = map (\<lambda>p. \<lparr>in_commitment = planned_commitment p\<rparr>) selected;
              change_value = selected_total - target;
              (sender_output, change, change_blinding, ks) =
                (if 0 < change_value
                 then let (change_index, ks) = allocate_index ks;
                          out = own_output cr ks (lr_change_nonce rnd) change_index change_value
                      in (Some out, Some \<lparr>ci_index = change_index, ci_output = out, ci_value = change_value\<rparr>,
                          derive_blinding cr ks change_index, ks)
                 else (None, None, 0, ks));
              excess_blinding = sum_list blindings - change_blinding;
              nonce = lr_nonce rnd;
              placeholder = \<lparr>out_commitment = commitment_new cr amount 0, out_proof = range_prove cr amount 0,
                out_note = seal cr (lr_placeholder_nonce rnd) (note_key cr ks) 0 0\<rparr>;
              probe_tx = \<lparr>tx_inputs = inputs,
                tx_outputs = (case sender_output of None \<Rightarrow> [] | Some out \<Rightarrow> [out]) @ [placeholder],
                tx_kernels = [\<lparr>excess = commitment_new cr 0 excess_blinding, fee = tx_fee',
                  kernel_sig = \<lparr>sig_s = 0, sig_e = 0\<rparr>\<rparr>]\<rparr>
          in Ret (ks, Inr
               (\<lparr>sl_amount = amount, sl_fee = tx_fee', sl_inputs = inputs, sl_sender_output = sender_output,
                  sl_sender_excess_point = commitment_new cr 0 excess_blinding,
                  sl_sender_nonce_point = Commitment (nonce_point cr nonce),
                  sl_receiver_output = None, sl_receiver_excess_point = None, sl_receiver_nonce_point = None,
                  sl_receiver_partial_sig = None\<rparr>,
                \<lparr>ps_fee = tx_fee', ps_spent_commitments = map planned_commitment selected, ps_change = change,
                  ps_excess_blinding = excess_blinding, ps_nonce = nonce,
                  ps_nonce_point = Commitment (nonce_point cr nonce)\<rparr>,
                probe_tx))))"

fun create_slate_loop ::
    "('p::ab_group_add, 's::comm_ring_1) crypto \<Rightarrow> string option \<Rightarrow> (('p, 's) transaction \<Rightarrow> u64 option) \<Rightarrow>
       (nat \<Rightarrow> 's slate_random) \<Rightarrow> 'p wallet_store \<Rightarrow> u64 \<Rightarrow> nat list \<Rightarrow> u64 \<Rightarrow> keystore \<Rightarrow>
       (keystore \<times> (plan_error + ('p, 's) slate \<times> ('p, 's) pending_slate)) outcome" where
  "create_slate_loop cr treasury_var size_of rnd store amount [] tx_fee' ks =
     Ret (ks, Inl (InsufficientBalance (balance store + pending_balance store) (amount + tx_fee')))"
| "create_slate_loop cr treasury_var size_of rnd store amount (i # is) tx_fee' ks =
     bind_outcome (build_slate cr treasury_var (rnd i) store amount tx_fee' ks) (\<lambda>(ks, r).
       case r of
         Inl e \<Rightarrow> Ret (ks, Inl e)
       | Inr (built_slate, pending, probe_tx) \<Rightarrow>
           let required = required_fee size_of probe_tx in
           if required \<le> tx_fee' then Ret (ks, Inr (built_slate, pending))
           else create_slate_loop cr treasury_var size_of rnd store amount is required ks)"

definition create_slate ::
    "('p::ab_group_add, 's::comm_ring_1) crypto \<Rightarrow> string option \<Rightarrow> (('p, 's) transaction \<Rightarrow> u64 option) \<Rightarrow>
       (nat \<Rightarrow> 's slate_random) \<Rightarrow> 'p wallet_store \<Rightarrow> u64 \<Rightarrow> u64 \<Rightarrow> keystore \<Rightarrow>
       (keystore \<times> (plan_error + ('p, 's) slate \<times> ('p, 's) pending_slate)) outcome" where
  "create_slate cr treasury_var size_of rnd store amount tx_fee' ks =
     create_slate_loop cr treasury_var size_of rnd store amount [0..<MAX_FEE_FIT_ATTEMPTS] tx_fee' ks"

text \<open>\<open>seal_nonce\<close> and \<open>k\<close> are the receiver's fresh randomness.\<close>

definition respond_to_slate ::
    "('p::ab_group_add, 's::comm_ring_1) crypto \<Rightarrow> byte list \<Rightarrow> 's \<Rightarrow> ('p, 's) slate \<Rightarrow> keystore \<Rightarrow>
       keystore \<times> ('p, 's) slate \<times> 'p owned_output_info" where
  "respond_to_slate cr seal_nonce k sl ks =
     (let (out_index, ks) = allocate_index ks;
          out = own_output cr ks seal_nonce out_index (sl_amount sl);
          k_r = 0 - derive_blinding cr ks out_index;
          receiver_excess_point = commitment_new cr 0 k_r;
          receiver_nonce_point = Commitment (nonce_point cr k);
          agg_excess_point = as_point (sl_sender_excess_point sl) + as_point receiver_excess_point;
          agg_nonce_point = as_point (sl_sender_nonce_point sl) + as_point receiver_nonce_point;
          e = compute_challenge cr (slate_challenge_message (sl_fee sl)) agg_excess_point agg_nonce_point
      in (ks,
          sl\<lparr>sl_receiver_output := Some out, sl_receiver_excess_point := Some receiver_excess_point,
             sl_receiver_nonce_point := Some receiver_nonce_point,
             sl_receiver_partial_sig := Some (partial_sign k k_r e)\<rparr>,
          \<lparr>oi_index = out_index, oi_value = sl_amount sl, oi_commitment = out_commitment out\<rparr>))"

definition ok_or :: "'a option \<Rightarrow> 'e \<Rightarrow> 'e + 'a" where
  "ok_or x e = (case x of None \<Rightarrow> Inl e | Some v \<Rightarrow> Inr v)"

definition bind_result :: "'e + 'a \<Rightarrow> ('a \<Rightarrow> 'e + 'b) \<Rightarrow> 'e + 'b" where
  "bind_result r f = (case r of Inl e \<Rightarrow> Inl e | Inr x \<Rightarrow> f x)"

definition finalize_slate ::
    "('p::ab_group_add, 's::comm_ring_1) crypto \<Rightarrow> ('p, 's) pending_slate \<Rightarrow> ('p, 's) slate \<Rightarrow>
       slate_error + ('p, 's) transaction" where
  "finalize_slate cr pending response =
     bind_result (ok_or (sl_receiver_output response) IncompleteResponse) (\<lambda>receiver_output.
     bind_result (ok_or (sl_receiver_excess_point response) IncompleteResponse) (\<lambda>receiver_excess_point.
     bind_result (ok_or (sl_receiver_nonce_point response) IncompleteResponse) (\<lambda>receiver_nonce_point.
     bind_result (ok_or (sl_receiver_partial_sig response) IncompleteResponse) (\<lambda>receiver_partial_sig.
     let sender_excess_point = as_point (commitment_new cr 0 (ps_excess_blinding pending));
         agg_excess_point = sender_excess_point + as_point receiver_excess_point;
         agg_nonce_point = as_point (ps_nonce_point pending) + as_point receiver_nonce_point;
         e = compute_challenge cr (slate_challenge_message (ps_fee pending)) agg_excess_point agg_nonce_point;
         sender_partial_sig = partial_sign (ps_nonce pending) (ps_excess_blinding pending) e;
         sig = aggregate_sigs [sender_partial_sig, receiver_partial_sig] e
     in Inr \<lparr>tx_inputs = map (\<lambda>c. \<lparr>in_commitment = c\<rparr>) (ps_spent_commitments pending),
          tx_outputs = (case ps_change pending of None \<Rightarrow> [] | Some change \<Rightarrow> [ci_output change]) @ [receiver_output],
          tx_kernels = [\<lparr>excess = Commitment agg_excess_point, fee = ps_fee pending, kernel_sig = sig\<rparr>]\<rparr>))))"


section \<open>Recovery\<close>

record scan_entry =
  se_commitment_hex :: string
  se_note_hex :: string

record 'p recovery_result =
  rr_store :: "'p wallet_store"
  rr_recovered_count :: u32
  rr_recovered_balance :: u64

definition recovery_hex_decode :: "string \<Rightarrow> byte list option outcome" where
  "recovery_hex_decode hex =
     (if length hex mod 2 \<noteq> 0 then Ret None else hex_loop hex [0..<length hex div 2])"

text \<open>One entry: the index and value it proves to be ours, or nothing (\<open>continue\<close>).\<close>

definition recover_entry ::
    "('p::ab_group_add, 's::comm_ring_1) crypto \<Rightarrow> keystore \<Rightarrow> scan_entry \<Rightarrow> (u32 \<times> u64) option outcome" where
  "recover_entry cr ks entry =
     bind_outcome (recovery_hex_decode (se_note_hex entry)) (\<lambda>note_bytes.
       Ret (do {
         bytes \<leftarrow> note_bytes;
         (idx, v) \<leftarrow> open_note cr (note_key cr ks) bytes;
         check (commitment_to_hex cr (commitment_new cr v (derive_blinding cr ks idx)) = se_commitment_hex entry);
         Some (idx, v)
       }))"

record 'p recovery_acc =
  ra_result :: "'p recovery_result"
  ra_max_index :: "u32 option"

definition recover_step ::
    "('p::ab_group_add, 's::comm_ring_1) crypto \<Rightarrow> keystore \<Rightarrow> string set \<Rightarrow> scan_entry \<Rightarrow> 'p recovery_acc \<Rightarrow>
       'p recovery_acc outcome" where
  "recover_step cr ks utxo_set entry acc =
     bind_outcome (recover_entry cr ks entry) (\<lambda>r.
       Ret (case r of
         None \<Rightarrow> acc
       | Some (idx, v) \<Rightarrow>
           let acc = acc\<lparr>ra_max_index :=
                 Some (case ra_max_index acc of None \<Rightarrow> idx | Some m \<Rightarrow> max m idx)\<rparr>
           in if se_commitment_hex entry \<in> utxo_set
              then acc\<lparr>ra_result := \<lparr>
                rr_store = add_output idx v (commitment_new cr v (derive_blinding cr ks idx)) Confirmed
                  (rr_store (ra_result acc)),
                rr_recovered_count = rr_recovered_count (ra_result acc) + 1,
                rr_recovered_balance = rr_recovered_balance (ra_result acc) + v\<rparr>\<rparr>
              else acc))"

definition recover_from_chain ::
    "('p::ab_group_add, 's::comm_ring_1) crypto \<Rightarrow> scan_entry list \<Rightarrow> string set \<Rightarrow> keystore \<Rightarrow>
       (keystore \<times> 'p recovery_result) outcome" where
  "recover_from_chain cr entries utxo_set ks =
     bind_outcome (fold_outcome (recover_step cr ks utxo_set) entries
       \<lparr>ra_result = \<lparr>rr_store = [], rr_recovered_count = 0, rr_recovered_balance = 0\<rparr>, ra_max_index = None\<rparr>) (\<lambda>acc.
       Ret (case ra_max_index acc of None \<Rightarrow> ks | Some m \<Rightarrow> ensure_next_index_at_least (m + 1) ks, ra_result acc))"


section \<open>Coin selection\<close>

text \<open>The wallet can open an output it lists: its commitment is to the recorded value, under the
  blinding factor of the recorded index.\<close>

definition opens_output ::
    "('p::ab_group_add, 's::comm_ring_1) crypto \<Rightarrow> string option \<Rightarrow> keystore \<Rightarrow> 'p owned_output \<Rightarrow> bool" where
  "opens_output cr treasury_var ks o' \<longleftrightarrow>
     (case blinding_for cr treasury_var ks (oo_index o') of
        Panic \<Rightarrow> False
      | Ret r \<Rightarrow> oo_commitment o' = commitment_new cr (oo_value o') r)"

definition wallet_opens ::
    "('p::ab_group_add, 's::comm_ring_1) crypto \<Rightarrow> string option \<Rightarrow> keystore \<Rightarrow> 'p wallet_store \<Rightarrow> bool" where
  "wallet_opens cr treasury_var ks store \<longleftrightarrow> list_all (opens_output cr treasury_var ks) store"

definition store_total :: "'p wallet_store \<Rightarrow> nat" where
  "store_total store = (\<Sum>o' \<leftarrow> store. unat (oo_value o'))"

definition planned :: "'p owned_output \<Rightarrow> 'p planned_output" where
  "planned o' = (oo_index o', oo_commitment o', oo_value o')"

lemma planned_simps [simp]:
  "planned_value (planned o') = oo_value o'"
  "planned_commitment (planned o') = oo_commitment o'"
  by (simp_all add: planned_def planned_value_def planned_commitment_def)

lemma select_loop_prefix:
  assumes "select_loop target os acc = (selected, acc')"
  shows "\<exists>n. selected = map planned (take n os) \<and> acc' = acc + sum_list (map planned_value selected)"
  using assms
proof (induction target os acc arbitrary: selected acc' rule: select_loop.induct)
  case (1 target acc)
  then show ?case by (auto intro: exI [of _ 0])
next
  case (2 target o' os acc)
  show ?case
  proof (cases "target \<le> acc")
    case True
    with "2.prems" show ?thesis by (auto intro: exI [of _ 0])
  next
    case False
    with "2.prems" obtain sel where sel: "select_loop target os (acc + oo_value o') = (sel, acc')"
        "selected = planned o' # sel"
      by (auto simp: planned_def split: prod.splits)
    with "2.IH" [OF False sel(1)] obtain n where "sel = map planned (take n os)"
        "acc' = acc + oo_value o' + sum_list (map planned_value sel)" by blast
    with sel(2) show ?thesis by (auto intro!: exI [of _ "Suc n"])
  qed
qed

lemma store_total_subset: "mset xs \<subseteq># mset store \<Longrightarrow> store_total xs \<le> store_total store"
  unfolding store_total_def sum_mset_sum_list [symmetric] mset_map
  by (metis (no_types, lifting) image_mset_union le_add1 subset_mset.le_iff_add sum_mset.union)

lemma select_spendable_selects:
  assumes "select_spendable store target = Inr selected"
  obtains os where "selected = map planned os" "mset os \<subseteq># mset store"
    "\<forall>o' \<in> set os. oo_status o' \<noteq> Spent" "target \<le> sum_list (map planned_value selected)"
proof -
  let ?sorted = "spendable_including_pending store"
  obtain total where loop: "select_loop target ?sorted 0 = (selected, total)" and total: "target \<le> total"
    using assms by (auto simp: select_spendable_def select_from_def split: prod.splits if_splits)
  from select_loop_prefix [OF loop] obtain n where n: "selected = map planned (take n ?sorted)"
      "total = sum_list (map planned_value selected)" by auto
  have "mset ?sorted \<subseteq># mset store"
    by (simp add: spendable_including_pending_def multiset_filter_subset)
  then have "mset (take n ?sorted) \<subseteq># mset store"
    by (metis append_take_drop_id mset_append mset_subset_eq_add_left subset_mset.order_trans)
  moreover have "\<forall>o' \<in> set (take n ?sorted). oo_status o' \<noteq> Spent"
    by (auto simp: spendable_including_pending_def dest!: in_set_takeD)
  ultimately show thesis using that n total by metis
qed

lemma input_blindings_planned:
  "input_blindings cr treasury_var ks (map planned os) =
     sequence_outcome (map (\<lambda>o'. blinding_for cr treasury_var ks (oo_index o')) os)"
  by (simp add: input_blindings_def planned_def comp_def)

lemma input_blindings_open:
  assumes laws: "module_laws cr" and "wallet_opens cr treasury_var ks os"
    and "input_blindings cr treasury_var ks (map planned os) = Ret blindings"
  shows "sum_points (map oo_commitment os) =
      smul cr (\<Sum>o' \<leftarrow> os. scalar_of_u64 (oo_value o')) (gen_B cr) + smul cr (sum_list blindings) (gen_B_blinding cr)"
  using assms(2,3)
proof (induction os arbitrary: blindings)
  case Nil
  then show ?case by (simp add: input_blindings_planned [of _ _ _ "[]", simplified] module_simps [OF laws])
next
  case (Cons o' os)
  then obtain r rs where "blinding_for cr treasury_var ks (oo_index o') = Ret r"
      "input_blindings cr treasury_var ks (map planned os) = Ret rs" "blindings = r # rs"
    unfolding input_blindings_planned by (auto simp: guard_simps)
  with Cons show ?case
    by (simp add: wallet_opens_def opens_output_def commitment_new_def module_simps [OF laws] algebra_simps)
qed

text \<open>What a selection brings to the balance of the transaction.\<close>

lemma planned_opens:
  assumes "module_laws cr" and "wallet_opens cr treasury_var ks store" and "store_total store < 2 ^ 64"
    and os: "mset os \<subseteq># mset store" and "input_blindings cr treasury_var ks (map planned os) = Ret blindings"
  shows "sum_points (map planned_commitment (map planned os)) =
      smul cr (scalar_of_u64 (sum_list (map planned_value (map planned os)))) (gen_B cr) +
      smul cr (sum_list blindings) (gen_B_blinding cr)"
proof -
  have "wallet_opens cr treasury_var ks os"
    using assms(2) os by (auto simp: wallet_opens_def list_all_iff dest: mset_subset_eqD simp flip: set_mset_mset)
  moreover have "sum_list (map unat (map oo_value os)) < 2 ^ 64"
    using store_total_subset [OF os] assms(3) by (simp add: store_total_def comp_def)
  from scalar_of_u64_sum_list [OF this] have
      "scalar_of_u64 (sum_list (map planned_value (map planned os))) = (\<Sum>o' \<leftarrow> os. scalar_of_u64 (oo_value o') :: 'b)"
    by (simp add: comp_def)
  ultimately show ?thesis using input_blindings_open [OF assms(1) _ assms(5)] by (simp add: comp_def)
qed

lemma selection_opens:
  assumes "module_laws cr" and "wallet_opens cr treasury_var ks store" and "store_total store < 2 ^ 64"
    and "select_spendable store target = Inr selected"
    and "input_blindings cr treasury_var ks selected = Ret blindings"
  shows "sum_points (map planned_commitment selected) =
      smul cr (scalar_of_u64 (sum_list (map planned_value selected))) (gen_B cr) +
      smul cr (sum_list blindings) (gen_B_blinding cr)"
proof -
  obtain os where os: "selected = map planned os" "mset os \<subseteq># mset store"
    by (rule select_spendable_selects [OF assms(4)]) blast
  with assms show ?thesis by (simp only: planned_opens)
qed


section \<open>What the planner builds, the mempool admits\<close>

lemma keystore_seed_only:
  assumes "ks_seed ks' = ks_seed ks"
  shows "derive_blinding cr ks' idx = derive_blinding cr ks idx"
    and "note_key cr ks' = note_key cr ks"
    and "blinding_for cr treasury_var ks' idx = blinding_for cr treasury_var ks idx"
    and "wallet_opens cr treasury_var ks' store = wallet_opens cr treasury_var ks store"
  using assms by (simp_all add: derive_blinding_def note_key_def blinding_for_def wallet_opens_def
      opens_output_def [abs_def])

text \<open>What an output of the wallet is made of.\<close>

lemma own_output_opens [simp]:
  "out_commitment (own_output cr ks nonce idx v) = commitment_new cr v (derive_blinding cr ks idx)"
  "out_proof (own_output cr ks nonce idx v) = range_prove cr v (derive_blinding cr ks idx)"
  "out_note (own_output cr ks nonce idx v) = seal cr nonce (note_key cr ks) idx v"
  by (simp_all add: own_output_def Let_def)

text \<open>The balance equation of a payment with optional change, in scalars.\<close>

lemma scalar_of_u64_add:
  "unat v + unat w < 2 ^ 64 \<Longrightarrow> scalar_of_u64 (v + w) = scalar_of_u64 v + scalar_of_u64 w"
  by (simp add: scalar_of_u64_def unat_word_ariths)

lemma scalar_of_u64_diff: "w \<le> v \<Longrightarrow> scalar_of_u64 (v - w) = scalar_of_u64 v - scalar_of_u64 w"
  by (simp add: scalar_of_u64_def unat_sub word_le_nat_alt of_nat_diff)

text \<open>A transaction balances when its inputs open to the values of its outputs and the fee, its kernel
  is the difference of the blinding factors, and the parts verify one by one.\<close>

lemma payment_validates:
  assumes laws: "module_laws cr"
    and "sum_points (map in_commitment ins) =
      smul cr ((\<Sum>(v, r) \<leftarrow> ovs. scalar_of_u64 v) + scalar_of_u64 (fee k)) (gen_B cr) + smul cr rin (gen_B_blinding cr)"
    and "map out_commitment outs = map (\<lambda>(v, r). commitment_new cr v r) ovs"
    and "list_all (\<lambda>out. range_verify cr (out_proof out) (out_commitment out)) outs"
    and "kernel_ok cr k" and "excess k = commitment_new cr 0 (rin - (\<Sum>(v, r) \<leftarrow> ovs. r))"
  shows "validate cr \<lparr>tx_inputs = ins, tx_outputs = outs, tx_kernels = [k]\<rparr>"
proof -
  have "sum_points (map (\<lambda>(v, r). commitment_new cr v r) vs) =
      smul cr (\<Sum>(v, r) \<leftarrow> vs. scalar_of_u64 v) (gen_B cr) + smul cr (\<Sum>(v, r) \<leftarrow> vs. r) (gen_B_blinding cr)" for vs
    by (induction vs) (auto simp: module_simps [OF laws] commitment_new_def algebra_simps)
  with assms show ?thesis
    by (simp add: validate_def validate_with_reward_iff [OF laws] commitment_new_zero [OF laws]
        smul_add [OF laws] smul_diff [OF laws] smul_zero [OF laws])
qed

lemma derive_blinding_index [simp]:
  "derive_blinding cr (ks\<lparr>ks_next_index := n\<rparr>) idx = derive_blinding cr ks idx"
  by (simp add: derive_blinding_def)

lemma note_key_index [simp]: "note_key cr (ks\<lparr>ks_next_index := n\<rparr>) = note_key cr ks"
  by (simp add: note_key_def)

text \<open>The two outcomes of the planner, with and without change, as one shape.\<close>

lemma build_send_shape:
  fixes cr :: "('p::ab_group_add, 's::comm_ring_1) crypto"
  assumes rpc: "range_proof_complete cr"
    and build: "build_send_transaction cr treasury_var rnd store amount f ks = Ret (ks', Inr plan)"
  obtains selected blindings outs ovs where
    "select_spendable store (amount + f) = Inr selected"
    "input_blindings cr treasury_var ks selected = Ret blindings"
    "sp_transaction plan = \<lparr>tx_inputs = map (\<lambda>p. \<lparr>in_commitment = planned_commitment p\<rparr>) selected, tx_outputs = outs,
       tx_kernels = [\<lparr>excess = commitment_new cr 0 (sum_list blindings - (\<Sum>(v, r) \<leftarrow> ovs. r)), fee = f,
         kernel_sig = sign cr (sr_sign_nonce rnd) (u64_le f) (sum_list blindings - (\<Sum>(v, r) \<leftarrow> ovs. r))\<rparr>]\<rparr>"
    "map out_commitment outs = map (\<lambda>(v, r). commitment_new cr v r) ovs"
    "list_all (\<lambda>out. range_verify cr (out_proof out) (out_commitment out)) outs"
    "(\<Sum>(v, r) \<leftarrow> ovs. scalar_of_u64 v) =
       scalar_of_u64 amount + (scalar_of_u64 (sum_list (map planned_value selected) - (amount + f)) :: 's)"
    "sp_spent_commitments plan = map planned_commitment selected"
    "ks_seed ks' = ks_seed ks"
proof -
  obtain selected where sel: "select_spendable store (amount + f) = Inr selected"
    using build by (auto simp: build_send_transaction_def Let_def split: sum.splits)
  then obtain blindings where bs: "input_blindings cr treasury_var ks selected = Ret blindings"
    using build by (auto simp: build_send_transaction_def Let_def guard_simps)
  let ?change = "sum_list (map planned_value selected) - (amount + f)"
    and ?dest = "(amount, derive_blinding cr ks (ks_next_index ks))"
  note simps = build_send_transaction_def sel bs allocate_index_def Let_def range_verify_prove [OF rpc]
  show thesis
  proof (cases "0 < ?change")
    case True
    with build show thesis
      by (intro that [of selected blindings "tx_outputs (sp_transaction plan)"
            "[?dest, (?change, derive_blinding cr ks (ks_next_index ks + 1))]"])
        (auto simp: simps)
  next
    case False
    then have "scalar_of_u64 ?change = (0 :: 's)" by (metis scalar_of_u64_0 word_gt_0)
    with False build show thesis
      by (intro that [of selected blindings "tx_outputs (sp_transaction plan)" "[?dest]"]) (auto simp: simps)
  qed
qed

lemma build_send_valid:
  fixes cr :: "('p::ab_group_add, 's::comm_ring_1) crypto"
  assumes laws: "module_laws cr" "range_proof_complete cr" "wallet_opens cr treasury_var ks store"
      "store_total store < 2 ^ 64" "unat amount + unat f < 2 ^ 64"
    and build: "build_send_transaction cr treasury_var rnd store amount f ks = Ret (ks', Inr plan)"
  shows "validate cr (sp_transaction plan) \<and> tx_fee (sp_transaction plan) = f"
proof -
  obtain selected blindings outs ovs where sel: "select_spendable store (amount + f) = Inr selected"
      and bs: "input_blindings cr treasury_var ks selected = Ret blindings"
      and tx: "sp_transaction plan = \<lparr>tx_inputs = map (\<lambda>p. \<lparr>in_commitment = planned_commitment p\<rparr>) selected, tx_outputs = outs,
       tx_kernels = [\<lparr>excess = commitment_new cr 0 (sum_list blindings - (\<Sum>(v, r) \<leftarrow> ovs. r)), fee = f,
         kernel_sig = sign cr (sr_sign_nonce rnd) (u64_le f) (sum_list blindings - (\<Sum>(v, r) \<leftarrow> ovs. r))\<rparr>]\<rparr>"
      and outs: "map out_commitment outs = map (\<lambda>(v, r). commitment_new cr v r) ovs"
      "list_all (\<lambda>out. range_verify cr (out_proof out) (out_commitment out)) outs"
      "(\<Sum>(v, r) \<leftarrow> ovs. scalar_of_u64 v) =
         scalar_of_u64 amount + (scalar_of_u64 (sum_list (map planned_value selected) - (amount + f)) :: 's)"
    by (rule build_send_shape [OF laws(2) build])
  have covers: "amount + f \<le> sum_list (map planned_value selected)" by (rule select_spendable_selects [OF sel])
  have "(\<Sum>(v, r) \<leftarrow> ovs. scalar_of_u64 v) + scalar_of_u64 f = (scalar_of_u64 (sum_list (map planned_value selected)) :: 's)"
    by (simp add: outs(3) scalar_of_u64_diff [OF covers] scalar_of_u64_add [OF laws(5)])
  with selection_opens [OF laws(1,3,4) sel bs] have "validate cr (sp_transaction plan)"
    unfolding tx
    by (intro payment_validates [OF laws(1) _ outs(1,2), where rin = "sum_list blindings"])
      (simp_all add: comp_def kernel_ok_def sign_verify_excess [OF laws(1)])
  then show ?thesis by (simp add: tx tx_fee_def)
qed


text \<open>The plan the loop returns is the plan of one attempt, whose fee covers the size of what it built.\<close>

lemma plan_send_loop_attempt:
  assumes "range_proof_complete cr"
    and "plan_send_loop cr treasury_var size_of rnd store amount is f0 ks = Ret (ks', Inr plan)"
  obtains i f ks0 where "build_send_transaction cr treasury_var (rnd i) store amount f ks0 = Ret (ks', Inr plan)"
    "ks_seed ks0 = ks_seed ks" "required_fee size_of (sp_transaction plan) \<le> f" "f0 \<le> f"
proof -
  have "\<exists>i f ks0. build_send_transaction cr treasury_var (rnd i) store amount f ks0 = Ret (ks', Inr plan) \<and>
      ks_seed ks0 = ks_seed ks \<and> required_fee size_of (sp_transaction plan) \<le> f \<and> f0 \<le> f"
    using assms(2)
  proof (induction "is" arbitrary: f0 ks)
    case (Cons i "is")
    from Cons.prems obtain ks1 plan1 where b: "build_send_transaction cr treasury_var (rnd i) store amount f0 ks = Ret (ks1, Inr plan1)"
      by (cases "build_send_transaction cr treasury_var (rnd i) store amount f0 ks") (auto split: sum.splits)
    have seed: "ks_seed ks1 = ks_seed ks" by (rule build_send_shape [OF assms(1) b])
    show ?case
    proof (cases "required_fee size_of (sp_transaction plan1) \<le> f0")
      case True
      with Cons.prems b show ?thesis by auto
    next
      case False
      with Cons.prems b have "plan_send_loop cr treasury_var size_of rnd store amount is
          (required_fee size_of (sp_transaction plan1)) ks1 = Ret (ks', Inr plan)" by (simp add: Let_def)
      from Cons.IH [OF this] False seed show ?thesis by (metis linear order_trans)
    qed
  qed simp
  then show thesis using that by blast
qed

text \<open>What the wallet plans, the node admits: when the wallet can open the outputs it lists and neither
  their total nor amount plus fee overflows 64 bits, every plan that \<open>plan_send\<close> returns is a
  transaction that the mempool accepts as long as it has room, that spends only unspent outputs of
  the wallet and that pays at least the fee asked for.\<close>

theorem plan_send_admitted:
  assumes "module_laws cr" "range_proof_complete cr" "wallet_opens cr treasury_var ks store"
      "store_total store < 2 ^ 64"
    and plan: "plan_send cr treasury_var size_of rnd store amount f ks = Ret (ks', Inr plan)"
    and "unat amount + unat (tx_fee (sp_transaction plan)) < 2 ^ 64"
    and "length (mp_txs mp) < MAX_PENDING_TXS"
  shows "add_transaction cr size_of (sp_transaction plan) mp =
      (True, mp\<lparr>mp_txs := mp_txs mp @ [sp_transaction plan]\<rparr>) \<and>
    map in_commitment (tx_inputs (sp_transaction plan)) = sp_spent_commitments plan \<and>
    set (sp_spent_commitments plan) \<subseteq> {oo_commitment o' |o'. o' \<in> set store \<and> oo_status o' \<noteq> Spent} \<and>
    f \<le> tx_fee (sp_transaction plan)"
proof -
  obtain i g ks0 where build: "build_send_transaction cr treasury_var (rnd i) store amount g ks0 = Ret (ks', Inr plan)"
      and seed: "ks_seed ks0 = ks_seed ks" and paid: "required_fee size_of (sp_transaction plan) \<le> g" "f \<le> g"
    using plan unfolding plan_send_def by (rule plan_send_loop_attempt [OF assms(2)])
  obtain selected where sel: "select_spendable store (amount + g) = Inr selected"
      and tx: "map in_commitment (tx_inputs (sp_transaction plan)) = map planned_commitment selected"
        "tx_fee (sp_transaction plan) = g" "sp_spent_commitments plan = map planned_commitment selected"
    by (rule build_send_shape [OF assms(2) build]) (auto simp: tx_fee_def comp_def)
  obtain os where os: "selected = map planned os" "mset os \<subseteq># mset store" "\<forall>o' \<in> set os. oo_status o' \<noteq> Spent"
    by (rule select_spendable_selects [OF sel]) blast
  have "validate cr (sp_transaction plan)"
    using build_send_valid [OF assms(1,2) _ assms(4) _ build] assms(3,6)
    by (simp add: tx(2) keystore_seed_only(4) [OF seed])
  moreover have "set os \<subseteq> set store" using os(2) by (metis set_mset_mono set_mset_mset)
  ultimately show ?thesis
    using assms(7) paid os tx by (auto simp: add_transaction_def)
qed

text \<open>A wallet of the concrete instance: two outputs at indices 0 and 1 and a payment of 60 with change.\<close>

definition w_wallet :: "wpoint wallet_store" where
  "w_wallet = [\<lparr>oo_index = 0, oo_value = 50, oo_commitment = w_com 50 1, oo_status = Confirmed\<rparr>,
     \<lparr>oo_index = 1, oo_value = 40, oo_commitment = w_com 40 1, oo_status = Pending\<rparr>]"

definition w_keys :: keystore where
  "w_keys = \<lparr>ks_seed = replicate 32 7, ks_next_index = 2\<rparr>"

definition w_send_random :: "nat \<Rightarrow> u64 send_random" where
  "w_send_random i = \<lparr>sr_dest_nonce = replicate 12 0, sr_change_nonce = replicate 12 1, sr_sign_nonce = 3\<rparr>"

lemma w_derive_blinding [simp]: "derive_blinding w_crypto ks idx = 1"
  by (simp add: derive_blinding_def w_crypto_def)

lemma w_wallet_opens: "wallet_opens w_crypto None w_keys w_wallet"
  by (simp add: wallet_opens_def opens_output_def blinding_for_def w_wallet_def GENESIS_INDEX_def FAUCET_INDEX_def)

lemma w_wallet_total: "store_total w_wallet < 2 ^ 64"
  by (simp add: store_total_def w_wallet_def)

lemma w_select: "select_spendable w_wallet 65 = Inr [(0, w_com 50 1, 50), (1, w_com 40 1, 40)]"
  by (simp add: select_spendable_def select_from_def spendable_including_pending_def w_wallet_def)

lemma w_select_first: "select_spendable w_wallet 60 = Inr [(0, w_com 50 1, 50), (1, w_com 40 1, 40)]"
  by (simp add: select_spendable_def select_from_def spendable_including_pending_def w_wallet_def)

lemma w_attempts: "[0..<MAX_FEE_FIT_ATTEMPTS] = 0 # 1 # [2..<16]"
  by (simp add: MAX_FEE_FIT_ATTEMPTS_def upt_conv_Cons)

lemmas w_wallet_eval = w_select w_select_first input_blindings_def blinding_for_def GENESIS_INDEX_def FAUCET_INDEX_def
  planned_value_def planned_commitment_def allocate_index_def Let_def w_send_random_def required_fee_def div_ceil_def
  FEE_PER_KB_def MIN_FEE_def tx_fee_def

theorem plan_send_admitted_witness:
  "\<exists>ks' plan. plan_send w_crypto None (\<lambda>_. Some 952) w_send_random w_wallet 60 0 w_keys = Ret (ks', Inr plan) \<and>
     fst (add_transaction w_crypto (\<lambda>_. Some 952) (sp_transaction plan) mempool_new) \<and>
     sp_spent_commitments plan = [w_com 50 1, w_com 40 1]"
proof -
  let ?r = "plan_send w_crypto None (\<lambda>_. Some 952) w_send_random w_wallet 60 0 w_keys"
  obtain ks' plan where r: "?r = Ret (ks', Inr plan)" and fee: "tx_fee (sp_transaction plan) = 5"
      and spent: "sp_spent_commitments plan = [w_com 50 1, w_com 40 1]"
    unfolding plan_send_def w_attempts
    by (simp add: build_send_transaction_def w_wallet_eval)
  from plan_send_admitted [OF w_module_laws w_range_proof_complete w_wallet_opens w_wallet_total r, of mempool_new] fee spent r
  show ?thesis by (simp add: mempool_new_def MAX_PENDING_TXS_def MAX_TXS_PER_BLOCK_def)
qed


section \<open>The two-party payment\<close>

text \<open>What the size of a serialised transaction depends on: points and scalars have fixed-size encodings,
  so only the number of parts and the lengths of proofs and notes matter.\<close>

definition tx_shape :: "('p, 's) transaction \<Rightarrow> nat \<times> (nat \<times> nat) list \<times> nat" where
  "tx_shape tx = (length (tx_inputs tx),
     map (\<lambda>out. (length (proof_bytes (out_proof out)), length (out_note out))) (tx_outputs tx), length (tx_kernels tx))"

text \<open>The sizes the external encodings promise: bincode writes fixed-size points and scalars, a 64-bit
  range proof always has the same length, and the AEAD adds a tag of constant length.\<close>

definition fixed_sizes :: "('p, 's) crypto \<Rightarrow> (('p, 's) transaction \<Rightarrow> u64 option) \<Rightarrow> bool" where
  "fixed_sizes cr size_of \<longleftrightarrow>
     (\<forall>tx tx'. tx_shape tx = tx_shape tx' \<longrightarrow> size_of tx = size_of tx') \<and>
     (\<forall>v v' r r'. length (proof_bytes (range_prove cr v r)) = length (proof_bytes (range_prove cr v' r'))) \<and>
     (\<forall>k k' n n' m m'. length m = length m' \<longrightarrow> length (aead_encrypt cr k n m) = length (aead_encrypt cr k' n' m'))"

lemma required_fee_shape:
  assumes "fixed_sizes cr size_of" and "tx_shape tx = tx_shape tx'"
  shows "required_fee size_of tx = required_fee size_of tx'"
proof -
  have "size_of tx = size_of tx'" using assms unfolding fixed_sizes_def by blast
  then show ?thesis by (simp add: required_fee_def)
qed

lemma own_output_shape:
  assumes "fixed_sizes cr size_of" and "length nonce = length nonce'"
  shows "length (proof_bytes (range_prove cr v r)) = length (proof_bytes (range_prove cr v' r')) \<and>
    length (seal cr nonce key idx w) = length (seal cr nonce' key' idx' w')"
proof -
  have "length (aead_encrypt cr key nonce (u32_le idx @ u64_le w)) =
      length (aead_encrypt cr key' nonce' (u32_le idx' @ u64_le w'))"
    using assms(1) unfolding fixed_sizes_def by (metis length_append length_le_bytes)
  moreover have "length (proof_bytes (range_prove cr v r)) = length (proof_bytes (range_prove cr v' r'))"
    using assms(1) unfolding fixed_sizes_def by blast
  ultimately show ?thesis using assms(2) by (simp add: seal_def)
qed

text \<open>The output the sender keeps, if any.\<close>

definition change_outputs :: "('p, 's) pending_slate \<Rightarrow> 'p tx_output list" where
  "change_outputs pending = (case ps_change pending of None \<Rightarrow> [] | Some change \<Rightarrow> [ci_output change])"

lemma build_slate_shape:
  fixes cr :: "('p::ab_group_add, 's::comm_ring_1) crypto"
  assumes rpc: "range_proof_complete cr"
    and build: "build_slate cr treasury_var rnd store amount f ks = Ret (ks', Inr (sl, pending, probe))"
  obtains selected blindings cvs key where
    "select_spendable store (amount + f) = Inr selected"
    "input_blindings cr treasury_var ks selected = Ret blindings"
    "sl_amount sl = amount" "sl_fee sl = f" "ps_fee pending = f"
    "ps_spent_commitments pending = map planned_commitment selected"
    "map out_commitment (change_outputs pending) = map (\<lambda>(v, r). commitment_new cr v r) cvs"
    "list_all (\<lambda>out. range_verify cr (out_proof out) (out_commitment out)) (change_outputs pending)"
    "(\<Sum>(v, r) \<leftarrow> cvs. scalar_of_u64 v) = (scalar_of_u64 (sum_list (map planned_value selected) - (amount + f)) :: 's)"
    "ps_excess_blinding pending = sum_list blindings - (\<Sum>(v, r) \<leftarrow> cvs. r)"
    "sl_sender_excess_point sl = commitment_new cr 0 (ps_excess_blinding pending)"
    "sl_sender_nonce_point sl = Commitment (nonce_point cr (ps_nonce pending))"
    "ps_nonce_point pending = Commitment (nonce_point cr (ps_nonce pending))"
    "tx_shape probe = (length selected,
       map (\<lambda>out. (length (proof_bytes (out_proof out)), length (out_note out))) (change_outputs pending) @
       [(length (proof_bytes (range_prove cr amount 0)), length (seal cr (lr_placeholder_nonce rnd) key 0 0))], 1)"
    "ks_seed ks' = ks_seed ks"
proof -
  obtain selected where sel: "select_spendable store (amount + f) = Inr selected"
    using build by (auto simp: build_slate_def Let_def split: sum.splits)
  then obtain blindings where bs: "input_blindings cr treasury_var ks selected = Ret blindings"
    using build by (auto simp: build_slate_def Let_def guard_simps)
  let ?change = "sum_list (map planned_value selected) - (amount + f)"
  note simps = build_slate_def sel bs allocate_index_def Let_def range_verify_prove [OF rpc] change_outputs_def tx_shape_def
  show thesis
  proof (cases "0 < ?change")
    case True
    with build show thesis
      by (intro that [of selected blindings "[(?change, derive_blinding cr ks (ks_next_index ks))]" "note_key cr ks"]) (auto simp: simps)
  next
    case False
    then have "scalar_of_u64 ?change = (0 :: 's)" by (metis scalar_of_u64_0 word_gt_0)
    with False build sel bs show thesis
      by (intro that [of selected blindings "[]" "note_key cr ks"]) (auto simp: simps)
  qed
qed


lemma create_slate_loop_attempt:
  assumes "range_proof_complete cr"
    and "create_slate_loop cr treasury_var size_of rnd store amount is f0 ks = Ret (ks', Inr (sl, pending))"
  obtains i f ks0 probe where "build_slate cr treasury_var (rnd i) store amount f ks0 = Ret (ks', Inr (sl, pending, probe))"
    "ks_seed ks0 = ks_seed ks" "required_fee size_of probe \<le> f"
proof -
  have "\<exists>i f ks0 probe. build_slate cr treasury_var (rnd i) store amount f ks0 = Ret (ks', Inr (sl, pending, probe)) \<and>
      ks_seed ks0 = ks_seed ks \<and> required_fee size_of probe \<le> f"
    using assms(2)
  proof (induction "is" arbitrary: f0 ks)
    case (Cons i "is")
    from Cons.prems obtain ks1 sl1 pending1 probe1 where
        b: "build_slate cr treasury_var (rnd i) store amount f0 ks = Ret (ks1, Inr (sl1, pending1, probe1))"
      by (cases "build_slate cr treasury_var (rnd i) store amount f0 ks") (auto split: sum.splits)
    have seed: "ks_seed ks1 = ks_seed ks" by (rule build_slate_shape [OF assms(1) b])
    show ?case
    proof (cases "required_fee size_of probe1 \<le> f0")
      case True
      with Cons.prems b show ?thesis by auto
    next
      case False
      with Cons.prems b have "create_slate_loop cr treasury_var size_of rnd store amount is
          (required_fee size_of probe1) ks1 = Ret (ks', Inr (sl, pending))" by (simp add: Let_def)
      from Cons.IH [OF this] seed show ?thesis by metis
    qed
  qed simp
  then show thesis using that by blast
qed

text \<open>Two partial signatures over one challenge make a kernel signature.\<close>

lemma two_party_kernel:
  assumes laws: "module_laws cr"
    and "e = compute_challenge cr (u64_le f) (as_point (commitment_new cr 0 a) + as_point (commitment_new cr 0 b))
      (nonce_point cr k + nonce_point cr k')"
  shows "kernel_ok cr \<lparr>excess = Commitment (as_point (commitment_new cr 0 a) + as_point (commitment_new cr 0 b)),
      fee = f, kernel_sig = aggregate_sigs [partial_sign k a e, partial_sign k' b e] e\<rparr>"
proof -
  let ?G = "gen_B_blinding cr"
  have "smul cr (k + e * a + (k' + e * b)) ?G - smul cr e (smul cr a ?G + smul cr b ?G) = smul cr k ?G + smul cr k' ?G"
    by (simp add: module_simps [OF laws] smul_add_right [OF laws] add.assoc add.left_commute)
  with assms(2) show ?thesis
    by (simp add: kernel_ok_def verify_def aggregate_sigs_def partial_sign_def nonce_point_def Let_def
        commitment_new_zero [OF laws])
qed

lemma finalize_response:
  assumes "respond_to_slate cr seal_nonce k sl kr = (kr', response, info)"
    and "sl_fee sl = ps_fee pending" and "sl_sender_excess_point sl = commitment_new cr 0 (ps_excess_blinding pending)"
    and "sl_sender_nonce_point sl = Commitment (nonce_point cr (ps_nonce pending))"
    and "ps_nonce_point pending = Commitment (nonce_point cr (ps_nonce pending))"
  obtains tx e where "finalize_slate cr pending response = Inr tx"
    "e = compute_challenge cr (u64_le (ps_fee pending)) (as_point (commitment_new cr 0 (ps_excess_blinding pending)) +
       as_point (commitment_new cr 0 (- derive_blinding cr kr (oi_index info))))
       (nonce_point cr (ps_nonce pending) + nonce_point cr k)"
    "tx = \<lparr>tx_inputs = map (\<lambda>c. \<lparr>in_commitment = c\<rparr>) (ps_spent_commitments pending),
       tx_outputs = change_outputs pending @ [own_output cr kr' seal_nonce (oi_index info) (sl_amount sl)],
       tx_kernels = [\<lparr>excess = Commitment (as_point (commitment_new cr 0 (ps_excess_blinding pending)) +
           as_point (commitment_new cr 0 (- derive_blinding cr kr (oi_index info)))), fee = ps_fee pending,
         kernel_sig = aggregate_sigs [partial_sign (ps_nonce pending) (ps_excess_blinding pending) e,
           partial_sign k (- derive_blinding cr kr (oi_index info)) e] e\<rparr>]\<rparr>"
    "info = \<lparr>oi_index = ks_next_index kr, oi_value = sl_amount sl,
       oi_commitment = commitment_new cr (sl_amount sl) (derive_blinding cr kr (ks_next_index kr))\<rparr>"
    "ks_seed kr' = ks_seed kr"
proof (rule that)
qed (use assms in \<open>auto simp: respond_to_slate_def finalize_slate_def ok_or_def bind_result_def allocate_index_def
    slate_challenge_message_def change_outputs_def Let_def\<close>)


lemma slate_payment:
  assumes laws: "module_laws cr" "range_proof_complete cr" "fixed_sizes cr size_of"
    and wallet: "wallet_opens cr treasury_var ks store" "store_total store < 2 ^ 64"
    and create: "create_slate cr treasury_var size_of rnd store amount f ks = Ret (ks', Inr (sl, pending))"
    and respond: "respond_to_slate cr seal_nonce k sl kr = (kr', response, info)"
    and nonces: "length seal_nonce = 12" "\<forall>i. length (lr_placeholder_nonce (rnd i)) = 12"
    and small: "unat amount + unat (sl_fee sl) < 2 ^ 64" and room: "length (mp_txs mp) < MAX_PENDING_TXS"
  shows "\<exists>tx. finalize_slate cr pending response = Inr tx \<and>
    add_transaction cr size_of tx mp = (True, mp\<lparr>mp_txs := mp_txs mp @ [tx]\<rparr>) \<and>
    map in_commitment (tx_inputs tx) = ps_spent_commitments pending \<and>
    oi_value info = amount \<and> oi_commitment info = commitment_new cr amount (derive_blinding cr kr (oi_index info)) \<and>
    out_commitment (last (tx_outputs tx)) = oi_commitment info"
proof -
  obtain i g ks0 probe where build: "build_slate cr treasury_var (rnd i) store amount g ks0 = Ret (ks', Inr (sl, pending, probe))"
      and seed: "ks_seed ks0 = ks_seed ks" and paid: "required_fee size_of probe \<le> g"
    using create unfolding create_slate_def by (rule create_slate_loop_attempt [OF laws(2)])
  obtain selected blindings cvs key where
      sel: "select_spendable store (amount + g) = Inr selected"
        "input_blindings cr treasury_var ks0 selected = Ret blindings"
      and sl: "sl_amount sl = amount" "sl_fee sl = g" "ps_fee pending = g"
        "ps_spent_commitments pending = map planned_commitment selected"
      and change: "map out_commitment (change_outputs pending) = map (\<lambda>(v, r). commitment_new cr v r) cvs"
        "list_all (\<lambda>out. range_verify cr (out_proof out) (out_commitment out)) (change_outputs pending)"
        "(\<Sum>(v, r) \<leftarrow> cvs. scalar_of_u64 v) = (scalar_of_u64 (sum_list (map planned_value selected) - (amount + g)) :: 'b)"
      and excess: "ps_excess_blinding pending = sum_list blindings - (\<Sum>(v, r) \<leftarrow> cvs. r)"
      and points: "sl_sender_excess_point sl = commitment_new cr 0 (ps_excess_blinding pending)"
        "sl_sender_nonce_point sl = Commitment (nonce_point cr (ps_nonce pending))"
        "ps_nonce_point pending = Commitment (nonce_point cr (ps_nonce pending))"
      and shape: "tx_shape probe = (length selected,
         map (\<lambda>out. (length (proof_bytes (out_proof out)), length (out_note out))) (change_outputs pending) @
         [(length (proof_bytes (range_prove cr amount 0)), length (seal cr (lr_placeholder_nonce (rnd i)) key 0 0))], 1)"
    by (rule build_slate_shape [OF laws(2) build])
  have covers: "amount + g \<le> sum_list (map planned_value selected)" by (rule select_spendable_selects [OF sel(1)])
  note opens = selection_opens [OF laws(1) _ wallet(2) sel, unfolded keystore_seed_only(4) [OF seed], OF wallet(1)]
  show ?thesis
  proof (rule finalize_response [OF respond _ points])
    fix tx e
    let ?r = "derive_blinding cr kr (oi_index info)"
    let ?k = "\<lparr>excess = Commitment (as_point (commitment_new cr 0 (ps_excess_blinding pending)) +
           as_point (commitment_new cr 0 (- ?r))), fee = ps_fee pending,
         kernel_sig = aggregate_sigs [partial_sign (ps_nonce pending) (ps_excess_blinding pending) e, partial_sign k (- ?r) e] e\<rparr>"
    assume fin: "finalize_slate cr pending response = Inr tx"
      and e: "e = compute_challenge cr (u64_le (ps_fee pending)) (as_point (commitment_new cr 0 (ps_excess_blinding pending)) +
           as_point (commitment_new cr 0 (- ?r))) (nonce_point cr (ps_nonce pending) + nonce_point cr k)"
      and tx: "tx = \<lparr>tx_inputs = map (\<lambda>c. \<lparr>in_commitment = c\<rparr>) (ps_spent_commitments pending),
        tx_outputs = change_outputs pending @ [own_output cr kr' seal_nonce (oi_index info) (sl_amount sl)], tx_kernels = [?k]\<rparr>"
      and info: "info = \<lparr>oi_index = ks_next_index kr, oi_value = sl_amount sl,
         oi_commitment = commitment_new cr (sl_amount sl) (derive_blinding cr kr (ks_next_index kr))\<rparr>"
      and seed': "ks_seed kr' = ks_seed kr"
    have valid: "validate cr tx"
      unfolding tx
    proof (rule payment_validates [OF laws(1), where rin = "sum_list blindings" and ovs = "cvs @ [(amount, ?r)]"])
      show "sum_points (map in_commitment (map (\<lambda>c. \<lparr>in_commitment = c\<rparr>) (ps_spent_commitments pending))) =
          smul cr ((\<Sum>(v, r) \<leftarrow> cvs @ [(amount, ?r)]. scalar_of_u64 v) + scalar_of_u64 (fee ?k)) (gen_B cr) +
          smul cr (sum_list blindings) (gen_B_blinding cr)"
        using opens small by (simp add: sl comp_def change(3) scalar_of_u64_diff [OF covers] scalar_of_u64_add)
      show "map out_commitment (change_outputs pending @ [own_output cr kr' seal_nonce (oi_index info) (sl_amount sl)]) =
          map (\<lambda>(v, r). commitment_new cr v r) (cvs @ [(amount, ?r)])"
        by (simp add: change(1) sl(1) keystore_seed_only(1) [OF seed'])
      show "kernel_ok cr ?k" by (rule two_party_kernel [OF laws(1) e])
      show "excess ?k = commitment_new cr 0 (sum_list blindings - (\<Sum>(v, r) \<leftarrow> cvs @ [(amount, ?r)]. r))"
        by (simp add: excess commitment_new_zero [OF laws(1)] module_simps [OF laws(1)])
    qed (simp add: change(2) range_verify_prove [OF laws(2)])
    have same: "tx_shape tx = tx_shape probe"
      unfolding shape
      using own_output_shape [OF laws(3), of seal_nonce "lr_placeholder_nonce (rnd i)" amount "derive_blinding cr kr' (oi_index info)"
          amount 0 "note_key cr kr'" "oi_index info" amount key 0 0] nonces
      by (simp add: tx tx_shape_def sl)
    have "required_fee size_of tx \<le> tx_fee tx"
      using paid unfolding required_fee_shape [OF laws(3) same] by (simp add: tx tx_fee_def sl(3))
    with valid show ?thesis
      using fin room by (intro exI [of _ tx]) (simp add: add_transaction_def info tx sl comp_def keystore_seed_only(1) [OF seed'])
  qed (simp add: sl)
qed

text \<open>The two-party payment works: when the sender's wallet can open its outputs, totals do not overflow
  and encodings have the sizes their formats promise, running \<open>create_slate\<close>, \<open>respond_to_slate\<close>
  and \<open>finalize_slate\<close> yields a transaction that the mempool admits (valid, and paying for its size
  although the fee was fixed before the receiver's output existed), in which the receiver owns, under
  the index it recorded, an output of exactly the amount.\<close>

theorem slate_payment_admitted:
  assumes laws: "module_laws cr" "range_proof_complete cr" "fixed_sizes cr size_of"
    and wallet: "wallet_opens cr treasury_var ks store" "store_total store < 2 ^ 64"
    and create: "create_slate cr treasury_var size_of rnd store amount f ks = Ret (ks', Inr (sl, pending))"
    and respond: "respond_to_slate cr seal_nonce k sl kr = (kr', response, info)"
    and nonces: "length seal_nonce = 12" "\<forall>i. length (lr_placeholder_nonce (rnd i)) = 12"
    and small: "unat amount + unat (sl_fee sl) < 2 ^ 64" and room: "length (mp_txs mp) < MAX_PENDING_TXS"
  shows "\<exists>tx. finalize_slate cr pending response = Inr tx \<and>
    add_transaction cr size_of tx mp = (True, mp\<lparr>mp_txs := mp_txs mp @ [tx]\<rparr>) \<and>
    map in_commitment (tx_inputs tx) = ps_spent_commitments pending \<and>
    oi_value info = amount \<and> oi_commitment info = commitment_new cr amount (derive_blinding cr kr (oi_index info)) \<and>
    out_commitment (last (tx_outputs tx)) = oi_commitment info"
  using assms by (rule slate_payment)

definition w_slate_random :: "nat \<Rightarrow> u64 slate_random" where
  "w_slate_random i = \<lparr>lr_change_nonce = replicate 12 1, lr_placeholder_nonce = replicate 12 2, lr_nonce = 3\<rparr>"

lemma w_fixed_sizes: "fixed_sizes w_crypto (\<lambda>_. Some 952)"
  by (simp add: fixed_sizes_def range_prove_def w_crypto_def)

theorem slate_payment_admitted_witness:
  "\<exists>ks' sl pending response info tx.
     create_slate w_crypto None (\<lambda>_. Some 952) w_slate_random w_wallet 60 0 w_keys = Ret (ks', Inr (sl, pending)) \<and>
     respond_to_slate w_crypto (replicate 12 5) 4 sl (keystore_from_seed (replicate 32 9)) =
       (\<lparr>ks_seed = replicate 32 9, ks_next_index = 1\<rparr>, response, info) \<and>
     finalize_slate w_crypto pending response = Inr tx \<and>
     fst (add_transaction w_crypto (\<lambda>_. Some 952) tx mempool_new) \<and> oi_value info = 60"
proof -
  let ?r = "create_slate w_crypto None (\<lambda>_. Some 952) w_slate_random w_wallet 60 0 w_keys"
  obtain ks' sl pending where r: "?r = Ret (ks', Inr (sl, pending))" and fee: "sl_fee sl = 5"
    unfolding create_slate_def w_attempts by (simp add: build_slate_def w_wallet_eval)
  obtain response info where resp: "respond_to_slate w_crypto (replicate 12 5) 4 sl (keystore_from_seed (replicate 32 9)) =
       (\<lparr>ks_seed = replicate 32 9, ks_next_index = 1\<rparr>, response, info)"
    by (simp add: respond_to_slate_def keystore_from_seed_def allocate_index_def Let_def)
  from slate_payment_admitted [OF w_module_laws w_range_proof_complete w_fixed_sizes w_wallet_opens w_wallet_total r resp,
      of mempool_new] fee r resp
  show ?thesis
    by (auto simp: w_slate_random_def mempool_new_def MAX_PENDING_TXS_def MAX_TXS_PER_BLOCK_def)
qed


section \<open>Recovery from the chain\<close>

text \<open>The entry the node publishes for an output.\<close>

definition scan_output :: "('p, 's) crypto \<Rightarrow> 'p tx_output \<Rightarrow> scan_entry" where
  "scan_output cr out = \<lparr>se_commitment_hex = commitment_to_hex cr (out_commitment out), se_note_hex = to_hex (out_note out)\<rparr>"

text \<open>The index and value of an output the wallet recognises as its own.\<close>

definition recognise ::
    "('p::ab_group_add, 's::comm_ring_1) crypto \<Rightarrow> keystore \<Rightarrow> 'p tx_output \<Rightarrow> (u32 \<times> u64) option" where
  "recognise cr ks out = do {
     (idx, v) \<leftarrow> open_note cr (note_key cr ks) (out_note out);
     check (commitment_new cr v (derive_blinding cr ks idx) = out_commitment out);
     Some (idx, v)
   }"

definition recovered_output ::
    "('p::ab_group_add, 's::comm_ring_1) crypto \<Rightarrow> keystore \<Rightarrow> u32 \<times> u64 \<Rightarrow> 'p owned_output" where
  "recovered_output cr ks = (\<lambda>(idx, v). \<lparr>oo_index = idx, oo_value = v,
     oo_commitment = commitment_new cr v (derive_blinding cr ks idx), oo_status = Confirmed\<rparr>)"

definition max_index :: "(u32 \<times> u64) list \<Rightarrow> u32 option \<Rightarrow> u32 option" where
  "max_index found m0 = fold (\<lambda>(idx, v) m. Some (case m of None \<Rightarrow> idx | Some m \<Rightarrow> max m idx)) found m0"

lemma commitment_to_hex_inject:
  "compress_laws cr \<Longrightarrow> commitment_to_hex cr c = commitment_to_hex cr d \<longleftrightarrow> c = d"
  by (metis commitment_hex_roundtrip option.inject outcome.inject)

lemma recover_entry_scan:
  assumes "compress_laws cr"
  shows "recover_entry cr ks (scan_output cr out) = Ret (recognise cr ks out)"
  using hex_loop_all [of "out_note out"]
  by (simp add: recover_entry_def scan_output_def recovery_hex_decode_def recognise_def
      commitment_to_hex_inject [OF assms])

lemma max_index_simps:
  "max_index [] m = m"
  "max_index ((idx, v) # found) m = max_index found (Some (case m of None \<Rightarrow> idx | Some k \<Rightarrow> max k idx))"
  by (simp_all add: max_index_def)

lemma recover_step_scan:
  assumes laws: "compress_laws cr"
  shows "recover_step cr ks (commitment_to_hex cr ` utxos) (scan_output cr out)
      \<lparr>ra_result = \<lparr>rr_store = store, rr_recovered_count = n, rr_recovered_balance = b\<rparr>, ra_max_index = m\<rparr> =
    Ret (case recognise cr ks out of
      None \<Rightarrow> \<lparr>ra_result = \<lparr>rr_store = store, rr_recovered_count = n, rr_recovered_balance = b\<rparr>, ra_max_index = m\<rparr>
    | Some (idx, v) \<Rightarrow> \<lparr>ra_result =
         (if out_commitment out \<in> utxos
          then \<lparr>rr_store = store @ [recovered_output cr ks (idx, v)], rr_recovered_count = n + 1, rr_recovered_balance = b + v\<rparr>
          else \<lparr>rr_store = store, rr_recovered_count = n, rr_recovered_balance = b\<rparr>),
         ra_max_index = max_index [(idx, v)] m\<rparr>)"
proof -
  have mem: "se_commitment_hex (scan_output cr out) \<in> commitment_to_hex cr ` utxos \<longleftrightarrow> out_commitment out \<in> utxos"
    using commitment_to_hex_inject [OF laws] by (auto simp: scan_output_def image_iff)
  show ?thesis
    by (cases "recognise cr ks out")
      (auto simp: recover_step_def recover_entry_scan [OF laws] mem Let_def add_output_def recovered_output_def max_index_simps)
qed

lemma recover_fold:
  assumes laws: "compress_laws cr"
  shows "fold_outcome (recover_step cr ks (commitment_to_hex cr ` utxos)) (map (scan_output cr) outs)
      \<lparr>ra_result = \<lparr>rr_store = store, rr_recovered_count = n, rr_recovered_balance = b\<rparr>, ra_max_index = m\<rparr> =
    (let found = List.map_filter (recognise cr ks) outs;
         kept = List.map_filter (recognise cr ks) (filter (\<lambda>out. out_commitment out \<in> utxos) outs)
     in Ret \<lparr>ra_result = \<lparr>rr_store = store @ map (recovered_output cr ks) kept,
          rr_recovered_count = n + of_nat (length kept), rr_recovered_balance = b + sum_list (map snd kept)\<rparr>,
        ra_max_index = max_index found m\<rparr>)"
proof (induction outs arbitrary: store n b m)
  case Nil
  show ?case by (simp add: max_index_simps map_filter_simps Let_def)
next
  case (Cons out outs)
  show ?case
    by (cases "recognise cr ks out")
      (auto simp: recover_step_scan [OF laws] Cons.IH Let_def max_index_simps map_filter_simps add.assoc)
qed

lemma max_index_bounds:
  assumes "max_index found m0 = m"
  shows "(\<forall>x \<in> set found. \<exists>k. m = Some k \<and> fst x \<le> k) \<and> (\<forall>k. m0 = Some k \<longrightarrow> (\<exists>k'. m = Some k' \<and> k \<le> k')) \<and>
    (\<forall>k. m = Some k \<longrightarrow> m0 = Some k \<or> k \<in> fst ` set found)"
  using assms
proof (induction found arbitrary: m0)
  case Nil
  then show ?case by (auto simp: max_index_simps)
next
  case (Cons x found)
  obtain idx v where x: "x = (idx, v)" by (cases x)
  let ?m1 = "case m0 of None \<Rightarrow> idx | Some k \<Rightarrow> max k idx"
  have "max_index found (Some ?m1) = m" using Cons.prems by (simp add: max_index_simps x)
  from Cons.IH [OF this] show ?case
    by (auto simp: x max_def split: option.splits if_splits)
qed


lemma recognise_own:
  assumes "aead_laws cr" and "length nonce = 12"
  shows "recognise cr ks (own_output cr ks nonce idx v) = Some (idx, v)"
  using assms by (simp add: recognise_def open_note_def seal_def aead_laws_def from_le_bytes_le_bytes)

lemma recognise_Some:
  "recognise cr ks out = Some (idx, v) \<longleftrightarrow>
     open_note cr (note_key cr ks) (out_note out) = Some (idx, v) \<and>
     commitment_new cr v (derive_blinding cr ks idx) = out_commitment out"
  by (auto simp: recognise_def guard_simps)

lemma set_map_filter_Some: "x \<in> set (List.map_filter f xs) \<longleftrightarrow> (\<exists>y \<in> set xs. f y = Some x)"
  by (induction xs) (auto simp: map_filter_simps split: option.splits)

lemma recover_from_chain_eq:
  assumes "compress_laws cr"
  shows "recover_from_chain cr (map (scan_output cr) outs) (commitment_to_hex cr ` utxos) ks =
    (let found = List.map_filter (recognise cr ks) outs;
         kept = List.map_filter (recognise cr ks) (filter (\<lambda>out. out_commitment out \<in> utxos) outs)
     in Ret (case max_index found None of None \<Rightarrow> ks | Some m \<Rightarrow> ensure_next_index_at_least (m + 1) ks,
          \<lparr>rr_store = map (recovered_output cr ks) kept, rr_recovered_count = of_nat (length kept),
           rr_recovered_balance = sum_list (map snd kept)\<rparr>))"
  by (simp add: recover_from_chain_def recover_fold [OF assms] Let_def)

text \<open>C30. Restoring from the phrase: given the outputs the node publishes and its unspent set, recovery never
  panics; it finds every unspent output this wallet ever sealed, and lists nothing but outputs of the
  chain that are unspent and whose commitment the keystore opens to the recorded value; the balance it reports
  is that of the restored store; and the next index lies beyond every index found, so no blinding
  factor is used twice (provided no note carries the reserved last index).\<close>

theorem recovery_exact:
  assumes laws: "compress_laws cr" "aead_laws cr"
    and fresh: "\<forall>out \<in> set outs. \<forall>v. open_note cr (note_key cr ks) (out_note out) \<noteq> Some (GENESIS_INDEX, v)"
  shows "\<exists>ks' res. recover_from_chain cr (map (scan_output cr) outs) (commitment_to_hex cr ` utxos) ks = Ret (ks', res) \<and>
    ks_seed ks' = ks_seed ks \<and> ks_next_index ks \<le> ks_next_index ks' \<and>
    (\<forall>nonce idx v. length nonce = 12 \<and> own_output cr ks nonce idx v \<in> set outs \<longrightarrow>
       idx < ks_next_index ks' \<and>
       (commitment_new cr v (derive_blinding cr ks idx) \<in> utxos \<longrightarrow> recovered_output cr ks (idx, v) \<in> set (rr_store res))) \<and>
    (\<forall>o' \<in> set (rr_store res). oo_status o' = Confirmed \<and> oo_commitment o' \<in> utxos \<and>
       oo_commitment o' \<in> out_commitment ` set outs \<and>
       oo_commitment o' = commitment_new cr (oo_value o') (derive_blinding cr ks (oo_index o'))) \<and>
    rr_recovered_balance res = balance (rr_store res)"
proof -
  let ?found = "List.map_filter (recognise cr ks) outs"
  let ?kept = "List.map_filter (recognise cr ks) (filter (\<lambda>out. out_commitment out \<in> utxos) outs)"
  let ?ks' = "case max_index ?found None of None \<Rightarrow> ks | Some m \<Rightarrow> ensure_next_index_at_least (m + 1) ks"
  let ?store = "map (recovered_output cr ks) ?kept"
  have next_index: "idx < ks_next_index ?ks'" if "recognise cr ks out = Some (idx, v)" "out \<in> set outs" for out idx v
  proof -
    from that have "(idx, v) \<in> set ?found" by (auto simp: set_map_filter_Some)
    with max_index_bounds [OF refl, of ?found None] obtain k where k: "max_index ?found None = Some k" "idx \<le> k"
        "k \<in> fst ` set ?found" by fastforce
    from k(3) fresh have "k \<noteq> - 1" by (auto simp: set_map_filter_Some recognise_Some GENESIS_INDEX_def)
    then have "1 + k \<noteq> 0" by (metis add.commute add_eq_0_iff)
    then have "k < k + 1" by (simp add: word_less_nat_alt unatSuc add.commute)
    with k show ?thesis by (auto simp: ensure_next_index_at_least_def)
  qed
  have own: "idx < ks_next_index ?ks' \<and> (commitment_new cr v (derive_blinding cr ks idx) \<in> utxos \<longrightarrow>
      recovered_output cr ks (idx, v) \<in> set ?store)"
    if "length nonce = 12" "own_output cr ks nonce idx v \<in> set outs" for nonce idx v
    using recognise_own [OF laws(2) that(1), of ks idx v] next_index [OF _ that(2)] that(2)
    by (auto simp: set_map_filter_Some intro!: image_eqI [where x = "(idx, v)"] exI [of _ "own_output cr ks nonce idx v"])
  have sound: "oo_status o' = Confirmed \<and> oo_commitment o' \<in> utxos \<and> oo_commitment o' \<in> out_commitment ` set outs \<and>
      oo_commitment o' = commitment_new cr (oo_value o') (derive_blinding cr ks (oo_index o'))" if "o' \<in> set ?store" for o'
    using that by (auto simp: set_map_filter_Some recognise_Some recovered_output_def)
  have balance: "sum_list (map snd kept) = balance (map (recovered_output cr ks) kept)" for kept
    by (induction kept) (auto simp: balance_def recovered_output_def)
  have keys: "ks_seed ?ks' = ks_seed ks \<and> ks_next_index ks \<le> ks_next_index ?ks'"
    by (auto simp: ensure_next_index_at_least_def split: option.splits)
  obtain ks' res where r: "recover_from_chain cr (map (scan_output cr) outs) (commitment_to_hex cr ` utxos) ks = Ret (ks', res)"
      and ks': "ks' = ?ks'" and res: "rr_store res = ?store" "rr_recovered_balance res = balance (rr_store res)"
    unfolding recover_from_chain_eq [OF laws(1)] Let_def by (simp add: balance)
  show ?thesis
    using r res(2) keys [folded ks'] own [folded ks' res(1)] sound [folded res(1)] by blast
qed


theorem recovery_exact_witness:
  "\<exists>ks' res. recover_from_chain w_crypto
       (map (scan_output w_crypto) [own_output w_crypto w_keys (replicate 12 4) 9 50, \<lparr>out_commitment = w_com 7 7, out_proof = RangeProof [], out_note = []\<rparr>])
       (commitment_to_hex w_crypto ` {w_com 50 1}) w_keys = Ret (ks', res) \<and>
     9 < ks_next_index ks' \<and> recovered_output w_crypto w_keys (9, 50) \<in> set (rr_store res)"
proof -
  let ?own = "own_output w_crypto w_keys (replicate 12 4) 9 50"
    and ?other = "\<lparr>out_commitment = w_com 7 7, out_proof = RangeProof [], out_note = []\<rparr>"
  have "recognise w_crypto w_keys ?own = Some (9, 50)" by (rule recognise_own [OF w_aead_laws]) simp
  moreover have "open_note w_crypto key [] = None" for key by (simp add: open_note_def)
  ultimately have "\<forall>out \<in> set [?own, ?other]. \<forall>v. open_note w_crypto (note_key w_crypto w_keys) (out_note out) \<noteq> Some (GENESIS_INDEX, v)"
    by (simp add: recognise_Some GENESIS_INDEX_def)
  from recovery_exact [OF w_compress_laws w_aead_laws this, of "{w_com 50 1}"] obtain ks' res where
      r: "recover_from_chain w_crypto (map (scan_output w_crypto) [?own, ?other]) (commitment_to_hex w_crypto ` {w_com 50 1}) w_keys = Ret (ks', res)"
      and own: "\<And>nonce idx v. length nonce = 12 \<Longrightarrow> own_output w_crypto w_keys nonce idx v \<in> set [?own, ?other] \<Longrightarrow>
        idx < ks_next_index ks' \<and>
        (commitment_new w_crypto v (derive_blinding w_crypto w_keys idx) \<in> {w_com 50 1} \<longrightarrow>
         recovered_output w_crypto w_keys (idx, v) \<in> set (rr_store res))"
    by blast
  from r own [of "replicate 12 4" 9 50] show ?thesis by auto
qed


section \<open>The local ledger follows the chain\<close>

lemma balance_reconcile:
  "balance (reconcile chain_utxos store) =
     sum_list (map oo_value (filter (\<lambda>o'. oo_commitment o' \<in> chain_utxos) store))"
  by (induction store) (auto simp: balance_def reconcile_def reconcile_output_def split: output_status.splits)

text \<open>Reconciling with the node makes the ledger agree with the chain, whatever it said before: the
  outputs counted as confirmed are exactly those listed whose commitment is in the unspent set, the
  balance is their sum, nothing listed is lost or relabelled, and doing it twice changes nothing; an
  optimistic mark as spent is undone when the spend never reached the chain.\<close>

theorem reconcile_follows_chain:
  "balance (reconcile chain_utxos store) =
     sum_list (map oo_value (filter (\<lambda>o'. oo_commitment o' \<in> chain_utxos) store)) \<and>
   list_all (\<lambda>o'. oo_status o' = Confirmed \<longleftrightarrow> oo_commitment o' \<in> chain_utxos) (reconcile chain_utxos store) \<and>
   map planned (reconcile chain_utxos store) = map planned store \<and>
   reconcile chain_utxos (reconcile chain_utxos store) = reconcile chain_utxos store \<and>
   balance (reconcile chain_utxos (mark_spent c store)) = balance (reconcile chain_utxos store)"
proof -
  have "map planned (mark_spent c store) = map planned store"
    by (induction store) (auto simp: mark_spent_def planned_def)
  then have "map (\<lambda>(i, c, v). (c, v)) (map planned (mark_spent c store)) = map (\<lambda>(i, c, v). (c, v)) (map planned store)"
    by simp
  then have marked: "map (\<lambda>o'. (oo_commitment o', oo_value o')) (mark_spent c store) =
      map (\<lambda>o'. (oo_commitment o', oo_value o')) store"
    by (simp add: planned_def comp_def)
  have value_sum: "sum_list (map oo_value (filter (\<lambda>o'. oo_commitment o' \<in> chain_utxos) os)) =
      sum_list (map snd (filter (\<lambda>(c, v). c \<in> chain_utxos) (map (\<lambda>o'. (oo_commitment o', oo_value o')) os)))" for os
    by (induction os) auto
  have "balance (reconcile chain_utxos (mark_spent c store)) = balance (reconcile chain_utxos store)"
    by (simp only: balance_reconcile value_sum marked)
  then show ?thesis
    using balance_reconcile [of chain_utxos store]
    by (auto simp: list_all_iff reconcile_def reconcile_output_def planned_def split: output_status.splits)
qed

end
