(* ===== verification/Limits.thy ===== *)
theory Limits
  imports Prelude
begin

text \<open>
  The three request budgets of the node: the per-IP limiter in front of every HTTP route
  (\<open>api/src/ratelimit.rs\<close>), the faucet's hourly limit (\<open>api/src/faucet.rs\<close>, \<open>check_rate_limit\<close>)
  and the message budget of a peer connection (\<open>p2p/src/server.rs\<close>). All are sliding windows over
  logs of \<open>Instant\<close>s, here natural numbers of nanoseconds; \<open>duration_since\<close> saturates at zero, as
  subtraction on \<open>nat\<close> does. The locale \<open>sliding_window\<close> states what they share and proves the
  bound once: no window of time holds more admitted requests of one client than the budget. The
  extension \<open>fair_window\<close> adds that nobody within the budget is refused.
\<close>

type_synonym instant = nat

definition seconds :: "nat \<Rightarrow> nat" where
  "seconds s = s * 1000000000"

definition duration_since :: "instant \<Rightarrow> instant \<Rightarrow> nat" where
  "duration_since now t = now - t"


section \<open>The limiters\<close>

definition MAX_REQUESTS_PER_WINDOW :: nat where "MAX_REQUESTS_PER_WINDOW = 120"

definition WINDOW :: nat where "WINDOW = seconds 10"

type_synonym 'ip hits = "('ip, instant list) mapping"

definition recent_hits :: "'ip hits \<Rightarrow> 'ip \<Rightarrow> instant list" where
  "recent_hits hits ip = (case Mapping.lookup hits ip of None \<Rightarrow> [] | Some ts \<Rightarrow> ts)"

text \<open>\<open>RateLimiter::check\<close>\<close>

definition check_hit :: "instant \<Rightarrow> 'ip \<Rightarrow> 'ip hits \<Rightarrow> bool \<times> 'ip hits" where
  "check_hit now ip hits =
     (let hits = (if 10000 < Mapping.size hits
                  then Mapping.filter (\<lambda>_ ts. ts \<noteq> [] \<and> duration_since now (last ts) < WINDOW) hits
                  else hits);
          ts = filter (\<lambda>t. duration_since now t < WINDOW) (recent_hits hits ip)
      in if MAX_REQUESTS_PER_WINDOW \<le> length ts then (False, Mapping.update ip ts hits)
         else (True, Mapping.update ip (ts @ [now]) hits))"

definition RATE_LIMIT_MAX_REQUESTS :: nat where "RATE_LIMIT_MAX_REQUESTS = 5"

definition RATE_LIMIT_WINDOW :: nat where "RATE_LIMIT_WINDOW = seconds 3600"

text \<open>\<open>FaucetState::check_rate_limit\<close>\<close>

definition check_rate_limit :: "instant \<Rightarrow> 'ip \<Rightarrow> 'ip hits \<Rightarrow> bool \<times> 'ip hits" where
  "check_rate_limit now ip limits =
     (let entry = dropWhile (\<lambda>t. RATE_LIMIT_WINDOW < duration_since now t) (recent_hits limits ip)
      in if RATE_LIMIT_MAX_REQUESTS \<le> length entry then (False, Mapping.update ip entry limits)
         else (True, Mapping.update ip (entry @ [now]) limits))"

definition MAX_MESSAGES_PER_WINDOW :: nat where "MAX_MESSAGES_PER_WINDOW = 600"

definition MESSAGE_WINDOW :: nat where "MESSAGE_WINDOW = seconds 10"

text \<open>The budget check at the top of the receive loop: whether the connection stays open, and the log.\<close>

definition message_budget :: "instant \<Rightarrow> instant list \<Rightarrow> bool \<times> instant list" where
  "message_budget now message_times =
     (let ts = dropWhile (\<lambda>t. MESSAGE_WINDOW < duration_since now t) message_times @ [now]
      in (length ts \<le> MAX_MESSAGES_PER_WINDOW, ts))"

text \<open>A connection: the log and whether the loop has ended. A message over budget closes it unprocessed.\<close>

definition connection_budget :: "instant \<Rightarrow> unit \<Rightarrow> instant list \<times> bool \<Rightarrow> bool \<times> instant list \<times> bool" where
  "connection_budget now u = (\<lambda>(ts, closed).
     if closed then (False, ts, True)
     else let (within, ts') = message_budget now ts
          in if within then (True, ts', False) else (False, ts, True))"


section \<open>Sliding windows\<close>

text \<open>The requests a limiter lets through, of a sequence of requests with their times and clients.\<close>

fun admitted :: "(instant \<Rightarrow> 'k \<Rightarrow> 's \<Rightarrow> bool \<times> 's) \<Rightarrow> (instant \<times> 'k) list \<Rightarrow> 's \<Rightarrow> (instant \<times> 'k) list" where
  "admitted admit [] s = []"
| "admitted admit ((now, k) # reqs) s =
     (let (ok, s') = admit now k s in (if ok then [(now, k)] else []) @ admitted admit reqs s')"

text \<open>The requests of one client in the window that ends at \<open>now\<close>.\<close>

definition in_window :: "nat \<Rightarrow> instant \<Rightarrow> instant \<Rightarrow> bool" where
  "in_window width now t \<longleftrightarrow> t \<le> now \<and> now - t < width"

definition client_window :: "nat \<Rightarrow> 'k \<Rightarrow> instant \<Rightarrow> (instant \<times> 'k) list \<Rightarrow> instant list" where
  "client_window width k now reqs = filter (in_window width now) (map fst (filter (\<lambda>(t, k'). k' = k) reqs))"

lemma in_window_later: "in_window width now t \<Longrightarrow> t \<le> now' \<Longrightarrow> now' \<le> now \<Longrightarrow> in_window width now' t"
  by (auto simp: in_window_def)

lemma client_window_append:
  "client_window width k now (reqs @ reqs') = client_window width k now reqs @ client_window width k now reqs'"
  by (simp add: client_window_def)

locale sliding_window =
  fixes admit :: "instant \<Rightarrow> 'k \<Rightarrow> 's \<Rightarrow> bool \<times> 's" and log :: "'s \<Rightarrow> 'k \<Rightarrow> instant list"
    and ok :: "instant \<Rightarrow> 's \<Rightarrow> bool" and start :: 's and width cap :: nat
  assumes start_ok: "ok 0 start" and start_empty: "log start k = []"
    and admit_ok: "ok t s \<Longrightarrow> t \<le> now \<Longrightarrow> admit now k s = (b, s') \<Longrightarrow> ok now s'"
    and admit_bounded: "ok t s \<Longrightarrow> t \<le> now \<Longrightarrow> admit now k s = (True, s') \<Longrightarrow>
      length (filter (in_window width now) (log s k)) < cap"
    and admit_logged: "ok t s \<Longrightarrow> t \<le> now \<Longrightarrow> admit now k s = (b, s') \<Longrightarrow> now \<le> now' \<Longrightarrow>
      filter (in_window width now') (log s' k') =
      filter (in_window width now') (log s k' @ (if b \<and> k' = k then [now] else []))"
begin

text \<open>The log of a client agrees, in every later window, with what was let through.\<close>

lemma admitted_bounded:
  assumes "ok t s" and "sorted (map fst reqs)" and "\<forall>(r, k) \<in> set reqs. t \<le> r"
    and "\<And>now. t \<le> now \<Longrightarrow> filter (in_window width now) (log s k) = client_window width k now before"
    and "\<And>now. length (client_window width k now before) \<le> cap"
    and "\<forall>(r, k) \<in> set before. r \<le> t"
  shows "length (client_window width k now (before @ admitted admit reqs s)) \<le> cap"
  using assms
proof (induction reqs arbitrary: t s before)
  case Nil
  then show ?case by simp
next
  case (Cons r reqs)
  obtain req k0 where r: "r = (req, k0)" by (cases r)
  obtain b s' where a: "admit req k0 s = (b, s')" by (cases "admit req k0 s")
  let ?new = "if b then [(req, k0)] else []"
  have le: "t \<le> req" using Cons.prems(3) by (simp add: r)
  have logged: "filter (in_window width u) (log s' k) = client_window width k u (before @ ?new)" if "req \<le> u" for u
    using admit_logged [OF Cons.prems(1) le a that, of k] Cons.prems(4) [of u] le that
    by (auto simp: client_window_def)
  have before_le: "p \<in> set before \<Longrightarrow> fst p \<le> req" for p using Cons.prems(6) le by fastforce
  have bounded: "length (client_window width k u (before @ ?new)) \<le> cap" for u
  proof (cases "b \<and> k0 = k \<and> in_window width u req")
    case True
    then have req: "req \<le> u" by (simp add: in_window_def)
    have "length (filter (in_window width req) (log s k)) < cap"
      using admit_bounded [OF Cons.prems(1) le, of k s'] a True by simp
    then have now: "length (client_window width k req before) < cap" using Cons.prems(4) [OF le] by simp
    have "length (client_window width k u before) \<le> length (client_window width k req before)"
    proof -
      have "client_window width k u before = filter (in_window width u) (client_window width k req before)"
        using before_le in_window_later [OF _ _ req]
        by (auto simp: client_window_def filter_map intro!: arg_cong [where f = "map fst"] filter_cong)
      then show ?thesis by simp
    qed
    with now True show ?thesis by (simp add: client_window_append) (simp add: client_window_def)
  next
    case False
    then have "client_window width k u ?new = []" by (auto simp: client_window_def)
    with Cons.prems(5) [of u] show ?thesis by (simp add: client_window_append)
  qed
  have "length (client_window width k now ((before @ ?new) @ admitted admit reqs s')) \<le> cap"
  proof (rule Cons.IH)
    show "ok req s'" by (rule admit_ok [OF Cons.prems(1) le a])
    show "sorted (map fst reqs)" using Cons.prems(2) by simp
    show "\<forall>(r, k) \<in> set reqs. req \<le> r" using Cons.prems(2) by (auto simp: r)
    show "\<forall>(r, k) \<in> set (before @ ?new). r \<le> req" using before_le by auto
  qed (use logged bounded in auto)
  then show ?case by (simp add: r a)
qed

lemma window_bounded:
  assumes "sorted (map fst reqs)"
  shows "length (client_window width k now (admitted admit reqs start)) \<le> cap"
  using admitted_bounded [OF start_ok assms, of k "[]" now] start_empty
  by (simp add: client_window_def split_beta)

end


text \<open>The state after a sequence of requests.\<close>

fun state_after :: "(instant \<Rightarrow> 'k \<Rightarrow> 's \<Rightarrow> bool \<times> 's) \<Rightarrow> (instant \<times> 'k) list \<Rightarrow> 's \<Rightarrow> 's" where
  "state_after admit [] s = s"
| "state_after admit ((now, k) # reqs) s = state_after admit reqs (snd (admit now k s))"

lemma admitted_append:
  "admitted admit (reqs @ reqs') s = admitted admit reqs s @ admitted admit reqs' (state_after admit reqs s)"
  by (induction reqs arbitrary: s) (auto simp: split_beta Let_def)

context sliding_window
begin

lemma state_after_log:
  assumes "ok t s" and "sorted (map fst reqs)" and "\<forall>(r, k) \<in> set reqs. t \<le> r \<and> r \<le> now" and "t \<le> now"
  shows "ok (if reqs = [] then t else fst (last reqs)) (state_after admit reqs s) \<and>
    filter (in_window width now) (log (state_after admit reqs s) k) =
    filter (in_window width now) (log s k) @ client_window width k now (admitted admit reqs s)"
  using assms
proof (induction reqs arbitrary: t s)
  case Nil
  then show ?case by (simp add: client_window_def)
next
  case (Cons r reqs)
  obtain req k0 where r: "r = (req, k0)" by (cases r)
  obtain b s' where a: "admit req k0 s = (b, s')" by (cases "admit req k0 s")
  have le: "t \<le> req" "req \<le> now" using Cons.prems(3) by (auto simp: r)
  have ok': "ok req s'" by (rule admit_ok [OF Cons.prems(1) le(1) a])
  have IH: "ok (if reqs = [] then req else fst (last reqs)) (state_after admit reqs s') \<and>
      filter (in_window width now) (log (state_after admit reqs s') k) =
      filter (in_window width now) (log s' k) @ client_window width k now (admitted admit reqs s')"
    by (rule Cons.IH [OF ok']) (use Cons.prems le in \<open>auto simp: r\<close>)
  then show ?case
    using admit_logged [OF Cons.prems(1) le(1) a le(2), of k]
    by (auto simp: r a client_window_append client_window_def)
qed

end

text \<open>A fair limiter refuses only clients that have used up their budget.\<close>

locale fair_window = sliding_window +
  assumes refused_full: "ok t s \<Longrightarrow> t \<le> now \<Longrightarrow> admit now k s = (False, s') \<Longrightarrow>
      cap \<le> length (filter (in_window width now) (log s k))"
begin

lemma refused_only_over_budget:
  assumes "sorted (map fst (reqs @ [(now, k)]))"
    and "admitted admit (reqs @ [(now, k)]) start = admitted admit reqs start"
  shows "length (client_window width k now (admitted admit reqs start)) = cap"
proof -
  have sorted: "sorted (map fst reqs)" and le: "\<forall>(r, k) \<in> set reqs. (0::nat) \<le> r \<and> r \<le> now"
    using assms(1) by (auto simp: sorted_append)
  obtain b s' where a: "admit now k (state_after admit reqs start) = (b, s')" by force
  have st: "ok (if reqs = [] then 0 else fst (last reqs)) (state_after admit reqs start)"
      "filter (in_window width now) (log (state_after admit reqs start) k) =
        client_window width k now (admitted admit reqs start)"
    using state_after_log [OF start_ok sorted le] start_empty by auto
  have "\<not> b" using assms(2) a by (auto simp: admitted_append)
  moreover have "(if reqs = [] then 0 else fst (last reqs)) \<le> now" using le last_in_set [of reqs] by fastforce
  ultimately have "cap \<le> length (client_window width k now (admitted admit reqs start))"
    using refused_full [OF st(1), of now k s'] a st(2) by simp
  with window_bounded [OF sorted, of k now] show ?thesis by simp
qed

end


section \<open>The three limiters are sliding windows\<close>

definition log_ok :: "instant \<Rightarrow> instant list \<Rightarrow> bool" where
  "log_ok t ts \<longleftrightarrow> sorted ts \<and> (\<forall>x \<in> set ts. x \<le> t)"

definition hits_ok :: "instant \<Rightarrow> 'ip hits \<Rightarrow> bool" where
  "hits_ok t hits \<longleftrightarrow> (\<forall>ip. log_ok t (recent_hits hits ip))"

lemma log_ok_later: "log_ok t ts \<Longrightarrow> t \<le> now \<Longrightarrow> log_ok now ts"
  by (auto simp: log_ok_def)

lemma log_ok_simps [simp]:
  "log_ok t []"
  "log_ok t ts \<Longrightarrow> log_ok t (filter P ts)"
  by (auto simp: log_ok_def sorted_filter [of id, simplified])

lemma log_ok_filter_later: "log_ok t ts \<Longrightarrow> t \<le> now \<Longrightarrow> log_ok now (filter P ts)"
  using log_ok_later by simp

lemma log_ok_snoc: "log_ok t ts \<Longrightarrow> t \<le> now \<Longrightarrow> log_ok now (ts @ [now])"
  by (auto simp: log_ok_def sorted_append)

lemma recent_hits_update [simp]:
  "recent_hits (Mapping.update ip ts hits) ip' = (if ip' = ip then ts else recent_hits hits ip')"
  by (simp add: recent_hits_def lookup_update')

lemma recent_hits_empty [simp]: "recent_hits Mapping.empty ip = []"
  by (simp add: recent_hits_def)

lemma filter_window_eq:
  "log_ok t ts \<Longrightarrow> t \<le> now \<Longrightarrow> filter (\<lambda>x. duration_since now x < w) ts = filter (in_window w now) ts"
  by (auto simp: log_ok_def in_window_def duration_since_def intro!: filter_cong)

lemma dropWhile_window:
  "log_ok t ts \<Longrightarrow> t \<le> now \<Longrightarrow> dropWhile (\<lambda>x. w < duration_since now x) ts = filter (in_window (Suc w) now) ts"
proof (induction ts)
  case (Cons x ts)
  have ok: "log_ok t ts" using Cons.prems(1) by (simp add: log_ok_def)
  show ?case
  proof (cases "w < duration_since now x")
    case True
    then show ?thesis using Cons.IH [OF ok Cons.prems(2)] by (auto simp: in_window_def duration_since_def)
  next
    case False
    with Cons.prems have "\<forall>y \<in> set (x # ts). in_window (Suc w) now y"
      by (auto simp: log_ok_def in_window_def duration_since_def)
    then have "filter (in_window (Suc w) now) (x # ts) = x # ts" by (rule filter_True)
    with False show ?thesis by simp
  qed
qed simp

lemma window_again:
  assumes "now \<le> now'"
  shows "filter (in_window w now') (filter (in_window w now) ts @ us) =
    filter (in_window w now') (filter (\<lambda>x. x \<le> now) ts @ us)"
  using assms by (auto simp: in_window_def intro!: filter_cong)

lemma log_ok_bounded: "log_ok t ts \<Longrightarrow> t \<le> now \<Longrightarrow> filter (\<lambda>x. x \<le> now) ts = ts"
  by (auto simp: log_ok_def intro!: filter_True)

text \<open>Forgetting the clients that went quiet loses nothing that a later window could see.\<close>

definition drop_quiet :: "instant \<Rightarrow> 'ip hits \<Rightarrow> 'ip hits" where
  "drop_quiet now hits =
     (if 10000 < Mapping.size hits
      then Mapping.filter (\<lambda>_ ts. ts \<noteq> [] \<and> duration_since now (last ts) < WINDOW) hits else hits)"

lemma sorted_le_last: "sorted ts \<Longrightarrow> x \<in> set ts \<Longrightarrow> x \<le> last (ts :: nat list)"
  by (induction ts) auto

lemma drop_quiet_log:
  assumes "hits_ok t hits"
  shows "recent_hits (drop_quiet now hits) ip = recent_hits hits ip \<or>
    recent_hits (drop_quiet now hits) ip = [] \<and> (\<forall>x \<in> set (recent_hits hits ip). \<not> now - x < WINDOW)"
proof (cases "Mapping.lookup hits ip")
  case None
  then show ?thesis by (simp add: drop_quiet_def recent_hits_def map_simps)
next
  case (Some ts)
  then have "sorted ts" using assms by (auto simp: hits_ok_def log_ok_def recent_hits_def dest: spec [of _ ip])
  then have "x \<le> last ts" if "x \<in> set ts" for x using that by (rule sorted_le_last)
  then have "\<forall>x \<in> set ts. \<not> now - x < WINDOW" if "\<not> now - last ts < WINDOW" using that by fastforce
  with Some show ?thesis
    by (cases "ts = []") (auto simp: drop_quiet_def recent_hits_def map_simps duration_since_def)
qed


lemma drop_quiet_window:
  assumes "hits_ok t hits" and "now \<le> now'"
  shows "filter (in_window WINDOW now') (recent_hits (drop_quiet now hits) ip) =
    filter (in_window WINDOW now') (recent_hits hits ip)"
proof -
  have "filter (in_window WINDOW now') (recent_hits hits ip) = []"
    if "\<forall>x \<in> set (recent_hits hits ip). \<not> now - x < WINDOW"
    using that assms(2) by (fastforce simp: in_window_def intro!: filter_False)
  with drop_quiet_log [OF assms(1), of now ip] show ?thesis by auto
qed

lemma drop_quiet_ok: "hits_ok t hits \<Longrightarrow> hits_ok t (drop_quiet now hits)"
  unfolding hits_ok_def using drop_quiet_log [of t hits now] by (metis hits_ok_def log_ok_simps(1))

lemma hits_ok_update: "hits_ok t hits \<Longrightarrow> t \<le> now \<Longrightarrow> log_ok now ts \<Longrightarrow> hits_ok now (Mapping.update ip ts hits)"
  using log_ok_later by (auto simp: hits_ok_def)

text \<open>Both per-IP limiters keep the part of a log that lies in the window and add the request.\<close>

lemma check_hit_eq:
  assumes "hits_ok t hits" and "t \<le> now"
  shows "check_hit now ip hits =
    (let ts = filter (in_window WINDOW now) (recent_hits hits ip) in
     if MAX_REQUESTS_PER_WINDOW \<le> length ts then (False, Mapping.update ip ts (drop_quiet now hits))
     else (True, Mapping.update ip (ts @ [now]) (drop_quiet now hits)))"
proof -
  have "filter (\<lambda>x. duration_since now x < WINDOW) (recent_hits (drop_quiet now hits) ip) =
      filter (in_window WINDOW now) (recent_hits hits ip)"
    using filter_window_eq drop_quiet_ok [OF assms(1)] assms(2) drop_quiet_window [OF assms(1), of now now]
    unfolding hits_ok_def by (metis order_refl)
  then show ?thesis by (simp add: check_hit_def drop_quiet_def [symmetric] Let_def)
qed

lemma check_rate_limit_eq:
  assumes "hits_ok t hits" and "t \<le> now"
  shows "check_rate_limit now ip hits =
    (let ts = filter (in_window (Suc RATE_LIMIT_WINDOW) now) (recent_hits hits ip) in
     if RATE_LIMIT_MAX_REQUESTS \<le> length ts then (False, Mapping.update ip ts hits)
     else (True, Mapping.update ip (ts @ [now]) hits))"
  using dropWhile_window [of t "recent_hits hits ip" now] assms by (simp add: check_rate_limit_def hits_ok_def Let_def)

lemma kept_window:
  assumes "log_ok t ts" "t \<le> now" "now \<le> now'"
  shows "filter (in_window w now') (filter (in_window w now) ts @ us) = filter (in_window w now') (ts @ us)"
  using window_again [OF assms(3)] log_ok_bounded [OF assms(1,2)] by metis

interpretation api_limiter: fair_window check_hit recent_hits hits_ok Mapping.empty WINDOW MAX_REQUESTS_PER_WINDOW
proof
  fix t now now' :: nat and s s' :: "'a hits" and k k' :: 'a and b
  assume ok: "hits_ok t s" and le: "t \<le> now"
  note logs = ok [unfolded hits_ok_def, rule_format]
  show "hits_ok now s'" if "check_hit now k s = (b, s')"
    using that logs [of k] le
    by (auto simp: check_hit_eq [OF ok le] Let_def split: if_splits
        intro!: hits_ok_update [OF drop_quiet_ok [OF ok] le] log_ok_snoc intro: log_ok_filter_later)
  show "length (filter (in_window WINDOW now) (recent_hits s k)) < MAX_REQUESTS_PER_WINDOW"
    if "check_hit now k s = (True, s')"
    using that by (auto simp: check_hit_eq [OF ok le] Let_def split: if_splits)
  show "MAX_REQUESTS_PER_WINDOW \<le> length (filter (in_window WINDOW now) (recent_hits s k))"
    if "check_hit now k s = (False, s')"
    using that by (auto simp: check_hit_eq [OF ok le] Let_def split: if_splits)
  show "filter (in_window WINDOW now') (recent_hits s' k') =
      filter (in_window WINDOW now') (recent_hits s k' @ (if b \<and> k' = k then [now] else []))"
    if "check_hit now k s = (b, s')" "now \<le> now'"
    using that kept_window [OF logs le that(2), of WINDOW k "[now]"] kept_window [OF logs le that(2), of WINDOW k "[]"]
      drop_quiet_window [OF ok that(2), of k']
    by (auto simp: check_hit_eq [OF ok le] Let_def split: if_splits)
qed (simp_all add: hits_ok_def)

interpretation faucet_limiter:
  fair_window check_rate_limit recent_hits hits_ok Mapping.empty "Suc RATE_LIMIT_WINDOW" RATE_LIMIT_MAX_REQUESTS
proof
  fix t now now' :: nat and s s' :: "'a hits" and k k' :: 'a and b
  assume ok: "hits_ok t s" and le: "t \<le> now"
  note logs = ok [unfolded hits_ok_def, rule_format]
  show "hits_ok now s'" if "check_rate_limit now k s = (b, s')"
    using that logs [of k] le
    by (auto simp: check_rate_limit_eq [OF ok le] Let_def split: if_splits
        intro!: hits_ok_update [OF ok le] log_ok_snoc intro: log_ok_filter_later)
  show "length (filter (in_window (Suc RATE_LIMIT_WINDOW) now) (recent_hits s k)) < RATE_LIMIT_MAX_REQUESTS"
    if "check_rate_limit now k s = (True, s')"
    using that by (auto simp: check_rate_limit_eq [OF ok le] Let_def split: if_splits)
  show "RATE_LIMIT_MAX_REQUESTS \<le> length (filter (in_window (Suc RATE_LIMIT_WINDOW) now) (recent_hits s k))"
    if "check_rate_limit now k s = (False, s')"
    using that by (auto simp: check_rate_limit_eq [OF ok le] Let_def split: if_splits)
  show "filter (in_window (Suc RATE_LIMIT_WINDOW) now') (recent_hits s' k') =
      filter (in_window (Suc RATE_LIMIT_WINDOW) now') (recent_hits s k' @ (if b \<and> k' = k then [now] else []))"
    if "check_rate_limit now k s = (b, s')" "now \<le> now'"
    using that kept_window [OF logs le that(2), of "Suc RATE_LIMIT_WINDOW" k "[now]"]
      kept_window [OF logs le that(2), of "Suc RATE_LIMIT_WINDOW" k "[]"]
    by (auto simp: check_rate_limit_eq [OF ok le] Let_def split: if_splits)
qed (simp_all add: hits_ok_def)

interpretation peer_budget:
  sliding_window connection_budget "\<lambda>s u. fst s" "\<lambda>t s. log_ok t (fst s)" "([], False)"
    "Suc MESSAGE_WINDOW" MAX_MESSAGES_PER_WINDOW
proof
  fix t now now' :: nat and s s' :: "instant list \<times> bool" and k k' :: unit and b
  assume "log_ok t (fst s)" and le: "t \<le> now"
  then obtain ts closed where s: "s = (ts, closed)" and ok: "log_ok t ts" by (cases s) simp
  note eqs = s connection_budget_def message_budget_def dropWhile_window [OF ok le] Let_def
  show "log_ok now (fst s')" if "connection_budget now k s = (b, s')"
    using that ok le by (auto simp: eqs split: if_splits intro!: log_ok_snoc intro: log_ok_filter_later log_ok_later)
  show "length (filter (in_window (Suc MESSAGE_WINDOW) now) (fst s)) < MAX_MESSAGES_PER_WINDOW"
    if "connection_budget now k s = (True, s')"
    using that by (auto simp: eqs split: if_splits)
  show "filter (in_window (Suc MESSAGE_WINDOW) now') (fst s') =
      filter (in_window (Suc MESSAGE_WINDOW) now') (fst s @ (if b \<and> k' = k then [now] else []))"
    if "connection_budget now k s = (b, s')" "now \<le> now'"
    using that kept_window [OF ok le that(2), of "Suc MESSAGE_WINDOW" "[now]"] by (auto simp: eqs split: if_splits)
qed simp_all


text \<open>The request budgets hold: whatever requests arrive in the order of their times, no window of ten
  seconds holds more than 120 admitted HTTP requests of one address, no window of an hour more than
  5 admitted faucet requests, no window of ten seconds more than 600 processed messages of one
  connection, and the two per-address limiters refuse a request only when the window that ends with
  it is full.\<close>

theorem request_budgets:
  assumes "sorted (map fst reqs)" and "sorted (map fst messages)"
  shows "length (client_window WINDOW ip now (admitted check_hit reqs Mapping.empty)) \<le> MAX_REQUESTS_PER_WINDOW \<and>
    length (client_window (Suc RATE_LIMIT_WINDOW) ip now (admitted check_rate_limit reqs Mapping.empty)) \<le> RATE_LIMIT_MAX_REQUESTS \<and>
    length (client_window (Suc MESSAGE_WINDOW) () now (admitted connection_budget messages ([], False))) \<le> MAX_MESSAGES_PER_WINDOW \<and>
    (\<forall>before t k. reqs = before @ [(t, k)] \<longrightarrow>
       (admitted check_hit reqs Mapping.empty = admitted check_hit before Mapping.empty \<longrightarrow>
         length (client_window WINDOW k t (admitted check_hit before Mapping.empty)) = MAX_REQUESTS_PER_WINDOW) \<and>
       (admitted check_rate_limit reqs Mapping.empty = admitted check_rate_limit before Mapping.empty \<longrightarrow>
         length (client_window (Suc RATE_LIMIT_WINDOW) k t (admitted check_rate_limit before Mapping.empty)) =
           RATE_LIMIT_MAX_REQUESTS))"
proof (intro conjI allI impI)
  fix before t k
  assume reqs: "reqs = before @ [(t, k)]"
  show "length (client_window WINDOW k t (admitted check_hit before Mapping.empty)) = MAX_REQUESTS_PER_WINDOW"
    if "admitted check_hit reqs Mapping.empty = admitted check_hit before Mapping.empty"
    using api_limiter.refused_only_over_budget [of before t k] assms(1) that unfolding reqs by blast
  show "length (client_window (Suc RATE_LIMIT_WINDOW) k t (admitted check_rate_limit before Mapping.empty)) =
      RATE_LIMIT_MAX_REQUESTS"
    if "admitted check_rate_limit reqs Mapping.empty = admitted check_rate_limit before Mapping.empty"
    using faucet_limiter.refused_only_over_budget [of before t k] assms(1) that unfolding reqs by blast
qed (use api_limiter.window_bounded [OF assms(1)] faucet_limiter.window_bounded [OF assms(1)]
      peer_budget.window_bounded [OF assms(2)] in simp_all)

text \<open>Six requests of one address in a minute, of which the faucet serves five.\<close>

theorem request_budgets_witness:
  "length (client_window (Suc RATE_LIMIT_WINDOW) ''ip'' (seconds 60)
     (admitted check_rate_limit (map (\<lambda>i. (seconds i, ''ip'')) [10, 20, 30, 40, 50, 60]) Mapping.empty)) = 5"
proof -
  let ?before = "map (\<lambda>i. (seconds i, ''ip'')) [10, 20, 30, 40, 50]"
  let ?reqs = "map (\<lambda>i. (seconds i, ''ip'')) [10, 20, 30, 40, 50, 60]"
  have same: "admitted check_rate_limit ?reqs Mapping.empty = admitted check_rate_limit ?before Mapping.empty"
    by (simp add: check_rate_limit_def seconds_def duration_since_def RATE_LIMIT_WINDOW_def RATE_LIMIT_MAX_REQUESTS_def Let_def)
  have sorted: "sorted (map fst ?reqs)" by (simp add: seconds_def)
  have split: "?reqs = ?before @ [(seconds 60, ''ip'')]" by simp
  from request_budgets [OF sorted, of "[]"] split same
  have "length (client_window (Suc RATE_LIMIT_WINDOW) ''ip'' (seconds 60)
      (admitted check_rate_limit ?before Mapping.empty)) = RATE_LIMIT_MAX_REQUESTS" by (metis list.map(1) sorted0)
  with same show ?thesis by (simp only: RATE_LIMIT_MAX_REQUESTS_def)
qed

end
