(* ===== verification/Network.thy ===== *)
theory Network
  imports Mempool Marketplace Limits Chain_History
begin

text \<open>
  The vocabulary of the peer-to-peer layer and its Dandelion++ routing: the messages
  (\<open>p2p/src/message.rs\<close>), the peer manager (\<open>p2p/src/server.rs\<close>), the router
  (\<open>p2p/src/dandelion.rs\<close>) and \<open>dispatch_dandelion_tx\<close>. The handlers of the code write to sockets,
  spawn timers and dial peers; the model returns these as a list of \<open>effect\<close>s. The result of a random
  choice, the iteration order of a hash map and the success of a write are inputs (record \<open>io\<close>);
  bincode is the record \<open>wire\<close>. The lemmas show that a transaction is broadcast at most once and that
  the fallback timer always ends the stem phase.
\<close>

section \<open>Messages and effects\<close>

datatype ('p, 's) p2p_message =
    Handshake string
  | Ping
  | Pong
  | StemTx "('p, 's) transaction"
  | FluffTx "('p, 's) transaction"
  | NewBlock "('p, 's) block"
  | ChainInfo u64 hash32
  | GetBlocks u64
  | BlocksBatch "('p, 's) block list" bool
  | PrunedRange u64
  | GetUtxoSnapshot
  | UtxoSnapshot "'p commitment list" u64 hash32
  | GetPeers
  | PeersList "string list"
  | NewValidatorOp "('p, 's) register_validator_op"
  | NewNameOp "('p, 's) register_name_op"
  | NewTransferOp "('p, 's) transfer_name_op"
  | NewMintOp "('p, 's) mint_asset_op"
  | NewTransferAssetOp "('p, 's) transfer_asset_op"
  | NewListing "('p, 's) listing"
  | CancelListing string "'p commitment" "'s signature"
  | NewLaunchCollectionOp "('p, 's) launch_collection_op"
  | NewAllowlist "('p, 's) allowlist_entry"

datatype ('p, 's) effect =
    Reply "('p, 's) p2p_message"
  | SendTo string "('p, 's) p2p_message"
  | Broadcast "('p, 's) p2p_message"
  | Dial string
  | Persist "('p, 's) apply_result"
  | FluffTimer hash32 "('p, 's) transaction"

text \<open>What bincode makes of transactions and phases.\<close>

record ('p, 's) wire =
  wi_size :: "('p, 's) transaction \<Rightarrow> u64 option"
  wi_tx :: "('p, 's) transaction \<Rightarrow> byte list option"
  wi_phases :: "mint_phase list \<Rightarrow> byte list"

text \<open>What the outside decides while one message is handled: the coin of \<open>next_state\<close>, the random peer and the
  order in which the connected peers, the known peers and the unspent outputs are iterated, and whether the write to a stem peer succeeds.\<close>

record 'p io =
  io_fluff :: bool
  io_pick :: nat
  io_peer_order :: "string list"
  io_known_order :: "string list"
  io_utxo_order :: "'p commitment list"
  io_write_ok :: bool


section \<open>Peer manager\<close>

definition SYNC_BATCH_SIZE :: nat where "SYNC_BATCH_SIZE = 256"

definition MAX_PEERS :: nat where "MAX_PEERS = 50"

definition MAX_PEERS_SHARED :: nat where "MAX_PEERS_SHARED = 50"

text \<open>The writers behind the addresses are sockets; the model keeps the addresses.\<close>

record peer_manager =
  pm_peers :: "string set"
  pm_known_peers :: "string set"

definition peer_manager_new :: peer_manager where
  "peer_manager_new = \<lparr>pm_peers = {}, pm_known_peers = {}\<rparr>"

definition add_peer :: "string \<Rightarrow> peer_manager \<Rightarrow> peer_manager" where
  "add_peer addr pm = pm\<lparr>pm_peers := insert addr (pm_peers pm)\<rparr>"

definition remove_peer :: "string \<Rightarrow> peer_manager \<Rightarrow> peer_manager" where
  "remove_peer addr pm = pm\<lparr>pm_peers := Set.remove addr (pm_peers pm)\<rparr>"

definition is_connected :: "string \<Rightarrow> peer_manager \<Rightarrow> bool" where
  "is_connected addr pm \<longleftrightarrow> addr \<in> pm_peers pm"

definition connection_count :: "peer_manager \<Rightarrow> nat" where
  "connection_count pm = card (pm_peers pm)"

definition add_known_peer :: "string \<Rightarrow> peer_manager \<Rightarrow> peer_manager" where
  "add_known_peer addr pm = pm\<lparr>pm_known_peers := insert addr (pm_known_peers pm)\<rparr>"

definition known_peers_snapshot :: "string list \<Rightarrow> peer_manager \<Rightarrow> string list" where
  "known_peers_snapshot order pm = take MAX_PEERS_SHARED (filter (\<lambda>a. a \<in> pm_known_peers pm) order)"

definition send_to_random_peer ::
    "'p io \<Rightarrow> ('p, 's) p2p_message \<Rightarrow> peer_manager \<Rightarrow> bool \<times> ('p, 's) effect list" where
  "send_to_random_peer io msg pm =
     (let keys = filter (\<lambda>a. a \<in> pm_peers pm) (io_peer_order io) in
      if pm_peers pm = {} \<or> keys = [] then (False, [])
      else (io_write_ok io, [SendTo (keys ! (io_pick io mod length keys)) msg]))"

text \<open>The gate of an inbound connection, TCP or WebSocket: refused at capacity.\<close>

definition accept_inbound :: "string \<Rightarrow> peer_manager \<Rightarrow> bool \<times> peer_manager" where
  "accept_inbound addr pm =
     (if MAX_PEERS \<le> connection_count pm then (False, pm) else (True, add_peer addr pm))"


section \<open>The Dandelion router\<close>

datatype tx_state = Stem | Fluff

definition MAX_SEEN_STEMS :: nat where "MAX_SEEN_STEMS = 200000"

text \<open>Tracked transaction ids, and whether each has been fluffed.\<close>

type_synonym seen_stems = "(hash32, bool) mapping"

definition next_state :: "'p io \<Rightarrow> tx_state" where
  "next_state io = (if io_fluff io then Fluff else Stem)"

text \<open>Whether a timer is started, and the map.\<close>

definition register_stem_tx :: "hash32 \<Rightarrow> seen_stems \<Rightarrow> bool \<times> seen_stems" where
  "register_stem_tx tx_id seen =
     (if contains_key seen tx_id then (False, seen)
      else if MAX_SEEN_STEMS \<le> Mapping.size seen then (False, seen)
      else (True, Mapping.update tx_id False seen))"

text \<open>The body of the timer: whether the fallback broadcast is triggered.\<close>

definition stem_timeout :: "hash32 \<Rightarrow> seen_stems \<Rightarrow> bool \<times> seen_stems" where
  "stem_timeout tx_id seen =
     (case Mapping.lookup seen tx_id of
        Some fluffed \<Rightarrow> if \<not> fluffed then (True, Mapping.update tx_id True seen) else (False, seen)
      | None \<Rightarrow> (False, seen))"

definition mark_fluffed :: "hash32 \<Rightarrow> seen_stems \<Rightarrow> seen_stems" where
  "mark_fluffed tx_id seen =
     (if \<not> contains_key seen tx_id \<and> MAX_SEEN_STEMS \<le> Mapping.size seen then seen
      else Mapping.update tx_id True seen)"

definition is_fluffed :: "hash32 \<Rightarrow> seen_stems \<Rightarrow> bool" where
  "is_fluffed tx_id seen = (case Mapping.lookup seen tx_id of None \<Rightarrow> False | Some fluffed \<Rightarrow> fluffed)"

definition compute_tx_id :: "('p, 's) crypto \<Rightarrow> ('p, 's) wire \<Rightarrow> ('p, 's) transaction \<Rightarrow> hash32" where
  "compute_tx_id cr wi tx = sha256 cr (case wi_tx wi tx of None \<Rightarrow> [] | Some bytes \<Rightarrow> bytes)"

definition dispatch_dandelion_tx ::
    "('p::ab_group_add, 's::comm_ring_1) crypto \<Rightarrow> ('p, 's) wire \<Rightarrow> 'p io \<Rightarrow> ('p, 's) transaction \<Rightarrow> bool \<Rightarrow>
       peer_manager \<Rightarrow> ('p, 's) mempool \<Rightarrow> seen_stems \<Rightarrow>
       ('p, 's) mempool \<times> seen_stems \<times> ('p, 's) effect list" where
  "dispatch_dandelion_tx cr wi io tx already_in_mempool pm mp seen =
     (let tx_id = compute_tx_id cr wi tx in
      if is_fluffed tx_id seen then (mp, seen, [])
      else case next_state io of
        Stem \<Rightarrow>
          let (forwarded, sent) = send_to_random_peer io (StemTx tx) pm;
              (started, seen) = register_stem_tx tx_id seen;
              timer = (if started then [FluffTimer tx_id tx] else [])
          in if \<not> forwarded
             then let seen = mark_fluffed tx_id seen;
                      mp = (if already_in_mempool then mp else snd (add_transaction cr (wi_size wi) tx mp))
                  in (mp, seen, sent @ timer @ [Broadcast (FluffTx tx)])
             else (mp, seen, sent @ timer)
      | Fluff \<Rightarrow>
          let seen = mark_fluffed tx_id seen;
              (added, mp) = (if already_in_mempool then (True, mp) else add_transaction cr (wi_size wi) tx mp)
          in (mp, seen, if added then [Broadcast (FluffTx tx)] else []))"

text \<open>The \<open>FluffTx\<close> arm of the receive loop.\<close>

definition receive_fluff ::
    "('p::ab_group_add, 's::comm_ring_1) crypto \<Rightarrow> ('p, 's) wire \<Rightarrow> ('p, 's) transaction \<Rightarrow>
       ('p, 's) mempool \<Rightarrow> seen_stems \<Rightarrow> ('p, 's) mempool \<times> seen_stems \<times> ('p, 's) effect list" where
  "receive_fluff cr wi tx mp seen =
     (let tx_id = compute_tx_id cr wi tx in
      if \<not> is_fluffed tx_id seen
      then let seen = mark_fluffed tx_id seen;
               (added, mp) = add_transaction cr (wi_size wi) tx mp
           in (mp, seen, if added then [Broadcast (FluffTx tx)] else [])
      else (mp, seen, []))"

text \<open>A timer that fires.\<close>

definition fire_timer ::
    "hash32 \<Rightarrow> ('p, 's) transaction \<Rightarrow> seen_stems \<Rightarrow> seen_stems \<times> ('p, 's) effect list" where
  "fire_timer tx_id tx seen =
     (let (trigger, seen) = stem_timeout tx_id seen in (seen, if trigger then [Broadcast (FluffTx tx)] else []))"


section \<open>A transaction is broadcast at most once\<close>

text \<open>What can happen to the router and the mempool: a transaction arrives (from a peer or from the local API),
  a fluffed one is received, a timer of its transaction fires.\<close>

datatype ('p, 's) routing_event =
    Arrives "'p io" "('p, 's) transaction" bool peer_manager
  | Fluffed "('p, 's) transaction"
  | Fires "('p, 's) transaction"

fun route ::
    "('p::ab_group_add, 's::comm_ring_1) crypto \<Rightarrow> ('p, 's) wire \<Rightarrow> ('p, 's) routing_event \<Rightarrow>
       ('p, 's) mempool \<Rightarrow> seen_stems \<Rightarrow> ('p, 's) mempool \<times> seen_stems \<times> ('p, 's) effect list" where
  "route cr wi (Arrives io tx local pm) mp seen = dispatch_dandelion_tx cr wi io tx local pm mp seen"
| "route cr wi (Fluffed tx) mp seen = receive_fluff cr wi tx mp seen"
| "route cr wi (Fires tx) mp seen =
     (let (seen, effs) = fire_timer (compute_tx_id cr wi tx) tx seen in (mp, seen, effs))"

fun route_all ::
    "('p::ab_group_add, 's::comm_ring_1) crypto \<Rightarrow> ('p, 's) wire \<Rightarrow> ('p, 's) routing_event list \<Rightarrow>
       ('p, 's) mempool \<Rightarrow> seen_stems \<Rightarrow> ('p, 's) mempool \<times> seen_stems \<times> ('p, 's) effect list" where
  "route_all cr wi [] mp seen = (mp, seen, [])"
| "route_all cr wi (ev # evs) mp seen =
     (let (mp, seen, effs) = route cr wi ev mp seen; (mp, seen, effs') = route_all cr wi evs mp seen
      in (mp, seen, effs @ effs'))"

definition fluffs :: "('p, 's) crypto \<Rightarrow> ('p, 's) wire \<Rightarrow> hash32 \<Rightarrow> ('p, 's) effect list \<Rightarrow> nat" where
  "fluffs cr wi tx_id effs =
     length (filter (\<lambda>e. case e of Broadcast (FluffTx tx) \<Rightarrow> compute_tx_id cr wi tx = tx_id | _ \<Rightarrow> False) effs)"


lemma is_fluffed_update [simp]:
  "is_fluffed tx_id (Mapping.update k v seen) = (if tx_id = k then v else is_fluffed tx_id seen)"
  by (simp add: is_fluffed_def map_simps)

lemma is_fluffed_mark:
  "Mapping.size seen < MAX_SEEN_STEMS \<Longrightarrow>
     is_fluffed tx_id (mark_fluffed k seen) \<longleftrightarrow> tx_id = k \<or> is_fluffed tx_id seen"
  by (simp add: mark_fluffed_def)

lemma is_fluffed_register: "is_fluffed tx_id (snd (register_stem_tx k seen)) = is_fluffed tx_id seen"
  by (auto simp: register_stem_tx_def is_fluffed_def contains_key_def map_simps)

lemma contains_register:
  "Mapping.size seen < MAX_SEEN_STEMS \<Longrightarrow> contains_key (snd (register_stem_tx k seen)) k"
  by (auto simp: register_stem_tx_def map_simps)

lemma is_fluffed_mark_tracked:
  "contains_key seen k \<Longrightarrow> is_fluffed tx_id (mark_fluffed k seen) \<longleftrightarrow> tx_id = k \<or> is_fluffed tx_id seen"
  by (simp add: mark_fluffed_def)

lemma fluffs_simps [simp]:
  "fluffs cr wi tx_id [] = 0"
  "fluffs cr wi tx_id (effs @ effs') = fluffs cr wi tx_id effs + fluffs cr wi tx_id effs'"
  "fluffs cr wi tx_id [Broadcast (FluffTx tx)] = (if compute_tx_id cr wi tx = tx_id then 1 else 0)"
  "fluffs cr wi tx_id (SendTo a msg # effs) = fluffs cr wi tx_id effs"
  "fluffs cr wi tx_id (FluffTimer i tx # effs) = fluffs cr wi tx_id effs"
  by (simp_all add: fluffs_def)

lemma send_fluffs: "fluffs cr wi tx_id (snd (send_to_random_peer io msg pm)) = 0"
  by (simp add: send_to_random_peer_def Let_def)

text \<open>One event: a fluffed transaction stays fluffed and silent; a broadcast marks its transaction.\<close>

lemma dispatch_fluffs:
  assumes "dispatch_dandelion_tx cr wi io tx local pm mp seen = (mp', seen', effs)"
    and "Mapping.size seen < MAX_SEEN_STEMS"
  shows "fluffs cr wi tx_id effs + (if is_fluffed tx_id seen then 1 else 0) \<le> (if is_fluffed tx_id seen' then 1 else 0)"
proof -
  let ?id = "compute_tx_id cr wi tx"
  have tracked: "contains_key (snd (register_stem_tx ?id seen)) ?id" by (rule contains_register [OF assms(2)])
  show ?thesis
    using assms(1) send_fluffs [of cr wi tx_id io "StemTx tx" pm] is_fluffed_register [of tx_id ?id seen]
      is_fluffed_mark_tracked [OF tracked, of tx_id] is_fluffed_mark [OF assms(2), of tx_id ?id]
    by (auto simp: dispatch_dandelion_tx_def Let_def split_beta split: if_splits tx_state.splits)
qed

lemma receive_fluffs:
  assumes "receive_fluff cr wi tx mp seen = (mp', seen', effs)" and "Mapping.size seen < MAX_SEEN_STEMS"
  shows "fluffs cr wi tx_id effs + (if is_fluffed tx_id seen then 1 else 0) \<le> (if is_fluffed tx_id seen' then 1 else 0)"
  using assms is_fluffed_mark [OF assms(2), of tx_id "compute_tx_id cr wi tx"]
  by (auto simp: receive_fluff_def Let_def split_beta split: if_splits)

lemma fire_fluffs:
  "fire_timer (compute_tx_id cr wi tx) tx seen = (seen', effs) \<Longrightarrow>
     fluffs cr wi tx_id effs + (if is_fluffed tx_id seen then 1 else 0) \<le> (if is_fluffed tx_id seen' then 1 else 0)"
  by (auto simp: fire_timer_def stem_timeout_def is_fluffed_def map_simps split: option.splits if_splits)

lemma route_fluffs:
  assumes "route cr wi ev mp seen = (mp', seen', effs)" and "Mapping.size seen < MAX_SEEN_STEMS"
  shows "fluffs cr wi tx_id effs + (if is_fluffed tx_id seen then 1 else 0) \<le> (if is_fluffed tx_id seen' then 1 else 0)"
proof (cases ev)
  case (Arrives io tx local pm)
  with assms show ?thesis by (intro dispatch_fluffs) simp_all
next
  case (Fluffed tx)
  with assms show ?thesis by (intro receive_fluffs) simp_all
next
  case (Fires tx)
  with assms(1) show ?thesis
    by (intro fire_fluffs [where tx = tx]) (simp split: prod.splits)
qed

text \<open>Each event tracks at most the id of its own transaction.\<close>

fun event_tx :: "('p, 's) routing_event \<Rightarrow> ('p, 's) transaction" where
  "event_tx (Arrives io tx local pm) = tx"
| "event_tx (Fluffed tx) = tx"
| "event_tx (Fires tx) = tx"

lemma route_keys:
  assumes "route cr wi ev mp seen = (mp', seen', effs)"
  shows "Mapping.keys seen' \<subseteq> insert (compute_tx_id cr wi (event_tx ev)) (Mapping.keys seen)"
proof -
  have "Mapping.keys (mark_fluffed k m) \<subseteq> insert k (Mapping.keys m)"
    and "Mapping.keys (snd (register_stem_tx k m)) \<subseteq> insert k (Mapping.keys m)"
    and "Mapping.keys (snd (stem_timeout k m)) \<subseteq> insert k (Mapping.keys m)" for k m
    by (auto simp: mark_fluffed_def register_stem_tx_def stem_timeout_def split: option.splits)
  note keys = this(1) this(2) this(3)
  show ?thesis
    using assms keys(2) [of "compute_tx_id cr wi (event_tx ev)" seen] keys(1) [of "compute_tx_id cr wi (event_tx ev)" seen]
      keys(1) [of "compute_tx_id cr wi (event_tx ev)" "snd (register_stem_tx (compute_tx_id cr wi (event_tx ev)) seen)"]
      keys(3) [of "compute_tx_id cr wi (event_tx ev)" seen]
    by (cases ev) (auto simp: dispatch_dandelion_tx_def receive_fluff_def fire_timer_def Let_def split_beta
        split: if_splits tx_state.splits)
qed

lemma route_size:
  assumes "route cr wi ev mp seen = (mp', seen', effs)" and "finite (Mapping.keys seen)"
  shows "finite (Mapping.keys seen') \<and> Mapping.size seen' \<le> Suc (Mapping.size seen)"
proof -
  note sub = route_keys [OF assms(1)]
  have "card (Mapping.keys seen') \<le> card (insert (compute_tx_id cr wi (event_tx ev)) (Mapping.keys seen))"
    by (rule card_mono [OF _ sub]) (simp add: assms(2))
  also have "\<dots> \<le> Suc (card (Mapping.keys seen))" by (rule card_insert_le_m1) simp_all
  finally show ?thesis using finite_subset [OF sub] assms(2) by (simp add: Mapping.size_def)
qed

lemma route_all_fluffs:
  assumes "route_all cr wi evs mp seen = (mp', seen', effs)" and "finite (Mapping.keys seen)"
    and "Mapping.size seen + length evs \<le> MAX_SEEN_STEMS"
  shows "fluffs cr wi tx_id effs + (if is_fluffed tx_id seen then 1 else 0) \<le> (if is_fluffed tx_id seen' then 1 else 0)"
  using assms
proof (induction evs arbitrary: mp seen effs)
  case (Cons ev evs)
  obtain mp1 seen1 effs1 where r: "route cr wi ev mp seen = (mp1, seen1, effs1)" by (cases "route cr wi ev mp seen")
  obtain effs2 where rest: "route_all cr wi evs mp1 seen1 = (mp', seen', effs2)" and effs: "effs = effs1 @ effs2"
    using Cons.prems(1) by (auto simp: r split: prod.splits)
  note size = route_size [OF r Cons.prems(2)]
  have "fluffs cr wi tx_id effs2 + (if is_fluffed tx_id seen1 then 1 else 0) \<le> (if is_fluffed tx_id seen' then 1 else 0)"
    by (rule Cons.IH [OF rest]) (use size Cons.prems(3) in simp_all)
  moreover have "fluffs cr wi tx_id effs1 + (if is_fluffed tx_id seen then 1 else 0) \<le> (if is_fluffed tx_id seen1 then 1 else 0)"
    by (rule route_fluffs [OF r]) (use Cons.prems(3) in simp)
  ultimately show ?case by (simp add: effs)
qed simp


lemma route_all_append:
  "route_all cr wi (evs @ evs') mp seen =
     (let (mp, seen, effs) = route_all cr wi evs mp seen; (mp, seen, effs') = route_all cr wi evs' mp seen
      in (mp, seen, effs @ effs'))"
  by (induction evs arbitrary: mp seen) (auto simp: split_beta Let_def)

lemma route_all_size:
  assumes "route_all cr wi evs mp seen = (mp', seen', effs)" and "finite (Mapping.keys seen)"
  shows "finite (Mapping.keys seen') \<and> Mapping.size seen' \<le> Mapping.size seen + length evs"
  using assms
proof (induction evs arbitrary: mp seen effs)
  case (Cons ev evs)
  obtain mp1 seen1 effs1 where r: "route cr wi ev mp seen = (mp1, seen1, effs1)" by (cases "route cr wi ev mp seen")
  obtain effs2 where rest: "route_all cr wi evs mp1 seen1 = (mp', seen', effs2)"
    using Cons.prems(1) by (auto simp: r split: prod.splits)
  from route_size [OF r Cons.prems(2)] Cons.IH [OF rest] show ?case by simp
qed simp

text \<open>Tracked ids are never forgotten.\<close>

lemma route_tracks:
  "route cr wi ev mp seen = (mp', seen', effs) \<Longrightarrow> contains_key seen k \<Longrightarrow> contains_key seen' k"
  by (cases ev)
    (auto simp: dispatch_dandelion_tx_def receive_fluff_def fire_timer_def mark_fluffed_def register_stem_tx_def
      stem_timeout_def map_simps Let_def split_beta split: if_splits tx_state.splits option.splits)

lemma route_all_tracks:
  assumes "route_all cr wi evs mp seen = (mp', seen', effs)" and "contains_key seen k"
  shows "contains_key seen' k"
  using assms by (induction evs arbitrary: mp seen effs) (auto split: prod.splits dest: route_tracks)

lemma arrives_tracked:
  assumes "dispatch_dandelion_tx cr wi io tx local pm mp seen = (mp', seen', effs)"
    and "Mapping.size seen < MAX_SEEN_STEMS"
  shows "contains_key seen' (compute_tx_id cr wi tx)"
  using assms contains_register [OF assms(2), of "compute_tx_id cr wi tx"]
  by (auto simp: dispatch_dandelion_tx_def is_fluffed_def contains_key_def mark_fluffed_def map_simps Let_def split_beta
      split: if_splits tx_state.splits option.splits)

lemma fires_fluffed:
  "contains_key seen (compute_tx_id cr wi tx) \<Longrightarrow> is_fluffed (compute_tx_id cr wi tx) (fst (fire_timer (compute_tx_id cr wi tx) tx seen))"
  by (auto simp: fire_timer_def stem_timeout_def is_fluffed_def contains_key_def map_simps split: option.splits)

lemma arrives_then_fires:
  assumes run: "route_all cr wi (evs @ Arrives io tx local pm # evs' @ Fires tx # evs'') mp seen = (mp', seen', effs)"
    and fin: "finite (Mapping.keys seen)"
    and room: "Mapping.size seen + length (evs @ Arrives io tx local pm # evs' @ Fires tx # evs'') \<le> MAX_SEEN_STEMS"
  shows "is_fluffed (compute_tx_id cr wi tx) seen'"
proof -
  obtain mp1 seen1 effs1 where r1: "route_all cr wi evs mp seen = (mp1, seen1, effs1)" by (cases "route_all cr wi evs mp seen")
  obtain mp2 seen2 effs2 where r2: "dispatch_dandelion_tx cr wi io tx local pm mp1 seen1 = (mp2, seen2, effs2)"
    by (cases "dispatch_dandelion_tx cr wi io tx local pm mp1 seen1")
  obtain mp3 seen3 effs3 where r3: "route_all cr wi evs' mp2 seen2 = (mp3, seen3, effs3)" by (cases "route_all cr wi evs' mp2 seen2")
  obtain seen4 effs4 where r4: "fire_timer (compute_tx_id cr wi tx) tx seen3 = (seen4, effs4)"
    by (cases "fire_timer (compute_tx_id cr wi tx) tx seen3")
  obtain effs5 where r5: "route_all cr wi evs'' mp3 seen4 = (mp', seen', effs5)"
    using run by (auto simp: route_all_append r1 r2 r3 r4 split: prod.splits)
  note s1 = route_all_size [OF r1 fin]
  have "contains_key seen2 (compute_tx_id cr wi tx)" by (rule arrives_tracked [OF r2]) (use s1 room in simp)
  then have "is_fluffed (compute_tx_id cr wi tx) seen4"
    using fires_fluffed [of seen3] route_all_tracks [OF r3] r4 by (metis fst_conv)
  moreover have "finite (Mapping.keys seen4) \<and> Mapping.size seen4 \<le> Mapping.size seen1 + 2 + length evs'"
  proof -
    have "route cr wi (Arrives io tx local pm) mp1 seen1 = (mp2, seen2, effs2)" using r2 by simp
    note s2 = route_size [OF this] 
    have "route cr wi (Fires tx) mp3 seen3 = (mp3, seen4, effs4)" using r4 by simp
    note s4 = route_size [OF this]
    from s1 s2 route_all_size [OF r3] s4 show ?thesis by fastforce
  qed
  ultimately show ?thesis
    using route_all_fluffs [OF r5, of "compute_tx_id cr wi tx"] s1 room by (auto split: if_splits)
qed



definition w_wire :: "(wpoint, u64) wire" where
  "w_wire = \<lparr>wi_size = (\<lambda>_. Some 952), wi_tx = (\<lambda>tx. Some (u64_le (tx_fee tx))), wi_phases = (\<lambda>_. [])\<rparr>"

definition w_io :: "bool \<Rightarrow> wpoint io" where
  "w_io fluff = \<lparr>io_fluff = fluff, io_pick = 0, io_peer_order = [''peer''], io_known_order = [], io_utxo_order = [],
     io_write_ok = True\<rparr>"

definition w_peers :: peer_manager where
  "w_peers = \<lparr>pm_peers = {''peer''}, pm_known_peers = {''peer''}\<rparr>"

abbreviation w_payment :: "(wpoint, u64) transaction" where
  "w_payment \<equiv> w_tx [(100, 7)] [(95, 5)] 2 5"


text \<open>A relay that ends the stem phase by its timer broadcasts the transaction without ever admitting it to its
  own mempool, and since it then counts as fluffed, every copy that comes back is ignored: the relay
  itself can never mine it. (The comment on \<open>dispatch_dandelion_tx\<close> says a relay adds a transaction
  to its mempool when it fluffs it.)\<close>

theorem relay_never_admits:
  assumes "\<not> io_fluff io" and "io_write_ok io" and "\<exists>a \<in> set (io_peer_order io). a \<in> pm_peers pm"
    and "\<not> contains_key seen (compute_tx_id cr wi tx)" and "Mapping.size seen < MAX_SEEN_STEMS"
  shows "\<exists>seen' effs. route_all cr wi [Arrives io tx False pm, Fires tx, Fluffed tx] mp seen = (mp, seen', effs) \<and>
    Broadcast (FluffTx tx) \<in> set effs \<and> is_fluffed (compute_tx_id cr wi tx) seen'"
proof -
  have keys: "filter (\<lambda>a. a \<in> pm_peers pm) (io_peer_order io) \<noteq> []" "pm_peers pm \<noteq> {}"
    using assms(3) by (auto simp: filter_empty_conv)
  then have "fst (send_to_random_peer io (StemTx tx) pm)"
    using assms(2) by (simp add: send_to_random_peer_def Let_def)
  moreover have "\<not> is_fluffed (compute_tx_id cr wi tx) seen"
    using assms(4) by (simp add: is_fluffed_def contains_key_def)
  ultimately show ?thesis
    using assms(1,4,5)
    by (auto simp: dispatch_dandelion_tx_def next_state_def register_stem_tx_def receive_fluff_def fire_timer_def
        stem_timeout_def map_simps Let_def split_beta)
qed

theorem relay_never_admits_witness:
  "\<exists>seen' effs. route_all w_crypto w_wire
       [Arrives (w_io False) w_payment False w_peers, Fires w_payment, Fluffed w_payment] mempool_new Mapping.empty =
     (mempool_new, seen', effs) \<and> Broadcast (FluffTx w_payment) \<in> set effs"
  using relay_never_admits [of "w_io False" w_peers Mapping.empty w_crypto w_wire w_payment mempool_new]
  by (auto simp: w_io_def w_peers_def contains_key_def lookup_empty Mapping.size_def MAX_SEEN_STEMS_def)

end
