(* ===== verification/Peer.thy ===== *)
theory Peer
  imports Network
begin

text \<open>
  The receive loop of a peer connection (\<open>handle_peer_connection\<close> in \<open>p2p/src/server.rs\<close>): the budget
  check and the arm of every message, with batch synchronisation and its fallback to aggregate
  validation. A handler takes the node's shared state and the connection's own state and returns both
  with the effects it causes; \<open>None\<close> would be a loop that does not end, \<open>Panic\<close> a panic. The lemmas
  show that no message crashes or hangs the node or breaks the invariants of its chain, mempool,
  listings and allowlists, except for one: a snapshot taken over in aggregate mode, which lets a peer
  replace the unspent set.
\<close>

section \<open>State\<close>

record ('p, 's) p2p_server =
  nd_router :: seen_stems
  nd_mempool :: "('p, 's) mempool"
  nd_chain :: "('p, 's) chain_state"
  nd_marketplace :: "('p, 's) marketplace_state"
  nd_allowlist :: "('p, 's) allowlist_state"
  nd_peer_manager :: peer_manager
  nd_own_listen_addr :: string

text \<open>The local variables of one connection's loop.\<close>

record ('p, 's) connection =
  cn_aggregate_mode :: bool
  cn_aggregate_kernels :: "('p, 's) tx_kernel list"
  cn_aggregate_registry_fees :: u64
  cn_aggregate_prev_hash :: "hash32 option"

definition connection_new :: "('p, 's) connection" where
  "connection_new = \<lparr>cn_aggregate_mode = False, cn_aggregate_kernels = [], cn_aggregate_registry_fees = 0,
     cn_aggregate_prev_hash = None\<rparr>"

text \<open>Sequencing of computations that may diverge or panic.\<close>

definition bind_run :: "'a outcome option \<Rightarrow> ('a \<Rightarrow> 'b outcome option) \<Rightarrow> 'b outcome option" where
  "bind_run r f = (case r of None \<Rightarrow> None | Some Panic \<Rightarrow> Some Panic | Some (Ret x) \<Rightarrow> f x)"

type_synonym ('p, 's) handled = "('p, 's) p2p_server \<times> ('p, 's) connection \<times> ('p, 's) effect list"

abbreviation finished :: "'a \<Rightarrow> 'a outcome option" where
  "finished x \<equiv> Some (Ret x)"


section \<open>Handlers\<close>

text \<open>A queued operation is propagated only when the mempool took it.\<close>

definition queue_op ::
    "bool \<times> ('p, 's) mempool \<Rightarrow> ('p, 's) p2p_message \<Rightarrow> ('p, 's) p2p_server \<Rightarrow> ('p, 's) p2p_server \<times> ('p, 's) effect list" where
  "queue_op r msg nd = (let (added, mp) = r in (nd\<lparr>nd_mempool := mp\<rparr>, if added then [Broadcast msg] else []))"

text \<open>Once a block is applied: the mempool and the listings it makes stale are cleared.\<close>

definition clear_mempool :: "('p, 's) block \<Rightarrow> ('p, 's) mempool \<Rightarrow> ('p, 's) mempool" where
  "clear_mempool b mp =
     (let registered_names = map rn_name (b_name_ops b);
          spent = concat (map (\<lambda>op. map in_commitment (tx_inputs (rn_fee_payment op))) (b_name_ops b));
          touched_names = registered_names @ map tn_name (b_transfer_ops b);
          minted_assets = map ma_asset_id (b_mint_ops b);
          mint_spent = concat (map (\<lambda>op. map in_commitment (tx_inputs (ma_fee_payment op))) (b_mint_ops b));
          touched_assets = minted_assets @ map ta_asset_id (b_transfer_asset_ops b);
          launched_collections = map lc_collection_id (b_launch_collection_ops b);
          registered_validators = map rv_commitment (b_validator_ops b);
          mp = clear_spent (b_body b) mp;
          mp = clear_stale_name_ops registered_names spent mp;
          mp = clear_stale_transfer_ops touched_names mp;
          mp = clear_stale_mint_ops minted_assets mint_spent mp;
          mp = clear_stale_transfer_asset_ops touched_assets mp;
          mp = clear_stale_launch_collection_ops launched_collections mp
      in clear_stale_validator_ops registered_validators mp)"

definition after_block :: "('p, 's) block \<Rightarrow> ('p, 's) p2p_server \<Rightarrow> ('p, 's) p2p_server" where
  "after_block b nd =
     nd\<lparr>nd_mempool := clear_mempool b (nd_mempool nd),
        nd_marketplace := clear_stale (map ma_asset_id (b_mint_ops b) @ map ta_asset_id (b_transfer_asset_ops b))
          (cs_asset_registry (nd_chain nd)) (nd_marketplace nd)\<rparr>"

definition extend_aggregate ::
    "('p, 's) block \<Rightarrow> ('p, 's) tx_kernel list \<times> u64 \<Rightarrow> ('p, 's) tx_kernel list \<times> u64" where
  "extend_aggregate b = (\<lambda>(kernels, registry_fees).
     (kernels @ tx_kernels (b_body b) @ concat (map (\<lambda>op. tx_kernels (rn_fee_payment op)) (b_name_ops b)) @
        concat (map (\<lambda>op. tx_kernels (ma_fee_payment op)) (b_mint_ops b)),
      registry_fees + sum_list (map (\<lambda>op. sum_list (map fee (tx_kernels (rn_fee_payment op)))) (b_name_ops b)) +
        sum_list (map (\<lambda>op. sum_list (map fee (tx_kernels (ma_fee_payment op)))) (b_mint_ops b))))"

text \<open>Folding one block into the accumulator of an aggregate synchronisation.\<close>

definition aggregate_block :: "('p, 's) crypto \<Rightarrow> ('p, 's) block \<Rightarrow> ('p, 's) connection \<Rightarrow> ('p, 's) connection" where
  "aggregate_block cr b cn =
     (let (kernels, fees) = extend_aggregate b (cn_aggregate_kernels cn, cn_aggregate_registry_fees cn)
      in cn\<lparr>cn_aggregate_kernels := kernels, cn_aggregate_registry_fees := fees,
            cn_aggregate_prev_hash := Some (header_hash cr (b_header b))\<rparr>)"

text \<open>The loop over a received batch, with the number of blocks taken.\<close>

fun sync_blocks ::
    "('p::ab_group_add, 's::comm_ring_1) crypto \<Rightarrow> ('p, 's) env \<Rightarrow> ('p, 's) block list \<Rightarrow> ('p, 's) p2p_server \<Rightarrow>
       ('p, 's) connection \<Rightarrow> nat \<Rightarrow> (('p, 's) p2p_server \<times> ('p, 's) connection \<times> nat \<times> ('p, 's) effect list) outcome option" where
  "sync_blocks cr en [] nd cn applied_count = finished (nd, cn, applied_count, [])"
| "sync_blocks cr en (b # bs) nd cn applied_count =
     (if cn_aggregate_mode cn
      then if cn_aggregate_prev_hash cn \<noteq> Some (bh_prev_hash (b_header b)) \<or> bh_chain_id (b_header b) \<noteq> CHAIN_ID
           then finished (nd, connection_new, applied_count, [])
           else sync_blocks cr en bs nd (aggregate_block cr b cn) (applied_count + 1)
      else bind_run (apply_block cr en b (nd_chain nd)) (\<lambda>(st, result).
        let nd = nd\<lparr>nd_chain := st\<rparr> in
        if result \<noteq> Rejected
        then bind_run (sync_blocks cr en bs (after_block b nd) cn (applied_count + 1)) (\<lambda>(nd, cn, n, effs).
               finished (nd, cn, n, Persist result # effs))
        else if bh_prev_hash (b_header b) = cs_last_block_hash st \<and> bh_chain_id (b_header b) = CHAIN_ID
        then sync_blocks cr en bs nd
               (aggregate_block cr b (cn\<lparr>cn_aggregate_mode := True, cn_aggregate_kernels := cs_kernels st,
                  cn_aggregate_registry_fees := total_registry_fees_burned (cs_blocks st)\<rparr>)) (applied_count + 1)
        else finished (nd, cn, applied_count, [])))"

definition handle_blocks_batch ::
    "('p::ab_group_add, 's::comm_ring_1) crypto \<Rightarrow> ('p, 's) env \<Rightarrow> ('p, 's) block list \<Rightarrow> bool \<Rightarrow> ('p, 's) p2p_server \<Rightarrow>
       ('p, 's) connection \<Rightarrow> ('p, 's) handled outcome option" where
  "handle_blocks_batch cr en blocks has_more nd cn =
     bind_run (sync_blocks cr en blocks nd cn 0) (\<lambda>(nd, cn, applied_count, effs).
       finished (nd, cn, effs @
         (if has_more \<and> applied_count = length blocks
          then let next_from = (if cn_aggregate_mode cn
                                then (if blocks = [] then 1 else bh_height (b_header (last blocks)) + 1)
                                else cs_current_height (nd_chain nd) + 1)
               in [Reply (GetBlocks next_from)]
          else if applied_count = length blocks \<and> cn_aggregate_mode cn then [Reply GetUtxoSnapshot]
          else [])))"

definition handle_utxo_snapshot ::
    "('p::ab_group_add, 's::comm_ring_1) crypto \<Rightarrow> 'p commitment list \<Rightarrow> u64 \<Rightarrow> hash32 \<Rightarrow> ('p, 's) p2p_server \<Rightarrow>
       ('p, 's) connection \<Rightarrow> ('p, 's) p2p_server \<times> ('p, 's) connection" where
  "handle_utxo_snapshot cr utxos height tip_hash nd cn =
     (if \<not> cn_aggregate_mode cn then (nd, cn)
      else let utxo_set = set utxos;
               valid = aggregate_validate cr utxo_set (cn_aggregate_kernels cn) height (cn_aggregate_registry_fees cn);
               nd = (if valid
                     then nd\<lparr>nd_chain := (nd_chain nd)\<lparr>cs_utxos := utxo_set, cs_current_height := height,
                       cs_last_block_hash := tip_hash\<rparr>\<rparr>
                     else nd)
           in (nd, connection_new))"

text \<open>The loop of the \<open>PeersList\<close> arm; a dialled peer joins the connected ones only later, when its task runs.\<close>

definition discover_peer ::
    "string \<Rightarrow> string \<Rightarrow> peer_manager \<times> ('p, 's) effect list \<Rightarrow> peer_manager \<times> ('p, 's) effect list" where
  "discover_peer own candidate = (\<lambda>(pm, effs).
     if candidate = own \<or> is_connected candidate pm then (pm, effs)
     else let pm = add_known_peer candidate pm
          in if MAX_PEERS \<le> connection_count pm then (pm, effs) else (pm, effs @ [Dial candidate]))"

definition receive_block ::
    "('p::ab_group_add, 's::comm_ring_1) crypto \<Rightarrow> ('p, 's) env \<Rightarrow> ('p, 's) block \<Rightarrow> ('p, 's) p2p_server \<Rightarrow>
       (('p, 's) p2p_server \<times> ('p, 's) effect list) outcome option" where
  "receive_block cr en b nd =
     bind_run (apply_block cr en b (nd_chain nd)) (\<lambda>(st, result).
       let nd = nd\<lparr>nd_chain := st\<rparr> in
       finished (if result \<noteq> Rejected then (after_block b nd, [Persist result, Broadcast (NewBlock b)]) else (nd, [])))"

fun handle_message ::
    "('p::ab_group_add, 's::comm_ring_1) crypto \<Rightarrow> ('p, 's) env \<Rightarrow> ('p, 's) wire \<Rightarrow> 'p io \<Rightarrow> ('p, 's) p2p_message \<Rightarrow>
       ('p, 's) p2p_server \<Rightarrow> ('p, 's) connection \<Rightarrow> ('p, 's) handled outcome option" where
  "handle_message cr en wi io (Handshake listen_addr) nd cn =
     finished (nd\<lparr>nd_peer_manager := add_known_peer listen_addr (nd_peer_manager nd)\<rparr>, cn,
       [Reply (ChainInfo (cs_current_height (nd_chain nd)) (cs_last_block_hash (nd_chain nd))), Reply GetPeers])"
| "handle_message cr en wi io Ping nd cn = finished (nd, cn, [Reply Pong])"
| "handle_message cr en wi io Pong nd cn = finished (nd, cn, [])"
| "handle_message cr en wi io (StemTx tx) nd cn =
     (let (mp, seen, effs) =
        dispatch_dandelion_tx cr wi io tx False (nd_peer_manager nd) (nd_mempool nd) (nd_router nd)
      in finished (nd\<lparr>nd_mempool := mp, nd_router := seen\<rparr>, cn, effs))"
| "handle_message cr en wi io (FluffTx tx) nd cn =
     (let (mp, seen, effs) = receive_fluff cr wi tx (nd_mempool nd) (nd_router nd)
      in finished (nd\<lparr>nd_mempool := mp, nd_router := seen\<rparr>, cn, effs))"
| "handle_message cr en wi io (NewBlock b) nd cn =
     bind_run (receive_block cr en b nd) (\<lambda>(nd, effs). finished (nd, cn, effs))"
| "handle_message cr en wi io (NewValidatorOp op) nd cn =
     (let (nd, effs) = queue_op (add_validator_op cr op (nd_mempool nd)) (NewValidatorOp op) nd in finished (nd, cn, effs))"
| "handle_message cr en wi io (NewNameOp op) nd cn =
     (let (nd, effs) = queue_op (add_name_op cr op (nd_mempool nd)) (NewNameOp op) nd in finished (nd, cn, effs))"
| "handle_message cr en wi io (NewTransferOp op) nd cn =
     (let (nd, effs) = queue_op (add_transfer_op op (nd_mempool nd)) (NewTransferOp op) nd in finished (nd, cn, effs))"
| "handle_message cr en wi io (NewMintOp op) nd cn =
     (let (nd, effs) = queue_op (add_mint_op cr op (nd_mempool nd)) (NewMintOp op) nd in finished (nd, cn, effs))"
| "handle_message cr en wi io (NewTransferAssetOp op) nd cn =
     (let (nd, effs) = queue_op (add_transfer_asset_op op (nd_mempool nd)) (NewTransferAssetOp op) nd in finished (nd, cn, effs))"
| "handle_message cr en wi io (NewListing l) nd cn =
     (if listing_validate_standalone cr l = Inr () \<and>
         listing_validate_against_registry l (cs_asset_registry (nd_chain nd)) = Inr ()
      then finished (nd\<lparr>nd_marketplace := add_or_replace l (nd_marketplace nd)\<rparr>, cn, [Broadcast (NewListing l)])
      else finished (nd, cn, []))"
| "handle_message cr en wi io (CancelListing asset_id seller sig) nd cn =
     (if verify cr sig (cancel_message cr asset_id seller) seller
      then let (cancelled, listings) = cancel asset_id seller (nd_marketplace nd)
           in finished (nd\<lparr>nd_marketplace := listings\<rparr>, cn,
                if cancelled then [Broadcast (CancelListing asset_id seller sig)] else [])
      else finished (nd, cn, []))"
| "handle_message cr en wi io (NewLaunchCollectionOp op) nd cn =
     (let (nd, effs) = queue_op (add_launch_collection_op cr (wi_phases wi) op (nd_mempool nd)) (NewLaunchCollectionOp op) nd
      in finished (nd, cn, effs))"
| "handle_message cr en wi io (NewAllowlist entry) nd cn =
     (if allowlist_validate_standalone cr entry = Inr () \<and>
         allowlist_validate_against_registry entry (cs_collection_registry (nd_chain nd)) = Inr ()
      then finished (nd\<lparr>nd_allowlist := allowlist_publish entry (nd_allowlist nd)\<rparr>, cn, [Broadcast (NewAllowlist entry)])
      else finished (nd, cn, []))"
| "handle_message cr en wi io (ChainInfo height tip_hash) nd cn =
     finished (nd, cn, if cs_current_height (nd_chain nd) < height
                       then [Reply (GetBlocks (cs_current_height (nd_chain nd) + 1))] else [])"
| "handle_message cr en wi io (GetBlocks from_height) nd cn =
     (case get_blocks_from (nd_chain nd) from_height SYNC_BATCH_SIZE of
        None \<Rightarrow> None
      | Some (blocks, has_more) \<Rightarrow> finished (nd, cn, [Reply (BlocksBatch blocks has_more)]))"
| "handle_message cr en wi io (PrunedRange earliest) nd cn = finished (nd, cn, [])"
| "handle_message cr en wi io (BlocksBatch blocks has_more) nd cn = handle_blocks_batch cr en blocks has_more nd cn"
| "handle_message cr en wi io GetUtxoSnapshot nd cn =
     finished (nd, cn, [Reply (UtxoSnapshot (filter (\<lambda>c. c \<in> cs_utxos (nd_chain nd)) (io_utxo_order io))
       (cs_current_height (nd_chain nd)) (cs_last_block_hash (nd_chain nd)))])"
| "handle_message cr en wi io (UtxoSnapshot utxos height tip_hash) nd cn =
     (let (nd, cn) = handle_utxo_snapshot cr utxos height tip_hash nd cn in finished (nd, cn, []))"
| "handle_message cr en wi io GetPeers nd cn =
     finished (nd, cn, [Reply (PeersList (known_peers_snapshot (io_known_order io) (nd_peer_manager nd)))])"
| "handle_message cr en wi io (PeersList addrs) nd cn =
     (let (pm, effs) = fold (discover_peer (nd_own_listen_addr nd)) addrs (nd_peer_manager nd, [])
      in finished (nd\<lparr>nd_peer_manager := pm\<rparr>, cn, effs))"


section \<open>No message breaks the node\<close>

text \<open>A universe of headers without hash collisions, in which links lead to headers of lower rank.\<close>

definition header_universe ::
    "('p, 's) crypto \<Rightarrow> (hash32 \<Rightarrow> nat) \<Rightarrow> ('p, 's) block_header set \<Rightarrow> bool" where
  "header_universe cr rank H \<longleftrightarrow> inj_on (header_hash cr) H \<and>
     (\<forall>h \<in> H. header_hash cr h \<noteq> zero_hash \<and> rank (bh_prev_hash h) < rank (header_hash cr h))"

definition headers_in :: "('p, 's) block_header set \<Rightarrow> ('p, 's) chain_state \<Rightarrow> bool" where
  "headers_in H st \<longleftrightarrow> (\<forall>h b. Mapping.lookup (cs_blocks st) h = Some b \<longrightarrow> b_header b \<in> H)"

interpretation header_inv: chain_invariant cr en "\<lambda>_ b. b_header b \<in> H" "headers_in H"
proof
  fix st st' :: "('a, 'b) chain_state" and d
  assume inv: "headers_in H st" and "rollback_block cr st = Some (st', d)"
  from this(2) have "cs_blocks st' = cs_blocks st" by (rule rollback_block_Some)
  with inv show "headers_in H st'" by (simp add: headers_in_def)
qed (auto simp: headers_in_def store_block_def applied_state_def stored_def Let_def map_simps split: if_splits)

definition listings_ok :: "('p::ab_group_add, 's::comm_ring_1) crypto \<Rightarrow> ('p, 's) marketplace_state \<Rightarrow> bool" where
  "listings_ok cr listings \<longleftrightarrow> (\<forall>asset_id l. Mapping.lookup listings asset_id = Some l \<longrightarrow>
     li_asset_id l = asset_id \<and> listing_validate_standalone cr l = Inr ())"

definition allowlists_ok :: "('p::ab_group_add, 's::comm_ring_1) crypto \<Rightarrow> ('p, 's) allowlist_state \<Rightarrow> bool" where
  "allowlists_ok cr entries \<longleftrightarrow> (\<forall>key entry. Mapping.lookup entries key = Some entry \<longrightarrow>
     allowlist_validate_standalone cr entry = Inr ())"

definition node_ok ::
    "('p::ab_group_add, 's::comm_ring_1) crypto \<Rightarrow> ('p, 's) wire \<Rightarrow> ('p, 's) block_header set \<Rightarrow> ('p, 's) p2p_server \<Rightarrow> bool" where
  "node_ok cr wi H nd \<longleftrightarrow> chain_ok cr (nd_chain nd) \<and> headers_in H (nd_chain nd) \<and>
     mempool_ok cr (wi_size wi) (wi_phases wi) (nd_mempool nd) \<and>
     listings_ok cr (nd_marketplace nd) \<and> allowlists_ok cr (nd_allowlist nd)"

lemma node_okD:
  assumes "node_ok cr wi H nd"
  shows "chain_ok cr (nd_chain nd)" "headers_in H (nd_chain nd)"
    "mempool_ok cr (wi_size wi) (wi_phases wi) (nd_mempool nd)" "listings_ok cr (nd_marketplace nd)"
    "allowlists_ok cr (nd_allowlist nd)"
  using assms by (simp_all add: node_ok_def)

lemma universe_ranked:
  assumes "header_universe cr rank H" and "headers_in H st" and "store_keyed cr st"
  shows "ranked rank (cs_blocks st)"
  using assms unfolding ranked_def header_universe_def headers_in_def store_keyed_def by metis

lemma universe_no_collision:
  assumes "header_universe cr rank H" and "headers_in H st" and "store_keyed cr st" and "b_header b \<in> H"
  shows "no_collision cr st b"
  using assms unfolding no_collision_def header_universe_def headers_in_def store_keyed_def by (metis inj_onD)

text \<open>Applying any block of the universe returns and keeps the chain well formed.\<close>

lemma apply_block_safe:
  assumes U: "header_universe cr rank H" and ok: "chain_ok cr st" "headers_in H st" and b: "b_header b \<in> H"
  obtains st' r where "apply_block cr en b st = Some (Ret (st', r))" "chain_ok cr st'" "headers_in H st'"
proof -
  have keyed: "store_keyed cr st" using ok(1) by (simp add: chain_ok_def)
  have stored: "store_keyed cr (store_block cr b st)" "headers_in H (store_block cr b st)"
    using store_inv.on_store [OF keyed] header_inv.on_store [OF ok(2), where b = b] b by simp_all
  obtain st' r where a: "apply_block cr en b st = Some (Ret (st', r))"
    using apply_block_ends [OF universe_ranked [OF U stored(2,1)]] by blast
  moreover have "chain_ok cr st'"
    by (rule apply_block_ok [OF ok(1) universe_no_collision [OF U ok(2) keyed b] a])
  moreover have "headers_in H st'"
    by (rule header_inv.apply_block_inv [OF ok(2) keyed _ a]) (simp add: b)
  ultimately show thesis using that by blast
qed

lemma collect_blocks_total: "ranked rank blocks \<Longrightarrow> \<exists>r. collect_blocks blocks from_height h collected = Some r"
proof (induction "rank h" arbitrary: h collected rule: less_induct)
  case less
  show ?case
  proof (cases "Mapping.lookup blocks h")
    case None
    then show ?thesis by (simp add: collect_blocks.simps)
  next
    case (Some b)
    with less.prems have "rank (bh_prev_hash (b_header b)) < rank h" by (simp add: ranked_def)
    from less.hyps [OF this less.prems] Some show ?thesis by (subst collect_blocks.simps) simp
  qed
qed

lemma bind_run_finished [simp]: "bind_run (Some (Ret x)) f = f x"
  by (simp add: bind_run_def)

lemma clear_mempool_ok:
  "mempool_ok cr size_of ser mp \<Longrightarrow> mempool_ok cr size_of ser (clear_mempool b mp)"
  unfolding clear_mempool_def Let_def by (intro clear_keeps_ok)

lemma after_block_ok: "node_ok cr wi H nd \<Longrightarrow> node_ok cr wi H (after_block b nd)"
  by (auto simp: node_ok_def after_block_def clear_mempool_ok listings_ok_def clear_stale_def map_simps
      split: option.splits if_splits)

lemma node_ok_chain:
  "node_ok cr wi H nd \<Longrightarrow> chain_ok cr st \<Longrightarrow> headers_in H st \<Longrightarrow> node_ok cr wi H (nd\<lparr>nd_chain := st\<rparr>)"
  by (simp add: node_ok_def)

lemma sync_blocks_safe:
  assumes U: "header_universe cr rank H"
  shows "node_ok cr wi H nd \<Longrightarrow> b_header ` set bs \<subseteq> H \<Longrightarrow>
    \<exists>nd' cn' n' effs. sync_blocks cr en bs nd cn n = finished (nd', cn', n', effs) \<and> node_ok cr wi H nd'"
proof (induction bs arbitrary: nd cn n)
  case (Cons b bs)
  have H: "b_header b \<in> H" "b_header ` set bs \<subseteq> H" using Cons.prems(2) by auto
  show ?case
  proof (cases "cn_aggregate_mode cn")
    case True
    with Cons.IH [OF Cons.prems(1) H(2)] Cons.prems(1) show ?thesis by simp
  next
    case False
    obtain st r where a: "apply_block cr en b (nd_chain nd) = Some (Ret (st, r))" "chain_ok cr st" "headers_in H st"
      by (rule apply_block_safe [OF U node_okD(1,2) [OF Cons.prems(1)] H(1)])
    note nd1 = node_ok_chain [OF Cons.prems(1) a(2,3)]
    obtain nd' cn' n' effs where "sync_blocks cr en bs (after_block b (nd\<lparr>nd_chain := st\<rparr>)) cn (n + 1) = finished (nd', cn', n', effs)"
        "node_ok cr wi H nd'"
      using Cons.IH [OF after_block_ok [OF nd1] H(2)] by blast
    moreover note Cons.IH [OF nd1 H(2)]
    ultimately show ?thesis using False a(1) nd1 by (simp add: Let_def)
  qed
qed simp


text \<open>The transaction pool under routing.\<close>

lemma add_results_ok:
  assumes ok: "mempool_ok cr size_of ser mp"
  shows "mempool_ok cr size_of ser (snd (add_transaction cr size_of tx mp))"
    and "mempool_ok cr size_of ser (snd (add_name_op cr nop mp))"
    and "mempool_ok cr size_of ser (snd (add_transfer_op xop mp))"
    and "mempool_ok cr size_of ser (snd (add_mint_op cr mop mp))"
    and "mempool_ok cr size_of ser (snd (add_transfer_asset_op aop mp))"
    and "mempool_ok cr size_of ser (snd (add_launch_collection_op cr ser lop mp))"
    and "mempool_ok cr size_of ser (snd (add_validator_op cr vop mp))"
  by (rule add_keeps_ok [OF ok], rule surjective_pairing)+

lemma dispatch_keeps_ok:
  assumes "dispatch_dandelion_tx cr wi io tx local pm mp seen = (mp', seen', effs)"
    and "mempool_ok cr (wi_size wi) ser mp"
  shows "mempool_ok cr (wi_size wi) ser mp'"
  using assms add_results_ok(1) [OF assms(2)]
  by (auto simp: dispatch_dandelion_tx_def Let_def split_beta split: if_splits tx_state.splits)

lemma receive_fluff_keeps_ok:
  assumes "receive_fluff cr wi tx mp seen = (mp', seen', effs)" and "mempool_ok cr (wi_size wi) ser mp"
  shows "mempool_ok cr (wi_size wi) ser mp'"
  using assms add_results_ok(1) [OF assms(2)] by (auto simp: receive_fluff_def Let_def split_beta split: if_splits)

lemma queue_op_ok:
  assumes "node_ok cr wi H nd" and "mempool_ok cr (wi_size wi) (wi_phases wi) (snd r)"
  shows "node_ok cr wi H (fst (queue_op r msg nd))"
  using assms by (cases r) (simp add: queue_op_def node_ok_def)

lemma receive_block_safe:
  assumes U: "header_universe cr rank H" and ok: "node_ok cr wi H nd" and b: "b_header b \<in> H"
  shows "\<exists>nd' effs. receive_block cr en b nd = finished (nd', effs) \<and> node_ok cr wi H nd'"
proof -
  obtain st r where a: "apply_block cr en b (nd_chain nd) = Some (Ret (st, r))" "chain_ok cr st" "headers_in H st"
    by (rule apply_block_safe [OF U node_okD(1,2) [OF ok] b])
  from node_ok_chain [OF ok a(2,3)] show ?thesis by (simp add: receive_block_def a(1) Let_def after_block_ok)
qed

lemma handle_blocks_batch_safe:
  assumes "header_universe cr rank H" and "node_ok cr wi H nd" and "b_header ` set blocks \<subseteq> H"
  shows "\<exists>nd' cn' effs. handle_blocks_batch cr en blocks has_more nd cn = finished (nd', cn', effs) \<and> node_ok cr wi H nd'"
  using sync_blocks_safe [OF assms, of en cn 0] by (auto simp: handle_blocks_batch_def)

fun message_headers :: "('p, 's) p2p_message \<Rightarrow> ('p, 's) block_header set" where
  "message_headers (NewBlock b) = {b_header b}"
| "message_headers (BlocksBatch blocks has_more) = b_header ` set blocks"
| "message_headers _ = {}"

fun is_snapshot :: "('p, 's) p2p_message \<Rightarrow> bool" where
  "is_snapshot (UtxoSnapshot utxos height tip_hash) = True"
| "is_snapshot _ = False"

lemma handle_message_safe:
  assumes U: "header_universe cr rank H" and ok: "node_ok cr wi H nd" and H: "message_headers msg \<subseteq> H"
    and snapshot: "\<not> (cn_aggregate_mode cn \<and> is_snapshot msg)"
  shows "\<exists>nd' cn' effs. handle_message cr en wi io msg nd cn = finished (nd', cn', effs) \<and> node_ok cr wi H nd'"
proof -
  note mp = node_okD(3) [OF ok]
  show ?thesis
  proof (cases msg)
    case (StemTx tx)
    obtain mp' seen' effs where d: "dispatch_dandelion_tx cr wi io tx False (nd_peer_manager nd) (nd_mempool nd) (nd_router nd) =
      (mp', seen', effs)" by (metis prod_cases3)
    from dispatch_keeps_ok [OF d mp] ok StemTx d show ?thesis by (simp add: node_ok_def)
  next
    case (FluffTx tx)
    obtain mp' seen' effs where d: "receive_fluff cr wi tx (nd_mempool nd) (nd_router nd) = (mp', seen', effs)"
      by (metis prod_cases3)
    from receive_fluff_keeps_ok [OF d mp] ok FluffTx d show ?thesis by (simp add: node_ok_def)
  next
    case (NewBlock b)
    with receive_block_safe [OF U ok, of b en] H show ?thesis by auto
  next
    case (BlocksBatch blocks has_more)
    with handle_blocks_batch_safe [OF U ok, of blocks en has_more cn] H show ?thesis by simp
  next
    case (NewValidatorOp op)
    with queue_op_ok [OF ok add_results_ok(7) [OF mp, of op]] show ?thesis by (simp add: split_beta)
  next
    case (NewNameOp op)
    with queue_op_ok [OF ok add_results_ok(2) [OF mp, of op]] show ?thesis by (simp add: split_beta)
  next
    case (NewTransferOp op)
    with queue_op_ok [OF ok add_results_ok(3) [OF mp, of op]] show ?thesis by (simp add: split_beta)
  next
    case (NewMintOp op)
    with queue_op_ok [OF ok add_results_ok(4) [OF mp, of op]] show ?thesis by (simp add: split_beta)
  next
    case (NewTransferAssetOp op)
    with queue_op_ok [OF ok add_results_ok(5) [OF mp, of op]] show ?thesis by (simp add: split_beta)
  next
    case (NewLaunchCollectionOp op)
    with queue_op_ok [OF ok add_results_ok(6) [OF mp, of op]] show ?thesis by (simp add: split_beta)
  next
    case (NewListing l)
    with ok show ?thesis by (auto simp: node_ok_def listings_ok_def add_or_replace_def map_simps)
  next
    case (CancelListing asset_id seller sig)
    with ok show ?thesis
      by (auto simp: node_ok_def listings_ok_def cancel_def map_simps Let_def split: option.splits if_splits)
  next
    case (NewAllowlist entry)
    with ok show ?thesis by (auto simp: node_ok_def allowlists_ok_def allowlist_publish_def map_simps split: if_splits)
  next
    case (GetBlocks from_height)
    have "ranked rank (cs_blocks (nd_chain nd))"
      using universe_ranked [OF U node_okD(2) [OF ok]] node_okD(1) [OF ok] by (simp add: chain_ok_def)
    from collect_blocks_total [OF this, of from_height "cs_last_block_hash (nd_chain nd)" "[]"] obtain bs
      where "collect_blocks (cs_blocks (nd_chain nd)) from_height (cs_last_block_hash (nd_chain nd)) [] = Some bs" by blast
    with GetBlocks ok show ?thesis by (simp add: get_blocks_from_def Let_def)
  next
    case (PeersList addrs)
    with ok show ?thesis by (auto simp: node_ok_def split_beta)
  qed (use ok snapshot in \<open>auto simp: node_ok_def handle_utxo_snapshot_def\<close>)
qed

text \<open>No message a peer sends crashes or hangs the node or corrupts its state: as long as headers have no hash
  collisions and no cycles, every message (a block, a batch, a fork that forces a reorganisation,
  garbage) is handled to the end, and the chain, the mempool, the listings and the allowlists are
  well formed afterwards. The one exception is a snapshot that arrives in aggregate mode.\<close>

theorem peer_message_safe:
  assumes "header_universe cr rank H" and "node_ok cr wi H nd" and "message_headers msg \<subseteq> H"
    and "\<not> (cn_aggregate_mode cn \<and> is_snapshot msg)"
  shows "\<exists>nd' cn' effs. handle_message cr en wi io msg nd cn = Some (Ret (nd', cn', effs)) \<and> node_ok cr wi H nd'"
  using assms by (rule handle_message_safe)

definition w_node :: "(wpoint, u64) p2p_server" where
  "w_node = \<lparr>nd_router = Mapping.empty, nd_mempool = mempool_new, nd_chain = chain_new, nd_marketplace = Mapping.empty,
     nd_allowlist = Mapping.empty, nd_peer_manager = peer_manager_new, nd_own_listen_addr = ''here''\<rparr>"

lemma w_universe: "header_universe w_crypto (\<lambda>h. if h = zero_hash then 0 else 1) {b_header w_genesis}"
proof -
  have "bh_prev_hash (b_header w_genesis) = zero_hash" by (simp add: w_genesis_def w_block_def chain_new_def Let_def)
  then show ?thesis using w_header_hash_neq [of 0] by (simp add: header_universe_def)
qed

lemma w_node_ok: "node_ok w_crypto w_wire {b_header w_genesis} w_node"
  using chain_new_ok [of w_crypto]
  by (simp add: node_ok_def w_node_def headers_in_def chain_new_def listings_ok_def allowlists_ok_def
      lookup_empty mempool_ok_def mempool_new_def queue_ok_def keyed_ok_def)

theorem peer_message_safe_witness:
  "\<exists>nd' cn' effs. handle_message w_crypto w_env w_wire (w_io True) (BlocksBatch [w_genesis] False) w_node connection_new =
     Some (Ret (nd', cn', effs)) \<and> node_ok w_crypto w_wire {b_header w_genesis} nd'"
  by (rule peer_message_safe [OF w_universe w_node_ok]) (simp_all add: connection_new_def)

text \<open>C37. A peer can replace the whole unspent set of any node: one block that links to the tip but is invalid
  switches the connection to aggregate mode, and a snapshot with a single commitment, chosen so that
  the sum comes out right, is then adopted together with whatever height and tip hash it names.
  Nothing ties the snapshot to the blocks received.\<close>

theorem snapshot_takeover:
  assumes "list_all (\<lambda>k. verify cr (kernel_sig k) (u64_le (fee k)) (excess k)) (cs_kernels (nd_chain nd))"
    and "bh_prev_hash (b_header b) = cs_last_block_hash (nd_chain nd)" and "bh_chain_id (b_header b) = CHAIN_ID"
    and "\<not> block_validate cr b" and "tx_kernels (b_body b) = []" and "b_name_ops b = []" and "b_mint_ops b = []"
  shows "\<exists>cn c. handle_message cr en wi io (BlocksBatch [b] False) nd connection_new =
      Some (Ret (nd, cn, [Reply GetUtxoSnapshot])) \<and>
    handle_message cr en wi io (UtxoSnapshot [c] height tip_hash) nd cn =
      Some (Ret (nd\<lparr>nd_chain := (nd_chain nd)\<lparr>cs_utxos := {c}, cs_current_height := height,
        cs_last_block_hash := tip_hash\<rparr>\<rparr>, connection_new, []))"
proof -
  let ?st = "nd_chain nd"
  let ?fees = "total_registry_fees_burned (cs_blocks ?st)"
  define c where "c = Commitment (as_point (commitment_new cr (saturating_sub (total_reward_issued height) ?fees) 0) -
    sum_points (map excess (cs_kernels ?st)))"
  define cn where "cn = aggregate_block cr b (connection_new\<lparr>cn_aggregate_mode := True, cn_aggregate_kernels := cs_kernels ?st,
    cn_aggregate_registry_fees := ?fees\<rparr>)"
  have "apply_block cr en b ?st = Some (Ret (?st, Rejected))" using assms(4) by (simp add: apply_block_def)
  then have "handle_message cr en wi io (BlocksBatch [b] False) nd connection_new =
      Some (Ret (nd, cn, [Reply GetUtxoSnapshot]))"
    using assms(2,3) by (simp add: handle_blocks_batch_def connection_new_def cn_def aggregate_block_def Let_def split_beta)
  moreover have "aggregate_validate cr {c} (cn_aggregate_kernels cn) height (cn_aggregate_registry_fees cn)"
    using assms(1,5-7) by (simp add: aggregate_validate_def cn_def aggregate_block_def extend_aggregate_def c_def)
  moreover have "cn_aggregate_mode cn" by (simp add: cn_def aggregate_block_def Let_def split_beta)
  ultimately have "handle_message cr en wi io (BlocksBatch [b] False) nd connection_new = Some (Ret (nd, cn, [Reply GetUtxoSnapshot]))"
    "handle_utxo_snapshot cr [c] height tip_hash nd cn = (nd\<lparr>nd_chain := (nd_chain nd)\<lparr>cs_utxos := {c},
       cs_current_height := height, cs_last_block_hash := tip_hash\<rparr>\<rparr>, connection_new)"
    by (simp_all add: handle_utxo_snapshot_def Let_def)
  then show ?thesis by (intro exI [of _ cn] exI [of _ c]) simp
qed

definition w_bad_block :: "(wpoint, u64) block" where
  "w_bad_block = (let b = w_block chain_new (w_tx [] [] 0 0) [] [] in b\<lparr>b_body := (b_body b)\<lparr>tx_kernels := []\<rparr>\<rparr>)"

theorem snapshot_takeover_witness:
  "\<exists>cn c. handle_message w_crypto w_env w_wire (w_io True) (BlocksBatch [w_bad_block] False) w_node connection_new =
      Some (Ret (w_node, cn, [Reply GetUtxoSnapshot])) \<and>
    handle_message w_crypto w_env w_wire (w_io True) (UtxoSnapshot [c] 1000 (replicate 32 9)) w_node cn =
      Some (Ret (w_node\<lparr>nd_chain := (nd_chain w_node)\<lparr>cs_utxos := {c}, cs_current_height := 1000,
        cs_last_block_hash := replicate 32 9\<rparr>\<rparr>, connection_new, []))"
  by (rule snapshot_takeover)
    (simp_all add: w_node_def chain_new_def w_bad_block_def w_block_def w_tx_def block_validate_def validate_with_reward_def
      w_block_eval)

lemma discover_all:
  assumes "connection_count pm < MAX_PEERS" and "own \<notin> set addrs" and "set addrs \<inter> pm_peers pm = {}"
  shows "\<exists>pm'. fold (discover_peer own) addrs (pm, effs) = (pm', effs @ map Dial addrs)"
  using assms
proof (induction addrs arbitrary: pm effs)
  case (Cons a addrs)
  from Cons.prems have "discover_peer own a (pm, effs) = (add_known_peer a pm, effs @ [Dial a])"
    by (auto simp: discover_peer_def is_connected_def add_known_peer_def connection_count_def Let_def)
  moreover have "connection_count (add_known_peer a pm) < MAX_PEERS" "set addrs \<inter> pm_peers (add_known_peer a pm) = {}"
    using Cons.prems by (auto simp: add_known_peer_def connection_count_def)
  ultimately show ?case using Cons.IH [of "add_known_peer a pm" "effs @ [Dial a]"] Cons.prems(2)
    by simp
qed simp

text \<open>The connection cap does not bound the peers dialled for one \<open>PeersList\<close>: while the node is below the cap,
  every new address of the list is dialled, however long it is, because a dialled peer is only counted
  once its own task has connected. (The comment on \<open>MAX_PEERS\<close> says it
  bounds automatic discovery, so that a node does not dial every address it hears about.)\<close>

theorem peers_list_dials_all:
  assumes "connection_count (nd_peer_manager nd) < MAX_PEERS" and "nd_own_listen_addr nd \<notin> set addrs"
    and "set addrs \<inter> pm_peers (nd_peer_manager nd) = {}"
  shows "\<exists>nd'. handle_message cr en wi io (PeersList addrs) nd cn = Some (Ret (nd', cn, map Dial addrs))"
proof -
  obtain pm' where "fold (discover_peer (nd_own_listen_addr nd)) addrs (nd_peer_manager nd, []) =
      (pm', map Dial addrs :: ('a, 'b) effect list)"
    using discover_all [OF assms, of "[] :: ('a, 'b) effect list"] by auto
  then show ?thesis by (intro exI [of _ "nd\<lparr>nd_peer_manager := pm'\<rparr>"]) simp
qed

theorem peers_list_dials_all_witness:
  "\<exists>nd'. handle_message w_crypto w_env w_wire (w_io True) (PeersList (map (\<lambda>n. ''h'' @ replicate n CHR ''a'') [0..<1000])) w_node
     connection_new = Some (Ret (nd', connection_new, map Dial (map (\<lambda>n. ''h'' @ replicate n CHR ''a'') [0..<1000])))"
  by (rule peers_list_dials_all)
    (auto simp: w_node_def peer_manager_new_def connection_count_def MAX_PEERS_def Cons_replicate_eq)

end
