(* ===== verification/Server.thy ===== *)
theory Server
  imports Peer
begin

text \<open>
  The transport (\<open>p2p/src/transport.rs\<close>) and the server as a whole (\<open>p2p/src/server.rs\<close>): framing of
  messages on a TCP stream and on WebSocket frames, and a step relation in which connections are
  opened and closed, messages of different peers interleave, stem timers fire and local
  transactions are propagated.
\<close>

section \<open>Transport\<close>

definition MAX_MESSAGE_SIZE :: nat where "MAX_MESSAGE_SIZE = 32 * 1024 * 1024"

text \<open>Bincode is a pair of parameters, \<open>ser\<close> and \<open>de\<close>; the length prefix is the length cast to \<open>u32\<close>.\<close>

definition write_tcp :: "('m \<Rightarrow> byte list option) \<Rightarrow> 'm \<Rightarrow> byte list option" where
  "write_tcp ser msg = ser msg \<bind> (\<lambda>bytes. Some (u32_le (of_nat (length bytes)) @ bytes))"

text \<open>One message and the rest of the stream; \<open>None\<close> ends the connection.\<close>

definition read_tcp :: "(byte list \<Rightarrow> 'm option) \<Rightarrow> byte list \<Rightarrow> ('m \<times> byte list) option" where
  "read_tcp de stream =
     (if length stream < 4 then None
      else let len = unat (from_le_bytes (take 4 stream) :: u32); rest = drop 4 stream in
        if MAX_MESSAGE_SIZE < len then None
        else if length rest < len then None
        else de (take len rest) \<bind> (\<lambda>msg. Some (msg, drop len rest)))"

datatype ws_frame = Binary "byte list" | Close | Control | Broken

fun read_ws :: "(byte list \<Rightarrow> 'm option) \<Rightarrow> ws_frame list \<Rightarrow> ('m \<times> ws_frame list) option" where
  "read_ws de [] = None"
| "read_ws de (Binary bytes # frames) = de bytes \<bind> (\<lambda>msg. Some (msg, frames))"
| "read_ws de (Close # frames) = None"
| "read_ws de (Control # frames) = read_ws de frames"
| "read_ws de (Broken # frames) = None"

definition write_ws :: "('m \<Rightarrow> byte list option) \<Rightarrow> 'm \<Rightarrow> ws_frame option" where
  "write_ws ser msg = map_option Binary (ser msg)"

text \<open>The messages a receive loop sees before it ends.\<close>

lemma read_tcp_shrinks: "read_tcp de stream = Some (msg, rest) \<Longrightarrow> length rest < length stream"
  by (auto simp: read_tcp_def Let_def split: if_splits bind_splits)

function received_tcp :: "(byte list \<Rightarrow> 'm option) \<Rightarrow> byte list \<Rightarrow> 'm list" where
  "received_tcp de stream =
     (case read_tcp de stream of None \<Rightarrow> [] | Some (msg, rest) \<Rightarrow> msg # received_tcp de rest)"
  by pat_completeness auto

termination
  by (relation "measure (\<lambda>(de, stream). length stream)") (auto dest: read_tcp_shrinks)

lemma read_ws_shrinks: "read_ws de frames = Some (msg, rest) \<Longrightarrow> length rest < length frames"
  by (induction de frames rule: read_ws.induct) (auto split: bind_splits)

function received_ws :: "(byte list \<Rightarrow> 'm option) \<Rightarrow> ws_frame list \<Rightarrow> 'm list" where
  "received_ws de frames =
     (case read_ws de frames of None \<Rightarrow> [] | Some (msg, rest) \<Rightarrow> msg # received_ws de rest)"
  by pat_completeness auto

termination
  by (relation "measure (\<lambda>(de, frames). length frames)") (auto dest: read_ws_shrinks)

declare received_tcp.simps [simp del] received_ws.simps [simp del]

text \<open>A message bincode carries over, and whose encoding is within the size limit.\<close>

definition sendable :: "('m \<Rightarrow> byte list option) \<Rightarrow> (byte list \<Rightarrow> 'm option) \<Rightarrow> 'm \<Rightarrow> bool" where
  "sendable ser de msg =
     (case ser msg of None \<Rightarrow> False | Some bytes \<Rightarrow> length bytes \<le> MAX_MESSAGE_SIZE \<and> de bytes = Some msg)"

lemma sendableE:
  assumes "sendable ser de msg"
  obtains bytes where "ser msg = Some bytes" "length bytes \<le> MAX_MESSAGE_SIZE" "de bytes = Some msg"
  using assms by (auto simp: sendable_def split: option.splits)

lemma unat_prefix:
  "length bytes < 2 ^ 32 \<Longrightarrow> unat (from_le_bytes (u32_le (of_nat (length bytes)) :: byte list) :: u32) = length bytes"
  by (simp add: from_le_bytes_le_bytes unat_of_nat)

lemma read_written_tcp:
  assumes "sendable ser de msg"
  shows "\<exists>bytes. write_tcp ser msg = Some bytes \<and> read_tcp de (bytes @ rest) = Some (msg, rest)"
proof -
  obtain bytes where b: "ser msg = Some bytes" "length bytes \<le> MAX_MESSAGE_SIZE" "de bytes = Some msg"
    using assms by (rule sendableE)
  then have "unat (from_le_bytes (u32_le (of_nat (length bytes)) :: byte list) :: u32) = length bytes"
    by (intro unat_prefix) (simp add: MAX_MESSAGE_SIZE_def)
  with b show ?thesis by (simp add: write_tcp_def read_tcp_def)
qed

text \<open>A batch too large for one message ends the connection at the receiver.\<close>

lemma oversized_message_disconnects:
  assumes "ser msg = Some bytes" and "MAX_MESSAGE_SIZE < length bytes" and "length bytes < 2 ^ 32"
  shows "\<exists>out. write_tcp ser msg = Some out \<and> received_tcp de (out @ rest) = []"
  using assms(2) unat_prefix [OF assms(3)] assms(1)
  by (simp add: write_tcp_def received_tcp.simps [of de] read_tcp_def)

lemma read_ws_skip:
  assumes "filter (\<lambda>f. f \<noteq> Control) frames = Binary bytes # fs"
  shows "\<exists>rest. read_ws de frames = de bytes \<bind> (\<lambda>msg. Some (msg, rest)) \<and> filter (\<lambda>f. f \<noteq> Control) rest = fs"
  using assms by (induction de frames rule: read_ws.induct) auto

lemma received_ws_roundtrip:
  assumes "those (map (write_ws ser) msgs) = Some (filter (\<lambda>f. f \<noteq> Control) frames)" and "list_all (sendable ser de) msgs"
  shows "received_ws de frames = msgs"
  using assms
proof (induction msgs arbitrary: frames)
  case Nil
  then have "filter (\<lambda>f. f \<noteq> Control) frames = []" by simp
  then have "\<forall>f \<in> set frames. f = Control" by (simp add: filter_empty_conv)
  then have "read_ws de frames = None" by (induction frames) auto
  then show ?case by (simp add: received_ws.simps)
next
  case (Cons msg msgs)
  obtain bytes where b: "ser msg = Some bytes" "de bytes = Some msg"
    using Cons.prems(2) by (auto elim: sendableE)
  then have "write_ws ser msg = Some (Binary bytes)" by (simp add: write_ws_def)
  with Cons.prems(1) obtain fs where fs: "those (map (write_ws ser) msgs) = Some fs"
      "filter (\<lambda>f. f \<noteq> Control) frames = Binary bytes # fs"
    by (auto simp: eq_commute [of "Binary bytes # _"])
  obtain rest where "read_ws de frames = Some (msg, rest)" "filter (\<lambda>f. f \<noteq> Control) rest = fs"
    using read_ws_skip [OF fs(2), of de] b(2) by auto
  with Cons.IH [of rest] fs(1) Cons.prems(2) show ?case by (simp add: received_ws.simps)
qed

text \<open>What one node writes, the other reads: a sequence of messages within the size limit arrives complete, in
  order and unchanged, over a TCP stream by its length prefixes and over WebSocket frames however many
  control frames are in between.\<close>

theorem transport_roundtrip:
  assumes "list_all (sendable ser de) msgs"
  shows "(\<exists>chunks. those (map (write_tcp ser) msgs) = Some chunks \<and> received_tcp de (concat chunks) = msgs) \<and>
    (those (map (write_ws ser) msgs) = Some (filter (\<lambda>f. f \<noteq> Control) frames) \<longrightarrow> received_ws de frames = msgs)"
proof
  show "\<exists>chunks. those (map (write_tcp ser) msgs) = Some chunks \<and> received_tcp de (concat chunks) = msgs"
    using assms
  proof (induction msgs)
    case Nil
    then show ?case by (simp add: received_tcp.simps read_tcp_def)
  next
    case (Cons msg msgs)
    then obtain chunks where c: "those (map (write_tcp ser) msgs) = Some chunks" "received_tcp de (concat chunks) = msgs"
      by auto
    obtain bytes where "write_tcp ser msg = Some bytes" "read_tcp de (bytes @ concat chunks) = Some (msg, concat chunks)"
      using read_written_tcp [of ser de msg "concat chunks"] Cons.prems by auto
    with c show ?case by (simp add: received_tcp.simps [of de "bytes @ concat chunks"])
  qed
qed (use received_ws_roundtrip [OF _ assms] in blast)

definition w_ser :: "(wpoint, u64) p2p_message \<Rightarrow> byte list option" where
  "w_ser msg = (case msg of Ping \<Rightarrow> Some [1, 0, 0, 0] | Pong \<Rightarrow> Some [2, 0, 0, 0] | _ \<Rightarrow> None)"

definition w_de :: "byte list \<Rightarrow> (wpoint, u64) p2p_message option" where
  "w_de bytes = (if bytes = [1, 0, 0, 0] then Some Ping else if bytes = [2, 0, 0, 0] then Some Pong else None)"

theorem transport_roundtrip_witness:
  "(\<exists>chunks. those (map (write_tcp w_ser) [Ping, Pong]) = Some chunks \<and>
      received_tcp w_de (concat chunks) = [Ping, Pong]) \<and>
   received_ws w_de [Control, Binary [1, 0, 0, 0], Control, Binary [2, 0, 0, 0]] = [Ping, Pong]"
proof -
  have "list_all (sendable w_ser w_de) [Ping, Pong]" by (simp add: sendable_def w_ser_def w_de_def MAX_MESSAGE_SIZE_def)
  from transport_roundtrip [OF this, of "[Control, Binary [1, 0, 0, 0], Control, Binary [2, 0, 0, 0]]"]
  show ?thesis by (simp add: write_ws_def w_ser_def)
qed


section \<open>The server\<close>

text \<open>The node and its open connections: for each the peer's address, the loop's variables and its message log.\<close>

record ('p, 's) server =
  sv_node :: "('p, 's) p2p_server"
  sv_sessions :: "(nat, string \<times> ('p, 's) connection \<times> instant list) mapping"

text \<open>Once a peer was dialled; a failed handshake leaves it known but not connected.\<close>

definition connect_to_peer ::
    "string \<Rightarrow> bool \<Rightarrow> ('p, 's) p2p_server \<Rightarrow> bool \<times> ('p, 's) p2p_server \<times> ('p, 's) effect list" where
  "connect_to_peer peer_addr handshake_sent nd =
     (let pm = add_known_peer peer_addr (nd_peer_manager nd); st = nd_chain nd in
      if \<not> handshake_sent then (False, nd\<lparr>nd_peer_manager := pm\<rparr>, [])
      else (True, nd\<lparr>nd_peer_manager := add_peer peer_addr pm\<rparr>,
        [SendTo peer_addr (Handshake (nd_own_listen_addr nd)),
         SendTo peer_addr (ChainInfo (cs_current_height st) (cs_last_block_hash st)), SendTo peer_addr GetPeers]))"

definition propagate_new_transaction ::
    "('p::ab_group_add, 's::comm_ring_1) crypto \<Rightarrow> ('p, 's) wire \<Rightarrow> 'p io \<Rightarrow> ('p, 's) transaction \<Rightarrow> bool \<Rightarrow>
       ('p, 's) p2p_server \<Rightarrow> ('p, 's) p2p_server \<times> ('p, 's) effect list" where
  "propagate_new_transaction cr wi io tx already_in_mempool nd =
     (let (mp, seen, effs) = dispatch_dandelion_tx cr wi io tx already_in_mempool (nd_peer_manager nd) (nd_mempool nd) (nd_router nd)
      in (nd\<lparr>nd_mempool := mp, nd_router := seen\<rparr>, effs))"

definition close_connection :: "string \<Rightarrow> ('p, 's) p2p_server \<Rightarrow> ('p, 's) p2p_server" where
  "close_connection peer_addr nd = nd\<lparr>nd_peer_manager := remove_peer peer_addr (nd_peer_manager nd)\<rparr>"

text \<open>The steps of the server. Messages of the open connections arrive in any order; \<open>H\<close> is the universe their
  headers come from.\<close>

inductive server_step ::
    "('p::ab_group_add, 's::comm_ring_1) crypto \<Rightarrow> ('p, 's) env \<Rightarrow> ('p, 's) wire \<Rightarrow> ('p, 's) block_header set \<Rightarrow>
       ('p, 's) server \<Rightarrow> ('p, 's) server \<Rightarrow> bool"
  for cr en wi H where
  accept: "accept_inbound addr (nd_peer_manager nd) = (True, pm) \<Longrightarrow> Mapping.lookup ss i = None \<Longrightarrow>
    server_step cr en wi H \<lparr>sv_node = nd, sv_sessions = ss\<rparr>
      \<lparr>sv_node = nd\<lparr>nd_peer_manager := pm\<rparr>, sv_sessions = Mapping.update i (addr, connection_new, []) ss\<rparr>"
| dialled: "connect_to_peer addr True nd = (True, nd', effs) \<Longrightarrow> Mapping.lookup ss i = None \<Longrightarrow>
    server_step cr en wi H \<lparr>sv_node = nd, sv_sessions = ss\<rparr>
      \<lparr>sv_node = nd', sv_sessions = Mapping.update i (addr, connection_new, []) ss\<rparr>"
| dial_failed: "connect_to_peer addr False nd = (False, nd', effs) \<Longrightarrow>
    server_step cr en wi H \<lparr>sv_node = nd, sv_sessions = ss\<rparr> \<lparr>sv_node = nd', sv_sessions = ss\<rparr>"
| deliver: "Mapping.lookup ss i = Some (addr, cn, ts) \<Longrightarrow> message_budget now ts = (True, ts') \<Longrightarrow>
    message_headers msg \<subseteq> H \<Longrightarrow> \<not> (cn_aggregate_mode cn \<and> is_snapshot msg) \<Longrightarrow>
    handle_message cr en wi io msg nd cn = Some (Ret (nd', cn', effs)) \<Longrightarrow>
    server_step cr en wi H \<lparr>sv_node = nd, sv_sessions = ss\<rparr>
      \<lparr>sv_node = nd', sv_sessions = Mapping.update i (addr, cn', ts') ss\<rparr>"
| flood: "Mapping.lookup ss i = Some (addr, cn, ts) \<Longrightarrow> message_budget now ts = (False, ts') \<Longrightarrow>
    server_step cr en wi H \<lparr>sv_node = nd, sv_sessions = ss\<rparr>
      \<lparr>sv_node = close_connection addr nd, sv_sessions = Mapping.delete i ss\<rparr>"
| closed: "Mapping.lookup ss i = Some (addr, cn, ts) \<Longrightarrow>
    server_step cr en wi H \<lparr>sv_node = nd, sv_sessions = ss\<rparr>
      \<lparr>sv_node = close_connection addr nd, sv_sessions = Mapping.delete i ss\<rparr>"
| timer: "fire_timer (compute_tx_id cr wi tx) tx (nd_router nd) = (seen, effs) \<Longrightarrow>
    server_step cr en wi H \<lparr>sv_node = nd, sv_sessions = ss\<rparr> \<lparr>sv_node = nd\<lparr>nd_router := seen\<rparr>, sv_sessions = ss\<rparr>"
| submitted: "add_transaction cr (wi_size wi) tx (nd_mempool nd) = (True, mp) \<Longrightarrow>
    propagate_new_transaction cr wi io tx True (nd\<lparr>nd_mempool := mp\<rparr>) = (nd', effs) \<Longrightarrow>
    server_step cr en wi H \<lparr>sv_node = nd, sv_sessions = ss\<rparr> \<lparr>sv_node = nd', sv_sessions = ss\<rparr>"

inductive_cases server_stepE: "server_step cr en wi H sv sv'"

text \<open>The invariant: the node is well formed, the router's map is bounded, and no connection has more messages in
  its log than the budget allows.\<close>

definition stems_ok :: "seen_stems \<Rightarrow> bool" where
  "stems_ok seen \<longleftrightarrow> finite (Mapping.keys seen) \<and> Mapping.size seen \<le> MAX_SEEN_STEMS"

definition server_ok ::
    "('p::ab_group_add, 's::comm_ring_1) crypto \<Rightarrow> ('p, 's) wire \<Rightarrow> ('p, 's) block_header set \<Rightarrow> ('p, 's) server \<Rightarrow> bool" where
  "server_ok cr wi H sv \<longleftrightarrow> node_ok cr wi H (sv_node sv) \<and> stems_ok (nd_router (sv_node sv)) \<and>
     (\<forall>i addr cn ts. Mapping.lookup (sv_sessions sv) i = Some (addr, cn, ts) \<longrightarrow> length ts \<le> MAX_MESSAGES_PER_WINDOW)"

lemma stems_ok_update:
  "stems_ok seen \<Longrightarrow> contains_key seen k \<or> Mapping.size seen < MAX_SEEN_STEMS \<Longrightarrow> stems_ok (Mapping.update k v seen)"
  by (auto simp: stems_ok_def size_update contains_key_keys)

lemma stems_ok_router [intro]:
  assumes "stems_ok seen"
  shows "stems_ok (snd (register_stem_tx k seen))" "stems_ok (mark_fluffed k seen)" "stems_ok (snd (stem_timeout k seen))"
  using assms
  by (auto simp: register_stem_tx_def mark_fluffed_def stem_timeout_def contains_key_def not_le
      intro!: stems_ok_update split: option.splits)

lemma fire_timer_stems: "stems_ok seen \<Longrightarrow> stems_ok (fst (fire_timer k tx seen))"
  by (auto simp: fire_timer_def split_beta)

lemma dispatch_stems:
  "stems_ok seen \<Longrightarrow> stems_ok (fst (snd (dispatch_dandelion_tx cr wi io tx local pm mp seen)))"
  by (auto simp: dispatch_dandelion_tx_def Let_def split_beta split: tx_state.splits)

lemma receive_fluff_stems: "stems_ok seen \<Longrightarrow> stems_ok (fst (snd (receive_fluff cr wi tx mp seen)))"
  by (auto simp: receive_fluff_def Let_def split_beta)

lemma after_block_router: "nd_router (after_block b nd) = nd_router nd"
  by (simp add: after_block_def)

lemma sync_blocks_router:
  "sync_blocks cr en bs nd cn n = Some (Ret (nd', cn', n', effs)) \<Longrightarrow> nd_router nd' = nd_router nd"
  by (induction bs arbitrary: nd cn n effs)
    (auto simp: bind_run_def Let_def after_block_router split: if_splits option.splits outcome.splits prod.splits)

lemma handle_message_stems:
  assumes "handle_message cr en wi io msg nd cn = Some (Ret (nd', cn', effs))" and "stems_ok (nd_router nd)"
  shows "stems_ok (nd_router nd')"
  using assms dispatch_stems [OF assms(2)] receive_fluff_stems [OF assms(2)]
  by (cases msg)
    (auto simp: queue_op_def receive_block_def handle_blocks_batch_def handle_utxo_snapshot_def bind_run_def Let_def split_beta
      after_block_router dest!: sync_blocks_router split: if_splits option.splits outcome.splits)

lemma server_step_ok:
  assumes "server_step cr en wi H sv sv'" and U: "header_universe cr rank H" and "server_ok cr wi H sv"
  shows "server_ok cr wi H sv'"
  using assms(1,3)
proof (cases rule: server_step.cases)
  case (deliver ss i addr cn ts now ts' msg io nd nd' cn' effs)
  from assms(3) deliver(1) have ok: "node_ok cr wi H nd" "stems_ok (nd_router nd)"
    by (simp_all add: server_ok_def)
  have "node_ok cr wi H nd'" using handle_message_safe [OF U ok(1) deliver(5,6), of en io] deliver(7) by simp
  moreover have "stems_ok (nd_router nd')" by (rule handle_message_stems [OF deliver(7) ok(2)])
  moreover have "length ts' \<le> MAX_MESSAGES_PER_WINDOW" using deliver(4) by (auto simp: message_budget_def Let_def)
  ultimately show ?thesis using assms(3) deliver(1,2) by (auto simp: server_ok_def map_simps)
next
  case (timer tx nd seen effs ss)
  have "stems_ok (nd_router nd) \<Longrightarrow> stems_ok seen" using fire_timer_stems [of "nd_router nd"] timer(3) by (metis fst_conv)
  with assms(3) timer(1,2) show ?thesis by (auto simp: server_ok_def node_ok_def)
next
  case (submitted tx nd mp io nd' effs ss)
  obtain mp' seen' where d: "dispatch_dandelion_tx cr wi io tx True (nd_peer_manager nd) mp (nd_router nd) = (mp', seen', effs)"
      and nd': "nd' = nd\<lparr>nd_mempool := mp', nd_router := seen'\<rparr>"
    using submitted(4) by (auto simp: propagate_new_transaction_def split: prod.splits)
  from assms(3) submitted(1) have ok: "node_ok cr wi H nd" "stems_ok (nd_router nd)" by (simp_all add: server_ok_def)
  have "mempool_ok cr (wi_size wi) (wi_phases wi) mp'"
    using dispatch_keeps_ok [OF d add_keeps_ok(1) [OF node_okD(3) [OF ok(1)] submitted(3)]] .
  moreover have "stems_ok seen'" using dispatch_stems [OF ok(2), of cr wi io tx True "nd_peer_manager nd" mp] d by simp
  ultimately show ?thesis using assms(3) submitted(1,2) nd' by (auto simp: server_ok_def node_ok_def)
qed (auto simp: server_ok_def node_ok_def connect_to_peer_def close_connection_def map_simps Let_def split: if_splits)



end
