(* ===== verification/Api.thy ===== *)
theory Api
  imports Server Http "HOL-Library.Product_Lexorder"
begin

text \<open>
  The HTTP handlers of \<open>api/src\<close> that submit to the node and that read its registries
  (\<open>handle_submit_transaction\<close> and \<open>handle_register_validator\<close> of \<open>server.rs\<close>, \<open>names.rs\<close>,
  \<open>assets.rs\<close>, \<open>collections.rs\<close>, \<open>marketplace.rs\<close>, \<open>allowlist.rs\<close>). A handler takes the node's shared
  state and returns it with the messages it sends and its reply; the broadcast a handler spawns
  is among its effects. The lemmas show that an accepted request does what the same operation
  received from a peer does, that a refused one does nothing, and that the listings of the
  registries do not depend on the iteration order of the hash maps.
\<close>

section \<open>Submissions\<close>

type_synonym ('p, 's) answered = "('p, 's) p2p_server \<times> ('p, 's) effect list \<times> unit reply"

record ('p, 's) stake_request =
  sr_commitment :: "'p commitment"
  sr_value :: u64
  sr_proof :: "'s signature"

record ('p, 's) cancel_listing_request =
  cr_asset_id :: string
  cr_seller_pubkey :: "'p commitment"
  cr_signature :: "'s signature"

definition refuse :: "status_code \<Rightarrow> ('p, 's) p2p_server \<Rightarrow> ('p, 's) answered" where
  "refuse status nd = (nd, [], error_reply status)"

definition handle_submit_transaction ::
    "('p::ab_group_add, 's::comm_ring_1) crypto \<Rightarrow> ('p, 's) wire \<Rightarrow> 'p io \<Rightarrow> ('p, 's) transaction \<Rightarrow>
       ('p, 's) p2p_server \<Rightarrow> ('p, 's) answered" where
  "handle_submit_transaction cr wi io tx nd =
     (if \<not> validate cr tx then refuse BAD_REQUEST nd
      else let (added, mp) = add_transaction cr (wi_size wi) tx (nd_mempool nd);
               nd = nd\<lparr>nd_mempool := mp\<rparr>
           in if added then let (nd, effs) = propagate_new_transaction cr wi io tx True nd in (nd, effs, Json ())
              else refuse BAD_REQUEST nd)"

definition handle_register_validator ::
    "('p::ab_group_add, 's::comm_ring_1) crypto \<Rightarrow> ('p, 's) stake_request \<Rightarrow> ('p, 's) p2p_server \<Rightarrow> ('p, 's) answered" where
  "handle_register_validator cr req nd =
     (let op = \<lparr>rv_commitment = sr_commitment req, rv_value = sr_value req, rv_proof = sr_proof req\<rparr>;
          (queued, mp) = add_validator_op cr op (nd_mempool nd);
          nd = nd\<lparr>nd_mempool := mp\<rparr>
      in if queued then (nd, [Broadcast (NewValidatorOp op)], Json ()) else refuse BAD_REQUEST nd)"

definition handle_register_name ::
    "('p::ab_group_add, 's::comm_ring_1) crypto \<Rightarrow> ('p, 's) register_name_op \<Rightarrow> ('p, 's) p2p_server \<Rightarrow> ('p, 's) answered" where
  "handle_register_name cr op nd =
     (if register_name_validate_standalone cr op \<noteq> Inr () then refuse BAD_REQUEST nd
      else if contains_key (cs_name_registry (nd_chain nd)) (rn_name op) then refuse CONFLICT nd
      else let (added, mp) = add_name_op cr op (nd_mempool nd);
               nd = nd\<lparr>nd_mempool := mp\<rparr>
           in if \<not> added then refuse BAD_REQUEST nd else (nd, [Broadcast (NewNameOp op)], Json ()))"

definition handle_transfer_name ::
    "('p::ab_group_add, 's::comm_ring_1) crypto \<Rightarrow> ('p, 's) transfer_name_op \<Rightarrow> ('p, 's) p2p_server \<Rightarrow> ('p, 's) answered" where
  "handle_transfer_name cr op nd =
     (case Mapping.lookup (cs_name_registry (nd_chain nd)) (tn_name op) of
        None \<Rightarrow> refuse NOT_FOUND nd
      | Some current \<Rightarrow>
          if \<not> verify cr (tn_signature op)
               (transfer_name_message cr (tn_name op) (tn_new_owner_pubkey op) (tn_new_resolves_to op))
               (nr_owner_pubkey current)
          then refuse FORBIDDEN nd
          else let (added, mp) = add_transfer_op op (nd_mempool nd);
                   nd = nd\<lparr>nd_mempool := mp\<rparr>
               in if \<not> added then refuse BAD_REQUEST nd else (nd, [Broadcast (NewTransferOp op)], Json ()))"

definition handle_mint_asset ::
    "('p::ab_group_add, 's::comm_ring_1) crypto \<Rightarrow> ('p, 's) mint_asset_op \<Rightarrow> ('p, 's) p2p_server \<Rightarrow> ('p, 's) answered" where
  "handle_mint_asset cr op nd =
     (if mint_asset_validate_standalone cr op \<noteq> Inr () then refuse BAD_REQUEST nd
      else if contains_key (cs_asset_registry (nd_chain nd)) (ma_asset_id op) then refuse CONFLICT nd
      else let (added, mp) = add_mint_op cr op (nd_mempool nd);
               nd = nd\<lparr>nd_mempool := mp\<rparr>
           in if \<not> added then refuse BAD_REQUEST nd else (nd, [Broadcast (NewMintOp op)], Json ()))"

text \<open>The early checks of an asset transfer against the payments on the chain: the status of the refusal, if any.\<close>

definition payment_missing ::
    "('p, 's) chain_state \<Rightarrow> ('p, 's) transfer_asset_op \<Rightarrow> status_code option" where
  "payment_missing st op =
     (case ta_required_kernel_excess op of
        None \<Rightarrow> None
      | Some required \<Rightarrow> if required \<in> cs_kernel_excesses st then None else Some CONFLICT)"

definition royalty_missing ::
    "('p, 's) chain_state \<Rightarrow> 'p asset_record \<Rightarrow> ('p, 's) transfer_asset_op \<Rightarrow> status_code option" where
  "royalty_missing st current op =
     (if ta_required_kernel_excess op = None then None
      else case ar_collection_id current of
        None \<Rightarrow> None
      | Some collection_id \<Rightarrow>
          (case Mapping.lookup (cs_collection_registry st) collection_id of
             None \<Rightarrow> None
           | Some collection \<Rightarrow>
               if 0 < cl_royalty_bps collection
               then (case ta_required_royalty_kernel_excess op of
                       None \<Rightarrow> Some BAD_REQUEST
                     | Some required_royalty \<Rightarrow>
                         if required_royalty \<notin> cs_kernel_excesses st then Some CONFLICT else None)
               else None))"

definition handle_transfer_asset ::
    "('p::ab_group_add, 's::comm_ring_1) crypto \<Rightarrow> ('p, 's) transfer_asset_op \<Rightarrow> ('p, 's) p2p_server \<Rightarrow> ('p, 's) answered" where
  "handle_transfer_asset cr op nd =
     (case Mapping.lookup (cs_asset_registry (nd_chain nd)) (ta_asset_id op) of
        None \<Rightarrow> refuse NOT_FOUND nd
      | Some current \<Rightarrow>
          if \<not> verify cr (ta_signature op)
               (transfer_asset_message cr (ta_asset_id op) (ta_new_owner_pubkey op) (ta_required_kernel_excess op)
                  (ta_required_royalty_kernel_excess op)) (ar_owner_pubkey current)
          then refuse FORBIDDEN nd
          else case payment_missing (nd_chain nd) op of
            Some status \<Rightarrow> refuse status nd
          | None \<Rightarrow>
              (case royalty_missing (nd_chain nd) current op of
                 Some status \<Rightarrow> refuse status nd
               | None \<Rightarrow>
                   let (added, mp) = add_transfer_asset_op op (nd_mempool nd);
                       nd = nd\<lparr>nd_mempool := mp\<rparr>
                   in if \<not> added then refuse BAD_REQUEST nd else (nd, [Broadcast (NewTransferAssetOp op)], Json ())))"

definition handle_launch_collection ::
    "('p::ab_group_add, 's::comm_ring_1) crypto \<Rightarrow> ('p, 's) wire \<Rightarrow> ('p, 's) launch_collection_op \<Rightarrow> ('p, 's) p2p_server \<Rightarrow>
       ('p, 's) answered" where
  "handle_launch_collection cr wi op nd =
     (if launch_collection_validate_standalone cr (wi_phases wi) op \<noteq> Inr () then refuse BAD_REQUEST nd
      else if contains_key (cs_collection_registry (nd_chain nd)) (lc_collection_id op) then refuse CONFLICT nd
      else let (added, mp) = add_launch_collection_op cr (wi_phases wi) op (nd_mempool nd);
               nd = nd\<lparr>nd_mempool := mp\<rparr>
           in if \<not> added then refuse BAD_REQUEST nd else (nd, [Broadcast (NewLaunchCollectionOp op)], Json ()))"

definition handle_create_listing ::
    "('p::ab_group_add, 's::comm_ring_1) crypto \<Rightarrow> ('p, 's) listing \<Rightarrow> ('p, 's) p2p_server \<Rightarrow> ('p, 's) answered" where
  "handle_create_listing cr l nd =
     (if listing_validate_standalone cr l \<noteq> Inr () then refuse BAD_REQUEST nd
      else if listing_validate_against_registry l (cs_asset_registry (nd_chain nd)) \<noteq> Inr () then refuse FORBIDDEN nd
      else (nd\<lparr>nd_marketplace := add_or_replace l (nd_marketplace nd)\<rparr>, [Broadcast (NewListing l)], Json ()))"

definition handle_cancel_listing ::
    "('p::ab_group_add, 's::comm_ring_1) crypto \<Rightarrow> ('p, 's) cancel_listing_request \<Rightarrow> ('p, 's) p2p_server \<Rightarrow> ('p, 's) answered" where
  "handle_cancel_listing cr req nd =
     (if \<not> verify cr (cr_signature req) (cancel_message cr (cr_asset_id req) (cr_seller_pubkey req)) (cr_seller_pubkey req)
      then refuse FORBIDDEN nd
      else let (cancelled, listings) = cancel (cr_asset_id req) (cr_seller_pubkey req) (nd_marketplace nd);
               nd = nd\<lparr>nd_marketplace := listings\<rparr>
           in if \<not> cancelled then refuse NOT_FOUND nd
              else (nd, [Broadcast (CancelListing (cr_asset_id req) (cr_seller_pubkey req) (cr_signature req))], Json ()))"

definition handle_publish_allowlist ::
    "('p::ab_group_add, 's::comm_ring_1) crypto \<Rightarrow> ('p, 's) allowlist_entry \<Rightarrow> ('p, 's) p2p_server \<Rightarrow> ('p, 's) answered" where
  "handle_publish_allowlist cr entry nd =
     (if allowlist_validate_standalone cr entry \<noteq> Inr () then refuse BAD_REQUEST nd
      else if allowlist_validate_against_registry entry (cs_collection_registry (nd_chain nd)) \<noteq> Inr () then refuse FORBIDDEN nd
      else (nd\<lparr>nd_allowlist := allowlist_publish entry (nd_allowlist nd)\<rparr>, [Broadcast (NewAllowlist entry)], Json ()))"


section \<open>Queries\<close>

definition lookup_reply :: "'v option \<Rightarrow> 'v reply" where
  "lookup_reply r = (case r of Some x \<Rightarrow> Json x | None \<Rightarrow> error_reply NOT_FOUND)"

definition handle_resolve_name :: "string \<Rightarrow> ('p, 's) chain_state \<Rightarrow> 'p name_record reply" where
  "handle_resolve_name name st = lookup_reply (Mapping.lookup (cs_name_registry st) name)"

definition handle_resolve_asset :: "string \<Rightarrow> ('p, 's) chain_state \<Rightarrow> 'p asset_record reply" where
  "handle_resolve_asset asset_id st = lookup_reply (Mapping.lookup (cs_asset_registry st) asset_id)"

definition handle_get_collection :: "string \<Rightarrow> ('p, 's) chain_state \<Rightarrow> 'p collection_record reply" where
  "handle_get_collection collection_id st = lookup_reply (Mapping.lookup (cs_collection_registry st) collection_id)"

definition handle_get_listing :: "string \<Rightarrow> ('p, 's) marketplace_state \<Rightarrow> ('p, 's) listing reply" where
  "handle_get_listing asset_id listings = lookup_reply (Mapping.lookup listings asset_id)"

definition handle_get_allowlist :: "string \<Rightarrow> u32 \<Rightarrow> ('p, 's) allowlist_state \<Rightarrow> ('p, 's) allowlist_entry reply" where
  "handle_get_allowlist collection_id phase_index entries = lookup_reply (allowlist_get entries collection_id phase_index)"

text \<open>The values of a hash map, in the order its keys are iterated.\<close>

definition values_in :: "'k list \<Rightarrow> ('k, 'v) mapping \<Rightarrow> 'v list" where
  "values_in order m = List.map_filter (Mapping.lookup m) order"

definition handle_list_utxos :: "'p commitment list \<Rightarrow> ('p, 's) chain_state \<Rightarrow> 'p commitment list reply" where
  "handle_list_utxos order st = Json (filter (\<lambda>c. c \<in> cs_utxos st) order)"

text \<open>Newest first, and by identifier within a block.\<close>

definition newest_first :: "('v \<Rightarrow> u64) \<Rightarrow> ('v \<Rightarrow> string) \<Rightarrow> 'v list \<Rightarrow> 'v list" where
  "newest_first time_of key rs = sort_key (\<lambda>r. (- uint (time_of r), key r)) rs"

record list_query =
  lq_limit :: "nat option"
  lq_owner :: "string option"

definition limit_of :: "nat option \<Rightarrow> nat" where
  "limit_of l = min (case l of None \<Rightarrow> 50 | Some n \<Rightarrow> n) 500"

text \<open>The owner filter of a query: no filter, a key, or text that is no key; parsing it may panic.\<close>

definition owner_filter :: "('p, 's) crypto \<Rightarrow> string option \<Rightarrow> 'p commitment option reply outcome" where
  "owner_filter cr owner =
     (case owner of
        None \<Rightarrow> Ret (Json None)
      | Some hex \<Rightarrow> bind_outcome (commitment_from_hex cr hex) (\<lambda>r.
          Ret (case r of Some c \<Rightarrow> Json (Some c) | None \<Rightarrow> error_reply BAD_REQUEST)))"

definition owned_by :: "'p commitment option \<Rightarrow> 'p commitment \<Rightarrow> bool" where
  "owned_by flt owner = (case flt of None \<Rightarrow> True | Some o' \<Rightarrow> owner = o')"

definition handle_list_names ::
    "('p, 's) crypto \<Rightarrow> string list \<Rightarrow> list_query \<Rightarrow> ('p, 's) chain_state \<Rightarrow> 'p name_record list reply outcome" where
  "handle_list_names cr order query st =
     bind_outcome (owner_filter cr (lq_owner query)) (\<lambda>f.
       case f of error_reply s \<Rightarrow> Ret (error_reply s)
       | Json flt \<Rightarrow> Ret (Json (take (limit_of (lq_limit query)) (newest_first nr_registered_at_block nr_name
           (filter (\<lambda>r. owned_by flt (nr_owner_pubkey r)) (values_in order (cs_name_registry st)))))))"

definition handle_list_assets ::
    "('p, 's) crypto \<Rightarrow> string list \<Rightarrow> list_query \<Rightarrow> ('p, 's) chain_state \<Rightarrow> 'p asset_record list reply outcome" where
  "handle_list_assets cr order query st =
     bind_outcome (owner_filter cr (lq_owner query)) (\<lambda>f.
       case f of error_reply s \<Rightarrow> Ret (error_reply s)
       | Json flt \<Rightarrow> Ret (Json (take (limit_of (lq_limit query)) (newest_first ar_minted_at_block ar_asset_id
           (filter (\<lambda>r. owned_by flt (ar_owner_pubkey r)) (values_in order (cs_asset_registry st)))))))"

definition handle_list_collections ::
    "string list \<Rightarrow> nat option \<Rightarrow> ('p, 's) chain_state \<Rightarrow> 'p collection_record list reply" where
  "handle_list_collections order limit st =
     Json (take (limit_of limit) (newest_first cl_launched_at_block cl_collection_id
       (values_in order (cs_collection_registry st))))"

definition handle_list_listings :: "string list \<Rightarrow> ('p, 's) marketplace_state \<Rightarrow> ('p, 's) listing list reply" where
  "handle_list_listings order listings = Json (newest_first li_listed_at li_asset_id (values_in order listings))"


section \<open>Requests and gossip\<close>

text \<open>The operations a client can submit, the handler of each, and the message a peer sends for it.\<close>

datatype ('p, 's) api_request =
    RegisterValidator "('p, 's) stake_request"
  | RegisterName "('p, 's) register_name_op"
  | TransferName "('p, 's) transfer_name_op"
  | MintAsset "('p, 's) mint_asset_op"
  | TransferAsset "('p, 's) transfer_asset_op"
  | LaunchCollection "('p, 's) launch_collection_op"
  | CreateListing "('p, 's) listing"
  | CancelRequest "('p, 's) cancel_listing_request"
  | PublishAllowlist "('p, 's) allowlist_entry"

fun api_handle ::
    "('p::ab_group_add, 's::comm_ring_1) crypto \<Rightarrow> ('p, 's) wire \<Rightarrow> ('p, 's) api_request \<Rightarrow> ('p, 's) p2p_server \<Rightarrow>
       ('p, 's) answered" where
  "api_handle cr wi (RegisterValidator req) nd = handle_register_validator cr req nd"
| "api_handle cr wi (RegisterName op) nd = handle_register_name cr op nd"
| "api_handle cr wi (TransferName op) nd = handle_transfer_name cr op nd"
| "api_handle cr wi (MintAsset op) nd = handle_mint_asset cr op nd"
| "api_handle cr wi (TransferAsset op) nd = handle_transfer_asset cr op nd"
| "api_handle cr wi (LaunchCollection op) nd = handle_launch_collection cr wi op nd"
| "api_handle cr wi (CreateListing l) nd = handle_create_listing cr l nd"
| "api_handle cr wi (CancelRequest req) nd = handle_cancel_listing cr req nd"
| "api_handle cr wi (PublishAllowlist entry) nd = handle_publish_allowlist cr entry nd"

fun gossip_of :: "('p, 's) api_request \<Rightarrow> ('p, 's) p2p_message" where
  "gossip_of (RegisterValidator req) =
     NewValidatorOp \<lparr>rv_commitment = sr_commitment req, rv_value = sr_value req, rv_proof = sr_proof req\<rparr>"
| "gossip_of (RegisterName op) = NewNameOp op"
| "gossip_of (TransferName op) = NewTransferOp op"
| "gossip_of (MintAsset op) = NewMintOp op"
| "gossip_of (TransferAsset op) = NewTransferAssetOp op"
| "gossip_of (LaunchCollection op) = NewLaunchCollectionOp op"
| "gossip_of (CreateListing l) = NewListing l"
| "gossip_of (CancelRequest req) = CancelListing (cr_asset_id req) (cr_seller_pubkey req) (cr_signature req)"
| "gossip_of (PublishAllowlist entry) = NewAllowlist entry"

text \<open>What the chain must say for a client's operation to be taken, beyond what gossip requires.\<close>

fun admissible :: "('p::ab_group_add, 's::comm_ring_1) crypto \<Rightarrow> ('p, 's) chain_state \<Rightarrow> ('p, 's) api_request \<Rightarrow> bool" where
  "admissible cr st (RegisterName op) \<longleftrightarrow> rn_name op \<notin> Mapping.keys (cs_name_registry st)"
| "admissible cr st (TransferName op) \<longleftrightarrow> (\<exists>current. Mapping.lookup (cs_name_registry st) (tn_name op) = Some current \<and>
     verify cr (tn_signature op) (transfer_name_message cr (tn_name op) (tn_new_owner_pubkey op) (tn_new_resolves_to op))
       (nr_owner_pubkey current))"
| "admissible cr st (MintAsset op) \<longleftrightarrow> ma_asset_id op \<notin> Mapping.keys (cs_asset_registry st)"
| "admissible cr st (TransferAsset op) \<longleftrightarrow> (\<exists>current. Mapping.lookup (cs_asset_registry st) (ta_asset_id op) = Some current \<and>
     verify cr (ta_signature op) (transfer_asset_message cr (ta_asset_id op) (ta_new_owner_pubkey op)
       (ta_required_kernel_excess op) (ta_required_royalty_kernel_excess op)) (ar_owner_pubkey current) \<and>
     set_option (ta_required_kernel_excess op) \<subseteq> cs_kernel_excesses st \<and>
     (ta_required_kernel_excess op \<noteq> None \<and>
      (\<exists>collection_id collection. ar_collection_id current = Some collection_id \<and>
         Mapping.lookup (cs_collection_registry st) collection_id = Some collection \<and> cl_royalty_bps collection \<noteq> 0) \<longrightarrow>
      (\<exists>royalty \<in> cs_kernel_excesses st. ta_required_royalty_kernel_excess op = Some royalty)))"
| "admissible cr st (LaunchCollection op) \<longleftrightarrow> lc_collection_id op \<notin> Mapping.keys (cs_collection_registry st)"
| "admissible cr st _ \<longleftrightarrow> True"

lemma refuse_neq_queued [simp]: "refuse s nd \<noteq> (nd', effs, Json x)" "(nd', effs, Json x) \<noteq> refuse s nd"
  by (simp_all add: refuse_def)

lemma add_refused:
  "add_transaction cr size_of tx mp = (False, mp') \<Longrightarrow> mp' = mp"
  "add_name_op cr nop mp = (False, mp') \<Longrightarrow> mp' = mp"
  "add_transfer_op xop mp = (False, mp') \<Longrightarrow> mp' = mp"
  "add_mint_op cr mop mp = (False, mp') \<Longrightarrow> mp' = mp"
  "add_transfer_asset_op aop mp = (False, mp') \<Longrightarrow> mp' = mp"
  "add_launch_collection_op cr ser lop mp = (False, mp') \<Longrightarrow> mp' = mp"
  "add_validator_op cr vop mp = (False, mp') \<Longrightarrow> mp' = mp"
  by (auto simp: add_transaction_def add_name_op_def add_transfer_op_def add_mint_op_def add_transfer_asset_op_def
      add_launch_collection_op_def add_validator_op_def split: if_splits)

lemma add_needs_valid:
  "register_name_validate_standalone cr nop \<noteq> Inr () \<Longrightarrow> add_name_op cr nop mp = (False, mp)"
  "mint_asset_validate_standalone cr mop \<noteq> Inr () \<Longrightarrow> add_mint_op cr mop mp = (False, mp)"
  "launch_collection_validate_standalone cr ser lop \<noteq> Inr () \<Longrightarrow> add_launch_collection_op cr ser lop mp = (False, mp)"
  by (simp_all add: add_name_op_def add_mint_op_def add_launch_collection_op_def)

lemma node_self [simp]:
  "nd\<lparr>nd_mempool := nd_mempool nd\<rparr> = nd" "nd\<lparr>nd_marketplace := nd_marketplace nd\<rparr> = nd" for nd :: "('p, 's) p2p_server"
  by simp_all

lemma payment_missing_None:
  "payment_missing st op = None \<longleftrightarrow> set_option (ta_required_kernel_excess op) \<subseteq> cs_kernel_excesses st"
  by (auto simp: payment_missing_def split: option.splits if_splits)

lemma royalty_missing_None:
  "royalty_missing st current op = None \<longleftrightarrow>
     (ta_required_kernel_excess op \<noteq> None \<and>
      (\<exists>collection_id collection. ar_collection_id current = Some collection_id \<and>
         Mapping.lookup (cs_collection_registry st) collection_id = Some collection \<and> cl_royalty_bps collection \<noteq> 0) \<longrightarrow>
      (\<exists>royalty \<in> cs_kernel_excesses st. ta_required_royalty_kernel_excess op = Some royalty))"
  by (auto simp: royalty_missing_def word_gt_0 split: option.splits if_splits)

lemma admissible_transfer_asset:
  "admissible cr st (TransferAsset op) \<longleftrightarrow> (\<exists>current. Mapping.lookup (cs_asset_registry st) (ta_asset_id op) = Some current \<and>
     verify cr (ta_signature op) (transfer_asset_message cr (ta_asset_id op) (ta_new_owner_pubkey op)
       (ta_required_kernel_excess op) (ta_required_royalty_kernel_excess op)) (ar_owner_pubkey current) \<and>
     payment_missing st op = None \<and> royalty_missing st current op = None)"
  by (simp only: admissible.simps payment_missing_None royalty_missing_None)

text \<open>C7. One door: whatever a client submits, the handler does what handling the same operation from a
  peer does (queue it or store it, and broadcast it), provided the chain admits the operation, and
  otherwise changes nothing, sends nothing and answers with an error. For a registration the chain
  must not know the identifier; a transfer must be signed by the owner on the chain and the payments
  it is conditioned on must exist.\<close>

theorem api_equals_gossip:
  "\<exists>nd' effs. handle_message cr en wi io (gossip_of req) nd cn = Some (Ret (nd', cn, effs)) \<and>
     (if admissible cr (nd_chain nd) req \<and> effs \<noteq> []
      then effs = [Broadcast (gossip_of req)] \<and> api_handle cr wi req nd = (nd', effs, Json ())
      else \<exists>status. api_handle cr wi req nd = (nd, [], error_reply status))"
proof (cases req)
  case (RegisterValidator r)
  then show ?thesis
    by (auto simp: handle_register_validator_def queue_op_def refuse_def Let_def split: prod.splits dest: add_refused)
next
  case (RegisterName op)
  then show ?thesis
    by (auto simp: handle_register_name_def queue_op_def refuse_def Let_def add_needs_valid contains_key_keys
        split: prod.splits dest: add_refused)
next
  case (TransferName op)
  then show ?thesis
    by (auto simp: handle_transfer_name_def queue_op_def refuse_def Let_def split: prod.splits option.splits dest: add_refused)
next
  case (MintAsset op)
  then show ?thesis
    by (auto simp: handle_mint_asset_def queue_op_def refuse_def Let_def add_needs_valid contains_key_keys
        split: prod.splits dest: add_refused)
next
  case (TransferAsset op)
  then show ?thesis
    by (auto simp: handle_transfer_asset_def queue_op_def refuse_def Let_def admissible_transfer_asset
        simp del: admissible.simps split: prod.splits option.splits dest: add_refused)
next
  case (LaunchCollection op)
  then show ?thesis
    by (auto simp: handle_launch_collection_def queue_op_def refuse_def Let_def add_needs_valid contains_key_keys
        split: prod.splits dest: add_refused)
next
  case (CreateListing l)
  then show ?thesis by (auto simp: handle_create_listing_def refuse_def)
next
  case (CancelRequest r)
  then show ?thesis
    by (auto simp: handle_cancel_listing_def refuse_def Let_def cancel_def split: prod.splits option.splits if_splits)
next
  case (PublishAllowlist entry)
  then show ?thesis by (auto simp: handle_publish_allowlist_def refuse_def)
qed


section \<open>Listings\<close>

definition enumerates :: "'k list \<Rightarrow> ('k, 'v) mapping \<Rightarrow> bool" where
  "enumerates order m \<longleftrightarrow> distinct order \<and> set order = Mapping.keys m"

definition newer :: "('v \<Rightarrow> u64) \<Rightarrow> ('v \<Rightarrow> string) \<Rightarrow> 'v \<Rightarrow> 'v \<Rightarrow> bool" where
  "newer time_of key r s \<longleftrightarrow> time_of s < time_of r \<or> time_of r = time_of s \<and> key r < key s"

text \<open>The specification of a listing: the newest \<open>n\<close> records of a set, in order.\<close>

definition newest_page :: "('v \<Rightarrow> u64) \<Rightarrow> ('v \<Rightarrow> string) \<Rightarrow> 'v set \<Rightarrow> nat \<Rightarrow> 'v list \<Rightarrow> bool" where
  "newest_page time_of key S n rs \<longleftrightarrow> sorted_wrt (newer time_of key) rs \<and> set rs \<subseteq> S \<and> length rs = min n (card S) \<and>
     (\<forall>r \<in> set rs. \<forall>s \<in> S - set rs. newer time_of key r s)"

definition records :: "(string, 'v) mapping \<Rightarrow> 'v set" where
  "records m = {r. \<exists>k. Mapping.lookup m k = Some r}"

lemma set_values_in: "enumerates order m \<Longrightarrow> set (values_in order m) = records m"
  by (force simp: values_in_def enumerates_def records_def List.map_filter_def keys_dom_lookup dom_def image_iff)

lemma distinct_values_in:
  assumes "keyed key m" and "enumerates order m"
  shows "distinct (map key (values_in order m))"
proof -
  have "map key (List.map_filter (Mapping.lookup m) ks) = ks" if "set ks \<subseteq> Mapping.keys m" for ks
    using that assms(1) by (induction ks) (auto simp: List.map_filter_def keys_dom_lookup keyed_def)
  with assms(2) show ?thesis by (simp add: values_in_def enumerates_def)
qed

lemma newer_iff:
  "newer time_of key r s \<longleftrightarrow> (- uint (time_of r), key r) < (- uint (time_of s), key s)"
  by (auto simp: newer_def word_less_def simp flip: word_uint_eq_iff)

lemma newest_first_page:
  assumes "distinct (map key rs)"
  shows "newest_page time_of key (set rs) n (take n (newest_first time_of key rs))"
proof -
  let ?f = "\<lambda>r. (- uint (time_of r), key r)" and ?ss = "newest_first time_of key rs"
  have keys: "distinct (map key ?ss)" and [simp]: "set ?ss = set rs" "length ?ss = length rs"
    using assms by (simp_all add: newest_first_def distinct_map)
  then have "distinct (map ?f ?ss)" by (auto simp: distinct_map inj_on_def)
  moreover have "sorted (map ?f ?ss)" by (simp add: newest_first_def)
  ultimately have "sorted_wrt (<) (map ?f ?ss)" by (simp add: strict_sorted_iff)
  then have sorted: "sorted_wrt (newer time_of key) ?ss" unfolding sorted_wrt_map newer_iff .
  then have parts: "sorted_wrt (newer time_of key) (take n ?ss @ drop n ?ss)" by simp
  have "set rs - set (take n ?ss) \<subseteq> set (drop n ?ss)"
    using set_append [of "take n ?ss" "drop n ?ss"] by auto
  moreover have "card (set rs) = length rs" using assms by (simp add: distinct_card distinct_map)
  moreover have "set (take n ?ss) \<subseteq> set rs" using set_take_subset [of n ?ss] by simp
  ultimately show ?thesis
    using parts unfolding sorted_wrt_append by (auto simp: newest_page_def)
qed

lemma listing_page:
  assumes "keyed key m" and "enumerates order m"
  shows "newest_page time_of key {r \<in> records m. P r} n (take n (newest_first time_of key (filter P (values_in order m))))"
  using newest_first_page [of key "filter P (values_in order m)" time_of n] distinct_values_in [OF assms]
  by (simp add: set_values_in [OF assms(2)] distinct_map inj_on_def)

lemma owner_filter_hex:
  assumes "compress_laws cr"
  shows "owner_filter cr (map_option (commitment_to_hex cr) owner) = Ret (Json owner)"
  using commitment_hex_roundtrip [OF assms] by (cases owner) (simp_all add: owner_filter_def)

text \<open>The registries are listed newest first: the names (assets) of an owner, or all of them when no owner is
  given, and the collections, are answered as the newest ones up to the limit of the query, 50 when it gives none
  and 500 at most, ordered by block and then by identifier, whatever the iteration order of the hash maps.\<close>

theorem listings_newest_first:
  assumes "compress_laws cr" and "registries_keyed st"
    and "enumerates names (cs_name_registry st)" and "enumerates assets (cs_asset_registry st)"
    and "enumerates collections (cs_collection_registry st)"
    and query: "query = \<lparr>lq_limit = limit, lq_owner = map_option (commitment_to_hex cr) owner\<rparr>"
    and n: "n = (case limit of None \<Rightarrow> 50 | Some l \<Rightarrow> min l 500)"
  shows "(\<exists>rs. handle_list_names cr names query st = Ret (Json rs) \<and>
      newest_page nr_registered_at_block nr_name
        {r \<in> records (cs_name_registry st). owner = None \<or> owner = Some (nr_owner_pubkey r)} n rs) \<and>
    (\<exists>rs. handle_list_assets cr assets query st = Ret (Json rs) \<and>
      newest_page ar_minted_at_block ar_asset_id
        {r \<in> records (cs_asset_registry st). owner = None \<or> owner = Some (ar_owner_pubkey r)} n rs) \<and>
    (\<exists>rs. handle_list_collections collections limit st = Json rs \<and>
      newest_page cl_launched_at_block cl_collection_id (records (cs_collection_registry st)) n rs)"
proof -
  have n': "limit_of limit = n" by (simp add: n limit_of_def split: option.split)
  have owned: "owned_by owner = (\<lambda>o'. owner = None \<or> owner = Some o')"
    by (auto simp: owned_by_def fun_eq_iff split: option.split)
  have k: "keyed nr_name (cs_name_registry st)" "keyed ar_asset_id (cs_asset_registry st)"
      "keyed cl_collection_id (cs_collection_registry st)"
    using assms(2) by (simp_all add: registries_keyed_def)
  show ?thesis
    using listing_page [OF k(1) assms(3), of nr_registered_at_block "\<lambda>r. owned_by owner (nr_owner_pubkey r)" n]
      listing_page [OF k(2) assms(4), of ar_minted_at_block "\<lambda>r. owned_by owner (ar_owner_pubkey r)" n]
      listing_page [OF k(3) assms(5), of cl_launched_at_block "\<lambda>_. True" n]
    by (simp add: handle_list_names_def handle_list_assets_def handle_list_collections_def query
        owner_filter_hex [OF assms(1)] n' owned)
qed


theorem listings_newest_first_witness:
  "\<exists>rs. handle_list_assets w_crypto [''art''] \<lparr>lq_limit = Some 1000, lq_owner = None\<rparr> w_sale_state = Ret (Json rs) \<and>
     newest_page ar_minted_at_block ar_asset_id (records (cs_asset_registry w_sale_state)) 500 rs"
proof -
  have "registries_keyed w_sale_state"
    by (auto simp: registries_keyed_def keyed_def snapshots_keyed_def w_sale_eval w_art_def w_state_def chain_new_def map_simps
        split: if_splits)
  moreover have "enumerates [] (cs_name_registry w_sale_state)" "enumerates [''art''] (cs_asset_registry w_sale_state)"
      "enumerates [''drop''] (cs_collection_registry w_sale_state)"
    by (simp_all add: enumerates_def w_sale_eval w_state_def chain_new_def map_simps)
  ultimately show ?thesis
    using listings_newest_first [OF w_compress_laws, of w_sale_state "[]" "[''art'']" "[''drop'']" _ "Some 1000" None]
    by simp
qed

text \<open>A filter by owner that is no key answers with an error or brings the handler down.\<close>

theorem listing_panics:
  "handle_list_names cr order
     \<lparr>lq_limit = None, lq_owner = Some (CHR ''a'' # concat (replicate 31 [CHR 0xC3, CHR 0xA9]) @ [CHR ''b''])\<rparr> st = Panic"
  by (simp only: handle_list_names_def owner_filter_def list_query.select_convs option.case
      commitment_from_hex_may_panic bind_outcome.simps)

text \<open>A submitted transaction enters the pool exactly when it is valid, pays the fee its size asks for and there is
  room; whether the same transaction is pending already makes no difference.\<close>

theorem submission_accepted:
  "(\<exists>nd' effs. handle_submit_transaction cr wi io tx nd = (nd', effs, Json ())) \<longleftrightarrow>
     validate cr tx \<and> required_fee (wi_size wi) tx \<le> tx_fee tx \<and> length (mp_txs (nd_mempool nd)) < MAX_PENDING_TXS"
  by (auto simp: handle_submit_transaction_def add_transaction_def Let_def not_less split: prod.splits)

lemma submission_refused:
  assumes "handle_submit_transaction cr wi io tx nd = (nd', effs, error_reply status)"
  shows "nd' = nd \<and> effs = [] \<and> status = BAD_REQUEST"
  using assms
  by (auto simp: handle_submit_transaction_def refuse_def Let_def split: prod.splits if_splits dest: add_refused)

lemma submission_queues:
  assumes "handle_submit_transaction cr wi io tx nd = (nd', effs, Json ())"
  shows "mp_txs (nd_mempool nd') = mp_txs (nd_mempool nd) @ [tx]"
  using assms
  by (auto simp: handle_submit_transaction_def propagate_new_transaction_def dispatch_dandelion_tx_def add_transaction_def
      Let_def split: prod.splits if_splits tx_state.splits)

end
