(* ===== verification/Explorer.thy ===== *)
theory Explorer
  imports Api Wallet
begin

text \<open>
  The read-only endpoints of \<open>api/src/explorer.rs\<close>: status, fees, blocks, kernels, validators, search and the
  scan of all outputs from which a wallet is restored. The iteration order of the block store is an
  argument; a query that walks the chain is \<open>None\<close> when the walk does not end. The lemmas show that the
  scan, which releases the chain lock after every chunk of blocks, answers as if it had read the chain
  in one piece, whatever blocks arrive in between.
\<close>

section \<open>Blocks\<close>

record status_info =
  si_height :: u64
  si_tip_hash :: string
  si_active_validators :: nat
  si_mempool_size :: nat

record block_summary =
  bs_height :: u64
  bs_hash :: string
  bs_prev_hash :: string
  bs_timestamp :: u64
  bs_proposer :: string
  bs_num_inputs :: nat
  bs_num_outputs :: nat
  bs_num_kernels :: nat
  bs_pruned_inputs :: u32
  bs_pruned_outputs :: u32

record kernel_info =
  ki_excess :: string
  ki_fee :: u64

record block_detail =
  bd_height :: u64
  bd_hash :: string
  bd_prev_hash :: string
  bd_timestamp :: u64
  bd_nonce :: u64
  bd_proposer :: string
  bd_inputs :: "string list"
  bd_outputs :: "string list"
  bd_kernels :: "kernel_info list"

definition PRUNED_PLACEHOLDER :: string where
  "PRUNED_PLACEHOLDER = ''<pruned via cut-through>''"

text \<open>The helpers \<open>all_kernels\<close>, \<open>all_inputs\<close>, \<open>all_outputs\<close>.\<close>

definition explorer_kernels :: "('p, 's) block \<Rightarrow> ('p, 's) tx_kernel list" where
  "explorer_kernels b = tx_kernels (b_body b) @ concat (map (\<lambda>op. tx_kernels (rn_fee_payment op)) (b_name_ops b))"

definition explorer_inputs :: "('p, 's) block \<Rightarrow> 'p tx_input list" where
  "explorer_inputs b = tx_inputs (b_body b) @ concat (map (\<lambda>op. tx_inputs (rn_fee_payment op)) (b_name_ops b)) @
     concat (map (\<lambda>op. tx_inputs (ma_fee_payment op)) (b_mint_ops b))"

definition explorer_outputs :: "('p, 's) block \<Rightarrow> 'p tx_output list" where
  "explorer_outputs b = tx_outputs (b_body b) @ concat (map (\<lambda>op. tx_outputs (rn_fee_payment op)) (b_name_ops b)) @
     concat (map (\<lambda>op. tx_outputs (ma_fee_payment op)) (b_mint_ops b))"

definition pruned_counts :: "block_prune_meta option \<Rightarrow> u32 \<times> u32" where
  "pruned_counts meta = (case meta of None \<Rightarrow> (0, 0) | Some m \<Rightarrow> (pm_pruned_inputs m, pm_pruned_outputs m))"

definition to_summary :: "('p, 's) crypto \<Rightarrow> ('p, 's) block \<Rightarrow> block_prune_meta option \<Rightarrow> block_summary" where
  "to_summary cr b prune_meta =
     (let (pruned_inputs, pruned_outputs) = pruned_counts prune_meta
      in \<lparr>bs_height = bh_height (b_header b), bs_hash = to_hex (header_hash cr (b_header b)),
           bs_prev_hash = to_hex (bh_prev_hash (b_header b)), bs_timestamp = bh_timestamp (b_header b),
           bs_proposer = commitment_to_hex cr (bh_validator_commitment (b_header b)),
           bs_num_inputs = length (explorer_inputs b) + unat pruned_inputs,
           bs_num_outputs = length (explorer_outputs b) + unat pruned_outputs,
           bs_num_kernels = length (explorer_kernels b), bs_pruned_inputs = pruned_inputs, bs_pruned_outputs = pruned_outputs\<rparr>)"

definition to_detail :: "('p, 's) crypto \<Rightarrow> ('p, 's) block \<Rightarrow> block_prune_meta option \<Rightarrow> block_detail" where
  "to_detail cr b prune_meta =
     (let (pruned_inputs, pruned_outputs) = pruned_counts prune_meta
      in \<lparr>bd_height = bh_height (b_header b), bd_hash = to_hex (header_hash cr (b_header b)),
           bd_prev_hash = to_hex (bh_prev_hash (b_header b)), bd_timestamp = bh_timestamp (b_header b),
           bd_nonce = bh_nonce (b_header b), bd_proposer = commitment_to_hex cr (bh_validator_commitment (b_header b)),
           bd_inputs = map (\<lambda>i. commitment_to_hex cr (in_commitment i)) (explorer_inputs b) @
             replicate (unat pruned_inputs) PRUNED_PLACEHOLDER,
           bd_outputs = map (\<lambda>out. commitment_to_hex cr (out_commitment out)) (explorer_outputs b) @
             replicate (unat pruned_outputs) PRUNED_PLACEHOLDER,
           bd_kernels = map (\<lambda>k. \<lparr>ki_excess = commitment_to_hex cr (excess k), ki_fee = fee k\<rparr>) (explorer_kernels b)\<rparr>)"


section \<open>Handlers\<close>

definition handle_status :: "('p, 's) chain_state \<Rightarrow> ('p, 's) mempool \<Rightarrow> status_info reply" where
  "handle_status st mp = Json \<lparr>si_height = cs_current_height st, si_tip_hash = to_hex (cs_last_block_hash st),
     si_active_validators = length (cs_active_validators st), si_mempool_size = length (mp_txs mp)\<rparr>"

definition suggested_name_fee :: "('p, 's) mempool \<Rightarrow> u64" where
  "suggested_name_fee mp = NAME_REGISTRATION_FEE"

definition suggested_asset_fee :: "('p, 's) mempool \<Rightarrow> u64" where
  "suggested_asset_fee mp = ASSET_MINT_FEE"

record fee_estimate =
  fe_suggested_fee :: u64
  fe_min_fee :: u64
  fe_fee_per_kb :: u64
  fe_mempool_size :: nat
  fe_suggested_name_fee :: u64
  fe_min_name_fee :: u64
  fe_name_ops_size :: nat
  fe_suggested_asset_fee :: u64
  fe_min_asset_fee :: u64
  fe_mint_ops_size :: nat

definition handle_fee_estimate :: "('p, 's) mempool \<Rightarrow> fee_estimate reply" where
  "handle_fee_estimate mp = Json \<lparr>fe_suggested_fee = suggested_fee, fe_min_fee = MIN_FEE, fe_fee_per_kb = FEE_PER_KB,
     fe_mempool_size = length (mp_txs mp), fe_suggested_name_fee = suggested_name_fee mp,
     fe_min_name_fee = NAME_REGISTRATION_FEE, fe_name_ops_size = length (mp_name_ops mp),
     fe_suggested_asset_fee = suggested_asset_fee mp, fe_min_asset_fee = ASSET_MINT_FEE,
     fe_mint_ops_size = length (mp_mint_ops mp)\<rparr>"

text \<open>The scan: one chunk is read under one lock, so the n-th chunk sees the store as it is at that time (\<open>stores n\<close>).\<close>

definition SCAN_CHUNK_SIZE :: nat where "SCAN_CHUNK_SIZE = 500"

fun scan_chunk :: "('p, 's) block_store \<Rightarrow> nat \<Rightarrow> hash32 \<Rightarrow> ('p, 's) block list \<times> hash32 option" where
  "scan_chunk blocks 0 hash = ([], Some hash)"
| "scan_chunk blocks (Suc n) hash =
     (case Mapping.lookup blocks hash of
        None \<Rightarrow> ([], Some hash)
      | Some b \<Rightarrow>
          if bh_height (b_header b) = 0 then ([b], None)
          else let (chunk, next) = scan_chunk blocks n (bh_prev_hash (b_header b)) in (b # chunk, next))"

definition scan_entries :: "('p, 's) crypto \<Rightarrow> ('p, 's) block list \<Rightarrow> scan_entry list" where
  "scan_entries cr chunk = map (scan_output cr) (filter (\<lambda>out. out_note out \<noteq> []) (concat (map explorer_outputs chunk)))"

partial_function (option) scan_loop ::
    "('p, 's) crypto \<Rightarrow> (nat \<Rightarrow> ('p, 's) block_store) \<Rightarrow> nat \<Rightarrow> hash32 \<Rightarrow> scan_entry list \<Rightarrow> scan_entry list option" where
  "scan_loop cr stores n cursor entries =
     (let (chunk, next_cursor) = scan_chunk (stores n) SCAN_CHUNK_SIZE cursor;
          entries = entries @ scan_entries cr chunk
      in if chunk = [] then Some entries
         else case next_cursor of
           Some next \<Rightarrow> scan_loop cr stores (Suc n) next entries
         | None \<Rightarrow> Some entries)"

definition handle_scan_outputs ::
    "('p, 's) crypto \<Rightarrow> (nat \<Rightarrow> ('p, 's) block_store) \<Rightarrow> ('p, 's) chain_state \<Rightarrow> scan_entry list reply option" where
  "handle_scan_outputs cr stores st = map_option Json (scan_loop cr stores 0 (cs_last_block_hash st) [])"

definition clamp :: "nat \<Rightarrow> nat \<Rightarrow> nat \<Rightarrow> nat" where
  "clamp lo hi n = max lo (min n hi)"

definition page_limit :: "nat option \<Rightarrow> nat" where
  "page_limit l = clamp 1 100 (case l of None \<Rightarrow> 20 | Some n \<Rightarrow> n)"

definition handle_blocks_list ::
    "('p, 's) crypto \<Rightarrow> nat option \<Rightarrow> ('p, 's) chain_state \<Rightarrow> block_summary list reply option" where
  "handle_blocks_list cr query_limit st =
     (let limit = page_limit query_limit;
          from_height = saturating_sub (cs_current_height st) (of_nat (limit - 1))
      in get_blocks_from st from_height limit \<bind> (\<lambda>(blocks, has_more).
           Some (Json (rev (map (\<lambda>b. to_summary cr b (Mapping.lookup (cs_prune_meta st) (header_hash cr (b_header b)))) blocks)))))"

definition handle_block_detail ::
    "('p, 's) crypto \<Rightarrow> u64 \<Rightarrow> ('p, 's) chain_state \<Rightarrow> block_detail reply option" where
  "handle_block_detail cr height st =
     get_blocks_from st height 1 \<bind> (\<lambda>(blocks, has_more).
       Some (case find (\<lambda>b. bh_height (b_header b) = height) blocks of
               Some b \<Rightarrow> Json (to_detail cr b (Mapping.lookup (cs_prune_meta st) (header_hash cr (b_header b))))
             | None \<Rightarrow> error_reply NOT_FOUND))"

record validator_info =
  vi_commitment :: string
  vi_value :: u64

definition handle_validators :: "('p, 's) crypto \<Rightarrow> ('p, 's) chain_state \<Rightarrow> validator_info list reply" where
  "handle_validators cr st =
     Json (map (\<lambda>v. \<lparr>vi_commitment = commitment_to_hex cr (v_commitment v), vi_value = v_value v\<rparr>) (cs_active_validators st))"

record transaction_summary =
  ts_block_height :: u64
  ts_block_hash :: string
  ts_excess :: string
  ts_fee :: u64

text \<open>The nested loops push summaries until the limit, which is positive, is reached.\<close>

definition handle_transactions_list ::
    "('p, 's) crypto \<Rightarrow> nat option \<Rightarrow> ('p, 's) chain_state \<Rightarrow> transaction_summary list reply option" where
  "handle_transactions_list cr query_limit st =
     (let limit = page_limit query_limit;
          scan_blocks = 100;
          from_height = saturating_sub (cs_current_height st) (of_nat (scan_blocks - 1))
      in get_blocks_from st from_height scan_blocks \<bind> (\<lambda>(blocks, has_more).
           Some (Json (take limit (concat (map (\<lambda>b. map (\<lambda>k.
             \<lparr>ts_block_height = bh_height (b_header b), ts_block_hash = to_hex (header_hash cr (b_header b)),
              ts_excess = commitment_to_hex cr (excess k), ts_fee = fee k\<rparr>) (explorer_kernels b)) (rev blocks)))))))"

datatype search_result = SearchBlock u64 | SearchTransaction u64 | SearchCommitment u64 | not_found

definition to_lowercase :: "string \<Rightarrow> string" where
  "to_lowercase s = map (\<lambda>c. if 65 \<le> (of_char c :: nat) \<and> (of_char c :: nat) \<le> 90 then char_of (of_char c + 32 :: nat) else c) s"

definition search_stored :: "('p, 's) crypto \<Rightarrow> string \<Rightarrow> ('p, 's) block list \<Rightarrow> search_result" where
  "search_stored cr query_hex all_blocks =
     (case find (\<lambda>b. list_ex (\<lambda>k. commitment_to_hex cr (excess k) = query_hex) (explorer_kernels b)) all_blocks of
        Some b \<Rightarrow> SearchTransaction (bh_height (b_header b))
      | None \<Rightarrow>
          (case find (\<lambda>b. list_ex (\<lambda>out. commitment_to_hex cr (out_commitment out) = query_hex) (explorer_outputs b) \<or>
              list_ex (\<lambda>i. commitment_to_hex cr (in_commitment i) = query_hex) (explorer_inputs b)) all_blocks of
             Some b \<Rightarrow> SearchCommitment (bh_height (b_header b))
           | None \<Rightarrow> not_found))"

definition handle_search ::
    "('p, 's) crypto \<Rightarrow> hash32 list \<Rightarrow> string \<Rightarrow> ('p, 's) chain_state \<Rightarrow> search_result reply outcome option" where
  "handle_search cr order query st =
     (let q = trim query in
      case parse_u64 q of
        Some height \<Rightarrow>
          get_blocks_from st height 1 \<bind> (\<lambda>(blocks, has_more).
            finished (Json (if list_ex (\<lambda>b. bh_height (b_header b) = height) blocks then SearchBlock height else not_found)))
      | None \<Rightarrow>
          if length q = 64 \<and> list_all is_ascii_hexdigit q
          then Some (bind_outcome (hex_loop q [0..<32]) (\<lambda>r.
            Ret (Json (case r of
                None \<Rightarrow> not_found
              | Some bytes \<Rightarrow>
                  (case Mapping.lookup (cs_blocks st) bytes of
                     Some b \<Rightarrow> SearchBlock (bh_height (b_header b))
                   | None \<Rightarrow> search_stored cr (to_lowercase q) (values_in order (cs_blocks st)))))))
          else finished (Json not_found))"


section \<open>The scan reads the whole chain\<close>

text \<open>A store that has grown since.\<close>

definition grown :: "('p, 's) block_store \<Rightarrow> ('p, 's) block_store \<Rightarrow> bool" where
  "grown blocks blocks' \<longleftrightarrow> Mapping.lookup blocks' zero_hash = Mapping.lookup blocks zero_hash \<and>
     (\<forall>h b. Mapping.lookup blocks h = Some b \<longrightarrow> Mapping.lookup blocks' h = Some b)"

lemma scan_chunk_chain:
  assumes "grown blocks blocks'" and "linked blocks n h" and "n < 2 ^ 64" and "scan_chunk blocks' m h = (chunk, next)"
  shows "case next of
      None \<Rightarrow> chunk = rev (active_chain blocks n h)
    | Some h' \<Rightarrow> \<exists>n'. linked blocks n' h' \<and> rev (active_chain blocks n h) = chunk @ rev (active_chain blocks n' h') \<and>
        n' + length chunk = n \<and> (0 < m \<and> chunk = [] \<longrightarrow> active_chain blocks n h = [])"
  using assms(2-)
proof (induction m arbitrary: n h chunk)
  case 0
  then show ?case by auto
next
  case (Suc m)
  show ?case
  proof (cases "Mapping.lookup blocks h")
    case None
    with Suc.prems(1) have "n = 0" "h = zero_hash" by (cases n; simp)+
    with None assms(1) Suc.prems show ?thesis by (auto simp: grown_def intro!: exI [of _ 0])
  next
    case (Some b)
    with assms(1) have b': "Mapping.lookup blocks' h = Some b" by (simp add: grown_def)
    show ?thesis
    proof (cases n)
      case 0
      with Some b' Suc.prems show ?thesis by auto
    next
      case (Suc n0)
      with Some Suc.prems(1) have h: "bh_height (b_header b) = of_nat (Suc n0)" "linked blocks n0 (bh_prev_hash (b_header b))"
        by simp_all
      have "unat (bh_height (b_header b)) = Suc n0" using h(1) Suc.prems(2) Suc unat_of_nat_u64 by metis
      then have "bh_height (b_header b) \<noteq> 0" by auto
      then obtain rest where rest: "scan_chunk blocks' m (bh_prev_hash (b_header b)) = (rest, next)" "chunk = b # rest"
        using Suc.prems(3) b' by (auto split: prod.splits)
      have "n0 < 2 ^ 64" using Suc.prems(2) Suc by simp
      from Suc.IH [OF h(2) this rest(1)] show ?thesis
        using Some Suc rest(2) by (auto split: option.splits)
    qed
  qed
qed


lemma scan_loop_chain:
  assumes "\<forall>n. grown blocks (stores n)"
  shows "linked blocks n h \<Longrightarrow> n < 2 ^ 64 \<Longrightarrow>
    scan_loop cr stores k h entries = Some (entries @ scan_entries cr (rev (active_chain blocks n h)))"
proof (induction n arbitrary: k h entries rule: less_induct)
  case (less n)
  obtain chunk cursor where c: "scan_chunk (stores k) SCAN_CHUNK_SIZE h = (chunk, cursor)" by fastforce
  note chain = scan_chunk_chain [OF assms [rule_format] less.prems c]
  show ?case
  proof (cases cursor)
    case None
    with chain c show ?thesis by (subst scan_loop.simps) (simp add: scan_entries_def Let_def)
  next
    case (Some h')
    with chain obtain n' where n': "linked blocks n' h'" "n' + length chunk = n"
        "rev (active_chain blocks n h) = chunk @ rev (active_chain blocks n' h')"
        "chunk = [] \<longrightarrow> active_chain blocks n h = []"
      by (auto simp: SCAN_CHUNK_SIZE_def)
    show ?thesis
    proof (cases "chunk = []")
      case True
      with c n'(4) show ?thesis by (subst scan_loop.simps) (simp add: scan_entries_def Let_def)
    next
      case False
      then have "n' < n" "n' < 2 ^ 64" using n'(2) less.prems(2) by (auto simp: neq_Nil_conv)
      with less.IH n'(1) False Some c n'(3) show ?thesis
        by (subst scan_loop.simps) (simp add: scan_entries_def Let_def)
    qed
  qed
qed

text \<open>C31. Scanning in chunks loses nothing: on a chain that the node reached by accepting blocks, the scan returns,
  and its answer is, block by block from the tip down to the start of the chain, every output with a note
  of the blocks that a single uninterrupted walk collects, although the chain lock is released
  after every 500 blocks and further blocks may be stored in between.\<close>

theorem scan_outputs_complete:
  assumes "reachable cr en st" and "\<forall>n. grown (cs_blocks st) (stores n)"
  shows "\<exists>blocks. get_blocks_from st 0 (2 ^ 64) = Some (blocks, False) \<and>
    handle_scan_outputs cr stores st = Some (Json (map (scan_output cr)
      (filter (\<lambda>out. out_note out \<noteq> []) (concat (map explorer_outputs (rev blocks))))))"
proof -
  let ?n = "unat (cs_current_height st)"
  have linked: "linked (cs_blocks st) ?n (cs_last_block_hash st)"
    using reachable_ok [OF assms(1)] by (simp add: chain_ok_def chain_linked_def)
  let ?chain = "active_chain (cs_blocks st) ?n (cs_last_block_hash st)"
  have "get_blocks_from st 0 (2 ^ 64) = Some (take (2 ^ 64) ?chain, 2 ^ 64 < length ?chain)"
    using collect_blocks_chain [OF linked unat_u64_less, of 0 "[]"] by (simp add: get_blocks_from_def Let_def)
  moreover have "length ?chain \<le> 2 ^ 64"
  proof -
    from active_chain_heights [OF linked unat_u64_less] obtain k where
      "map (\<lambda>b. unat (bh_height (b_header b))) ?chain = [k..<Suc ?n]" by blast
    from arg_cong [OF this, of length] have "length ?chain \<le> Suc ?n" by (simp del: upt_Suc)
    then show ?thesis using unat_u64_less [of "cs_current_height st"] by linarith
  qed
  ultimately have "get_blocks_from st 0 (2 ^ 64) = Some (?chain, False)" by simp
  moreover have "handle_scan_outputs cr stores st = Some (Json (scan_entries cr (rev ?chain)))"
    by (simp add: handle_scan_outputs_def scan_loop_chain [OF assms(2) linked unat_u64_less])
  ultimately show ?thesis by (auto simp: scan_entries_def)
qed

theorem scan_outputs_complete_witness:
  "\<exists>st d entries. apply_block w_crypto w_env w_genesis chain_new = Some (Ret (st, Linear d)) \<and>
     handle_scan_outputs w_crypto (\<lambda>_. cs_blocks st) st = Some (Json entries)"
proof -
  obtain st d where st: "apply_block w_crypto w_env w_genesis chain_new = Some (Ret (st, Linear d))"
      "reachable w_crypto w_env st" by (rule w_genesis_applies)
  from scan_outputs_complete [OF st(2), of "\<lambda>_. cs_blocks st"] st(1) show ?thesis by (auto simp: grown_def)
qed

text \<open>The kernels of mints are left out of the explorer: a search does not look at them, and two blocks that differ
  in their mints' kernels only look the same.\<close>

theorem mint_kernels_not_listed:
  assumes "b_body b' = b_body b" and "b_name_ops b' = b_name_ops b"
  shows "explorer_kernels b' = explorer_kernels b"
  using assms by (simp add: explorer_kernels_def)

end
