(* ===== verification/Faucet.thy ===== *)
theory Faucet
  imports Explorer
begin

text \<open>
  The faucet of \<open>api/src/faucet.rs\<close> and the sponsored registration of \<open>api/src/names.rs\<close>: the node's own
  wallet, which pays out devnet funds with the two-party slate protocol and pays the fee of name
  registrations. The environment variable with the treasury secret, the clock, randomness, the JSON
  parser of slates and the parser of IP addresses are arguments. The lemmas show what a sponsored
  registration queues, that undoing one restores the ledger, that a completed request pays the
  amount asked for, and that two sponsored registrations between blocks spend the same output.
\<close>

section \<open>State\<close>

definition MAX_FAUCET_AMOUNT :: u64 where "MAX_FAUCET_AMOUNT = 1000"

definition PENDING_TIMEOUT :: nat where "PENDING_TIMEOUT = seconds 60"

record ('p, 's, 'ip) faucet_state =
  fa_keystore :: keystore
  fa_store :: "'p wallet_store"
  fa_pending :: "(('p, 's) pending_slate \<times> instant) option"
  fa_enabled :: bool
  fa_rate_limits :: "'ip hits"

definition faucet_keystore_seed :: "('p, 's) crypto \<Rightarrow> 's \<Rightarrow> byte list" where
  "faucet_keystore_seed cr secret = take 32 (sha512 cr (bytes_of ''Haze Faucet Keystore Seed'' @ scalar_bytes cr secret))"

text \<open>\<open>None\<close> would be a walk over the blocks that does not end; the limit is \<open>usize::MAX\<close>.\<close>

definition recover_faucet_change ::
    "('p::ab_group_add, 's::comm_ring_1) crypto \<Rightarrow> ('p, 's) chain_state \<Rightarrow> keystore \<times> 'p wallet_store \<Rightarrow>
       (keystore \<times> 'p wallet_store) outcome option" where
  "recover_faucet_change cr st = (\<lambda>(ks, store).
     get_blocks_from st 0 (2 ^ 64 - 1) \<bind> (\<lambda>(blocks, has_more).
       let scan_entries = map (scan_output cr) (filter (\<lambda>out. out_note out \<noteq> []) (concat (map explorer_outputs blocks)))
       in Some (bind_outcome (recover_from_chain cr scan_entries (commitment_to_hex cr ` cs_utxos st) ks) (\<lambda>(ks, recovered).
            Ret (ks, fold (\<lambda>out. add_output (oo_index out) (oo_value out) (oo_commitment out) Confirmed)
              (spendable (rr_store recovered)) store)))))"

definition faucet_state_of :: "keystore \<Rightarrow> 'p wallet_store \<Rightarrow> bool \<Rightarrow> ('p, 's, 'ip) faucet_state" where
  "faucet_state_of ks store enabled =
     \<lparr>fa_keystore = ks, fa_store = store, fa_pending = None, fa_enabled = enabled, fa_rate_limits = Mapping.empty\<rparr>"

text \<open>\<open>FaucetState::new\<close>; \<open>seed\<close> is what \<open>Keystore::generate\<close> draws.\<close>

definition faucet_new ::
    "('p::ab_group_add, 's::comm_ring_1) crypto \<Rightarrow> string option \<Rightarrow> byte list \<Rightarrow> ('p, 's) chain_state \<Rightarrow>
       ('p, 's, 'ip) faucet_state outcome option" where
  "faucet_new cr treasury_var seed st =
     bind_run (Some (treasury_blinding_from_env cr treasury_var)) (\<lambda>secret.
       case secret of
         None \<Rightarrow> finished (faucet_state_of (keystore_from_seed seed) [] False)
       | Some secret \<Rightarrow>
           bind_run (Some (lod_commitment cr TREASURY_OUTPUT)) (\<lambda>treasury.
             let ks = keystore_from_seed (faucet_keystore_seed cr secret);
                 c = commitment_new cr TREASURY_ALLOCATION secret
             in if c \<noteq> treasury then finished (faucet_state_of ks [] False)
                else bind_run (recover_faucet_change cr st (ks, add_output FAUCET_INDEX TREASURY_ALLOCATION c Confirmed []))
                  (\<lambda>(ks, store). finished (faucet_state_of ks (reconcile (cs_utxos st) store) True))))"

definition faucet_reconcile ::
    "('p, 's) chain_state \<Rightarrow> ('p, 's, 'ip) faucet_state \<Rightarrow> ('p, 's, 'ip) faucet_state" where
  "faucet_reconcile st fa = fa\<lparr>fa_store := reconcile (cs_utxos st) (fa_store fa)\<rparr>"


section \<open>Sponsored fees\<close>

text \<open>The randomness of a fee payment: the nonce of the change note and the signing nonce.\<close>

record 's fee_random =
  fr_change_nonce :: "byte list"
  fr_sign_nonce :: 's

type_synonym ('p, 's) fee_payment = "('p, 's) transaction \<times> 'p commitment list \<times> u32 option"

definition build_sponsored_fee_payment ::
    "('p::ab_group_add, 's::comm_ring_1) crypto \<Rightarrow> string option \<Rightarrow> 's fee_random \<Rightarrow> u64 \<Rightarrow> ('p, 's, 'ip) faucet_state \<Rightarrow>
       (('p, 's, 'ip) faucet_state \<times> (plan_error + ('p, 's) fee_payment)) outcome" where
  "build_sponsored_fee_payment cr treasury_var rnd paid fa =
     (case select_spendable_confirmed_only (fa_store fa) paid of
        Inl e \<Rightarrow> Ret (fa, Inl e)
      | Inr selected \<Rightarrow>
          let selected_total = sum_list (map planned_value selected) in
          bind_outcome (input_blindings cr treasury_var (fa_keystore fa) selected) (\<lambda>blindings.
          let spent = map planned_commitment selected;
              inputs = map (\<lambda>c. \<lparr>in_commitment = c\<rparr>) spent;
              change_value = selected_total - paid;
              (outputs, change_blinding, change_index, ks, store) =
                (if 0 < change_value
                 then let (change_index, ks) = allocate_index (fa_keystore fa);
                          out = own_output cr ks (fr_change_nonce rnd) change_index change_value
                      in ([out], derive_blinding cr ks change_index, Some change_index, ks,
                          add_output change_index change_value (out_commitment out) Pending (fa_store fa))
                 else ([], 0, None, fa_keystore fa, fa_store fa));
              store = fold mark_spent spent store;
              excess_r = sum_list blindings - change_blinding;
              kernel = \<lparr>excess = commitment_new cr 0 excess_r, fee = paid,
                kernel_sig = sign cr (fr_sign_nonce rnd) (u64_le paid) excess_r\<rparr>
          in Ret (fa\<lparr>fa_keystore := ks, fa_store := store\<rparr>,
               Inr (\<lparr>tx_inputs = inputs, tx_outputs = outputs, tx_kernels = [kernel]\<rparr>, spent, change_index))))"

definition revert_fee_payment ::
    "'p commitment list \<Rightarrow> u32 option \<Rightarrow> ('p, 's, 'ip) faucet_state \<Rightarrow> ('p, 's, 'ip) faucet_state" where
  "revert_fee_payment spent change_index fa =
     (let store = fold unmark_spent spent (fa_store fa)
      in fa\<lparr>fa_store := (case change_index of None \<Rightarrow> store | Some idx \<Rightarrow> remove_pending_output idx store)\<rparr>)"

record ('p, 's) sponsored_register_request =
  rq_name :: string
  rq_owner_pubkey :: "'p commitment"
  rq_resolves_to :: "'p commitment"
  rq_signature :: "'s signature"

definition sponsored_op ::
    "('p, 's) sponsored_register_request \<Rightarrow> ('p, 's) transaction \<Rightarrow> ('p, 's) register_name_op" where
  "sponsored_op req fee_payment =
     \<lparr>rn_name = rq_name req, rn_owner_pubkey = rq_owner_pubkey req, rn_resolves_to = rq_resolves_to req,
      rn_fee_payment = fee_payment, rn_signature = rq_signature req\<rparr>"

definition handle_sponsored_register_name ::
    "('p::ab_group_add, 's::comm_ring_1) crypto \<Rightarrow> string option \<Rightarrow> 's fee_random \<Rightarrow> ('p, 's) sponsored_register_request \<Rightarrow>
       ('p, 's, 'ip) faucet_state \<Rightarrow> ('p, 's) p2p_server \<Rightarrow> (('p, 's, 'ip) faucet_state \<times> ('p, 's) answered) outcome" where
  "handle_sponsored_register_name cr treasury_var rnd req fa nd =
     (if validate_name (rq_name req) \<noteq> Inr () then Ret (fa, refuse BAD_REQUEST nd)
      else if \<not> verify cr (rq_signature req) (register_name_message (rq_name req)) (rq_owner_pubkey req)
      then Ret (fa, refuse BAD_REQUEST nd)
      else if contains_key (cs_name_registry (nd_chain nd)) (rq_name req) then Ret (fa, refuse CONFLICT nd)
      else let fa = faucet_reconcile (nd_chain nd) fa in
        bind_outcome (build_sponsored_fee_payment cr treasury_var rnd (suggested_name_fee (nd_mempool nd)) fa) (\<lambda>(fa, built).
          case built of
            Inl e \<Rightarrow> Ret (fa, refuse SERVICE_UNAVAILABLE nd)
          | Inr (fee_payment, spent, change_index) \<Rightarrow>
              let op = sponsored_op req fee_payment;
                  (added, mp) = add_name_op cr op (nd_mempool nd);
                  nd = nd\<lparr>nd_mempool := mp\<rparr>
              in if \<not> added then Ret (revert_fee_payment spent change_index fa, refuse BAD_REQUEST nd)
                 else Ret (fa, nd, [Broadcast (NewNameOp op)], Json ())))"


section \<open>Payouts\<close>

text \<open>\<open>parse_ip\<close> is \<open>IpAddr\<close>'s \<open>from_str\<close>, \<open>remote\<close> the address of the socket.\<close>

definition client_ip :: "(string \<Rightarrow> 'ip option) \<Rightarrow> string option \<Rightarrow> 'ip option \<Rightarrow> 'ip option" where
  "client_ip parse_ip forwarded_for remote =
     (case forwarded_for of
        None \<Rightarrow> remote
      | Some header \<Rightarrow>
          (case parse_ip (trim (takeWhile (\<lambda>c. c \<noteq> CHR '','') header)) of Some ip \<Rightarrow> Some ip | None \<Rightarrow> remote))"

text \<open>The clock is read once per request; the reply carries the slate that the source serialises.\<close>

definition handle_faucet_request ::
    "('p::ab_group_add, 's::comm_ring_1) crypto \<Rightarrow> string option \<Rightarrow> (('p, 's) transaction \<Rightarrow> u64 option) \<Rightarrow>
       (nat \<Rightarrow> 's slate_random) \<Rightarrow> (string \<Rightarrow> 'ip option) \<Rightarrow> instant \<Rightarrow> u64 \<Rightarrow> string option \<Rightarrow> 'ip option \<Rightarrow>
       ('p, 's) chain_state \<Rightarrow> ('p, 's, 'ip) faucet_state \<Rightarrow>
       (('p, 's, 'ip) faucet_state \<times> ('p, 's) slate reply) outcome" where
  "handle_faucet_request cr treasury_var size_of rnd parse_ip now amount forwarded_for remote_addr st fa =
     (if \<not> fa_enabled fa then Ret (fa, error_reply SERVICE_UNAVAILABLE)
      else if amount = 0 \<or> MAX_FAUCET_AMOUNT < amount then Ret (fa, error_reply BAD_REQUEST)
      else case client_ip parse_ip forwarded_for remote_addr of
        None \<Rightarrow> Ret (fa, error_reply BAD_REQUEST)
      | Some ip \<Rightarrow>
          let (allowed, limits) = check_rate_limit now ip (fa_rate_limits fa);
              fa = fa\<lparr>fa_rate_limits := limits\<rparr>
          in if \<not> allowed then Ret (fa, error_reply TOO_MANY_REQUESTS)
             else let fa = faucet_reconcile st fa in
               if (case fa_pending fa of None \<Rightarrow> False
                   | Some (_, created_at) \<Rightarrow> duration_since now created_at < PENDING_TIMEOUT)
               then Ret (fa, error_reply CONFLICT)
               else bind_outcome (create_slate cr treasury_var size_of rnd (fa_store fa) amount MIN_FEE (fa_keystore fa))
                 (\<lambda>(ks, r). case r of
                    Inr (built_slate, pending) \<Rightarrow>
                      Ret (fa\<lparr>fa_keystore := ks, fa_pending := Some (pending, now)\<rparr>, Json built_slate)
                  | Inl e \<Rightarrow> Ret (fa\<lparr>fa_keystore := ks\<rparr>, error_reply SERVICE_UNAVAILABLE)))"

definition handle_faucet_complete ::
    "('p::ab_group_add, 's::comm_ring_1) crypto \<Rightarrow> (('p, 's) transaction \<Rightarrow> u64 option) \<Rightarrow> (string \<Rightarrow> ('p, 's) slate option) \<Rightarrow>
       string \<Rightarrow> ('p, 's, 'ip) faucet_state \<Rightarrow> ('p, 's) mempool \<Rightarrow>
       ('p, 's, 'ip) faucet_state \<times> ('p, 's) mempool \<times> unit reply" where
  "handle_faucet_complete cr size_of parse_slate response_slate_json fa mp =
     (case fa_pending fa of
        None \<Rightarrow> (fa, mp, error_reply BAD_REQUEST)
      | Some (pending, _) \<Rightarrow>
          let fa = fa\<lparr>fa_pending := None\<rparr> in
          (case parse_slate response_slate_json of
             None \<Rightarrow> (fa, mp, error_reply BAD_REQUEST)
           | Some response \<Rightarrow>
               (case finalize_slate cr pending response of
                  Inl e \<Rightarrow> (fa, mp, error_reply BAD_REQUEST)
                | Inr transaction \<Rightarrow>
                    if \<not> validate cr transaction then (fa, mp, error_reply BAD_REQUEST)
                    else let (added, mp) = add_transaction cr size_of transaction mp
                         in if \<not> added then (fa, mp, error_reply BAD_REQUEST)
                            else let store = fold mark_spent (ps_spent_commitments pending) (fa_store fa);
                                     store = (case ps_change pending of None \<Rightarrow> store
                                       | Some change \<Rightarrow> add_output (ci_index change) (ci_value change)
                                           (out_commitment (ci_output change)) Pending store)
                                 in (fa\<lparr>fa_store := store\<rparr>, mp, Json ()))))"


section \<open>Start-up\<close>

text \<open>The outputs the chain holds for the start-up scan.\<close>

definition chain_outputs :: "('p, 's) chain_state \<Rightarrow> 'p tx_output list" where
  "chain_outputs st = (case get_blocks_from st 0 (2 ^ 64 - 1) of None \<Rightarrow> [] | Some (blocks, _) \<Rightarrow> concat (map explorer_outputs blocks))"

lemma opens_reconciled: "opens_output cr treasury_var ks (reconcile_output U o') = opens_output cr treasury_var ks o'"
  by (cases "oo_status o'") (simp_all add: reconcile_output_def opens_output_def split: outcome.split)

lemma reconcile_opens: "wallet_opens cr treasury_var ks (reconcile chain_utxos store) = wallet_opens cr treasury_var ks store"
  by (simp add: wallet_opens_def reconcile_def list_all_iff opens_reconciled)

lemma fold_add_outputs:
  "fold (\<lambda>out. add_output (oo_index out) (oo_value out) (oo_commitment out) Confirmed) os store =
     store @ map (\<lambda>out. out\<lparr>oo_status := Confirmed\<rparr>) os"
  by (induction os arbitrary: store) (simp_all add: add_output_def)

lemma faucet_new_enabled:
  assumes "compress_laws cr" and "faucet_new cr treasury_var seed st = Some (Ret fa)" and "fa_enabled fa"
  obtains secret ks where "treasury_blinding_from_env cr treasury_var = Ret (Some secret)"
    "ks = keystore_from_seed (faucet_keystore_seed cr secret)" "ks_seed (fa_keystore fa) = ks_seed ks"
    "set (fa_store fa) = reconcile_output (cs_utxos st) ` insert
       \<lparr>oo_index = FAUCET_INDEX, oo_value = TREASURY_ALLOCATION, oo_commitment = commitment_new cr TREASURY_ALLOCATION secret,
        oo_status = Confirmed\<rparr>
       (recovered_output cr ks ` set (List.map_filter (recognise cr ks)
          (filter (\<lambda>out. out_commitment out \<in> cs_utxos st) (filter (\<lambda>out. out_note out \<noteq> []) (chain_outputs st)))))"
proof -
  from assms(2) obtain secret where secret: "treasury_blinding_from_env cr treasury_var = Ret (Some secret)"
    using assms(3) by (auto simp: faucet_new_def bind_run_def faucet_state_of_def split: outcome.splits option.splits)
  let ?ks = "keystore_from_seed (faucet_keystore_seed cr secret)"
  obtain r where r: "recover_faucet_change cr st (?ks, add_output FAUCET_INDEX TREASURY_ALLOCATION
      (commitment_new cr TREASURY_ALLOCATION secret) Confirmed []) = Some (Ret r)"
      and fa: "fa = faucet_state_of (fst r) (reconcile (cs_utxos st) (snd r)) True"
    using assms(2,3) by (auto simp: faucet_new_def secret bind_run_def faucet_state_of_def Let_def
        split: outcome.splits option.splits if_splits prod.splits)
  from r obtain blocks more where blocks: "get_blocks_from st 0 (2 ^ 64 - 1) = Some (blocks, more)"
    by (auto simp: recover_faucet_change_def guard_simps)
  let ?outs = "filter (\<lambda>out. out_note out \<noteq> []) (chain_outputs st)"
  let ?found = "List.map_filter (recognise cr ?ks) ?outs"
    and ?kept = "List.map_filter (recognise cr ?ks) (filter (\<lambda>out. out_commitment out \<in> cs_utxos st) ?outs)"
  have outs: "filter (\<lambda>out. out_note out \<noteq> []) (concat (map explorer_outputs blocks)) = ?outs"
    unfolding chain_outputs_def blocks by simp
  have snd_r: "snd r = \<lparr>oo_index = FAUCET_INDEX, oo_value = TREASURY_ALLOCATION,
        oo_commitment = commitment_new cr TREASURY_ALLOCATION secret, oo_status = Confirmed\<rparr> #
      map (\<lambda>out. out\<lparr>oo_status := Confirmed\<rparr>) (spendable (map (recovered_output cr ?ks) ?kept))"
    and fst_r: "fst r = (case max_index ?found None of None \<Rightarrow> ?ks | Some m \<Rightarrow> ensure_next_index_at_least (m + 1) ?ks)"
    using r unfolding recover_faucet_change_def prod.case blocks bind.bind_lunit outs
      recover_from_chain_eq [OF assms(1)] Let_def
    by (auto simp: fold_add_outputs add_output_def)
  have "map (\<lambda>out. out\<lparr>oo_status := Confirmed\<rparr>) (spendable (map (recovered_output cr ?ks) ?kept)) = spendable (map (recovered_output cr ?ks) ?kept)"
    by (intro map_idI) (auto simp: spendable_def)
  moreover have "set (spendable (map (recovered_output cr ?ks) ?kept)) = recovered_output cr ?ks ` set ?kept"
    by (auto simp: spendable_def recovered_output_def)
  ultimately have "set (snd r) = insert \<lparr>oo_index = FAUCET_INDEX, oo_value = TREASURY_ALLOCATION,
        oo_commitment = commitment_new cr TREASURY_ALLOCATION secret, oo_status = Confirmed\<rparr> (recovered_output cr ?ks ` set ?kept)"
    unfolding snd_r by simp
  moreover have "ks_seed (fst r) = ks_seed ?ks"
    by (simp add: fst_r ensure_next_index_at_least_def split: option.split)
  ultimately show thesis
    by (intro that [OF secret refl]) (simp_all only: fa faucet_state_of_def faucet_state.select_convs reconcile_def set_map)
qed


text \<open>A restarted faucet finds its change again: it can open every output it lists, and every unspent output that it sealed in
  an earlier life is listed as confirmed, provided no such note carries one of the two reserved indices.\<close>

lemma faucet_restart_recovers:
  assumes laws: "compress_laws cr" "aead_laws cr"
    and new: "faucet_new cr treasury_var seed st = Some (Ret fa)" "fa_enabled fa"
    and fresh: "\<forall>out \<in> set (chain_outputs st). \<forall>idx v. open_note cr (note_key cr (fa_keystore fa)) (out_note out) = Some (idx, v) \<longrightarrow>
      idx \<noteq> GENESIS_INDEX \<and> idx \<noteq> FAUCET_INDEX"
  shows "wallet_opens cr treasury_var (fa_keystore fa) (fa_store fa)"
    and "length nonce = 12 \<Longrightarrow> own_output cr (fa_keystore fa) nonce idx v \<in> set (chain_outputs st) \<Longrightarrow>
      commitment_new cr v (derive_blinding cr (fa_keystore fa) idx) \<in> cs_utxos st \<Longrightarrow>
      recovered_output cr (fa_keystore fa) (idx, v) \<in> set (fa_store fa)"
proof -
  obtain secret ks where secret: "treasury_blinding_from_env cr treasury_var = Ret (Some secret)"
      and ks: "ks = keystore_from_seed (faucet_keystore_seed cr secret)" "ks_seed (fa_keystore fa) = ks_seed ks"
      and store: "set (fa_store fa) = reconcile_output (cs_utxos st) ` insert
       \<lparr>oo_index = FAUCET_INDEX, oo_value = TREASURY_ALLOCATION, oo_commitment = commitment_new cr TREASURY_ALLOCATION secret,
        oo_status = Confirmed\<rparr>
       (recovered_output cr ks ` set (List.map_filter (recognise cr ks)
          (filter (\<lambda>out. out_commitment out \<in> cs_utxos st) (filter (\<lambda>out. out_note out \<noteq> []) (chain_outputs st)))))"
    by (rule faucet_new_enabled [OF laws(1) new])
  note seed = keystore_seed_only [OF ks(2)]
  have "opens_output cr treasury_var ks (recovered_output cr ks (idx, v))"
    if "recognise cr ks out = Some (idx, v)" "out \<in> set (chain_outputs st)" for out idx v
    using that fresh by (auto simp: recognise_Some seed opens_output_def recovered_output_def blinding_for_def)
  moreover have "FAUCET_INDEX \<noteq> GENESIS_INDEX" by (simp add: FAUCET_INDEX_def GENESIS_INDEX_def)
  then have "opens_output cr treasury_var ks \<lparr>oo_index = FAUCET_INDEX, oo_value = TREASURY_ALLOCATION,
      oo_commitment = commitment_new cr TREASURY_ALLOCATION secret, oo_status = Confirmed\<rparr>"
    by (simp add: opens_output_def blinding_for_def secret)
  ultimately show "wallet_opens cr treasury_var (fa_keystore fa) (fa_store fa)"
    unfolding seed(4) unfolding wallet_opens_def list_all_iff store by (auto simp: opens_reconciled set_map_filter_Some)
  assume nonce: "length nonce = 12" and out: "own_output cr (fa_keystore fa) nonce idx v \<in> set (chain_outputs st)"
    and unspent: "commitment_new cr v (derive_blinding cr (fa_keystore fa) idx) \<in> cs_utxos st"
  have "own_output cr ks nonce idx v \<in> set (chain_outputs st)" using out by (simp add: own_output_def seed)
  moreover have "out_note (own_output cr ks nonce idx v) \<noteq> []" using nonce by (auto simp: seal_def)
  moreover have "reconcile_output (cs_utxos st) (recovered_output cr ks (idx, v)) = recovered_output cr ks (idx, v)"
    using unspent by (simp add: reconcile_output_def recovered_output_def seed)
  ultimately show "recovered_output cr (fa_keystore fa) (idx, v) \<in> set (fa_store fa)"
    using recognise_own [OF laws(2) nonce, of ks idx v] unspent
    unfolding store by (force simp: set_map_filter_Some recovered_output_def seed image_iff)
qed


section \<open>Undoing a fee payment\<close>

lemma update_first_distinct:
  assumes "distinct (map key xs)"
  shows "update_first (\<lambda>x. key x = c \<and> Q x) f xs = map (\<lambda>x. if key x = c \<and> Q x then f x else x) xs"
  using assms
proof (induction xs)
  case (Cons x xs)
  have "key y \<noteq> c" if "key x = c" "y \<in> set xs" for y
    using Cons.prems that by (metis distinct.simps(2) image_eqI list.set_map list.simps(9))
  then have "map (\<lambda>y. if key y = c \<and> Q y then f y else y) xs = xs" if "key x = c"
    using that by (intro map_idI) simp
  with Cons show ?case by auto
qed simp

lemma status_only [simp]:
  "map planned (mark_spent c store) = map planned store"
  "map planned (unmark_spent c store) = map planned store"
  "map oo_commitment (mark_spent c store) = map oo_commitment store"
  "map oo_commitment (unmark_spent c store) = map oo_commitment store"
  by (induction store) (auto simp: mark_spent_def unmark_spent_def planned_def)

lemma mark_all_status_only [simp]:
  "map planned (fold mark_spent cs store) = map planned store"
  "map oo_commitment (fold mark_spent cs store) = map oo_commitment store"
  by (induction cs arbitrary: store) simp_all

lemma mark_spent_distinct:
  "distinct (map oo_commitment store) \<Longrightarrow>
     mark_spent c store = map (\<lambda>o'. if oo_commitment o' = c then o'\<lparr>oo_status := Spent\<rparr> else o') store"
  using update_first_distinct [of oo_commitment store c "\<lambda>_. True"] by (simp add: mark_spent_def)

lemma unmark_spent_distinct:
  "distinct (map oo_commitment store) \<Longrightarrow>
     unmark_spent c store =
       map (\<lambda>o'. if oo_commitment o' = c \<and> oo_status o' = Spent then o'\<lparr>oo_status := Confirmed\<rparr> else o') store"
  using update_first_distinct [of oo_commitment store c "\<lambda>o'. oo_status o' = Spent"] by (simp add: unmark_spent_def)

lemma mark_all_spent:
  assumes "distinct (map oo_commitment store)"
  shows "fold mark_spent cs store = map (\<lambda>o'. if oo_commitment o' \<in> set cs then o'\<lparr>oo_status := Spent\<rparr> else o') store"
  using assms
proof (induction cs arbitrary: store)
  case (Cons c cs)
  from Cons.prems have "distinct (map oo_commitment (mark_spent c store))" by simp
  from Cons.IH [OF this] Cons.prems show ?case by (simp add: mark_spent_distinct comp_def)
qed simp

lemma unmark_all_spent:
  assumes "distinct (map oo_commitment store)"
  shows "fold unmark_spent cs store =
    map (\<lambda>o'. if oo_commitment o' \<in> set cs \<and> oo_status o' = Spent then o'\<lparr>oo_status := Confirmed\<rparr> else o') store"
  using assms
proof (induction cs arbitrary: store)
  case (Cons c cs)
  from Cons.prems have "distinct (map oo_commitment (unmark_spent c store))" by simp
  from Cons.IH [OF this] Cons.prems show ?case by (simp add: unmark_spent_distinct comp_def)
qed simp

lemma confirmed_selects:
  assumes "select_spendable_confirmed_only store target = Inr selected"
  obtains os where "selected = map planned os" "mset os \<subseteq># mset store" "\<forall>o' \<in> set os. oo_status o' = Confirmed"
    "target \<le> sum_list (map planned_value selected)"
proof -
  let ?sorted = "spendable store"
  obtain total where loop: "select_loop target ?sorted 0 = (selected, total)" and total: "target \<le> total"
    using assms by (auto simp: select_spendable_confirmed_only_def select_from_def split: prod.splits if_splits)
  from select_loop_prefix [OF loop] obtain n where n: "selected = map planned (take n ?sorted)"
      "total = sum_list (map planned_value selected)" by auto
  have "mset ?sorted \<subseteq># mset store" by (simp add: spendable_def multiset_filter_subset)
  then have "mset (take n ?sorted) \<subseteq># mset store"
    by (metis append_take_drop_id mset_append mset_subset_eq_add_left subset_mset.order_trans)
  moreover have "\<forall>o' \<in> set (take n ?sorted). oo_status o' = Confirmed"
    by (auto simp: spendable_def dest!: in_set_takeD)
  ultimately show thesis using that n total by metis
qed

text \<open>The two outcomes of a fee payment, with and without change, as one shape.\<close>

definition fee_change ::
    "('p::ab_group_add, 's::comm_ring_1) crypto \<Rightarrow> 's fee_random \<Rightarrow> keystore \<Rightarrow> u64 \<Rightarrow> 'p tx_output list" where
  "fee_change cr rnd ks v = (if 0 < v then [own_output cr ks (fr_change_nonce rnd) (ks_next_index ks) v] else [])"

definition owned_change :: "keystore \<Rightarrow> u64 \<Rightarrow> 'p tx_output \<Rightarrow> 'p owned_output" where
  "owned_change ks v out =
     \<lparr>oo_index = ks_next_index ks, oo_value = v, oo_commitment = out_commitment out, oo_status = Pending\<rparr>"

lemma own_output_index: "own_output cr (ks\<lparr>ks_next_index := n\<rparr>) nonce idx v = own_output cr ks nonce idx v"
  by (simp add: own_output_def)

lemma fee_payment_shape:
  assumes "build_sponsored_fee_payment cr treasury_var rnd paid fa = Ret (fa', Inr (tx, spent, change_index))"
  obtains selected blindings v where
    "select_spendable_confirmed_only (fa_store fa) paid = Inr selected"
    "input_blindings cr treasury_var (fa_keystore fa) selected = Ret blindings"
    "v = sum_list (map planned_value selected) - paid"
    "spent = map planned_commitment selected"
    "change_index = (if 0 < v then Some (ks_next_index (fa_keystore fa)) else None)"
    "fa' = fa\<lparr>fa_keystore := fa_keystore fa', fa_store := fold mark_spent spent
       (fa_store fa @ map (owned_change (fa_keystore fa) v) (fee_change cr rnd (fa_keystore fa) v))\<rparr>"
    "ks_seed (fa_keystore fa') = ks_seed (fa_keystore fa)"
    "tx = (let r = sum_list blindings - (if 0 < v then derive_blinding cr (fa_keystore fa) (ks_next_index (fa_keystore fa)) else 0)
       in \<lparr>tx_inputs = map (\<lambda>c. \<lparr>in_commitment = c\<rparr>) spent, tx_outputs = fee_change cr rnd (fa_keystore fa) v,
           tx_kernels = [\<lparr>excess = commitment_new cr 0 r, fee = paid, kernel_sig = sign cr (fr_sign_nonce rnd) (u64_le paid) r\<rparr>]\<rparr>)"
proof -
  obtain selected where sel: "select_spendable_confirmed_only (fa_store fa) paid = Inr selected"
    using assms by (auto simp: build_sponsored_fee_payment_def split: sum.splits)
  then obtain blindings where bs: "input_blindings cr treasury_var (fa_keystore fa) selected = Ret blindings"
    using assms by (auto simp: build_sponsored_fee_payment_def Let_def guard_simps)
  show thesis
    using assms
    by (intro that [OF sel bs refl])
      (auto simp: build_sponsored_fee_payment_def sel bs allocate_index_def fee_change_def owned_change_def
        add_output_def own_output_index Let_def split: if_splits)
qed

text \<open>Undoing a sponsored fee payment restores the faucet's ledger: when no two of its outputs share a commitment and
  the next index is unused, building a fee payment and reverting it leaves every output as it was.\<close>

theorem revert_restores_store:
  assumes build: "build_sponsored_fee_payment cr treasury_var rnd paid fa = Ret (fa', Inr (tx, spent, change_index))"
    and dist: "distinct (map oo_commitment (fa_store fa))"
    and unused: "\<forall>o' \<in> set (fa_store fa). oo_index o' \<noteq> ks_next_index (fa_keystore fa) \<and>
      oo_commitment o' \<notin> out_commitment ` set (tx_outputs tx)"
  shows "fa_store (revert_fee_payment spent change_index fa') = fa_store fa"
proof -
  let ?ks = "fa_keystore fa" and ?store = "fa_store fa"
  obtain selected blindings v where sel: "select_spendable_confirmed_only ?store paid = Inr selected"
      and spent: "spent = map planned_commitment selected"
      and ci: "change_index = (if 0 < v then Some (ks_next_index ?ks) else None)"
      and fa': "fa_store fa' = fold mark_spent spent (?store @ map (owned_change ?ks v) (fee_change cr rnd ?ks v))"
      and tx: "tx_outputs tx = fee_change cr rnd ?ks v"
    by (rule fee_payment_shape [OF build]) (metis (no_types, lifting) faucet_state.select_convs(2) faucet_state.surjective
        faucet_state.update_convs(1,2) transaction.select_convs(2) Let_def)
  obtain os where os: "selected = map planned os" "mset os \<subseteq># mset ?store" "\<forall>o' \<in> set os. oo_status o' = Confirmed"
    by (rule confirmed_selects [OF sel]) blast
  have sub: "set os \<subseteq> set ?store" using os(2) by (metis set_mset_mono set_mset_mset)
  have spent_iff: "oo_commitment o' \<in> set spent \<longleftrightarrow> o' \<in> set os" if "o' \<in> set ?store" for o'
    using that sub dist by (auto simp: spent os(1) distinct_map dest: inj_onD)
  let ?change = "map (owned_change ?ks v) (fee_change cr rnd ?ks v)"
  have not_spent: "oo_commitment o' \<notin> set spent" if "o' \<in> set ?change" for o'
  proof -
    from that have "oo_commitment o' \<in> out_commitment ` set (tx_outputs tx)" by (auto simp: tx owned_change_def)
    with unused have "oo_commitment o' \<notin> oo_commitment ` set ?store" by (metis imageE)
    with sub show ?thesis by (auto simp: spent os(1))
  qed
  have d: "distinct (map oo_commitment (?store @ ?change))"
    using dist unused by (auto simp: fee_change_def owned_change_def tx)
  have same: "o'\<lparr>oo_status := Confirmed\<rparr> = o'" if "o' \<in> set (?store @ ?change)" "oo_commitment o' \<in> set spent" for o'
  proof -
    from that not_spent have "o' \<in> set os" using spent_iff by auto
    with os(3) show ?thesis by simp
  qed
  have "fold unmark_spent spent (fa_store fa') = ?store @ ?change"
    unfolding fa' using d
    by (subst unmark_all_spent, simp, subst mark_all_spent, simp, subst map_map, intro map_idI) (auto simp: same)
  moreover have "remove_pending_output (ks_next_index ?ks) ?store = ?store"
    using unused by (auto simp: remove_pending_output_def filter_id_conv)
  ultimately show ?thesis
    by (simp add: revert_fee_payment_def Let_def ci fee_change_def owned_change_def remove_pending_output_def)
qed


section \<open>Sponsored registrations\<close>

text \<open>Reconciled with the chain, what is spendable depends on the listed outputs and the chain only.\<close>

lemma reconciled_spendable:
  "map planned (spendable (reconcile chain_utxos store)) =
     sort_key (\<lambda>p. - uint (planned_value p)) (filter (\<lambda>p. planned_commitment p \<in> chain_utxos) (map planned store))"
proof -
  have "map planned (filter (\<lambda>o'. oo_status o' = Confirmed) (reconcile chain_utxos store)) =
      filter (\<lambda>p. planned_commitment p \<in> chain_utxos) (map planned store)"
    by (induction store) (auto simp: reconcile_def reconcile_output_def planned_def planned_commitment_def split: output_status.splits)
  moreover have "map planned (sort_key (\<lambda>o'. - uint (oo_value o')) os) = sort_key (\<lambda>p. - uint (planned_value p)) (map planned os)" for os :: "'a owned_output list"
  proof -
    have "map planned (insort_key (\<lambda>o'. - uint (oo_value o')) o' xs) = insort_key (\<lambda>p. - uint (planned_value p)) (planned o') (map planned xs)" for o' :: "'a owned_output" and xs
      by (induction xs) auto
    then show ?thesis by (induction os) auto
  qed
  ultimately show ?thesis by (simp add: spendable_def)
qed

lemma select_loop_planned:
  "map planned os = map planned os' \<Longrightarrow> select_loop target os acc = select_loop target os' acc"
proof (induction os arbitrary: os' acc)
  case (Cons o' os)
  then obtain o'' os'' where os': "os' = o'' # os''" "planned o' = planned o''" "map planned os = map planned os''"
    by (cases os') auto
  then have "oo_index o' = oo_index o''" "oo_commitment o' = oo_commitment o''" "oo_value o' = oo_value o''"
    by (simp_all add: planned_def)
  with Cons.IH [OF os'(3)] show ?case by (simp add: os'(1))
qed simp

text \<open>A selection succeeds as soon as the outputs cover the target.\<close>

lemma select_loop_covers:
  assumes "unat acc + store_total os < 2 ^ 64" and "unat target \<le> unat acc + store_total os"
  shows "target \<le> snd (select_loop target os acc)"
  using assms
proof (induction os arbitrary: acc)
  case Nil
  then show ?case by (simp add: store_total_def word_le_nat_alt)
next
  case (Cons o' os)
  then have "unat (acc + oo_value o') = unat acc + unat (oo_value o')"
    by (intro unat_add_lem [THEN iffD1]) (simp add: store_total_def)
  with Cons.prems have "target \<le> snd (select_loop target os (acc + oo_value o'))"
    by (intro Cons.IH) (simp_all add: store_total_def)
  then show ?case by (auto split: prod.splits)
qed

lemma opens_blindings:
  assumes "wallet_opens cr treasury_var ks os"
  shows "\<exists>blindings. input_blindings cr treasury_var ks (map planned os) = Ret blindings"
  using assms unfolding input_blindings_planned
  by (induction os) (auto simp: wallet_opens_def opens_output_def guard_simps split: outcome.splits)

lemma store_total_reconcile: "store_total (reconcile chain_utxos store) = store_total store"
  by (induction store) (auto simp: store_total_def reconcile_def reconcile_output_def split: output_status.splits)


lemma fee_payment_valid:
  fixes cr :: "('p::ab_group_add, 's::comm_ring_1) crypto"
  assumes laws: "module_laws cr" "range_proof_complete cr"
    and wallet: "wallet_opens cr treasury_var (fa_keystore fa) (fa_store fa)" "store_total (fa_store fa) < 2 ^ 64"
    and build: "build_sponsored_fee_payment cr treasury_var rnd paid fa = Ret (fa', Inr (tx, spent, change_index))"
  shows "validate cr tx \<and> map fee (tx_kernels tx) = [paid] \<and>
    map in_commitment (tx_inputs tx) = spent \<and> set spent \<subseteq> {oo_commitment o' |o'. o' \<in> set (fa_store fa) \<and> oo_status o' = Confirmed}"
proof -
  let ?ks = "fa_keystore fa" and ?store = "fa_store fa"
  obtain selected blindings v where sel: "select_spendable_confirmed_only ?store paid = Inr selected"
      and bs: "input_blindings cr treasury_var ?ks selected = Ret blindings"
      and v: "v = sum_list (map planned_value selected) - paid" and spent: "spent = map planned_commitment selected"
      and tx: "tx = (let r = sum_list blindings - (if 0 < v then derive_blinding cr ?ks (ks_next_index ?ks) else 0)
       in \<lparr>tx_inputs = map (\<lambda>c. \<lparr>in_commitment = c\<rparr>) spent, tx_outputs = fee_change cr rnd ?ks v,
           tx_kernels = [\<lparr>excess = commitment_new cr 0 r, fee = paid, kernel_sig = sign cr (fr_sign_nonce rnd) (u64_le paid) r\<rparr>]\<rparr>)"
    by (rule fee_payment_shape [OF build])
  obtain os where os: "selected = map planned os" "mset os \<subseteq># mset ?store" "\<forall>o' \<in> set os. oo_status o' = Confirmed"
      and covers: "paid \<le> sum_list (map planned_value selected)"
    by (rule confirmed_selects [OF sel])
  let ?ovs = "if 0 < v then [(v, derive_blinding cr ?ks (ks_next_index ?ks))] else []"
  have opens: "sum_points (map planned_commitment selected) =
      smul cr (scalar_of_u64 (sum_list (map planned_value selected))) (gen_B cr) + smul cr (sum_list blindings) (gen_B_blinding cr)"
    unfolding os(1) by (rule planned_opens [OF laws(1) wallet os(2) bs [unfolded os(1)]])
  have "v = 0 \<Longrightarrow> scalar_of_u64 (sum_list (map planned_value selected)) = (scalar_of_u64 paid :: 's)" using v by simp
  then have sums: "(\<Sum>(v, r) \<leftarrow> ?ovs. scalar_of_u64 v) + scalar_of_u64 paid = (scalar_of_u64 (sum_list (map planned_value selected)) :: 's)"
    by (auto simp: v scalar_of_u64_diff [OF covers] word_gt_0)
  have r: "sum_list blindings - (if 0 < v then derive_blinding cr ?ks (ks_next_index ?ks) else 0) =
      sum_list blindings - (\<Sum>(v, r) \<leftarrow> ?ovs. r)" by simp
  have "validate cr tx"
    unfolding tx Let_def
    by (rule payment_validates [OF laws(1), where rin = "sum_list blindings" and ovs = ?ovs])
      (auto simp: spent comp_def opens sums [symmetric] fee_change_def range_verify_prove [OF laws(2)] kernel_ok_def
        sign_verify_excess [OF laws(1)])
  moreover have "set os \<subseteq> set ?store" using os(2) by (metis set_mset_mono set_mset_mset)
  ultimately show ?thesis using os(3) by (auto simp: tx Let_def spent os(1) comp_def)
qed


text \<open>The handler on its accepting path.\<close>

lemma sponsored_accepted:
  assumes "handle_sponsored_register_name cr treasury_var rnd req fa nd = Ret (fa', nd', effs, Json ())"
  obtains tx spent change_index where
    "build_sponsored_fee_payment cr treasury_var rnd NAME_REGISTRATION_FEE (faucet_reconcile (nd_chain nd) fa) =
       Ret (fa', Inr (tx, spent, change_index))"
    "nd' = nd\<lparr>nd_mempool := (nd_mempool nd)\<lparr>mp_name_ops := mp_name_ops (nd_mempool nd) @ [sponsored_op req tx]\<rparr>\<rparr>"
    "effs = [Broadcast (NewNameOp (sponsored_op req tx))]"
proof -
  obtain fa1 built where b: "build_sponsored_fee_payment cr treasury_var rnd NAME_REGISTRATION_FEE
      (faucet_reconcile (nd_chain nd) fa) = Ret (fa1, built)"
    using assms by (auto simp: handle_sponsored_register_name_def suggested_name_fee_def Let_def guard_simps split: if_splits)
  then obtain tx spent change_index where built: "built = Inr (tx, spent, change_index)"
    using assms by (cases built) (auto simp: handle_sponsored_register_name_def suggested_name_fee_def Let_def split: if_splits)
  show thesis
    using assms b built
    by (intro that [of tx spent change_index])
      (auto simp: handle_sponsored_register_name_def suggested_name_fee_def add_name_op_def Let_def split: if_splits)
qed

lemma confirmed_covers:
  assumes "store_total store < 2 ^ 64"
    and "unat target \<le> store_total (filter (\<lambda>o'. oo_commitment o' \<in> chain_utxos) store)"
  shows "\<exists>selected. select_spendable_confirmed_only (reconcile chain_utxos store) target = Inr selected"
proof -
  let ?os = "spendable (reconcile chain_utxos store)"
  have total: "store_total os = sum_list (map (unat \<circ> planned_value) (map planned os))" for os :: "'a owned_output list"
    by (simp add: store_total_def comp_def)
  have "mset (map planned ?os) = mset (map planned (filter (\<lambda>o'. oo_commitment o' \<in> chain_utxos) store))"
    unfolding reconciled_spendable by (simp add: filter_map comp_def)
  then have eq: "store_total ?os = store_total (filter (\<lambda>o'. oo_commitment o' \<in> chain_utxos) store)"
    unfolding total sum_mset_sum_list [symmetric] mset_map [of "unat \<circ> planned_value"] by simp
  also have "\<dots> \<le> store_total store" by (rule store_total_subset) (simp add: multiset_filter_subset)
  finally have "target \<le> snd (select_loop target ?os 0)"
    using assms eq by (intro select_loop_covers) simp_all
  then show ?thesis by (auto simp: select_spendable_confirmed_only_def select_from_def not_less split: prod.splits)
qed

lemma build_sponsored_succeeds:
  assumes wallet: "wallet_opens cr treasury_var (fa_keystore fa) (fa_store fa)"
    and sel: "select_spendable_confirmed_only (fa_store fa) paid = Inr selected"
  shows "\<exists>fa' built. build_sponsored_fee_payment cr treasury_var rnd paid fa = Ret (fa', Inr built)"
proof -
  obtain os where os: "selected = map planned os" "mset os \<subseteq># mset (fa_store fa)"
    by (rule confirmed_selects [OF sel]) blast
  have "wallet_opens cr treasury_var (fa_keystore fa) os"
    using wallet os(2) by (auto simp: wallet_opens_def list_all_iff dest: mset_subset_eqD simp flip: set_mset_mset)
  from opens_blindings [OF this] show ?thesis
    by (auto simp: build_sponsored_fee_payment_def sel os(1) Let_def split: prod.splits)
qed

text \<open>C32. A wallet without funds gets its name: when the faucet can open the outputs it lists and those of them that are
  on the chain cover the registration fee, a request for a well-formed name that is neither registered nor pending,
  signed by its owner, is queued and broadcast as a registration with that owner and target; its fee is paid in
  full, and only by confirmed outputs of the faucet.\<close>

theorem sponsored_registration_queued:
  assumes laws: "module_laws cr" "range_proof_complete cr"
    and wallet: "wallet_opens cr treasury_var (fa_keystore fa) (fa_store fa)" "store_total (fa_store fa) < 2 ^ 64"
    and funds: "unat NAME_REGISTRATION_FEE \<le>
      store_total (filter (\<lambda>o'. oo_commitment o' \<in> cs_utxos (nd_chain nd)) (fa_store fa))"
    and name: "validate_name (rq_name req) = Inr ()"
      "verify cr (rq_signature req) (register_name_message (rq_name req)) (rq_owner_pubkey req)"
      "rq_name req \<notin> Mapping.keys (cs_name_registry (nd_chain nd))"
    and pool: "rq_name req \<notin> rn_name ` set (mp_name_ops (nd_mempool nd))"
      "length (mp_name_ops (nd_mempool nd)) < MAX_PENDING_NAME_OPS"
  shows "\<exists>fa' nd' op. handle_sponsored_register_name cr treasury_var rnd req fa nd =
      Ret (fa', nd', [Broadcast (NewNameOp op)], Json ()) \<and>
    nd' = nd\<lparr>nd_mempool := (nd_mempool nd)\<lparr>mp_name_ops := mp_name_ops (nd_mempool nd) @ [op]\<rparr>\<rparr> \<and>
    rn_name op = rq_name req \<and> rn_owner_pubkey op = rq_owner_pubkey req \<and> rn_resolves_to op = rq_resolves_to req \<and>
    register_name_validate_standalone cr op = Inr () \<and> tx_fee (rn_fee_payment op) = NAME_REGISTRATION_FEE \<and>
    in_commitment ` set (tx_inputs (rn_fee_payment op)) \<subseteq> oo_commitment ` set (fa_store fa) \<inter> cs_utxos (nd_chain nd)"
proof -
  let ?fa = "faucet_reconcile (nd_chain nd) fa" and ?U = "cs_utxos (nd_chain nd)"
  have store: "fa_keystore ?fa = fa_keystore fa" "fa_store ?fa = reconcile ?U (fa_store fa)"
    by (simp_all add: faucet_reconcile_def)
  have wallet': "wallet_opens cr treasury_var (fa_keystore ?fa) (fa_store ?fa)" "store_total (fa_store ?fa) < 2 ^ 64"
    using wallet by (simp_all add: store reconcile_opens store_total_reconcile)
  obtain selected where "select_spendable_confirmed_only (fa_store ?fa) NAME_REGISTRATION_FEE = Inr selected"
    using confirmed_covers [OF wallet(2) funds] store(2) by auto
  from build_sponsored_succeeds [OF wallet'(1) this, of rnd] obtain fa' tx spent change_index where
      b: "build_sponsored_fee_payment cr treasury_var rnd NAME_REGISTRATION_FEE ?fa = Ret (fa', Inr (tx, spent, change_index))"
    by (metis prod_cases3)
  note paid = fee_payment_valid [OF laws wallet' b]
  have std: "register_name_validate_standalone cr (sponsored_op req tx) = Inr ()"
    using paid name by (auto simp: register_name_validate_standalone_def sponsored_op_def fee_payment_ok_def map_eq_Cons_conv)
  have confirmed: "oo_commitment o' \<in> oo_commitment ` set (fa_store fa) \<inter> ?U"
    if "o' \<in> set (reconcile ?U (fa_store fa))" "oo_status o' = Confirmed" for o'
    using that by (auto simp: reconcile_def reconcile_output_def split: output_status.splits if_splits)
  from paid have "set (map in_commitment (tx_inputs tx)) \<subseteq> oo_commitment ` set (fa_store fa) \<inter> ?U"
    unfolding store(2) using confirmed by blast
  moreover have "add_name_op cr (sponsored_op req tx) (nd_mempool nd) =
      (True, (nd_mempool nd)\<lparr>mp_name_ops := mp_name_ops (nd_mempool nd) @ [sponsored_op req tx]\<rparr>)"
    using std pool by (auto simp: add_name_op_def list_ex_iff sponsored_op_def) (metis image_eqI)
  moreover have "tx_fee tx = NAME_REGISTRATION_FEE" using paid by (auto simp: tx_fee_def)
  ultimately show ?thesis
    using name b std
    by (intro exI [of _ fa'] exI [of _ "nd\<lparr>nd_mempool := (nd_mempool nd)\<lparr>mp_name_ops := mp_name_ops (nd_mempool nd) @ [sponsored_op req tx]\<rparr>\<rparr>"]
        exI [of _ "sponsored_op req tx"])
      (auto simp: handle_sponsored_register_name_def suggested_name_fee_def contains_key_keys sponsored_op_def Let_def)
qed


text \<open>Sponsored registrations between two blocks compete for one output: the reconciliation at the start of the
  second request undoes the marking of the first, so both registrations are queued and broadcast with fee
  payments that spend the same outputs, and at most one of them can ever be confirmed.\<close>

theorem sponsorships_collide:
  assumes first: "handle_sponsored_register_name cr treasury_var rnd1 req1 fa nd =
      Ret (fa1, nd1, [Broadcast (NewNameOp op1)], Json ())"
    and second: "handle_sponsored_register_name cr treasury_var rnd2 req2 fa1 nd1 = Ret (fa2, nd2, effs2, Json ())"
    and new: "\<forall>out \<in> set (tx_outputs (rn_fee_payment op1)). out_commitment out \<notin> cs_utxos (nd_chain nd)"
  shows "\<exists>op2. effs2 = [Broadcast (NewNameOp op2)] \<and>
    mp_name_ops (nd_mempool nd2) = mp_name_ops (nd_mempool nd) @ [op1, op2] \<and>
    tx_inputs (rn_fee_payment op1) = tx_inputs (rn_fee_payment op2) \<and> tx_inputs (rn_fee_payment op1) \<noteq> []"
proof -
  let ?U = "cs_utxos (nd_chain nd)" and ?fa = "faucet_reconcile (nd_chain nd) fa"
  obtain tx1 spent1 ci1 where b1: "build_sponsored_fee_payment cr treasury_var rnd1 NAME_REGISTRATION_FEE ?fa =
        Ret (fa1, Inr (tx1, spent1, ci1))"
      and nd1: "nd1 = nd\<lparr>nd_mempool := (nd_mempool nd)\<lparr>mp_name_ops := mp_name_ops (nd_mempool nd) @ [sponsored_op req1 tx1]\<rparr>\<rparr>"
      and op1: "op1 = sponsored_op req1 tx1"
    by (rule sponsored_accepted [OF first]) simp
  obtain tx2 spent2 ci2 where b2: "build_sponsored_fee_payment cr treasury_var rnd2 NAME_REGISTRATION_FEE
        (faucet_reconcile (nd_chain nd1) fa1) = Ret (fa2, Inr (tx2, spent2, ci2))"
      and nd2: "nd2 = nd1\<lparr>nd_mempool := (nd_mempool nd1)\<lparr>mp_name_ops := mp_name_ops (nd_mempool nd1) @ [sponsored_op req2 tx2]\<rparr>\<rparr>"
      and effs2: "effs2 = [Broadcast (NewNameOp (sponsored_op req2 tx2))]"
    by (rule sponsored_accepted [OF second])
  obtain sel1 v where s1: "select_spendable_confirmed_only (fa_store ?fa) NAME_REGISTRATION_FEE = Inr sel1"
      and fa1: "fa1 = ?fa\<lparr>fa_keystore := fa_keystore fa1, fa_store := fold mark_spent spent1
        (fa_store ?fa @ map (owned_change (fa_keystore ?fa) v) (fee_change cr rnd1 (fa_keystore ?fa) v))\<rparr>"
      and t1: "tx_inputs tx1 = map (\<lambda>c. \<lparr>in_commitment = c\<rparr>) (map planned_commitment sel1)"
        "tx_outputs tx1 = fee_change cr rnd1 (fa_keystore ?fa) v"
    by (rule fee_payment_shape [OF b1]) (simp add: Let_def)
  obtain sel2 where s2: "select_spendable_confirmed_only (reconcile ?U (fa_store fa1)) NAME_REGISTRATION_FEE = Inr sel2"
      and t2: "tx_inputs tx2 = map (\<lambda>c. \<lparr>in_commitment = c\<rparr>) (map planned_commitment sel2)"
    by (rule fee_payment_shape [OF b2]) (simp add: Let_def nd1 faucet_reconcile_def)
  have "map planned (fa_store fa1) = map planned (fa_store ?fa) @
      map (planned \<circ> owned_change (fa_keystore fa) v) (fee_change cr rnd1 (fa_keystore fa) v)"
    by (subst fa1) (simp add: faucet_reconcile_def)
  moreover have "filter (\<lambda>p. planned_commitment p \<in> ?U)
      (map (planned \<circ> owned_change (fa_keystore fa) v) (fee_change cr rnd1 (fa_keystore fa) v)) = []"
    using new by (auto simp: op1 sponsored_op_def t1(2) faucet_reconcile_def owned_change_def planned_def planned_commitment_def
        filter_empty_conv)
  moreover have "map planned (fa_store ?fa) = map planned (fa_store fa)"
    by (auto simp: faucet_reconcile_def reconcile_def reconcile_output_def planned_def split: output_status.splits)
  ultimately have "map planned (spendable (reconcile ?U (fa_store fa1))) = map planned (spendable (fa_store ?fa))"
    unfolding reconciled_spendable by (simp add: faucet_reconcile_def reconciled_spendable)
  then have "sel1 = sel2"
    using s1 s2 select_loop_planned [of "spendable (reconcile ?U (fa_store fa1))" "spendable (fa_store ?fa)"]
    by (auto simp: select_spendable_confirmed_only_def select_from_def split: prod.splits if_splits)
  moreover have "sel1 \<noteq> []"
    by (rule confirmed_selects [OF s1]) (auto simp: NAME_REGISTRATION_FEE_def)
  ultimately show ?thesis
    by (intro exI [of _ "sponsored_op req2 tx2"]) (simp add: nd2 nd1 op1 effs2 sponsored_op_def t1(1) t2)
qed


section \<open>Payouts\<close>

lemma faucet_request_accepted:
  assumes "handle_faucet_request cr treasury_var size_of rnd parse_ip now amount forwarded_for remote_addr st fa = Ret (fa1, Json sl)"
  obtains ks pending where
    "create_slate cr treasury_var size_of rnd (reconcile (cs_utxos st) (fa_store fa)) amount MIN_FEE (fa_keystore fa) =
       Ret (ks, Inr (sl, pending))"
    "fa_pending fa1 = Some (pending, now)" "fa_store fa1 = reconcile (cs_utxos st) (fa_store fa)"
    "0 < amount" "amount \<le> MAX_FAUCET_AMOUNT"
  using assms
  by (auto simp: handle_faucet_request_def faucet_reconcile_def Let_def guard_simps word_gt_0 not_less
      split: if_splits option.splits prod.splits sum.splits)

text \<open>The faucet pays what was asked for, once: when it can open the outputs it lists, a granted request that the client
  answers as a receiver and completes puts one transaction into the pool, whose last output is the client's, of
  exactly the amount requested (1 to 1000); the request is then closed, and completing it again is refused and
  changes nothing.\<close>

theorem faucet_pays_once:
  assumes laws: "module_laws cr" "range_proof_complete cr" "fixed_sizes cr size_of"
    and wallet: "wallet_opens cr treasury_var (fa_keystore fa) (fa_store fa)" "store_total (fa_store fa) < 2 ^ 64"
    and request: "handle_faucet_request cr treasury_var size_of rnd parse_ip now amount forwarded_for remote_addr st fa =
      Ret (fa1, Json sl)"
    and respond: "respond_to_slate cr seal_nonce k sl kr = (kr', response, info)" "parse_slate json = Some response"
    and nonces: "length seal_nonce = 12" "\<forall>i. length (lr_placeholder_nonce (rnd i)) = 12"
    and small: "unat amount + unat (sl_fee sl) < 2 ^ 64" and room: "length (mp_txs mp) < MAX_PENDING_TXS"
  shows "\<exists>fa2 tx. handle_faucet_complete cr size_of parse_slate json fa1 mp =
      (fa2, mp\<lparr>mp_txs := mp_txs mp @ [tx]\<rparr>, Json ()) \<and>
    out_commitment (last (tx_outputs tx)) = commitment_new cr amount (derive_blinding cr kr (oi_index info)) \<and>
    oi_value info = amount \<and> 1 \<le> unat amount \<and> unat amount \<le> 1000 \<and>
    (\<forall>json' mp'. handle_faucet_complete cr size_of parse_slate json' fa2 mp' = (fa2, mp', error_reply BAD_REQUEST))"
proof -
  obtain ks pending where create: "create_slate cr treasury_var size_of rnd (reconcile (cs_utxos st) (fa_store fa)) amount MIN_FEE
        (fa_keystore fa) = Ret (ks, Inr (sl, pending))"
      and fa1: "fa_pending fa1 = Some (pending, now)" "fa_store fa1 = reconcile (cs_utxos st) (fa_store fa)"
      and amount: "0 < amount" "amount \<le> MAX_FAUCET_AMOUNT"
    by (rule faucet_request_accepted [OF request])
  have w: "wallet_opens cr treasury_var (fa_keystore fa) (reconcile (cs_utxos st) (fa_store fa))"
      "store_total (reconcile (cs_utxos st) (fa_store fa)) < 2 ^ 64"
    using wallet by (simp_all add: reconcile_opens store_total_reconcile)
  obtain tx where tx: "finalize_slate cr pending response = Inr tx"
      "add_transaction cr size_of tx mp = (True, mp\<lparr>mp_txs := mp_txs mp @ [tx]\<rparr>)"
      "oi_value info = amount" "oi_commitment info = commitment_new cr amount (derive_blinding cr kr (oi_index info))"
      "out_commitment (last (tx_outputs tx)) = oi_commitment info"
    using slate_payment [OF laws w create respond(1) nonces small room] by blast
  have "validate cr tx" using tx(2) by (auto simp: add_transaction_def split: if_splits)
  moreover have "1 \<le> unat amount" "unat amount \<le> 1000"
    using amount by (simp_all add: MAX_FAUCET_AMOUNT_def word_le_nat_alt word_less_nat_alt)
  ultimately show ?thesis
    using tx fa1 respond(2) by (auto simp: handle_faucet_complete_def Let_def intro: exI [of _ tx])
qed

text \<open>Completion is not tied to the client that made the request: anything posted to it, even text that is no slate, closes
  the pending request.\<close>

theorem completion_closes_any_request:
  "fa_pending (fst (handle_faucet_complete cr size_of parse_slate json fa mp)) = None"
  by (auto simp: handle_faucet_complete_def Let_def split: option.splits sum.splits prod.splits)

text \<open>The address that the hourly limit counts against is the caller's choice: it is the first entry of a header
  that the caller sends.\<close>

theorem client_ip_spoofed:
  assumes "parse_ip (trim h) = Some ip" and "CHR '','' \<notin> set h"
  shows "client_ip parse_ip (Some (h @ '','' @ rest)) remote = Some ip"
proof -
  have "takeWhile (\<lambda>c. c \<noteq> CHR '','') (h @ '','' @ rest) = h" using assms(2) by (induction h) auto
  with assms(1) show ?thesis by (simp add: client_ip_def)
qed

theorem client_ip_spoofed_witness: "client_ip Some (Some ''1.2.3.4,5.6.7.8'') None = Some ''1.2.3.4''"
  using client_ip_spoofed [of Some "''1.2.3.4''" "''1.2.3.4''" "''5.6.7.8''" None]
  by (simp add: trim_def strip_front.simps white_space_def)


section \<open>A concrete faucet\<close>

definition w_faucet :: "(wpoint, u64, string) faucet_state" where
  "w_faucet = faucet_state_of w_keys w_wallet True"

definition w_funded :: "(wpoint, u64) p2p_server" where
  "w_funded = w_node\<lparr>nd_chain := chain_new\<lparr>cs_utxos := {w_com 50 1, w_com 40 1}\<rparr>\<rparr>"

definition w_request :: "string \<Rightarrow> (wpoint, u64) sponsored_register_request" where
  "w_request name = \<lparr>rq_name = name, rq_owner_pubkey = w_com 0 1, rq_resolves_to = w_com 0 2, rq_signature = w_sig\<rparr>"

definition w_fee_random :: "u64 fee_random" where
  "w_fee_random = \<lparr>fr_change_nonce = replicate 12 1, fr_sign_nonce = 3\<rparr>"

lemma w_bobby [simp]: "validate_name ''bobby'' = Inr ()"
  by code_simp

lemma w_confirmed_select:
  "select_spendable_confirmed_only (reconcile {w_com 50 1, w_com 40 1} w_wallet) 5 = Inr [(0, w_com 50 1, 50)]"
  by (simp add: select_spendable_confirmed_only_def select_from_def spendable_def w_wallet_def reconcile_def reconcile_output_def)

lemma w_confirmed_select_first: "select_spendable_confirmed_only w_wallet 5 = Inr [(0, w_com 50 1, 50)]"
  by (simp add: select_spendable_confirmed_only_def select_from_def spendable_def w_wallet_def)

lemmas w_faucet_eval = w_faucet_def faucet_state_of_def input_blindings_def blinding_for_def GENESIS_INDEX_def FAUCET_INDEX_def
  planned_value_def planned_commitment_def allocate_index_def Let_def

theorem revert_restores_store_witness:
  "\<exists>fa' tx spent change_index.
     build_sponsored_fee_payment w_crypto None w_fee_random 5 w_faucet = Ret (fa', Inr (tx, spent, change_index)) \<and>
     fa_store fa' \<noteq> w_wallet \<and> fa_store (revert_fee_payment spent change_index fa') = w_wallet"
proof -
  obtain fa' tx spent change_index where
      b: "build_sponsored_fee_payment w_crypto None w_fee_random 5 w_faucet = Ret (fa', Inr (tx, spent, change_index))"
      and out: "out_commitment ` set (tx_outputs tx) = {w_com 45 1}" and spent: "fa_store fa' \<noteq> w_wallet"
    by (simp add: build_sponsored_fee_payment_def w_faucet_eval w_confirmed_select_first)
      (simp add: w_wallet_def mark_spent_def add_output_def)
  have "fa_store (revert_fee_payment spent change_index fa') = fa_store w_faucet"
    by (rule revert_restores_store [OF b])
      (simp_all add: out, simp_all add: w_faucet_def faucet_state_of_def w_wallet_def w_keys_def)
  with b spent show ?thesis by (auto simp: w_faucet_def faucet_state_of_def)
qed


lemma w_funds:
  "wallet_opens w_crypto None (fa_keystore w_faucet) (fa_store w_faucet)" "store_total (fa_store w_faucet) < 2 ^ 64"
  "unat NAME_REGISTRATION_FEE \<le> store_total (filter (\<lambda>o'. oo_commitment o' \<in> cs_utxos (nd_chain w_funded)) (fa_store w_faucet))"
  using w_wallet_opens w_wallet_total
  by (simp_all add: w_faucet_def faucet_state_of_def w_funded_def)
    (simp add: w_wallet_def store_total_def NAME_REGISTRATION_FEE_def)

theorem sponsored_registration_queued_witness:
  "\<exists>fa' nd' op. handle_sponsored_register_name w_crypto None w_fee_random (w_request ''alice'') w_faucet w_funded =
      Ret (fa', nd', [Broadcast (NewNameOp op)], Json ()) \<and> rn_name op = ''alice'' \<and> tx_fee (rn_fee_payment op) = 5"
proof -
  have "''alice'' \<notin> Mapping.keys (cs_name_registry (nd_chain w_funded))" "mp_name_ops (nd_mempool w_funded) = []"
    by (simp_all add: w_funded_def w_node_def chain_new_def mempool_new_def)
  with sponsored_registration_queued [OF w_module_laws w_range_proof_complete w_funds, of "w_request ''alice''" w_fee_random]
  show ?thesis by (auto simp: w_request_def MAX_PENDING_NAME_OPS_def MAX_NAME_OPS_PER_BLOCK_def NAME_REGISTRATION_FEE_def)
qed

lemmas w_sponsor_eval = handle_sponsored_register_name_def faucet_reconcile_def suggested_name_fee_def
  build_sponsored_fee_payment_def add_name_op_def register_name_validate_standalone_def fee_payment_ok_def sponsored_op_def
  w_funded_def w_node_def w_request_def chain_new_def mempool_new_def contains_key_def MAX_PENDING_NAME_OPS_def
  MAX_NAME_OPS_PER_BLOCK_def

text \<open>The fee payment the faucet builds first, and the one it builds next.\<close>

definition w_fee_tx :: "u32 \<Rightarrow> (wpoint, u64) transaction" where
  "w_fee_tx idx = \<lparr>tx_inputs = [\<lparr>in_commitment = w_com 50 1\<rparr>],
     tx_outputs = [own_output w_crypto (w_keys\<lparr>ks_next_index := idx + 1\<rparr>) (replicate 12 1) idx 45],
     tx_kernels = [\<lparr>excess = w_com 0 0, fee = 5, kernel_sig = sign w_crypto 3 (u64_le 5) 0\<rparr>]\<rparr>"

definition w_faucet_next :: "(wpoint, u64, string) faucet_state" where
  "w_faucet_next = w_faucet\<lparr>fa_keystore := w_keys\<lparr>ks_next_index := 3\<rparr>,
     fa_store := [\<lparr>oo_index = 0, oo_value = 50, oo_commitment = w_com 50 1, oo_status = Spent\<rparr>,
       \<lparr>oo_index = 1, oo_value = 40, oo_commitment = w_com 40 1, oo_status = Confirmed\<rparr>,
       \<lparr>oo_index = 2, oo_value = 45, oo_commitment = w_com 45 1, oo_status = Pending\<rparr>]\<rparr>"

lemma w_built_first:
  "build_sponsored_fee_payment w_crypto None w_fee_random 5 (faucet_reconcile (nd_chain w_funded) w_faucet) =
     Ret (w_faucet_next, Inr (w_fee_tx 2, [w_com 50 1], Some 2))"
  by (simp add: build_sponsored_fee_payment_def w_faucet_eval w_confirmed_select faucet_reconcile_def w_funded_def w_fee_tx_def
      w_keys_def w_fee_random_def w_faucet_next_def)
    (simp add: w_wallet_def mark_spent_def add_output_def reconcile_def reconcile_output_def)

lemma w_built_next:
  "\<exists>fa2. build_sponsored_fee_payment w_crypto None w_fee_random 5 (faucet_reconcile (nd_chain w_funded) w_faucet_next) =
     Ret (fa2, Inr (w_fee_tx 3, [w_com 50 1], Some 3))"
proof -
  have "select_spendable_confirmed_only (reconcile {w_com 50 1, w_com 40 1} (fa_store w_faucet_next)) 5 = Inr [(0, w_com 50 1, 50)]"
    by (simp add: w_faucet_next_def select_spendable_confirmed_only_def select_from_def spendable_def reconcile_def reconcile_output_def)
  then show ?thesis
    by (simp add: build_sponsored_fee_payment_def w_faucet_eval faucet_reconcile_def w_funded_def w_fee_tx_def w_fee_random_def)
      (simp add: w_faucet_next_def w_keys_def)
qed

lemma w_fee_tx_valid: "validate w_crypto (w_fee_tx idx)"
proof -
  have "scalar_of_u64 45 + scalar_of_u64 5 = (50 :: u64)" by (simp add: scalar_of_u64_def)
  moreover have "WP 50 1 = smul w_crypto 50 (gen_B w_crypto) + smul w_crypto 1 (gen_B_blinding w_crypto)"
    by (simp add: w_crypto_def)
  moreover have "verify w_crypto (sign w_crypto 3 (u64_le 5) 0) (u64_le 5) (w_com 0 0)"
    using sign_verify_excess [OF w_module_laws, of 3 _ 0] by simp
  ultimately show ?thesis
    unfolding w_fee_tx_def
    by (intro payment_validates [OF w_module_laws, where rin = 1 and ovs = "[(45, 1)]"])
      (simp_all add: kernel_ok_def range_verify_prove [OF w_range_proof_complete, of 45 1, simplified])
qed

lemma w_sponsored:
  assumes "validate_name name = Inr ()" "mp_name_ops mp = ops" "length ops < 2" "\<forall>op \<in> set ops. rn_name op \<noteq> name"
    "build_sponsored_fee_payment w_crypto None w_fee_random 5 (faucet_reconcile (nd_chain w_funded) fa) =
       Ret (fa', Inr (w_fee_tx idx, spent, change_index))"
  shows "handle_sponsored_register_name w_crypto None w_fee_random (w_request name) fa (w_funded\<lparr>nd_mempool := mp\<rparr>) =
     Ret (fa', w_funded\<lparr>nd_mempool := mp\<lparr>mp_name_ops := ops @ [sponsored_op (w_request name) (w_fee_tx idx)]\<rparr>\<rparr>,
       [Broadcast (NewNameOp (sponsored_op (w_request name) (w_fee_tx idx)))], Json ())"
  using assms w_fee_tx_valid
  by (simp add: handle_sponsored_register_name_def suggested_name_fee_def NAME_REGISTRATION_FEE_def add_name_op_def list_ex_iff
      register_name_validate_standalone_def fee_payment_ok_def sponsored_op_def w_request_def MAX_PENDING_NAME_OPS_def
      MAX_NAME_OPS_PER_BLOCK_def contains_key_def Let_def)
    (simp add: w_fee_tx_def w_funded_def chain_new_def)

theorem sponsorships_collide_witness:
  "\<exists>fa1 nd1 op1 fa2 nd2 op2.
     handle_sponsored_register_name w_crypto None w_fee_random (w_request ''alice'') w_faucet w_funded =
       Ret (fa1, nd1, [Broadcast (NewNameOp op1)], Json ()) \<and>
     handle_sponsored_register_name w_crypto None w_fee_random (w_request ''bobby'') fa1 nd1 =
       Ret (fa2, nd2, [Broadcast (NewNameOp op2)], Json ()) \<and>
     tx_inputs (rn_fee_payment op1) = tx_inputs (rn_fee_payment op2)"
proof -
  let ?op = "\<lambda>name idx. sponsored_op (w_request name) (w_fee_tx idx)"
  let ?nd = "w_funded\<lparr>nd_mempool := mempool_new\<lparr>mp_name_ops := [?op ''alice'' 2]\<rparr>\<rparr>"
  have mp: "w_funded\<lparr>nd_mempool := mempool_new\<rparr> = w_funded" "mp_name_ops mempool_new = []"
    by (simp_all add: w_funded_def w_node_def mempool_new_def)
  have first: "handle_sponsored_register_name w_crypto None w_fee_random (w_request ''alice'') w_faucet w_funded =
      Ret (w_faucet_next, ?nd, [Broadcast (NewNameOp (?op ''alice'' 2))], Json ())"
    using w_sponsored [OF w_alice mp(2) _ _ w_built_first] by (simp add: mp)
  obtain fa2 where b: "build_sponsored_fee_payment w_crypto None w_fee_random 5 (faucet_reconcile (nd_chain w_funded) w_faucet_next) =
     Ret (fa2, Inr (w_fee_tx 3, [w_com 50 1], Some 3))" using w_built_next by blast
  obtain nd2 where second: "handle_sponsored_register_name w_crypto None w_fee_random (w_request ''bobby'') w_faucet_next ?nd =
      Ret (fa2, nd2, [Broadcast (NewNameOp (?op ''bobby'' 3))], Json ())"
    using w_sponsored [OF w_bobby _ _ _ b, of "mempool_new\<lparr>mp_name_ops := [?op ''alice'' 2]\<rparr>" "[?op ''alice'' 2]"]
    by (simp add: sponsored_op_def w_request_def)
  have "\<exists>op2. [Broadcast (NewNameOp (?op ''bobby'' 3))] = [Broadcast (NewNameOp op2)] \<and>
      mp_name_ops (nd_mempool nd2) = mp_name_ops (nd_mempool w_funded) @ [?op ''alice'' 2, op2] \<and>
      tx_inputs (rn_fee_payment (?op ''alice'' 2)) = tx_inputs (rn_fee_payment op2) \<and>
      tx_inputs (rn_fee_payment (?op ''alice'' 2)) \<noteq> []"
    by (rule sponsorships_collide [OF first second]) (simp add: sponsored_op_def w_fee_tx_def w_funded_def)
  with first second show ?thesis by blast
qed


theorem faucet_pays_once_witness:
  "\<exists>fa1 sl response info fa2 tx.
     handle_faucet_request w_crypto None (\<lambda>_. Some 952) w_slate_random Some 0 60 None (Some ''1.2.3.4'') (nd_chain w_funded) w_faucet =
       Ret (fa1, Json sl) \<and>
     respond_to_slate w_crypto (replicate 12 5) 4 sl (keystore_from_seed (replicate 32 9)) =
       (\<lparr>ks_seed = replicate 32 9, ks_next_index = 1\<rparr>, response, info) \<and>
     handle_faucet_complete w_crypto (\<lambda>_. Some 952) (\<lambda>_. Some response) [] fa1 mempool_new =
       (fa2, mempool_new\<lparr>mp_txs := [tx]\<rparr>, Json ()) \<and> oi_value info = 60"
proof -
  have sel: "select_spendable (reconcile {w_com 50 1, w_com 40 1} w_wallet) 65 = Inr [(0, w_com 50 1, 50), (1, w_com 40 1, 40)]"
    by (simp add: select_spendable_def select_from_def spendable_including_pending_def w_wallet_def reconcile_def reconcile_output_def)
  obtain ks' sl pending where c: "create_slate w_crypto None (\<lambda>_. Some 952) w_slate_random
        (reconcile {w_com 50 1, w_com 40 1} w_wallet) 60 MIN_FEE w_keys = Ret (ks', Inr (sl, pending))" and fee: "sl_fee sl = 5"
    unfolding create_slate_def w_attempts by (simp add: build_slate_def w_wallet_eval sel MIN_FEE_def)
  obtain fa1 where request: "handle_faucet_request w_crypto None (\<lambda>_. Some 952) w_slate_random Some 0 60 None (Some ''1.2.3.4'')
      (nd_chain w_funded) w_faucet = Ret (fa1, Json sl)"
    using c by (simp add: handle_faucet_request_def client_ip_def check_rate_limit_def faucet_reconcile_def w_faucet_def
        faucet_state_of_def w_funded_def MAX_FAUCET_AMOUNT_def RATE_LIMIT_MAX_REQUESTS_def Let_def)
  obtain response info where resp: "respond_to_slate w_crypto (replicate 12 5) 4 sl (keystore_from_seed (replicate 32 9)) =
       (\<lparr>ks_seed = replicate 32 9, ks_next_index = 1\<rparr>, response, info)"
    by (simp add: respond_to_slate_def keystore_from_seed_def allocate_index_def Let_def)
  have "\<exists>fa2 tx. handle_faucet_complete w_crypto (\<lambda>_. Some 952) (\<lambda>_. Some response) [] fa1 mempool_new =
      (fa2, mempool_new\<lparr>mp_txs := [tx]\<rparr>, Json ()) \<and> oi_value info = 60"
    using faucet_pays_once [OF w_module_laws w_range_proof_complete w_fixed_sizes w_funds(1,2) request resp,
        of "\<lambda>_. Some response" "[]" mempool_new] fee
    by (auto simp: w_slate_random_def mempool_new_def MAX_PENDING_TXS_def MAX_TXS_PER_BLOCK_def)
  with request resp show ?thesis by blast
qed

end
