(* ===== verification/Inbox.thy ===== *)
theory Inbox
  imports Http Word_Instance
begin

text \<open>
  The message relay of \<open>api/src/inbox.rs\<close>: wallets post signed messages to a public key and its owner drains
  them with a signed, fresh timestamp. The lemmas show that the relay is a bounded queue per key
  that delivers every accepted message once and in order, holds authentic messages only and hands
  them to the owner of the key only; and that the signed message of a post does not separate its
  fields.
\<close>

section \<open>State and messages\<close>

definition MAX_MESSAGES_PER_PUBKEY :: nat where "MAX_MESSAGES_PER_PUBKEY = 500"

definition POLL_TIMESTAMP_WINDOW_SECS :: u64 where "POLL_TIMESTAMP_WINDOW_SECS = 120"

record inbox_message =
  im_from_pubkey_hex :: string
  im_kind :: string
  im_payload_json :: string
  im_signature_hex :: string

record inbox_poll_query =
  pq_timestamp :: u64
  pq_signature_hex :: string

text \<open>Decimal notation, as \<open>format!\<close> prints an integer.\<close>

fun decimal :: "nat \<Rightarrow> string" where
  "decimal n = (if n < 10 then [char_of (48 + n)] else decimal (n div 10) @ [char_of (48 + n mod 10)])"

declare decimal.simps [simp del]

definition inbox_post_signing_message :: "string \<Rightarrow> string \<Rightarrow> string \<Rightarrow> byte list" where
  "inbox_post_signing_message to_pubkey_hex kind payload_json =
     bytes_of (''HazeInboxMessage:'' @ to_pubkey_hex @ '':'' @ kind @ '':'' @ payload_json)"

definition inbox_poll_signing_message :: "string \<Rightarrow> u64 \<Rightarrow> byte list" where
  "inbox_poll_signing_message pubkey_hex timestamp =
     bytes_of (''HazeInboxPoll:'' @ pubkey_hex @ '':'' @ decimal (unat timestamp))"

type_synonym inbox_state = "(string, inbox_message list) mapping"

definition queue_of :: "inbox_state \<Rightarrow> string \<Rightarrow> inbox_message list" where
  "queue_of inbox k = (case Mapping.lookup inbox k of None \<Rightarrow> [] | Some q \<Rightarrow> q)"


section \<open>Handlers\<close>

definition handle_post_inbox ::
    "('p::ab_group_add, 's::comm_ring_1) crypto \<Rightarrow> string \<Rightarrow> inbox_message \<Rightarrow> inbox_state \<Rightarrow>
       (unit reply \<times> inbox_state) outcome" where
  "handle_post_inbox cr to_pubkey_hex message inbox =
     bind_outcome (commitment_from_hex cr (im_from_pubkey_hex message)) (\<lambda>from_pubkey.
     case from_pubkey of None \<Rightarrow> Ret (error_reply BAD_REQUEST, inbox) | Some from_pubkey \<Rightarrow>
     bind_outcome (signature_from_hex cr (im_signature_hex message)) (\<lambda>signature.
     case signature of None \<Rightarrow> Ret (error_reply BAD_REQUEST, inbox) | Some signature \<Rightarrow>
     if \<not> verify cr signature
          (inbox_post_signing_message to_pubkey_hex (im_kind message) (im_payload_json message)) from_pubkey
     then Ret (error_reply UNAUTHORIZED, inbox)
     else let queue = queue_of inbox to_pubkey_hex in
       if MAX_MESSAGES_PER_PUBKEY \<le> length queue
       then Ret (error_reply TOO_MANY_REQUESTS, Mapping.update to_pubkey_hex queue inbox)
       else Ret (Json (), Mapping.update to_pubkey_hex (queue @ [message]) inbox)))"

text \<open>\<open>now\<close> is the server's clock.\<close>

definition handle_get_inbox ::
    "('p::ab_group_add, 's::comm_ring_1) crypto \<Rightarrow> u64 \<Rightarrow> string \<Rightarrow> inbox_poll_query \<Rightarrow> inbox_state \<Rightarrow>
       (inbox_message list reply \<times> inbox_state) outcome" where
  "handle_get_inbox cr now pubkey_hex query inbox =
     bind_outcome (commitment_from_hex cr pubkey_hex) (\<lambda>pubkey.
     case pubkey of None \<Rightarrow> Ret (error_reply BAD_REQUEST, inbox) | Some pubkey \<Rightarrow>
     bind_outcome (signature_from_hex cr (pq_signature_hex query)) (\<lambda>signature.
     case signature of None \<Rightarrow> Ret (error_reply BAD_REQUEST, inbox) | Some signature \<Rightarrow>
     let drift = max now (pq_timestamp query) - min now (pq_timestamp query) in
     if POLL_TIMESTAMP_WINDOW_SECS < drift then Ret (error_reply UNAUTHORIZED, inbox)
     else if \<not> verify cr signature (inbox_poll_signing_message pubkey_hex (pq_timestamp query)) pubkey
     then Ret (error_reply UNAUTHORIZED, inbox)
     else Ret (Json (queue_of inbox pubkey_hex), Mapping.delete pubkey_hex inbox)))"


section \<open>Runs of the relay\<close>

datatype inbox_request = Post string inbox_message | Poll u64 string inbox_poll_query

datatype inbox_event = Delivered string inbox_message | Drained string "inbox_message list" | Refused

fun inbox_step ::
    "('p::ab_group_add, 's::comm_ring_1) crypto \<Rightarrow> inbox_request \<Rightarrow> inbox_state \<Rightarrow> (inbox_event \<times> inbox_state) outcome" where
  "inbox_step cr (Post k m) inbox = bind_outcome (handle_post_inbox cr k m inbox) (\<lambda>(r, inbox).
     Ret (case r of Json u \<Rightarrow> Delivered k m | error_reply s \<Rightarrow> Refused, inbox))"
| "inbox_step cr (Poll now k q) inbox = bind_outcome (handle_get_inbox cr now k q inbox) (\<lambda>(r, inbox).
     Ret (case r of Json ms \<Rightarrow> Drained k ms | error_reply s \<Rightarrow> Refused, inbox))"

fun inbox_run ::
    "('p::ab_group_add, 's::comm_ring_1) crypto \<Rightarrow> inbox_request list \<Rightarrow> inbox_state \<Rightarrow> (inbox_event list \<times> inbox_state) outcome" where
  "inbox_run cr [] inbox = Ret ([], inbox)"
| "inbox_run cr (r # rs) inbox = bind_outcome (inbox_step cr r inbox) (\<lambda>(ev, inbox).
     bind_outcome (inbox_run cr rs inbox) (\<lambda>(evs, inbox). Ret (ev # evs, inbox)))"

fun posted :: "string \<Rightarrow> inbox_event list \<Rightarrow> inbox_message list" where
  "posted k [] = []"
| "posted k (Delivered j m # evs) = (if j = k then m # posted k evs else posted k evs)"
| "posted k (_ # evs) = posted k evs"

fun drained :: "string \<Rightarrow> inbox_event list \<Rightarrow> inbox_message list" where
  "drained k [] = []"
| "drained k (Drained j ms # evs) = (if j = k then ms @ drained k evs else drained k evs)"
| "drained k (_ # evs) = drained k evs"

text \<open>The sender's key signed the message for this recipient.\<close>

definition authentic :: "('p::ab_group_add, 's::comm_ring_1) crypto \<Rightarrow> string \<Rightarrow> inbox_message \<Rightarrow> bool" where
  "authentic cr k m \<longleftrightarrow> (\<exists>key sig. commitment_from_hex cr (im_from_pubkey_hex m) = Ret (Some key) \<and>
     signature_from_hex cr (im_signature_hex m) = Ret (Some sig) \<and>
     verify cr sig (inbox_post_signing_message k (im_kind m) (im_payload_json m)) key)"

text \<open>A request that drains \<open>k\<close> was signed by the key itself, at a time within the window.\<close>

fun owner_polled :: "('p::ab_group_add, 's::comm_ring_1) crypto \<Rightarrow> inbox_request \<Rightarrow> inbox_event \<Rightarrow> bool" where
  "owner_polled cr r (Drained k ms) = (case r of
     Poll now j q \<Rightarrow> j = k \<and> unat (max now (pq_timestamp q)) - unat (min now (pq_timestamp q)) \<le> 120 \<and>
       (\<exists>key sig. commitment_from_hex cr k = Ret (Some key) \<and> signature_from_hex cr (pq_signature_hex q) = Ret (Some sig) \<and>
          verify cr sig (inbox_poll_signing_message k (pq_timestamp q)) key)
   | Post j m \<Rightarrow> False)"
| "owner_polled cr r ev = True"

lemma queue_of_simps [simp]:
  "queue_of Mapping.empty k = []"
  "queue_of (Mapping.update j q inbox) k = (if k = j then q else queue_of inbox k)"
  "queue_of (Mapping.delete j inbox) k = (if k = j then [] else queue_of inbox k)"
  by (simp_all add: queue_of_def map_simps)

lemma drift_le:
  assumes "\<not> POLL_TIMESTAMP_WINDOW_SECS < max now t - min now t"
  shows "unat (max now t) - unat (min now t) \<le> 120"
proof -
  have "unat (max now t - min now t) = unat (max now t) - unat (min now t)"
    by (rule unat_sub) (simp add: min_le_iff_disj)
  with assms show ?thesis by (simp add: POLL_TIMESTAMP_WINDOW_SECS_def not_less word_le_nat_alt)
qed

lemma bind_outcome_case: "bind_outcome x f = (case x of Panic \<Rightarrow> Panic | Ret y \<Rightarrow> f y)"
  by (cases x) simp_all

lemma handle_post_inbox_cases:
  assumes "handle_post_inbox cr k m inbox = Ret (r, inbox')"
  shows "r = Json () \<and> authentic cr k m \<and> length (queue_of inbox k) < MAX_MESSAGES_PER_PUBKEY \<and>
      inbox' = Mapping.update k (queue_of inbox k @ [m]) inbox \<or>
    (\<exists>s. r = error_reply s) \<and> queue_of inbox' = queue_of inbox"
  using assms unfolding handle_post_inbox_def bind_outcome_case Let_def
  by (auto simp: authentic_def fun_eq_iff split: outcome.splits option.splits if_splits)

lemma handle_get_inbox_cases:
  assumes "handle_get_inbox cr now k q inbox = Ret (r, inbox')"
  shows "r = Json (queue_of inbox k) \<and> owner_polled cr (Poll now k q) (Drained k (queue_of inbox k)) \<and>
      inbox' = Mapping.delete k inbox \<or>
    (\<exists>s. r = error_reply s) \<and> inbox' = inbox"
  using assms drift_le [of now "pq_timestamp q"] unfolding handle_get_inbox_def bind_outcome_case Let_def
  by (auto split: outcome.splits option.splits if_splits)

text \<open>One request, by what it does to the queues.\<close>

lemma inbox_step_cases:
  assumes "inbox_step cr r inbox = Ret (ev, inbox')"
  obtains (delivered) k m where "ev = Delivered k m" "authentic cr k m"
      "length (queue_of inbox k) < MAX_MESSAGES_PER_PUBKEY" "inbox' = Mapping.update k (queue_of inbox k @ [m]) inbox"
  | (drained) k where "ev = Drained k (queue_of inbox k)" "owner_polled cr r ev" "inbox' = Mapping.delete k inbox"
  | (refused) "ev = Refused" "queue_of inbox' = queue_of inbox"
proof (cases r)
  case (Post k m)
  with assms obtain rp where "handle_post_inbox cr k m inbox = Ret (rp, inbox')"
      "ev = (case rp of Json u \<Rightarrow> Delivered k m | error_reply s \<Rightarrow> Refused)"
    by (auto simp: bind_outcome_eq_Ret)
  with handle_post_inbox_cases [OF this(1)] delivered refused show thesis by auto
next
  case (Poll now k q)
  with assms obtain rp where g: "handle_get_inbox cr now k q inbox = Ret (rp, inbox')"
      "ev = (case rp of Json ms \<Rightarrow> Drained k ms | error_reply s \<Rightarrow> Refused)"
    by (auto simp: bind_outcome_eq_Ret)
  from handle_get_inbox_cases [OF g(1)] g(2) drained [of k] refused Poll show thesis by auto
qed

lemma inbox_run_spec:
  assumes "inbox_run cr rs inbox = Ret (evs, inbox')" and "\<forall>k. length (queue_of inbox k) \<le> MAX_MESSAGES_PER_PUBKEY"
  shows "drained k evs @ queue_of inbox' k = queue_of inbox k @ posted k evs \<and>
    length (queue_of inbox' k) \<le> MAX_MESSAGES_PER_PUBKEY \<and> list_all (authentic cr k) (posted k evs) \<and>
    list_all2 (owner_polled cr) rs evs"
  using assms
proof (induction rs arbitrary: inbox evs)
  case (Cons r rs)
  then obtain ev inbox1 evs' where step: "inbox_step cr r inbox = Ret (ev, inbox1)" and evs: "evs = ev # evs'"
      and rest: "inbox_run cr rs inbox1 = Ret (evs', inbox')"
    by (auto simp: bind_outcome_eq_Ret)
  from step have bound: "\<forall>k. length (queue_of inbox1 k) \<le> MAX_MESSAGES_PER_PUBKEY"
    by (cases rule: inbox_step_cases) (use Cons.prems(2) in auto)
  note ih = Cons.IH [OF rest bound]
  from step show ?case by (cases rule: inbox_step_cases) (use ih evs in auto)
qed simp

text \<open>C33. The relay delivers exactly once and in order: over any sequence of requests to an empty relay, what was
  drained for a key followed by what is still queued is what was accepted for it; no queue exceeds
  500 messages; every accepted message was signed by its sender for this recipient; and only a
  request signed by the key itself, at a time within two minutes of the server's, drains its queue.\<close>

theorem inbox_exactly_once:
  assumes "inbox_run cr rs Mapping.empty = Ret (evs, inbox)"
  shows "drained k evs @ queue_of inbox k = posted k evs \<and> length (queue_of inbox k) \<le> MAX_MESSAGES_PER_PUBKEY \<and>
    list_all (authentic cr k) (posted k evs) \<and> list_all2 (owner_polled cr) rs evs"
  using inbox_run_spec [OF assms] by simp

text \<open>The signed message of a post does not separate its fields: a colon in the kind moves the border between
  kind and payload, so a captured signature is accepted for a message of another kind with another
  payload. (The comment says it is bound to one specific recipient, kind and payload.)\<close>

theorem inbox_signature_ambiguous:
  "handle_post_inbox cr k (m\<lparr>im_kind := a @ '':'' @ b, im_payload_json := p\<rparr>) inbox = Ret (Json (), inbox') \<Longrightarrow>
   \<exists>inbox''. handle_post_inbox cr k (m\<lparr>im_kind := a, im_payload_json := b @ '':'' @ p\<rparr>) inbox = Ret (Json (), inbox'') \<and>
     queue_of inbox'' k = queue_of inbox k @ [m\<lparr>im_kind := a, im_payload_json := b @ '':'' @ p\<rparr>]"
  unfolding handle_post_inbox_def bind_outcome_case Let_def inbox_post_signing_message_def
  by (auto split: outcome.splits option.splits if_splits)

text \<open>A message to the owner of a key, who polls for it.\<close>

definition w_key :: "wpoint commitment" where "w_key = Commitment (WP 0 3)"

definition w_message :: "string \<Rightarrow> string \<Rightarrow> inbox_message" where
  "w_message kind payload = \<lparr>im_from_pubkey_hex = commitment_to_hex w_crypto w_key, im_kind = kind,
     im_payload_json = payload, im_signature_hex = signature_to_hex w_crypto \<lparr>sig_s = 0, sig_e = 1\<rparr>\<rparr>"

definition w_poll :: inbox_request where
  "w_poll = Poll 1000 (commitment_to_hex w_crypto w_key)
     \<lparr>pq_timestamp = 950, pq_signature_hex = signature_to_hex w_crypto \<lparr>sig_s = 0, sig_e = 1\<rparr>\<rparr>"

lemma w_inbox_verify: "verify w_crypto \<lparr>sig_s = 0, sig_e = 1\<rparr> msg key"
  by (simp add: verify_def compute_challenge_def w_crypto_def)

lemma w_post: "handle_post_inbox w_crypto k (w_message kind payload) Mapping.empty =
    Ret (Json (), Mapping.update k [w_message kind payload] Mapping.empty)"
  by (simp add: handle_post_inbox_def w_message_def commitment_hex_roundtrip [OF w_compress_laws]
      signature_hex_roundtrip [OF w_scalar_laws] w_inbox_verify MAX_MESSAGES_PER_PUBKEY_def Let_def)

theorem inbox_exactly_once_witness:
  "let k = commitment_to_hex w_crypto w_key; m = w_message ''request'' ''{}'' in
   \<exists>evs inbox. inbox_run w_crypto [Post k m, w_poll] Mapping.empty = Ret (evs, inbox) \<and> drained k evs = [m] \<and>
     list_all (authentic w_crypto k) [m]"
proof -
  let ?k = "commitment_to_hex w_crypto w_key" and ?m = "w_message ''request'' ''{}''"
  have poll: "inbox_step w_crypto w_poll (Mapping.update ?k [?m] Mapping.empty) =
      Ret (Drained ?k [?m], Mapping.delete ?k (Mapping.update ?k [?m] Mapping.empty))"
    by (simp add: w_poll_def handle_get_inbox_def commitment_hex_roundtrip [OF w_compress_laws]
        signature_hex_roundtrip [OF w_scalar_laws] w_inbox_verify POLL_TIMESTAMP_WINDOW_SECS_def Let_def)
  have run: "inbox_run w_crypto [Post ?k ?m, w_poll] Mapping.empty =
      Ret ([Delivered ?k ?m, Drained ?k [?m]], Mapping.delete ?k (Mapping.update ?k [?m] Mapping.empty))"
    by (simp add: w_post poll)
  from inbox_exactly_once [OF run, of ?k] run show ?thesis unfolding Let_def by fastforce
qed

theorem inbox_signature_ambiguous_witness:
  "\<exists>inbox. handle_post_inbox w_crypto ''key'' (w_message ''request'' ''for:{}'') Mapping.empty = Ret (Json (), inbox) \<and>
     queue_of inbox ''key'' = [w_message ''request'' ''for:{}'']"
proof -
  have "handle_post_inbox w_crypto ''key''
      ((w_message ''request'' ''{}'')\<lparr>im_kind := ''request'' @ '':'' @ ''for'', im_payload_json := ''{}''\<rparr>) Mapping.empty =
    Ret (Json (), Mapping.update ''key'' [w_message ''request:for'' ''{}''] Mapping.empty)"
    using w_post [of "''key''" "''request:for''" "''{}''"] by (simp add: w_message_def)
  from inbox_signature_ambiguous [OF this] show ?thesis by (auto simp: w_message_def)
qed

end
