(* ===== verification/Ffi.thy ===== *)
theory Ffi
  imports Faucet
begin

text \<open>
  The mobile bindings of \<open>src/ffi.rs\<close>: the calls an app makes on a wallet whose keystore, store and
  pending slates it keeps as opaque byte blobs, and whose requests it posts to a node as JSON. The
  serialisers (bincode and serde\_json) are the fields of the parameter \<open>ffi_codec\<close>: blobs range over the type
  \<open>'b\<close> and JSON texts over \<open>'j\<close>, since no call looks inside either. A call that fails returns an \<open>ffi_error\<close>; one
  that slices a text off a character boundary, or meets the faucet's reserved index without its secret,
  panics. Nonces are arguments. The lemmas show that what the calls build the node's handlers
  accept, that committing a payment keeps the local ledger in balance, that reserving a pending slate
  keeps the next one off its inputs, and what rotating a seed leaves behind.
\<close>

section \<open>Calls that fail and calls that panic\<close>

type_synonym ('e, 'a) call = "('e + 'a) outcome"

definition attempt :: "('e, 'a) call \<Rightarrow> ('a \<Rightarrow> ('e, 'b) call) \<Rightarrow> ('e, 'b) call" where
  "attempt m f = bind_outcome m (\<lambda>r. case r of Inl e \<Rightarrow> Ret (Inl e) | Inr x \<Rightarrow> f x)"

abbreviation ok :: "'a \<Rightarrow> ('e, 'a) call" where
  "ok x \<equiv> Ret (Inr x)"

abbreviation err :: "'e \<Rightarrow> ('e, 'a) call" where
  "err e \<equiv> Ret (Inl e)"

definition require :: "'a option \<Rightarrow> 'e \<Rightarrow> ('e, 'a) call" where
  "require x e = Ret (ok_or x e)"

definition require_parsed :: "'a option outcome \<Rightarrow> 'e \<Rightarrow> ('e, 'a) call" where
  "require_parsed m e = bind_outcome m (\<lambda>x. require x e)"

definition map_err :: "('e \<Rightarrow> 'f) \<Rightarrow> 'e + 'a \<Rightarrow> ('f, 'a) call" where
  "map_err f r = Ret (case r of Inl e \<Rightarrow> Inl (f e) | Inr x \<Rightarrow> Inr x)"

text \<open>\<open>iter().map(f).collect::<Result<Vec<_>, _>>()\<close>: stops at the first error.\<close>

fun collect_calls :: "('a \<Rightarrow> ('e, 'b) call) \<Rightarrow> 'a list \<Rightarrow> ('e, 'b list) call" where
  "collect_calls f [] = ok []"
| "collect_calls f (x # xs) = attempt (f x) (\<lambda>y. attempt (collect_calls f xs) (\<lambda>ys. ok (y # ys)))"

text \<open>\<open>option.map(f).transpose()\<close>.\<close>

definition optional :: "('a \<Rightarrow> ('e, 'b) call) \<Rightarrow> 'a option \<Rightarrow> ('e, 'b option) call" where
  "optional f v = (case v of None \<Rightarrow> ok None | Some x \<Rightarrow> attempt (f x) (\<lambda>y. ok (Some y)))"

lemma attempt_simps [simp]:
  "attempt (ok x) f = f x" "attempt (err e) f = err e" "attempt Panic f = Panic"
  by (simp_all add: attempt_def)

lemma attempt_eq_ok [guard_simps]: "attempt m f = ok z \<longleftrightarrow> (\<exists>y. m = ok y \<and> f y = ok z)"
proof (cases m)
  case (Ret r)
  then show ?thesis by (cases r) (simp_all add: attempt_def)
qed (simp add: attempt_def)

lemma require_simps [simp]:
  "require (Some x) e = ok x" "require None e = err e" "require v e = ok y \<longleftrightarrow> v = Some y"
  by (auto simp: require_def ok_or_def split: option.splits)

lemma require_parsed_simps [simp]:
  "require_parsed (Ret (Some x)) e = ok x" "require_parsed (Ret None) e = err e" "require_parsed Panic e = Panic"
  "require_parsed m e = ok y \<longleftrightarrow> m = Ret (Some y)"
  by (auto simp: require_parsed_def guard_simps)

lemma map_err_simps [simp]:
  "map_err f (Inr x) = ok x" "map_err f (Inl e) = err (f e)" "map_err f r = ok x \<longleftrightarrow> r = Inr x"
  by (auto simp: map_err_def split: sum.splits)

lemma collect_calls_ok:
  "collect_calls f xs = ok ys \<longleftrightarrow> list_all2 (\<lambda>x y. f x = ok y) xs ys"
  by (induction xs arbitrary: ys) (auto simp: guard_simps list_all2_Cons1)

lemma optional_simps [simp]:
  "optional f None = ok None" "optional f (Some x) = attempt (f x) (\<lambda>y. ok (Some y))"
  by (simp_all add: optional_def)


section \<open>Data\<close>

record ('p, 's, 'b, 'j) ffi_codec =
  keystore_to_bytes :: "keystore \<Rightarrow> 'b"
  keystore_from_bytes :: "'b \<Rightarrow> keystore option"
  store_to_bytes :: "'p wallet_store \<Rightarrow> 'b"
  store_from_bytes :: "'b \<Rightarrow> 'p wallet_store option"
  pending_to_bytes :: "('p, 's) pending_slate \<Rightarrow> 'b option"
  pending_from_bytes :: "'b \<Rightarrow> ('p, 's) pending_slate option"
  tx_to_json :: "('p, 's) transaction \<Rightarrow> 'j option"
  tx_from_json :: "'j \<Rightarrow> ('p, 's) transaction option"
  slate_to_json :: "('p, 's) slate \<Rightarrow> 'j option"
  slate_from_json :: "'j \<Rightarrow> ('p, 's) slate option"
  mint_to_json :: "('p, 's) mint_asset_op \<Rightarrow> 'j option"
  mint_from_json :: "'j \<Rightarrow> ('p, 's) mint_asset_op option"
  scan_from_json :: "'j \<Rightarrow> scan_entry list option"
  phases_from_json :: "'j \<Rightarrow> string + mint_phase list"
  stake_to_json :: "('p, 's) stake_request \<Rightarrow> 'j option"
  name_to_json :: "('p, 's) register_name_op \<Rightarrow> 'j option"
  sponsored_to_json :: "('p, 's) sponsored_register_request \<Rightarrow> 'j option"
  transfer_name_to_json :: "('p, 's) transfer_name_op \<Rightarrow> 'j option"
  transfer_asset_to_json :: "('p, 's) transfer_asset_op \<Rightarrow> 'j option"
  listing_to_json :: "('p, 's) listing \<Rightarrow> 'j option"
  cancel_to_json :: "('p, 's) cancel_listing_request \<Rightarrow> 'j option"
  launch_to_json :: "('p, 's) launch_collection_op \<Rightarrow> 'j option"
  allowlist_to_json :: "('p, 's) allowlist_entry \<Rightarrow> 'j option"

record ffi_owned_output =
  fo_index :: u32
  fo_value :: u64
  fo_commitment_hex :: string

record ('b, 'j) ffi_send_plan =
  fp_transaction_json :: 'j
  fp_updated_keystore_bytes :: 'b
  fp_dest :: ffi_owned_output
  fp_change :: "ffi_owned_output option"
  fp_spent_commitments_hex :: "string list"

datatype ffi_error =
    FfiInsufficientBalance u64 u64
  | FfiInvalidKeystore
  | FfiInvalidStore
  | FfiInvalidCommitment string
  | FfiSerializationFailed
  | FfiInvalidMnemonic
  | FfiInvalidScanEntries
  | FfiInvalidHex string
  | FfiNoUnsweptRewards
  | FfiRewardsBelowFee u64 u64
  | FfiInvalidSlateJson
  | FfiInvalidPendingSlate
  | FfiIncompleteSlateResponse
  | FfiNoConfirmedBalance
  | FfiBelowMinimumStake u64 u64
  | FfiInvalidName string
  | FfiFeeBelowRegistrationFloor u64
  | FfiUnexpectedRotateChange
  | FfiInvalidAssetId string
  | FfiFeeBelowAssetMintFloor u64
  | FfiMetadataTooLarge u64
  | FfiMintSerializationFailed
  | FfiInvalidMintOpJson
  | FfiTransferSerializationFailed
  | FfiInvalidTransactionJson
  | FfiTransactionHasNoKernels
  | FfiListingSerializationFailed
  | FfiCancellationSerializationFailed
  | FfiRoyaltyTooHigh u16
  | FfiInvalidPhasesJson string
  | FfiCollectionLaunchSerializationFailed
  | FfiTargetNotInAllowlist
  | FfiAllowlistSerializationFailed

definition insufficient :: "plan_error \<Rightarrow> ffi_error" where
  "insufficient e = FfiInsufficientBalance (pe_have e) (pe_need e)"

text \<open>What \<open>{:?}\<close> prints for the two error enums.\<close>

fun name_error_debug :: "name_error \<Rightarrow> string" where
  "name_error_debug NameTooShort = ''TooShort''"
| "name_error_debug NameTooLong = ''TooLong''"
| "name_error_debug NameInvalidCharacters = ''InvalidCharacters''"
| "name_error_debug NameReserved = ''Reserved''"
| "name_error_debug NameAlreadyRegistered = ''AlreadyRegistered''"
| "name_error_debug NameInvalidSignature = ''InvalidSignature''"
| "name_error_debug NameInvalidFeePayment = ''InvalidFeePayment''"

fun asset_error_debug :: "asset_error \<Rightarrow> string" where
  "asset_error_debug AssetTooShort = ''TooShort''"
| "asset_error_debug AssetTooLong = ''TooLong''"
| "asset_error_debug AssetInvalidCharacters = ''InvalidCharacters''"
| "asset_error_debug AssetAlreadyMinted = ''AlreadyMinted''"
| "asset_error_debug AssetInvalidSignature = ''InvalidSignature''"
| "asset_error_debug AssetInvalidFeePayment = ''InvalidFeePayment''"
| "asset_error_debug AssetMetadataTooLong = ''MetadataTooLong''"
| "asset_error_debug CollectionFieldsMismatched = ''CollectionFieldsMismatched''"
| "asset_error_debug MissingOrInvalidCreatorApproval = ''MissingOrInvalidCreatorApproval''"
| "asset_error_debug AllowlistProofTooLong = ''AllowlistProofTooLong''"

definition ffi_hex_decode :: "string \<Rightarrow> byte list option outcome" where
  "ffi_hex_decode hex = (if length hex mod 2 \<noteq> 0 then Ret None else hex_loop hex [0..<length hex div 2])"

definition ffi_scalar_from_hex :: "('p, 's) crypto \<Rightarrow> string \<Rightarrow> 's option outcome" where
  "ffi_scalar_from_hex cr hex =
     bind_outcome (ffi_hex_decode hex) (\<lambda>bytes.
       Ret (bytes \<bind> (\<lambda>bytes. if length bytes \<noteq> 32 then None else Some (from_bits cr bytes))))"

definition hex_to_32 :: "string \<Rightarrow> (ffi_error, hash32) call" where
  "hex_to_32 hex =
     (if length hex \<noteq> 64 then err (FfiInvalidHex hex)
      else require_parsed (hex_loop hex [0..<32]) (FfiInvalidHex hex))"

definition owned_of :: "('p, 's) crypto \<Rightarrow> 'p planned_output \<Rightarrow> ffi_owned_output" where
  "owned_of cr = (\<lambda>(index, c, value). \<lparr>fo_index = index, fo_value = value, fo_commitment_hex = commitment_to_hex cr c\<rparr>)"


section \<open>Keystores and recovery\<close>

text \<open>\<open>seed\<close> is what \<open>Keystore::generate\<close> draws.\<close>

definition generate_keystore :: "('p, 's, 'b, 'j) ffi_codec \<Rightarrow> byte list \<Rightarrow> 'b" where
  "generate_keystore cd seed = keystore_to_bytes cd (keystore_from_seed seed)"

text \<open>\<open>phrase_of entropy\<close> is the phrase \<open>Mnemonic::from_entropy\<close> makes of the entropy drawn.\<close>

definition generate_with_mnemonic ::
    "(byte list \<Rightarrow> string option) \<Rightarrow> (string \<Rightarrow> byte list option) \<Rightarrow> byte list \<Rightarrow> (keystore \<times> string) outcome" where
  "generate_with_mnemonic phrase_of bip39_seed entropy =
     bind_outcome (expect (phrase_of entropy)) (\<lambda>phrase.
     bind_outcome (expect (from_mnemonic bip39_seed phrase)) (\<lambda>ks. Ret (ks, phrase)))"

record 'b ffi_keystore_and_mnemonic =
  km_keystore_bytes :: 'b
  km_mnemonic :: string

definition generate_keystore_with_mnemonic ::
    "('p, 's, 'b, 'j) ffi_codec \<Rightarrow> (byte list \<Rightarrow> string option) \<Rightarrow> (string \<Rightarrow> byte list option) \<Rightarrow> byte list \<Rightarrow>
       'b ffi_keystore_and_mnemonic outcome" where
  "generate_keystore_with_mnemonic cd phrase_of bip39_seed entropy =
     bind_outcome (generate_with_mnemonic phrase_of bip39_seed entropy) (\<lambda>(ks, phrase).
       Ret \<lparr>km_keystore_bytes = keystore_to_bytes cd ks, km_mnemonic = phrase\<rparr>)"

definition restore_keystore_from_mnemonic ::
    "('p, 's, 'b, 'j) ffi_codec \<Rightarrow> (string \<Rightarrow> byte list option) \<Rightarrow> string \<Rightarrow> (ffi_error, 'b) call" where
  "restore_keystore_from_mnemonic cd bip39_seed phrase =
     require (map_option (keystore_to_bytes cd) (from_mnemonic bip39_seed phrase)) FfiInvalidMnemonic"

record 'b ffi_recovery_result =
  fr_keystore_bytes :: 'b
  fr_store_bytes :: 'b
  fr_recovered_count :: u32
  fr_recovered_balance :: u64

definition recover_wallet_from_chain ::
    "('p::ab_group_add, 's::comm_ring_1) crypto \<Rightarrow> ('p, 's, 'b, 'j) ffi_codec \<Rightarrow> 'b \<Rightarrow> 'j \<Rightarrow> string list \<Rightarrow>
       (ffi_error, 'b ffi_recovery_result) call" where
  "recover_wallet_from_chain cr cd keystore_bytes scan_entries_json chain_utxo_commitments_hex =
     attempt (require (keystore_from_bytes cd keystore_bytes) FfiInvalidKeystore) (\<lambda>ks.
     attempt (require (scan_from_json cd scan_entries_json) FfiInvalidScanEntries) (\<lambda>entries.
     bind_outcome (recover_from_chain cr entries (set chain_utxo_commitments_hex) ks) (\<lambda>(ks, result).
     ok \<lparr>fr_keystore_bytes = keystore_to_bytes cd ks, fr_store_bytes = store_to_bytes cd (rr_store result),
         fr_recovered_count = rr_recovered_count result, fr_recovered_balance = rr_recovered_balance result\<rparr>)))"

record ('b, 'j) ffi_sweep_result =
  fs_transaction_json :: 'j
  fs_updated_keystore_bytes :: 'b
  fs_dest :: ffi_owned_output
  fs_swept_count :: u32
  fs_swept_total :: u64

text \<open>One entry of the scan: the reward it proves to be this validator's and unspent, with its blinding factor.\<close>

definition sweep_entry ::
    "('p::ab_group_add, 's::comm_ring_1) crypto \<Rightarrow> 's \<Rightarrow> string set \<Rightarrow> scan_entry \<Rightarrow> ('p commitment \<times> 's \<times> u64) option outcome" where
  "sweep_entry cr stake_key utxo_set entry =
     bind_outcome (ffi_hex_decode (se_note_hex entry)) (\<lambda>note_bytes.
       Ret (do {
         bytes \<leftarrow> note_bytes;
         (height, value') \<leftarrow> open_note cr (coinbase_note_key cr stake_key) bytes;
         check (se_commitment_hex entry \<in> utxo_set);
         let blinding = coinbase_blinding cr stake_key (ucast height);
             c = commitment_new cr value' blinding
         in if commitment_to_hex cr c = se_commitment_hex entry then Some (c, blinding, value') else None
       }))"

definition sweep_step ::
    "('p::ab_group_add, 's::comm_ring_1) crypto \<Rightarrow> 's \<Rightarrow> string set \<Rightarrow> scan_entry \<Rightarrow>
       ('p commitment \<times> 's \<times> u64) list \<Rightarrow> ('p commitment \<times> 's \<times> u64) list outcome" where
  "sweep_step cr stake_key utxo_set entry swept =
     bind_outcome (sweep_entry cr stake_key utxo_set entry) (\<lambda>r.
       Ret (case r of None \<Rightarrow> swept | Some reward \<Rightarrow> swept @ [reward]))"

text \<open>\<open>note_nonce\<close> and \<open>k\<close> are the nonces of the note and of the kernel's signature; the total wraps.\<close>

definition sweep_validator_rewards ::
    "('p::ab_group_add, 's::comm_ring_1) crypto \<Rightarrow> ('p, 's, 'b, 'j) ffi_codec \<Rightarrow> byte list \<Rightarrow> 's \<Rightarrow> string \<Rightarrow> 'j \<Rightarrow> string list \<Rightarrow>
       'b \<Rightarrow> u64 \<Rightarrow> (ffi_error, ('b, 'j) ffi_sweep_result) call" where
  "sweep_validator_rewards cr cd note_nonce k stake_key_hex scan_entries_json chain_utxo_commitments_hex keystore_bytes tx_fee' =
     attempt (require_parsed (ffi_scalar_from_hex cr stake_key_hex) (FfiInvalidHex stake_key_hex)) (\<lambda>stake_key.
     attempt (require (keystore_from_bytes cd keystore_bytes) FfiInvalidKeystore) (\<lambda>ks.
     attempt (require (scan_from_json cd scan_entries_json) FfiInvalidScanEntries) (\<lambda>entries.
     bind_outcome (fold_outcome (sweep_step cr stake_key (set chain_utxo_commitments_hex)) entries []) (\<lambda>swept.
     let inputs = map (\<lambda>(c, r, v). \<lparr>in_commitment = c\<rparr>) swept;
         input_blindings = map (\<lambda>(c, r, v). r) swept;
         swept_total = sum_list (map (\<lambda>(c, r, v). v) swept);
         swept_count = word_of_nat (length inputs) :: u32
     in if swept_count = 0 then err FfiNoUnsweptRewards
        else if swept_total \<le> tx_fee' then err (FfiRewardsBelowFee swept_total tx_fee')
        else
          let dest_value = swept_total - tx_fee';
              (dest_index, ks) = allocate_index ks;
              dest_output = own_output cr ks note_nonce dest_index dest_value;
              excess_r = sum_list input_blindings - derive_blinding cr ks dest_index;
              kernel = \<lparr>excess = commitment_new cr 0 excess_r, fee = tx_fee',
                kernel_sig = sign cr k (u64_le tx_fee') excess_r\<rparr>;
              transaction = \<lparr>tx_inputs = inputs, tx_outputs = [dest_output], tx_kernels = [kernel]\<rparr>
          in attempt (require (tx_to_json cd transaction) FfiSerializationFailed) (\<lambda>transaction_json.
             ok \<lparr>fs_transaction_json = transaction_json, fs_updated_keystore_bytes = keystore_to_bytes cd ks,
                 fs_dest = owned_of cr (dest_index, out_commitment dest_output, dest_value),
                 fs_swept_count = swept_count, fs_swept_total = swept_total\<rparr>)))))"


section \<open>The local ledger\<close>

definition wallet_store_new :: "('p, 's, 'b, 'j) ffi_codec \<Rightarrow> 'b" where
  "wallet_store_new cd = store_to_bytes cd []"

definition claim_genesis ::
    "('p::ab_group_add, 's::comm_ring_1) crypto \<Rightarrow> ('p, 's, 'b, 'j) ffi_codec \<Rightarrow> 'b \<Rightarrow> (ffi_error, 'b) call" where
  "claim_genesis cr cd store_bytes =
     attempt (require (store_from_bytes cd store_bytes) FfiInvalidStore) (\<lambda>store.
       ok (store_to_bytes cd
         (if \<not> has_index store GENESIS_INDEX
          then add_output GENESIS_INDEX 1000000 (commitment_new cr 1000000 (scalar_of_u64 42)) Confirmed store
          else store)))"

definition parse_commitment :: "('p, 's) crypto \<Rightarrow> string \<Rightarrow> (ffi_error, 'p commitment) call" where
  "parse_commitment cr hex = require_parsed (commitment_from_hex cr hex) (FfiInvalidCommitment hex)"

definition reconcile_wallet_store ::
    "('p, 's) crypto \<Rightarrow> ('p, 's, 'b, 'j) ffi_codec \<Rightarrow> 'b \<Rightarrow> string list \<Rightarrow> (ffi_error, 'b) call" where
  "reconcile_wallet_store cr cd store_bytes chain_utxo_commitments_hex =
     attempt (require (store_from_bytes cd store_bytes) FfiInvalidStore) (\<lambda>store.
     attempt (collect_calls (parse_commitment cr) chain_utxo_commitments_hex) (\<lambda>utxos.
       ok (store_to_bytes cd (reconcile (set utxos) store))))"

definition wallet_balance :: "('p, 's, 'b, 'j) ffi_codec \<Rightarrow> 'b \<Rightarrow> (ffi_error, u64) call" where
  "wallet_balance cd store_bytes =
     attempt (require (store_from_bytes cd store_bytes) FfiInvalidStore) (\<lambda>store. ok (balance store))"

definition wallet_pending_balance :: "('p, 's, 'b, 'j) ffi_codec \<Rightarrow> 'b \<Rightarrow> (ffi_error, u64) call" where
  "wallet_pending_balance cd store_bytes =
     attempt (require (store_from_bytes cd store_bytes) FfiInvalidStore) (\<lambda>store. ok (pending_balance store))"

text \<open>A planning step threads the keystore and may panic; its error becomes an \<open>ffi_error\<close>.\<close>

definition planned_call :: "(keystore \<times> (plan_error + 'a)) outcome \<Rightarrow> (ffi_error, keystore \<times> 'a) call" where
  "planned_call m = bind_outcome m (\<lambda>(ks, r). attempt (map_err insufficient r) (\<lambda>x. ok (ks, x)))"

lemma planned_call_ok [simp]: "planned_call m = ok (ks, x) \<longleftrightarrow> m = Ret (ks, Inr x)"
  by (cases m) (auto simp: planned_call_def guard_simps split: prod.splits)

definition plan_send_ffi ::
    "('p::ab_group_add, 's::comm_ring_1) crypto \<Rightarrow> ('p, 's, 'b, 'j) ffi_codec \<Rightarrow> string option \<Rightarrow>
       (('p, 's) transaction \<Rightarrow> u64 option) \<Rightarrow> (nat \<Rightarrow> 's send_random) \<Rightarrow> 'b \<Rightarrow> 'b \<Rightarrow> u64 \<Rightarrow> u64 \<Rightarrow>
       (ffi_error, ('b, 'j) ffi_send_plan) call" where
  "plan_send_ffi cr cd treasury_var size_of rnd keystore_bytes store_bytes amount tx_fee' =
     attempt (require (keystore_from_bytes cd keystore_bytes) FfiInvalidKeystore) (\<lambda>ks.
     attempt (require (store_from_bytes cd store_bytes) FfiInvalidStore) (\<lambda>store.
     attempt (planned_call (plan_send cr treasury_var size_of rnd store amount tx_fee' ks)) (\<lambda>(ks, plan).
     attempt (require (tx_to_json cd (sp_transaction plan)) FfiSerializationFailed) (\<lambda>transaction_json.
     ok \<lparr>fp_transaction_json = transaction_json, fp_updated_keystore_bytes = keystore_to_bytes cd ks,
         fp_dest = owned_of cr (sp_dest plan), fp_change = map_option (owned_of cr) (sp_change plan),
         fp_spent_commitments_hex = map (commitment_to_hex cr) (sp_spent_commitments plan)\<rparr>))))"

text \<open>The two steps every commit is made of: marking the spent inputs, and adding an output as pending.\<close>

fun mark_spent_hex :: "('p, 's) crypto \<Rightarrow> string list \<Rightarrow> 'p wallet_store \<Rightarrow> (ffi_error, 'p wallet_store) call" where
  "mark_spent_hex cr [] store = ok store"
| "mark_spent_hex cr (hex # hexes) store =
     attempt (parse_commitment cr hex) (\<lambda>c. mark_spent_hex cr hexes (mark_spent c store))"

definition add_pending_hex ::
    "('p, 's) crypto \<Rightarrow> ffi_owned_output \<Rightarrow> 'p wallet_store \<Rightarrow> (ffi_error, 'p wallet_store) call" where
  "add_pending_hex cr out store =
     attempt (parse_commitment cr (fo_commitment_hex out)) (\<lambda>c. ok (add_output (fo_index out) (fo_value out) c Pending store))"

definition add_change_hex ::
    "('p, 's) crypto \<Rightarrow> ffi_owned_output option \<Rightarrow> 'p wallet_store \<Rightarrow> (ffi_error, 'p wallet_store) call" where
  "add_change_hex cr change store = (case change of None \<Rightarrow> ok store | Some out \<Rightarrow> add_pending_hex cr out store)"

definition commit_send ::
    "('p, 's) crypto \<Rightarrow> ('p, 's, 'b, 'j) ffi_codec \<Rightarrow> 'b \<Rightarrow> string list \<Rightarrow> ffi_owned_output \<Rightarrow> ffi_owned_output option \<Rightarrow>
       (ffi_error, 'b) call" where
  "commit_send cr cd store_bytes spent_commitments_hex dest change =
     attempt (require (store_from_bytes cd store_bytes) FfiInvalidStore) (\<lambda>store.
     attempt (mark_spent_hex cr spent_commitments_hex store) (\<lambda>store.
     attempt (add_pending_hex cr dest store) (\<lambda>store.
     attempt (add_change_hex cr change store) (\<lambda>store.
     ok (store_to_bytes cd store)))))"


section \<open>Seed rotation\<close>

record 'j ffi_rotate_seed_result =
  fx_transaction_json :: 'j
  fx_spent_commitments_hex :: "string list"
  fx_dest :: ffi_owned_output

text \<open>The recipient's nonces \<open>note_nonce\<close> and \<open>k\<close> are drawn by \<open>respond_to_slate\<close>.\<close>

definition rotate_seed_transaction ::
    "('p::ab_group_add, 's::comm_ring_1) crypto \<Rightarrow> ('p, 's, 'b, 'j) ffi_codec \<Rightarrow> string option \<Rightarrow>
       (('p, 's) transaction \<Rightarrow> u64 option) \<Rightarrow> (nat \<Rightarrow> 's slate_random) \<Rightarrow> byte list \<Rightarrow> 's \<Rightarrow> 'b \<Rightarrow> 'b \<Rightarrow> 'b \<Rightarrow> u64 \<Rightarrow>
       (ffi_error, 'j ffi_rotate_seed_result) call" where
  "rotate_seed_transaction cr cd treasury_var size_of rnd note_nonce k old_keystore_bytes store_bytes new_keystore_bytes tx_fee' =
     attempt (require (keystore_from_bytes cd old_keystore_bytes) FfiInvalidKeystore) (\<lambda>old_keystore.
     attempt (require (store_from_bytes cd store_bytes) FfiInvalidStore) (\<lambda>store.
     attempt (require (keystore_from_bytes cd new_keystore_bytes) FfiInvalidKeystore) (\<lambda>new_keystore.
     if balance store < tx_fee' then err (FfiInsufficientBalance (balance store) tx_fee')
     else let amount = balance store - tx_fee' in
     attempt (planned_call (create_slate cr treasury_var size_of rnd store amount tx_fee' old_keystore))
       (\<lambda>(old_keystore, built_slate, pending).
     let (new_keystore, response, receiver_info) = respond_to_slate cr note_nonce k built_slate new_keystore in
     attempt (map_err (\<lambda>_. FfiIncompleteSlateResponse) (finalize_slate cr pending response)) (\<lambda>tx.
     if ps_change pending \<noteq> None then err FfiUnexpectedRotateChange
     else attempt (require (tx_to_json cd tx) FfiSerializationFailed) (\<lambda>transaction_json.
       ok \<lparr>fx_transaction_json = transaction_json,
           fx_spent_commitments_hex = map (commitment_to_hex cr) (ps_spent_commitments pending),
           fx_dest = owned_of cr (oi_index receiver_info, oi_commitment receiver_info, oi_value receiver_info)\<rparr>))))))"


section \<open>Two-party payments\<close>

record ('b, 'j) ffi_create_slate_result =
  fc_slate_json :: 'j
  fc_pending_slate_bytes :: 'b
  fc_updated_keystore_bytes :: 'b

record ('b, 'j) ffi_respond_result =
  fq_response_slate_json :: 'j
  fq_receiver_output :: ffi_owned_output
  fq_updated_keystore_bytes :: 'b

record 'j ffi_finalized_tx =
  ff_transaction_json :: 'j
  ff_spent_commitments_hex :: "string list"
  ff_change :: "ffi_owned_output option"

definition create_send_slate ::
    "('p::ab_group_add, 's::comm_ring_1) crypto \<Rightarrow> ('p, 's, 'b, 'j) ffi_codec \<Rightarrow> string option \<Rightarrow>
       (('p, 's) transaction \<Rightarrow> u64 option) \<Rightarrow> (nat \<Rightarrow> 's slate_random) \<Rightarrow> 'b \<Rightarrow> 'b \<Rightarrow> u64 \<Rightarrow> u64 \<Rightarrow>
       (ffi_error, ('b, 'j) ffi_create_slate_result) call" where
  "create_send_slate cr cd treasury_var size_of rnd keystore_bytes store_bytes amount tx_fee' =
     attempt (require (keystore_from_bytes cd keystore_bytes) FfiInvalidKeystore) (\<lambda>ks.
     attempt (require (store_from_bytes cd store_bytes) FfiInvalidStore) (\<lambda>store.
     attempt (planned_call (create_slate cr treasury_var size_of rnd store amount tx_fee' ks)) (\<lambda>(ks, built_slate, pending).
     attempt (require (slate_to_json cd built_slate) FfiSerializationFailed) (\<lambda>slate_json.
     attempt (require (pending_to_bytes cd pending) FfiSerializationFailed) (\<lambda>pending_slate_bytes.
     ok \<lparr>fc_slate_json = slate_json, fc_pending_slate_bytes = pending_slate_bytes,
         fc_updated_keystore_bytes = keystore_to_bytes cd ks\<rparr>)))))"

definition ffi_respond_to_slate ::
    "('p::ab_group_add, 's::comm_ring_1) crypto \<Rightarrow> ('p, 's, 'b, 'j) ffi_codec \<Rightarrow> byte list \<Rightarrow> 's \<Rightarrow> 'b \<Rightarrow> 'j \<Rightarrow>
       (ffi_error, ('b, 'j) ffi_respond_result) call" where
  "ffi_respond_to_slate cr cd note_nonce k keystore_bytes slate_json =
     attempt (require (keystore_from_bytes cd keystore_bytes) FfiInvalidKeystore) (\<lambda>ks.
     attempt (require (slate_from_json cd slate_json) FfiInvalidSlateJson) (\<lambda>incoming.
     let (ks, response, owned_output') = respond_to_slate cr note_nonce k incoming ks in
     attempt (require (slate_to_json cd response) FfiSerializationFailed) (\<lambda>response_slate_json.
     ok \<lparr>fq_response_slate_json = response_slate_json,
         fq_receiver_output = owned_of cr (oi_index owned_output', oi_commitment owned_output', oi_value owned_output'),
         fq_updated_keystore_bytes = keystore_to_bytes cd ks\<rparr>)))"

definition change_owned :: "('p, 's) crypto \<Rightarrow> ('p, 's) pending_slate \<Rightarrow> ffi_owned_output option" where
  "change_owned cr pending =
     map_option (\<lambda>c. owned_of cr (ci_index c, out_commitment (ci_output c), ci_value c)) (ps_change pending)"

definition ffi_finalize_slate ::
    "('p::ab_group_add, 's::comm_ring_1) crypto \<Rightarrow> ('p, 's, 'b, 'j) ffi_codec \<Rightarrow> 'b \<Rightarrow> 'j \<Rightarrow> (ffi_error, 'j ffi_finalized_tx) call" where
  "ffi_finalize_slate cr cd pending_slate_bytes response_slate_json =
     attempt (require (pending_from_bytes cd pending_slate_bytes) FfiInvalidPendingSlate) (\<lambda>pending.
     attempt (require (slate_from_json cd response_slate_json) FfiInvalidSlateJson) (\<lambda>response.
     attempt (map_err (\<lambda>_. FfiIncompleteSlateResponse) (finalize_slate cr pending response)) (\<lambda>transaction.
     attempt (require (tx_to_json cd transaction) FfiSerializationFailed) (\<lambda>transaction_json.
     ok \<lparr>ff_transaction_json = transaction_json,
         ff_spent_commitments_hex = map (commitment_to_hex cr) (ps_spent_commitments pending),
         ff_change = change_owned cr pending\<rparr>))))"

definition commit_receive ::
    "('p, 's) crypto \<Rightarrow> ('p, 's, 'b, 'j) ffi_codec \<Rightarrow> 'b \<Rightarrow> ffi_owned_output \<Rightarrow> (ffi_error, 'b) call" where
  "commit_receive cr cd store_bytes output =
     attempt (require (store_from_bytes cd store_bytes) FfiInvalidStore) (\<lambda>store.
     attempt (add_pending_hex cr output store) (\<lambda>store.
     ok (store_to_bytes cd store)))"

definition commit_slate_send ::
    "('p, 's) crypto \<Rightarrow> ('p, 's, 'b, 'j) ffi_codec \<Rightarrow> 'b \<Rightarrow> string list \<Rightarrow> ffi_owned_output option \<Rightarrow> (ffi_error, 'b) call" where
  "commit_slate_send cr cd store_bytes spent_commitments_hex change =
     attempt (require (store_from_bytes cd store_bytes) FfiInvalidStore) (\<lambda>store.
     attempt (mark_spent_hex cr spent_commitments_hex store) (\<lambda>store.
     attempt (add_change_hex cr change store) (\<lambda>store.
     ok (store_to_bytes cd store))))"

record ffi_slate_reservation =
  fv_spent_commitments_hex :: "string list"
  fv_change :: "ffi_owned_output option"

definition pending_slate_reservation ::
    "('p, 's) crypto \<Rightarrow> ('p, 's, 'b, 'j) ffi_codec \<Rightarrow> 'b \<Rightarrow> (ffi_error, ffi_slate_reservation) call" where
  "pending_slate_reservation cr cd pending_slate_bytes =
     attempt (require (pending_from_bytes cd pending_slate_bytes) FfiInvalidPendingSlate) (\<lambda>pending.
     ok \<lparr>fv_spent_commitments_hex = map (commitment_to_hex cr) (ps_spent_commitments pending),
         fv_change = change_owned cr pending\<rparr>)"


section \<open>Staking and identity\<close>

definition largest_confirmed :: "'p wallet_store \<Rightarrow> u64 \<Rightarrow> (ffi_error, 'p owned_output) call" where
  "largest_confirmed store min_value =
     (case spendable store of
        [] \<Rightarrow> err FfiNoConfirmedBalance
      | largest # _ \<Rightarrow>
          if oo_value largest < min_value then err (FfiBelowMinimumStake (oo_value largest) min_value) else ok largest)"

definition build_stake_request ::
    "('p::ab_group_add, 's::comm_ring_1) crypto \<Rightarrow> ('p, 's, 'b, 'j) ffi_codec \<Rightarrow> string option \<Rightarrow> 's \<Rightarrow> 'b \<Rightarrow> 'b \<Rightarrow> u64 \<Rightarrow>
       (ffi_error, 'j) call" where
  "build_stake_request cr cd treasury_var k keystore_bytes store_bytes min_value =
     attempt (require (keystore_from_bytes cd keystore_bytes) FfiInvalidKeystore) (\<lambda>ks.
     attempt (require (store_from_bytes cd store_bytes) FfiInvalidStore) (\<lambda>store.
     attempt (largest_confirmed store min_value) (\<lambda>largest.
     bind_outcome (blinding_for cr treasury_var ks (oo_index largest)) (\<lambda>blinding.
     let msg = stake_registration_message cr (oo_commitment largest) (oo_value largest) in
     require (stake_to_json cd \<lparr>sr_commitment = oo_commitment largest, sr_value = oo_value largest,
       sr_proof = sign cr k msg blinding\<rparr>) FfiSerializationFailed))))"

definition reveal_stake_blinding_hex ::
    "('p::ab_group_add, 's::comm_ring_1) crypto \<Rightarrow> ('p, 's, 'b, 'j) ffi_codec \<Rightarrow> string option \<Rightarrow> 'b \<Rightarrow> 'b \<Rightarrow> u64 \<Rightarrow>
       (ffi_error, string) call" where
  "reveal_stake_blinding_hex cr cd treasury_var keystore_bytes store_bytes min_value =
     attempt (require (keystore_from_bytes cd keystore_bytes) FfiInvalidKeystore) (\<lambda>ks.
     attempt (require (store_from_bytes cd store_bytes) FfiInvalidStore) (\<lambda>store.
     attempt (largest_confirmed store min_value) (\<lambda>largest.
     bind_outcome (blinding_for cr treasury_var ks (oo_index largest)) (\<lambda>blinding.
     ok (to_hex (scalar_bytes cr blinding))))))"

text \<open>The public key of the wallet's identity, \<open>Commitment(secret * gens.B_blinding)\<close>.\<close>

definition identity_pubkey :: "('p, 's) crypto \<Rightarrow> keystore \<Rightarrow> 'p commitment" where
  "identity_pubkey cr ks = Commitment (smul cr (identity_key cr ks) (gen_B_blinding cr))"

definition wallet_identity_pubkey_hex ::
    "('p, 's) crypto \<Rightarrow> ('p, 's, 'b, 'j) ffi_codec \<Rightarrow> 'b \<Rightarrow> (ffi_error, string) call" where
  "wallet_identity_pubkey_hex cr cd keystore_bytes =
     attempt (require (keystore_from_bytes cd keystore_bytes) FfiInvalidKeystore) (\<lambda>ks.
     ok (commitment_to_hex cr (identity_pubkey cr ks)))"

definition sign_identity_message ::
    "('p::ab_group_add, 's::comm_ring_1) crypto \<Rightarrow> ('p, 's, 'b, 'j) ffi_codec \<Rightarrow> 's \<Rightarrow> 'b \<Rightarrow> string \<Rightarrow> (ffi_error, string) call" where
  "sign_identity_message cr cd k keystore_bytes message =
     attempt (require (keystore_from_bytes cd keystore_bytes) FfiInvalidKeystore) (\<lambda>ks.
     ok (signature_to_hex cr (sign cr k (bytes_of message) (identity_key cr ks))))"

definition parse_hex :: "('p, 's) crypto \<Rightarrow> string \<Rightarrow> (ffi_error, 'p commitment) call" where
  "parse_hex cr hex = require_parsed (commitment_from_hex cr hex) (FfiInvalidHex hex)"

definition verify_identity_signature ::
    "('p::ab_group_add, 's::comm_ring_1) crypto \<Rightarrow> string \<Rightarrow> string \<Rightarrow> string \<Rightarrow> (ffi_error, bool) call" where
  "verify_identity_signature cr pubkey_hex message signature_hex =
     attempt (parse_hex cr pubkey_hex) (\<lambda>pubkey.
     attempt (require_parsed (signature_from_hex cr signature_hex) (FfiInvalidHex signature_hex)) (\<lambda>sig.
     ok (verify cr sig (bytes_of message) pubkey)))"


section \<open>Names\<close>

record ('b, 'j) ffi_register_name_result =
  fn_op_json :: 'j
  fn_updated_keystore_bytes :: 'b
  fn_spent_commitments_hex :: "string list"
  fn_change :: "ffi_owned_output option"

text \<open>The fee-paying transaction of a registration or a mint: coin selection from the confirmed outputs, the
  change, and the kernel. The three builders of the source repeat it.\<close>

definition build_fee_payment ::
    "('p::ab_group_add, 's::comm_ring_1) crypto \<Rightarrow> string option \<Rightarrow> 's fee_random \<Rightarrow> 'p wallet_store \<Rightarrow> u64 \<Rightarrow> keystore \<Rightarrow>
       (ffi_error, keystore \<times> ('p, 's) transaction \<times> string list \<times> ffi_owned_output option) call" where
  "build_fee_payment cr treasury_var rnd store tx_fee' ks =
     attempt (map_err insufficient (select_spendable_confirmed_only store tx_fee')) (\<lambda>selected.
     let selected_total = sum_list (map planned_value selected) in
     bind_outcome (input_blindings cr treasury_var ks selected) (\<lambda>blindings.
     let inputs = map (\<lambda>p. \<lparr>in_commitment = planned_commitment p\<rparr>) selected;
         spent_commitments_hex = map (\<lambda>p. commitment_to_hex cr (planned_commitment p)) selected;
         change_value = selected_total - tx_fee';
         (outputs, change, change_blinding, ks) =
           (if 0 < change_value
            then let (change_index, ks) = allocate_index ks;
                     out = own_output cr ks (fr_change_nonce rnd) change_index change_value
                 in ([out], Some (owned_of cr (change_index, out_commitment out, change_value)),
                     derive_blinding cr ks change_index, ks)
            else ([], None, 0, ks));
         excess_r = sum_list blindings - change_blinding;
         kernel = \<lparr>excess = commitment_new cr 0 excess_r, fee = tx_fee',
           kernel_sig = sign cr (fr_sign_nonce rnd) (u64_le tx_fee') excess_r\<rparr>
     in ok (ks, \<lparr>tx_inputs = inputs, tx_outputs = outputs, tx_kernels = [kernel]\<rparr>, spent_commitments_hex, change)))"

definition build_register_name_request ::
    "('p::ab_group_add, 's::comm_ring_1) crypto \<Rightarrow> ('p, 's, 'b, 'j) ffi_codec \<Rightarrow> string option \<Rightarrow> 's fee_random \<Rightarrow> 's \<Rightarrow>
       'b \<Rightarrow> 'b \<Rightarrow> string \<Rightarrow> u64 \<Rightarrow> (ffi_error, ('b, 'j) ffi_register_name_result) call" where
  "build_register_name_request cr cd treasury_var rnd k keystore_bytes store_bytes name tx_fee' =
     attempt (map_err (\<lambda>e. FfiInvalidName (name_error_debug e)) (validate_name name)) (\<lambda>_.
     if tx_fee' < NAME_REGISTRATION_FEE then err (FfiFeeBelowRegistrationFloor NAME_REGISTRATION_FEE)
     else
     attempt (require (keystore_from_bytes cd keystore_bytes) FfiInvalidKeystore) (\<lambda>ks.
     attempt (require (store_from_bytes cd store_bytes) FfiInvalidStore) (\<lambda>store.
     attempt (build_fee_payment cr treasury_var rnd store tx_fee' ks) (\<lambda>(ks, fee_payment, spent_commitments_hex, change).
     let owner_secret = identity_key cr ks;
         owner_pubkey = identity_pubkey cr ks;
         op = \<lparr>rn_name = name, rn_owner_pubkey = owner_pubkey, rn_resolves_to = owner_pubkey,
           rn_fee_payment = fee_payment, rn_signature = register_name_sign cr k name owner_secret\<rparr>
     in attempt (require (name_to_json cd op) FfiSerializationFailed) (\<lambda>op_json.
     ok \<lparr>fn_op_json = op_json, fn_updated_keystore_bytes = keystore_to_bytes cd ks,
         fn_spent_commitments_hex = spent_commitments_hex, fn_change = change\<rparr>)))))"

definition build_sponsored_register_name_request ::
    "('p::ab_group_add, 's::comm_ring_1) crypto \<Rightarrow> ('p, 's, 'b, 'j) ffi_codec \<Rightarrow> 's \<Rightarrow> 'b \<Rightarrow> string \<Rightarrow> (ffi_error, 'j) call" where
  "build_sponsored_register_name_request cr cd k keystore_bytes name =
     attempt (map_err (\<lambda>e. FfiInvalidName (name_error_debug e)) (validate_name name)) (\<lambda>_.
     attempt (require (keystore_from_bytes cd keystore_bytes) FfiInvalidKeystore) (\<lambda>ks.
     let owner_pubkey = identity_pubkey cr ks in
     require (sponsored_to_json cd \<lparr>rq_name = name, rq_owner_pubkey = owner_pubkey, rq_resolves_to = owner_pubkey,
       rq_signature = register_name_sign cr k name (identity_key cr ks)\<rparr>) FfiSerializationFailed))"

definition commit_register_name ::
    "('p, 's) crypto \<Rightarrow> ('p, 's, 'b, 'j) ffi_codec \<Rightarrow> 'b \<Rightarrow> string list \<Rightarrow> ffi_owned_output option \<Rightarrow> (ffi_error, 'b) call" where
  "commit_register_name cr cd store_bytes spent_commitments_hex change =
     attempt (require (store_from_bytes cd store_bytes) FfiInvalidStore) (\<lambda>store.
     attempt (mark_spent_hex cr spent_commitments_hex store) (\<lambda>store.
     attempt (add_change_hex cr change store) (\<lambda>store.
     ok (store_to_bytes cd store))))"

definition build_transfer_name_request ::
    "('p::ab_group_add, 's::comm_ring_1) crypto \<Rightarrow> ('p, 's, 'b, 'j) ffi_codec \<Rightarrow> 's \<Rightarrow> 'b \<Rightarrow> string \<Rightarrow> string \<Rightarrow> string \<Rightarrow>
       (ffi_error, 'j) call" where
  "build_transfer_name_request cr cd k keystore_bytes name new_owner_pubkey_hex new_resolves_to_hex =
     attempt (require (keystore_from_bytes cd keystore_bytes) FfiInvalidKeystore) (\<lambda>ks.
     attempt (parse_hex cr new_owner_pubkey_hex) (\<lambda>new_owner_pubkey.
     attempt (parse_hex cr new_resolves_to_hex) (\<lambda>new_resolves_to.
     require (transfer_name_to_json cd \<lparr>tn_name = name, tn_new_owner_pubkey = new_owner_pubkey,
       tn_new_resolves_to = new_resolves_to,
       tn_signature = transfer_name_sign cr k name new_owner_pubkey new_resolves_to (identity_key cr ks)\<rparr>)
       FfiSerializationFailed)))"


section \<open>Assets and listings\<close>

record ('b, 'j) ffi_mint_asset_result =
  fm_op_json :: 'j
  fm_updated_keystore_bytes :: 'b
  fm_spent_commitments_hex :: "string list"
  fm_change :: "ffi_owned_output option"

definition build_mint_asset_request ::
    "('p::ab_group_add, 's::comm_ring_1) crypto \<Rightarrow> ('p, 's, 'b, 'j) ffi_codec \<Rightarrow> string option \<Rightarrow> 's fee_random \<Rightarrow> 's \<Rightarrow>
       'b \<Rightarrow> 'b \<Rightarrow> string \<Rightarrow> string \<Rightarrow> u64 \<Rightarrow> (ffi_error, ('b, 'j) ffi_mint_asset_result) call" where
  "build_mint_asset_request cr cd treasury_var rnd k keystore_bytes store_bytes asset_id metadata tx_fee' =
     attempt (map_err (\<lambda>e. FfiInvalidAssetId (asset_error_debug e)) (validate_asset_id asset_id)) (\<lambda>_.
     if tx_fee' < ASSET_MINT_FEE then err (FfiFeeBelowAssetMintFloor ASSET_MINT_FEE)
     else if MAX_METADATA_BYTES < length metadata then err (FfiMetadataTooLarge (word_of_nat MAX_METADATA_BYTES))
     else
     attempt (require (keystore_from_bytes cd keystore_bytes) FfiInvalidKeystore) (\<lambda>ks.
     attempt (require (store_from_bytes cd store_bytes) FfiInvalidStore) (\<lambda>store.
     attempt (build_fee_payment cr treasury_var rnd store tx_fee' ks) (\<lambda>(ks, fee_payment, spent_commitments_hex, change).
     let metadata_bytes = bytes_of metadata;
         owner_secret = identity_key cr ks;
         op = \<lparr>ma_asset_id = asset_id, ma_owner_pubkey = identity_pubkey cr ks, ma_metadata = metadata_bytes,
           ma_fee_payment = fee_payment, ma_collection_id = None, ma_phase_index = None, ma_allowlist_proof = None,
           ma_allowlist_leaf_index = None, ma_required_kernel_excess = None,
           ma_signature = mint_asset_sign cr k asset_id metadata_bytes None None None owner_secret,
           ma_creator_signature = None\<rparr>
     in attempt (require (mint_to_json cd op) FfiMintSerializationFailed) (\<lambda>op_json.
     ok \<lparr>fm_op_json = op_json, fm_updated_keystore_bytes = keystore_to_bytes cd ks,
         fm_spent_commitments_hex = spent_commitments_hex, fm_change = change\<rparr>)))))"

definition commit_mint_asset ::
    "('p, 's) crypto \<Rightarrow> ('p, 's, 'b, 'j) ffi_codec \<Rightarrow> 'b \<Rightarrow> string list \<Rightarrow> ffi_owned_output option \<Rightarrow> (ffi_error, 'b) call" where
  "commit_mint_asset cr cd store_bytes spent_commitments_hex change =
     attempt (require (store_from_bytes cd store_bytes) FfiInvalidStore) (\<lambda>store.
     attempt (mark_spent_hex cr spent_commitments_hex store) (\<lambda>store.
     attempt (add_change_hex cr change store) (\<lambda>store.
     ok (store_to_bytes cd store))))"

definition build_transfer_asset_request ::
    "('p::ab_group_add, 's::comm_ring_1) crypto \<Rightarrow> ('p, 's, 'b, 'j) ffi_codec \<Rightarrow> 's \<Rightarrow> 'b \<Rightarrow> string \<Rightarrow> string \<Rightarrow>
       string option \<Rightarrow> string option \<Rightarrow> (ffi_error, 'j) call" where
  "build_transfer_asset_request cr cd k keystore_bytes asset_id new_owner_pubkey_hex required_kernel_excess_hex
       required_royalty_kernel_excess_hex =
     attempt (require (keystore_from_bytes cd keystore_bytes) FfiInvalidKeystore) (\<lambda>ks.
     attempt (parse_hex cr new_owner_pubkey_hex) (\<lambda>new_owner_pubkey.
     attempt (optional (parse_hex cr) required_kernel_excess_hex) (\<lambda>required_kernel_excess.
     attempt (optional (parse_hex cr) required_royalty_kernel_excess_hex) (\<lambda>required_royalty_kernel_excess.
     require (transfer_asset_to_json cd \<lparr>ta_asset_id = asset_id, ta_new_owner_pubkey = new_owner_pubkey,
       ta_required_kernel_excess = required_kernel_excess,
       ta_required_royalty_kernel_excess = required_royalty_kernel_excess,
       ta_signature = transfer_asset_sign cr k asset_id new_owner_pubkey required_kernel_excess
         required_royalty_kernel_excess (identity_key cr ks)\<rparr>) FfiTransferSerializationFailed))))"

definition tx_kernel_excess_hex :: "('p, 's) crypto \<Rightarrow> ('p, 's, 'b, 'j) ffi_codec \<Rightarrow> 'j \<Rightarrow> (ffi_error, string) call" where
  "tx_kernel_excess_hex cr cd transaction_json =
     attempt (require (tx_from_json cd transaction_json) FfiInvalidTransactionJson) (\<lambda>tx.
     case tx_kernels tx of
       [] \<Rightarrow> err FfiTransactionHasNoKernels
     | first # _ \<Rightarrow> ok (commitment_to_hex cr (excess first)))"

definition build_create_listing_request ::
    "('p::ab_group_add, 's::comm_ring_1) crypto \<Rightarrow> ('p, 's, 'b, 'j) ffi_codec \<Rightarrow> 's \<Rightarrow> 'b \<Rightarrow> string \<Rightarrow> u64 \<Rightarrow> u64 \<Rightarrow>
       (ffi_error, 'j) call" where
  "build_create_listing_request cr cd k keystore_bytes asset_id price listed_at =
     attempt (require (keystore_from_bytes cd keystore_bytes) FfiInvalidKeystore) (\<lambda>ks.
     let seller_pubkey = identity_pubkey cr ks in
     require (listing_to_json cd \<lparr>li_asset_id = asset_id, li_seller_pubkey = seller_pubkey, li_price = price,
       li_listed_at = listed_at,
       li_signature = listing_sign cr k asset_id seller_pubkey price listed_at (identity_key cr ks)\<rparr>)
       FfiListingSerializationFailed)"

definition build_cancel_listing_request ::
    "('p::ab_group_add, 's::comm_ring_1) crypto \<Rightarrow> ('p, 's, 'b, 'j) ffi_codec \<Rightarrow> 's \<Rightarrow> 'b \<Rightarrow> string \<Rightarrow> (ffi_error, 'j) call" where
  "build_cancel_listing_request cr cd k keystore_bytes asset_id =
     attempt (require (keystore_from_bytes cd keystore_bytes) FfiInvalidKeystore) (\<lambda>ks.
     let seller_pubkey = identity_pubkey cr ks in
     require (cancel_to_json cd \<lparr>cr_asset_id = asset_id, cr_seller_pubkey = seller_pubkey,
       cr_signature = sign cr k (cancel_message cr asset_id seller_pubkey) (identity_key cr ks)\<rparr>)
       FfiCancellationSerializationFailed)"


section \<open>Collections\<close>

text \<open>\<open>phase_bytes\<close> is the bincode encoding of the phases inside the signed message.\<close>

definition build_launch_collection_request ::
    "('p::ab_group_add, 's::comm_ring_1) crypto \<Rightarrow> ('p, 's, 'b, 'j) ffi_codec \<Rightarrow> (mint_phase list \<Rightarrow> byte list) \<Rightarrow> 's \<Rightarrow> 'b \<Rightarrow>
       string \<Rightarrow> string \<Rightarrow> string \<Rightarrow> string \<Rightarrow> 'j \<Rightarrow> u16 \<Rightarrow> (ffi_error, 'j) call" where
  "build_launch_collection_request cr cd phase_bytes k keystore_bytes collection_id name symbol metadata phases_json royalty_bps =
     (if MAX_ROYALTY_BPS < royalty_bps then err (FfiRoyaltyTooHigh MAX_ROYALTY_BPS)
      else
      attempt (require (keystore_from_bytes cd keystore_bytes) FfiInvalidKeystore) (\<lambda>ks.
      let creator_pubkey = identity_pubkey cr ks in
      attempt (map_err FfiInvalidPhasesJson (phases_from_json cd phases_json)) (\<lambda>phases.
      let metadata_bytes = bytes_of metadata in
      require (launch_to_json cd \<lparr>lc_collection_id = collection_id, lc_creator_pubkey = creator_pubkey, lc_name = name,
        lc_symbol = symbol, lc_metadata = metadata_bytes, lc_phases = phases, lc_royalty_bps = royalty_bps,
        lc_signature = launch_collection_sign cr k phase_bytes collection_id creator_pubkey name symbol metadata_bytes phases
          royalty_bps (identity_key cr ks)\<rparr>) FfiCollectionLaunchSerializationFailed)))"

definition build_collection_mint_asset_request ::
    "('p::ab_group_add, 's::comm_ring_1) crypto \<Rightarrow> ('p, 's, 'b, 'j) ffi_codec \<Rightarrow> string option \<Rightarrow> 's fee_random \<Rightarrow> 's \<Rightarrow>
       'b \<Rightarrow> 'b \<Rightarrow> string \<Rightarrow> string \<Rightarrow> u64 \<Rightarrow> string \<Rightarrow> u32 \<Rightarrow> string list option \<Rightarrow> u32 option \<Rightarrow> string option \<Rightarrow>
       (ffi_error, ('b, 'j) ffi_mint_asset_result) call" where
  "build_collection_mint_asset_request cr cd treasury_var rnd k keystore_bytes store_bytes asset_id metadata tx_fee'
       collection_id phase_index allowlist_proof_hex allowlist_leaf_index required_kernel_excess_hex =
     attempt (map_err (\<lambda>e. FfiInvalidAssetId (asset_error_debug e)) (validate_asset_id asset_id)) (\<lambda>_.
     if tx_fee' < ASSET_MINT_FEE then err (FfiFeeBelowAssetMintFloor ASSET_MINT_FEE)
     else if MAX_METADATA_BYTES < length metadata then err (FfiMetadataTooLarge (word_of_nat MAX_METADATA_BYTES))
     else
     attempt (require (keystore_from_bytes cd keystore_bytes) FfiInvalidKeystore) (\<lambda>ks.
     attempt (require (store_from_bytes cd store_bytes) FfiInvalidStore) (\<lambda>store.
     attempt (build_fee_payment cr treasury_var rnd store tx_fee' ks) (\<lambda>(ks, fee_payment, spent_commitments_hex, change).
     let metadata_bytes = bytes_of metadata;
         owner_secret = identity_key cr ks in
     attempt (optional (collect_calls hex_to_32) allowlist_proof_hex) (\<lambda>allowlist_proof.
     attempt (optional (parse_hex cr) required_kernel_excess_hex) (\<lambda>required_kernel_excess.
     let op = \<lparr>ma_asset_id = asset_id, ma_owner_pubkey = identity_pubkey cr ks, ma_metadata = metadata_bytes,
           ma_fee_payment = fee_payment, ma_collection_id = Some collection_id, ma_phase_index = Some phase_index,
           ma_allowlist_proof = allowlist_proof, ma_allowlist_leaf_index = allowlist_leaf_index,
           ma_required_kernel_excess = required_kernel_excess,
           ma_signature = mint_asset_sign cr k asset_id metadata_bytes (Some collection_id) (Some phase_index)
             required_kernel_excess owner_secret,
           ma_creator_signature = None\<rparr>
     in attempt (require (mint_to_json cd op) FfiMintSerializationFailed) (\<lambda>op_json.
     ok \<lparr>fm_op_json = op_json, fm_updated_keystore_bytes = keystore_to_bytes cd ks,
         fm_spent_commitments_hex = spent_commitments_hex, fm_change = change\<rparr>)))))))"

definition attach_creator_signature_to_mint ::
    "('p, 's) crypto \<Rightarrow> ('p, 's, 'b, 'j) ffi_codec \<Rightarrow> 'j \<Rightarrow> string \<Rightarrow> (ffi_error, 'j) call" where
  "attach_creator_signature_to_mint cr cd op_json creator_signature_hex =
     attempt (require (mint_from_json cd op_json) FfiInvalidMintOpJson) (\<lambda>op.
     attempt (require_parsed (signature_from_hex cr creator_signature_hex) (FfiInvalidHex creator_signature_hex)) (\<lambda>sig.
     require (mint_to_json cd (op\<lparr>ma_creator_signature := Some sig\<rparr>)) FfiMintSerializationFailed))"

definition sign_collection_mint_approval ::
    "('p::ab_group_add, 's::comm_ring_1) crypto \<Rightarrow> ('p, 's, 'b, 'j) ffi_codec \<Rightarrow> 's \<Rightarrow> 'b \<Rightarrow> string \<Rightarrow> string \<Rightarrow> u32 \<Rightarrow> string \<Rightarrow>
       string \<Rightarrow> (ffi_error, string) call" where
  "sign_collection_mint_approval cr cd k keystore_bytes asset_id collection_id phase_index required_kernel_excess_hex
       owner_pubkey_hex =
     attempt (require (keystore_from_bytes cd keystore_bytes) FfiInvalidKeystore) (\<lambda>ks.
     attempt (parse_hex cr required_kernel_excess_hex) (\<lambda>required_kernel_excess.
     attempt (parse_hex cr owner_pubkey_hex) (\<lambda>owner_pubkey.
     ok (signature_to_hex cr (sign_collection_approval cr k asset_id collection_id phase_index required_kernel_excess
       owner_pubkey (identity_key cr ks))))))"

record ffi_merkle_proof_result =
  fk_proof_hex :: "string list"
  fk_leaf_index :: u32
  fk_root_hex :: string

definition compute_allowlist_merkle_proof ::
    "('p, 's) crypto \<Rightarrow> string list \<Rightarrow> string \<Rightarrow> (ffi_error, ffi_merkle_proof_result) call" where
  "compute_allowlist_merkle_proof cr pubkeys_hex target_pubkey_hex =
     attempt (collect_calls (parse_hex cr) pubkeys_hex) (\<lambda>pubkeys.
     attempt (parse_hex cr target_pubkey_hex) (\<lambda>target.
     attempt (require (position (\<lambda>p. p = target) pubkeys) FfiTargetNotInAllowlist) (\<lambda>leaf_index.
     let leaves = map (allowlist_leaf cr) pubkeys in
     bind_outcome (build_merkle_proof cr leaves leaf_index) (\<lambda>proof.
     ok \<lparr>fk_proof_hex = map to_hex proof, fk_leaf_index = word_of_nat leaf_index,
         fk_root_hex = to_hex (merkle_root cr leaves)\<rparr>))))"

definition sign_allowlist_publish ::
    "('p::ab_group_add, 's::comm_ring_1) crypto \<Rightarrow> ('p, 's, 'b, 'j) ffi_codec \<Rightarrow> 's \<Rightarrow> 'b \<Rightarrow> string \<Rightarrow> u32 \<Rightarrow> string list \<Rightarrow> u64 \<Rightarrow>
       (ffi_error, 'j) call" where
  "sign_allowlist_publish cr cd k keystore_bytes collection_id phase_index pubkeys_hex published_at =
     attempt (require (keystore_from_bytes cd keystore_bytes) FfiInvalidKeystore) (\<lambda>ks.
     attempt (collect_calls (parse_hex cr) pubkeys_hex) (\<lambda>pubkeys.
     require (allowlist_to_json cd \<lparr>ae_collection_id = collection_id, ae_phase_index = phase_index,
       ae_creator_pubkey = identity_pubkey cr ks, ae_pubkeys = pubkeys, ae_published_at = published_at,
       ae_signature = allowlist_sign cr k collection_id phase_index pubkeys published_at (identity_key cr ks)\<rparr>)
       FfiAllowlistSerializationFailed))"

end
