(* ===== verification/Bindings.thy ===== *)
theory Bindings
  imports Proposer Ffi
begin

text \<open>
  What the calls of the bindings guarantee: the requests they build are the requests the node's
  handlers accept, committing a payment keeps the local ledger in balance, a reserved slate is left
  alone by the next one, rewards are swept by a valid transaction, proofs of membership and approvals
  survive the trip through hexadecimal text, and what rotating a seed leaves behind.
\<close>

section \<open>The codec\<close>

text \<open>What the serialisers promise: a value that was serialised is read back as it was.\<close>

definition reads_back :: "('a \<Rightarrow> 'b option) \<Rightarrow> ('b \<Rightarrow> 'a option) \<Rightarrow> bool" where
  "reads_back enc dec \<longleftrightarrow> (\<forall>x. \<exists>b. enc x = Some b \<and> dec b = Some x)"

definition ffi_codec_laws :: "('p, 's, 'b, 'j) ffi_codec \<Rightarrow> bool" where
  "ffi_codec_laws cd \<longleftrightarrow>
     (\<forall>ks. keystore_from_bytes cd (keystore_to_bytes cd ks) = Some ks) \<and>
     (\<forall>store. store_from_bytes cd (store_to_bytes cd store) = Some store) \<and>
     reads_back (pending_to_bytes cd) (pending_from_bytes cd) \<and> reads_back (tx_to_json cd) (tx_from_json cd) \<and>
     reads_back (slate_to_json cd) (slate_from_json cd) \<and> reads_back (mint_to_json cd) (mint_from_json cd)"

lemma codec_reads [simp]:
  assumes "ffi_codec_laws cd"
  shows "keystore_from_bytes cd (keystore_to_bytes cd ks) = Some ks"
    and "store_from_bytes cd (store_to_bytes cd store) = Some store"
    and "pending_to_bytes cd pending = Some b \<Longrightarrow> pending_from_bytes cd b = Some pending"
    and "mint_to_json cd op = Some j \<Longrightarrow> mint_from_json cd j = Some op"
  using assms by (auto simp: ffi_codec_laws_def reads_back_def) (metis option.inject)+

lemma codec_writes:
  assumes "ffi_codec_laws cd"
  shows "\<exists>b. pending_to_bytes cd pending = Some b" "\<exists>j. tx_to_json cd tx = Some j"
    "\<exists>j. slate_to_json cd sl = Some j" "\<exists>j. mint_to_json cd op = Some j"
  using assms unfolding ffi_codec_laws_def reads_back_def by blast+

text \<open>The hexadecimal texts a call returns are the ones another call parses.\<close>

lemma parse_printed [simp]:
  assumes "compress_laws cr"
  shows "parse_commitment cr (commitment_to_hex cr c) = ok c" "parse_hex cr (commitment_to_hex cr c) = ok c"
  using commitment_hex_roundtrip [OF assms] by (simp_all add: parse_commitment_def parse_hex_def)

lemma parse_all_printed [simp]:
  assumes "compress_laws cr"
  shows "collect_calls (parse_commitment cr) (map (commitment_to_hex cr) cs) = ok cs"
    "collect_calls (parse_hex cr) (map (commitment_to_hex cr) cs) = ok cs"
  using assms by (simp_all add: collect_calls_ok list_all2_conv_all_nth)

lemma mark_spent_hex_printed [simp]:
  assumes "compress_laws cr"
  shows "mark_spent_hex cr (map (commitment_to_hex cr) cs) store = ok (fold mark_spent cs store)"
  using assms by (induction cs arbitrary: store) simp_all

lemma owned_of_simps [simp]:
  "fo_index (owned_of cr p) = fst p" "fo_value (owned_of cr p) = planned_value p"
  "fo_commitment_hex (owned_of cr p) = commitment_to_hex cr (planned_commitment p)"
  by (auto simp: owned_of_def planned_value_def planned_commitment_def split: prod.splits)

text \<open>The entry a commit adds to the ledger for an output it was handed.\<close>

definition pending_entry :: "'p planned_output \<Rightarrow> 'p owned_output" where
  "pending_entry p = \<lparr>oo_index = fst p, oo_value = planned_value p, oo_commitment = planned_commitment p, oo_status = Pending\<rparr>"

lemma add_pending_printed [simp]:
  assumes "compress_laws cr"
  shows "add_pending_hex cr (owned_of cr p) store = ok (store @ [pending_entry p])"
    "add_change_hex cr (map_option (owned_of cr) change) store =
       ok (store @ (case change of None \<Rightarrow> [] | Some p \<Rightarrow> [pending_entry p]))"
  using assms by (auto simp: add_pending_hex_def add_change_hex_def add_output_def pending_entry_def split: option.splits)


section \<open>The ledger across a payment\<close>

text \<open>What the ledger counts as money: everything not marked spent.\<close>

definition unspent_total :: "'p wallet_store \<Rightarrow> u64" where
  "unspent_total store = balance store + pending_balance store"

lemma unspent_total_sum: "unspent_total store = (\<Sum>o' \<leftarrow> filter (\<lambda>o'. oo_status o' \<noteq> Spent) store. oo_value o')"
  by (induction store) (auto simp: unspent_total_def balance_def pending_balance_def split: output_status.splits,
      (metis output_status.exhaust)+)

lemma unspent_total_append [simp]: "unspent_total (store @ os) = unspent_total store + unspent_total os"
  by (simp add: unspent_total_sum)

lemma unspent_total_marked:
  assumes dist: "distinct (map oo_commitment store)" and os: "mset os \<subseteq># mset store"
    and unspent: "\<forall>o' \<in> set os. oo_status o' \<noteq> Spent"
  shows "unspent_total (fold mark_spent (map oo_commitment os) store) = unspent_total store - (\<Sum>o' \<leftarrow> os. oo_value o')"
proof -
  have sub: "set os \<subseteq> set store" using os by (metis set_mset_mono set_mset_mset)
  have picked: "oo_commitment o' \<in> oo_commitment ` set os \<longleftrightarrow> o' \<in> set os" if "o' \<in> set store" for o'
    using that sub dist by (auto simp: distinct_map dest: inj_onD)
  have "distinct store" using dist by (simp add: distinct_map)
  moreover have "distinct os"
    unfolding distinct_count_atmost_1
  proof
    fix a
    have "count (mset os) a \<le> count (mset store) a" by (rule mset_subset_eq_count [OF os])
    with \<open>distinct store\<close> sub show "count (mset os) a = (if a \<in> set os then 1 else 0)"
      by (auto simp: distinct_count_atmost_1 count_mset_0_iff Suc_le_eq antisym split: if_splits)
  qed
  ultimately have "mset os = mset (filter (\<lambda>o'. o' \<in> set os) store)"
    using sub by (intro set_eq_iff_mset_eq_distinct [THEN iffD1]) auto
  then have sum_os: "(\<Sum>o' \<leftarrow> os. oo_value o') = (\<Sum>o' \<leftarrow> filter (\<lambda>o'. o' \<in> set os) store. oo_value o')"
    by (metis mset_map sum_mset_sum_list)
  have "unspent_total (map (\<lambda>o'. if o' \<in> set os then o'\<lparr>oo_status := Spent\<rparr> else o') ss) =
      unspent_total ss - (\<Sum>o' \<leftarrow> filter (\<lambda>o'. o' \<in> set os) ss. oo_value o')" for ss
    using unspent by (induction ss) (auto simp: unspent_total_sum)
  moreover have "fold mark_spent (map oo_commitment os) store =
      map (\<lambda>o'. if o' \<in> set os then o'\<lparr>oo_status := Spent\<rparr> else o') store"
    unfolding mark_all_spent [OF dist] using picked by (intro map_cong) auto
  ultimately show ?thesis by (simp add: sum_os)
qed


text \<open>The outputs a plan announces, and the keystore it leaves.\<close>

lemma build_send_outputs:
  fixes cr :: "('p::ab_group_add, 's::comm_ring_1) crypto"
  assumes "build_send_transaction cr treasury_var rnd store amount f ks = Ret (ks', Inr plan)"
  obtains os v where
    "mset os \<subseteq># mset store" "\<forall>o' \<in> set os. oo_status o' \<noteq> Spent"
    "sp_spent_commitments plan = map oo_commitment os" "v = (\<Sum>o' \<leftarrow> os. oo_value o') - (amount + f)"
    "sp_dest plan = (ks_next_index ks, commitment_new cr amount (derive_blinding cr ks (ks_next_index ks)), amount)"
    "sp_change plan = (if 0 < v then Some (ks_next_index ks + 1,
       commitment_new cr v (derive_blinding cr ks (ks_next_index ks + 1)), v) else None)"
    "ks' = ks\<lparr>ks_next_index := ks_next_index ks + (if 0 < v then 2 else 1)\<rparr>"
proof -
  obtain selected where sel: "select_spendable store (amount + f) = Inr selected"
    using assms by (auto simp: build_send_transaction_def Let_def split: sum.splits)
  then obtain blindings where bs: "input_blindings cr treasury_var ks selected = Ret blindings"
    using assms by (auto simp: build_send_transaction_def Let_def guard_simps)
  obtain os where os: "selected = map planned os" "mset os \<subseteq># mset store" "\<forall>o' \<in> set os. oo_status o' \<noteq> Spent"
    by (rule select_spendable_selects [OF sel]) blast
  have vals: "sum_list (map planned_value selected) = (\<Sum>o' \<leftarrow> os. oo_value o')"
    "map planned_commitment selected = map oo_commitment os"
    by (simp_all add: os(1) comp_def)
  show thesis
    using assms
    by (intro that [OF os(2,3) _ refl])
      (auto simp: build_send_transaction_def sel bs allocate_index_def Let_def vals add.assoc split: if_splits)
qed

text \<open>Indices that no wallet output may carry are far away from those a plan allocates.\<close>

definition index_headroom :: "keystore \<Rightarrow> nat \<Rightarrow> bool" where
  "index_headroom ks n \<longleftrightarrow> unat (ks_next_index ks) + n \<le> unat FAUCET_INDEX"

lemma unat_FAUCET_INDEX: "unat FAUCET_INDEX = 2 ^ 32 - 2"
  by (simp add: FAUCET_INDEX_def)

lemma index_headroom_step:
  assumes "index_headroom ks (n + d)" and "d \<le> 2"
  shows "index_headroom (ks\<lparr>ks_next_index := ks_next_index ks + of_nat d\<rparr>) n"
  using assms unfolding index_headroom_def unat_FAUCET_INDEX
  by (simp add: unat_word_ariths unat_of_nat)

lemma index_headroom_ordinary:
  assumes "index_headroom ks n" and "d < n"
  shows "ks_next_index ks + of_nat d \<noteq> GENESIS_INDEX \<and> ks_next_index ks + of_nat d \<noteq> FAUCET_INDEX"
proof -
  have "unat (ks_next_index ks + of_nat d) = unat (ks_next_index ks) + d"
    using assms unfolding index_headroom_def unat_FAUCET_INDEX by (simp add: unat_word_ariths unat_of_nat)
  moreover have "unat GENESIS_INDEX = 2 ^ 32 - 1" by (simp add: GENESIS_INDEX_def unsigned_minus_1_eq_mask mask_eq_exp_minus_1)
  ultimately show ?thesis using assms unat_FAUCET_INDEX unfolding index_headroom_def by auto
qed

lemma own_entry_opens:
  assumes "idx \<noteq> GENESIS_INDEX" "idx \<noteq> FAUCET_INDEX"
  shows "opens_output cr treasury_var ks (pending_entry (idx, commitment_new cr v (derive_blinding cr ks idx), v))"
  using assms by (simp add: opens_output_def pending_entry_def blinding_for_def planned_value_def planned_commitment_def)

lemma opens_output_status:
  "opens_output cr treasury_var ks (o'\<lparr>oo_status := s\<rparr>) = opens_output cr treasury_var ks o'"
  by (simp add: opens_output_def split: outcome.split)

lemma wallet_opens_mark_spent [simp]:
  "wallet_opens cr treasury_var ks (mark_spent c store) = wallet_opens cr treasury_var ks store"
  by (induction store) (auto simp: wallet_opens_def mark_spent_def opens_output_status)

lemma wallet_opens_mark_all [simp]:
  "wallet_opens cr treasury_var ks (fold mark_spent cs store) = wallet_opens cr treasury_var ks store"
  by (induction cs arbitrary: store) simp_all

lemma wallet_opens_append [simp]:
  "wallet_opens cr treasury_var ks (store @ os) \<longleftrightarrow> wallet_opens cr treasury_var ks store \<and> wallet_opens cr treasury_var ks os"
  by (simp add: wallet_opens_def)

lemma build_send_fee:
  assumes "range_proof_complete cr" and "build_send_transaction cr treasury_var rnd store amount f ks = Ret (ks', Inr plan)"
  shows "tx_fee (sp_transaction plan) = f"
  by (rule build_send_shape [OF assms]) (simp add: tx_fee_def)

lemma plan_send_loop_attempt_headroom:
  assumes "range_proof_complete cr" and "index_headroom ks (2 * length is)"
    and "plan_send_loop cr treasury_var size_of rnd store amount is f0 ks = Ret (ks', Inr plan)"
  obtains i f ks0 where "build_send_transaction cr treasury_var (rnd i) store amount f ks0 = Ret (ks', Inr plan)"
    "ks_seed ks0 = ks_seed ks" "index_headroom ks0 2" "required_fee size_of (sp_transaction plan) \<le> f" "tx_fee (sp_transaction plan) = f"
proof -
  have "\<exists>i f ks0. build_send_transaction cr treasury_var (rnd i) store amount f ks0 = Ret (ks', Inr plan) \<and>
      ks_seed ks0 = ks_seed ks \<and> index_headroom ks0 2 \<and> required_fee size_of (sp_transaction plan) \<le> f"
    using assms(2,3)
  proof (induction "is" arbitrary: f0 ks)
    case (Cons i "is")
    from Cons.prems obtain ks1 plan1 where b: "build_send_transaction cr treasury_var (rnd i) store amount f0 ks = Ret (ks1, Inr plan1)"
      by (cases "build_send_transaction cr treasury_var (rnd i) store amount f0 ks") (auto split: sum.splits)
    show ?case
    proof (cases "required_fee size_of (sp_transaction plan1) \<le> f0")
      case True
      moreover have "index_headroom ks 2" using Cons.prems(1) by (simp add: index_headroom_def)
      ultimately show ?thesis using Cons.prems b by auto
    next
      case False
      with Cons.prems b have more: "plan_send_loop cr treasury_var size_of rnd store amount is
          (required_fee size_of (sp_transaction plan1)) ks1 = Ret (ks', Inr plan)" by (simp add: Let_def)
      obtain v :: u64 where ks1: "ks1 = ks\<lparr>ks_next_index := ks_next_index ks + (if 0 < v then 2 else 1)\<rparr>"
        by (rule build_send_outputs [OF b])
      define d :: nat where "d = (if 0 < v then 2 else 1)"
      have d: "ks1 = ks\<lparr>ks_next_index := ks_next_index ks + of_nat d\<rparr>" "d \<le> 2" by (simp_all add: ks1 d_def)
      have "index_headroom ks (2 * length is + d)" using Cons.prems(1) d(2) by (simp add: index_headroom_def)
      from index_headroom_step [OF this d(2)] have "index_headroom ks1 (2 * length is)" by (simp add: d(1))
      from Cons.IH [OF this more] d(1) show ?thesis by auto
    qed
  qed simp
  then show thesis using that build_send_fee [OF assms(1)] by blast
qed


text \<open>C21. A payment through the bindings keeps the wallet's books: when the wallet can open the outputs it lists, no two of
  them share a commitment and neither indices nor sums overflow, a plan returned by \<open>plan_send_ffi\<close> is a transaction that the
  mempool admits, \<open>commit_send\<close> applied to what the plan announces succeeds, the ledger it returns is worth what it was
  worth before less exactly the fee, and the updated keystore opens every output of that ledger.\<close>

theorem send_keeps_books:
  fixes cr :: "('p::ab_group_add, 's::comm_ring_1) crypto"
  assumes laws: "module_laws cr" "range_proof_complete cr" "compress_laws cr" "ffi_codec_laws cd"
    and blobs: "keystore_from_bytes cd kb = Some ks" "store_from_bytes cd sb = Some store"
    and wallet: "wallet_opens cr treasury_var ks store" "store_total store < 2 ^ 64" "distinct (map oo_commitment store)"
      "index_headroom ks 32"
    and plan: "plan_send_ffi cr cd treasury_var size_of rnd kb sb amount f = ok plan"
    and tx: "tx_from_json cd (fp_transaction_json plan) = Some tx" "unat amount + unat (tx_fee tx) < 2 ^ 64"
    and room: "length (mp_txs mp) < MAX_PENDING_TXS"
  shows "fst (add_transaction cr size_of tx mp) \<and>
    (\<exists>sb' store' ks'. commit_send cr cd sb (fp_spent_commitments_hex plan) (fp_dest plan) (fp_change plan) = ok sb' \<and>
      store_from_bytes cd sb' = Some store' \<and> unspent_total store' = unspent_total store - tx_fee tx \<and>
      keystore_from_bytes cd (fp_updated_keystore_bytes plan) = Some ks' \<and> wallet_opens cr treasury_var ks' store')"
proof -
  obtain ks' p where p: "plan_send cr treasury_var size_of rnd store amount f ks = Ret (ks', Inr p)"
      and fp: "tx_to_json cd (sp_transaction p) = Some (fp_transaction_json plan)"
        "fp_updated_keystore_bytes plan = keystore_to_bytes cd ks'" "fp_dest plan = owned_of cr (sp_dest p)"
        "fp_change plan = map_option (owned_of cr) (sp_change p)"
        "fp_spent_commitments_hex plan = map (commitment_to_hex cr) (sp_spent_commitments p)"
    using plan by (auto simp: plan_send_ffi_def blobs guard_simps)
  have tx': "tx = sp_transaction p"
    using laws(4) fp(1) tx(1) unfolding ffi_codec_laws_def reads_back_def by (metis option.inject)
  have headroom: "index_headroom ks (2 * length [0..<MAX_FEE_FIT_ATTEMPTS])"
    using wallet(4) by (simp add: MAX_FEE_FIT_ATTEMPTS_def)
  obtain i g ks0 where build: "build_send_transaction cr treasury_var (rnd i) store amount g ks0 = Ret (ks', Inr p)"
      and ks0: "ks_seed ks0 = ks_seed ks" "index_headroom ks0 2"
      and paid: "required_fee size_of (sp_transaction p) \<le> g" "tx_fee (sp_transaction p) = g"
    using p unfolding plan_send_def by (rule plan_send_loop_attempt_headroom [OF laws(2) headroom])
  note seed = keystore_seed_only [OF ks0(1)]
  have "validate cr (sp_transaction p) \<and> tx_fee (sp_transaction p) = g"
    by (rule build_send_valid [OF laws(1,2) _ wallet(2) _ build]) (use wallet(1) tx(2) paid(2) tx' in \<open>simp_all add: seed(4)\<close>)
  then have admitted: "fst (add_transaction cr size_of tx mp)"
    using paid room by (simp add: add_transaction_def tx')
  obtain os v where os: "mset os \<subseteq># mset store" "\<forall>o' \<in> set os. oo_status o' \<noteq> Spent"
      "sp_spent_commitments p = map oo_commitment os" and v: "v = (\<Sum>o' \<leftarrow> os. oo_value o') - (amount + g)"
      and dest: "sp_dest p = (ks_next_index ks0, commitment_new cr amount (derive_blinding cr ks0 (ks_next_index ks0)), amount)"
      and change: "sp_change p = (if 0 < v then Some (ks_next_index ks0 + 1,
         commitment_new cr v (derive_blinding cr ks0 (ks_next_index ks0 + 1)), v) else None)"
      and ks': "ks' = ks0\<lparr>ks_next_index := ks_next_index ks0 + (if 0 < v then 2 else 1)\<rparr>"
    by (rule build_send_outputs [OF build])
  let ?kept = "case sp_change p of None \<Rightarrow> [] | Some c \<Rightarrow> [pending_entry c]"
  let ?store = "fold mark_spent (map oo_commitment os) store @ pending_entry (sp_dest p) # ?kept"
  have commit: "commit_send cr cd sb (fp_spent_commitments_hex plan) (fp_dest plan) (fp_change plan) = ok (store_to_bytes cd ?store)"
    using laws(3) by (simp add: commit_send_def blobs fp os(3) del: map_map)
  have "unspent_total (pending_entry (sp_dest p) # ?kept) = amount + v"
    using word_gt_0 [of v] by (auto simp: dest change unspent_total_sum pending_entry_def planned_value_def)
  then have worth: "unspent_total ?store = unspent_total store - tx_fee tx"
    using unspent_total_marked [OF wallet(3) os(1,2)] by (simp add: v tx' paid(2))
  have ordinary: "ks_next_index ks0 + of_nat d \<noteq> GENESIS_INDEX \<and> ks_next_index ks0 + of_nat d \<noteq> FAUCET_INDEX" if "d < 2" for d
    by (rule index_headroom_ordinary [OF ks0(2) that])
  have "ks_seed ks' = ks_seed ks" by (simp add: ks' ks0(1))
  note seed' = keystore_seed_only [OF this]
  have "wallet_opens cr treasury_var ks ?store"
    using wallet(1) own_entry_opens [of _ cr treasury_var ks] ordinary [of 0] ordinary [of 1]
    by (auto simp: wallet_opens_def [of _ _ _ "_ # _"] dest change seed(1) wallet_opens_def [of _ _ _ "[]"])
  then have "wallet_opens cr treasury_var ks' ?store" by (simp only: seed'(4))
  then show ?thesis using admitted commit worth laws(4) by (auto simp: fp(2))
qed


section \<open>Requests the node accepts\<close>

text \<open>The wallet's identity signs for its public key.\<close>

lemma identity_verifies:
  assumes "module_laws cr"
  shows "verify cr (sign cr k msg (identity_key cr ks)) msg (identity_pubkey cr ks)"
  using sign_verify_excess [OF assms, of k msg "identity_key cr ks"]
  by (simp add: identity_pubkey_def commitment_new_zero [OF assms])

lemma identity_index [simp]:
  "identity_key cr (ks\<lparr>ks_next_index := n\<rparr>) = identity_key cr ks"
  "identity_pubkey cr (ks\<lparr>ks_next_index := n\<rparr>) = identity_pubkey cr ks"
  by (simp_all add: identity_key_def identity_pubkey_def)

lemma identity_seed:
  assumes "ks_seed ks' = ks_seed ks"
  shows "identity_key cr ks' = identity_key cr ks" "identity_pubkey cr ks' = identity_pubkey cr ks"
  using assms by (simp_all add: identity_key_def identity_pubkey_def)

text \<open>A fee payment of the bindings is the fee payment of the faucet with the same keys and outputs.\<close>

lemma build_fee_payment_sponsored:
  assumes "build_sponsored_fee_payment cr treasury_var rnd f fa = Ret (fa', Inr (tx, spent, change_index))"
  shows "\<exists>change. build_fee_payment cr treasury_var rnd (fa_store fa) f (fa_keystore fa) =
    ok (fa_keystore fa', tx, map (commitment_to_hex cr) spent, change)"
proof -
  obtain selected where sel: "select_spendable_confirmed_only (fa_store fa) f = Inr selected"
    using assms by (auto simp: build_sponsored_fee_payment_def split: sum.splits)
  then obtain blindings where "input_blindings cr treasury_var (fa_keystore fa) selected = Ret blindings"
    using assms by (auto simp: build_sponsored_fee_payment_def Let_def guard_simps)
  with sel assms show ?thesis
    by (auto simp: build_sponsored_fee_payment_def build_fee_payment_def Let_def comp_def split: prod.splits if_splits)
qed

definition confirmed_total :: "'p wallet_store \<Rightarrow> nat" where
  "confirmed_total store = store_total (filter (\<lambda>o'. oo_status o' = Confirmed) store)"

lemma confirmed_selection:
  assumes "store_total store < 2 ^ 64" and "unat f \<le> confirmed_total store"
  shows "\<exists>selected. select_spendable_confirmed_only store f = Inr selected"
proof -
  have "mset (spendable store) = mset (filter (\<lambda>o'. oo_status o' = Confirmed) store)" by (simp add: spendable_def)
  then have eq: "store_total (spendable store) = confirmed_total store"
    unfolding confirmed_total_def store_total_def sum_mset_sum_list [symmetric] mset_map by simp
  also have "\<dots> \<le> store_total store"
    unfolding confirmed_total_def by (rule store_total_subset) (simp add: multiset_filter_subset)
  finally have "f \<le> snd (select_loop f (spendable store) 0)"
    using assms eq by (intro select_loop_covers) simp_all
  then show ?thesis by (auto simp: select_spendable_confirmed_only_def select_from_def not_less split: prod.splits)
qed

lemma fee_payment_built:
  fixes cr :: "('p::ab_group_add, 's::comm_ring_1) crypto"
  assumes laws: "module_laws cr" "range_proof_complete cr"
    and wallet: "wallet_opens cr treasury_var ks store" "store_total store < 2 ^ 64" "unat f \<le> confirmed_total store"
  obtains ks' tx spent change where "build_fee_payment cr treasury_var rnd store f ks = ok (ks', tx, spent, change)"
    "ks_seed ks' = ks_seed ks" "validate cr tx" "map fee (tx_kernels tx) = [f]"
    "in_commitment ` set (tx_inputs tx) \<subseteq> {oo_commitment o' |o'. o' \<in> set store \<and> oo_status o' = Confirmed}"
    "spent = map (commitment_to_hex cr \<circ> in_commitment) (tx_inputs tx)"
proof -
  let ?fa = "faucet_state_of ks store True :: ('p, 's, string) faucet_state"
  have fa: "fa_keystore ?fa = ks" "fa_store ?fa = store" by (simp_all add: faucet_state_of_def)
  obtain selected where "select_spendable_confirmed_only store f = Inr selected"
    using confirmed_selection [OF wallet(2,3)] by blast
  with build_sponsored_succeeds [of cr treasury_var ?fa] wallet(1) obtain fa' tx spent change_index where
      b: "build_sponsored_fee_payment cr treasury_var rnd f ?fa = Ret (fa', Inr (tx, spent, change_index))"
    unfolding fa by (metis prod_cases3)
  have valid: "validate cr tx \<and> map fee (tx_kernels tx) = [f] \<and> map in_commitment (tx_inputs tx) = spent \<and>
      set spent \<subseteq> {oo_commitment o' |o'. o' \<in> set store \<and> oo_status o' = Confirmed}"
    using fee_payment_valid [OF laws _ _ b] wallet(1,2) by (simp add: fa)
  have seed: "ks_seed (fa_keystore fa') = ks_seed ks" by (rule fee_payment_shape [OF b]) (simp add: fa)
  from build_fee_payment_sponsored [OF b] obtain change where
      "build_fee_payment cr treasury_var rnd store f ks = ok (fa_keystore fa', tx, map (commitment_to_hex cr) spent, change)"
    unfolding fa by blast
  from that [OF this seed] valid show thesis by force
qed

lemma fee_kernel_ok:
  assumes "map fee (tx_kernels tx) = [f]" and "validate cr tx" and "floor \<le> f"
  shows "fee_payment_ok cr floor tx"
  using assms by (cases "tx_kernels tx") (auto simp: fee_payment_ok_def)

text \<open>C25. A registration built on the phone is registered: for a well-formed name that is neither on the chain nor pending and
  a fee of at least the floor that the confirmed outputs of the wallet cover, \<open>build_register_name_request\<close> returns
  a request, and posting it makes the node queue and broadcast a registration of that name for the wallet's identity, whose
  fee is paid by confirmed outputs of the wallet and no others.\<close>

theorem registration_request_accepted:
  assumes laws: "module_laws cr" "range_proof_complete cr" and json: "\<forall>op. name_to_json cd op \<noteq> None"
    and blobs: "keystore_from_bytes cd kb = Some ks" "store_from_bytes cd sb = Some store"
    and wallet: "wallet_opens cr treasury_var ks store" "store_total store < 2 ^ 64" "unat f \<le> confirmed_total store"
    and name: "validate_name name = Inr ()" "NAME_REGISTRATION_FEE \<le> f"
      "name \<notin> Mapping.keys (cs_name_registry (nd_chain nd))"
    and pool: "name \<notin> rn_name ` set (mp_name_ops (nd_mempool nd))"
      "length (mp_name_ops (nd_mempool nd)) < MAX_PENDING_NAME_OPS"
  shows "\<exists>res op. build_register_name_request cr cd treasury_var rnd k kb sb name f = ok res \<and>
    name_to_json cd op = Some (fn_op_json res) \<and>
    handle_register_name cr op nd =
      (nd\<lparr>nd_mempool := (nd_mempool nd)\<lparr>mp_name_ops := mp_name_ops (nd_mempool nd) @ [op]\<rparr>\<rparr>, [Broadcast (NewNameOp op)], Json ()) \<and>
    rn_name op = name \<and> rn_owner_pubkey op = identity_pubkey cr ks \<and> rn_resolves_to op = identity_pubkey cr ks \<and>
    in_commitment ` set (tx_inputs (rn_fee_payment op)) \<subseteq>
      {oo_commitment o' |o'. o' \<in> set store \<and> oo_status o' = Confirmed} \<and>
    fn_spent_commitments_hex res = map (commitment_to_hex cr \<circ> in_commitment) (tx_inputs (rn_fee_payment op))"
proof -
  obtain ks' tx spent change where b: "build_fee_payment cr treasury_var rnd store f ks = ok (ks', tx, spent, change)"
      and seed: "ks_seed ks' = ks_seed ks" and tx: "validate cr tx" "map fee (tx_kernels tx) = [f]"
        "in_commitment ` set (tx_inputs tx) \<subseteq> {oo_commitment o' |o'. o' \<in> set store \<and> oo_status o' = Confirmed}"
        "spent = map (commitment_to_hex cr \<circ> in_commitment) (tx_inputs tx)"
    by (rule fee_payment_built [OF laws wallet])
  let ?op = "\<lparr>rn_name = name, rn_owner_pubkey = identity_pubkey cr ks, rn_resolves_to = identity_pubkey cr ks,
    rn_fee_payment = tx, rn_signature = register_name_sign cr k name (identity_key cr ks)\<rparr>"
  obtain j where j: "name_to_json cd ?op = Some j" using json by blast
  have "build_register_name_request cr cd treasury_var rnd k kb sb name f =
      ok \<lparr>fn_op_json = j, fn_updated_keystore_bytes = keystore_to_bytes cd ks', fn_spent_commitments_hex = spent, fn_change = change\<rparr>"
    using name(2) by (simp add: build_register_name_request_def name(1) blobs b identity_seed [OF seed] Let_def j not_less)
  moreover have "register_name_validate_standalone cr ?op = Inr ()"
    using identity_verifies [OF laws(1)] fee_kernel_ok [OF tx(2,1) name(2)]
    by (simp add: register_name_validate_standalone_def name(1) register_name_sign_def)
  ultimately show ?thesis
    using name(3) pool tx j
    by (intro exI [of _ "\<lparr>fn_op_json = j, fn_updated_keystore_bytes = keystore_to_bytes cd ks', fn_spent_commitments_hex = spent,
        fn_change = change\<rparr>"] exI [of _ ?op]) (auto simp: handle_register_name_def add_name_op_def contains_key_keys list_ex_iff image_iff)
qed




section \<open>The allowlist and the creator's approval\<close>

lemma next_level_hashes:
  assumes "\<forall>bs. length (sha256 cr bs) = 32"
  shows "\<forall>h \<in> set (next_level cr level). length h = 32"
  using assms by (induction cr level rule: next_level.induct) (auto simp: hash_pair_def)

text \<open>A proof is as long as the tree is high, and made of hashes.\<close>

lemma proof_loop_elements:
  assumes hashes: "\<forall>bs. length (sha256 cr bs) = 32"
    and "proof_loop cr level i = Ret path" "\<forall>h \<in> set level. length h = 32" "length level \<le> 2 ^ n"
  shows "length path \<le> n \<and> (\<forall>h \<in> set path. length h = 32)"
  using assms(2-)
proof (induction n arbitrary: level i path)
  case 0
  then show ?case by (auto simp: proof_loop.simps [of cr level])
next
  case (Suc n)
  show ?case
  proof (cases "1 < length level")
    case True
    obtain sibling rest where rest: "proof_loop cr (next_level cr level) (i div 2) = Ret rest" "path = sibling # rest"
        and sibling: "sibling \<in> set level"
      using Suc.prems(1) True
      by (auto simp: proof_loop.simps [of cr level] checked_nth_def Let_def guard_simps split: if_splits)
    have "length (next_level cr level) \<le> 2 ^ n" using Suc.prems(3) by simp
    from Suc.IH [OF rest(1) next_level_hashes [OF hashes] this] rest(2) sibling Suc.prems(2) show ?thesis by auto
  next
    case False
    with Suc.prems(1) show ?thesis by (simp add: proof_loop.simps [of cr level])
  qed
qed

lemma hex_to_32_printed [simp]: "length h = 32 \<Longrightarrow> hex_to_32 (to_hex h) = ok h"
  using hex_loop_all [of h 32] by (simp add: hex_to_32_def)

lemma allowlist_proof_computed:
  assumes laws: "compress_laws cr" "\<forall>bs. length (sha256 cr bs) = 32"
    and target: "target \<in> set pubkeys" "length pubkeys < 2 ^ 32"
  obtains pr path where
    "compute_allowlist_merkle_proof cr (map (commitment_to_hex cr) pubkeys) (commitment_to_hex cr target) = ok pr"
    "collect_calls hex_to_32 (fk_proof_hex pr) = ok path" "length path \<le> 32"
    "fk_root_hex pr = to_hex (merkle_root cr (map (allowlist_leaf cr) pubkeys))"
    "verify_merkle_proof cr (allowlist_leaf cr target) path (unat (fk_leaf_index pr)) (merkle_root cr (map (allowlist_leaf cr) pubkeys))"
proof -
  let ?leaves = "map (allowlist_leaf cr) pubkeys"
  obtain i where i: "position (\<lambda>p. p = target) pubkeys = Some i" "i < length pubkeys" "pubkeys ! i = target"
    using target(1) position_None [of "\<lambda>p. p = target" pubkeys] position_Some [of "\<lambda>p. p = target" pubkeys]
    by (cases "position (\<lambda>p. p = target) pubkeys") (auto simp: list_ex_iff)
  obtain path where path: "proof_loop cr ?leaves i = Ret path" "verify_loop cr (?leaves ! i) path i = root_loop cr ?leaves"
    using proof_loop_complete [of i ?leaves cr] i(2) by auto
  have "\<forall>h \<in> set ?leaves. length h = 32" using laws(2) by (simp add: allowlist_leaf_def)
  from proof_loop_elements [OF laws(2) path(1) this, of 32] target(2)
  have len: "length path \<le> 32" "\<forall>h \<in> set path. length h = 32" by auto
  then have parsed: "collect_calls hex_to_32 (map to_hex path) = ok path"
    by (simp add: collect_calls_ok list_all2_conv_all_nth)
  have idx: "unat (word_of_nat i :: u32) = i" using i(2) target(2) by (simp add: unat_of_nat)
  have root: "merkle_root cr ?leaves = root_loop cr ?leaves" using i(2) by (auto simp: merkle_root_def)
  show thesis
    using laws(1) i path parsed len idx root
    by (intro that [of "\<lparr>fk_proof_hex = map to_hex path, fk_leaf_index = word_of_nat i, fk_root_hex = to_hex (merkle_root cr ?leaves)\<rparr>" path])
      (simp_all add: compute_allowlist_merkle_proof_def build_merkle_proof_def verify_merkle_proof_def)
qed




section \<open>Sweeping block rewards\<close>

text \<open>The reward an output is for the holder of a staking key: its commitment, blinding factor and value.\<close>

definition reward_of ::
    "('p::ab_group_add, 's::comm_ring_1) crypto \<Rightarrow> 's \<Rightarrow> 'p tx_output \<Rightarrow> ('p commitment \<times> 's \<times> u64) option" where
  "reward_of cr key out = do {
     (height, v) \<leftarrow> open_note cr (coinbase_note_key cr key) (out_note out);
     check (commitment_new cr v (coinbase_blinding cr key (ucast height)) = out_commitment out);
     Some (out_commitment out, coinbase_blinding cr key (ucast height), v)
   }"

definition rewards_in ::
    "('p::ab_group_add, 's::comm_ring_1) crypto \<Rightarrow> 's \<Rightarrow> 'p commitment set \<Rightarrow> 'p tx_output list \<Rightarrow> ('p commitment \<times> 's \<times> u64) list" where
  "rewards_in cr key utxos outs = List.map_filter (reward_of cr key) (filter (\<lambda>out. out_commitment out \<in> utxos) outs)"

lemma sweep_entry_scan:
  assumes "compress_laws cr"
  shows "sweep_entry cr key (commitment_to_hex cr ` utxos) (scan_output cr out) =
    Ret (if out_commitment out \<in> utxos then reward_of cr key out else None)"
proof -
  have mem: "commitment_to_hex cr (out_commitment out) \<in> commitment_to_hex cr ` utxos \<longleftrightarrow> out_commitment out \<in> utxos"
    using commitment_to_hex_inject [OF assms] by auto
  show ?thesis
    using hex_loop_all [of "out_note out"]
    by (auto simp: sweep_entry_def scan_output_def ffi_hex_decode_def reward_of_def mem check_def Let_def
        commitment_to_hex_inject [OF assms] split: bind_split)
qed

lemma sweep_fold:
  assumes "compress_laws cr"
  shows "fold_outcome (sweep_step cr key (commitment_to_hex cr ` utxos)) (map (scan_output cr) outs) swept =
    Ret (swept @ rewards_in cr key utxos outs)"
  by (induction outs arbitrary: swept)
    (auto simp: rewards_in_def sweep_step_def sweep_entry_scan [OF assms] map_filter_simps split: option.splits)

lemma reward_opens:
  "(c, r, v) \<in> set (rewards_in cr key utxos outs) \<Longrightarrow> c = commitment_new cr v r \<and> c \<in> utxos"
  by (auto simp: rewards_in_def set_map_filter_Some reward_of_def guard_simps split: if_splits)

text \<open>The outputs the proposer makes for itself are recognised.\<close>

lemma reward_of_coinbase:
  assumes "aead_laws cr" "length nonce = 12" "height < 2 ^ 32"
  shows "reward_of cr key (coinbase_output cr key nonce height v) =
    Some (commitment_new cr v (coinbase_blinding cr key height), coinbase_blinding cr key height, v)"
proof -
  have "unat height < 2 ^ 32" using assms(3) by (simp add: word_less_nat_alt)
  then have "ucast (ucast height :: u32) = height"
    by (simp add: word_unat_eq_iff unsigned_ucast_eq unsigned_take_bit_eq take_bit_nat_eq_self)
  with assms(1,2) show ?thesis
    by (simp add: reward_of_def coinbase_output_def open_note_def seal_def aead_laws_def from_le_bytes_le_bytes Let_def)
qed


lemma rewards_balance:
  fixes cr :: "('p::ab_group_add, 's::comm_ring_1) crypto"
  assumes laws: "module_laws cr" and opens: "\<forall>(c, r, v) \<in> set rewards. c = commitment_new cr v r"
    and small: "(\<Sum>(c, r, v) \<leftarrow> rewards. unat v) < 2 ^ 64"
  shows "sum_points (map (\<lambda>(c, r, v). c) rewards) =
    smul cr (scalar_of_u64 (\<Sum>(c, r, v) \<leftarrow> rewards. v)) (gen_B cr) + smul cr (\<Sum>(c, r, v) \<leftarrow> rewards. r) (gen_B_blinding cr)"
proof -
  have "sum_points (map (\<lambda>(c, r, v). c) rewards) = smul cr (\<Sum>(c, r, v) \<leftarrow> rewards. scalar_of_u64 v) (gen_B cr) +
      smul cr (\<Sum>(c, r, v) \<leftarrow> rewards. r) (gen_B_blinding cr)"
    using opens by (induction rewards) (auto simp: commitment_new_def module_simps [OF laws] algebra_simps)
  moreover have "scalar_of_u64 (\<Sum>(c, r, v) \<leftarrow> rewards. v) = (\<Sum>(c, r, v) \<leftarrow> rewards. scalar_of_u64 v :: 's)"
    using scalar_of_u64_sum_list [of "map (\<lambda>(c, r, v). v) rewards"] small by (simp add: comp_def case_prod_unfold)
  ultimately show ?thesis by simp
qed

text \<open>C28. A validator gets its rewards out: given the outputs the node publishes, its unspent set and the key that
  \<open>reveal_stake_blinding_hex\<close> prints, \<open>sweep_validator_rewards\<close> returns a valid transaction that spends exactly the unspent
  rewards of that key, among them every unspent reward the proposer made in a block below height \<open>2 ^ 32\<close>,
  and pays their sum less the fee to the wallet. The mempool takes it exactly when the fee covers its
  size and there is room: the call itself does not raise the fee.\<close>

theorem rewards_swept:
  fixes cr :: "('p::ab_group_add, 's::comm_ring_1) crypto" and mp :: "('p, 's) mempool"
  assumes laws: "module_laws cr" "range_proof_complete cr" "compress_laws cr" "aead_laws cr" "ffi_codec_laws cd"
    and key: "length (scalar_bytes cr key) = 32" "from_bits cr (scalar_bytes cr key) = key"
    and blobs: "keystore_from_bytes cd kb = Some ks" "scan_from_json cd scan = Some (map (scan_output cr) outs)"
    and rewards: "(\<Sum>(c, r, v) \<leftarrow> rewards_in cr key (set utxos) outs. unat v) < 2 ^ 64"
      "unat f < (\<Sum>(c, r, v) \<leftarrow> rewards_in cr key (set utxos) outs. unat v)"
      "length (rewards_in cr key (set utxos) outs) < 2 ^ 32"
  shows "\<exists>res tx. sweep_validator_rewards cr cd note_nonce k (to_hex (scalar_bytes cr key)) scan
      (map (commitment_to_hex cr) utxos) kb f = ok res \<and> tx_from_json cd (fs_transaction_json res) = Some tx \<and>
    validate cr tx \<and> map in_commitment (tx_inputs tx) = map fst (rewards_in cr key (set utxos) outs) \<and>
    set (map in_commitment (tx_inputs tx)) \<subseteq> set utxos \<and>
    (\<forall>nonce height v. length nonce = 12 \<and> height < 2 ^ 32 \<and> coinbase_output cr key nonce height v \<in> set outs \<and>
       out_commitment (coinbase_output cr key nonce height v) \<in> set utxos \<longrightarrow>
       out_commitment (coinbase_output cr key nonce height v) \<in> in_commitment ` set (tx_inputs tx)) \<and>
    unat (fo_value (fs_dest res)) + unat f = (\<Sum>(c, r, v) \<leftarrow> rewards_in cr key (set utxos) outs. unat v) \<and>
    tx_outputs tx = [own_output cr ks note_nonce (ks_next_index ks) (fo_value (fs_dest res))] \<and>
    (fst (add_transaction cr size_of tx mp) \<longleftrightarrow> required_fee size_of tx \<le> f \<and> length (mp_txs mp) < MAX_PENDING_TXS)"
proof -
  let ?R = "rewards_in cr key (set utxos) outs"
  let ?total = "\<Sum>(c, r, v) \<leftarrow> ?R. v"
  have key': "ffi_scalar_from_hex cr (to_hex (scalar_bytes cr key)) = Ret (Some key)"
    using hex_loop_all [of "scalar_bytes cr key" 32] key by (simp add: ffi_scalar_from_hex_def ffi_hex_decode_def)
  have utxos: "set (map (commitment_to_hex cr) utxos) = commitment_to_hex cr ` set utxos" by simp
  have total: "unat ?total = (\<Sum>(c, r, v) \<leftarrow> ?R. unat v)"
    using rewards(1) unat_sum_list [of "map (\<lambda>(c, r, v). v) ?R"] by (simp add: comp_def case_prod_unfold)
  then have covers: "f < ?total" using rewards(2) by (simp add: word_less_nat_alt)
  have count: "word_of_nat (length ?R) \<noteq> (0 :: u32)"
  proof -
    have "?R \<noteq> []" using rewards(2) by auto
    moreover have "unat (word_of_nat (length ?R) :: u32) = length ?R" using rewards(3) by (simp add: unat_of_nat)
    ultimately show ?thesis by (metis length_0_conv unat_0)
  qed
  let ?v = "?total - f" and ?ks = "ks\<lparr>ks_next_index := ks_next_index ks + 1\<rparr>"
  let ?out = "own_output cr ks note_nonce (ks_next_index ks) ?v"
  let ?r = "(\<Sum>(c, r, v) \<leftarrow> ?R. r) - derive_blinding cr ks (ks_next_index ks)"
  let ?tx = "\<lparr>tx_inputs = map (\<lambda>(c, r, v). \<lparr>in_commitment = c\<rparr>) ?R, tx_outputs = [?out],
    tx_kernels = [\<lparr>excess = commitment_new cr 0 ?r, fee = f, kernel_sig = sign cr k (u64_le f) ?r\<rparr>]\<rparr>"
  obtain j where j: "tx_to_json cd ?tx = Some j" "tx_from_json cd j = Some ?tx"
    using laws(5) unfolding ffi_codec_laws_def reads_back_def by blast
  let ?res = "\<lparr>fs_transaction_json = j, fs_updated_keystore_bytes = keystore_to_bytes cd ?ks,
    fs_dest = owned_of cr (ks_next_index ks, out_commitment ?out, ?v), fs_swept_count = word_of_nat (length ?R), fs_swept_total = ?total\<rparr>"
  have swept: "sweep_validator_rewards cr cd note_nonce k (to_hex (scalar_bytes cr key)) scan
      (map (commitment_to_hex cr) utxos) kb f = ok ?res"
    using count covers j(1)
    by (simp add: sweep_validator_rewards_def key' blobs utxos sweep_fold [OF laws(3)] allocate_index_def own_output_index Let_def
        not_le del: set_map)
  have firsts: "map (\<lambda>(c, r, v). c) rs = map fst rs" and ins': "map in_commitment (map (\<lambda>(c, r, v). \<lparr>in_commitment = c\<rparr>) rs) = map fst rs"
    for rs :: "('p commitment \<times> 's \<times> u64) list"
    by (induction rs) auto
  have ins: "map in_commitment (tx_inputs ?tx) = map fst ?R" by (simp only: transaction.select_convs ins')
  have value_sum: "(\<Sum>(v, r) \<leftarrow> [(?v, derive_blinding cr ks (ks_next_index ks))]. scalar_of_u64 v) + scalar_of_u64 f =
      (scalar_of_u64 ?total :: 's)"
    using covers by (simp add: scalar_of_u64_diff)
  have opens: "\<forall>(c, r, v) \<in> set ?R. c = commitment_new cr v r" by (auto dest: reward_opens)
  have valid: "validate cr ?tx"
    by (rule payment_validates [OF laws(1), where rin = "\<Sum>(c, r, v) \<leftarrow> ?R. r"
          and ovs = "[(?v, derive_blinding cr ks (ks_next_index ks))]"])
      (use rewards_balance [OF laws(1) opens rewards(1), unfolded firsts] value_sum in
        \<open>auto simp: ins' kernel_ok_def sign_verify_excess [OF laws(1)] range_verify_prove [OF laws(2)] simp del: map_map\<close>)
  have found: "out_commitment (coinbase_output cr key nonce height v) \<in> in_commitment ` set (tx_inputs ?tx)"
    if "length nonce = 12" "height < 2 ^ 32" "coinbase_output cr key nonce height v \<in> set outs"
      "out_commitment (coinbase_output cr key nonce height v) \<in> set utxos" for nonce height v
  proof -
    let ?c = "out_commitment (coinbase_output cr key nonce height v)"
    have c: "?c = commitment_new cr v (coinbase_blinding cr key height)" by (simp add: coinbase_output_def Let_def)
    from that reward_of_coinbase [OF laws(4) that(1,2), of key v]
    have "(?c, coinbase_blinding cr key height, v) \<in> set ?R"
      by (auto simp: rewards_in_def set_map_filter_Some c)
    then have "?c \<in> set (map fst ?R)" by force
    then show ?thesis unfolding ins [symmetric] set_map .
  qed
  have "unat ?v + unat f = unat ?total" using covers by (simp add: unat_sub word_le_nat_alt word_less_nat_alt)
  moreover have "set (map fst ?R) \<subseteq> set utxos" by (auto dest: reward_opens)
  ultimately show ?thesis
    using swept valid ins found total j(2)
    by (intro exI [of _ ?res] exI [of _ ?tx]) (auto simp: planned_value_def add_transaction_def tx_fee_def)
qed


section \<open>Two slates from one wallet\<close>

lemma create_slate_spends:
  assumes "range_proof_complete cr" and "create_slate cr treasury_var size_of rnd store amount f ks = Ret (ks', Inr (sl, pending))"
  obtains os where "ps_spent_commitments pending = map oo_commitment os" "set os \<subseteq> set store" "\<forall>o' \<in> set os. oo_status o' \<noteq> Spent"
proof -
  obtain i g ks0 probe where build: "build_slate cr treasury_var (rnd i) store amount g ks0 = Ret (ks', Inr (sl, pending, probe))"
    using assms(2) unfolding create_slate_def by (rule create_slate_loop_attempt [OF assms(1)])
  obtain selected where sel: "select_spendable store (amount + g) = Inr selected"
      "ps_spent_commitments pending = map planned_commitment selected"
    by (rule build_slate_shape [OF assms(1) build])
  obtain os where os: "selected = map planned os" "mset os \<subseteq># mset store" "\<forall>o' \<in> set os. oo_status o' \<noteq> Spent"
    by (rule select_spendable_selects [OF sel(1)]) blast
  show thesis
    by (rule that [of os]) (use sel(2) os in \<open>auto simp: comp_def dest: set_mset_mono simp flip: set_mset_mset\<close>)
qed

lemma create_send_slate_ok:
  assumes "ffi_codec_laws cd" "keystore_from_bytes cd kb = Some ks" "store_from_bytes cd sb = Some store"
    and "create_send_slate cr cd treasury_var size_of rnd kb sb amount f = ok res"
    and "pending_from_bytes cd (fc_pending_slate_bytes res) = Some pending"
  obtains ks' sl where "create_slate cr treasury_var size_of rnd store amount f ks = Ret (ks', Inr (sl, pending))"
    "keystore_from_bytes cd (fc_updated_keystore_bytes res) = Some ks'"
  using assms by (auto simp: create_send_slate_def guard_simps)

text \<open>The ledger once the reservation of a pending slate is committed.\<close>

lemma reservation_committed:
  assumes "compress_laws cr" "ffi_codec_laws cd" "store_from_bytes cd sb = Some store"
    and "pending_from_bytes cd pb = Some pending"
  obtains rv sb' where "pending_slate_reservation cr cd pb = ok rv"
    "commit_slate_send cr cd sb (fv_spent_commitments_hex rv) (fv_change rv) = ok sb'"
    "store_from_bytes cd sb' = Some (fold mark_spent (ps_spent_commitments pending) store @
       (case ps_change pending of None \<Rightarrow> []
        | Some c \<Rightarrow> [pending_entry (ci_index c, out_commitment (ci_output c), ci_value c)]))"
proof -
  let ?change = "map_option (\<lambda>c. (ci_index c, out_commitment (ci_output c), ci_value c)) (ps_change pending)"
  let ?rv = "\<lparr>fv_spent_commitments_hex = map (commitment_to_hex cr) (ps_spent_commitments pending),
    fv_change = map_option (owned_of cr) ?change\<rparr>"
  have "change_owned cr pending = map_option (owned_of cr) ?change"
    by (cases "ps_change pending") (simp_all add: change_owned_def)
  with assms show thesis
    by (intro that [of ?rv]) (auto simp: pending_slate_reservation_def commit_slate_send_def split: option.splits)
qed

text \<open>Reserving a pending slate keeps the next payment off its inputs: after the reservation of the first slate is
  committed to the store, a second slate built from that store and the updated keystore spends none of the first
  one's inputs, so both payments can be confirmed. The listed outputs and the first slate's change must
  have different commitments.\<close>

theorem reserved_slates_disjoint:
  assumes laws: "range_proof_complete cr" "compress_laws cr" "ffi_codec_laws cd"
    and blobs: "keystore_from_bytes cd kb = Some ks" "store_from_bytes cd sb = Some store"
    and dist: "distinct (map oo_commitment store)"
    and first_slate: "create_send_slate cr cd treasury_var size_of rnd kb sb amount f = ok res"
      "pending_from_bytes cd (fc_pending_slate_bytes res) = Some pending"
      "\<forall>c. ps_change pending = Some c \<longrightarrow> out_commitment (ci_output c) \<notin> oo_commitment ` set store"
    and reserved: "pending_slate_reservation cr cd (fc_pending_slate_bytes res) = ok rv"
      "commit_slate_send cr cd sb (fv_spent_commitments_hex rv) (fv_change rv) = ok sb'"
    and second_slate: "create_send_slate cr cd treasury_var size_of rnd' (fc_updated_keystore_bytes res) sb' amount' f' = ok res'"
      "pending_from_bytes cd (fc_pending_slate_bytes res') = Some pending'"
  shows "set (ps_spent_commitments pending) \<inter> set (ps_spent_commitments pending') = {}"
proof -
  obtain ks1 sl where c1: "create_slate cr treasury_var size_of rnd store amount f ks = Ret (ks1, Inr (sl, pending))"
      and kb1: "keystore_from_bytes cd (fc_updated_keystore_bytes res) = Some ks1"
    by (rule create_send_slate_ok [OF laws(3) blobs first_slate(1,2)])
  let ?change = "case ps_change pending of None \<Rightarrow> []
        | Some c \<Rightarrow> [pending_entry (ci_index c, out_commitment (ci_output c), ci_value c)]"
  have store': "store_from_bytes cd sb' = Some (fold mark_spent (ps_spent_commitments pending) store @ ?change)"
    by (rule reservation_committed [OF laws(2,3) blobs(2) first_slate(2)]) (use reserved in simp)
  obtain ks2 sl' where c2: "create_slate cr treasury_var size_of rnd' (fold mark_spent (ps_spent_commitments pending) store @ ?change)
      amount' f' ks1 = Ret (ks2, Inr (sl', pending'))"
    by (rule create_send_slate_ok [OF laws(3) kb1 store' second_slate])
  obtain os where os: "ps_spent_commitments pending = map oo_commitment os" "set os \<subseteq> set store"
    by (rule create_slate_spends [OF laws(1) c1])
  obtain os' where os': "ps_spent_commitments pending' = map oo_commitment os'"
      "set os' \<subseteq> set (fold mark_spent (ps_spent_commitments pending) store @ ?change)" "\<forall>o' \<in> set os'. oo_status o' \<noteq> Spent"
    by (rule create_slate_spends [OF laws(1) c2])
  have "oo_commitment o' \<notin> set (ps_spent_commitments pending)" if "o' \<in> set os'" for o'
  proof (cases "o' \<in> set ?change")
    case True
    then obtain c where "ps_change pending = Some c" "oo_commitment o' = out_commitment (ci_output c)"
      by (cases "ps_change pending") (auto simp: pending_entry_def planned_commitment_def)
    with first_slate(3) os show ?thesis by auto
  next
    case False
    with that os'(2) have "o' \<in> set (fold mark_spent (ps_spent_commitments pending) store)" unfolding set_append by blast
    moreover have "oo_status o' \<noteq> Spent" using that os'(3) by blast
    ultimately show ?thesis by (auto simp: mark_all_spent [OF dist] split: if_splits)
  qed
  then show ?thesis by (auto simp: os'(1))
qed


section \<open>Rotating a seed\<close>

lemma sum_list_unat_le:
  assumes "store_total store < 2 ^ 64"
  shows "unat (\<Sum>o' \<leftarrow> store. oo_value o') = store_total store"
  using unat_sum_list [of "map oo_value store"] assms by (simp add: store_total_def comp_def)

lemma spendable_settled:
  assumes "\<forall>o' \<in> set store. oo_status o' \<noteq> Pending"
  shows "spendable_including_pending store = spendable store"
proof -
  have "filter (\<lambda>o'. oo_status o' = Confirmed \<or> oo_status o' = Pending) store = filter (\<lambda>o'. oo_status o' = Confirmed) store"
    using assms by (intro filter_cong) auto
  then show ?thesis by (simp add: spendable_including_pending_def spendable_def)
qed

text \<open>Asked for the whole balance, selection takes every output that is worth anything.\<close>

lemma select_whole_balance:
  assumes settled: "\<forall>o' \<in> set store. oo_status o' \<noteq> Pending" and small: "store_total store < 2 ^ 64"
    and sel: "select_spendable store target = Inr selected" and whole: "confirmed_total store \<le> unat target"
  shows "unat target = confirmed_total store"
    and "o' \<in> set store \<Longrightarrow> oo_status o' = Confirmed \<Longrightarrow> oo_value o' \<noteq> 0 \<Longrightarrow> oo_commitment o' \<in> planned_commitment ` set selected"
proof -
  obtain total where loop: "select_loop target (spendable store) 0 = (selected, total)" and total: "target \<le> total"
    using sel by (auto simp: select_spendable_def select_from_def spendable_settled [OF settled] split: prod.splits if_splits)
  from select_loop_prefix [OF loop] obtain n where n: "selected = map planned (take n (spendable store))"
      "total = sum_list (map planned_value selected)" by auto
  let ?taken = "take n (spendable store)" and ?left = "drop n (spendable store)"
  have "mset (spendable store) = mset (filter (\<lambda>o'. oo_status o' = Confirmed) store)" by (simp add: spendable_def)
  then have eq: "store_total (spendable store) = confirmed_total store"
    unfolding confirmed_total_def store_total_def sum_mset_sum_list [symmetric] mset_map by simp
  have "confirmed_total store \<le> store_total store"
    unfolding confirmed_total_def by (rule store_total_subset) (simp add: multiset_filter_subset)
  moreover have parts: "store_total ?taken + store_total ?left = store_total (spendable store)"
    unfolding store_total_def sum_list_append [symmetric] map_append [symmetric] append_take_drop_id ..
  ultimately have "unat total = store_total ?taken"
    using sum_list_unat_le [of ?taken] small eq by (simp add: n comp_def)
  with total whole eq parts have left: "store_total ?left = 0" and "unat target = confirmed_total store"
    by (simp_all add: word_le_nat_alt)
  then show "unat target = confirmed_total store" by simp
  assume o': "o' \<in> set store" "oo_status o' = Confirmed" "oo_value o' \<noteq> 0"
  then have "o' \<in> set (spendable store)" by (simp add: spendable_def)
  moreover have "o' \<notin> set ?left" using left o'(3) by (auto simp: store_total_def sum_list_eq_0_iff unat_eq_0)
  ultimately have "o' \<in> set ?taken" by (metis Un_iff append_take_drop_id set_append)
  then show "oo_commitment o' \<in> planned_commitment ` set selected" unfolding n by force
qed

lemma unat_balance:
  assumes "store_total store < 2 ^ 64"
  shows "unat (balance store) = confirmed_total store"
proof -
  have "confirmed_total store \<le> store_total store"
    unfolding confirmed_total_def by (rule store_total_subset) (simp add: multiset_filter_subset)
  with assms show ?thesis
    using sum_list_unat_le [of "filter (\<lambda>o'. oo_status o' = Confirmed) store"] by (simp add: balance_def confirmed_total_def)
qed

text \<open>A slate for the whole balance is either built at the fee asked for or not at all.\<close>

lemma create_slate_whole_balance:
  assumes settled: "\<forall>o' \<in> set store. oo_status o' \<noteq> Pending"
    and small: "\<forall>tx. unat (required_fee size_of tx) + store_total store < 2 ^ 64"
    and fee: "unat amount + unat f = confirmed_total store"
    and create: "create_slate_loop cr treasury_var size_of rnd store amount is f ks = Ret (ks', Inr (sl, pending))"
  obtains i probe where "build_slate cr treasury_var (rnd i) store amount f ks = Ret (ks', Inr (sl, pending, probe))"
    "required_fee size_of probe \<le> f"
proof -
  have small': "store_total store < 2 ^ 64" using small [rule_format, of undefined] by linarith
  have le: "confirmed_total store \<le> store_total store"
    unfolding confirmed_total_def by (rule store_total_subset) (simp add: multiset_filter_subset)
  obtain i is' where "is": "is = i # is'" using create by (cases "is") auto
  obtain ks1 r where b: "build_slate cr treasury_var (rnd i) store amount f ks = Ret (ks1, r)"
    using create by (auto simp: "is" guard_simps)
  obtain sl1 pending1 probe where r: "r = Inr (sl1, pending1, probe)"
    using create b by (cases r) (auto simp: "is")
  show thesis
  proof (cases "required_fee size_of probe \<le> f")
    case True
    with create b r show thesis by (intro that [of i probe]) (auto simp: "is")
  next
    case False
    let ?g = "required_fee size_of probe"
    from False create b r have again: "create_slate_loop cr treasury_var size_of rnd store amount is' ?g ks1 = Ret (ks', Inr (sl, pending))"
      by (simp add: "is" Let_def)
    have g: "unat (amount + ?g) = unat amount + unat ?g"
      using small [rule_format, of probe] fee le by (intro unat_add_lem [THEN iffD1]) simp
    with False fee have more: "confirmed_total store < unat (amount + ?g)" by (simp add: word_le_nat_alt)
    have none: "select_spendable store (amount + ?g) = Inl e \<Longrightarrow> thesis" for e
      using again by (cases is') (auto simp: build_slate_def Let_def)
    show thesis
    proof (cases "select_spendable store (amount + ?g)")
      case (Inr selected)
      with select_whole_balance(1) [OF settled small' Inr] more show thesis by simp
    qed (rule none)
  qed
qed


text \<open>Rotating a seed moves everything, when nothing is pending: if the store lists no pending output and the wallet can open
  its outputs, a transaction returned by \<open>rotate_seed_transaction\<close> is admitted by the mempool, spends every confirmed
  output of the old seed that is worth anything, and has one output, which the new seed opens and which is worth the
  balance less the fee.\<close>

theorem rotation_moves_everything:
  fixes cr :: "('p::ab_group_add, 's::comm_ring_1) crypto"
  assumes laws: "module_laws cr" "range_proof_complete cr" "fixed_sizes cr size_of" "ffi_codec_laws cd"
    and blobs: "keystore_from_bytes cd old_kb = Some ks" "store_from_bytes cd sb = Some store"
      "keystore_from_bytes cd new_kb = Some new_ks"
    and wallet: "wallet_opens cr treasury_var ks store" "\<forall>o' \<in> set store. oo_status o' \<noteq> Pending"
      "\<forall>tx. unat (required_fee size_of tx) + store_total store < 2 ^ 64"
    and nonces: "length note_nonce = 12" "\<forall>i. length (lr_placeholder_nonce (rnd i)) = 12"
    and rotated: "rotate_seed_transaction cr cd treasury_var size_of rnd note_nonce k old_kb sb new_kb f = ok res"
      "tx_from_json cd (fx_transaction_json res) = Some tx"
    and room: "length (mp_txs mp) < MAX_PENDING_TXS"
  shows "fst (add_transaction cr size_of tx mp) \<and>
    (\<forall>o' \<in> set store. oo_status o' = Confirmed \<and> oo_value o' \<noteq> 0 \<longrightarrow> oo_commitment o' \<in> in_commitment ` set (tx_inputs tx)) \<and>
    unat (fo_value (fx_dest res)) + unat f = confirmed_total store \<and>
    map out_commitment (tx_outputs tx) =
      [commitment_new cr (fo_value (fx_dest res)) (derive_blinding cr new_ks (fo_index (fx_dest res)))]"
proof -
  let ?amount = "balance store - f"
  have small: "store_total store < 2 ^ 64" using wallet(3) [rule_format, of undefined] by linarith
  have covered: "\<not> balance store < f"
    using rotated(1) by (auto simp: rotate_seed_transaction_def blobs split: if_splits)
  then have fee: "f \<le> balance store" by simp
  obtain ks' sl pending where create: "create_slate cr treasury_var size_of rnd store ?amount f ks = Ret (ks', Inr (sl, pending))"
    using rotated(1) by (auto simp: rotate_seed_transaction_def blobs covered attempt_eq_ok)
  obtain new_ks' response info where respond: "respond_to_slate cr note_nonce k sl new_ks = (new_ks', response, info)"
    by (rule prod_cases3)
  obtain tx' where fin: "finalize_slate cr pending response = Inr tx'" and nochange: "ps_change pending = None"
      and json: "tx_to_json cd tx' = Some (fx_transaction_json res)"
      and dest: "fx_dest res = owned_of cr (oi_index info, oi_commitment info, oi_value info)"
    using rotated(1) create respond
    by (auto simp: rotate_seed_transaction_def blobs covered planned_call_def guard_simps split: if_splits)
  have "tx = tx'" using laws(4) json rotated(2) unfolding ffi_codec_laws_def reads_back_def by (metis option.inject)
  have sum: "unat ?amount + unat f = confirmed_total store"
    using fee by (simp add: unat_sub word_le_nat_alt flip: unat_balance [OF small])
  obtain i probe where build: "build_slate cr treasury_var (rnd i) store ?amount f ks = Ret (ks', Inr (sl, pending, probe))"
    using create unfolding create_slate_def by (rule create_slate_whole_balance [OF wallet(2,3) sum])
  obtain selected where sel: "select_spendable store (?amount + f) = Inr selected"
      and sl: "sl_amount sl = ?amount" "sl_fee sl = f"
      and spent: "ps_spent_commitments pending = map planned_commitment selected"
    by (rule build_slate_shape [OF laws(2) build])
  have le: "confirmed_total store \<le> store_total store"
    unfolding confirmed_total_def by (rule store_total_subset) (simp add: multiset_filter_subset)
  then have fits: "unat ?amount + unat (sl_fee sl) < 2 ^ 64" using sum small sl(2) by simp
  from slate_payment [OF laws(1-3) wallet(1) small create respond nonces fits room] fin
  have paid: "fst (add_transaction cr size_of tx mp)" "map in_commitment (tx_inputs tx) = ps_spent_commitments pending"
    "oi_value info = ?amount" by (auto simp: \<open>tx = tx'\<close>)
  have out: "map out_commitment (tx_outputs tx) = [commitment_new cr ?amount (derive_blinding cr new_ks (oi_index info))]"
    using respond fin nochange sl(1)
    by (auto simp: \<open>tx = tx'\<close> respond_to_slate_def finalize_slate_def ok_or_def bind_result_def allocate_index_def Let_def)
  have "confirmed_total store \<le> unat (?amount + f)" by (simp add: unat_balance [OF small])
  from select_whole_balance(2) [OF wallet(2) small sel this] have
      "\<forall>o' \<in> set store. oo_status o' = Confirmed \<and> oo_value o' \<noteq> 0 \<longrightarrow> oo_commitment o' \<in> set (map planned_commitment selected)" by simp
  then show ?thesis
    using paid out sum unfolding spent [symmetric] paid(2) [symmetric] by (simp add: dest planned_value_def)
qed


section \<open>An in-memory codec\<close>

text \<open>A codec that keeps the values themselves.\<close>

datatype ('p, 's) memory_blob =
    KeystoreBlob keystore
  | StoreBlob "'p wallet_store"
  | PendingBlob "('p, 's) pending_slate"

datatype ('p, 's) memory_json =
    TxJson "('p, 's) transaction"
  | SlateJson "('p, 's) slate"
  | MintJson "('p, 's) mint_asset_op"
  | ScanJson "scan_entry list"
  | PhasesJson "mint_phase list"
  | StakeJson "('p, 's) stake_request"
  | NameJson "('p, 's) register_name_op"
  | SponsoredJson "('p, 's) sponsored_register_request"
  | TransferNameJson "('p, 's) transfer_name_op"
  | TransferAssetJson "('p, 's) transfer_asset_op"
  | ListingJson "('p, 's) listing"
  | CancelJson "('p, 's) cancel_listing_request"
  | LaunchJson "('p, 's) launch_collection_op"
  | AllowlistJson "('p, 's) allowlist_entry"

definition memory_codec :: "('p, 's, ('p, 's) memory_blob, ('p, 's) memory_json) ffi_codec" where
  "memory_codec = \<lparr>
     keystore_to_bytes = KeystoreBlob,
     keystore_from_bytes = (\<lambda>b. case b of KeystoreBlob ks \<Rightarrow> Some ks | _ \<Rightarrow> None),
     store_to_bytes = StoreBlob,
     store_from_bytes = (\<lambda>b. case b of StoreBlob store \<Rightarrow> Some store | _ \<Rightarrow> None),
     pending_to_bytes = Some \<circ> PendingBlob,
     pending_from_bytes = (\<lambda>b. case b of PendingBlob pending \<Rightarrow> Some pending | _ \<Rightarrow> None),
     tx_to_json = Some \<circ> TxJson,
     tx_from_json = (\<lambda>j. case j of TxJson tx \<Rightarrow> Some tx | _ \<Rightarrow> None),
     slate_to_json = Some \<circ> SlateJson,
     slate_from_json = (\<lambda>j. case j of SlateJson sl \<Rightarrow> Some sl | _ \<Rightarrow> None),
     mint_to_json = Some \<circ> MintJson,
     mint_from_json = (\<lambda>j. case j of MintJson op \<Rightarrow> Some op | _ \<Rightarrow> None),
     scan_from_json = (\<lambda>j. case j of ScanJson entries \<Rightarrow> Some entries | _ \<Rightarrow> None),
     phases_from_json = (\<lambda>j. case j of PhasesJson phases \<Rightarrow> Inr phases | _ \<Rightarrow> Inl ''expected an array''),
     stake_to_json = Some \<circ> StakeJson,
     name_to_json = Some \<circ> NameJson,
     sponsored_to_json = Some \<circ> SponsoredJson,
     transfer_name_to_json = Some \<circ> TransferNameJson,
     transfer_asset_to_json = Some \<circ> TransferAssetJson,
     listing_to_json = Some \<circ> ListingJson,
     cancel_to_json = Some \<circ> CancelJson,
     launch_to_json = Some \<circ> LaunchJson,
     allowlist_to_json = Some \<circ> AllowlistJson\<rparr>"

lemma memory_codec_laws: "ffi_codec_laws memory_codec"
  by (simp add: ffi_codec_laws_def reads_back_def memory_codec_def)

lemma memory_codec_simps [simp]:
  "keystore_to_bytes memory_codec = KeystoreBlob" "keystore_from_bytes memory_codec (KeystoreBlob ks) = Some ks"
  "store_to_bytes memory_codec = StoreBlob" "store_from_bytes memory_codec (StoreBlob store) = Some store"
  "pending_to_bytes memory_codec pending = Some (PendingBlob pending)"
  "pending_from_bytes memory_codec (PendingBlob pending) = Some pending"
  "tx_to_json memory_codec tx = Some (TxJson tx)" "tx_from_json memory_codec (TxJson tx) = Some tx"
  "slate_to_json memory_codec sl = Some (SlateJson sl)" "slate_from_json memory_codec (SlateJson sl) = Some sl"
  "scan_from_json memory_codec (ScanJson entries) = Some entries"
  "name_to_json memory_codec nop = Some (NameJson nop)" "transfer_asset_to_json memory_codec aop = Some (TransferAssetJson aop)"
  by (simp_all add: memory_codec_def)


section \<open>What a rotation leaves behind\<close>

text \<open>A wallet with two confirmed outputs, and a pending one that is worth as much as both.\<close>

definition w_mixed :: "u64 \<Rightarrow> wpoint wallet_store" where
  "w_mixed v = [\<lparr>oo_index = 0, oo_value = 50, oo_commitment = w_com 50 1, oo_status = Confirmed\<rparr>,
     \<lparr>oo_index = 1, oo_value = 30, oo_commitment = w_com 30 1, oo_status = Confirmed\<rparr>,
     \<lparr>oo_index = 2, oo_value = v, oo_commitment = w_com v 1, oo_status = Pending\<rparr>]"

lemma w_mixed_balance: "balance (w_mixed v) = 80" by (simp add: balance_def w_mixed_def)

lemma w_mixed_select:
  "select_spendable (w_mixed 80) 80 = Inr [(2, w_com 80 1, 80)]"
  "select_spendable (w_mixed 90) 80 = Inr [(2, w_com 90 1, 90)]"
  by (simp_all add: select_spendable_def select_from_def spendable_including_pending_def w_mixed_def)

definition w_rotate :: "u64 \<Rightarrow> (ffi_error, (wpoint, u64) memory_json ffi_rotate_seed_result) call" where
  "w_rotate v = rotate_seed_transaction w_crypto memory_codec None (\<lambda>_. Some 952) w_slate_random (replicate 12 5) 4
     (KeystoreBlob w_keys) (StoreBlob (w_mixed v)) (KeystoreBlob (keystore_from_seed (replicate 32 9))) 5"




section \<open>The properties at concrete inputs\<close>

lemma w_wallet_distinct: "distinct (map oo_commitment w_wallet)"
  by (simp add: w_wallet_def)

lemma w_confirmed_total: "confirmed_total w_wallet = 50"
  by (simp add: confirmed_total_def store_total_def w_wallet_def)

theorem send_keeps_books_witness:
  "\<exists>plan sb' store'. plan_send_ffi w_crypto memory_codec None (\<lambda>_. Some 952) w_send_random (KeystoreBlob w_keys)
      (StoreBlob w_wallet) 60 0 = ok plan \<and>
    commit_send w_crypto memory_codec (StoreBlob w_wallet) (fp_spent_commitments_hex plan) (fp_dest plan) (fp_change plan) = ok sb' \<and>
    store_from_bytes memory_codec sb' = Some store' \<and> unspent_total store' = 85"
proof -
  let ?call = "plan_send_ffi w_crypto memory_codec None (\<lambda>_. Some 952) w_send_random (KeystoreBlob w_keys) (StoreBlob w_wallet) 60 0"
  obtain plan tx where plan: "?call = ok plan" "tx_from_json memory_codec (fp_transaction_json plan) = Some tx" "tx_fee tx = 5"
    by (simp add: plan_send_ffi_def plan_send_def w_attempts build_send_transaction_def w_wallet_eval planned_call_def)
  have "index_headroom w_keys 32" by (simp add: index_headroom_def w_keys_def unat_FAUCET_INDEX)
  from send_keeps_books [OF w_module_laws w_range_proof_complete w_compress_laws memory_codec_laws _ _ w_wallet_opens
      w_wallet_total w_wallet_distinct this plan(1,2), of mempool_new] plan(3)
  obtain sb' store' where "commit_send w_crypto memory_codec (StoreBlob w_wallet) (fp_spent_commitments_hex plan) (fp_dest plan)
      (fp_change plan) = ok sb'" "store_from_bytes memory_codec sb' = Some store'" "unspent_total store' = unspent_total w_wallet - 5"
    by (auto simp: mempool_new_def MAX_PENDING_TXS_def MAX_TXS_PER_BLOCK_def)
  moreover have "unspent_total w_wallet - 5 = 85" by (simp add: unspent_total_sum w_wallet_def)
  ultimately show ?thesis using plan(1) by auto
qed

theorem registration_request_accepted_witness:
  "\<exists>res op nd'. build_register_name_request w_crypto memory_codec None w_fee_random 4 (KeystoreBlob w_keys) (StoreBlob w_wallet)
      ''bobby'' 5 = ok res \<and> fn_op_json res = NameJson op \<and> rn_name op = ''bobby'' \<and>
    handle_register_name w_crypto op w_funded = (nd', [Broadcast (NewNameOp op)], Json ())"
proof -
  have json: "\<forall>op. name_to_json memory_codec op \<noteq> None" by simp
  have fee: "unat (5 :: u64) \<le> confirmed_total w_wallet" "NAME_REGISTRATION_FEE \<le> 5"
    by (simp_all add: w_confirmed_total NAME_REGISTRATION_FEE_def)
  have pool: "''bobby'' \<notin> Mapping.keys (cs_name_registry (nd_chain w_funded))" "''bobby'' \<notin> rn_name ` set (mp_name_ops (nd_mempool w_funded))"
    "length (mp_name_ops (nd_mempool w_funded)) < MAX_PENDING_NAME_OPS"
    by (simp_all add: w_funded_def w_node_def chain_new_def mempool_new_def MAX_PENDING_NAME_OPS_def MAX_NAME_OPS_PER_BLOCK_def)
  from registration_request_accepted [OF w_module_laws w_range_proof_complete json _ _ w_wallet_opens w_wallet_total fee(1)
      w_bobby fee(2) pool, of "KeystoreBlob w_keys" "StoreBlob w_wallet" w_fee_random 4]
  obtain res op where "build_register_name_request w_crypto memory_codec None w_fee_random 4 (KeystoreBlob w_keys) (StoreBlob w_wallet)
      ''bobby'' 5 = ok res" "NameJson op = fn_op_json res" "rn_name op = ''bobby''"
      "\<exists>nd'. handle_register_name w_crypto op w_funded = (nd', [Broadcast (NewNameOp op)], Json ())"
    by auto
  then show ?thesis by metis
qed

text \<open>A node on whose chain the sample wallet owns an asset.\<close>

definition w_market_node :: "(wpoint, u64) p2p_server" where
  "w_market_node = w_funded\<lparr>nd_chain := (nd_chain w_funded)\<lparr>cs_asset_registry := Mapping.update ''art''
     \<lparr>ar_asset_id = ''art'', ar_owner_pubkey = identity_pubkey w_crypto w_keys, ar_metadata = [], ar_minted_at_block = 1,
      ar_collection_id = None\<rparr> Mapping.empty\<rparr>\<rparr>"

definition w_art_record :: "wpoint asset_record" where
  "w_art_record = \<lparr>ar_asset_id = ''art'', ar_owner_pubkey = identity_pubkey w_crypto w_keys, ar_metadata = [],
     ar_minted_at_block = 1, ar_collection_id = None\<rparr>"

lemma w_market:
  "Mapping.lookup (cs_asset_registry (nd_chain w_market_node)) ''art'' = Some w_art_record"
  "nd_mempool w_market_node = mempool_new" "cs_kernel_excesses (nd_chain w_market_node) = {}"
  by (simp_all add: w_market_node_def w_funded_def w_node_def w_art_record_def lookup_update chain_new_def)



text \<open>A drop with one phase, on whose allowlist the sample wallet is alone.\<close>

definition w_listed_drop :: "(string, wpoint collection_record) mapping" where
  "w_listed_drop = Mapping.update ''drop'' \<lparr>cl_collection_id = ''drop'', cl_creator_pubkey = identity_pubkey w_crypto (keystore_from_seed (replicate 32 9)),
     cl_name = ''Drop'', cl_symbol = ''DRP'', cl_metadata = [],
     cl_phases = [\<lparr>ph_name = ''first'', ph_start_time = 10, ph_end_time = 20, ph_price = 1, ph_per_wallet_limit = 1,
       ph_allowlist_merkle_root = Some (merkle_root w_crypto (map (allowlist_leaf w_crypto) [identity_pubkey w_crypto w_keys]))\<rparr>],
     cl_launched_at_block = 1, cl_royalty_bps = 0\<rparr> Mapping.empty"

lemma w_art_id [simp]: "validate_asset_id ''art'' = Inr ()"
  by code_simp


theorem rewards_swept_witness:
  "\<exists>res tx. sweep_validator_rewards w_crypto memory_codec (replicate 12 5) 4 (to_hex (scalar_bytes w_crypto 7))
      (ScanJson [scan_output w_crypto (coinbase_output w_crypto 7 (replicate 12 1) 3 100)])
      [commitment_to_hex w_crypto (w_com 100 1)] (KeystoreBlob w_keys) 5 = ok res \<and>
    fs_transaction_json res = TxJson tx \<and> validate w_crypto tx \<and> map in_commitment (tx_inputs tx) = [w_com 100 1]"
proof -
  let ?out = "coinbase_output w_crypto 7 (replicate 12 1) 3 100"
  have blinding: "coinbase_blinding w_crypto key h = 1" for key h by (simp add: coinbase_blinding_def w_crypto_def)
  have "reward_of w_crypto 7 ?out = Some (w_com 100 1, 1, 100)"
    by (subst reward_of_coinbase [OF w_aead_laws]) (simp_all add: blinding)
  moreover have c: "out_commitment ?out = w_com 100 1" by (simp add: coinbase_output_def blinding Let_def)
  ultimately have r: "rewards_in w_crypto 7 {w_com 100 1} [?out] = [(w_com 100 1, 1, 100)]"
    by (simp add: rewards_in_def map_filter_simps)
  have key: "length (scalar_bytes w_crypto 7) = 32" "from_bits w_crypto (scalar_bytes w_crypto 7) = 7"
    by (simp_all add: w_crypto_def from_le_bytes_le_bytes)
  have r': "rewards_in w_crypto 7 (set [w_com 100 1]) [?out] = [(w_com 100 1, 1, 100)]" using r by simp
  have scan: "scan_from_json memory_codec (ScanJson [scan_output w_crypto ?out]) = Some (map (scan_output w_crypto) [?out])"
    and blob: "keystore_from_bytes memory_codec (KeystoreBlob w_keys) = Some w_keys" by (simp_all add: memory_codec_def)
  have sums: "(\<Sum>(c, r, v) \<leftarrow> rewards_in w_crypto 7 (set [w_com 100 1]) [?out]. unat v) < 2 ^ 64"
    "unat (5 :: u64) < (\<Sum>(c, r, v) \<leftarrow> rewards_in w_crypto 7 (set [w_com 100 1]) [?out]. unat v)"
    "length (rewards_in w_crypto 7 (set [w_com 100 1]) [?out]) < 2 ^ 32"
    by (simp_all only: r') simp_all
  obtain res tx where sweep: "sweep_validator_rewards w_crypto memory_codec (replicate 12 5) 4 (to_hex (scalar_bytes w_crypto 7))
      (ScanJson [scan_output w_crypto ?out]) (map (commitment_to_hex w_crypto) [w_com 100 1]) (KeystoreBlob w_keys) 5 = ok res"
      and tx: "tx_from_json memory_codec (fs_transaction_json res) = Some tx" "validate w_crypto tx"
      "map in_commitment (tx_inputs tx) = map fst (rewards_in w_crypto 7 (set [w_com 100 1]) [?out])"
    using rewards_swept [OF w_module_laws w_range_proof_complete w_compress_laws w_aead_laws memory_codec_laws key blob scan sums,
        of "replicate 12 5" 4 "\<lambda>_. Some 952" mempool_new] by blast
  have "map in_commitment (tx_inputs tx) = [w_com 100 1]" using tx(3) by (simp only: r') simp
  moreover have "fs_transaction_json res = TxJson tx" using tx(1) by (simp add: memory_codec_def split: memory_json.splits)
  ultimately show ?thesis using sweep tx(2) by (intro exI [of _ res] exI [of _ tx]) (simp only: list.map simp_thms)
qed

theorem reserved_slates_disjoint_witness:
  "\<exists>res rv sb' res' pending pending'.
    create_send_slate w_crypto memory_codec None (\<lambda>_. Some 952) w_slate_random (KeystoreBlob w_keys) (StoreBlob w_wallet) 30 5 = ok res \<and>
    pending_slate_reservation w_crypto memory_codec (fc_pending_slate_bytes res) = ok rv \<and>
    commit_slate_send w_crypto memory_codec (StoreBlob w_wallet) (fv_spent_commitments_hex rv) (fv_change rv) = ok sb' \<and>
    create_send_slate w_crypto memory_codec None (\<lambda>_. Some 952) w_slate_random (fc_updated_keystore_bytes res) sb' 30 5 = ok res' \<and>
    fc_pending_slate_bytes res = PendingBlob pending \<and> fc_pending_slate_bytes res' = PendingBlob pending' \<and>
    set (ps_spent_commitments pending) \<inter> set (ps_spent_commitments pending') = {}"
proof -
  note eval = create_send_slate_def planned_call_def create_slate_def w_attempts build_slate_def w_wallet_eval
  have sel: "select_spendable w_wallet 35 = Inr [(0, w_com 50 1, 50)]"
    by (simp add: select_spendable_def select_from_def spendable_including_pending_def w_wallet_def)
  obtain res pending where res: "create_send_slate w_crypto memory_codec None (\<lambda>_. Some 952) w_slate_random (KeystoreBlob w_keys)
        (StoreBlob w_wallet) 30 5 = ok res" "fc_pending_slate_bytes res = PendingBlob pending"
        "fc_updated_keystore_bytes res = KeystoreBlob (w_keys\<lparr>ks_next_index := 3\<rparr>)"
      and spent: "ps_spent_commitments pending = [w_com 50 1]"
        "\<exists>c. ps_change pending = Some c \<and> ci_index c = 2 \<and> ci_value c = 15 \<and> out_commitment (ci_output c) = w_com 15 1"
    by (simp add: eval sel) (simp add: w_keys_def)
  let ?store' = "[\<lparr>oo_index = 0, oo_value = 50, oo_commitment = w_com 50 1, oo_status = Spent\<rparr>,
     \<lparr>oo_index = 1, oo_value = 40, oo_commitment = w_com 40 1, oo_status = Pending\<rparr>,
     \<lparr>oo_index = 2, oo_value = 15, oo_commitment = w_com 15 1, oo_status = Pending\<rparr>]"
  obtain rv sb' where rv: "pending_slate_reservation w_crypto memory_codec (fc_pending_slate_bytes res) = ok rv"
      "commit_slate_send w_crypto memory_codec (StoreBlob w_wallet) (fv_spent_commitments_hex rv) (fv_change rv) = ok sb'"
      and sb': "store_from_bytes memory_codec sb' = Some ?store'"
    by (rule reservation_committed [OF w_compress_laws memory_codec_laws, of "StoreBlob w_wallet" w_wallet "fc_pending_slate_bytes res" pending])
      (use spent in \<open>auto simp: res(2) w_wallet_def mark_spent_def pending_entry_def planned_value_def planned_commitment_def\<close>)
  have sel': "select_spendable ?store' 35 = Inr [(1, w_com 40 1, 40)]"
    by (simp add: select_spendable_def select_from_def spendable_including_pending_def)
  obtain res' pending' where res': "create_send_slate w_crypto memory_codec None (\<lambda>_. Some 952) w_slate_random
      (fc_updated_keystore_bytes res) sb' 30 5 = ok res'" "fc_pending_slate_bytes res' = PendingBlob pending'"
    by (simp add: eval res(3) sb' sel')
  have fresh: "\<forall>c. ps_change pending = Some c \<longrightarrow> out_commitment (ci_output c) \<notin> oo_commitment ` set w_wallet"
    using spent(2) by (auto simp: w_wallet_def)
  from reserved_slates_disjoint [OF w_range_proof_complete w_compress_laws memory_codec_laws _ _ w_wallet_distinct res(1) _ fresh rv res'(1)]
  have "set (ps_spent_commitments pending) \<inter> set (ps_spent_commitments pending') = {}" by (simp add: res(2) res'(2))
  with res rv res' show ?thesis by blast
qed

definition w_settled :: "wpoint wallet_store" where
  "w_settled = [\<lparr>oo_index = 0, oo_value = 50, oo_commitment = w_com 50 1, oo_status = Confirmed\<rparr>,
     \<lparr>oo_index = 1, oo_value = 30, oo_commitment = w_com 30 1, oo_status = Confirmed\<rparr>]"

theorem rotation_moves_everything_witness:
  "\<exists>res tx. rotate_seed_transaction w_crypto memory_codec None (\<lambda>_. Some 952) w_slate_random (replicate 12 5) 4
      (KeystoreBlob w_keys) (StoreBlob w_settled) (KeystoreBlob (keystore_from_seed (replicate 32 9))) 5 = ok res \<and>
    fx_transaction_json res = TxJson tx \<and> {w_com 50 1, w_com 30 1} \<subseteq> in_commitment ` set (tx_inputs tx) \<and>
    unat (fo_value (fx_dest res)) = 75"
proof -
  have sel: "select_spendable w_settled 80 = Inr [(0, w_com 50 1, 50), (1, w_com 30 1, 30)]" and bal: "balance w_settled = 80"
    by (simp_all add: select_spendable_def select_from_def spendable_including_pending_def w_settled_def balance_def)
  note eval = rotate_seed_transaction_def create_slate_def w_attempts build_slate_def sel bal w_wallet_eval planned_call_def
    respond_to_slate_def finalize_slate_def ok_or_def bind_result_def
  obtain res tx where res: "rotate_seed_transaction w_crypto memory_codec None (\<lambda>_. Some 952) w_slate_random (replicate 12 5) 4
      (KeystoreBlob w_keys) (StoreBlob w_settled) (KeystoreBlob (keystore_from_seed (replicate 32 9))) 5 = ok res"
      "fx_transaction_json res = TxJson tx"
    by (simp add: eval)
  have opens: "wallet_opens w_crypto None w_keys w_settled" and settled: "\<forall>o' \<in> set w_settled. oo_status o' \<noteq> Pending"
      and total: "confirmed_total w_settled = 80"
    by (simp_all add: wallet_opens_def opens_output_def blinding_for_def w_settled_def GENESIS_INDEX_def FAUCET_INDEX_def
        confirmed_total_def store_total_def)
  have small: "\<forall>tx :: (wpoint, u64) transaction. unat (required_fee (\<lambda>_. Some 952) tx) + store_total w_settled < 2 ^ 64"
    by (simp add: required_fee_def div_ceil_def FEE_PER_KB_def MIN_FEE_def store_total_def w_settled_def)
  have nonces: "length (replicate 12 5 :: byte list) = 12" "\<forall>i. length (lr_placeholder_nonce (w_slate_random i)) = 12"
    by (simp_all add: w_slate_random_def)
  have out: "\<forall>o' \<in> set w_settled. oo_status o' = Confirmed \<and> oo_value o' \<noteq> 0 \<longrightarrow> oo_commitment o' \<in> in_commitment ` set (tx_inputs tx)"
    and v: "unat (fo_value (fx_dest res)) + unat (5 :: u64) = confirmed_total w_settled"
    using rotation_moves_everything [OF w_module_laws w_range_proof_complete w_fixed_sizes memory_codec_laws _ _ _ opens settled small
        nonces res(1), of _ tx mempool_new]
    by (auto simp: res(2) mempool_new_def MAX_PENDING_TXS_def MAX_TXS_PER_BLOCK_def)
  have "{w_com 50 1, w_com 30 1} \<subseteq> in_commitment ` set (tx_inputs tx)" using out by (simp add: w_settled_def)
  moreover have "unat (fo_value (fx_dest res)) = 75" using v by (simp add: total)
  ultimately show ?thesis using res by blast
qed

end
