(* ===== verification/Wasm.thy ===== *)
theory Wasm
  imports Ffi Inbox
begin

text \<open>
  The browser bindings of \<open>src/wasm.rs\<close>: the calls a web wallet makes, over the same blobs and JSON texts
  as the mobile calls of theory \<open>Ffi\<close>. Its structs have the fields of the mobile ones and are synonyms of their
  records; an error is the text a \<open>JsValue\<close> carries. The lemmas show that the two surfaces are one: a
  browser call succeeds, fails and panics on the inputs on which the mobile call does, with the same value
  (\<open>result_of\<close>).
\<close>

section \<open>Data\<close>

type_synonym js_value = string
type_synonym wasm_owned_output = ffi_owned_output
type_synonym ('b, 'j) wasm_send_plan = "('b, 'j) ffi_send_plan"
type_synonym 'b wasm_keystore_and_mnemonic = "'b ffi_keystore_and_mnemonic"
type_synonym 'b wasm_recovery_result = "'b ffi_recovery_result"
type_synonym ('b, 'j) wasm_sweep_result = "('b, 'j) ffi_sweep_result"
type_synonym 'j wasm_rotate_seed_result = "'j ffi_rotate_seed_result"
type_synonym ('b, 'j) wasm_create_slate_result = "('b, 'j) ffi_create_slate_result"
type_synonym ('b, 'j) wasm_respond_result = "('b, 'j) ffi_respond_result"
type_synonym 'j wasm_finalized_tx = "'j ffi_finalized_tx"
type_synonym wasm_slate_reservation = ffi_slate_reservation
type_synonym ('b, 'j) wasm_register_name_result = "('b, 'j) ffi_register_name_result"
type_synonym ('b, 'j) wasm_mint_asset_result = "('b, 'j) ffi_mint_asset_result"
type_synonym wasm_merkle_proof_result = ffi_merkle_proof_result

definition wasm_insufficient :: "plan_error \<Rightarrow> js_value" where
  "wasm_insufficient e = ''insufficient balance: have '' @ decimal (unat (pe_have e)) @ '', need '' @ decimal (unat (pe_need e))"

text \<open>\<open>Commitment::from_hex(hex).ok_or_else(|| js_err(text))\<close>, with a fixed text or one that quotes the input.\<close>

definition wasm_parse :: "('p, 's) crypto \<Rightarrow> js_value \<Rightarrow> string \<Rightarrow> (js_value, 'p commitment) call" where
  "wasm_parse cr msg hex = require_parsed (commitment_from_hex cr hex) msg"

definition wasm_parse_pubkey :: "('p, 's) crypto \<Rightarrow> string \<Rightarrow> (js_value, 'p commitment) call" where
  "wasm_parse_pubkey cr hex = wasm_parse cr (''invalid pubkey hex: '' @ hex) hex"

definition wasm_hex_decode :: "string \<Rightarrow> byte list option outcome" where
  "wasm_hex_decode hex = (if length hex mod 2 \<noteq> 0 then Ret None else hex_loop hex [0..<length hex div 2])"

definition wasm_scalar_from_hex :: "('p, 's) crypto \<Rightarrow> string \<Rightarrow> 's option outcome" where
  "wasm_scalar_from_hex cr hex =
     bind_outcome (wasm_hex_decode hex) (\<lambda>bytes.
       Ret (bytes \<bind> (\<lambda>bytes. if length bytes \<noteq> 32 then None else Some (from_bits cr bytes))))"

definition wasm_hex_to_32 :: "string \<Rightarrow> (js_value, hash32) call" where
  "wasm_hex_to_32 hex =
     (if length hex \<noteq> 64 then err ''expected a 32-byte (64 hex char) value''
      else require_parsed (hex_loop hex [0..<32]) ''invalid hex'')"


section \<open>Keystores and recovery\<close>

definition wasm_generate_keystore :: "('p, 's, 'b, 'j) ffi_codec \<Rightarrow> byte list \<Rightarrow> 'b" where
  "wasm_generate_keystore cd seed = keystore_to_bytes cd (keystore_from_seed seed)"

definition wasm_generate_keystore_with_mnemonic ::
    "('p, 's, 'b, 'j) ffi_codec \<Rightarrow> (byte list \<Rightarrow> string option) \<Rightarrow> (string \<Rightarrow> byte list option) \<Rightarrow> byte list \<Rightarrow>
       'b wasm_keystore_and_mnemonic outcome" where
  "wasm_generate_keystore_with_mnemonic cd phrase_of bip39_seed entropy =
     bind_outcome (generate_with_mnemonic phrase_of bip39_seed entropy) (\<lambda>(ks, phrase).
       Ret \<lparr>km_keystore_bytes = keystore_to_bytes cd ks, km_mnemonic = phrase\<rparr>)"

definition wasm_restore_keystore_from_mnemonic ::
    "('p, 's, 'b, 'j) ffi_codec \<Rightarrow> (string \<Rightarrow> byte list option) \<Rightarrow> string \<Rightarrow> (js_value, 'b) call" where
  "wasm_restore_keystore_from_mnemonic cd bip39_seed phrase =
     require (map_option (keystore_to_bytes cd) (from_mnemonic bip39_seed phrase)) ''invalid recovery phrase''"

definition wasm_recover_wallet_from_chain ::
    "('p::ab_group_add, 's::comm_ring_1) crypto \<Rightarrow> ('p, 's, 'b, 'j) ffi_codec \<Rightarrow> 'b \<Rightarrow> 'j \<Rightarrow> string list \<Rightarrow>
       (js_value, 'b wasm_recovery_result) call" where
  "wasm_recover_wallet_from_chain cr cd keystore_bytes scan_entries_json chain_utxo_commitments_hex =
     attempt (require (keystore_from_bytes cd keystore_bytes) ''invalid keystore bytes'') (\<lambda>ks.
     attempt (require (scan_from_json cd scan_entries_json) ''invalid scan entries JSON'') (\<lambda>entries.
     bind_outcome (recover_from_chain cr entries (set chain_utxo_commitments_hex) ks) (\<lambda>(ks, result).
     ok \<lparr>fr_keystore_bytes = keystore_to_bytes cd ks, fr_store_bytes = store_to_bytes cd (rr_store result),
         fr_recovered_count = rr_recovered_count result, fr_recovered_balance = rr_recovered_balance result\<rparr>)))"

definition wasm_sweep_entry ::
    "('p::ab_group_add, 's::comm_ring_1) crypto \<Rightarrow> 's \<Rightarrow> string set \<Rightarrow> scan_entry \<Rightarrow> ('p commitment \<times> 's \<times> u64) option outcome" where
  "wasm_sweep_entry cr stake_key utxo_set entry =
     bind_outcome (wasm_hex_decode (se_note_hex entry)) (\<lambda>note_bytes.
       Ret (do {
         bytes \<leftarrow> note_bytes;
         (height, value') \<leftarrow> open_note cr (coinbase_note_key cr stake_key) bytes;
         check (se_commitment_hex entry \<in> utxo_set);
         let blinding = coinbase_blinding cr stake_key (ucast height);
             c = commitment_new cr value' blinding
         in if commitment_to_hex cr c = se_commitment_hex entry then Some (c, blinding, value') else None
       }))"

definition wasm_sweep_step ::
    "('p::ab_group_add, 's::comm_ring_1) crypto \<Rightarrow> 's \<Rightarrow> string set \<Rightarrow> scan_entry \<Rightarrow>
       ('p commitment \<times> 's \<times> u64) list \<Rightarrow> ('p commitment \<times> 's \<times> u64) list outcome" where
  "wasm_sweep_step cr stake_key utxo_set entry swept =
     bind_outcome (wasm_sweep_entry cr stake_key utxo_set entry) (\<lambda>r.
       Ret (case r of None \<Rightarrow> swept | Some reward \<Rightarrow> swept @ [reward]))"

definition wasm_sweep_validator_rewards ::
    "('p::ab_group_add, 's::comm_ring_1) crypto \<Rightarrow> ('p, 's, 'b, 'j) ffi_codec \<Rightarrow> byte list \<Rightarrow> 's \<Rightarrow> string \<Rightarrow> 'j \<Rightarrow> string list \<Rightarrow>
       'b \<Rightarrow> u64 \<Rightarrow> (js_value, ('b, 'j) wasm_sweep_result) call" where
  "wasm_sweep_validator_rewards cr cd note_nonce k stake_key_hex scan_entries_json chain_utxo_commitments_hex keystore_bytes tx_fee' =
     attempt (require_parsed (wasm_scalar_from_hex cr stake_key_hex) ''invalid stake key hex'') (\<lambda>stake_key.
     attempt (require (keystore_from_bytes cd keystore_bytes) ''invalid keystore bytes'') (\<lambda>ks.
     attempt (require (scan_from_json cd scan_entries_json) ''invalid scan entries JSON'') (\<lambda>entries.
     bind_outcome (fold_outcome (wasm_sweep_step cr stake_key (set chain_utxo_commitments_hex)) entries []) (\<lambda>swept.
     let inputs = map (\<lambda>(c, r, v). \<lparr>in_commitment = c\<rparr>) swept;
         input_blindings = map (\<lambda>(c, r, v). r) swept;
         swept_total = sum_list (map (\<lambda>(c, r, v). v) swept);
         swept_count = word_of_nat (length inputs) :: u32
     in if swept_count = 0 then err ''no unswept validator rewards found''
        else if swept_total \<le> tx_fee' then err (''found '' @ decimal (unat swept_total) @
          '' total rewards, which doesn't cover the fee ('' @ decimal (unat tx_fee') @ '')'')
        else
          let dest_value = swept_total - tx_fee';
              (dest_index, ks) = allocate_index ks;
              dest_output = own_output cr ks note_nonce dest_index dest_value;
              excess_r = sum_list input_blindings - derive_blinding cr ks dest_index;
              kernel = \<lparr>excess = commitment_new cr 0 excess_r, fee = tx_fee',
                kernel_sig = sign cr k (u64_le tx_fee') excess_r\<rparr>;
              transaction = \<lparr>tx_inputs = inputs, tx_outputs = [dest_output], tx_kernels = [kernel]\<rparr>
          in attempt (require (tx_to_json cd transaction) ''failed to serialize transaction'') (\<lambda>transaction_json.
             ok \<lparr>fs_transaction_json = transaction_json, fs_updated_keystore_bytes = keystore_to_bytes cd ks,
                 fs_dest = owned_of cr (dest_index, out_commitment dest_output, dest_value),
                 fs_swept_count = swept_count, fs_swept_total = swept_total\<rparr>)))))"


section \<open>The local ledger\<close>

definition wasm_wallet_store_new :: "('p, 's, 'b, 'j) ffi_codec \<Rightarrow> 'b" where
  "wasm_wallet_store_new cd = store_to_bytes cd []"

definition wasm_claim_genesis ::
    "('p::ab_group_add, 's::comm_ring_1) crypto \<Rightarrow> ('p, 's, 'b, 'j) ffi_codec \<Rightarrow> 'b \<Rightarrow> (js_value, 'b) call" where
  "wasm_claim_genesis cr cd store_bytes =
     attempt (require (store_from_bytes cd store_bytes) ''invalid wallet store bytes'') (\<lambda>store.
       ok (store_to_bytes cd
         (if \<not> has_index store GENESIS_INDEX
          then add_output GENESIS_INDEX 1000000 (commitment_new cr 1000000 (scalar_of_u64 42)) Confirmed store
          else store)))"

definition wasm_parse_commitment :: "('p, 's) crypto \<Rightarrow> string \<Rightarrow> (js_value, 'p commitment) call" where
  "wasm_parse_commitment cr hex = require_parsed (commitment_from_hex cr hex) (''invalid commitment hex: '' @ hex)"

definition wasm_reconcile_wallet_store ::
    "('p, 's) crypto \<Rightarrow> ('p, 's, 'b, 'j) ffi_codec \<Rightarrow> 'b \<Rightarrow> string list \<Rightarrow> (js_value, 'b) call" where
  "wasm_reconcile_wallet_store cr cd store_bytes chain_utxo_commitments_hex =
     attempt (require (store_from_bytes cd store_bytes) ''invalid wallet store bytes'') (\<lambda>store.
     attempt (collect_calls (wasm_parse_commitment cr) chain_utxo_commitments_hex) (\<lambda>utxos.
       ok (store_to_bytes cd (reconcile (set utxos) store))))"

definition wasm_wallet_balance :: "('p, 's, 'b, 'j) ffi_codec \<Rightarrow> 'b \<Rightarrow> (js_value, u64) call" where
  "wasm_wallet_balance cd store_bytes =
     attempt (require (store_from_bytes cd store_bytes) ''invalid wallet store bytes'') (\<lambda>store. ok (balance store))"

definition wasm_wallet_pending_balance :: "('p, 's, 'b, 'j) ffi_codec \<Rightarrow> 'b \<Rightarrow> (js_value, u64) call" where
  "wasm_wallet_pending_balance cd store_bytes =
     attempt (require (store_from_bytes cd store_bytes) ''invalid wallet store bytes'') (\<lambda>store. ok (pending_balance store))"

definition wasm_planned_call :: "(keystore \<times> (plan_error + 'a)) outcome \<Rightarrow> (js_value, keystore \<times> 'a) call" where
  "wasm_planned_call m = bind_outcome m (\<lambda>(ks, r). attempt (map_err wasm_insufficient r) (\<lambda>x. ok (ks, x)))"

definition wasm_plan_send ::
    "('p::ab_group_add, 's::comm_ring_1) crypto \<Rightarrow> ('p, 's, 'b, 'j) ffi_codec \<Rightarrow> string option \<Rightarrow>
       (('p, 's) transaction \<Rightarrow> u64 option) \<Rightarrow> (nat \<Rightarrow> 's send_random) \<Rightarrow> 'b \<Rightarrow> 'b \<Rightarrow> u64 \<Rightarrow> u64 \<Rightarrow>
       (js_value, ('b, 'j) wasm_send_plan) call" where
  "wasm_plan_send cr cd treasury_var size_of rnd keystore_bytes store_bytes amount tx_fee' =
     attempt (require (keystore_from_bytes cd keystore_bytes) ''invalid keystore bytes'') (\<lambda>ks.
     attempt (require (store_from_bytes cd store_bytes) ''invalid wallet store bytes'') (\<lambda>store.
     attempt (wasm_planned_call (plan_send cr treasury_var size_of rnd store amount tx_fee' ks)) (\<lambda>(ks, plan).
     attempt (require (tx_to_json cd (sp_transaction plan)) ''failed to serialize transaction'') (\<lambda>transaction_json.
     ok \<lparr>fp_transaction_json = transaction_json, fp_updated_keystore_bytes = keystore_to_bytes cd ks,
         fp_dest = owned_of cr (sp_dest plan), fp_change = map_option (owned_of cr) (sp_change plan),
         fp_spent_commitments_hex = map (commitment_to_hex cr) (sp_spent_commitments plan)\<rparr>))))"

fun wasm_mark_spent_hex :: "('p, 's) crypto \<Rightarrow> string list \<Rightarrow> 'p wallet_store \<Rightarrow> (js_value, 'p wallet_store) call" where
  "wasm_mark_spent_hex cr [] store = ok store"
| "wasm_mark_spent_hex cr (hex # hexes) store =
     attempt (wasm_parse_commitment cr hex) (\<lambda>c. wasm_mark_spent_hex cr hexes (mark_spent c store))"

definition wasm_add_pending_hex ::
    "('p, 's) crypto \<Rightarrow> wasm_owned_output \<Rightarrow> 'p wallet_store \<Rightarrow> (js_value, 'p wallet_store) call" where
  "wasm_add_pending_hex cr out store =
     attempt (wasm_parse_commitment cr (fo_commitment_hex out)) (\<lambda>c. ok (add_output (fo_index out) (fo_value out) c Pending store))"

definition wasm_add_change_hex ::
    "('p, 's) crypto \<Rightarrow> wasm_owned_output option \<Rightarrow> 'p wallet_store \<Rightarrow> (js_value, 'p wallet_store) call" where
  "wasm_add_change_hex cr change store = (case change of None \<Rightarrow> ok store | Some out \<Rightarrow> wasm_add_pending_hex cr out store)"

definition wasm_commit_send ::
    "('p, 's) crypto \<Rightarrow> ('p, 's, 'b, 'j) ffi_codec \<Rightarrow> 'b \<Rightarrow> string list \<Rightarrow> wasm_owned_output \<Rightarrow> wasm_owned_output option \<Rightarrow>
       (js_value, 'b) call" where
  "wasm_commit_send cr cd store_bytes spent_commitments_hex dest change =
     attempt (require (store_from_bytes cd store_bytes) ''invalid wallet store bytes'') (\<lambda>store.
     attempt (wasm_mark_spent_hex cr spent_commitments_hex store) (\<lambda>store.
     attempt (wasm_add_pending_hex cr dest store) (\<lambda>store.
     attempt (wasm_add_change_hex cr change store) (\<lambda>store.
     ok (store_to_bytes cd store)))))"


section \<open>Seed rotation\<close>

definition wasm_rotate_seed_transaction ::
    "('p::ab_group_add, 's::comm_ring_1) crypto \<Rightarrow> ('p, 's, 'b, 'j) ffi_codec \<Rightarrow> string option \<Rightarrow>
       (('p, 's) transaction \<Rightarrow> u64 option) \<Rightarrow> (nat \<Rightarrow> 's slate_random) \<Rightarrow> byte list \<Rightarrow> 's \<Rightarrow> 'b \<Rightarrow> 'b \<Rightarrow> 'b \<Rightarrow> u64 \<Rightarrow>
       (js_value, 'j wasm_rotate_seed_result) call" where
  "wasm_rotate_seed_transaction cr cd treasury_var size_of rnd note_nonce k old_keystore_bytes store_bytes new_keystore_bytes tx_fee' =
     attempt (require (keystore_from_bytes cd old_keystore_bytes) ''invalid keystore bytes'') (\<lambda>old_keystore.
     attempt (require (store_from_bytes cd store_bytes) ''invalid wallet store bytes'') (\<lambda>store.
     attempt (require (keystore_from_bytes cd new_keystore_bytes) ''invalid new keystore bytes'') (\<lambda>new_keystore.
     if balance store < tx_fee' then err (''insufficient balance: have '' @ decimal (unat (balance store)) @ '', need at least '' @
       decimal (unat tx_fee') @ '' to cover the fee'')
     else let amount = balance store - tx_fee' in
     attempt (wasm_planned_call (create_slate cr treasury_var size_of rnd store amount tx_fee' old_keystore))
       (\<lambda>(old_keystore, built_slate, pending).
     let (new_keystore, response, receiver_info) = respond_to_slate cr note_nonce k built_slate new_keystore in
     attempt (map_err (\<lambda>_. ''failed to finalize rotate-seed transaction'') (finalize_slate cr pending response)) (\<lambda>tx.
     if ps_change pending \<noteq> None then err
       ''internal error: rotate-seed transaction unexpectedly produced change - aborting rather than stranding funds under the old seed''
     else attempt (require (tx_to_json cd tx) ''failed to serialize transaction'') (\<lambda>transaction_json.
       ok \<lparr>fx_transaction_json = transaction_json,
           fx_spent_commitments_hex = map (commitment_to_hex cr) (ps_spent_commitments pending),
           fx_dest = owned_of cr (oi_index receiver_info, oi_commitment receiver_info, oi_value receiver_info)\<rparr>))))))"


section \<open>Two-party payments\<close>

definition wasm_create_send_slate ::
    "('p::ab_group_add, 's::comm_ring_1) crypto \<Rightarrow> ('p, 's, 'b, 'j) ffi_codec \<Rightarrow> string option \<Rightarrow>
       (('p, 's) transaction \<Rightarrow> u64 option) \<Rightarrow> (nat \<Rightarrow> 's slate_random) \<Rightarrow> 'b \<Rightarrow> 'b \<Rightarrow> u64 \<Rightarrow> u64 \<Rightarrow>
       (js_value, ('b, 'j) wasm_create_slate_result) call" where
  "wasm_create_send_slate cr cd treasury_var size_of rnd keystore_bytes store_bytes amount tx_fee' =
     attempt (require (keystore_from_bytes cd keystore_bytes) ''invalid keystore bytes'') (\<lambda>ks.
     attempt (require (store_from_bytes cd store_bytes) ''invalid wallet store bytes'') (\<lambda>store.
     attempt (wasm_planned_call (create_slate cr treasury_var size_of rnd store amount tx_fee' ks)) (\<lambda>(ks, built_slate, pending).
     attempt (require (slate_to_json cd built_slate) ''failed to serialize slate'') (\<lambda>slate_json.
     attempt (require (pending_to_bytes cd pending) ''failed to serialize pending slate'') (\<lambda>pending_slate_bytes.
     ok \<lparr>fc_slate_json = slate_json, fc_pending_slate_bytes = pending_slate_bytes,
         fc_updated_keystore_bytes = keystore_to_bytes cd ks\<rparr>)))))"

definition wasm_respond_to_slate ::
    "('p::ab_group_add, 's::comm_ring_1) crypto \<Rightarrow> ('p, 's, 'b, 'j) ffi_codec \<Rightarrow> byte list \<Rightarrow> 's \<Rightarrow> 'b \<Rightarrow> 'j \<Rightarrow>
       (js_value, ('b, 'j) wasm_respond_result) call" where
  "wasm_respond_to_slate cr cd note_nonce k keystore_bytes slate_json =
     attempt (require (keystore_from_bytes cd keystore_bytes) ''invalid keystore bytes'') (\<lambda>ks.
     attempt (require (slate_from_json cd slate_json) ''invalid slate JSON'') (\<lambda>incoming.
     let (ks, response, owned_output') = respond_to_slate cr note_nonce k incoming ks in
     attempt (require (slate_to_json cd response) ''failed to serialize response slate'') (\<lambda>response_slate_json.
     ok \<lparr>fq_response_slate_json = response_slate_json,
         fq_receiver_output = owned_of cr (oi_index owned_output', oi_commitment owned_output', oi_value owned_output'),
         fq_updated_keystore_bytes = keystore_to_bytes cd ks\<rparr>)))"

definition wasm_finalize_slate ::
    "('p::ab_group_add, 's::comm_ring_1) crypto \<Rightarrow> ('p, 's, 'b, 'j) ffi_codec \<Rightarrow> 'b \<Rightarrow> 'j \<Rightarrow> (js_value, 'j wasm_finalized_tx) call" where
  "wasm_finalize_slate cr cd pending_slate_bytes response_slate_json =
     attempt (require (pending_from_bytes cd pending_slate_bytes) ''invalid pending slate bytes'') (\<lambda>pending.
     attempt (require (slate_from_json cd response_slate_json) ''invalid response slate JSON'') (\<lambda>response.
     attempt (map_err (\<lambda>_. ''incomplete response - has the recipient responded to this slate yet?'') (finalize_slate cr pending response)) (\<lambda>transaction.
     attempt (require (tx_to_json cd transaction) ''failed to serialize transaction'') (\<lambda>transaction_json.
     ok \<lparr>ff_transaction_json = transaction_json,
         ff_spent_commitments_hex = map (commitment_to_hex cr) (ps_spent_commitments pending),
         ff_change = change_owned cr pending\<rparr>))))"

definition wasm_pending_slate_reservation ::
    "('p, 's) crypto \<Rightarrow> ('p, 's, 'b, 'j) ffi_codec \<Rightarrow> 'b \<Rightarrow> (js_value, wasm_slate_reservation) call" where
  "wasm_pending_slate_reservation cr cd pending_slate_bytes =
     attempt (require (pending_from_bytes cd pending_slate_bytes) ''invalid pending slate bytes'') (\<lambda>pending.
     ok \<lparr>fv_spent_commitments_hex = map (commitment_to_hex cr) (ps_spent_commitments pending),
         fv_change = change_owned cr pending\<rparr>)"

definition wasm_commit_receive ::
    "('p, 's) crypto \<Rightarrow> ('p, 's, 'b, 'j) ffi_codec \<Rightarrow> 'b \<Rightarrow> wasm_owned_output \<Rightarrow> (js_value, 'b) call" where
  "wasm_commit_receive cr cd store_bytes output =
     attempt (require (store_from_bytes cd store_bytes) ''invalid wallet store bytes'') (\<lambda>store.
     attempt (wasm_add_pending_hex cr output store) (\<lambda>store.
     ok (store_to_bytes cd store)))"

definition wasm_commit_slate_send ::
    "('p, 's) crypto \<Rightarrow> ('p, 's, 'b, 'j) ffi_codec \<Rightarrow> 'b \<Rightarrow> string list \<Rightarrow> wasm_owned_output option \<Rightarrow> (js_value, 'b) call" where
  "wasm_commit_slate_send cr cd store_bytes spent_commitments_hex change =
     attempt (require (store_from_bytes cd store_bytes) ''invalid wallet store bytes'') (\<lambda>store.
     attempt (wasm_mark_spent_hex cr spent_commitments_hex store) (\<lambda>store.
     attempt (wasm_add_change_hex cr change store) (\<lambda>store.
     ok (store_to_bytes cd store))))"


section \<open>Staking\<close>

definition wasm_largest_confirmed :: "'p wallet_store \<Rightarrow> u64 \<Rightarrow> (js_value, 'p owned_output) call" where
  "wasm_largest_confirmed store min_value =
     (case spendable store of
        [] \<Rightarrow> err ''no confirmed balance available to stake''
      | largest # _ \<Rightarrow>
          if oo_value largest < min_value then err (''largest owned output ('' @
            decimal (unat (oo_value largest)) @ '') is below the requested minimum stake ('' @ decimal (unat min_value) @ '')'') else ok largest)"

definition wasm_build_stake_request ::
    "('p::ab_group_add, 's::comm_ring_1) crypto \<Rightarrow> ('p, 's, 'b, 'j) ffi_codec \<Rightarrow> string option \<Rightarrow> 's \<Rightarrow> 'b \<Rightarrow> 'b \<Rightarrow> u64 \<Rightarrow>
       (js_value, 'j) call" where
  "wasm_build_stake_request cr cd treasury_var k keystore_bytes store_bytes min_value =
     attempt (require (keystore_from_bytes cd keystore_bytes) ''invalid keystore bytes'') (\<lambda>ks.
     attempt (require (store_from_bytes cd store_bytes) ''invalid wallet store bytes'') (\<lambda>store.
     attempt (wasm_largest_confirmed store min_value) (\<lambda>largest.
     bind_outcome (blinding_for cr treasury_var ks (oo_index largest)) (\<lambda>blinding.
     let msg = stake_registration_message cr (oo_commitment largest) (oo_value largest) in
     require (stake_to_json cd \<lparr>sr_commitment = oo_commitment largest, sr_value = oo_value largest,
       sr_proof = sign cr k msg blinding\<rparr>) ''failed to serialize stake request''))))"

definition wasm_reveal_stake_blinding_hex ::
    "('p::ab_group_add, 's::comm_ring_1) crypto \<Rightarrow> ('p, 's, 'b, 'j) ffi_codec \<Rightarrow> string option \<Rightarrow> 'b \<Rightarrow> 'b \<Rightarrow> u64 \<Rightarrow>
       (js_value, string) call" where
  "wasm_reveal_stake_blinding_hex cr cd treasury_var keystore_bytes store_bytes min_value =
     attempt (require (keystore_from_bytes cd keystore_bytes) ''invalid keystore bytes'') (\<lambda>ks.
     attempt (require (store_from_bytes cd store_bytes) ''invalid wallet store bytes'') (\<lambda>store.
     attempt (wasm_largest_confirmed store min_value) (\<lambda>largest.
     bind_outcome (blinding_for cr treasury_var ks (oo_index largest)) (\<lambda>blinding.
     ok (to_hex (scalar_bytes cr blinding))))))"


section \<open>Names and identity\<close>

definition wasm_build_fee_payment ::
    "('p::ab_group_add, 's::comm_ring_1) crypto \<Rightarrow> string option \<Rightarrow> 's fee_random \<Rightarrow> 'p wallet_store \<Rightarrow> u64 \<Rightarrow> keystore \<Rightarrow>
       (js_value, keystore \<times> ('p, 's) transaction \<times> string list \<times> wasm_owned_output option) call" where
  "wasm_build_fee_payment cr treasury_var rnd store tx_fee' ks =
     attempt (map_err wasm_insufficient (select_spendable_confirmed_only store tx_fee')) (\<lambda>selected.
     let selected_total = sum_list (map planned_value selected) in
     bind_outcome (input_blindings cr treasury_var ks selected) (\<lambda>blindings.
     let inputs = map (\<lambda>p. \<lparr>in_commitment = planned_commitment p\<rparr>) selected;
         spent_commitments_hex = map (\<lambda>p. commitment_to_hex cr (planned_commitment p)) selected;
         change_value = selected_total - tx_fee';
         (outputs, change, change_blinding, ks) =
           (if 0 < change_value
            then let (change_index, ks) = allocate_index ks;
                     out = own_output cr ks (fr_change_nonce rnd) change_index change_value
                 in ([out], Some (owned_of cr (change_index, out_commitment out, change_value)),
                     derive_blinding cr ks change_index, ks)
            else ([], None, 0, ks));
         excess_r = sum_list blindings - change_blinding;
         kernel = \<lparr>excess = commitment_new cr 0 excess_r, fee = tx_fee',
           kernel_sig = sign cr (fr_sign_nonce rnd) (u64_le tx_fee') excess_r\<rparr>
     in ok (ks, \<lparr>tx_inputs = inputs, tx_outputs = outputs, tx_kernels = [kernel]\<rparr>, spent_commitments_hex, change)))"

definition wasm_build_register_name_request ::
    "('p::ab_group_add, 's::comm_ring_1) crypto \<Rightarrow> ('p, 's, 'b, 'j) ffi_codec \<Rightarrow> string option \<Rightarrow> 's fee_random \<Rightarrow> 's \<Rightarrow>
       'b \<Rightarrow> 'b \<Rightarrow> string \<Rightarrow> u64 \<Rightarrow> (js_value, ('b, 'j) wasm_register_name_result) call" where
  "wasm_build_register_name_request cr cd treasury_var rnd k keystore_bytes store_bytes name tx_fee' =
     attempt (map_err (\<lambda>e. ''invalid name: '' @ name_error_debug e) (validate_name name)) (\<lambda>_.
     if tx_fee' < NAME_REGISTRATION_FEE then err (''fee must be at least '' @ decimal (unat NAME_REGISTRATION_FEE))
     else
     attempt (require (keystore_from_bytes cd keystore_bytes) ''invalid keystore bytes'') (\<lambda>ks.
     attempt (require (store_from_bytes cd store_bytes) ''invalid wallet store bytes'') (\<lambda>store.
     attempt (wasm_build_fee_payment cr treasury_var rnd store tx_fee' ks) (\<lambda>(ks, fee_payment, spent_commitments_hex, change).
     let owner_secret = identity_key cr ks;
         owner_pubkey = identity_pubkey cr ks;
         op = \<lparr>rn_name = name, rn_owner_pubkey = owner_pubkey, rn_resolves_to = owner_pubkey,
           rn_fee_payment = fee_payment, rn_signature = register_name_sign cr k name owner_secret\<rparr>
     in attempt (require (name_to_json cd op) ''failed to serialize registration'') (\<lambda>op_json.
     ok \<lparr>fn_op_json = op_json, fn_updated_keystore_bytes = keystore_to_bytes cd ks,
         fn_spent_commitments_hex = spent_commitments_hex, fn_change = change\<rparr>)))))"

definition wasm_build_sponsored_register_name_request ::
    "('p::ab_group_add, 's::comm_ring_1) crypto \<Rightarrow> ('p, 's, 'b, 'j) ffi_codec \<Rightarrow> 's \<Rightarrow> 'b \<Rightarrow> string \<Rightarrow> (js_value, 'j) call" where
  "wasm_build_sponsored_register_name_request cr cd k keystore_bytes name =
     attempt (map_err (\<lambda>e. ''invalid name: '' @ name_error_debug e) (validate_name name)) (\<lambda>_.
     attempt (require (keystore_from_bytes cd keystore_bytes) ''invalid keystore bytes'') (\<lambda>ks.
     let owner_pubkey = identity_pubkey cr ks in
     require (sponsored_to_json cd \<lparr>rq_name = name, rq_owner_pubkey = owner_pubkey, rq_resolves_to = owner_pubkey,
       rq_signature = register_name_sign cr k name (identity_key cr ks)\<rparr>) ''failed to serialize sponsored registration request''))"

definition wasm_commit_register_name ::
    "('p, 's) crypto \<Rightarrow> ('p, 's, 'b, 'j) ffi_codec \<Rightarrow> 'b \<Rightarrow> string list \<Rightarrow> wasm_owned_output option \<Rightarrow> (js_value, 'b) call" where
  "wasm_commit_register_name cr cd store_bytes spent_commitments_hex change =
     attempt (require (store_from_bytes cd store_bytes) ''invalid wallet store bytes'') (\<lambda>store.
     attempt (wasm_mark_spent_hex cr spent_commitments_hex store) (\<lambda>store.
     attempt (wasm_add_change_hex cr change store) (\<lambda>store.
     ok (store_to_bytes cd store))))"

definition wasm_wallet_identity_pubkey_hex ::
    "('p, 's) crypto \<Rightarrow> ('p, 's, 'b, 'j) ffi_codec \<Rightarrow> 'b \<Rightarrow> (js_value, string) call" where
  "wasm_wallet_identity_pubkey_hex cr cd keystore_bytes =
     attempt (require (keystore_from_bytes cd keystore_bytes) ''invalid keystore bytes'') (\<lambda>ks.
     ok (commitment_to_hex cr (identity_pubkey cr ks)))"

definition wasm_sign_identity_message ::
    "('p::ab_group_add, 's::comm_ring_1) crypto \<Rightarrow> ('p, 's, 'b, 'j) ffi_codec \<Rightarrow> 's \<Rightarrow> 'b \<Rightarrow> string \<Rightarrow> (js_value, string) call" where
  "wasm_sign_identity_message cr cd k keystore_bytes message =
     attempt (require (keystore_from_bytes cd keystore_bytes) ''invalid keystore bytes'') (\<lambda>ks.
     ok (signature_to_hex cr (sign cr k (bytes_of message) (identity_key cr ks))))"

definition wasm_verify_identity_signature ::
    "('p::ab_group_add, 's::comm_ring_1) crypto \<Rightarrow> string \<Rightarrow> string \<Rightarrow> string \<Rightarrow> (js_value, bool) call" where
  "wasm_verify_identity_signature cr pubkey_hex message signature_hex =
     attempt (wasm_parse cr ''invalid pubkey hex'' pubkey_hex) (\<lambda>pubkey.
     attempt (require_parsed (signature_from_hex cr signature_hex) ''invalid signature hex'') (\<lambda>sig.
     ok (verify cr sig (bytes_of message) pubkey)))"

definition wasm_build_transfer_name_request ::
    "('p::ab_group_add, 's::comm_ring_1) crypto \<Rightarrow> ('p, 's, 'b, 'j) ffi_codec \<Rightarrow> 's \<Rightarrow> 'b \<Rightarrow> string \<Rightarrow> string \<Rightarrow> string \<Rightarrow>
       (js_value, 'j) call" where
  "wasm_build_transfer_name_request cr cd k keystore_bytes name new_owner_pubkey_hex new_resolves_to_hex =
     attempt (require (keystore_from_bytes cd keystore_bytes) ''invalid keystore bytes'') (\<lambda>ks.
     attempt (wasm_parse cr ''invalid new owner pubkey hex'' new_owner_pubkey_hex) (\<lambda>new_owner_pubkey.
     attempt (wasm_parse cr ''invalid new resolves-to pubkey hex'' new_resolves_to_hex) (\<lambda>new_resolves_to.
     require (transfer_name_to_json cd \<lparr>tn_name = name, tn_new_owner_pubkey = new_owner_pubkey,
       tn_new_resolves_to = new_resolves_to,
       tn_signature = transfer_name_sign cr k name new_owner_pubkey new_resolves_to (identity_key cr ks)\<rparr>)
       ''failed to serialize transfer'')))"


section \<open>Assets and listings\<close>

definition wasm_build_mint_asset_request ::
    "('p::ab_group_add, 's::comm_ring_1) crypto \<Rightarrow> ('p, 's, 'b, 'j) ffi_codec \<Rightarrow> string option \<Rightarrow> 's fee_random \<Rightarrow> 's \<Rightarrow>
       'b \<Rightarrow> 'b \<Rightarrow> string \<Rightarrow> string \<Rightarrow> u64 \<Rightarrow> (js_value, ('b, 'j) wasm_mint_asset_result) call" where
  "wasm_build_mint_asset_request cr cd treasury_var rnd k keystore_bytes store_bytes asset_id metadata tx_fee' =
     attempt (map_err (\<lambda>e. ''invalid asset id: '' @ asset_error_debug e) (validate_asset_id asset_id)) (\<lambda>_.
     if tx_fee' < ASSET_MINT_FEE then err (''fee must be at least '' @ decimal (unat ASSET_MINT_FEE))
     else if MAX_METADATA_BYTES < length metadata then err (''metadata must be at most '' @ decimal MAX_METADATA_BYTES @ '' bytes'')
     else
     attempt (require (keystore_from_bytes cd keystore_bytes) ''invalid keystore bytes'') (\<lambda>ks.
     attempt (require (store_from_bytes cd store_bytes) ''invalid wallet store bytes'') (\<lambda>store.
     attempt (wasm_build_fee_payment cr treasury_var rnd store tx_fee' ks) (\<lambda>(ks, fee_payment, spent_commitments_hex, change).
     let metadata_bytes = bytes_of metadata;
         owner_secret = identity_key cr ks;
         op = \<lparr>ma_asset_id = asset_id, ma_owner_pubkey = identity_pubkey cr ks, ma_metadata = metadata_bytes,
           ma_fee_payment = fee_payment, ma_collection_id = None, ma_phase_index = None, ma_allowlist_proof = None,
           ma_allowlist_leaf_index = None, ma_required_kernel_excess = None,
           ma_signature = mint_asset_sign cr k asset_id metadata_bytes None None None owner_secret,
           ma_creator_signature = None\<rparr>
     in attempt (require (mint_to_json cd op) ''failed to serialize mint'') (\<lambda>op_json.
     ok \<lparr>fm_op_json = op_json, fm_updated_keystore_bytes = keystore_to_bytes cd ks,
         fm_spent_commitments_hex = spent_commitments_hex, fm_change = change\<rparr>)))))"

definition wasm_commit_mint_asset ::
    "('p, 's) crypto \<Rightarrow> ('p, 's, 'b, 'j) ffi_codec \<Rightarrow> 'b \<Rightarrow> string list \<Rightarrow> wasm_owned_output option \<Rightarrow> (js_value, 'b) call" where
  "wasm_commit_mint_asset cr cd store_bytes spent_commitments_hex change =
     attempt (require (store_from_bytes cd store_bytes) ''invalid wallet store bytes'') (\<lambda>store.
     attempt (wasm_mark_spent_hex cr spent_commitments_hex store) (\<lambda>store.
     attempt (wasm_add_change_hex cr change store) (\<lambda>store.
     ok (store_to_bytes cd store))))"

definition wasm_build_transfer_asset_request ::
    "('p::ab_group_add, 's::comm_ring_1) crypto \<Rightarrow> ('p, 's, 'b, 'j) ffi_codec \<Rightarrow> 's \<Rightarrow> 'b \<Rightarrow> string \<Rightarrow> string \<Rightarrow>
       string option \<Rightarrow> string option \<Rightarrow> (js_value, 'j) call" where
  "wasm_build_transfer_asset_request cr cd k keystore_bytes asset_id new_owner_pubkey_hex required_kernel_excess_hex
       required_royalty_kernel_excess_hex =
     attempt (require (keystore_from_bytes cd keystore_bytes) ''invalid keystore bytes'') (\<lambda>ks.
     attempt (wasm_parse cr ''invalid new owner pubkey hex'' new_owner_pubkey_hex) (\<lambda>new_owner_pubkey.
     attempt (optional (wasm_parse cr ''invalid required kernel excess hex'') required_kernel_excess_hex) (\<lambda>required_kernel_excess.
     attempt (optional (wasm_parse cr ''invalid required royalty kernel excess hex'') required_royalty_kernel_excess_hex) (\<lambda>required_royalty_kernel_excess.
     require (transfer_asset_to_json cd \<lparr>ta_asset_id = asset_id, ta_new_owner_pubkey = new_owner_pubkey,
       ta_required_kernel_excess = required_kernel_excess,
       ta_required_royalty_kernel_excess = required_royalty_kernel_excess,
       ta_signature = transfer_asset_sign cr k asset_id new_owner_pubkey required_kernel_excess
         required_royalty_kernel_excess (identity_key cr ks)\<rparr>) ''failed to serialize transfer''))))"

definition wasm_tx_kernel_excess_hex :: "('p, 's) crypto \<Rightarrow> ('p, 's, 'b, 'j) ffi_codec \<Rightarrow> 'j \<Rightarrow> (js_value, string) call" where
  "wasm_tx_kernel_excess_hex cr cd transaction_json =
     attempt (require (tx_from_json cd transaction_json) ''invalid transaction json'') (\<lambda>tx.
     case tx_kernels tx of
       [] \<Rightarrow> err ''transaction has no kernels''
     | first # _ \<Rightarrow> ok (commitment_to_hex cr (excess first)))"

definition wasm_build_create_listing_request ::
    "('p::ab_group_add, 's::comm_ring_1) crypto \<Rightarrow> ('p, 's, 'b, 'j) ffi_codec \<Rightarrow> 's \<Rightarrow> 'b \<Rightarrow> string \<Rightarrow> u64 \<Rightarrow> u64 \<Rightarrow>
       (js_value, 'j) call" where
  "wasm_build_create_listing_request cr cd k keystore_bytes asset_id price listed_at =
     attempt (require (keystore_from_bytes cd keystore_bytes) ''invalid keystore bytes'') (\<lambda>ks.
     let seller_pubkey = identity_pubkey cr ks in
     require (listing_to_json cd \<lparr>li_asset_id = asset_id, li_seller_pubkey = seller_pubkey, li_price = price,
       li_listed_at = listed_at,
       li_signature = listing_sign cr k asset_id seller_pubkey price listed_at (identity_key cr ks)\<rparr>)
       ''failed to serialize listing'')"

definition wasm_build_cancel_listing_request ::
    "('p::ab_group_add, 's::comm_ring_1) crypto \<Rightarrow> ('p, 's, 'b, 'j) ffi_codec \<Rightarrow> 's \<Rightarrow> 'b \<Rightarrow> string \<Rightarrow> (js_value, 'j) call" where
  "wasm_build_cancel_listing_request cr cd k keystore_bytes asset_id =
     attempt (require (keystore_from_bytes cd keystore_bytes) ''invalid keystore bytes'') (\<lambda>ks.
     let seller_pubkey = identity_pubkey cr ks in
     require (cancel_to_json cd \<lparr>cr_asset_id = asset_id, cr_seller_pubkey = seller_pubkey,
       cr_signature = sign cr k (cancel_message cr asset_id seller_pubkey) (identity_key cr ks)\<rparr>)
       ''failed to serialize cancellation'')"


section \<open>Collections\<close>

definition wasm_build_launch_collection_request ::
    "('p::ab_group_add, 's::comm_ring_1) crypto \<Rightarrow> ('p, 's, 'b, 'j) ffi_codec \<Rightarrow> (mint_phase list \<Rightarrow> byte list) \<Rightarrow> 's \<Rightarrow> 'b \<Rightarrow>
       string \<Rightarrow> string \<Rightarrow> string \<Rightarrow> string \<Rightarrow> 'j \<Rightarrow> u16 \<Rightarrow> (js_value, 'j) call" where
  "wasm_build_launch_collection_request cr cd phase_bytes k keystore_bytes collection_id name symbol metadata phases_json royalty_bps =
     (if MAX_ROYALTY_BPS < royalty_bps then err (''royalty_bps must be at most '' @ decimal (unat MAX_ROYALTY_BPS))
      else
      attempt (require (keystore_from_bytes cd keystore_bytes) ''invalid keystore bytes'') (\<lambda>ks.
      let creator_pubkey = identity_pubkey cr ks in
      attempt (map_err (\<lambda>e. ''invalid phases_json: '' @ e) (phases_from_json cd phases_json)) (\<lambda>phases.
      let metadata_bytes = bytes_of metadata in
      require (launch_to_json cd \<lparr>lc_collection_id = collection_id, lc_creator_pubkey = creator_pubkey, lc_name = name,
        lc_symbol = symbol, lc_metadata = metadata_bytes, lc_phases = phases, lc_royalty_bps = royalty_bps,
        lc_signature = launch_collection_sign cr k phase_bytes collection_id creator_pubkey name symbol metadata_bytes phases
          royalty_bps (identity_key cr ks)\<rparr>) ''failed to serialize collection launch'')))"

definition wasm_build_collection_mint_asset_request ::
    "('p::ab_group_add, 's::comm_ring_1) crypto \<Rightarrow> ('p, 's, 'b, 'j) ffi_codec \<Rightarrow> string option \<Rightarrow> 's fee_random \<Rightarrow> 's \<Rightarrow>
       'b \<Rightarrow> 'b \<Rightarrow> string \<Rightarrow> string \<Rightarrow> u64 \<Rightarrow> string \<Rightarrow> u32 \<Rightarrow> string list option \<Rightarrow> u32 option \<Rightarrow> string option \<Rightarrow>
       (js_value, ('b, 'j) wasm_mint_asset_result) call" where
  "wasm_build_collection_mint_asset_request cr cd treasury_var rnd k keystore_bytes store_bytes asset_id metadata tx_fee'
       collection_id phase_index allowlist_proof_hex allowlist_leaf_index required_kernel_excess_hex =
     attempt (map_err (\<lambda>e. ''invalid asset id: '' @ asset_error_debug e) (validate_asset_id asset_id)) (\<lambda>_.
     if tx_fee' < ASSET_MINT_FEE then err (''fee must be at least '' @ decimal (unat ASSET_MINT_FEE))
     else if MAX_METADATA_BYTES < length metadata then err (''metadata must be at most '' @ decimal MAX_METADATA_BYTES @ '' bytes'')
     else
     attempt (require (keystore_from_bytes cd keystore_bytes) ''invalid keystore bytes'') (\<lambda>ks.
     attempt (require (store_from_bytes cd store_bytes) ''invalid wallet store bytes'') (\<lambda>store.
     attempt (wasm_build_fee_payment cr treasury_var rnd store tx_fee' ks) (\<lambda>(ks, fee_payment, spent_commitments_hex, change).
     let metadata_bytes = bytes_of metadata;
         owner_secret = identity_key cr ks in
     attempt (optional (collect_calls wasm_hex_to_32) allowlist_proof_hex) (\<lambda>allowlist_proof.
     attempt (optional (wasm_parse cr ''invalid required kernel excess hex'') required_kernel_excess_hex) (\<lambda>required_kernel_excess.
     let op = \<lparr>ma_asset_id = asset_id, ma_owner_pubkey = identity_pubkey cr ks, ma_metadata = metadata_bytes,
           ma_fee_payment = fee_payment, ma_collection_id = Some collection_id, ma_phase_index = Some phase_index,
           ma_allowlist_proof = allowlist_proof, ma_allowlist_leaf_index = allowlist_leaf_index,
           ma_required_kernel_excess = required_kernel_excess,
           ma_signature = mint_asset_sign cr k asset_id metadata_bytes (Some collection_id) (Some phase_index)
             required_kernel_excess owner_secret,
           ma_creator_signature = None\<rparr>
     in attempt (require (mint_to_json cd op) ''failed to serialize mint'') (\<lambda>op_json.
     ok \<lparr>fm_op_json = op_json, fm_updated_keystore_bytes = keystore_to_bytes cd ks,
         fm_spent_commitments_hex = spent_commitments_hex, fm_change = change\<rparr>)))))))"

definition wasm_attach_creator_signature_to_mint ::
    "('p, 's) crypto \<Rightarrow> ('p, 's, 'b, 'j) ffi_codec \<Rightarrow> 'j \<Rightarrow> string \<Rightarrow> (js_value, 'j) call" where
  "wasm_attach_creator_signature_to_mint cr cd op_json creator_signature_hex =
     attempt (require (mint_from_json cd op_json) ''invalid mint op json'') (\<lambda>op.
     attempt (require_parsed (signature_from_hex cr creator_signature_hex) ''invalid creator signature hex'') (\<lambda>sig.
     require (mint_to_json cd (op\<lparr>ma_creator_signature := Some sig\<rparr>)) ''failed to serialize mint''))"

definition wasm_sign_collection_mint_approval ::
    "('p::ab_group_add, 's::comm_ring_1) crypto \<Rightarrow> ('p, 's, 'b, 'j) ffi_codec \<Rightarrow> 's \<Rightarrow> 'b \<Rightarrow> string \<Rightarrow> string \<Rightarrow> u32 \<Rightarrow> string \<Rightarrow>
       string \<Rightarrow> (js_value, string) call" where
  "wasm_sign_collection_mint_approval cr cd k keystore_bytes asset_id collection_id phase_index required_kernel_excess_hex
       owner_pubkey_hex =
     attempt (require (keystore_from_bytes cd keystore_bytes) ''invalid keystore bytes'') (\<lambda>ks.
     attempt (wasm_parse cr ''invalid required kernel excess hex'' required_kernel_excess_hex) (\<lambda>required_kernel_excess.
     attempt (wasm_parse cr ''invalid owner pubkey hex'' owner_pubkey_hex) (\<lambda>owner_pubkey.
     ok (signature_to_hex cr (sign_collection_approval cr k asset_id collection_id phase_index required_kernel_excess
       owner_pubkey (identity_key cr ks))))))"

definition wasm_compute_allowlist_merkle_proof ::
    "('p, 's) crypto \<Rightarrow> string list \<Rightarrow> string \<Rightarrow> (js_value, wasm_merkle_proof_result) call" where
  "wasm_compute_allowlist_merkle_proof cr pubkeys_hex target_pubkey_hex =
     attempt (collect_calls (wasm_parse_pubkey cr) pubkeys_hex) (\<lambda>pubkeys.
     attempt (wasm_parse cr ''invalid target pubkey hex'' target_pubkey_hex) (\<lambda>target.
     attempt (require (position (\<lambda>p. p = target) pubkeys) ''target pubkey is not present in the allowlist'') (\<lambda>leaf_index.
     let leaves = map (allowlist_leaf cr) pubkeys in
     bind_outcome (build_merkle_proof cr leaves leaf_index) (\<lambda>proof.
     ok \<lparr>fk_proof_hex = map to_hex proof, fk_leaf_index = word_of_nat leaf_index,
         fk_root_hex = to_hex (merkle_root cr leaves)\<rparr>))))"

definition wasm_sign_allowlist_publish ::
    "('p::ab_group_add, 's::comm_ring_1) crypto \<Rightarrow> ('p, 's, 'b, 'j) ffi_codec \<Rightarrow> 's \<Rightarrow> 'b \<Rightarrow> string \<Rightarrow> u32 \<Rightarrow> string list \<Rightarrow> u64 \<Rightarrow>
       (js_value, 'j) call" where
  "wasm_sign_allowlist_publish cr cd k keystore_bytes collection_id phase_index pubkeys_hex published_at =
     attempt (require (keystore_from_bytes cd keystore_bytes) ''invalid keystore bytes'') (\<lambda>ks.
     attempt (collect_calls (wasm_parse_pubkey cr) pubkeys_hex) (\<lambda>pubkeys.
     require (allowlist_to_json cd \<lparr>ae_collection_id = collection_id, ae_phase_index = phase_index,
       ae_creator_pubkey = identity_pubkey cr ks, ae_pubkeys = pubkeys, ae_published_at = published_at,
       ae_signature = allowlist_sign cr k collection_id phase_index pubkeys published_at (identity_key cr ks)\<rparr>)
       ''failed to serialize allowlist publish''))"


section \<open>The two surfaces agree\<close>

named_theorems mirrors

text \<open>What a call delivers, its error forgotten: nothing, no value, or a value.\<close>

fun result_of :: "('e, 'a) call \<Rightarrow> 'a option outcome" where
  "result_of Panic = Panic"
| "result_of (Ret (Inl e)) = Ret None"
| "result_of (Ret (Inr x)) = Ret (Some x)"

lemmas mirror_cases = prod.case_distrib [of result_of] if_distrib [of result_of] list.case_distrib [of result_of]
  option.case_distrib [of result_of] Let_def
lemmas mirror_congs = if_cong option.case_cong list.case_cong prod.case_cong

lemma result_of_ok: "result_of m = Ret (Some x) \<longleftrightarrow> m = ok x"
  by (cases m rule: result_of.cases) auto

lemma result_of_attempt [mirrors]:
  "result_of (attempt m f) = bind_outcome (result_of m) (\<lambda>r. case r of None \<Rightarrow> Ret None | Some x \<Rightarrow> result_of (f x))"
  by (cases m rule: result_of.cases) auto

lemma result_of_bind [mirrors]: "result_of (bind_outcome m f) = bind_outcome m (\<lambda>x. result_of (f x))"
  by (cases m) auto

lemma result_of_require [mirrors]: "result_of (require v e) = Ret v" "result_of (require_parsed m e) = m"
  by (cases v) (simp_all, cases m, auto simp: require_parsed_def require_def ok_or_def split: option.splits)

lemma result_of_map_err [mirrors]: "result_of (map_err f r) = Ret (case r of Inl e \<Rightarrow> None | Inr x \<Rightarrow> Some x)"
  by (cases r) simp_all

lemma result_of_collect:
  assumes "\<And>x. result_of (f x) = result_of (g x)"
  shows "result_of (collect_calls f xs) = result_of (collect_calls g xs)"
  by (induction xs) (simp_all add: mirrors assms cong: mirror_congs)

lemma result_of_optional:
  assumes "\<And>x. result_of (f x) = result_of (g x)"
  shows "result_of (optional f v) = result_of (optional g v)"
  by (cases v) (simp_all add: mirrors assms cong: mirror_congs)

lemma wasm_hex_decode_eq [mirrors]: "wasm_hex_decode = ffi_hex_decode"
  by (rule ext)+ (simp add: wasm_hex_decode_def ffi_hex_decode_def mirrors)

lemma wasm_scalar_from_hex_eq [mirrors]: "wasm_scalar_from_hex = ffi_scalar_from_hex"
  by (rule ext)+ (simp add: wasm_scalar_from_hex_def ffi_scalar_from_hex_def mirrors)

lemma wasm_generate_keystore_eq [mirrors]: "wasm_generate_keystore = generate_keystore"
  by (rule ext)+ (simp add: wasm_generate_keystore_def generate_keystore_def mirrors)

lemma wasm_generate_keystore_with_mnemonic_eq [mirrors]: "wasm_generate_keystore_with_mnemonic = generate_keystore_with_mnemonic"
  by (rule ext)+ (simp add: wasm_generate_keystore_with_mnemonic_def generate_keystore_with_mnemonic_def mirrors)

lemma wasm_sweep_entry_eq [mirrors]: "wasm_sweep_entry = sweep_entry"
  by (rule ext)+ (simp add: wasm_sweep_entry_def sweep_entry_def mirrors)

lemma wasm_sweep_step_eq [mirrors]: "wasm_sweep_step = sweep_step"
  by (rule ext)+ (simp add: wasm_sweep_step_def sweep_step_def mirrors)

lemma wasm_wallet_store_new_eq [mirrors]: "wasm_wallet_store_new = wallet_store_new"
  by (rule ext)+ (simp add: wasm_wallet_store_new_def wallet_store_new_def mirrors)

lemma wasm_hex_to_32_mirrors [mirrors]:
  "result_of (wasm_hex_to_32 hex) =
   result_of (hex_to_32 hex)"
  by (simp add: wasm_hex_to_32_def hex_to_32_def mirrors mirror_cases cong: mirror_congs)

lemma wasm_restore_keystore_from_mnemonic_mirrors [mirrors]:
  "result_of (wasm_restore_keystore_from_mnemonic cd bip39_seed phrase) =
   result_of (restore_keystore_from_mnemonic cd bip39_seed phrase)"
  by (simp add: wasm_restore_keystore_from_mnemonic_def restore_keystore_from_mnemonic_def mirrors mirror_cases cong: mirror_congs)

lemma wasm_recover_wallet_from_chain_mirrors [mirrors]:
  "result_of (wasm_recover_wallet_from_chain cr cd kb scan utxos) =
   result_of (recover_wallet_from_chain cr cd kb scan utxos)"
  by (simp add: wasm_recover_wallet_from_chain_def recover_wallet_from_chain_def mirrors mirror_cases cong: mirror_congs)

lemma wasm_sweep_validator_rewards_mirrors [mirrors]:
  "result_of (wasm_sweep_validator_rewards cr cd note_nonce k stake_key_hex scan utxos kb f) =
   result_of (sweep_validator_rewards cr cd note_nonce k stake_key_hex scan utxos kb f)"
  by (simp add: wasm_sweep_validator_rewards_def sweep_validator_rewards_def mirrors mirror_cases cong: mirror_congs)

lemma wasm_claim_genesis_mirrors [mirrors]:
  "result_of (wasm_claim_genesis cr cd sb) =
   result_of (claim_genesis cr cd sb)"
  by (simp add: wasm_claim_genesis_def claim_genesis_def mirrors mirror_cases cong: mirror_congs)

lemma wasm_parse_commitment_mirrors [mirrors]:
  "result_of (wasm_parse_commitment cr hex) =
   result_of (parse_commitment cr hex)"
  by (simp add: wasm_parse_commitment_def parse_commitment_def mirrors mirror_cases cong: mirror_congs)

lemma wasm_parse_mirrors [mirrors]:
  "result_of (wasm_parse cr msg hex) = commitment_from_hex cr hex" "result_of (wasm_parse_pubkey cr hex) = commitment_from_hex cr hex"
  "result_of (parse_hex cr hex) = commitment_from_hex cr hex"
  by (simp_all add: wasm_parse_def wasm_parse_pubkey_def parse_hex_def mirrors)

lemma wasm_parse_lists [mirrors]:
  "result_of (collect_calls (wasm_parse_pubkey cr) xs) = result_of (collect_calls (parse_hex cr) xs)"
  "result_of (collect_calls (wasm_parse_commitment cr) xs) = result_of (collect_calls (parse_commitment cr) xs)"
  "result_of (optional (wasm_parse cr msg) v) = result_of (optional (parse_hex cr) v)"
  "result_of (optional (collect_calls wasm_hex_to_32) w) = result_of (optional (collect_calls hex_to_32) w)"
  by (intro result_of_collect result_of_optional; simp add: mirrors)+

lemma wasm_reconcile_wallet_store_mirrors [mirrors]:
  "result_of (wasm_reconcile_wallet_store cr cd sb utxos) =
   result_of (reconcile_wallet_store cr cd sb utxos)"
  by (simp add: wasm_reconcile_wallet_store_def reconcile_wallet_store_def mirrors mirror_cases cong: mirror_congs)

lemma wasm_wallet_balance_mirrors [mirrors]:
  "result_of (wasm_wallet_balance cd sb) =
   result_of (wallet_balance cd sb)"
  by (simp add: wasm_wallet_balance_def wallet_balance_def mirrors mirror_cases cong: mirror_congs)

lemma wasm_wallet_pending_balance_mirrors [mirrors]:
  "result_of (wasm_wallet_pending_balance cd sb) =
   result_of (wallet_pending_balance cd sb)"
  by (simp add: wasm_wallet_pending_balance_def wallet_pending_balance_def mirrors mirror_cases cong: mirror_congs)

lemma wasm_planned_call_mirrors [mirrors]:
  "result_of (wasm_planned_call m) =
   result_of (planned_call m)"
  by (simp add: wasm_planned_call_def planned_call_def mirrors mirror_cases cong: mirror_congs)

lemma wasm_plan_send_mirrors [mirrors]:
  "result_of (wasm_plan_send cr cd treasury_var size_of rnd kb sb amount f) =
   result_of (plan_send_ffi cr cd treasury_var size_of rnd kb sb amount f)"
  by (simp add: wasm_plan_send_def plan_send_ffi_def mirrors mirror_cases cong: mirror_congs)

lemma wasm_mark_spent_hex_mirrors [mirrors]:
  "result_of (wasm_mark_spent_hex cr hexes store) = result_of (mark_spent_hex cr hexes store)"
  by (induction hexes arbitrary: store) (simp_all add: mirrors cong: mirror_congs)

lemma wasm_add_pending_hex_mirrors [mirrors]:
  "result_of (wasm_add_pending_hex cr out store) =
   result_of (add_pending_hex cr out store)"
  by (simp add: wasm_add_pending_hex_def add_pending_hex_def mirrors mirror_cases cong: mirror_congs)

lemma wasm_add_change_hex_mirrors [mirrors]:
  "result_of (wasm_add_change_hex cr change store) =
   result_of (add_change_hex cr change store)"
  by (simp add: wasm_add_change_hex_def add_change_hex_def mirrors mirror_cases cong: mirror_congs)

lemma wasm_commit_send_mirrors [mirrors]:
  "result_of (wasm_commit_send cr cd sb spent dest change) =
   result_of (commit_send cr cd sb spent dest change)"
  by (simp add: wasm_commit_send_def commit_send_def mirrors mirror_cases cong: mirror_congs)

lemma wasm_rotate_seed_transaction_mirrors [mirrors]:
  "result_of (wasm_rotate_seed_transaction cr cd treasury_var size_of rnd note_nonce k kb sb kb2 f) =
   result_of (rotate_seed_transaction cr cd treasury_var size_of rnd note_nonce k kb sb kb2 f)"
  by (simp add: wasm_rotate_seed_transaction_def rotate_seed_transaction_def mirrors mirror_cases cong: mirror_congs)

lemma wasm_create_send_slate_mirrors [mirrors]:
  "result_of (wasm_create_send_slate cr cd treasury_var size_of rnd kb sb amount f) =
   result_of (create_send_slate cr cd treasury_var size_of rnd kb sb amount f)"
  by (simp add: wasm_create_send_slate_def create_send_slate_def mirrors mirror_cases cong: mirror_congs)

lemma wasm_respond_to_slate_mirrors [mirrors]:
  "result_of (wasm_respond_to_slate cr cd note_nonce k kb slate_json) =
   result_of (ffi_respond_to_slate cr cd note_nonce k kb slate_json)"
  by (simp add: wasm_respond_to_slate_def ffi_respond_to_slate_def mirrors mirror_cases cong: mirror_congs)

lemma wasm_finalize_slate_mirrors [mirrors]:
  "result_of (wasm_finalize_slate cr cd pb slate_json) =
   result_of (ffi_finalize_slate cr cd pb slate_json)"
  by (simp add: wasm_finalize_slate_def ffi_finalize_slate_def mirrors mirror_cases cong: mirror_congs)

lemma wasm_pending_slate_reservation_mirrors [mirrors]:
  "result_of (wasm_pending_slate_reservation cr cd pb) =
   result_of (pending_slate_reservation cr cd pb)"
  by (simp add: wasm_pending_slate_reservation_def pending_slate_reservation_def mirrors mirror_cases cong: mirror_congs)

lemma wasm_commit_receive_mirrors [mirrors]:
  "result_of (wasm_commit_receive cr cd sb output) =
   result_of (commit_receive cr cd sb output)"
  by (simp add: wasm_commit_receive_def commit_receive_def mirrors mirror_cases cong: mirror_congs)

lemma wasm_commit_slate_send_mirrors [mirrors]:
  "result_of (wasm_commit_slate_send cr cd sb spent change) =
   result_of (commit_slate_send cr cd sb spent change)"
  by (simp add: wasm_commit_slate_send_def commit_slate_send_def mirrors mirror_cases cong: mirror_congs)

lemma wasm_largest_confirmed_mirrors [mirrors]:
  "result_of (wasm_largest_confirmed store min_value) =
   result_of (largest_confirmed store min_value)"
  by (simp add: wasm_largest_confirmed_def largest_confirmed_def mirrors mirror_cases cong: mirror_congs)

lemma wasm_build_stake_request_mirrors [mirrors]:
  "result_of (wasm_build_stake_request cr cd treasury_var k kb sb min_value) =
   result_of (build_stake_request cr cd treasury_var k kb sb min_value)"
  by (simp add: wasm_build_stake_request_def build_stake_request_def mirrors mirror_cases cong: mirror_congs)

lemma wasm_reveal_stake_blinding_hex_mirrors [mirrors]:
  "result_of (wasm_reveal_stake_blinding_hex cr cd treasury_var kb sb min_value) =
   result_of (reveal_stake_blinding_hex cr cd treasury_var kb sb min_value)"
  by (simp add: wasm_reveal_stake_blinding_hex_def reveal_stake_blinding_hex_def mirrors mirror_cases cong: mirror_congs)

lemma wasm_build_fee_payment_mirrors [mirrors]:
  "result_of (wasm_build_fee_payment cr treasury_var rnd store f ks) =
   result_of (build_fee_payment cr treasury_var rnd store f ks)"
  by (simp add: wasm_build_fee_payment_def build_fee_payment_def mirrors mirror_cases cong: mirror_congs)

lemma wasm_build_register_name_request_mirrors [mirrors]:
  "result_of (wasm_build_register_name_request cr cd treasury_var rnd k kb sb name f) =
   result_of (build_register_name_request cr cd treasury_var rnd k kb sb name f)"
  by (simp add: wasm_build_register_name_request_def build_register_name_request_def mirrors mirror_cases cong: mirror_congs)

lemma wasm_build_sponsored_register_name_request_mirrors [mirrors]:
  "result_of (wasm_build_sponsored_register_name_request cr cd k kb name) =
   result_of (build_sponsored_register_name_request cr cd k kb name)"
  by (simp add: wasm_build_sponsored_register_name_request_def build_sponsored_register_name_request_def mirrors mirror_cases cong: mirror_congs)

lemma wasm_commit_register_name_mirrors [mirrors]:
  "result_of (wasm_commit_register_name cr cd sb spent change) =
   result_of (commit_register_name cr cd sb spent change)"
  by (simp add: wasm_commit_register_name_def commit_register_name_def mirrors mirror_cases cong: mirror_congs)

lemma wasm_wallet_identity_pubkey_hex_mirrors [mirrors]:
  "result_of (wasm_wallet_identity_pubkey_hex cr cd kb) =
   result_of (wallet_identity_pubkey_hex cr cd kb)"
  by (simp add: wasm_wallet_identity_pubkey_hex_def wallet_identity_pubkey_hex_def mirrors mirror_cases cong: mirror_congs)

lemma wasm_sign_identity_message_mirrors [mirrors]:
  "result_of (wasm_sign_identity_message cr cd k kb message) =
   result_of (sign_identity_message cr cd k kb message)"
  by (simp add: wasm_sign_identity_message_def sign_identity_message_def mirrors mirror_cases cong: mirror_congs)

lemma wasm_verify_identity_signature_mirrors [mirrors]:
  "result_of (wasm_verify_identity_signature cr pubkey_hex message signature_hex) =
   result_of (verify_identity_signature cr pubkey_hex message signature_hex)"
  by (simp add: wasm_verify_identity_signature_def verify_identity_signature_def mirrors mirror_cases cong: mirror_congs)

lemma wasm_build_transfer_name_request_mirrors [mirrors]:
  "result_of (wasm_build_transfer_name_request cr cd k kb name new_owner_pubkey_hex new_resolves_to_hex) =
   result_of (build_transfer_name_request cr cd k kb name new_owner_pubkey_hex new_resolves_to_hex)"
  by (simp add: wasm_build_transfer_name_request_def build_transfer_name_request_def mirrors mirror_cases cong: mirror_congs)

lemma wasm_build_mint_asset_request_mirrors [mirrors]:
  "result_of (wasm_build_mint_asset_request cr cd treasury_var rnd k kb sb asset_id metadata f) =
   result_of (build_mint_asset_request cr cd treasury_var rnd k kb sb asset_id metadata f)"
  by (simp add: wasm_build_mint_asset_request_def build_mint_asset_request_def mirrors mirror_cases cong: mirror_congs)

lemma wasm_commit_mint_asset_mirrors [mirrors]:
  "result_of (wasm_commit_mint_asset cr cd sb spent change) =
   result_of (commit_mint_asset cr cd sb spent change)"
  by (simp add: wasm_commit_mint_asset_def commit_mint_asset_def mirrors mirror_cases cong: mirror_congs)

lemma wasm_build_transfer_asset_request_mirrors [mirrors]:
  "result_of (wasm_build_transfer_asset_request cr cd k kb asset_id new_owner_pubkey_hex req_hex royalty_hex) =
   result_of (build_transfer_asset_request cr cd k kb asset_id new_owner_pubkey_hex req_hex royalty_hex)"
  by (simp add: wasm_build_transfer_asset_request_def build_transfer_asset_request_def mirrors mirror_cases cong: mirror_congs)

lemma wasm_tx_kernel_excess_hex_mirrors [mirrors]:
  "result_of (wasm_tx_kernel_excess_hex cr cd transaction_json) =
   result_of (tx_kernel_excess_hex cr cd transaction_json)"
  by (simp add: wasm_tx_kernel_excess_hex_def tx_kernel_excess_hex_def mirrors mirror_cases cong: mirror_congs)

lemma wasm_build_create_listing_request_mirrors [mirrors]:
  "result_of (wasm_build_create_listing_request cr cd k kb asset_id price listed_at) =
   result_of (build_create_listing_request cr cd k kb asset_id price listed_at)"
  by (simp add: wasm_build_create_listing_request_def build_create_listing_request_def mirrors mirror_cases cong: mirror_congs)

lemma wasm_build_cancel_listing_request_mirrors [mirrors]:
  "result_of (wasm_build_cancel_listing_request cr cd k kb asset_id) =
   result_of (build_cancel_listing_request cr cd k kb asset_id)"
  by (simp add: wasm_build_cancel_listing_request_def build_cancel_listing_request_def mirrors mirror_cases cong: mirror_congs)

lemma wasm_build_launch_collection_request_mirrors [mirrors]:
  "result_of (wasm_build_launch_collection_request cr cd phase_bytes k kb collection_id name symbol metadata phases_json royalty_bps) =
   result_of (build_launch_collection_request cr cd phase_bytes k kb collection_id name symbol metadata phases_json royalty_bps)"
  by (simp add: wasm_build_launch_collection_request_def build_launch_collection_request_def mirrors mirror_cases cong: mirror_congs)

lemma wasm_build_collection_mint_asset_request_mirrors [mirrors]:
  "result_of (wasm_build_collection_mint_asset_request cr cd treasury_var rnd k kb sb asset_id metadata f collection_id phase_index proofs_hex leaf_index req_hex) =
   result_of (build_collection_mint_asset_request cr cd treasury_var rnd k kb sb asset_id metadata f collection_id phase_index proofs_hex leaf_index req_hex)"
  by (simp add: wasm_build_collection_mint_asset_request_def build_collection_mint_asset_request_def mirrors mirror_cases cong: mirror_congs)

lemma wasm_attach_creator_signature_to_mint_mirrors [mirrors]:
  "result_of (wasm_attach_creator_signature_to_mint cr cd op_json creator_signature_hex) =
   result_of (attach_creator_signature_to_mint cr cd op_json creator_signature_hex)"
  by (simp add: wasm_attach_creator_signature_to_mint_def attach_creator_signature_to_mint_def mirrors mirror_cases cong: mirror_congs)

lemma wasm_sign_collection_mint_approval_mirrors [mirrors]:
  "result_of (wasm_sign_collection_mint_approval cr cd k kb asset_id collection_id phase_index req_hex owner_pubkey_hex) =
   result_of (sign_collection_mint_approval cr cd k kb asset_id collection_id phase_index req_hex owner_pubkey_hex)"
  by (simp add: wasm_sign_collection_mint_approval_def sign_collection_mint_approval_def mirrors mirror_cases cong: mirror_congs)

lemma wasm_compute_allowlist_merkle_proof_mirrors [mirrors]:
  "result_of (wasm_compute_allowlist_merkle_proof cr pubkeys_hex target_pubkey_hex) =
   result_of (compute_allowlist_merkle_proof cr pubkeys_hex target_pubkey_hex)"
  by (simp add: wasm_compute_allowlist_merkle_proof_def compute_allowlist_merkle_proof_def mirrors mirror_cases cong: mirror_congs)

lemma wasm_sign_allowlist_publish_mirrors [mirrors]:
  "result_of (wasm_sign_allowlist_publish cr cd k kb collection_id phase_index pubkeys_hex published_at) =
   result_of (sign_allowlist_publish cr cd k kb collection_id phase_index pubkeys_hex published_at)"
  by (simp add: wasm_sign_allowlist_publish_def sign_allowlist_publish_def mirrors mirror_cases cong: mirror_congs)

text \<open>C24. The browser and the mobile bindings are one wallet: for every blob, text and nonce, each call of the web wallet
  panics, fails or returns exactly when the mobile call of the same name does, and returns the same value:
  the same transaction or request, the same keystore and store, the same reservation.\<close>

theorem browser_equals_mobile:
  "wasm_generate_keystore cd seed = generate_keystore cd seed \<and>
   wasm_generate_keystore_with_mnemonic cd phrase_of bip39_seed entropy = generate_keystore_with_mnemonic cd phrase_of bip39_seed entropy \<and>
   wasm_wallet_store_new cd = wallet_store_new cd \<and>
   result_of (wasm_restore_keystore_from_mnemonic cd bip39_seed phrase) = result_of (restore_keystore_from_mnemonic cd bip39_seed phrase) \<and>
   result_of (wasm_recover_wallet_from_chain cr cd kb scan utxos) = result_of (recover_wallet_from_chain cr cd kb scan utxos) \<and>
   result_of (wasm_sweep_validator_rewards cr cd note_nonce k stake_key_hex scan utxos kb f) =
      result_of (sweep_validator_rewards cr cd note_nonce k stake_key_hex scan utxos kb f) \<and>
   result_of (wasm_claim_genesis cr cd sb) = result_of (claim_genesis cr cd sb) \<and>
   result_of (wasm_reconcile_wallet_store cr cd sb utxos) = result_of (reconcile_wallet_store cr cd sb utxos) \<and>
   result_of (wasm_wallet_balance cd sb) = result_of (wallet_balance cd sb) \<and>
   result_of (wasm_wallet_pending_balance cd sb) = result_of (wallet_pending_balance cd sb) \<and>
   result_of (wasm_plan_send cr cd treasury_var size_of rnd kb sb amount f) =
      result_of (plan_send_ffi cr cd treasury_var size_of rnd kb sb amount f) \<and>
   result_of (wasm_commit_send cr cd sb spent dest change) = result_of (commit_send cr cd sb spent dest change) \<and>
   result_of (wasm_rotate_seed_transaction cr cd treasury_var size_of slate_rnd note_nonce k kb sb kb2 f) =
      result_of (rotate_seed_transaction cr cd treasury_var size_of slate_rnd note_nonce k kb sb kb2 f) \<and>
   result_of (wasm_create_send_slate cr cd treasury_var size_of slate_rnd kb sb amount f) =
      result_of (create_send_slate cr cd treasury_var size_of slate_rnd kb sb amount f) \<and>
   result_of (wasm_respond_to_slate cr cd note_nonce k kb slate_json) = result_of (ffi_respond_to_slate cr cd note_nonce k kb slate_json) \<and>
   result_of (wasm_finalize_slate cr cd pb slate_json) = result_of (ffi_finalize_slate cr cd pb slate_json) \<and>
   result_of (wasm_pending_slate_reservation cr cd pb) = result_of (pending_slate_reservation cr cd pb) \<and>
   result_of (wasm_commit_receive cr cd sb output) = result_of (commit_receive cr cd sb output) \<and>
   result_of (wasm_commit_slate_send cr cd sb spent change) = result_of (commit_slate_send cr cd sb spent change) \<and>
   result_of (wasm_build_stake_request cr cd treasury_var k kb sb min_value) =
      result_of (build_stake_request cr cd treasury_var k kb sb min_value) \<and>
   result_of (wasm_reveal_stake_blinding_hex cr cd treasury_var kb sb min_value) =
      result_of (reveal_stake_blinding_hex cr cd treasury_var kb sb min_value) \<and>
   result_of (wasm_build_register_name_request cr cd treasury_var fee_rnd k kb sb name f) =
      result_of (build_register_name_request cr cd treasury_var fee_rnd k kb sb name f) \<and>
   result_of (wasm_build_sponsored_register_name_request cr cd k kb name) =
      result_of (build_sponsored_register_name_request cr cd k kb name) \<and>
   result_of (wasm_commit_register_name cr cd sb spent change) = result_of (commit_register_name cr cd sb spent change) \<and>
   result_of (wasm_wallet_identity_pubkey_hex cr cd kb) = result_of (wallet_identity_pubkey_hex cr cd kb) \<and>
   result_of (wasm_sign_identity_message cr cd k kb message) = result_of (sign_identity_message cr cd k kb message) \<and>
   result_of (wasm_verify_identity_signature cr pubkey_hex message signature_hex) =
      result_of (verify_identity_signature cr pubkey_hex message signature_hex) \<and>
   result_of (wasm_build_transfer_name_request cr cd k kb name new_owner_pubkey_hex new_resolves_to_hex) =
      result_of (build_transfer_name_request cr cd k kb name new_owner_pubkey_hex new_resolves_to_hex) \<and>
   result_of (wasm_build_mint_asset_request cr cd treasury_var fee_rnd k kb sb asset_id metadata f) =
      result_of (build_mint_asset_request cr cd treasury_var fee_rnd k kb sb asset_id metadata f) \<and>
   result_of (wasm_commit_mint_asset cr cd sb spent change) = result_of (commit_mint_asset cr cd sb spent change) \<and>
   result_of (wasm_build_transfer_asset_request cr cd k kb asset_id new_owner_pubkey_hex req_hex royalty_hex) =
      result_of (build_transfer_asset_request cr cd k kb asset_id new_owner_pubkey_hex req_hex royalty_hex) \<and>
   result_of (wasm_tx_kernel_excess_hex cr cd transaction_json) = result_of (tx_kernel_excess_hex cr cd transaction_json) \<and>
   result_of (wasm_build_create_listing_request cr cd k kb asset_id price listed_at) =
      result_of (build_create_listing_request cr cd k kb asset_id price listed_at) \<and>
   result_of (wasm_build_cancel_listing_request cr cd k kb asset_id) = result_of (build_cancel_listing_request cr cd k kb asset_id) \<and>
   result_of (wasm_build_launch_collection_request cr cd phase_bytes k kb collection_id name symbol metadata phases_json royalty_bps) =
      result_of (build_launch_collection_request cr cd phase_bytes k kb collection_id name symbol metadata phases_json royalty_bps) \<and>
   result_of (wasm_build_collection_mint_asset_request cr cd treasury_var fee_rnd k kb sb asset_id metadata f collection_id phase_index proofs_hex leaf_index req_hex) =
      result_of (build_collection_mint_asset_request cr cd treasury_var fee_rnd k kb sb asset_id metadata f collection_id phase_index proofs_hex leaf_index req_hex) \<and>
   result_of (wasm_attach_creator_signature_to_mint cr cd op_json creator_signature_hex) =
      result_of (attach_creator_signature_to_mint cr cd op_json creator_signature_hex) \<and>
   result_of (wasm_sign_collection_mint_approval cr cd k kb asset_id collection_id phase_index kernel_hex owner_pubkey_hex) =
      result_of (sign_collection_mint_approval cr cd k kb asset_id collection_id phase_index kernel_hex owner_pubkey_hex) \<and>
   result_of (wasm_compute_allowlist_merkle_proof cr pubkeys_hex target_pubkey_hex) =
      result_of (compute_allowlist_merkle_proof cr pubkeys_hex target_pubkey_hex) \<and>
   result_of (wasm_sign_allowlist_publish cr cd k kb collection_id phase_index pubkeys_hex published_at) =
      result_of (sign_allowlist_publish cr cd k kb collection_id phase_index pubkeys_hex published_at)"
  by (simp only: mirrors simp_thms)

end
