(* ===== verification/Cli.thy ===== *)
theory Cli
  imports Bindings Inbox
begin

text \<open>
  The command line wallet of \<open>wallet/src/cli.rs\<close> and the files it keeps its keystore, its ledger and its pending slate
  in (\<open>keystore.rs\<close>, \<open>store.rs\<close>, \<open>slate.rs\<close>). A command runs on a \<open>terminal\<close>: the disk, the node it talks to and what
  it has printed. It ends with a value, with an error of the file system, or in a panic, and in all three
  cases leaves a terminal behind. What the operating system allows (\<open>tm_readable\<close>, \<open>tm_writable\<close>) is part of the state; a
  file is written at once or not at all. The node is a parameter (\<open>node_client\<close>), for which \<open>haze_client\<close> puts the
  handlers of theory \<open>Api\<close>. Files hold the blobs of \<open>ffi_codec\<close>, the JSON of a slate among them.
\<close>

section \<open>Terminals and commands\<close>

datatype io_error = CannotRead string | CannotWrite string | InvalidData

text \<open>What a request brings back: no connection, a refusal or an unreadable answer, or an answer.\<close>

datatype 'a answer = Unreachable string | Refused string | Answered 'a

record ('p, 's, 'n) node_client =
  nc_utxos :: "u16 \<Rightarrow> 'n \<Rightarrow> 'p commitment list answer \<times> 'n"
  nc_transaction :: "u16 \<Rightarrow> ('p, 's) transaction \<Rightarrow> 'n \<Rightarrow> unit answer \<times> 'n"
  nc_stake :: "u16 \<Rightarrow> ('p, 's) stake_request \<Rightarrow> 'n \<Rightarrow> unit answer \<times> 'n"

record ('b, 'n) terminal =
  tm_dir :: bool
  tm_files :: "string \<Rightarrow> 'b option"
  tm_readable :: "string \<Rightarrow> bool"
  tm_writable :: "string \<Rightarrow> bool"
  tm_node :: 'n
  tm_output :: "string list"

type_synonym ('b, 'n, 'a) command = "('b, 'n) terminal \<Rightarrow> (io_error, 'a) call \<times> ('b, 'n) terminal"

definition finish :: "'a \<Rightarrow> ('b, 'n, 'a) command" where
  "finish x t = (ok x, t)"

definition and_then :: "('b, 'n, 'a) command \<Rightarrow> ('a \<Rightarrow> ('b, 'n, 'c) command) \<Rightarrow> ('b, 'n, 'c) command" where
  "and_then m f t =
     (case m t of
        (Ret (Inr x), t) \<Rightarrow> f x t
      | (Ret (Inl e), t) \<Rightarrow> (err e, t)
      | (Panic, t) \<Rightarrow> (Panic, t))"

definition println :: "string \<Rightarrow> ('b, 'n, unit) command" where
  "println line t = (ok (), t\<lparr>tm_output := tm_output t @ [line]\<rparr>)"

definition request :: "('n \<Rightarrow> 'a answer \<times> 'n) \<Rightarrow> ('b, 'n, 'a answer) command" where
  "request f t = (let (r, n) = f (tm_node t) in (ok r, t\<lparr>tm_node := n\<rparr>))"

definition local_url :: "u16 \<Rightarrow> string \<Rightarrow> string" where
  "local_url rpc_port path = ''http://127.0.0.1:'' @ decimal (unat rpc_port) @ path"


section \<open>The wallet's files\<close>

definition WALLET_DIR :: string where "WALLET_DIR = ''wallet_data''"

definition KEYSTORE_FILE :: string where "KEYSTORE_FILE = ''wallet_data/keystore.dat''"

definition STORE_FILE :: string where "STORE_FILE = ''wallet_data/utxos.dat''"

definition PENDING_SLATE_FILE :: string where "PENDING_SLATE_FILE = ''wallet_data/pending_slate.dat''"

definition in_wallet_dir :: "string \<Rightarrow> bool" where
  "in_wallet_dir path \<longleftrightarrow> take (length WALLET_DIR + 1) path = WALLET_DIR @ ''/''"

definition ensure_wallet_dir :: "('b, 'n, unit) command" where
  "ensure_wallet_dir t =
     (if tm_dir t then (ok (), t)
      else if tm_writable t WALLET_DIR then (ok (), t\<lparr>tm_dir := True\<rparr>)
      else (Panic, t))"

definition read_file :: "string \<Rightarrow> ('b, 'n) terminal \<Rightarrow> 'b option" where
  "read_file path t = (if tm_readable t path then tm_files t path else None)"

definition write_file :: "string \<Rightarrow> 'b \<Rightarrow> ('b, 'n) terminal \<Rightarrow> ('b, 'n) terminal option" where
  "write_file path contents t =
     (if tm_writable t path \<and> (in_wallet_dir path \<longrightarrow> tm_dir t)
      then Some (t\<lparr>tm_files := (tm_files t)(path \<mapsto> contents)\<rparr>) else None)"

text \<open>\<open>File::create(path).unwrap()\<close> followed by \<open>write_all(..).unwrap()\<close>.\<close>

definition save_file :: "string \<Rightarrow> 'b \<Rightarrow> ('b, 'n, unit) command" where
  "save_file path contents t = (case write_file path contents t of None \<Rightarrow> (Panic, t) | Some t' \<Rightarrow> (ok (), t'))"

definition keystore_save_to_file :: "('p, 's, 'b, 'b) ffi_codec \<Rightarrow> keystore \<Rightarrow> ('b, 'n, unit) command" where
  "keystore_save_to_file cd ks =
     and_then ensure_wallet_dir (\<lambda>_. save_file KEYSTORE_FILE (keystore_to_bytes cd ks))"

text \<open>\<open>seed\<close> is what \<open>Keystore::generate\<close> draws when it is called.\<close>

definition keystore_load_or_create :: "('p, 's, 'b, 'b) ffi_codec \<Rightarrow> byte list \<Rightarrow> ('b, 'n, keystore) command" where
  "keystore_load_or_create cd seed =
     and_then ensure_wallet_dir (\<lambda>_ t.
       case Option.bind (read_file KEYSTORE_FILE t) (keystore_from_bytes cd) of
         Some ks \<Rightarrow> (ok ks, t)
       | None \<Rightarrow>
           let ks = keystore_from_seed seed
           in and_then (keystore_save_to_file cd ks) (\<lambda>_. finish ks) t)"

definition store_load_or_create :: "('p, 's, 'b, 'b) ffi_codec \<Rightarrow> ('b, 'n, 'p wallet_store) command" where
  "store_load_or_create cd =
     and_then ensure_wallet_dir (\<lambda>_ t.
       case Option.bind (read_file STORE_FILE t) (store_from_bytes cd) of
         Some store \<Rightarrow> (ok store, t)
       | None \<Rightarrow> (ok [], t))"

definition store_save :: "('p, 's, 'b, 'b) ffi_codec \<Rightarrow> 'p wallet_store \<Rightarrow> ('b, 'n, unit) command" where
  "store_save cd store = save_file STORE_FILE (store_to_bytes cd store)"

definition pending_slate_save :: "('p, 's, 'b, 'b) ffi_codec \<Rightarrow> ('p, 's) pending_slate \<Rightarrow> ('b, 'n, unit) command" where
  "pending_slate_save cd pending =
     and_then ensure_wallet_dir (\<lambda>_ t.
       case pending_to_bytes cd pending of
         None \<Rightarrow> (Panic, t)
       | Some encoded \<Rightarrow> save_file PENDING_SLATE_FILE encoded t)"

definition pending_slate_load :: "('p, 's, 'b, 'b) ffi_codec \<Rightarrow> ('b, 'n, ('p, 's) pending_slate option) command" where
  "pending_slate_load cd t = (ok (Option.bind (read_file PENDING_SLATE_FILE t) (pending_from_bytes cd)), t)"

definition pending_slate_delete :: "('b, 'n, unit) command" where
  "pending_slate_delete t =
     (ok (), if tm_writable t PENDING_SLATE_FILE then t\<lparr>tm_files := (tm_files t)(PENDING_SLATE_FILE := None)\<rparr> else t)"

definition read_slate :: "('p, 's, 'b, 'b) ffi_codec \<Rightarrow> string \<Rightarrow> ('b, 'n, ('p, 's) slate) command" where
  "read_slate cd path t =
     (case read_file path t of
        None \<Rightarrow> (err (CannotRead path), t)
      | Some contents \<Rightarrow> (require (slate_from_json cd contents) InvalidData, t))"

definition write_slate :: "('p, 's, 'b, 'b) ffi_codec \<Rightarrow> string \<Rightarrow> ('p, 's) slate \<Rightarrow> ('b, 'n, unit) command" where
  "write_slate cd path sl t =
     (case slate_to_json cd sl of
        None \<Rightarrow> (err InvalidData, t)
      | Some json \<Rightarrow> (case write_file path json t of None \<Rightarrow> (err (CannotWrite path), t) | Some t' \<Rightarrow> (ok (), t')))"


section \<open>The commands\<close>

definition CLI_FEE :: u64 where "CLI_FEE = 5"

definition wallet_init ::
    "('p::ab_group_add, 's::comm_ring_1) crypto \<Rightarrow> ('p, 's, 'b, 'b) ffi_codec \<Rightarrow> byte list \<Rightarrow> bool \<Rightarrow> ('b, 'n, unit) command" where
  "wallet_init cr cd seed claim =
     and_then (keystore_load_or_create cd seed) (\<lambda>_.
     and_then (store_load_or_create cd) (\<lambda>store.
     and_then (println ''Wallet keystore ready in wallet_data/'') (\<lambda>_.
     if claim
     then if has_index store GENESIS_INDEX
          then println ''Genesis output already claimed by this wallet.''
          else
            and_then (store_save cd (add_output GENESIS_INDEX 1000000 (commitment_new cr 1000000 (scalar_of_u64 42)) Confirmed store)) (\<lambda>_.
            and_then (println ''Claimed well-known devnet genesis output (value=1,000,000).'') (\<lambda>_.
            println ''Note: this is a shared, publicly-known devnet secret (blinding=42) - only one wallet instance should spend it.''))
     else finish ())))"

definition reconcile_with_node ::
    "('p, 's, 'n) node_client \<Rightarrow> ('p, 's, 'b, 'b) ffi_codec \<Rightarrow> u16 \<Rightarrow> 'p wallet_store \<Rightarrow> ('b, 'n, 'p wallet_store) command" where
  "reconcile_with_node nc cd rpc_port store =
     and_then (request (nc_utxos nc rpc_port)) (\<lambda>r.
       case r of
         Answered utxos \<Rightarrow>
           let store = reconcile (set utxos) store
           in and_then (store_save cd store) (\<lambda>_. finish store)
       | Refused e \<Rightarrow>
           and_then (println (''Warning: failed to parse node UTXO set response: '' @ e)) (\<lambda>_. finish store)
       | Unreachable e \<Rightarrow>
           and_then (println (''Warning: failed to reach node at '' @ local_url rpc_port ''/v1/utxos'' @
             '' to reconcile UTXOs: '' @ e)) (\<lambda>_. finish store))"

definition wallet_show_balance ::
    "('p, 's, 'n) node_client \<Rightarrow> ('p, 's, 'b, 'b) ffi_codec \<Rightarrow> u16 \<Rightarrow> ('b, 'n, unit) command" where
  "wallet_show_balance nc cd rpc_port =
     and_then (store_load_or_create cd) (\<lambda>store.
     and_then (reconcile_with_node nc cd rpc_port store) (\<lambda>store.
     and_then (println (''Confirmed balance: '' @ decimal (unat (balance store)))) (\<lambda>_.
     println (''Pending balance:   '' @ decimal (unat (pending_balance store))))))"

definition insufficient_line :: "plan_error \<Rightarrow> u64 \<Rightarrow> string" where
  "insufficient_line e amount =
     ''Error: insufficient confirmed balance. Have '' @ decimal (unat (pe_have e)) @ '', need '' @ decimal (unat (pe_need e)) @
     '' (amount '' @ decimal (unat amount) @ '' + fee '' @ decimal (unat CLI_FEE) @ '').''"

text \<open>Planning works in memory only, and may panic.\<close>

definition planning :: "(keystore \<times> 'a) outcome \<Rightarrow> ('b, 'n, keystore \<times> 'a) command" where
  "planning m t = (case m of Panic \<Rightarrow> (Panic, t) | Ret r \<Rightarrow> (ok r, t))"

text \<open>Posting a transaction, the same in \<open>send\<close> and \<open>complete\<close>: validate, submit, and on success run \<open>settled\<close>.\<close>

definition broadcast ::
    "('p::ab_group_add, 's::comm_ring_1) crypto \<Rightarrow> ('p, 's, 'n) node_client \<Rightarrow> u16 \<Rightarrow> ('p, 's) transaction \<Rightarrow>
       ('b, 'n, unit) command \<Rightarrow> ('b, 'n, unit) command" where
  "broadcast cr nc rpc_port tx settled =
     and_then (println ''Transaction constructed! Validating locally...'') (\<lambda>_.
     if \<not> validate cr tx then println ''Error: Constructed transaction failed local validation!''
     else
     and_then (println (''Submitting to '' @ local_url rpc_port ''/v1/transactions'' @ '' via JSON-RPC...'')) (\<lambda>_.
     and_then (request (nc_transaction nc rpc_port tx)) (\<lambda>r.
       case r of
         Answered _ \<Rightarrow> and_then (println ''Transaction successfully broadcasted to the network!'') (\<lambda>_. settled)
       | Refused e \<Rightarrow> println (''Node rejected transaction: '' @ e)
       | Unreachable e \<Rightarrow> println (''Failed to connect to the node. Is it running? Error: '' @ e))))"

text \<open>The first half of \<open>send\<close>, up to the request: the plan and the reconciled ledger, or \<open>None\<close> when funds are short.\<close>

definition send_prepare ::
    "('p::ab_group_add, 's::comm_ring_1) crypto \<Rightarrow> ('p, 's, 'n) node_client \<Rightarrow> ('p, 's, 'b, 'b) ffi_codec \<Rightarrow> string option \<Rightarrow>
       (('p, 's) transaction \<Rightarrow> u64 option) \<Rightarrow> byte list \<Rightarrow> (nat \<Rightarrow> 's send_random) \<Rightarrow> u64 \<Rightarrow> u16 \<Rightarrow>
       ('b, 'n, (('p, 's) send_plan \<times> 'p wallet_store) option) command" where
  "send_prepare cr nc cd treasury_var size_of seed rnd amount rpc_port =
     and_then (keystore_load_or_create cd seed) (\<lambda>ks.
     and_then (store_load_or_create cd) (\<lambda>store.
     and_then (reconcile_with_node nc cd rpc_port store) (\<lambda>store.
     and_then (planning (plan_send cr treasury_var size_of rnd store amount CLI_FEE ks)) (\<lambda>(ks, r).
     case r of
       Inl e \<Rightarrow> and_then (println (insufficient_line e amount)) (\<lambda>_. finish None)
     | Inr plan \<Rightarrow> and_then (keystore_save_to_file cd ks) (\<lambda>_. finish (Some (plan, store)))))))"

definition plan_settled :: "('p, 's) send_plan \<Rightarrow> 'p wallet_store \<Rightarrow> 'p wallet_store" where
  "plan_settled plan store =
     (let store = fold mark_spent (sp_spent_commitments plan) store;
          store = (case sp_dest plan of (dest_index, dest_commitment, dest_value) \<Rightarrow>
            add_output dest_index dest_value dest_commitment Pending store)
      in case sp_change plan of
           None \<Rightarrow> store
         | Some (change_index, change_commitment, change_value) \<Rightarrow>
             add_output change_index change_value change_commitment Pending store)"

definition wallet_send ::
    "('p::ab_group_add, 's::comm_ring_1) crypto \<Rightarrow> ('p, 's, 'n) node_client \<Rightarrow> ('p, 's, 'b, 'b) ffi_codec \<Rightarrow> string option \<Rightarrow>
       (('p, 's) transaction \<Rightarrow> u64 option) \<Rightarrow> byte list \<Rightarrow> (nat \<Rightarrow> 's send_random) \<Rightarrow> u64 \<Rightarrow> u16 \<Rightarrow> ('b, 'n, unit) command" where
  "wallet_send cr nc cd treasury_var size_of seed rnd amount rpc_port =
     and_then (send_prepare cr nc cd treasury_var size_of seed rnd amount rpc_port) (\<lambda>p.
     case p of
       None \<Rightarrow> finish ()
     | Some (plan, store) \<Rightarrow>
         broadcast cr nc rpc_port (sp_transaction plan) (store_save cd (plan_settled plan store)))"

text \<open>The first half of \<open>pay\<close>, up to the point where the keystore with the new index is on disk.\<close>

definition pay_prepare ::
    "('p::ab_group_add, 's::comm_ring_1) crypto \<Rightarrow> ('p, 's, 'n) node_client \<Rightarrow> ('p, 's, 'b, 'b) ffi_codec \<Rightarrow> string option \<Rightarrow>
       (('p, 's) transaction \<Rightarrow> u64 option) \<Rightarrow> byte list \<Rightarrow> (nat \<Rightarrow> 's slate_random) \<Rightarrow> u64 \<Rightarrow> u16 \<Rightarrow>
       ('b, 'n, (('p, 's) slate \<times> ('p, 's) pending_slate) option) command" where
  "pay_prepare cr nc cd treasury_var size_of seed rnd amount rpc_port =
     and_then (keystore_load_or_create cd seed) (\<lambda>ks.
     and_then (store_load_or_create cd) (\<lambda>store.
     and_then (reconcile_with_node nc cd rpc_port store) (\<lambda>store.
     and_then (planning (create_slate cr treasury_var size_of rnd store amount CLI_FEE ks)) (\<lambda>(ks, r).
     case r of
       Inl e \<Rightarrow> and_then (println (insufficient_line e amount)) (\<lambda>_. finish None)
     | Inr built \<Rightarrow> and_then (keystore_save_to_file cd ks) (\<lambda>_. finish (Some built))))))"

definition wallet_pay ::
    "('p::ab_group_add, 's::comm_ring_1) crypto \<Rightarrow> ('p, 's, 'n) node_client \<Rightarrow> ('p, 's, 'b, 'b) ffi_codec \<Rightarrow> string option \<Rightarrow>
       (('p, 's) transaction \<Rightarrow> u64 option) \<Rightarrow> byte list \<Rightarrow> (nat \<Rightarrow> 's slate_random) \<Rightarrow> u64 \<Rightarrow> string \<Rightarrow> u16 \<Rightarrow>
       ('b, 'n, unit) command" where
  "wallet_pay cr nc cd treasury_var size_of seed rnd amount slate_out rpc_port =
     and_then (pay_prepare cr nc cd treasury_var size_of seed rnd amount rpc_port) (\<lambda>p.
     case p of
       None \<Rightarrow> finish ()
     | Some (built_slate, pending) \<Rightarrow>
         and_then (pending_slate_save cd pending) (\<lambda>_.
         and_then (write_slate cd slate_out built_slate) (\<lambda>_.
         and_then (println (''Slate written to '' @ slate_out @ ''. Send this file to the recipient.'')) (\<lambda>_.
         println ''Once they respond, run `haze complete --slate-in <their response file>` to finish and broadcast.''))))"

text \<open>The first half of \<open>receive\<close>, up to the same point: the slate read, the response, the new output and the ledger.\<close>

definition receive_prepare ::
    "('p::ab_group_add, 's::comm_ring_1) crypto \<Rightarrow> ('p, 's, 'b, 'b) ffi_codec \<Rightarrow> byte list \<Rightarrow> byte list \<Rightarrow> 's \<Rightarrow> string \<Rightarrow>
       ('b, 'n, ('p, 's) slate \<times> ('p, 's) slate \<times> 'p owned_output_info \<times> 'p wallet_store) command" where
  "receive_prepare cr cd seed note_nonce k slate_in =
     and_then (keystore_load_or_create cd seed) (\<lambda>ks.
     and_then (store_load_or_create cd) (\<lambda>store.
     and_then (read_slate cd slate_in) (\<lambda>incoming.
     let (ks, response, owned) = respond_to_slate cr note_nonce k incoming ks in
     and_then (keystore_save_to_file cd ks) (\<lambda>_. finish (incoming, response, owned, store)))))"

definition wallet_receive ::
    "('p::ab_group_add, 's::comm_ring_1) crypto \<Rightarrow> ('p, 's, 'b, 'b) ffi_codec \<Rightarrow> byte list \<Rightarrow> byte list \<Rightarrow> 's \<Rightarrow> string \<Rightarrow> string \<Rightarrow>
       ('b, 'n, unit) command" where
  "wallet_receive cr cd seed note_nonce k slate_in slate_out =
     and_then (receive_prepare cr cd seed note_nonce k slate_in) (\<lambda>(incoming, response, owned, store).
     and_then (store_save cd (add_output (oi_index owned) (oi_value owned) (oi_commitment owned) Pending store)) (\<lambda>_.
     and_then (write_slate cd slate_out response) (\<lambda>_.
     and_then (println (''Received '' @ decimal (unat (sl_amount incoming)) @ '' units. Response written to '' @ slate_out @ ''.'')) (\<lambda>_.
     println ''Send this file back to the sender to complete the payment.''))))"

definition pending_settled :: "('p, 's) pending_slate \<Rightarrow> 'p wallet_store \<Rightarrow> 'p wallet_store" where
  "pending_settled pending store =
     (let store = fold mark_spent (ps_spent_commitments pending) store
      in case ps_change pending of
           None \<Rightarrow> store
         | Some c \<Rightarrow> add_output (ci_index c) (ci_value c) (out_commitment (ci_output c)) Pending store)"

definition wallet_complete ::
    "('p::ab_group_add, 's::comm_ring_1) crypto \<Rightarrow> ('p, 's, 'n) node_client \<Rightarrow> ('p, 's, 'b, 'b) ffi_codec \<Rightarrow> string \<Rightarrow> u16 \<Rightarrow>
       ('b, 'n, unit) command" where
  "wallet_complete cr nc cd slate_in rpc_port =
     and_then (pending_slate_load cd) (\<lambda>p.
     case p of
       None \<Rightarrow> println ''Error: no pending slate found. Run `haze pay` first.''
     | Some pending \<Rightarrow>
         and_then (read_slate cd slate_in) (\<lambda>response.
         case finalize_slate cr pending response of
           Inl _ \<Rightarrow> println ''Error: the response slate is incomplete - has the recipient run `haze receive` on it?''
         | Inr transaction \<Rightarrow>
             broadcast cr nc rpc_port transaction
               (and_then (store_load_or_create cd) (\<lambda>store.
                and_then (store_save cd (pending_settled pending store)) (\<lambda>_.
                pending_slate_delete)))))"

text \<open>\<open>k\<close> is the nonce of the proof.\<close>

definition wallet_stake ::
    "('p::ab_group_add, 's::comm_ring_1) crypto \<Rightarrow> ('p, 's, 'n) node_client \<Rightarrow> 's \<Rightarrow> u64 \<Rightarrow> u64 \<Rightarrow> u16 \<Rightarrow> ('b, 'n, unit) command" where
  "wallet_stake cr nc k stake_value blinding rpc_port =
     and_then (println (''Registering validator stake: value='' @ decimal (unat stake_value) @ ''...'')) (\<lambda>_.
     let blinding_scalar = scalar_of_u64 blinding;
         c = commitment_new cr stake_value blinding_scalar;
         payload = \<lparr>sr_commitment = c, sr_value = stake_value,
           sr_proof = sign cr k (stake_registration_message cr c stake_value) blinding_scalar\<rparr>
     in and_then (request (nc_stake nc rpc_port payload)) (\<lambda>r.
        case r of
          Answered _ \<Rightarrow> println ''Stake successfully registered on node and propagated to peers!''
        | Refused e \<Rightarrow> println (''Validator registration rejected: '' @ e)
        | Unreachable e \<Rightarrow> println (''Failed to connect to node API. Is the node running? Error: '' @ e)))"

text \<open>The node of theory \<open>Api\<close> as the client of the wallet sees it; \<open>refusal\<close> is the text of an error response.\<close>

definition haze_client ::
    "('p::ab_group_add, 's::comm_ring_1) crypto \<Rightarrow> ('p, 's) wire \<Rightarrow> 'p io \<Rightarrow> 'p commitment list \<Rightarrow> string \<Rightarrow>
       ('p, 's, ('p, 's) p2p_server) node_client" where
  "haze_client cr wi io order refusal =
     (let post = (\<lambda>(nd, effs, r). (if is_json r then Answered () else Refused refusal, nd))
      in \<lparr>nc_utxos = (\<lambda>_ nd. (case handle_list_utxos order (nd_chain nd) of Json utxos \<Rightarrow> Answered utxos | _ \<Rightarrow> Refused refusal, nd)),
          nc_transaction = (\<lambda>_ tx nd. post (handle_submit_transaction cr wi io tx nd)),
          nc_stake = (\<lambda>_ req nd. post (handle_register_validator cr req nd))\<rparr>)"

section \<open>What a command finds on disk\<close>

definition saved_keystore :: "('p, 's, 'b, 'b) ffi_codec \<Rightarrow> ('b, 'n) terminal \<Rightarrow> keystore option" where
  "saved_keystore cd t = Option.bind (read_file KEYSTORE_FILE t) (keystore_from_bytes cd)"

definition saved_store :: "('p, 's, 'b, 'b) ffi_codec \<Rightarrow> ('b, 'n) terminal \<Rightarrow> 'p wallet_store option" where
  "saved_store cd t = Option.bind (read_file STORE_FILE t) (store_from_bytes cd)"

text \<open>The wallet's directory exists and its three files may be read and written.\<close>

definition wallet_files :: "string set" where
  "wallet_files = {KEYSTORE_FILE, STORE_FILE, PENDING_SLATE_FILE}"

definition wallet_ready :: "('b, 'n) terminal \<Rightarrow> bool" where
  "wallet_ready t \<longleftrightarrow> tm_dir t \<and> (\<forall>path \<in> wallet_files. tm_readable t path \<and> tm_writable t path)"

lemma files_distinct [simp]:
  "KEYSTORE_FILE \<noteq> STORE_FILE" "STORE_FILE \<noteq> KEYSTORE_FILE" "PENDING_SLATE_FILE \<noteq> STORE_FILE" "STORE_FILE \<noteq> PENDING_SLATE_FILE"
  "KEYSTORE_FILE \<noteq> PENDING_SLATE_FILE" "PENDING_SLATE_FILE \<noteq> KEYSTORE_FILE"
  by (simp_all add: KEYSTORE_FILE_def STORE_FILE_def PENDING_SLATE_FILE_def)

lemma and_then_simps [simp]:
  "and_then (finish x) f t = f x t"
  "and_then (println line) f t = f () (t\<lparr>tm_output := tm_output t @ [line]\<rparr>)"
  "and_then (and_then m f) g = and_then m (\<lambda>x. and_then (f x) g)"
  by (auto simp: and_then_def finish_def println_def fun_eq_iff split: prod.splits outcome.splits sum.splits)

lemma and_then_case: "and_then m f t = (case m t of (Ret (Inr x), t) \<Rightarrow> f x t | (Ret (Inl e), t) \<Rightarrow> (err e, t) | (Panic, t) \<Rightarrow> (Panic, t))"
  by (simp add: and_then_def)

lemma and_then_ok [guard_simps]: "and_then m f t = (ok z, t') \<longleftrightarrow> (\<exists>x t1. m t = (ok x, t1) \<and> f x t1 = (ok z, t'))"
  by (auto simp: and_then_def split: prod.splits outcome.splits sum.splits)

lemma and_then_run: "m t = (ok x, t1) \<Longrightarrow> and_then m f t = f x t1"
  by (simp add: and_then_def)

text \<open>A command that leaves a file alone, whatever it ends with.\<close>

definition leaves_file :: "string \<Rightarrow> ('b, 'n, 'a) command \<Rightarrow> bool" where
  "leaves_file path m \<longleftrightarrow> (\<forall>t r t'. m t = (r, t') \<longrightarrow> read_file path t' = read_file path t)"

named_theorems frames

lemma leaves_fileI [intro?]: "(\<And>t. read_file path (snd (m t)) = read_file path t) \<Longrightarrow> leaves_file path m"
  unfolding leaves_file_def by (metis snd_conv)

lemma leaves_fileD: "leaves_file path m \<Longrightarrow> m t = (r, t') \<Longrightarrow> read_file path t' = read_file path t"
  by (simp add: leaves_file_def)

lemma leaves_and_then [frames]:
  assumes "leaves_file path m" and "\<And>x. leaves_file path (f x)"
  shows "leaves_file path (and_then m f)"
  unfolding leaves_file_def
proof (intro allI impI)
  fix t r t'
  assume run: "and_then m f t = (r, t')"
  obtain r1 t1 where m: "m t = (r1, t1)" by fastforce
  show "read_file path t' = read_file path t"
    using run m leaves_fileD [OF assms(1) m] leaves_fileD [OF assms(2)]
    by (auto simp: and_then_def split: outcome.splits sum.splits)
qed

lemma leaves_pure [frames]:
  "leaves_file path (finish x)" "leaves_file path (println line)" "leaves_file path (request f)" "leaves_file path (planning m)"
  "leaves_file path ensure_wallet_dir" "leaves_file path (pending_slate_load cd)" "leaves_file path (read_slate cd slate_in)"
  by (rule leaves_fileI; auto simp: finish_def println_def request_def planning_def ensure_wallet_dir_def pending_slate_load_def
      read_slate_def read_file_def Let_def split: prod.splits outcome.splits option.splits)+

lemma leaves_writes [frames]:
  "path \<noteq> other \<Longrightarrow> leaves_file path (save_file other contents)" "path \<noteq> other \<Longrightarrow> leaves_file path (write_slate cd other sl)"
  "path \<noteq> PENDING_SLATE_FILE \<Longrightarrow> leaves_file path pending_slate_delete"
  by (rule leaves_fileI; auto simp: save_file_def write_slate_def write_file_def pending_slate_delete_def read_file_def
      split: option.splits)+

lemma leaves_wallet_files [frames]:
  "path \<noteq> STORE_FILE \<Longrightarrow> leaves_file path (store_save cd store)" "path \<noteq> KEYSTORE_FILE \<Longrightarrow> leaves_file path (keystore_save_to_file cd ks)"
  unfolding store_save_def keystore_save_to_file_def by (intro frames; assumption)+

lemma leaves_pending_save [frames]: "path \<noteq> PENDING_SLATE_FILE \<Longrightarrow> leaves_file path (pending_slate_save cd pending)"
  unfolding pending_slate_save_def
  by (rule leaves_and_then [OF leaves_pure(5)], cases "pending_to_bytes cd pending")
    (auto intro: leaves_fileI leaves_writes)

lemma leaves_store_load [frames]: "leaves_file path (store_load_or_create cd)"
  unfolding store_load_or_create_def
  by (rule leaves_and_then [OF leaves_pure(5)], rule leaves_fileI) (auto split: option.splits)

lemma leaves_reconcile [frames]: "path \<noteq> STORE_FILE \<Longrightarrow> leaves_file path (reconcile_with_node nc cd port store)"
  unfolding reconcile_with_node_def
  by (rule leaves_and_then [OF leaves_pure(3)]) (auto simp: Let_def split: answer.splits intro!: frames)

lemma leaves_broadcast [frames]:
  "leaves_file path settled \<Longrightarrow> leaves_file path (broadcast cr nc port tx settled)"
  unfolding broadcast_def by (auto split: answer.splits intro!: frames)

lemma keystore_kept: "leaves_file KEYSTORE_FILE m \<Longrightarrow> m t = (r, t') \<Longrightarrow> saved_keystore cd t' = saved_keystore cd t"
  by (simp add: saved_keystore_def leaves_fileD)

lemma keystore_loaded:
  assumes "saved_keystore cd t = Some ks" and "keystore_load_or_create cd seed t = (r, t')"
  shows "saved_keystore cd t' = Some ks" "r = ok k1 \<Longrightarrow> k1 = ks"
proof -
  obtain r1 t1 where e: "ensure_wallet_dir t = (r1, t1)" by fastforce
  have k: "saved_keystore cd t1 = Some ks" using assms(1) keystore_kept [OF leaves_pure(5) e, of cd] by simp
  show "saved_keystore cd t' = Some ks" "r = ok k1 \<Longrightarrow> k1 = ks"
    using assms(2) k by (auto simp: keystore_load_or_create_def and_then_case e saved_keystore_def split: outcome.splits sum.splits)
qed

lemma keystore_saved:
  assumes "ffi_codec_laws cd" "saved_keystore cd t = Some ks" "keystore_save_to_file cd ks' t = (ok (), t')"
  shows "saved_keystore cd t' = Some ks'"
  using assms
  by (auto simp: keystore_save_to_file_def guard_simps ensure_wallet_dir_def save_file_def write_file_def saved_keystore_def
      read_file_def bind_eq_Some_conv split: if_splits option.splits)


section \<open>No index is used twice\<close>

text \<open>Indices taken from a keystore: an interval that ends where the next allocation starts.\<close>

definition taken_between :: "keystore \<Rightarrow> u32 list \<Rightarrow> keystore \<Rightarrow> bool" where
  "taken_between ks used ks' \<longleftrightarrow> ks_seed ks' = ks_seed ks \<and> unat (ks_next_index ks) \<le> unat (ks_next_index ks') \<and> distinct used \<and>
     (\<forall>i \<in> set used. unat (ks_next_index ks) \<le> unat i \<and> unat i < unat (ks_next_index ks'))"

lemma taken_between_trans:
  assumes "taken_between ks used ks1" and "taken_between ks1 used' ks'"
  shows "taken_between ks (used @ used') ks'"
  using assms by (fastforce simp: taken_between_def)

lemma taken_between_later:
  assumes "taken_between ks [] ks1" and "taken_between ks1 used' ks'"
  shows "taken_between ks used' ks'"
  using taken_between_trans [OF assms] by simp

lemma taken_next:
  assumes "index_headroom ks 2" and "d \<le> 2"
  shows "taken_between ks (map (\<lambda>j. ks_next_index ks + of_nat j) [0..<d]) (ks\<lparr>ks_next_index := ks_next_index ks + of_nat d\<rparr>)"
proof -
  have at: "unat (ks_next_index ks + of_nat j) = unat (ks_next_index ks) + j" if "j \<le> d" for j
    using assms that unfolding index_headroom_def unat_FAUCET_INDEX by (simp add: unat_word_ariths unat_of_nat)
  then have "inj_on (\<lambda>j. ks_next_index ks + of_nat j) {0..<d}"
    by (intro inj_onI) (metis add_left_imp_eq atLeastLessThan_iff less_imp_le)
  then show ?thesis using at by (auto simp: taken_between_def distinct_map)
qed

definition plan_indices :: "('p, 's) send_plan \<Rightarrow> u32 list" where
  "plan_indices plan = fst (sp_dest plan) # (case sp_change plan of None \<Rightarrow> [] | Some c \<Rightarrow> [fst c])"

definition change_indices :: "('p, 's) pending_slate \<Rightarrow> u32 list" where
  "change_indices pending = (case ps_change pending of None \<Rightarrow> [] | Some c \<Rightarrow> [ci_index c])"

lemma build_send_taken:
  assumes "index_headroom ks 2" and "build_send_transaction cr treasury_var rnd store amount f ks = Ret (ks', Inr plan)"
  shows "taken_between ks (plan_indices plan) ks'"
proof -
  obtain v :: u64 where dest: "sp_dest plan = (ks_next_index ks, commitment_new cr amount (derive_blinding cr ks (ks_next_index ks)), amount)"
      and change: "sp_change plan = (if 0 < v then Some (ks_next_index ks + 1,
         commitment_new cr v (derive_blinding cr ks (ks_next_index ks + 1)), v) else None)"
      and ks': "ks' = ks\<lparr>ks_next_index := ks_next_index ks + (if 0 < v then 2 else 1)\<rparr>"
    by (rule build_send_outputs [OF assms(2)])
  have "taken_between ks (map (\<lambda>j. ks_next_index ks + of_nat j) [0..<(if 0 < v then 2 else 1)])
      (ks\<lparr>ks_next_index := ks_next_index ks + of_nat (if 0 < v then 2 else 1)\<rparr>)"
    by (rule taken_next [OF assms(1)]) simp
  then show ?thesis by (auto simp: plan_indices_def dest change ks' upt_rec split: if_splits)
qed

lemma build_slate_taken:
  assumes "index_headroom ks 2" and "build_slate cr treasury_var rnd store amount f ks = Ret (ks', Inr (sl, pending, probe))"
  shows "taken_between ks (change_indices pending) ks'" "\<exists>d \<le> 2. ks' = ks\<lparr>ks_next_index := ks_next_index ks + of_nat d\<rparr>"
proof -
  obtain selected where sel: "select_spendable store (amount + f) = Inr selected"
    using assms(2) by (auto simp: build_slate_def Let_def split: sum.splits)
  then obtain blindings where bs: "input_blindings cr treasury_var ks selected = Ret blindings"
    using assms(2) by (auto simp: build_slate_def Let_def guard_simps)
  let ?d = "if 0 < sum_list (map planned_value selected) - (amount + f) then 1 else 0 :: nat"
  have "change_indices pending = map (\<lambda>j. ks_next_index ks + of_nat j) [0..<?d]"
      "ks' = ks\<lparr>ks_next_index := ks_next_index ks + of_nat ?d\<rparr>"
    using assms(2) by (auto simp: build_slate_def sel bs allocate_index_def Let_def change_indices_def split: if_splits)
  then show "taken_between ks (change_indices pending) ks'" "\<exists>d \<le> 2. ks' = ks\<lparr>ks_next_index := ks_next_index ks + of_nat d\<rparr>"
    using taken_next [OF assms(1), of ?d] by (auto intro!: exI [of _ ?d])
qed

lemma headroom_taken:
  assumes "index_headroom ks (n + 2)" and "ks' = ks\<lparr>ks_next_index := ks_next_index ks + of_nat d\<rparr>" "d \<le> 2"
  shows "index_headroom ks' n" "taken_between ks [] ks'"
proof -
  have "index_headroom ks (n + d)" "index_headroom ks 2" using assms(1,3) by (simp_all add: index_headroom_def)
  then show "index_headroom ks' n" "taken_between ks [] ks'"
    using index_headroom_step [of ks n d] taken_next [of ks d] assms(2,3) by (auto simp: taken_between_def)
qed

lemma plan_send_taken:
  assumes "index_headroom ks (2 * length tries)"
    and "plan_send_loop cr treasury_var size_of rnd store amount tries f0 ks = Ret (ks', Inr plan)"
  shows "taken_between ks (plan_indices plan) ks'"
  using assms
proof (induction tries arbitrary: f0 ks)
  case (Cons i tries)
  from Cons.prems obtain ks1 plan1 where b: "build_send_transaction cr treasury_var (rnd i) store amount f0 ks = Ret (ks1, Inr plan1)"
    by (cases "build_send_transaction cr treasury_var (rnd i) store amount f0 ks") (auto split: sum.splits)
  have room: "index_headroom ks (2 * length tries + 2)" "index_headroom ks 2" using Cons.prems(1) by (simp_all add: index_headroom_def)
  show ?case
  proof (cases "required_fee size_of (sp_transaction plan1) \<le> f0")
    case True
    with Cons.prems b build_send_taken [OF room(2) b] show ?thesis by simp
  next
    case False
    with Cons.prems b have later: "plan_send_loop cr treasury_var size_of rnd store amount tries
        (required_fee size_of (sp_transaction plan1)) ks1 = Ret (ks', Inr plan)" by (simp add: Let_def)
    obtain v :: u64 where "ks1 = ks\<lparr>ks_next_index := ks_next_index ks + (if 0 < v then 2 else 1)\<rparr>"
      by (rule build_send_outputs [OF b])
    then obtain d where "ks1 = ks\<lparr>ks_next_index := ks_next_index ks + of_nat d\<rparr>" "d \<le> 2"
      by (cases "0 < v") (auto intro: that [of 1] that [of 2])
    from headroom_taken [OF room(1) this] Cons.IH [OF _ later] show ?thesis by (auto intro: taken_between_later)
  qed
qed simp

lemma create_slate_taken:
  assumes "index_headroom ks (2 * length tries)"
    and "create_slate_loop cr treasury_var size_of rnd store amount tries f0 ks = Ret (ks', Inr (sl, pending))"
  shows "taken_between ks (change_indices pending) ks'"
  using assms
proof (induction tries arbitrary: f0 ks)
  case (Cons i tries)
  from Cons.prems obtain ks1 sl1 pending1 probe1 where
      b: "build_slate cr treasury_var (rnd i) store amount f0 ks = Ret (ks1, Inr (sl1, pending1, probe1))"
    by (cases "build_slate cr treasury_var (rnd i) store amount f0 ks") (auto split: sum.splits)
  have room: "index_headroom ks (2 * length tries + 2)" "index_headroom ks 2" using Cons.prems(1) by (simp_all add: index_headroom_def)
  note first = build_slate_taken [OF room(2) b]
  show ?case
  proof (cases "required_fee size_of probe1 \<le> f0")
    case True
    with Cons.prems b first(1) show ?thesis by auto
  next
    case False
    with Cons.prems b have later: "create_slate_loop cr treasury_var size_of rnd store amount tries
        (required_fee size_of probe1) ks1 = Ret (ks', Inr (sl, pending))" by (simp add: Let_def)
    from first(2) obtain d where "ks1 = ks\<lparr>ks_next_index := ks_next_index ks + of_nat d\<rparr>" "d \<le> 2" by blast
    from headroom_taken [OF room(1) this] Cons.IH [OF _ later] show ?thesis by (auto intro: taken_between_later)
  qed
qed simp

lemma respond_taken:
  assumes "index_headroom ks 2" and "respond_to_slate cr note_nonce k sl ks = (ks', response, owned)"
  shows "taken_between ks [oi_index owned] ks'"
  using assms(2) taken_next [OF assms(1), of 1] by (auto simp: respond_to_slate_def allocate_index_def Let_def)

text \<open>What the commands share up to the keystore's save.\<close>

lemma planned_then:
  assumes "saved_keystore cd t = Some ks"
    and "and_then (keystore_load_or_create cd seed) (\<lambda>ks. and_then (store_load_or_create cd) (\<lambda>store.
      and_then (reconcile_with_node nc cd port store) (\<lambda>store. and_then (planning (plan_of ks store)) (f store)))) t = (ok x, t')"
  obtains store r t1 where "plan_of ks store = Ret r" "f store r t1 = (ok x, t')" "saved_keystore cd t1 = Some ks"
proof -
  from assms(2) obtain ks1 t1 store t2 store' t3 r t4 where
      load: "keystore_load_or_create cd seed t = (ok ks1, t1)" and store: "store_load_or_create cd t1 = (ok store, t2)"
      and rec: "reconcile_with_node nc cd port store t2 = (ok store', t3)"
      and plan: "planning (plan_of ks1 store') t3 = (ok r, t4)" and f: "f store' r t4 = (ok x, t')"
    unfolding and_then_ok by blast
  have "ks1 = ks" "saved_keystore cd t1 = Some ks" using keystore_loaded [OF assms(1) load] by blast+
  moreover have "saved_keystore cd t2 = saved_keystore cd t1" by (rule keystore_kept [OF leaves_store_load store])
  moreover have "saved_keystore cd t3 = saved_keystore cd t2" by (rule keystore_kept [OF leaves_reconcile rec]) simp
  moreover have "plan_of ks1 store' = Ret r" "t4 = t3" using plan by (auto simp: planning_def split: outcome.splits)
  ultimately show thesis using that f by simp
qed

lemma saved_then:
  assumes "ffi_codec_laws cd" "saved_keystore cd t = Some ks" "and_then (keystore_save_to_file cd ks') (\<lambda>_. finish x) t = (ok y, t')"
  shows "saved_keystore cd t' = Some ks'" "y = x"
  using assms keystore_saved [OF assms(1,2)] by (auto simp: guard_simps finish_def)

definition send_indices :: "(('p, 's) send_plan \<times> 'p wallet_store) option \<Rightarrow> u32 list" where
  "send_indices x = (case x of None \<Rightarrow> [] | Some (plan, store) \<Rightarrow> plan_indices plan)"

definition pay_indices :: "(('p, 's) slate \<times> ('p, 's) pending_slate) option \<Rightarrow> u32 list" where
  "pay_indices x = (case x of None \<Rightarrow> [] | Some (sl, pending) \<Rightarrow> change_indices pending)"

definition receive_indices :: "('p, 's) slate \<times> ('p, 's) slate \<times> 'p owned_output_info \<times> 'p wallet_store \<Rightarrow> u32 list" where
  "receive_indices x = (case x of (incoming, response, owned, store) \<Rightarrow> [oi_index owned])"

lemma taken_nothing [simp]: "taken_between ks [] ks"
  by (simp add: taken_between_def)

text \<open>The first halves of \<open>send\<close> and \<open>pay\<close>: plan, then save the keystore.\<close>

lemma plan_and_save_taken:
  assumes laws: "ffi_codec_laws cd" "saved_keystore cd t = Some ks"
    and taken: "\<And>store ks' p. plan_of ks store = Ret (ks', Inr p) \<Longrightarrow> taken_between ks (indices (Some (result store p))) ks'"
    and none: "indices None = []"
    and run: "and_then (keystore_load_or_create cd seed) (\<lambda>ks. and_then (store_load_or_create cd) (\<lambda>store.
      and_then (reconcile_with_node nc cd port store) (\<lambda>store. and_then (planning (plan_of ks store)) (\<lambda>(ks, r).
      case r of Inl e \<Rightarrow> and_then (println (line e)) (\<lambda>_. finish None)
      | Inr p \<Rightarrow> and_then (keystore_save_to_file cd ks) (\<lambda>_. finish (Some (result store p))))))) t = (ok x, t')"
  shows "\<exists>ks'. saved_keystore cd t' = Some ks' \<and> taken_between ks (indices x) ks'"
proof -
  obtain store ks1 r t1 where plan: "plan_of ks store = Ret (ks1, r)" and kept: "saved_keystore cd t1 = Some ks"
      and step: "(case r of Inl e \<Rightarrow> and_then (println (line e)) (\<lambda>_. finish None)
        | Inr p \<Rightarrow> and_then (keystore_save_to_file cd ks1) (\<lambda>_. finish (Some (result store p)))) t1 = (ok x, t')"
    using run by (rule planned_then [OF laws(2)]) (auto split: prod.splits)
  show ?thesis
  proof (cases r)
    case (Inl e)
    with step have "x = None" "saved_keystore cd t' = saved_keystore cd t1"
      by (auto simp: finish_def saved_keystore_def read_file_def)
    then show ?thesis using kept none by auto
  next
    case (Inr p)
    with step have "and_then (keystore_save_to_file cd ks1) (\<lambda>_. finish (Some (result store p))) t1 = (ok x, t')" by simp
    from saved_then [OF laws(1) kept this] taken [of store ks1 p] plan Inr show ?thesis by auto
  qed
qed

lemma send_prepare_taken:
  assumes "ffi_codec_laws cd" "saved_keystore cd t = Some ks" "index_headroom ks 32"
    and "send_prepare cr nc cd treasury_var size_of seed rnd amount port t = (ok x, t')"
  shows "\<exists>ks'. saved_keystore cd t' = Some ks' \<and> taken_between ks (send_indices x) ks'"
  using assms(4) unfolding send_prepare_def
proof (rule plan_and_save_taken [OF assms(1,2), rotated 2])
  fix store ks' plan
  assume "plan_send cr treasury_var size_of rnd store amount CLI_FEE ks = Ret (ks', Inr plan)"
  then show "taken_between ks (send_indices (Some (plan, store))) ks'"
    unfolding plan_send_def send_indices_def option.case prod.case
    by (rule plan_send_taken [rotated]) (use assms(3) in \<open>simp add: MAX_FEE_FIT_ATTEMPTS_def\<close>)
qed (simp add: send_indices_def)

lemma pay_prepare_taken:
  assumes "ffi_codec_laws cd" "saved_keystore cd t = Some ks" "index_headroom ks 32"
    and "pay_prepare cr nc cd treasury_var size_of seed rnd amount port t = (ok x, t')"
  shows "\<exists>ks'. saved_keystore cd t' = Some ks' \<and> taken_between ks (pay_indices x) ks'"
  using assms(4) unfolding pay_prepare_def
proof (rule plan_and_save_taken [OF assms(1,2), rotated 2])
  fix store ks' built
  assume "create_slate cr treasury_var size_of rnd store amount CLI_FEE ks = Ret (ks', Inr built)"
  then have "create_slate_loop cr treasury_var size_of rnd store amount [0..<MAX_FEE_FIT_ATTEMPTS] CLI_FEE ks = Ret (ks', Inr (fst built, snd built))"
    by (simp add: create_slate_def)
  from create_slate_taken [OF _ this] assms(3) show "taken_between ks (pay_indices (Some built)) ks'"
    by (simp add: pay_indices_def MAX_FEE_FIT_ATTEMPTS_def case_prod_unfold)
qed (simp add: pay_indices_def)

lemma receive_prepare_taken:
  assumes "ffi_codec_laws cd" "saved_keystore cd t = Some ks" "index_headroom ks 32"
    and "receive_prepare cr cd seed note_nonce k slate_in t = (ok x, t')"
  shows "\<exists>ks'. saved_keystore cd t' = Some ks' \<and> taken_between ks (receive_indices x) ks'"
proof -
  from assms(4) obtain ks1 t1 store1 t2 sl t3 where
      load: "keystore_load_or_create cd seed t = (ok ks1, t1)" and store: "store_load_or_create cd t1 = (ok store1, t2)"
      and read: "read_slate cd slate_in t2 = (ok sl, t3)"
      and answer: "(let (ks, response, owned) = respond_to_slate cr note_nonce k sl ks1 in
        and_then (keystore_save_to_file cd ks) (\<lambda>_. finish (sl, response, owned, store1))) t3 = (ok x, t')"
    unfolding receive_prepare_def and_then_ok by blast
  obtain ks' resp own where respond: "respond_to_slate cr note_nonce k sl ks1 = (ks', resp, own)" by (cases "respond_to_slate cr note_nonce k sl ks1")
  have save: "and_then (keystore_save_to_file cd ks') (\<lambda>_. finish (sl, resp, own, store1)) t3 = (ok x, t')" using answer by (simp add: respond)
  have "ks1 = ks" "saved_keystore cd t1 = Some ks" using keystore_loaded [OF assms(2) load] by blast+
  moreover have "saved_keystore cd t2 = saved_keystore cd t1" by (rule keystore_kept [OF leaves_store_load store])
  moreover have "saved_keystore cd t3 = saved_keystore cd t2" by (rule keystore_kept [OF leaves_pure(7) read])
  ultimately have kept: "saved_keystore cd t3 = Some ks" "ks1 = ks" by simp_all
  have "index_headroom ks 2" using assms(3) by (simp add: index_headroom_def)
  from respond_taken [OF this] respond kept(2) saved_then [OF assms(1) kept(1) save] show ?thesis
    by (auto simp: receive_indices_def)
qed

text \<open>The contract of a command that builds outputs: when it has done so, the keystore on disk is past their indices. It is what
  keeps indices apart, whatever the command.\<close>

locale allocating_command =
  fixes cd :: "('p, 's, 'b, 'b) ffi_codec" and run :: "('b, 'n, 'a) command" and used :: "'a \<Rightarrow> u32 list"
  assumes takes: "ffi_codec_laws cd \<Longrightarrow> saved_keystore cd t = Some ks \<Longrightarrow> index_headroom ks 32 \<Longrightarrow> run t = (ok x, t') \<Longrightarrow>
    \<exists>ks'. saved_keystore cd t' = Some ks' \<and> taken_between ks (used x) ks'"
begin

lemma extends:
  assumes "ffi_codec_laws cd" "saved_keystore cd t = Some ks" "index_headroom ks 32" "run t = (ok x, t')"
    and "\<exists>ks. saved_keystore cd t = Some ks \<and> taken_between ks0 before ks"
  shows "\<exists>ks. saved_keystore cd t' = Some ks \<and> taken_between ks0 (before @ used x) ks"
  using takes [OF assms(1-4)] assms(2,5) by (auto intro: taken_between_trans)

end

interpretation sending: allocating_command cd "send_prepare cr nc cd treasury_var size_of seed rnd amount port" send_indices
  for cd cr nc treasury_var size_of seed rnd amount port
  by unfold_locales (rule send_prepare_taken)

interpretation paying: allocating_command cd "pay_prepare cr nc cd treasury_var size_of seed rnd amount port" pay_indices
  for cd cr nc treasury_var size_of seed rnd amount port
  by unfold_locales (rule pay_prepare_taken)

interpretation receiving: allocating_command cd "receive_prepare cr cd seed note_nonce k slate_in" receive_indices
  for cd cr seed note_nonce k slate_in
  by unfold_locales (rule receive_prepare_taken)

text \<open>A session of the wallet: commands that get as far as their new index, in any order and on any node, and
  between them anything that leaves the keystore file alone: the rest of a command, a crash, files
  exchanged with other people, another command. The list holds the indices of all outputs that were built.\<close>

inductive wallet_session ::
    "('p::ab_group_add, 's::comm_ring_1) crypto \<Rightarrow> ('p, 's, 'b, 'b) ffi_codec \<Rightarrow> string option \<Rightarrow> (('p, 's) transaction \<Rightarrow> u64 option) \<Rightarrow>
       ('b, 'n) terminal \<Rightarrow> u32 list \<Rightarrow> ('b, 'n) terminal \<Rightarrow> bool"
  for cr cd treasury_var size_of t0 where
  begins: "wallet_session cr cd treasury_var size_of t0 [] t0"
| sends: "wallet_session cr cd treasury_var size_of t0 used t \<Longrightarrow> saved_keystore cd t = Some ks \<Longrightarrow> index_headroom ks 32 \<Longrightarrow>
    send_prepare cr nc cd treasury_var size_of seed rnd amount port t = (ok x, t') \<Longrightarrow>
    wallet_session cr cd treasury_var size_of t0 (used @ send_indices x) t'"
| pays: "wallet_session cr cd treasury_var size_of t0 used t \<Longrightarrow> saved_keystore cd t = Some ks \<Longrightarrow> index_headroom ks 32 \<Longrightarrow>
    pay_prepare cr nc cd treasury_var size_of seed rnd' amount port t = (ok x', t') \<Longrightarrow>
    wallet_session cr cd treasury_var size_of t0 (used @ pay_indices x') t'"
| receives: "wallet_session cr cd treasury_var size_of t0 used t \<Longrightarrow> saved_keystore cd t = Some ks \<Longrightarrow> index_headroom ks 32 \<Longrightarrow>
    receive_prepare cr cd seed note_nonce k slate_in t = (ok x'', t') \<Longrightarrow>
    wallet_session cr cd treasury_var size_of t0 (used @ receive_indices x'') t'"
| elsewhere: "wallet_session cr cd treasury_var size_of t0 used t \<Longrightarrow> saved_keystore cd t' = saved_keystore cd t \<Longrightarrow>
    wallet_session cr cd treasury_var size_of t0 used t'"


text \<open>The halves of the commands that follow are such: they never write the keystore.\<close>

lemma commands_leave_keystore:
  "leaves_file KEYSTORE_FILE (broadcast cr nc port (sp_transaction plan) (store_save cd (plan_settled plan store)))"
  "leaves_file KEYSTORE_FILE (wallet_complete cr nc cd slate_in port)" "leaves_file KEYSTORE_FILE (wallet_show_balance nc cd port)"
  "leaves_file KEYSTORE_FILE (wallet_stake cr nc k stake_value blinding port)"
  "leaves_file KEYSTORE_FILE (store_save cd store)" "leaves_file KEYSTORE_FILE (pending_slate_save cd pending)"
  "slate_out \<noteq> KEYSTORE_FILE \<Longrightarrow> leaves_file KEYSTORE_FILE (write_slate cd slate_out sl)"
  unfolding wallet_complete_def wallet_show_balance_def wallet_stake_def Let_def
  by (auto intro!: frames split: option.splits sum.splits answer.splits)


section \<open>A payment between two wallets\<close>

lemma wallet_ready_updates [simp]:
  "wallet_ready (t\<lparr>tm_files := fs\<rparr>) = wallet_ready t" "wallet_ready (t\<lparr>tm_output := out\<rparr>) = wallet_ready t"
  "wallet_ready (t\<lparr>tm_node := n\<rparr>) = wallet_ready t"
  by (simp_all add: wallet_ready_def)

lemma read_file_updates [simp]:
  "read_file path (t\<lparr>tm_files := fs\<rparr>) = (if tm_readable t path then fs path else None)"
  "read_file path (t\<lparr>tm_output := out\<rparr>) = read_file path t" "read_file path (t\<lparr>tm_node := n\<rparr>) = read_file path t"
  by (simp_all add: read_file_def)

lemma wallet_ready_files:
  assumes "wallet_ready t"
  shows "tm_dir t" "tm_readable t KEYSTORE_FILE" "tm_readable t STORE_FILE" "tm_readable t PENDING_SLATE_FILE"
    "tm_writable t KEYSTORE_FILE" "tm_writable t STORE_FILE" "tm_writable t PENDING_SLATE_FILE"
  using assms by (simp_all add: wallet_ready_def wallet_files_def)

lemma ready_saves:
  assumes "wallet_ready t"
  shows "keystore_save_to_file cd ks t = (ok (), t\<lparr>tm_files := (tm_files t)(KEYSTORE_FILE \<mapsto> keystore_to_bytes cd ks)\<rparr>)"
    "store_save cd store t = (ok (), t\<lparr>tm_files := (tm_files t)(STORE_FILE \<mapsto> store_to_bytes cd store)\<rparr>)"
    "pending_to_bytes cd pending = Some b \<Longrightarrow>
       pending_slate_save cd pending t = (ok (), t\<lparr>tm_files := (tm_files t)(PENDING_SLATE_FILE \<mapsto> b)\<rparr>)"
  using wallet_ready_files [OF assms]
  by (simp_all add: keystore_save_to_file_def store_save_def pending_slate_save_def and_then_case ensure_wallet_dir_def save_file_def
      write_file_def)

lemma ready_loads:
  assumes "wallet_ready t"
  shows "saved_keystore cd t = Some ks \<Longrightarrow> keystore_load_or_create cd seed t = (ok ks, t)"
    "saved_store cd t = Some store \<Longrightarrow> store_load_or_create cd t = (ok store, t)"
  using wallet_ready_files [OF assms]
  by (simp_all add: keystore_load_or_create_def store_load_or_create_def and_then_case ensure_wallet_dir_def saved_keystore_def
      saved_store_def)

lemma ready_reconciles:
  assumes "wallet_ready t" and "set order = cs_utxos (nd_chain (tm_node t))"
  shows "reconcile_with_node (haze_client cr wi io order refusal) cd port store t =
    (ok (reconcile (cs_utxos (nd_chain (tm_node t))) store),
     t\<lparr>tm_files := (tm_files t)(STORE_FILE \<mapsto> store_to_bytes cd (reconcile (cs_utxos (nd_chain (tm_node t))) store))\<rparr>)"
proof -
  have "set (filter (\<lambda>c. c \<in> cs_utxos (nd_chain (tm_node t))) order) = cs_utxos (nd_chain (tm_node t))" using assms(2) by auto
  then show ?thesis
    by (simp add: reconcile_with_node_def request_def haze_client_def handle_list_utxos_def and_then_case finish_def Let_def
        ready_saves(2) [OF assms(1)])
qed

lemma create_slate_books:
  assumes "range_proof_complete cr" and "distinct (map oo_commitment store)"
    and "create_slate cr treasury_var size_of rnd store amount f ks = Ret (ks', Inr (sl, pending))"
  shows "unspent_total (pending_settled pending store) = unspent_total store - (amount + sl_fee sl)"
proof -
  obtain i g ks0 probe where build: "build_slate cr treasury_var (rnd i) store amount g ks0 = Ret (ks', Inr (sl, pending, probe))"
    using assms(3) unfolding create_slate_def by (rule create_slate_loop_attempt [OF assms(1)])
  obtain selected blindings where sel: "select_spendable store (amount + g) = Inr selected"
      "input_blindings cr treasury_var ks0 selected = Ret blindings" "sl_fee sl = g"
      "ps_spent_commitments pending = map planned_commitment selected"
    by (rule build_slate_shape [OF assms(1) build])
  obtain os where os: "selected = map planned os" "mset os \<subseteq># mset store" "\<forall>o' \<in> set os. oo_status o' \<noteq> Spent"
    by (rule select_spendable_selects [OF sel(1)]) blast
  let ?v = "(\<Sum>o' \<leftarrow> os. oo_value o') - (amount + g)"
  have "sum_list (map planned_value selected) = (\<Sum>o' \<leftarrow> os. oo_value o')" by (simp add: os(1) comp_def)
  then have change: "map_option ci_value (ps_change pending) = (if 0 < ?v then Some ?v else None)"
    using build by (auto simp: build_slate_def sel allocate_index_def Let_def split: if_splits)
  have "unspent_total (pending_settled pending store) = unspent_total (fold mark_spent (map oo_commitment os) store) + ?v"
    using change word_gt_0 [of ?v]
    by (cases "ps_change pending") (auto simp: pending_settled_def sel(4) os(1) comp_def add_output_def unspent_total_sum split: if_splits)
  then show ?thesis using unspent_total_marked [OF assms(2) os(2,3)] by (simp add: sel(3))
qed

lemma slate_reads [simp]:
  "ffi_codec_laws cd \<Longrightarrow> slate_to_json cd sl = Some j \<Longrightarrow> slate_from_json cd j = Some sl"
  unfolding ffi_codec_laws_def reads_back_def by (metis option.inject)

text \<open>A path for handing over slates: a file outside the wallet's directory.\<close>

definition exchange_path :: "string \<Rightarrow> ('b, 'n) terminal \<Rightarrow> bool" where
  "exchange_path path t \<longleftrightarrow> \<not> in_wallet_dir path \<and> tm_readable t path \<and> tm_writable t path"

lemma exchange_path_updates [simp]:
  "exchange_path path (t\<lparr>tm_files := fs\<rparr>) = exchange_path path t" "exchange_path path (t\<lparr>tm_output := out\<rparr>) = exchange_path path t"
  "exchange_path path (t\<lparr>tm_node := n\<rparr>) = exchange_path path t"
  by (simp_all add: exchange_path_def)

lemma exchange_path_outside:
  assumes "exchange_path path t"
  shows "path \<noteq> KEYSTORE_FILE" "path \<noteq> STORE_FILE" "path \<noteq> PENDING_SLATE_FILE"
  using assms
  by (auto simp: exchange_path_def in_wallet_dir_def KEYSTORE_FILE_def STORE_FILE_def PENDING_SLATE_FILE_def WALLET_DIR_def)

lemma exchange_writes:
  "exchange_path path t \<Longrightarrow> slate_to_json cd sl = Some j \<Longrightarrow>
     write_slate cd path sl t = (ok (), t\<lparr>tm_files := (tm_files t)(path \<mapsto> j)\<rparr>)"
  by (simp add: exchange_path_def write_slate_def write_file_def)

lemma pay_prepare_runs:
  assumes t: "wallet_ready t" "saved_keystore cd t = Some ks" "saved_store cd t = Some store"
    and node: "set order = cs_utxos (nd_chain (tm_node t))"
    and create: "create_slate cr treasury_var size_of rnd (reconcile (cs_utxos (nd_chain (tm_node t))) store) amount CLI_FEE ks =
      Ret (ks', Inr built)"
  shows "pay_prepare cr (haze_client cr wi io order refusal) cd treasury_var size_of seed rnd amount port t =
    (ok (Some built), t\<lparr>tm_files := (tm_files t)(STORE_FILE \<mapsto> store_to_bytes cd (reconcile (cs_utxos (nd_chain (tm_node t))) store),
      KEYSTORE_FILE \<mapsto> keystore_to_bytes cd ks')\<rparr>)"
  by (simp add: pay_prepare_def and_then_case ready_loads [OF t(1)] t ready_reconciles [OF t(1) node] planning_def create
      ready_saves(1) finish_def)

lemma pay_runs:
  assumes laws: "ffi_codec_laws cd" and t: "wallet_ready t" "exchange_path slate_out t"
    and saved: "saved_keystore cd t = Some ks" "saved_store cd t = Some store"
    and node: "set order = cs_utxos (nd_chain (tm_node t))"
    and create: "create_slate cr treasury_var size_of rnd (reconcile (cs_utxos (nd_chain (tm_node t))) store) amount CLI_FEE ks =
      Ret (ks', Inr (sl, pending))"
  obtains t1 where
    "wallet_pay cr (haze_client cr wi io order refusal) cd treasury_var size_of seed rnd amount slate_out port t = (ok (), t1)"
    "wallet_ready t1" "saved_keystore cd t1 = Some ks'" "saved_store cd t1 = Some (reconcile (cs_utxos (nd_chain (tm_node t))) store)"
    "Option.bind (read_file PENDING_SLATE_FILE t1) (pending_from_bytes cd) = Some pending"
    "Option.bind (tm_files t1 slate_out) (slate_from_json cd) = Some sl" "tm_node t1 = tm_node t"
    "tm_readable t1 = tm_readable t" "tm_writable t1 = tm_writable t"
proof -
  obtain b j where out: "pending_to_bytes cd pending = Some b" "slate_to_json cd sl = Some j" using codec_writes [OF laws] by blast
  let ?store = "reconcile (cs_utxos (nd_chain (tm_node t))) store"
  let ?t1 = "t\<lparr>tm_files := (tm_files t)(STORE_FILE \<mapsto> store_to_bytes cd ?store)\<rparr>"
  let ?t2 = "?t1\<lparr>tm_files := (tm_files ?t1)(KEYSTORE_FILE \<mapsto> keystore_to_bytes cd ks')\<rparr>"
  let ?t3 = "?t2\<lparr>tm_files := (tm_files ?t2)(PENDING_SLATE_FILE \<mapsto> b)\<rparr>"
  let ?t4 = "?t3\<lparr>tm_files := (tm_files ?t3)(slate_out \<mapsto> j)\<rparr>"
  have "pay_prepare cr (haze_client cr wi io order refusal) cd treasury_var size_of seed rnd amount port t = (ok (Some (sl, pending)), ?t2)"
    by (simp add: pay_prepare_runs [OF t(1) saved node create])
  moreover have "pending_slate_save cd pending ?t2 = (ok (), ?t3)" by (rule ready_saves) (simp_all add: t(1) out(1))
  moreover have "write_slate cd slate_out sl ?t3 = (ok (), ?t4)" by (rule exchange_writes) (simp_all add: t(2) out(2))
  ultimately obtain lines where run: "wallet_pay cr (haze_client cr wi io order refusal) cd treasury_var size_of seed rnd amount slate_out port t =
      (ok (), ?t4\<lparr>tm_output := lines\<rparr>)"
    by (simp add: wallet_pay_def and_then_case println_def del: terminal.update_convs)
  show thesis
    by (rule that [OF run]) (use wallet_ready_files [OF t(1)] exchange_path_outside [OF t(2)] in
      \<open>simp_all add: t(1) laws out saved_keystore_def saved_store_def\<close>)
qed

lemma receive_prepare_runs:
  assumes u: "wallet_ready u" "tm_readable u slate_in" "saved_keystore cd u = Some kr" "saved_store cd u = Some rstore"
    and sl: "Option.bind (tm_files u slate_in) (slate_from_json cd) = Some sl"
    and respond: "respond_to_slate cr note_nonce k sl kr = (kr', response, info)"
  shows "receive_prepare cr cd seed note_nonce k slate_in u =
    (ok (sl, response, info, rstore), u\<lparr>tm_files := (tm_files u)(KEYSTORE_FILE \<mapsto> keystore_to_bytes cd kr')\<rparr>)"
proof -
  have "read_slate cd slate_in u = (ok sl, u)"
    using sl u(2) by (auto simp: read_slate_def read_file_def bind_eq_Some_conv)
  then show ?thesis
    by (simp add: receive_prepare_def and_then_case ready_loads [OF u(1)] u respond ready_saves(1) finish_def)
qed

lemma receive_runs:
  assumes laws: "ffi_codec_laws cd" and u: "wallet_ready u" "tm_readable u slate_in" "exchange_path slate_out u"
    and saved: "saved_keystore cd u = Some kr" "saved_store cd u = Some rstore"
    and sl: "Option.bind (tm_files u slate_in) (slate_from_json cd) = Some sl"
    and respond: "respond_to_slate cr note_nonce k sl kr = (kr', response, info)"
  obtains u1 where "wallet_receive cr cd seed note_nonce k slate_in slate_out u = (ok (), u1)"
    "saved_keystore cd u1 = Some kr'"
    "saved_store cd u1 = Some (rstore @ [pending_entry (oi_index info, oi_commitment info, oi_value info)])"
    "Option.bind (tm_files u1 slate_out) (slate_from_json cd) = Some response"
proof -
  obtain j where out: "slate_to_json cd response = Some j" using codec_writes [OF laws] by blast
  let ?store = "add_output (oi_index info) (oi_value info) (oi_commitment info) Pending rstore"
  let ?u1 = "u\<lparr>tm_files := (tm_files u)(KEYSTORE_FILE \<mapsto> keystore_to_bytes cd kr')\<rparr>"
  let ?u2 = "?u1\<lparr>tm_files := (tm_files ?u1)(STORE_FILE \<mapsto> store_to_bytes cd ?store)\<rparr>"
  let ?u3 = "?u2\<lparr>tm_files := (tm_files ?u2)(slate_out \<mapsto> j)\<rparr>"
  have "receive_prepare cr cd seed note_nonce k slate_in u = (ok (sl, response, info, rstore), ?u1)"
    by (rule receive_prepare_runs [OF u(1,2) saved sl respond])
  moreover have "store_save cd ?store ?u1 = (ok (), ?u2)" by (rule ready_saves) (simp add: u(1))
  moreover have "write_slate cd slate_out response ?u2 = (ok (), ?u3)" by (rule exchange_writes) (simp_all add: u(3) out)
  ultimately obtain lines where run: "wallet_receive cr cd seed note_nonce k slate_in slate_out u = (ok (), ?u3\<lparr>tm_output := lines\<rparr>)"
    by (simp add: wallet_receive_def and_then_case println_def del: terminal.update_convs)
  show thesis
    by (rule that [OF run]) (use wallet_ready_files [OF u(1)] exchange_path_outside [OF u(3)] in
      \<open>simp_all add: laws out saved_keystore_def saved_store_def add_output_def pending_entry_def planned_value_def planned_commitment_def\<close>)
qed

lemma complete_runs:
  assumes laws: "ffi_codec_laws cd" and t: "wallet_ready t" "tm_readable t slate_in"
    and saved: "saved_store cd t = Some store" "Option.bind (read_file PENDING_SLATE_FILE t) (pending_from_bytes cd) = Some pending"
    and response: "Option.bind (tm_files t slate_in) (slate_from_json cd) = Some response" "finalize_slate cr pending response = Inr tx"
    and accepted: "handle_submit_transaction cr wi io tx (tm_node t) = (nd', effs, Json ())"
  obtains t' where "wallet_complete cr (haze_client cr wi io order refusal) cd slate_in port t = (ok (), t')"
    "saved_store cd t' = Some (pending_settled pending store)" "tm_node t' = nd'" "tm_files t' PENDING_SLATE_FILE = None"
proof -
  have read: "read_slate cd slate_in t = (ok response, t)"
    using response(1) t(2) by (auto simp: read_slate_def read_file_def bind_eq_Some_conv)
  have valid: "validate cr tx" using accepted by (auto simp: handle_submit_transaction_def refuse_def split: if_splits)
  have "wallet_ready (t\<lparr>tm_node := n, tm_output := out\<rparr>)" for out n using t(1) by (simp add: wallet_ready_def)
  note ready = ready_loads(2) [OF this] ready_saves(2) [OF this]
  have store: "saved_store cd (t\<lparr>tm_node := n, tm_output := out\<rparr>) = Some store" for out n
    using saved(1) by (simp add: saved_store_def read_file_def split: if_splits)
  obtain lines where run: "wallet_complete cr (haze_client cr wi io order refusal) cd slate_in port t =
      (ok (), t\<lparr>tm_node := nd', tm_output := lines,
        tm_files := (tm_files t)(STORE_FILE \<mapsto> store_to_bytes cd (pending_settled pending store), PENDING_SLATE_FILE := None)\<rparr>)"
    using wallet_ready_files [OF t(1)]
    by (simp add: wallet_complete_def and_then_case pending_slate_load_def saved(2) read response(2) broadcast_def valid println_def
        request_def haze_client_def accepted ready store pending_slate_delete_def Let_def)
  show thesis
    by (rule that [OF run]) (use wallet_ready_files [OF t(1)] in \<open>simp_all add: laws saved_store_def read_file_def\<close>)
qed

lemma reconcile_commitments: "map oo_commitment (reconcile utxos store) = map oo_commitment store"
  by (simp add: reconcile_def reconcile_output_def split: output_status.split)

lemma finalized_fee:
  assumes "range_proof_complete cr" "create_slate cr treasury_var size_of rnd store amount f ks = Ret (ks', Inr (sl, pending))"
    and "finalize_slate cr pending response = Inr tx"
  shows "tx_fee tx = sl_fee sl"
proof -
  obtain i g ks0 probe where build: "build_slate cr treasury_var (rnd i) store amount g ks0 = Ret (ks', Inr (sl, pending, probe))"
    using assms(2) unfolding create_slate_def by (rule create_slate_loop_attempt [OF assms(1)])
  have "sl_fee sl = g" by (rule build_slate_shape [OF assms(1) build])
  moreover have "ps_fee pending = g" by (rule build_slate_shape [OF assms(1) build])
  ultimately show ?thesis
    using assms(3) by (auto simp: finalize_slate_def ok_or_def bind_result_def Let_def tx_fee_def split: option.splits)
qed

text \<open>C22. Two people can pay each other from the command line: when the sender's funds suffice, \<open>pay\<close> on its machine,
  \<open>receive\<close> on the other with the slate file handed over, and \<open>complete\<close> with the response file handed back all end well,
  the node takes the transaction into its mempool, the sender's ledger on disk is worth exactly the amount
  and the fee less than its reconciled ledger was, the receiver's has gained one pending output of the amount that its own
  keystore opens, and the pending slate is gone from the sender's disk.\<close>

theorem command_line_payment:
  fixes cr :: "('p::ab_group_add, 's::comm_ring_1) crypto"
  assumes laws: "module_laws cr" "range_proof_complete cr" "fixed_sizes cr (wi_size wi)" "ffi_codec_laws cd"
    and sender: "wallet_ready t" "saved_keystore cd t = Some ks" "saved_store cd t = Some store"
    and wallet: "wallet_opens cr treasury_var ks store" "store_total store < 2 ^ 64" "distinct (map oo_commitment store)"
    and receiver: "wallet_ready u" "saved_keystore cd u = Some kr" "saved_store cd u = Some rstore"
    and files: "exchange_path slate t" "exchange_path slate u" "exchange_path reply t" "exchange_path reply u"
    and node: "set order = cs_utxos (nd_chain (tm_node t))" "length (mp_txs (nd_mempool (tm_node t))) < MAX_PENDING_TXS"
    and funds: "create_slate cr treasury_var (wi_size wi) rnd (reconcile (cs_utxos (nd_chain (tm_node t))) store) amount CLI_FEE ks =
      Ret (ks', Inr (sl, pending))" "unat amount + unat (sl_fee sl) < 2 ^ 64"
    and nonces: "length note_nonce = 12" "\<forall>i. length (lr_placeholder_nonce (rnd i)) = 12"
  shows "\<exists>t1 u1 t2 tx idx.
    wallet_pay cr (haze_client cr wi io order refusal) cd treasury_var (wi_size wi) seed rnd amount slate port t = (ok (), t1) \<and>
    wallet_receive cr cd rseed note_nonce k slate reply (u\<lparr>tm_files := (tm_files u)(slate := tm_files t1 slate)\<rparr>) = (ok (), u1) \<and>
    wallet_complete cr (haze_client cr wi io order refusal) cd reply port (t1\<lparr>tm_files := (tm_files t1)(reply := tm_files u1 reply)\<rparr>) =
      (ok (), t2) \<and>
    mp_txs (nd_mempool (tm_node t2)) = mp_txs (nd_mempool (tm_node t)) @ [tx] \<and>
    map_option unspent_total (saved_store cd t2) =
      Some (unspent_total (reconcile (cs_utxos (nd_chain (tm_node t))) store) - (amount + tx_fee tx)) \<and>
    saved_store cd u1 = Some (rstore @ [pending_entry (idx, commitment_new cr amount (derive_blinding cr kr idx), amount)]) \<and>
    tm_files t2 PENDING_SLATE_FILE = None"
proof -
  let ?store = "reconcile (cs_utxos (nd_chain (tm_node t))) store"
  have opens: "wallet_opens cr treasury_var ks ?store" "store_total ?store < 2 ^ 64" "distinct (map oo_commitment ?store)"
    using wallet by (simp_all add: reconcile_opens store_total_reconcile reconcile_commitments)
  obtain t1 where t1: "wallet_pay cr (haze_client cr wi io order refusal) cd treasury_var (wi_size wi) seed rnd amount slate port t = (ok (), t1)"
      "wallet_ready t1" "saved_keystore cd t1 = Some ks'" "saved_store cd t1 = Some ?store"
      "Option.bind (read_file PENDING_SLATE_FILE t1) (pending_from_bytes cd) = Some pending"
      "Option.bind (tm_files t1 slate) (slate_from_json cd) = Some sl" "tm_node t1 = tm_node t"
      "tm_readable t1 = tm_readable t" "tm_writable t1 = tm_writable t"
    by (rule pay_runs [OF laws(4) sender(1) files(1) sender(2,3) node(1) funds(1)])
  obtain kr' response info where respond: "respond_to_slate cr note_nonce k sl kr = (kr', response, info)"
    by (cases "respond_to_slate cr note_nonce k sl kr")
  let ?u = "u\<lparr>tm_files := (tm_files u)(slate := tm_files t1 slate)\<rparr>"
  have u: "wallet_ready ?u" "tm_readable ?u slate" "exchange_path reply ?u" "saved_keystore cd ?u = Some kr" "saved_store cd ?u = Some rstore"
      "Option.bind (tm_files ?u slate) (slate_from_json cd) = Some sl"
    using receiver files(2,4) t1(6) exchange_path_outside [OF files(2)]
    by (simp_all add: saved_keystore_def saved_store_def exchange_path_def read_file_def split: if_splits)
  obtain u1 where u1: "wallet_receive cr cd rseed note_nonce k slate reply ?u = (ok (), u1)"
      "saved_store cd u1 = Some (rstore @ [pending_entry (oi_index info, oi_commitment info, oi_value info)])"
      "Option.bind (tm_files u1 reply) (slate_from_json cd) = Some response"
    by (rule receive_runs [OF laws(4) u respond])
  obtain tx where tx: "finalize_slate cr pending response = Inr tx"
      "add_transaction cr (wi_size wi) tx (nd_mempool (tm_node t)) =
        (True, (nd_mempool (tm_node t))\<lparr>mp_txs := mp_txs (nd_mempool (tm_node t)) @ [tx]\<rparr>)"
      "oi_value info = amount" "oi_commitment info = commitment_new cr amount (derive_blinding cr kr (oi_index info))"
    using slate_payment [OF laws(1-3) opens(1,2) funds(1) respond nonces funds(2) node(2)] by blast
  then have fee: "tx_fee tx = sl_fee sl" using finalized_fee [OF laws(2) funds(1)] by blast
  have "\<exists>nd' effs. handle_submit_transaction cr wi io tx (tm_node t) = (nd', effs, Json ())"
    using tx(2) node(2) by (auto simp: submission_accepted add_transaction_def split: if_splits)
  then obtain nd' effs where sub: "handle_submit_transaction cr wi io tx (tm_node t) = (nd', effs, Json ())" by blast
  let ?t = "t1\<lparr>tm_files := (tm_files t1)(reply := tm_files u1 reply)\<rparr>"
  have t: "wallet_ready ?t" "tm_readable ?t reply" "saved_store cd ?t = Some ?store"
      "Option.bind (read_file PENDING_SLATE_FILE ?t) (pending_from_bytes cd) = Some pending"
      "Option.bind (tm_files ?t reply) (slate_from_json cd) = Some response"
      "handle_submit_transaction cr wi io tx (tm_node ?t) = (nd', effs, Json ())"
    using t1 u1(3) sub files(3) exchange_path_outside [OF files(3)]
    by (simp_all add: saved_store_def exchange_path_def read_file_def split: if_splits)
  obtain t2 where "wallet_complete cr (haze_client cr wi io order refusal) cd reply port ?t = (ok (), t2)"
      "saved_store cd t2 = Some (pending_settled pending ?store)" "tm_node t2 = nd'" "tm_files t2 PENDING_SLATE_FILE = None"
    by (rule complete_runs [OF laws(4) t(1-5) tx(1) t(6)])
  with t1(1) u1 submission_queues [OF sub] create_slate_books [OF laws(2) opens(3) funds(1)] tx(3,4) fee show ?thesis
    by (intro exI [of _ t1] exI [of _ u1] exI [of _ t2] exI [of _ tx] exI [of _ "oi_index info"]) simp
qed


section \<open>A damaged keystore\<close>

text \<open>A keystore file that cannot be decoded is replaced: \<open>load_or_create\<close> is documented to draw a seed when no file exists, but
  it does so whenever the file cannot be read, and writes the new keystore over the old bytes. Every
  command starts with it; after \<open>init\<close> the contents of the damaged file are gone.\<close>

theorem damaged_keystore_overwritten:
  assumes "ffi_codec_laws cd" "wallet_ready t" and "tm_files t KEYSTORE_FILE = Some damaged" "keystore_from_bytes cd damaged = None"
  shows "\<exists>t'. wallet_init cr cd seed False t = (ok (), t') \<and>
    tm_files t' KEYSTORE_FILE = Some (keystore_to_bytes cd (keystore_from_seed seed)) \<and>
    saved_keystore cd t' = Some (keystore_from_seed seed)"
proof -
  have "keystore_load_or_create cd seed t =
      (ok (keystore_from_seed seed), t\<lparr>tm_files := (tm_files t)(KEYSTORE_FILE \<mapsto> keystore_to_bytes cd (keystore_from_seed seed))\<rparr>)"
    using wallet_ready_files [OF assms(2)] assms(3,4)
    by (simp add: keystore_load_or_create_def and_then_case ensure_wallet_dir_def read_file_def ready_saves(1) [OF assms(2)] finish_def Let_def)
  then show ?thesis
    using wallet_ready_files [OF assms(2)] assms(1)
    by (simp add: wallet_init_def and_then_case store_load_or_create_def ensure_wallet_dir_def println_def finish_def saved_keystore_def
        split: option.split)
qed


section \<open>The properties at concrete inputs\<close>

text \<open>Blobs and JSON texts as the files of one disk.\<close>

definition joined :: "('p, 's, 'b, 'j) ffi_codec \<Rightarrow> ('p, 's, 'b + 'j, 'b + 'j) ffi_codec" where
  "joined cd = \<lparr>
     keystore_to_bytes = Inl \<circ> keystore_to_bytes cd,
     keystore_from_bytes = case_sum (keystore_from_bytes cd) (\<lambda>_. None),
     store_to_bytes = Inl \<circ> store_to_bytes cd,
     store_from_bytes = case_sum (store_from_bytes cd) (\<lambda>_. None),
     pending_to_bytes = map_option Inl \<circ> pending_to_bytes cd,
     pending_from_bytes = case_sum (pending_from_bytes cd) (\<lambda>_. None),
     tx_to_json = map_option Inr \<circ> tx_to_json cd,
     tx_from_json = case_sum (\<lambda>_. None) (tx_from_json cd),
     slate_to_json = map_option Inr \<circ> slate_to_json cd,
     slate_from_json = case_sum (\<lambda>_. None) (slate_from_json cd),
     mint_to_json = map_option Inr \<circ> mint_to_json cd,
     mint_from_json = case_sum (\<lambda>_. None) (mint_from_json cd),
     scan_from_json = case_sum (\<lambda>_. None) (scan_from_json cd),
     phases_from_json = case_sum (\<lambda>_. Inl ''not JSON'') (phases_from_json cd),
     stake_to_json = map_option Inr \<circ> stake_to_json cd,
     name_to_json = map_option Inr \<circ> name_to_json cd,
     sponsored_to_json = map_option Inr \<circ> sponsored_to_json cd,
     transfer_name_to_json = map_option Inr \<circ> transfer_name_to_json cd,
     transfer_asset_to_json = map_option Inr \<circ> transfer_asset_to_json cd,
     listing_to_json = map_option Inr \<circ> listing_to_json cd,
     cancel_to_json = map_option Inr \<circ> cancel_to_json cd,
     launch_to_json = map_option Inr \<circ> launch_to_json cd,
     allowlist_to_json = map_option Inr \<circ> allowlist_to_json cd\<rparr>"

lemma reads_backI: "(\<And>x. \<exists>b. enc x = Some b \<and> dec b = Some x) \<Longrightarrow> reads_back enc dec"
  by (simp add: reads_back_def)

lemma reads_backE:
  assumes "reads_back enc dec"
  obtains b where "enc x = Some b" "dec b = Some x"
  using assms unfolding reads_back_def by blast

lemma reads_back_joined:
  shows "reads_back enc dec \<Longrightarrow> reads_back (map_option Inl \<circ> enc) (case_sum dec (\<lambda>_. None))"
    and "reads_back enc' dec' \<Longrightarrow> reads_back (map_option Inr \<circ> enc') (case_sum (\<lambda>_. None) dec')"
proof -
  assume r: "reads_back enc dec"
  show "reads_back (map_option Inl \<circ> enc) (case_sum dec (\<lambda>_. None))"
    by (rule reads_backI, rule reads_backE [OF r]) auto
next
  assume r: "reads_back enc' dec'"
  show "reads_back (map_option Inr \<circ> enc') (case_sum (\<lambda>_. None) dec')"
    by (rule reads_backI, rule reads_backE [OF r]) auto
qed

lemma joined_simps:
  "keystore_from_bytes (joined cd) (keystore_to_bytes (joined cd) ks) = keystore_from_bytes cd (keystore_to_bytes cd ks)"
  "store_from_bytes (joined cd) (store_to_bytes (joined cd) store) = store_from_bytes cd (store_to_bytes cd store)"
  "pending_to_bytes (joined cd) = map_option Inl \<circ> pending_to_bytes cd"
  "pending_from_bytes (joined cd) = case_sum (pending_from_bytes cd) (\<lambda>_. None)"
  "tx_to_json (joined cd) = map_option Inr \<circ> tx_to_json cd" "tx_from_json (joined cd) = case_sum (\<lambda>_. None) (tx_from_json cd)"
  "slate_to_json (joined cd) = map_option Inr \<circ> slate_to_json cd" "slate_from_json (joined cd) = case_sum (\<lambda>_. None) (slate_from_json cd)"
  "mint_to_json (joined cd) = map_option Inr \<circ> mint_to_json cd" "mint_from_json (joined cd) = case_sum (\<lambda>_. None) (mint_from_json cd)"
  by (simp_all add: joined_def)

lemma joined_laws: "ffi_codec_laws cd \<Longrightarrow> ffi_codec_laws (joined cd)"
  unfolding ffi_codec_laws_def joined_simps by (intro conjI reads_back_joined; elim conjE; assumption)

type_synonym w_cell = "(wpoint, u64) memory_blob + (wpoint, u64) memory_json"

definition w_files :: "(wpoint, u64, w_cell, w_cell) ffi_codec" where
  "w_files = joined memory_codec"

lemma w_files_laws: "ffi_codec_laws w_files"
  by (simp add: w_files_def joined_laws memory_codec_laws)

definition w_terminal :: "keystore \<Rightarrow> wpoint wallet_store \<Rightarrow> (w_cell, (wpoint, u64) p2p_server) terminal" where
  "w_terminal ks store = \<lparr>tm_dir = True,
     tm_files = [KEYSTORE_FILE \<mapsto> Inl (KeystoreBlob ks), STORE_FILE \<mapsto> Inl (StoreBlob store)],
     tm_readable = (\<lambda>_. True), tm_writable = (\<lambda>_. True), tm_node = w_funded, tm_output = []\<rparr>"

lemma w_terminal_simps [simp]:
  "wallet_ready (w_terminal ks store)" "saved_keystore w_files (w_terminal ks store) = Some ks"
  "saved_store w_files (w_terminal ks store) = Some store" "tm_node (w_terminal ks store) = w_funded"
  by (simp_all add: w_terminal_def wallet_ready_def saved_keystore_def saved_store_def read_file_def w_files_def joined_def)

lemma w_exchange [simp]: "exchange_path ''slate.json'' (w_terminal ks store)" "exchange_path ''reply.json'' (w_terminal ks store)"
  by (simp_all add: exchange_path_def in_wallet_dir_def WALLET_DIR_def w_terminal_def)

definition w_confirmed :: "wpoint wallet_store" where
  "w_confirmed = reconcile (cs_utxos (nd_chain w_funded)) w_wallet"

lemma w_reconciled_select: "select_spendable w_confirmed 35 = Inr [(0, w_com 50 1, 50)]"
  by (simp add: select_spendable_def select_from_def spendable_including_pending_def w_confirmed_def reconcile_def reconcile_output_def
      w_wallet_def w_funded_def)

lemma w_confirmed_slate:
  obtains sl pending where "create_slate w_crypto None (\<lambda>_. Some 952) w_slate_random w_confirmed 30 CLI_FEE w_keys =
      Ret (w_keys\<lparr>ks_next_index := 3\<rparr>, Inr (sl, pending))" "sl_fee sl = 5" "change_indices pending = [2]"
  by (simp add: create_slate_def w_attempts build_slate_def w_reconciled_select w_wallet_eval CLI_FEE_def)
    (simp add: w_keys_def change_indices_def)

definition w_client :: "(wpoint, u64, (wpoint, u64) p2p_server) node_client" where
  "w_client = haze_client w_crypto w_wire (w_io True) [w_com 50 1, w_com 40 1] ''refused''"

definition w_other :: keystore where
  "w_other = keystore_from_seed (replicate 32 9)"

lemma w_utxo_order: "set [w_com 50 1, w_com 40 1] = cs_utxos (nd_chain w_funded)"
  by (simp add: w_funded_def)

lemma w_wire_size: "wi_size w_wire = (\<lambda>_. Some 952)"
  by (simp add: w_wire_def)

theorem command_line_payment_witness:
  "\<exists>t1 u1 t2 tx.
    wallet_pay w_crypto w_client w_files None (wi_size w_wire) [] w_slate_random 30 ''slate.json'' 8332 (w_terminal w_keys w_wallet) = (ok (), t1) \<and>
    wallet_receive w_crypto w_files [] (replicate 12 5) 4 ''slate.json'' ''reply.json''
      ((w_terminal w_other [])\<lparr>tm_files := (tm_files (w_terminal w_other []))(''slate.json'' := tm_files t1 ''slate.json'')\<rparr>) = (ok (), u1) \<and>
    wallet_complete w_crypto w_client w_files ''reply.json'' 8332
      (t1\<lparr>tm_files := (tm_files t1)(''reply.json'' := tm_files u1 ''reply.json'')\<rparr>) = (ok (), t2) \<and>
    mp_txs (nd_mempool (tm_node t2)) = mp_txs (nd_mempool w_funded) @ [tx]"
proof -
  obtain sl pending where sl: "create_slate w_crypto None (\<lambda>_. Some 952) w_slate_random w_confirmed 30 CLI_FEE w_keys =
      Ret (w_keys\<lparr>ks_next_index := 3\<rparr>, Inr (sl, pending))" "sl_fee sl = 5"
    by (rule w_confirmed_slate)
  have size: "fixed_sizes w_crypto (wi_size w_wire)" by (simp add: w_wire_size w_fixed_sizes)
  have node: "set [w_com 50 1, w_com 40 1] = cs_utxos (nd_chain (tm_node (w_terminal w_keys w_wallet)))"
    "length (mp_txs (nd_mempool (tm_node (w_terminal w_keys w_wallet)))) < MAX_PENDING_TXS"
    using w_utxo_order by (simp_all add: w_funded_def w_node_def mempool_new_def MAX_PENDING_TXS_def MAX_TXS_PER_BLOCK_def)
  have funds: "create_slate w_crypto None (wi_size w_wire) w_slate_random
      (reconcile (cs_utxos (nd_chain (tm_node (w_terminal w_keys w_wallet)))) w_wallet) 30 CLI_FEE w_keys =
      Ret (w_keys\<lparr>ks_next_index := 3\<rparr>, Inr (sl, pending))" "unat (30 :: u64) + unat (sl_fee sl) < 2 ^ 64"
    using sl by (simp_all add: w_wire_size w_confirmed_def)
  have nonces: "length (replicate 12 5 :: byte list) = 12" "\<forall>i. length (lr_placeholder_nonce (w_slate_random i)) = 12"
    by (simp_all add: w_slate_random_def)
  show ?thesis
    using command_line_payment [OF w_module_laws w_range_proof_complete size w_files_laws w_terminal_simps(1-3) w_wallet_opens w_wallet_total
        w_wallet_distinct w_terminal_simps(1-3) w_exchange(1) w_exchange(1) w_exchange(2) w_exchange(2) node funds nonces,
        of "w_io True" "''refused''" "[]" 8332 "[]" 4 w_other "[]"]
    unfolding w_client_def w_terminal_simps by blast
qed


end
