(* ===== verification/Startup.thy ===== *)
theory Startup
  imports Cli Storage
begin

text \<open>
  The two programs of the workspace: the node and wallet binary of \<open>src/main.rs\<close>, which reads or creates the chain, parses the
  staking key and the peers and dispatches the wallet's commands, and the offline tool \<open>src/bin/genesis_keygen.rs\<close>,
  which prints the secrets and the public data of the locked genesis outputs. The lemmas show that a node
  boots from the genesis block once and resumes its ledger ever after, that the key a wallet reveals for its
  stake makes the node the proposer of that stake, and that what the tool prints is what the genesis block
  is built from.
\<close>

section \<open>The staking key and the peers\<close>

definition parse_stake_key :: "('p, 's::comm_ring_1) crypto \<Rightarrow> string \<Rightarrow> 's outcome" where
  "parse_stake_key cr s =
     (if length s = 64 \<and> list_all is_ascii_hexdigit s
      then bind_outcome (hex_bytes_or_panic s 32) (\<lambda>bytes. Ret (from_bits cr bytes))
      else bind_outcome (expect (parse_u64 s)) (\<lambda>v. Ret (scalar_of_u64 v)))"

text \<open>\<open>str::split\<close> at a character.\<close>

fun split_at_char :: "char \<Rightarrow> string \<Rightarrow> string list" where
  "split_at_char c [] = [[]]"
| "split_at_char c (x # xs) =
     (if x = c then [] # split_at_char c xs
      else case split_at_char c xs of [] \<Rightarrow> [[x]] | w # ws \<Rightarrow> (x # w) # ws)"

definition seed_peers :: "string option \<Rightarrow> string list" where
  "seed_peers peers =
     (case peers of
        None \<Rightarrow> []
      | Some s \<Rightarrow> filter (\<lambda>p. p \<noteq> []) (map trim (split_at_char (CHR '','') s)))"


section \<open>Booting the chain\<close>

text \<open>The chain a node starts with, and its database; \<open>genesis\<close> is what \<open>genesis_block()\<close> returns. \<open>None\<close> stands for a
  load that does not end.\<close>

definition boot_chain ::
    "('p::ab_group_add, 's::comm_ring_1) crypto \<Rightarrow> ('p, 's) env \<Rightarrow> ('p, 's) disk_codec \<Rightarrow> ('p, 's) block outcome \<Rightarrow> storage \<Rightarrow>
       (('p, 's) chain_state \<times> storage) outcome option" where
  "boot_chain cr en dc genesis sg =
     load_state cr dc sg \<bind> (\<lambda>st.
       if cs_current_height st = 0 \<and> cs_last_block_hash st = zero_hash \<and> Mapping.is_empty (cs_blocks st)
       then case genesis of
              Panic \<Rightarrow> Some Panic
            | Ret b \<Rightarrow> map_option (\<lambda>r. bind_outcome r (\<lambda>(st, res).
                Ret (st, case res of Linear delta \<Rightarrow> fst (persist_applied cr dc delta sg) | _ \<Rightarrow> sg))) (apply_block cr en b st)
       else Some (Ret (st, sg)))"

definition boot_node ::
    "('p::ab_group_add, 's::comm_ring_1) crypto \<Rightarrow> ('p, 's) env \<Rightarrow> ('p, 's) disk_codec \<Rightarrow> string option \<Rightarrow> 's \<Rightarrow> string option \<Rightarrow>
       storage \<Rightarrow> (('p, 's) chain_state \<times> storage \<times> 's option) outcome option" where
  "boot_node cr en dc validator_var k stake_key sg =
     map_option (\<lambda>r. bind_outcome r (\<lambda>(st, sg).
       case stake_key of
         None \<Rightarrow> Ret (st, sg, None)
       | Some s \<Rightarrow> bind_outcome (parse_stake_key cr s) (\<lambda>key. Ret (st, sg, Some key))))
       (boot_chain cr en dc (genesis_block cr (en_codec en) validator_var k) sg)"


section \<open>The wallet's commands\<close>

datatype commands =
    Node string "string option" u16 "string option"
  | Init bool
  | Balance u16
  | Send u64 u16
  | Stake u64 u64 u16
  | Pay u64 string u16
  | Receive string string
  | Complete string u16

text \<open>What a wallet command draws at random: a seed, and the nonces of payments, slates, responses and stakes.\<close>

record 's wallet_random =
  wr_seed :: "byte list"
  wr_send :: "nat \<Rightarrow> 's send_random"
  wr_slate :: "nat \<Rightarrow> 's slate_random"
  wr_note_nonce :: "byte list"
  wr_nonce :: 's

definition run_wallet_command ::
    "('p::ab_group_add, 's::comm_ring_1) crypto \<Rightarrow> ('p, 's, 'n) node_client \<Rightarrow> ('p, 's, 'b, 'b) ffi_codec \<Rightarrow> string option \<Rightarrow>
       (('p, 's) transaction \<Rightarrow> u64 option) \<Rightarrow> 's wallet_random \<Rightarrow> commands \<Rightarrow> ('b, 'n, unit) command option" where
  "run_wallet_command cr nc cd treasury_var size_of rnd c =
     (case c of
        Node bind_addr peers rpc_port stake_key \<Rightarrow> None
      | Init claim \<Rightarrow> Some (wallet_init cr cd (wr_seed rnd) claim)
      | Balance rpc_port \<Rightarrow> Some (wallet_show_balance nc cd rpc_port)
      | Send amount rpc_port \<Rightarrow> Some (wallet_send cr nc cd treasury_var size_of (wr_seed rnd) (wr_send rnd) amount rpc_port)
      | Stake stake_value blinding rpc_port \<Rightarrow> Some (wallet_stake cr nc (wr_nonce rnd) stake_value blinding rpc_port)
      | Pay amount slate_out rpc_port \<Rightarrow>
          Some (wallet_pay cr nc cd treasury_var size_of (wr_seed rnd) (wr_slate rnd) amount slate_out rpc_port)
      | Receive slate_in slate_out \<Rightarrow>
          Some (wallet_receive cr cd (wr_seed rnd) (wr_note_nonce rnd) (wr_nonce rnd) slate_in slate_out)
      | Complete slate_in rpc_port \<Rightarrow> Some (wallet_complete cr nc cd slate_in rpc_port))"


section \<open>The key generator\<close>

text \<open>\<open>secret\<close> and \<open>k\<close> are drawn at random; the result is what is printed, and the data to paste into \<open>genesis.rs\<close>.\<close>

definition locked_output_public :: "('p::ab_group_add, 's::comm_ring_1) crypto \<Rightarrow> 's \<Rightarrow> 's \<Rightarrow> u64 \<Rightarrow> locked_output_data" where
  "locked_output_public cr secret k amount =
     (let excess_blinding = 0 - secret;
          sig = sign cr k (u64_le 0) excess_blinding
      in \<lparr>lod_value = amount,
          commitment_hex = commitment_to_hex cr (commitment_new cr amount secret),
          proof_hex = to_hex (proof_bytes (range_prove cr amount secret)),
          excess_hex = commitment_to_hex cr (commitment_new cr 0 excess_blinding),
          sig_s_hex = to_hex (scalar_bytes cr (sig_s sig)),
          sig_e_hex = to_hex (scalar_bytes cr (sig_e sig))\<rparr>)"

definition gen_locked_output :: "('p::ab_group_add, 's::comm_ring_1) crypto \<Rightarrow> 's \<Rightarrow> 's \<Rightarrow> string \<Rightarrow> u64 \<Rightarrow> string list" where
  "gen_locked_output cr secret k label amount =
     (let public = locked_output_public cr secret k amount
      in [''=== '' @ label @ '' (value='' @ decimal (unat amount) @ '') ==='',
          ''PRIVATE secret (save NOW, never commit): '' @ to_hex (scalar_bytes cr secret),
          ''PUBLIC commitment_hex: '' @ commitment_hex public,
          ''PUBLIC proof_hex:      '' @ proof_hex public,
          ''PUBLIC excess_hex:     '' @ excess_hex public,
          ''PUBLIC sig_s_hex:      '' @ sig_s_hex public,
          ''PUBLIC sig_e_hex:      '' @ sig_e_hex public,
          []])"

definition genesis_keygen :: "('p::ab_group_add, 's::comm_ring_1) crypto \<Rightarrow> (nat \<Rightarrow> 's \<times> 's) \<Rightarrow> string list" where
  "genesis_keygen cr drawn =
     [''Generating real genesis secrets - PRIVATE lines must be saved'',
      ''immediately and never committed anywhere. PUBLIC lines are what'',
      ''goes into core::genesis::LOCKED_OUTPUTS.'', []] @
     concat (map (\<lambda>i. case drawn i of (secret, k) \<Rightarrow> gen_locked_output cr secret k (''team tranche '' @ decimal i) 390000000) [0..<7]) @
     concat (map (\<lambda>i. case drawn (7 + i) of (secret, k) \<Rightarrow> gen_locked_output cr secret k (''investor tranche '' @ decimal i) 390000000) [0..<7]) @
     (case drawn 14 of (secret, k) \<Rightarrow> gen_locked_output cr secret k ''airdrop'' 1260000000) @
     (case drawn 15 of (secret, k) \<Rightarrow>
        gen_locked_output cr secret k ''treasury (also set as HAZE_TREASURY_BLINDING env var wherever the faucet runs)'' 630000000)"


section \<open>What the programs promise\<close>

text \<open>\<open>Scalar::from_bits\<close> of the 32 canonical bytes of a scalar is the scalar, and a range proof is parsed from its own bytes.\<close>

definition bits_laws :: "('p, 's) crypto \<Rightarrow> bool" where
  "bits_laws cr \<longleftrightarrow> (\<forall>a. length (scalar_bytes cr a) = 32 \<and> from_bits cr (scalar_bytes cr a) = a)"

definition proof_laws :: "('p, 's) crypto \<Rightarrow> bool" where
  "proof_laws cr \<longleftrightarrow> (\<forall>v r n. bp_from_bytes cr (bp_prove_single cr ''Haze Range Proof'' v r n) =
     Some (bp_prove_single cr ''Haze Range Proof'' v r n))"

lemma hex_digit_is_hexdigit: "n < 16 \<Longrightarrow> is_ascii_hexdigit (hex_digit n)"
  by (auto simp: is_ascii_hexdigit_def hex_digit_def less_eq_char_def)

lemma to_hex_digits [simp]: "list_all is_ascii_hexdigit (to_hex bs)"
proof -
  have "unat b div 16 < 16" for b :: byte using unat_byte_less [of b] by (simp add: less_mult_imp_div_less)
  then show ?thesis by (induction bs) (simp_all add: to_hex_def hex_byte_def hex_digit_is_hexdigit)
qed

text \<open>The decoders that panic read back what was printed.\<close>

lemma hex_bytes_printed:
  assumes "length bs = n"
  shows "hex_bytes_or_panic (to_hex bs) n = Ret bs" "hex_decode (to_hex bs) = Ret bs"
proof -
  have "\<forall>i \<in> set [0..<n]. 2 * i + 2 \<le> length (to_hex bs)" using assms by auto
  from hex_bytes_total [OF to_hex_digits this] hex_loop_all [OF assms]
  show bytes: "hex_bytes_or_panic (to_hex bs) n = Ret bs" by (auto simp: hex_bytes_or_panic_def)
  have "(length (to_hex bs) + 1) div 2 = n" by (simp add: assms)
  with bytes show "hex_decode (to_hex bs) = Ret bs" by (simp add: hex_decode_def)
qed

lemma printed_scalars:
  assumes "bits_laws cr"
  shows "parse_stake_key cr (to_hex (scalar_bytes cr a)) = Ret a" "scalar_from_hex cr (to_hex (scalar_bytes cr a)) = Ret a"
    "treasury_blinding_from_env cr (Some (to_hex (scalar_bytes cr a))) = Ret (Some a)"
proof -
  have len: "length (scalar_bytes cr a) = 32" "from_bits cr (scalar_bytes cr a) = a" using assms by (simp_all add: bits_laws_def)
  show "parse_stake_key cr (to_hex (scalar_bytes cr a)) = Ret a" "scalar_from_hex cr (to_hex (scalar_bytes cr a)) = Ret a"
    "treasury_blinding_from_env cr (Some (to_hex (scalar_bytes cr a))) = Ret (Some a)"
    using hex_bytes_printed [OF len(1)] hex_loop_all [OF len(1)] len
    by (simp_all add: parse_stake_key_def scalar_from_hex_def treasury_blinding_from_env_def)
qed

text \<open>What the key generator prints works: the public lines, pasted into \<open>genesis.rs\<close>, build an output with a valid range
  proof and a kernel with a valid signature, which balance each other up to the value minted; the output
  opens with the private line, and the private line of the treasury, set as the environment variable, is the blinding the
  faucet spends it with.\<close>

theorem keygen_data_builds:
  fixes cr :: "('p::ab_group_add, 's::comm_ring_1) crypto"
  assumes laws: "module_laws cr" "range_proof_complete cr" "compress_laws cr" "bits_laws cr" "proof_laws cr"
  shows "\<exists>out kern. build_locked_output cr (locked_output_public cr secret k amount) = Ret (out, kern) \<and>
    out_commitment out = commitment_new cr amount secret \<and> range_verify cr (out_proof out) (out_commitment out) \<and>
    kernel_ok cr kern \<and> fee kern = 0 \<and>
    as_point (out_commitment out) + as_point (excess kern) = smul cr (scalar_of_u64 amount) (gen_B cr) \<and>
    treasury_blinding_from_env cr (Some (to_hex (scalar_bytes cr secret))) = Ret (Some secret)"
proof -
  let ?d = "locked_output_public cr secret k amount" and ?sig = "sign cr k (u64_le 0) (0 - secret)"
  let ?kern = "\<lparr>excess = commitment_new cr 0 (0 - secret), fee = 0, kernel_sig = ?sig\<rparr>"
  let ?out = "\<lparr>out_commitment = commitment_new cr amount secret, out_proof = range_prove cr amount secret, out_note = []\<rparr>"
  have parsed: "bp_from_bytes cr (proof_bytes (range_prove cr amount secret)) = Some (proof_bytes (range_prove cr amount secret))"
    using laws(5) by (simp add: proof_laws_def range_prove_def)
  have "build_locked_output cr ?d = Ret (?out, ?kern)"
    using commitment_hex_roundtrip [OF laws(3)] printed_scalars(2) [OF laws(4)] hex_bytes_printed(2) [OF refl] parsed
    by (simp add: build_locked_output_def lod_commitment_def locked_output_public_def Let_def)
  moreover have "kernel_ok cr ?kern" using sign_verify_excess [OF laws(1)] by (simp add: kernel_ok_def)
  moreover have "as_point (commitment_new cr amount secret) + as_point (commitment_new cr 0 (0 - secret)) =
      smul cr (scalar_of_u64 amount) (gen_B cr)"
    using smul_add [OF laws(1), of secret "- secret" "gen_B_blinding cr"]
    by (simp add: commitment_new_zero [OF laws(1)] commitment_new_def smul_zero [OF laws(1)] add.assoc)
  ultimately show ?thesis
    using range_verify_prove [OF laws(2)] printed_scalars(3) [OF laws(4)] by (intro exI [of _ ?out] exI [of _ ?kern]) simp
qed


lemma load_empty: "load_state cr dc open_at = Some chain_new"
  by (simp add: load_state_def open_at_def chain_new_def load_kernels_def load_blocks_def load_utxos_def load_snapshots_def
      load_prune_meta_def load_height_def load_tip_def lookup_empty active_blocks.simps Let_def tree_iter_def map_filter_simps)

text \<open>A node starts from the genesis block once: on an empty database it applies the block and writes it; on a
  database with a chain it resumes the ledger it had, whatever blocks it applied since, and leaves the database as it
  is.\<close>

theorem boots_once:
  fixes cr :: "('p::ab_group_add, 's::comm_ring_1) crypto"
  assumes laws: "compress_laws cr" "disk_laws dc" "\<forall>bs. length (sha256 cr bs) = 32"
    and genesis: "apply_block cr en b chain_new = Some (Ret (st, Linear delta))" "persist_applied cr dc delta open_at = (sg, problem)"
    and later: "journal cr en dc st1 sg1" "cs_last_block_hash st1 \<noteq> zero_hash"
  shows "boot_chain cr en dc (Ret b) open_at = Some (Ret (st, sg)) \<and>
    (\<exists>st'. boot_chain cr en dc (Ret b) sg1 = Some (Ret (st', sg1)) \<and> cs_utxos st' = cs_utxos st1 \<and>
      mset (cs_kernels st') = mset (cs_kernels st1) \<and> cs_current_height st' = cs_current_height st1 \<and>
      cs_last_block_hash st' = cs_last_block_hash st1 \<and> cs_name_registry st' = cs_name_registry st1 \<and>
      cs_asset_registry st' = cs_asset_registry st1)"
proof -
  let ?new = "chain_new :: ('p, 's) chain_state"
  have "cs_current_height ?new = 0" "cs_last_block_hash ?new = zero_hash" "Mapping.is_empty (cs_blocks ?new)"
    by (simp_all add: chain_new_def Mapping.is_empty_def)
  then have "boot_chain cr en dc (Ret b) open_at = Some (Ret (st, sg))"
    by (simp add: boot_chain_def load_empty genesis)
  moreover obtain st' where "load_state cr dc sg1 = Some st'" "cs_utxos st' = cs_utxos st1" "mset (cs_kernels st') = mset (cs_kernels st1)"
      "cs_current_height st' = cs_current_height st1" "cs_last_block_hash st' = cs_last_block_hash st1"
      "cs_name_registry st' = cs_name_registry st1" "cs_asset_registry st' = cs_asset_registry st1"
    using journal_ok [OF laws(1,3) later(1)] load_journal [OF laws] by blast
  ultimately show ?thesis using later(2) by (auto simp: boot_chain_def)
qed

theorem boots_once_witness:
  "\<exists>st sg sg1 st'. boot_chain w_crypto w_env w_disk (Ret w_genesis) open_at = Some (Ret (st, sg)) \<and>
     boot_chain w_crypto w_env w_disk (Ret w_genesis) sg1 = Some (Ret (st', sg1)) \<and> cs_utxos st' = cs_utxos st \<and>
     cs_last_block_hash st' \<noteq> zero_hash"
proof -
  obtain st d sg1 where j: "apply_block w_crypto w_env w_genesis chain_new = Some (Ret (st, Linear d))"
    "journal w_crypto w_env w_disk st sg1" "cs_last_block_hash st \<noteq> zero_hash" by (rule w_genesis_journal)
  obtain sg problem where p: "persist_applied w_crypto w_disk d open_at = (sg, problem)" by (cases "persist_applied w_crypto w_disk d open_at")
  have "\<forall>bs. length (sha256 w_crypto bs) = 32" by (simp add: w_crypto_def w_hash_def)
  from boots_once [OF w_compress_laws w_disk_laws this j(1) p j(2,3)] j(3) show ?thesis by metis
qed

lemma w_bits_laws: "bits_laws w_crypto"
  by (simp add: bits_laws_def w_crypto_def from_le_bytes_le_bytes)

lemma w_proof_laws: "proof_laws w_crypto"
  by (simp add: proof_laws_def w_crypto_def)

theorem keygen_data_builds_witness:
  "\<exists>out kern. build_locked_output w_crypto (locked_output_public w_crypto 7 3 630000000) = Ret (out, kern) \<and>
     out_commitment out = commitment_new w_crypto 630000000 7"
  using keygen_data_builds [OF w_module_laws w_range_proof_complete w_compress_laws w_bits_laws w_proof_laws, of 7 3 630000000] by blast


end
