(* ===== verification/Sync.thy ===== *)
theory Sync
  imports Mempool
begin

text \<open>
  Locks that survive panics (\<open>core/src/sync.rs\<close>). A mutex of the standard library is the value it guards and the flag
  that is set when a thread panics while it holds the guard. A critical section is a function on the guarded value that
  says how far it got and whether it panicked there: a panic may leave the value partly updated. Sections on one mutex
  exclude each other, so an execution is a list of them.
\<close>

record 'a mutex =
  guarded :: 'a
  poisoned :: bool

type_synonym 'a critical_section = "'a \<Rightarrow> 'a \<times> bool"

text \<open>\<open>Mutex::lock\<close>: the guard, inside a \<open>PoisonError\<close> when the mutex is poisoned.\<close>

definition lock :: "'a mutex \<Rightarrow> 'a + 'a" where
  "lock m = (if poisoned m then Inl (guarded m) else Inr (guarded m))"

text \<open>\<open>LockExt::lock_recover\<close>, that is \<open>unwrap_or_else(PoisonError::into_inner)\<close>.\<close>

definition lock_recover :: "'a mutex \<Rightarrow> 'a" where
  "lock_recover m = (case lock m of Inl into_inner \<Rightarrow> into_inner | Inr g \<Rightarrow> g)"

text \<open>\<open>lock().unwrap()\<close>, which the module replaces.\<close>

definition lock_unwrap :: "'a mutex \<Rightarrow> 'a outcome" where
  "lock_unwrap m = (case lock m of Inl e \<Rightarrow> Panic | Inr g \<Rightarrow> Ret g)"

text \<open>Dropping the guard stores what the section left and poisons the mutex when the thread is panicking. A section
  run after \<open>lock().unwrap()\<close> fails without touching the value when the mutex is poisoned. The flag says whether the
  thread survived.\<close>

definition run_section :: "'a critical_section \<Rightarrow> 'a mutex \<Rightarrow> bool \<times> 'a mutex" where
  "run_section f m = (let (x, panicked) = f (lock_recover m)
     in (\<not> panicked, m\<lparr>guarded := x, poisoned := poisoned m \<or> panicked\<rparr>))"

definition run_unwrapped :: "'a critical_section \<Rightarrow> 'a mutex \<Rightarrow> bool \<times> 'a mutex" where
  "run_unwrapped f m = (case lock_unwrap m of
     Panic \<Rightarrow> (False, m)
   | Ret y \<Rightarrow> (let (x, panicked) = f y in (\<not> panicked, m\<lparr>guarded := x, poisoned := poisoned m \<or> panicked\<rparr>)))"

fun run_all :: "('s \<Rightarrow> 'm \<Rightarrow> bool \<times> 'm) \<Rightarrow> 's list \<Rightarrow> 'm \<Rightarrow> bool list \<times> 'm" where
  "run_all run [] m = ([], m)"
| "run_all run (f # fs) m = (let (survived, m1) = run f m; (rest, m2) = run_all run fs m1 in (survived # rest, m2))"


section \<open>Recovery\<close>

lemma lock_recover_guarded [simp]: "lock_recover m = guarded m"
  by (simp add: lock_recover_def lock_def)

lemma lock_unwrap_simps [simp]:
  "poisoned m \<Longrightarrow> lock_unwrap m = Panic"
  "\<not> poisoned m \<Longrightarrow> lock_unwrap m = Ret (guarded m)"
  by (simp_all add: lock_unwrap_def lock_def)

text \<open>Until the first panic the two ways of locking agree.\<close>

lemma unpoisoned_agree: "\<not> poisoned m \<Longrightarrow> run_unwrapped f m = run_section f m"
  by (simp add: run_unwrapped_def run_section_def)

text \<open>With recovery a thread dies of its own panic only: a section whose code does not panic on the value it finds
  survives, whatever happened before, and the values follow the sections one after the other.\<close>

fun own_panics :: "'a critical_section list \<Rightarrow> 'a \<Rightarrow> bool list \<times> 'a" where
  "own_panics [] x = ([], x)"
| "own_panics (f # fs) x = (let (survived, y) = own_panics fs (fst (f x)) in ((\<not> snd (f x)) # survived, y))"

lemma run_section_recovers:
  "fst (run_all run_section fs m) = fst (own_panics fs (guarded m))"
  "guarded (snd (run_all run_section fs m)) = snd (own_panics fs (guarded m))"
  by (induction fs arbitrary: m) (simp_all add: run_section_def split_beta)

text \<open>Without recovery one panic ends the service of the mutex: every later section fails and the value is frozen.\<close>

lemma run_unwrapped_dead:
  assumes "poisoned m"
  shows "run_all run_unwrapped fs m = (replicate (length fs) False, m)"
  using assms by (induction fs) (simp_all add: run_unwrapped_def)

lemma one_panic_bricks:
  assumes "snd (f (guarded m))" and "\<not> poisoned m"
  shows "run_all run_unwrapped (f # fs) m =
    (replicate (Suc (length fs)) False, m\<lparr>guarded := fst (f (guarded m)), poisoned := True\<rparr>)"
  using assms by (simp add: unpoisoned_agree run_section_def split_beta run_unwrapped_dead)


section \<open>Invariants across panics\<close>

text \<open>The price of recovery is that a later section sees what a panic left behind. An invariant of the guarded value
  survives every execution when each section keeps it at its end and at its panics.\<close>

locale panic_safe =
  fixes inv :: "'a \<Rightarrow> bool" and allowed :: "'a critical_section \<Rightarrow> bool"
  assumes section_keeps: "allowed f \<Longrightarrow> inv x \<Longrightarrow> inv (fst (f x))"
begin

lemma own_panics_keep:
  assumes "list_all allowed fs" and "inv x"
  shows "inv (snd (own_panics fs x))"
  using assms by (induction fs arbitrary: x) (simp_all add: section_keeps split_beta)

lemma invariant_survives:
  assumes "list_all allowed fs" and "inv (guarded m)"
  shows "inv (guarded (snd (run_all run_section fs m)))"
  using own_panics_keep [OF assms] by (simp add: run_section_recovers)

end


section \<open>The shared mempool\<close>

text \<open>The mempool sits behind one mutex that every request, peer and the proposer lock. A section on it runs some of
  the mempool's operations and then ends or panics between two of them.\<close>

definition mempool_section ::
    "('p::ab_group_add, 's::comm_ring_1) crypto \<Rightarrow> (('p, 's) transaction \<Rightarrow> u64 option) \<Rightarrow>
       (mint_phase list \<Rightarrow> byte list) \<Rightarrow> ('p, 's) mempool critical_section \<Rightarrow> bool" where
  "mempool_section cr size_of ser f \<longleftrightarrow> (\<forall>mp. (mempool_step cr size_of ser)\<^sup>*\<^sup>* mp (fst (f mp)))"

lemma mempool_steps_ok:
  assumes "(mempool_step cr size_of ser)\<^sup>*\<^sup>* mp mp'" and "mempool_ok cr size_of ser mp"
  shows "mempool_ok cr size_of ser mp'"
  using assms by (induction rule: rtranclp_induct) (blast intro: mempool_step_ok)+

interpretation shared_mempool: panic_safe "mempool_ok cr size_of ser" "mempool_section cr size_of ser"
  by unfold_locales (auto simp: mempool_section_def intro: mempool_steps_ok)

text \<open>Whatever the threads do and wherever they panic, the mempool keeps its bounds, and a later request that does not
  panic itself is served.\<close>

lemma mempool_survives_panics:
  assumes "list_all (mempool_section cr size_of ser) fs"
    and "mempool_ok cr size_of ser (guarded m)"
    and "\<not> snd (f (guarded (snd (run_all run_section fs m))))"
  shows "mempool_ok cr size_of ser (guarded (snd (run_all run_section fs m)))"
    and "fst (run_section f (snd (run_all run_section fs m)))"
  using shared_mempool.invariant_survives [OF assms(1,2)] assms(3) by (simp_all add: run_section_def split_beta)

end
