(* ===== verification/Spec2Isabelle.thy ===== *)
theory Spec2Isabelle
  imports Marketplace Chain_Refinement Chain_History Storage Proposer Wallet Server Faucet Inbox Bindings Wasm Cli Startup Sync
begin

text \<open>
  \<^bold>\<open>A verification library of the Haze node\<close>, a Mimblewimble chain with proof of stake, burned
  registration fees, a name registry, an asset registry with collection drops, and horizon pruning
  (the Rust workspace under \<open>src/\<close>).

  \<^bold>\<open>The program.\<close> Value lives in Pedersen commitments (\<open>crypto/src\<close>). A transaction
  (\<open>core/src/transaction.rs\<close>) balances when inputs minus outputs minus fees is the sum of its signed
  kernel excesses; a batch is aggregated by cut-through. Pending transactions and registry operations
  wait in the mempool (\<open>core/src/mempool.rs\<close>). A validator whose turn it is (\<open>core/src/proposer.rs\<close>)
  assembles them into a block (\<open>core/src/block.rs\<close>), which every node applies to its chain state
  (\<open>core/src/chain.rs\<close>): linearly, or by rolling back to a common ancestor and reapplying a fork.
  Old spent outputs are later pruned from stored blocks (\<open>core/src/compaction.rs\<close>). What is applied is
  written to a database and read back after a restart (\<open>core/src/storage.rs\<close>). Nodes exchange
  transactions, operations and blocks over TCP or WebSocket (\<open>p2p/src\<close>). A wallet (\<open>wallet/src\<close>)
  derives its keys from a seed, selects its outputs, pays with or without the receiver's help and
  recovers its outputs from the chain. Clients submit operations, read the chain, relay messages to each other and draw
  from a faucet over HTTP (\<open>api/src\<close>). Phones and browsers use the wallet through bindings (\<open>src/ffi.rs\<close>, \<open>src/wasm.rs\<close>),
  people at a terminal through its command line (\<open>wallet/src/cli.rs\<close>), which the node's binary (\<open>src/main.rs\<close>) dispatches.

  \<^bold>\<open>The theories\<close>, in the order in which they build on each other:

  \<^item> \<open>Prelude\<close>: word types and byte encodings, the \<open>outcome\<close> type of code that may panic, loops that
    may stop early (\<open>fold_option\<close>), finite maps.
  \<^item> \<open>Crypto\<close>: commitments, Schnorr signatures, range proofs, notes. The primitives of third-party
    crates are the fields of the record \<open>crypto\<close>; the laws a theorem needs (\<open>module_laws\<close>,
    \<open>compress_laws\<close>, \<open>scalar_laws\<close>, \<open>aead_laws\<close>, \<open>range_proof_complete\<close>) are named hypotheses.
    \<open>Word_Instance\<close> gives an executable instance that satisfies all of them, for the witnesses.
  \<^item> \<open>Transaction\<close>, \<open>Merkle\<close>, \<open>Genesis\<close>, \<open>Vesting\<close>: validation and cut-through as multiset
    cancellation; Merkle roots and proofs; the genesis tables; rewards, supply and timelocks.
  \<^item> \<open>Registry\<close>, \<open>Assets\<close>, \<open>Collections\<close>, \<open>Marketplace\<close>, \<open>Validators\<close>, \<open>Block\<close>: the operations a
    block carries, with their signed messages and standalone checks, and the header hash.
  \<^item> \<open>Chain_State\<close>: the record \<open>chain_state\<close> and \<open>apply_linear_block\<close>, split as the source numbers
    its steps into \<open>validate_block\<close> and \<open>commit_block\<close>. \<open>Chain_Apply\<close> proves (locale \<open>op_loop\<close>)
    that the commit never panics and has the closed form \<open>applied_state\<close>. \<open>Chain_Samples\<close> holds
    concrete states and blocks.
  \<^item> \<open>Chain_Safety\<close>, \<open>Chain_Registries\<close>: what an accepted block guarantees: conservation of value,
    existing inputs, timelocks, authorised name and asset changes, drop rules and quotas.
  \<^item> \<open>Chain_Rollback\<close>, \<open>Chain_Reorg\<close>: \<open>rollback_block\<close>, \<open>find_reorg_path\<close>, \<open>apply_block\<close> and the block
    queries. \<open>Chain_Invariant\<close> proves (locale \<open>chain_invariant\<close>, interpreted for six invariants)
    what holds in every reachable state; \<open>Chain_History\<close> the round trip over many blocks and the
    aggregate check of pruned history; \<open>Chain_Refinement\<close> (locale \<open>registry_refinement\<close>) that
    accepted blocks implement abstract registries.
  \<^item> \<open>Mempool\<close> (locales \<open>bounded_queue\<close>, \<open>keyed_queue\<close>, interpreted for the seven queues): admission,
    selection by fee, clearing; the invariant of the whole mempool.
  \<^item> \<open>Proposer\<close> (locale \<open>proposal_filter\<close>, interpreted for the six filters): one round of the
    proposing loop; honest proposals are accepted, stalled chains advance, the mempool drains.
  \<^item> \<open>Compaction\<close>: the pruning pass; it preserves the ledger and every rollback within the horizon.
  \<^item> \<open>Storage\<close>: the database as six trees of bytes, what is written for a delta, and \<open>load_state\<close>, which
    replays the active chain; a restart restores the ledger of a run of blocks.
  \<^item> \<open>Wallet\<close>: key derivation, the ledger of owned outputs, coin selection, self payments, two-party
    slates, recovery; what it builds is admitted by the mempool, and recovery is exact.
  \<^item> \<open>Limits\<close> (locales \<open>sliding_window\<close>, \<open>fair_window\<close>, interpreted for the API, the faucet and a peer
    connection): the request budgets.
  \<^item> \<open>Network\<close>, \<open>Peer\<close>, \<open>Server\<close>: messages, the peer manager and Dandelion routing; the handler of every
    message with batch synchronisation and its aggregate fallback; framing, and the server as a step
    relation over all connections. A transaction is broadcast at most once, and no interleaving of
    messages crashes or corrupts the node, with one exception that is stated as a theorem.
  \<^item> \<open>Http\<close>, \<open>Api\<close>: replies, and the handlers that submit to the node or list its registries; an accepted
    request does what the same operation from a peer does, a refused one does nothing, and listings
    do not depend on the iteration order of hash maps. \<open>Explorer\<close>: the read-only endpoints, with the
    chunked scan of outputs. \<open>Faucet\<close>: start-up, sponsored registrations and payouts from the node's own
    wallet. \<open>Inbox\<close>: the message relay as queues that deliver exactly once.
  \<^item> \<open>Ffi\<close>, \<open>Bindings\<close>: the mobile bindings, call by call, and what they achieve together with the node: payments keep the
    books, requests for names, sales, drops and swept rewards are accepted, reserved slates do not collide, and what a
    seed rotation leaves behind. \<open>Wasm\<close>: the browser bindings, equal to the mobile ones in everything but the
    text of errors.
  \<^item> \<open>Cli\<close> (locale \<open>allocating_command\<close>, interpreted for sending, paying and receiving): the command line as
    commands over a disk, a node and an output; no key is used twice across crashes, and a payment between two
    machines settles. \<open>Startup\<close>: booting the chain, the staking key, the dispatch of commands, the genesis key
    generator.
  \<^item> \<open>Sync\<close> (locale \<open>panic_safe\<close>, interpreted for the mempool behind its mutex): locks that survive panics. With
    recovery a thread fails of its own panic only, without it one panic ends the service.

  \<^bold>\<open>How the model corresponds to the code.\<close> A struct is a record, an enum a datatype, \<open>u64\<close> and
  \<open>u32\<close> are words (so \<open>+\<close> wraps as in a release build), strings are their UTF-8 bytes, \<open>HashMap\<close> and
  \<open>BTreeMap\<close> are \<open>mapping\<close>, \<open>HashSet\<close> is \<open>set\<close>, \<open>Vec\<close> is \<open>list\<close>. An early \<open>return None\<close> or
  \<open>continue\<close> is \<open>None\<close> in the option monad, an \<open>Err\<close> is \<open>Inl\<close>, a panic is \<open>Panic\<close>. Functions on
  \<open>&mut self\<close> take and return the state. Randomness, clocks, the iteration order of hash maps and
  bincode are arguments (\<open>codec\<close>, \<open>disk_codec\<close>, \<open>ffi_codec\<close>, \<open>wire\<close>, \<open>size_of\<close>, \<open>io\<close>, \<open>round_input\<close>, \<open>order\<close>); \<open>env\<close> holds what the node
  computes from its constants and environment at start-up.

  \<^bold>\<open>Loops and fuel.\<close> No fuel is used. Loops over collections are structural; the Merkle loops have a
  measure; the loops that follow \<open>prev_hash\<close> links may not end on an arbitrary store and are partial
  functions into \<open>option\<close>, with termination proved for stores whose links descend
  (\<open>apply_block_total\<close>) and results proved for reachable states (\<open>get_blocks_from_spec\<close>).

  \<^bold>\<open>Limits.\<close> The model is sequential: a proposer round reads the chain once where the source takes its
  lock several times, and a message is handled in one step. What a handler sends is a list of
  \<open>effect\<close>s. Unforgeability of signatures, binding of commitments and collision resistance
  are not assumed as axioms; where a statement depends on one it says so (an explicit relation
  between generators, injectivity on the encodings involved). Several theorems document behaviour
  that differs from the intention: duplicate inputs in a body, timelocks bypassed by fee payments,
  validators lost on rollback, replaced bodies of stored blocks, ambiguous signed messages, adopted
  snapshots, transfers that a restarted node cannot undo, sponsored registrations that spend one output twice,
  seed rotations that strand money, damaged keystores that are overwritten.

  \<^bold>\<open>Not modelled.\<close> Sockets, HTTP routing, the encodings behind bincode and JSON, argument parsing and task spawning,
  the explorer's page and the clients in other languages: input and output around the operations
  modelled here. Writing a file is atomic in the model of the command line. Restart is proved for chains without
  reorganisation.
\<close>

end
